(* ===== verification/Prelude.thy ===== *)
theory Prelude
  imports Complex_Main "HOL-Library.Word" "HOL-Library.Monad_Syntax" "HOL-Library.Multiset"
begin

text \<open>
  Shared vocabulary of the development: machine integers, the treatment of floating point
  numbers, sums over lists, and the collections of facts the component theories extend.

  A C++ \<open>double\<close> is modelled by a \<^typ>\<open>real\<close>: rounding is not modelled. What rounding-free
  arithmetic cannot express, an infinity or a NaN produced by a division by zero or by the
  square root of a negative number, is the value \<^term>\<open>None\<close> of a \<^typ>\<open>real option\<close>
  (see \<open>fdiv\<close> and \<open>fsqrt\<close>), and it is propagated the way the code propagates it.
\<close>

subsection \<open>Integers\<close>

type_synonym u32 = "32 word"

definition size_mul :: "nat \<Rightarrow> nat \<Rightarrow> nat" where
  \<comment> \<open>multiplication of two 64-bit \<open>size_t\<close> values\<close>
  "size_mul a b = (a * b) mod 2 ^ 64"

lemma size_mul_exact [simp]: "a * b < 2 ^ 64 \<Longrightarrow> size_mul a b = a * b"
  by (simp add: size_mul_def)

definition umod :: "int \<Rightarrow> int" where
  \<comment> \<open>an \<open>int\<close> converted to \<open>unsigned int\<close>\<close>
  "umod x = x mod 2 ^ 32"

lemma umod_nonneg [simp]: "0 \<le> x \<Longrightarrow> x < 2 ^ 32 \<Longrightarrow> umod x = x"
  by (simp add: umod_def)

lemma umod_ge [simp]: "0 \<le> umod x"
  by (simp add: umod_def)

definition trunc :: "real \<Rightarrow> int" where
  \<comment> \<open>the conversion of a \<open>double\<close> to an integer\<close>
  "trunc x = (if 0 \<le> x then \<lfloor>x\<rfloor> else \<lceil>x\<rceil>)"

subsection \<open>Floating point\<close>

definition DBL_MIN :: real where
  \<comment> \<open>\<open>std::numeric_limits<double>::min()\<close>, the smallest positive normal number\<close>
  "DBL_MIN = 1 / 2 ^ 1022"

definition DBL_MAX :: real where
  "DBL_MAX = (2 - 1 / 2 ^ 52) * 2 ^ 1023"

lemma DBL_MIN_pos: "0 < DBL_MIN"
  by (simp add: DBL_MIN_def)

lemma DBL_MIN_small: "DBL_MIN \<le> 1 / 1024"
proof -
  have "(1024::real) = 2 ^ 10" by simp
  also have "\<dots> \<le> 2 ^ 1022" by (rule power_increasing) simp_all
  finally have "(1024::real) \<le> 2 ^ 1022" .
  then show ?thesis
    unfolding DBL_MIN_def by (intro divide_left_mono) simp_all
qed

lemma DBL_MAX_large: "1024 \<le> DBL_MAX"
proof -
  have "(1024::real) = 2 ^ 10" by simp
  also have "\<dots> \<le> 2 ^ 1023" by (rule power_increasing) simp_all
  also have "\<dots> = 1 * 2 ^ 1023" by simp
  also have "\<dots> \<le> (2 - 1 / 2 ^ 52) * 2 ^ 1023" by (rule mult_right_mono) simp_all
  finally show ?thesis by (simp only: DBL_MAX_def)
qed

definition is_dbl :: "real \<Rightarrow> bool" where
  \<comment> \<open>in the range of a finite \<open>double\<close>\<close>
  "is_dbl x \<longleftrightarrow> \<bar>x\<bar> \<le> DBL_MAX"

lemma is_dbl_small: "\<bar>x\<bar> \<le> 1024 \<Longrightarrow> is_dbl x"
  using DBL_MAX_large by (simp add: is_dbl_def)

lemma is_dbl_le: "is_dbl x \<Longrightarrow> x \<le> DBL_MAX"
  by (simp add: is_dbl_def)

definition fdiv :: "real \<Rightarrow> real \<Rightarrow> real option" where
  "fdiv a b = (if b = 0 then None else Some (a / b))"

definition fsqrt :: "real \<Rightarrow> real option" where
  "fsqrt a = (if a < 0 then None else Some (sqrt a))"

lemma fdiv_Some [simp]: "b \<noteq> 0 \<Longrightarrow> fdiv a b = Some (a / b)"
  by (simp add: fdiv_def)

lemma fdiv_zero [simp]: "fdiv a 0 = None"
  by (simp add: fdiv_def)

lemma fsqrt_Some [simp]: "0 \<le> a \<Longrightarrow> fsqrt a = Some (sqrt a)"
  by (simp add: fsqrt_def)

subsection \<open>Sums, means and squared deviations over lists\<close>

definition mean :: "real list \<Rightarrow> real" where
  "mean xs = sum_list xs / real (length xs)"

definition sq_dev :: "real \<Rightarrow> real list \<Rightarrow> real" where
  "sq_dev c xs = (\<Sum>x\<leftarrow>xs. (x - c)\<^sup>2)"

lemma sq_dev_nonneg [simp]: "0 \<le> sq_dev c xs"
  unfolding sq_dev_def by (rule sum_list_nonneg) auto

lemma sq_dev_simps [simp]:
  "sq_dev c [] = 0" "sq_dev c (x # xs) = (x - c)\<^sup>2 + sq_dev c xs"
  "sq_dev c (xs @ ys) = sq_dev c xs + sq_dev c ys"
  by (simp_all add: sq_dev_def)

lemma sq_dev_expand:
  "sq_dev c xs = (\<Sum>x\<leftarrow>xs. x * x) - 2 * c * sum_list xs + real (length xs) * c\<^sup>2"
  by (induction xs) (simp_all add: power2_eq_square algebra_simps)

lemma mean_sum: "xs \<noteq> [] \<Longrightarrow> real (length xs) * mean xs = sum_list xs"
  by (simp add: mean_def)

lemma sq_dev_shift:
  assumes "xs \<noteq> []"
  shows "sq_dev c xs = sq_dev (mean xs) xs + real (length xs) * (mean xs - c)\<^sup>2"
  unfolding sq_dev_expand [of c] sq_dev_expand [of "mean xs"]
  by (simp add: mean_sum [OF assms, symmetric] power2_eq_square algebra_simps)

lemma sq_dev_mean:
  assumes "xs \<noteq> []"
  shows "real (length xs) * sq_dev (mean xs) xs
    = real (length xs) * (\<Sum>x\<leftarrow>xs. x * x) - sum_list xs * sum_list xs"
  unfolding sq_dev_expand
  by (simp add: mean_sum [OF assms, symmetric] power2_eq_square algebra_simps)

lemma sq_dev_zero_iff: "sq_dev c xs = 0 \<longleftrightarrow> (\<forall>x\<in>set xs. x = c)"
proof (induction xs)
  case (Cons x xs)
  have "(x - c)\<^sup>2 + sq_dev c xs = 0 \<longleftrightarrow> (x - c)\<^sup>2 = 0 \<and> sq_dev c xs = 0"
    by (rule add_nonneg_eq_0_iff) simp_all
  with Cons show ?case by auto
qed simp

lemma sq_dev_mean_pos:
  assumes "x \<in> set xs" "y \<in> set xs" "x \<noteq> y"
  shows "0 < sq_dev (mean xs) xs"
proof -
  from assms have "sq_dev (mean xs) xs \<noteq> 0"
    by (metis sq_dev_zero_iff)
  then show ?thesis by (simp add: order_less_le)
qed

lemma mean_snoc:
  assumes "xs \<noteq> []"
  shows "mean (xs @ [v]) = mean xs + (v - mean xs) / real (Suc (length xs))"
proof -
  have "mean xs + (v - mean xs) / real (Suc (length xs))
      = (real (length xs) * mean xs + v) / real (Suc (length xs))"
    by (simp add: field_simps)
  with mean_sum [OF assms] show ?thesis by (simp add: mean_def)
qed

text \<open>The update of the sum of squared deviations of Knuth's (Welford's) method.\<close>

lemma sq_dev_snoc:
  assumes "xs \<noteq> []"
  shows "sq_dev (mean (xs @ [v])) (xs @ [v])
    = sq_dev (mean xs) xs + (v - mean xs) * (v - mean (xs @ [v]))"
proof -
  define k e where "k = real (length xs)" and "e = (v - mean xs) / (k + 1)"
  have "k + 1 \<noteq> 0" by (simp add: k_def add_nonneg_eq_0_iff)
  then have v: "v = mean xs + e * (k + 1)" by (simp add: e_def)
  have m: "mean (xs @ [v]) = mean xs + e"
    using mean_snoc [OF assms] by (simp add: k_def e_def add.commute)
  have "k * (mean xs - mean (xs @ [v]))\<^sup>2 + (v - mean (xs @ [v]))\<^sup>2
      = (v - mean xs) * (v - mean (xs @ [v]))"
    unfolding m by (subst (1 2 3) v) (simp add: power2_eq_square algebra_simps)
  then show ?thesis
    using sq_dev_shift [OF assms, of "mean (xs @ [v])"] by (simp add: k_def)
qed

subsection \<open>Lists\<close>

lemma sum_list_tl: "xs \<noteq> [] \<Longrightarrow> sum_list (map f (tl xs)) = sum_list (map f xs) - (f (hd xs) :: real)"
  by (cases xs) simp_all

lemma last_tl_long: "1 < length xs \<Longrightarrow> last (tl xs) = last xs"
  by (cases xs) auto

lemma sorted_count_below:
  assumes "sorted xs" "i < length xs"
  shows "length (filter (\<lambda>x. x < xs ! i) xs) \<le> i"
proof -
  have "filter (\<lambda>x. x < xs ! i) (drop i xs) = []"
    using assms by (auto simp: filter_empty_conv in_set_conv_nth sorted_iff_nth_mono not_less)
  then have "length (filter (\<lambda>x. x < xs ! i) (take i xs @ drop i xs))
      = length (filter (\<lambda>x. x < xs ! i) (take i xs))"
    by (simp only: filter_append length_append) simp
  also have "\<dots> \<le> i"
    by (metis length_filter_le length_take min.cobounded2 order_trans)
  finally show ?thesis by simp
qed

lemma sorted_count_above:
  assumes "sorted xs" "i < length xs"
  shows "length (filter (\<lambda>x. xs ! i < x) xs) \<le> length xs - Suc i"
proof -
  have "filter (\<lambda>x. xs ! i < x) (take (Suc i) xs) = []"
    using assms by (auto simp: filter_empty_conv in_set_conv_nth sorted_iff_nth_mono not_less)
  then have "length (filter (\<lambda>x. xs ! i < x) (take (Suc i) xs @ drop (Suc i) xs))
      = length (filter (\<lambda>x. xs ! i < x) (drop (Suc i) xs))"
    by (simp only: filter_append length_append) simp
  also have "\<dots> \<le> length xs - Suc i"
    by (metis length_filter_le length_drop)
  finally show ?thesis by simp
qed

lemma filter_length_mono:
  "(\<And>x. x \<in> set xs \<Longrightarrow> P x \<Longrightarrow> Q x) \<Longrightarrow> length (filter P xs) \<le> length (filter Q xs)"
  by (induction xs) (auto simp: le_SucI)


subsection \<open>Types shared by several parts of the program\<close>

text \<open>\<open>DEC_GUIDE_MODE\<close> of \<open>src/src/telescope/scope.hpp\<close>, and what the program writes to its configuration
  profile through \<open>ConfigSection\<close> (\<open>src/src/config/config.cpp\<close>).\<close>

datatype dec_guide_mode = DEC_NONE | DEC_AUTO | DEC_NORTH | DEC_SOUTH

text \<open>\<open>GUIDE_DIRECTION\<close> of \<open>src/src/telescope/mount.hpp\<close>; \<open>UP\<close>, \<open>DOWN\<close>, \<open>RIGHT\<close> and \<open>LEFT\<close> are other names of the last four.\<close>

datatype guide_direction = NONE | NORTH | SOUTH | EAST | WEST

datatype cfg_write = SetDouble string real | SetBoolean string bool | SetInt string int | SetString string string

end
