(* ===== verification/GuidingStats.thy ===== *)
theory GuidingStats
  imports Prelude
begin

text \<open>
  \<open>src/src/guiding/guiding_stats.cpp\<close>: the running statistics the guide algorithms and the
  guiding assistant use. \<open>DescriptiveStats\<close> keeps running moments only, \<open>AxisStats\<close> keeps the
  entries of a window with running sums, \<open>WindowedAxisStats\<close> extends it with a window size (a
  record extension here, as it is a subclass there), and the two filters smooth a stream.
\<close>

subsection \<open>DescriptiveStats\<close>

record descriptive_stats =
  ds_count :: int
  ds_runningS :: real
  ds_newS :: real
  ds_runningMean :: real
  ds_newMean :: real
  ds_minValue :: real
  ds_maxValue :: real
  ds_lastValue :: real
  ds_maxDelta :: real

definition ds_ClearAll :: descriptive_stats where
  "ds_ClearAll = \<lparr>ds_count = 0, ds_runningS = 0, ds_newS = 0, ds_runningMean = 0, ds_newMean = 0,
     ds_minValue = DBL_MAX, ds_maxValue = DBL_MIN, ds_lastValue = 0, ds_maxDelta = 0\<rparr>"

definition ds_AddValue :: "descriptive_stats \<Rightarrow> real \<Rightarrow> descriptive_stats" where
  "ds_AddValue s Val =
    (let s = s\<lparr>ds_count := ds_count s + 1\<rparr>;
         s = (if ds_count s = 1
              then s\<lparr>ds_runningMean := Val, ds_newMean := Val, ds_minValue := Val, ds_maxValue := Val,
                     ds_maxDelta := 0\<rparr>
              else let nm = ds_runningMean s + (Val - ds_runningMean s) / of_int (ds_count s);
                       nS = ds_runningS s + (Val - ds_runningMean s) * (Val - nm);
                       newDelta = \<bar>Val - ds_lastValue s\<bar>
                   in s\<lparr>ds_newMean := nm, ds_newS := nS, ds_runningMean := nm, ds_runningS := nS,
                        ds_minValue := min (ds_minValue s) Val, ds_maxValue := max (ds_maxValue s) Val,
                        ds_maxDelta := max (ds_maxDelta s) newDelta\<rparr>)
     in s\<lparr>ds_lastValue := Val\<rparr>)"

definition ds_GetVariance :: "descriptive_stats \<Rightarrow> real" where
  "ds_GetVariance s = (if ds_count s > 1 then ds_runningS s else 0)"

definition ds_GetSigma :: "descriptive_stats \<Rightarrow> real option" where
  "ds_GetSigma s =
    (if ds_count s > 0
     then fdiv (ds_runningS s) (of_int (ds_count s - 1)) \<bind> fsqrt
     else Some 0)"

definition ds_GetPopulationSigma :: "descriptive_stats \<Rightarrow> real option" where
  "ds_GetPopulationSigma s =
    (if ds_count s > 0 then fdiv (ds_runningS s) (of_int (ds_count s)) \<bind> fsqrt else Some 0)"

definition ds_GetMean :: "descriptive_stats \<Rightarrow> real" where
  "ds_GetMean s = (if ds_count s > 0 then ds_runningMean s else 0)"

definition ds_GetSum :: "descriptive_stats \<Rightarrow> real" where
  "ds_GetSum s = (if ds_count s > 0 then ds_runningMean s * of_int (ds_count s) else 0)"

definition ds_GetMinimum :: "descriptive_stats \<Rightarrow> real" where
  "ds_GetMinimum s = (if ds_count s > 0 then ds_minValue s else 0)"

definition ds_GetMaximum :: "descriptive_stats \<Rightarrow> real" where
  "ds_GetMaximum s = (if ds_count s > 0 then ds_maxValue s else 0)"

definition ds_GetMaxDelta :: "descriptive_stats \<Rightarrow> real" where
  "ds_GetMaxDelta s = (if ds_count s > 1 then ds_maxDelta s else 0)"

text \<open>The statistics of a dataset: the constructor clears, then one call per value.\<close>

definition ds_run :: "real list \<Rightarrow> descriptive_stats" where
  "ds_run xs = foldl ds_AddValue ds_ClearAll xs"

fun max_step :: "real list \<Rightarrow> real" where
  \<comment> \<open>specification: the largest absolute difference of consecutive values\<close>
  "max_step (x # y # xs) = max \<bar>y - x\<bar> (max_step (y # xs))"
| "max_step _ = 0"

lemma max_step_nonneg: "0 \<le> max_step xs"
  by (induction xs rule: max_step.induct) auto

lemma max_step_snoc: "xs \<noteq> [] \<Longrightarrow> max_step (xs @ [v]) = max (max_step xs) \<bar>v - last xs\<bar>"
  by (induction xs rule: max_step.induct) (auto simp: max_step_nonneg max.assoc)

definition ds_inv :: "real list \<Rightarrow> descriptive_stats \<Rightarrow> bool" where
  "ds_inv xs s \<longleftrightarrow> ds_count s = int (length xs) \<and> (xs = [] \<longrightarrow> s = ds_ClearAll) \<and>
    (xs \<noteq> [] \<longrightarrow> ds_runningMean s = mean xs \<and> ds_runningS s = sq_dev (mean xs) xs \<and>
      ds_minValue s = Min (set xs) \<and> ds_maxValue s = Max (set xs) \<and>
      ds_lastValue s = last xs \<and> ds_maxDelta s = max_step xs)"

lemma ds_AddValue_inv:
  assumes "ds_inv xs s"
  shows "ds_inv (xs @ [v]) (ds_AddValue s v)"
proof (cases "xs = []")
  case True
  with assms show ?thesis
    by (simp add: ds_inv_def ds_AddValue_def Let_def ds_ClearAll_def mean_def)
next
  case False
  have "Min (set (xs @ [v])) = min (Min (set xs)) v" "Max (set (xs @ [v])) = max (Max (set xs)) v"
    using False by (simp_all add: min.commute max.commute)
  with assms False show ?thesis
    using sq_dev_snoc [OF False, of v]
    by (simp add: ds_inv_def ds_AddValue_def Let_def mean_snoc max_step_snoc
        add.commute del: sq_dev_simps)
qed

lemma ds_run_inv: "ds_inv xs (ds_run xs)"
proof (induction xs rule: rev_induct)
  case Nil
  show ?case by (simp add: ds_inv_def ds_run_def ds_ClearAll_def)
next
  case (snoc v xs)
  then show ?case using ds_AddValue_inv by (simp add: ds_run_def)
qed

subsection \<open>High and low pass filters\<close>

record high_pass =
  hp_alphaCutoff :: real
  hp_count :: real
  hp_prevVal :: real
  hp_hpfResult :: real

definition hp_Reset :: "high_pass \<Rightarrow> high_pass" where
  "hp_Reset f = f\<lparr>hp_count := 0, hp_prevVal := 0, hp_hpfResult := 0\<rparr>"

definition hp_new :: "real \<Rightarrow> real \<Rightarrow> high_pass" where
  \<comment> \<open>the corner period is not negative in the code's uses, so the divisor is at least 1\<close>
  "hp_new CutoffPeriod SamplePeriod = hp_Reset
     \<lparr>hp_alphaCutoff = CutoffPeriod / (CutoffPeriod + max 1 SamplePeriod),
      hp_count = 0, hp_prevVal = 0, hp_hpfResult = 0\<rparr>"

definition hp_AddValue :: "high_pass \<Rightarrow> real \<Rightarrow> high_pass \<times> real" where
  "hp_AddValue f NewVal =
    (let r = (if hp_count f = 0 then NewVal
              else hp_alphaCutoff f * (hp_hpfResult f + NewVal - hp_prevVal f));
         f = f\<lparr>hp_hpfResult := r, hp_prevVal := NewVal, hp_count := hp_count f + 1\<rparr>
     in (f, r))"

record low_pass =
  lp_alphaCutoff :: real
  lp_count :: real
  lp_lpfResult :: real

definition lp_Reset :: "low_pass \<Rightarrow> low_pass" where
  "lp_Reset f = f\<lparr>lp_count := 0, lp_lpfResult := 0\<rparr>"

definition lp_new :: "real \<Rightarrow> real \<Rightarrow> low_pass" where
  "lp_new CutoffPeriod SamplePeriod = lp_Reset
     \<lparr>lp_alphaCutoff = 1 - CutoffPeriod / (CutoffPeriod + max 1 SamplePeriod),
      lp_count = 0, lp_lpfResult = 0\<rparr>"

definition lp_AddValue :: "low_pass \<Rightarrow> real \<Rightarrow> low_pass \<times> real" where
  "lp_AddValue f NewVal =
    (let r = (if lp_count f = 0 then NewVal
              else lp_lpfResult f + lp_alphaCutoff f * (NewVal - lp_lpfResult f));
         f = f\<lparr>lp_lpfResult := r, lp_count := lp_count f + 1\<rparr>
     in (f, r))"

text \<open>
  A low-pass filter only averages: with a smoothing factor between 0 and 1 every output lies
  between the smallest and the largest input seen.
\<close>

fun lp_run :: "low_pass \<Rightarrow> real list \<Rightarrow> low_pass" where
  "lp_run f [] = f"
| "lp_run f (x # xs) = lp_run (fst (lp_AddValue f x)) xs"

definition lp_inv :: "real \<Rightarrow> real \<Rightarrow> low_pass \<Rightarrow> bool" where
  "lp_inv lo hi f \<longleftrightarrow> 0 \<le> lp_alphaCutoff f \<and> lp_alphaCutoff f \<le> 1 \<and> 0 \<le> lp_count f \<and>
     (lp_count f \<noteq> 0 \<longrightarrow> lo \<le> lp_lpfResult f \<and> lp_lpfResult f \<le> hi)"

lemma lp_new_inv:
  assumes "0 \<le> c" shows "lp_inv lo hi (lp_new c p)"
proof -
  have "0 < c + max 1 p" using assms by (simp add: add_nonneg_pos)
  with assms show ?thesis
    by (simp add: lp_inv_def lp_new_def lp_Reset_def field_simps)
qed

lemma convex_between:
  fixes a :: real
  assumes "0 \<le> a" "a \<le> 1" "lo \<le> x" "x \<le> hi" "lo \<le> y" "y \<le> hi"
  shows "lo \<le> x + a * (y - x) \<and> x + a * (y - x) \<le> hi"
proof -
  have "x + a * (y - x) = (1 - a) * x + a * y" by (simp add: algebra_simps)
  moreover have "(1 - a) * lo + a * lo \<le> (1 - a) * x + a * y"
    using assms by (intro add_mono mult_left_mono) auto
  moreover have "(1 - a) * x + a * y \<le> (1 - a) * hi + a * hi"
    using assms by (intro add_mono mult_left_mono) auto
  ultimately show ?thesis by (simp add: algebra_simps)
qed

lemma lp_AddValue_inv:
  assumes "lp_inv lo hi f" "lo \<le> v" "v \<le> hi"
  shows "lp_inv lo hi (fst (lp_AddValue f v))"
    and "lo \<le> snd (lp_AddValue f v) \<and> snd (lp_AddValue f v) \<le> hi"
  using assms convex_between [of "lp_alphaCutoff f" lo "lp_lpfResult f" hi v]
  by (auto simp: lp_inv_def lp_AddValue_def Let_def)

lemma lp_run_inv: "lp_inv lo hi f \<Longrightarrow> \<forall>x\<in>set xs. lo \<le> x \<and> x \<le> hi \<Longrightarrow> lp_inv lo hi (lp_run f xs)"
  by (induction xs arbitrary: f) (auto intro: lp_AddValue_inv)

subsection \<open>AxisStats\<close>

record star_displacement =
  sd_DeltaTime :: real
  sd_StarPos :: real
  sd_Guided :: bool
  sd_Reversal :: bool

definition StarDisplacement :: "real \<Rightarrow> real \<Rightarrow> star_displacement" where
  "StarDisplacement When Where =
    \<lparr>sd_DeltaTime = When, sd_StarPos = Where, sd_Guided = False, sd_Reversal = False\<rparr>"

record axis_stats =
  guidingEntries :: "star_displacement list"
  axisMoves :: u32
  axisReversals :: u32
  prevMove :: real
  prevPosition :: real
  sumX :: real
  sumY :: real
  sumXY :: real
  sumXSq :: real
  sumYSq :: real
  maxDisplacement :: real
  minDisplacement :: real
  maxDelta :: real
  maxDeltaInx :: int

definition as_InitializeScalars :: "'a axis_stats_scheme \<Rightarrow> 'a axis_stats_scheme" where
  "as_InitializeScalars s = s\<lparr>axisMoves := 0, axisReversals := 0, sumY := 0, sumYSq := 0, sumX := 0,
     sumXY := 0, sumXSq := 0, prevPosition := 0, prevMove := 0,
     minDisplacement := DBL_MAX, maxDisplacement := DBL_MIN, maxDelta := 0\<rparr>"

definition as_ClearAll :: "'a axis_stats_scheme \<Rightarrow> 'a axis_stats_scheme" where
  "as_ClearAll s = (as_InitializeScalars s)\<lparr>guidingEntries := []\<rparr>"

definition as_GetEntry :: "'a axis_stats_scheme \<Rightarrow> nat \<Rightarrow> star_displacement" where
  "as_GetEntry s inx =
    (if inx < length (guidingEntries s) then guidingEntries s ! inx else StarDisplacement 0 0)"

definition as_AddGuideInfo :: "'a axis_stats_scheme \<Rightarrow> real \<Rightarrow> real \<Rightarrow> real \<Rightarrow> 'a axis_stats_scheme" where
  "as_AddGuideInfo s DeltaT StarPos GuideAmt =
    (let starInfo = StarDisplacement DeltaT StarPos;
         s = s\<lparr>minDisplacement := min StarPos (minDisplacement s),
               maxDisplacement := max StarPos (maxDisplacement s),
               sumX := sumX s + DeltaT, sumXY := sumXY s + DeltaT * StarPos,
               sumXSq := sumXSq s + DeltaT * DeltaT, sumYSq := sumYSq s + StarPos * StarPos,
               sumY := sumY s + StarPos\<rparr>;
         (s, starInfo) =
           (if GuideAmt \<noteq> 0
            then let starInfo = starInfo\<lparr>sd_Guided := True\<rparr>;
                     s = s\<lparr>axisMoves := axisMoves s + 1\<rparr>;
                     (s, starInfo) =
                       (if GuideAmt * prevMove s < 0
                        then (s\<lparr>axisReversals := axisReversals s + 1\<rparr>, starInfo\<lparr>sd_Reversal := True\<rparr>)
                        else (s, starInfo))
                 in (s\<lparr>prevMove := GuideAmt\<rparr>, starInfo)
            else (s, starInfo));
         s = (if length (guidingEntries s) > 1
              then let newDelta = \<bar>sd_StarPos starInfo - prevPosition s\<bar>
                   in if newDelta \<ge> maxDelta s
                      then s\<lparr>maxDelta := newDelta, maxDeltaInx := int (length (guidingEntries s))\<rparr>
                      else s
              else s)
     in s\<lparr>guidingEntries := guidingEntries s @ [starInfo], prevPosition := StarPos\<rparr>)"

definition as_GetLastEntry :: "'a axis_stats_scheme \<Rightarrow> star_displacement" where
  "as_GetLastEntry s =
    (let sz = length (guidingEntries s)
     in if sz > 0 then guidingEntries s ! (sz - 1) else StarDisplacement 0 0)"

definition as_GetMaxDelta :: "'a axis_stats_scheme \<Rightarrow> real" where
  "as_GetMaxDelta s = (if length (guidingEntries s) > 1 then maxDelta s else 0)"

definition as_GetCount :: "'a axis_stats_scheme \<Rightarrow> nat" where
  "as_GetCount s = length (guidingEntries s)"

definition as_GetMean :: "'a axis_stats_scheme \<Rightarrow> real" where
  "as_GetMean s = (if length (guidingEntries s) > 0
     then sumY s / real (length (guidingEntries s)) else 0)"

definition as_GetVariance :: "'a axis_stats_scheme \<Rightarrow> real" where
  "as_GetVariance s =
    (let sz = length (guidingEntries s); entryCount = real sz
     in if sz > 1
        then (entryCount * sumYSq s - sumY s * sumY s) / (entryCount * (entryCount - 1))
        else 0)"

definition as_GetSigma :: "'a axis_stats_scheme \<Rightarrow> real" where
  "as_GetSigma s =
    (let sz = length (guidingEntries s)
     in if sz > 1
        then let variance = (real sz * sumYSq s - sumY s * sumY s) / real (size_mul sz (sz - 1))
             in if variance \<ge> 0 then sqrt variance else 0
        else 0)"

definition as_GetPopulationSigma :: "'a axis_stats_scheme \<Rightarrow> real" where
  "as_GetPopulationSigma s =
    (let sz = length (guidingEntries s)
     in if sz > 1
        then let variance = (real sz * sumYSq s - sumY s * sumY s) / real (size_mul sz sz)
             in if variance \<ge> 0 then sqrt variance else 0
        else 0)"

definition as_GetMedian :: "'a axis_stats_scheme \<Rightarrow> real" where
  "as_GetMedian s =
    (let sz = length (guidingEntries s)
     in if sz > 1
        then let sortedEntries = sort (map sd_StarPos (guidingEntries s));
                 ctr = length sortedEntries div 2
             in if length sortedEntries mod 2 = 1 then sortedEntries ! ctr
                else (sortedEntries ! ctr + sortedEntries ! (ctr - 1)) / 2
        else if sz = 1 then sd_StarPos (guidingEntries s ! 0)
        else 0)"

definition as_GetMinDisplacement :: "'a axis_stats_scheme \<Rightarrow> real" where
  "as_GetMinDisplacement s = (if length (guidingEntries s) > 0 then minDisplacement s else 0)"

definition as_GetMaxDisplacement :: "'a axis_stats_scheme \<Rightarrow> real" where
  "as_GetMaxDisplacement s = (if length (guidingEntries s) > 0 then maxDisplacement s else 0)"

record linear_fit =
  lf_Slope :: "real option"
  lf_Intercept :: "real option"
  lf_Sigma :: "real option"
  lf_rSquared :: "real option"

text \<open>The loop that applies the fit to the entries; \<open>first\<close> is the code's \<open>inx == 0\<close>.\<close>

fun fit_loop :: "nat \<Rightarrow> real \<Rightarrow> real \<Rightarrow> bool \<Rightarrow> star_displacement list \<Rightarrow> real \<times> real \<Rightarrow> real \<times> real" where
  "fit_loop numVals slope intcpt first [] acc = acc"
| "fit_loop numVals slope intcpt first (e # es) (currentMean, currentVariance) =
    (let newVal = sd_StarPos e - (sd_DeltaTime e * slope + intcpt)
     in if first then fit_loop numVals slope intcpt False es (newVal, currentVariance)
        else let delta = newVal - currentMean;
                 newMean = currentMean + delta / real numVals
             in fit_loop numVals slope intcpt False es (newMean, currentVariance + delta * delta))"

definition as_GetLinearFitResults :: "'a axis_stats_scheme \<Rightarrow> linear_fit" where
  "as_GetLinearFitResults s =
    (let numVals = length (guidingEntries s)
     in if numVals \<le> 1
        then \<lparr>lf_Slope = Some 0, lf_Intercept = Some 0, lf_Sigma = Some 0, lf_rSquared = Some 0\<rparr>
        else
          let n = real numVals;
              slope = fdiv (n * sumXY s - sumX s * sumY s) (n * sumXSq s - sumX s * sumX s);
              intcpt = do { sl \<leftarrow> slope; fdiv (sumY s - sl * sumX s) n };
              sigma = do { sl \<leftarrow> slope; ic \<leftarrow> intcpt;
                           let (m, v) = fit_loop numVals sl ic True (guidingEntries s) (0, 0);
                           q \<leftarrow> fdiv v (real (numVals - 1)); fsqrt q };
              Syy = sumYSq s - (sumY s * sumY s) / n;
              Sxy = sumXY s - (sumX s * sumY s) / n;
              Sxx = sumXSq s - (sumX s * sumX s) / n;
              rSquared = do { q \<leftarrow> fdiv (Sxy * Sxy) Sxx;
                              let SSE = Syy - q;
                              fdiv (Syy - SSE) Syy }
          in \<lparr>lf_Slope = slope, lf_Intercept = intcpt, lf_Sigma = sigma, lf_rSquared = rSquared\<rparr>)"

subsection \<open>WindowedAxisStats\<close>

record windowed_axis_stats = axis_stats +
  autoWindowing :: bool
  windowSize :: int

text \<open>
  The constructor leaves \<open>maxDeltaInx\<close> uninitialised: its value is a parameter.
\<close>

definition was_new :: "int \<Rightarrow> int \<Rightarrow> windowed_axis_stats" where
  "was_new garbage AutoWindowSize =
    as_InitializeScalars
      \<lparr>guidingEntries = [], axisMoves = 0, axisReversals = 0, prevMove = 0, prevPosition = 0,
       sumX = 0, sumY = 0, sumXY = 0, sumXSq = 0, sumYSq = 0, maxDisplacement = 0,
       minDisplacement = 0, maxDelta = 0, maxDeltaInx = garbage,
       autoWindowing = (AutoWindowSize > 0), windowSize = AutoWindowSize\<rparr>"

text \<open>The loop over the entries from index 1 on; \<open>i\<close> is \<open>pGS - guidingEntries.begin()\<close>.\<close>

fun adjust_loop :: "nat \<Rightarrow> real \<Rightarrow> star_displacement list \<Rightarrow> 'a axis_stats_scheme \<Rightarrow> 'a axis_stats_scheme" where
  "adjust_loop i prev [] s = s"
| "adjust_loop i prev (e # es) s =
    (let s = s\<lparr>minDisplacement := min (minDisplacement s) (sd_StarPos e),
               maxDisplacement := max (maxDisplacement s) (sd_StarPos e)\<rparr>;
         s = (if i > 1 \<and> \<bar>sd_StarPos e - prev\<bar> > maxDelta s
              then s\<lparr>maxDelta := \<bar>sd_StarPos e - prev\<bar>, maxDeltaInx := int i\<rparr> else s)
     in adjust_loop (Suc i) (sd_StarPos e) es s)"

definition was_AdjustMinMaxValues :: "'a windowed_axis_stats_scheme \<Rightarrow> 'a windowed_axis_stats_scheme" where
  \<comment> \<open>only called with a nonempty queue: \<open>front()\<close> is its head\<close>
  "was_AdjustMinMaxValues s =
    (let target = hd (guidingEntries s);
         prev = sd_StarPos target;
         recalNeeded = (length (guidingEntries s) > 1 \<and>
           (sd_StarPos target = maxDisplacement s \<or> sd_StarPos target = minDisplacement s \<or>
            maxDeltaInx s = 0));
         s = (if recalNeeded
              then s\<lparr>minDisplacement := DBL_MAX, maxDisplacement := DBL_MIN, maxDelta := 0\<rparr> else s)
     in if recalNeeded then adjust_loop 1 prev (tl (guidingEntries s)) s else s)"

definition was_RemoveOldestEntry :: "'a windowed_axis_stats_scheme \<Rightarrow> 'a windowed_axis_stats_scheme" where
  "was_RemoveOldestEntry s =
    (case guidingEntries s of
       [] \<Rightarrow> s
     | target # _ \<Rightarrow>
        let val = sd_StarPos target;
            deltaT = sd_DeltaTime target;
            s = s\<lparr>sumY := sumY s - val, sumYSq := sumYSq s - val * val, sumX := sumX s - deltaT,
                  sumXSq := sumXSq s - deltaT * deltaT, sumXY := sumXY s - deltaT * val\<rparr>;
            s = (if sd_Reversal target then s\<lparr>axisReversals := axisReversals s - 1\<rparr> else s);
            s = (if sd_Guided target then s\<lparr>axisMoves := axisMoves s - 1\<rparr> else s);
            s = was_AdjustMinMaxValues s;
            s = s\<lparr>guidingEntries := tl (guidingEntries s)\<rparr>
        in s\<lparr>maxDeltaInx := maxDeltaInx s - 1\<rparr>)"

fun remove_oldest_n :: "nat \<Rightarrow> 'a windowed_axis_stats_scheme \<Rightarrow> 'a windowed_axis_stats_scheme" where
  "remove_oldest_n 0 s = s"
| "remove_oldest_n (Suc n) s = remove_oldest_n n (was_RemoveOldestEntry s)"

definition was_ChangeWindowSize :: "'a windowed_axis_stats_scheme \<Rightarrow> u32 \<Rightarrow> 'a windowed_axis_stats_scheme \<times> bool" where
  \<comment> \<open>\<open>GetCount() - NewSize\<close> is an unsigned subtraction read back as a signed \<open>int\<close>\<close>
  "was_ChangeWindowSize s NewSize =
    (if NewSize > 0
     then let numDeletes = sint (of_nat (as_GetCount s) - NewSize);
              s = remove_oldest_n (nat numDeletes) s
          in (s\<lparr>windowSize := sint NewSize, autoWindowing := True\<rparr>, True)
     else (s\<lparr>autoWindowing := False, windowSize := 0\<rparr>, True))"

definition was_AddGuideInfo :: "'a windowed_axis_stats_scheme \<Rightarrow> real \<Rightarrow> real \<Rightarrow> real \<Rightarrow> 'a windowed_axis_stats_scheme" where
  \<comment> \<open>\<open>size() > windowSize\<close> compares a \<open>size_t\<close> with an \<open>int\<close> converted to it\<close>
  "was_AddGuideInfo s DeltaT StarPos GuideAmt =
    (let s = as_AddGuideInfo s DeltaT StarPos GuideAmt
     in if autoWindowing s \<and> int (length (guidingEntries s)) > windowSize s mod 2 ^ 64
        then was_RemoveOldestEntry s else s)"

text \<open>
  The window invariant: the running sums and counters are those of the entries in the window,
  and the extreme values are those of the entries, where the maximum never falls below the
  smallest positive \<open>double\<close> (it starts from \<open>numeric_limits<double>::min()\<close>, which is not the
  most negative one).
\<close>

definition positions :: "'a axis_stats_scheme \<Rightarrow> real list" where
  "positions s = map sd_StarPos (guidingEntries s)"

definition as_sums :: "'a axis_stats_scheme \<Rightarrow> bool" where
  "as_sums s \<longleftrightarrow>
     sumX s = (\<Sum>e\<leftarrow>guidingEntries s. sd_DeltaTime e) \<and>
     sumY s = (\<Sum>e\<leftarrow>guidingEntries s. sd_StarPos e) \<and>
     sumXY s = (\<Sum>e\<leftarrow>guidingEntries s. sd_DeltaTime e * sd_StarPos e) \<and>
     sumXSq s = (\<Sum>e\<leftarrow>guidingEntries s. sd_DeltaTime e * sd_DeltaTime e) \<and>
     sumYSq s = (\<Sum>e\<leftarrow>guidingEntries s. sd_StarPos e * sd_StarPos e) \<and>
     axisMoves s = of_nat (length (filter sd_Guided (guidingEntries s))) \<and>
     axisReversals s = of_nat (length (filter sd_Reversal (guidingEntries s)))"

definition as_extremes :: "'a axis_stats_scheme \<Rightarrow> bool" where
  "as_extremes s \<longleftrightarrow> (\<forall>x\<in>set (positions s). is_dbl x) \<and>
     minDisplacement s = Min (insert DBL_MAX (set (positions s))) \<and>
     maxDisplacement s = Max (insert DBL_MIN (set (positions s)))"

definition as_inv :: "'a axis_stats_scheme \<Rightarrow> bool" where
  "as_inv s \<longleftrightarrow> as_sums s \<and> as_extremes s"

lemmas axis_inv_defs = as_inv_def as_sums_def as_extremes_def positions_def

lemma as_ClearAll_inv: "as_inv (as_ClearAll s)"
  by (simp add: axis_inv_defs as_ClearAll_def as_InitializeScalars_def)

lemma was_new_inv: "as_inv (was_new g w)"
  by (simp add: axis_inv_defs was_new_def as_InitializeScalars_def)

lemma as_AddGuideInfo_entries:
  "\<exists>e. guidingEntries (as_AddGuideInfo s t y g) = guidingEntries s @ [e] \<and>
       sd_DeltaTime e = t \<and> sd_StarPos e = y"
  by (simp add: as_AddGuideInfo_def Let_def StarDisplacement_def)

lemma as_AddGuideInfo_length [simp]:
  "length (guidingEntries (as_AddGuideInfo s t y g)) = Suc (length (guidingEntries s))"
  using as_AddGuideInfo_entries [of s t y g] by auto

lemma as_AddGuideInfo_sums:
  assumes "as_sums s"
  shows "as_sums (as_AddGuideInfo s t y g)"
  using assms by (auto simp: as_sums_def as_AddGuideInfo_def Let_def StarDisplacement_def)

lemma as_AddGuideInfo_minmax:
  "minDisplacement (as_AddGuideInfo s t y g) = min y (minDisplacement s)"
  "maxDisplacement (as_AddGuideInfo s t y g) = max y (maxDisplacement s)"
  by (auto simp: as_AddGuideInfo_def Let_def)

lemma positions_AddGuideInfo: "positions (as_AddGuideInfo s t y g) = positions s @ [y]"
  using as_AddGuideInfo_entries [of s t y g] by (auto simp: positions_def)

lemma as_AddGuideInfo_extremes:
  assumes "as_extremes s" "is_dbl y"
  shows "as_extremes (as_AddGuideInfo s t y g)"
  using assms unfolding as_extremes_def as_AddGuideInfo_minmax positions_AddGuideInfo
  by (auto simp: insert_commute [of _ y])

lemma as_AddGuideInfo_inv: "as_inv s \<Longrightarrow> is_dbl y \<Longrightarrow> as_inv (as_AddGuideInfo s t y g)"
  by (simp add: as_inv_def as_AddGuideInfo_sums as_AddGuideInfo_extremes)

text \<open>The recalculation loop touches only the extreme values, which it recomputes.\<close>

lemma adjust_loop_frame [simp]:
  "guidingEntries (adjust_loop i p es s) = guidingEntries s"
  "sumX (adjust_loop i p es s) = sumX s" "sumY (adjust_loop i p es s) = sumY s"
  "sumXY (adjust_loop i p es s) = sumXY s" "sumXSq (adjust_loop i p es s) = sumXSq s"
  "sumYSq (adjust_loop i p es s) = sumYSq s" "axisMoves (adjust_loop i p es s) = axisMoves s"
  "axisReversals (adjust_loop i p es s) = axisReversals s"
  by (induction i p es s rule: adjust_loop.induct) (simp_all add: Let_def)

lemma adjust_loop_window [simp]:
  fixes s :: "'a windowed_axis_stats_scheme"
  shows "autoWindowing (adjust_loop i p es s) = autoWindowing s"
    and "windowSize (adjust_loop i p es s) = windowSize s"
  by (induction es arbitrary: i p s) (simp_all add: Let_def)

lemma adjust_loop_minmax:
  "minDisplacement (adjust_loop i p es s) = Min (insert (minDisplacement s) (sd_StarPos ` set es))
   \<and> maxDisplacement (adjust_loop i p es s) = Max (insert (maxDisplacement s) (sd_StarPos ` set es))"
proof (induction es arbitrary: i p s)
  case (Cons e es)
  have "Min (insert (min m x) A) = Min (insert m (insert x A))" if "finite A" for m x :: real and A
    using that by (cases "A = {}") (simp_all add: min.assoc)
  moreover have "Max (insert (max m x) A) = Max (insert m (insert x A))" if "finite A" for m x :: real and A
    using that by (cases "A = {}") (simp_all add: max.assoc)
  ultimately show ?case using Cons.IH by (simp add: Let_def)
qed simp

lemma was_Adjust_frame [simp]:
  fixes s :: "'a windowed_axis_stats_scheme"
  shows "guidingEntries (was_AdjustMinMaxValues s) = guidingEntries s"
    "sumX (was_AdjustMinMaxValues s) = sumX s" "sumY (was_AdjustMinMaxValues s) = sumY s"
    "sumXY (was_AdjustMinMaxValues s) = sumXY s" "sumXSq (was_AdjustMinMaxValues s) = sumXSq s"
    "sumYSq (was_AdjustMinMaxValues s) = sumYSq s" "axisMoves (was_AdjustMinMaxValues s) = axisMoves s"
    "axisReversals (was_AdjustMinMaxValues s) = axisReversals s"
    "autoWindowing (was_AdjustMinMaxValues s) = autoWindowing s"
    "windowSize (was_AdjustMinMaxValues s) = windowSize s"
  by (simp_all add: was_AdjustMinMaxValues_def Let_def)

lemma was_Adjust_minmax:
  fixes s :: "'a windowed_axis_stats_scheme"
  assumes "guidingEntries s = e # es" "es \<noteq> []"
    and "minDisplacement s = Min (insert DBL_MAX (sd_StarPos ` set (e # es)))"
    and "maxDisplacement s = Max (insert DBL_MIN (sd_StarPos ` set (e # es)))"
  shows "minDisplacement (was_AdjustMinMaxValues s) = Min (insert DBL_MAX (sd_StarPos ` set es))"
    and "maxDisplacement (was_AdjustMinMaxValues s) = Max (insert DBL_MIN (sd_StarPos ` set es))"
proof -
  let ?A = "sd_StarPos ` set es"
  have drop: "Min (insert m (insert x A)) = Min (insert m A)"
    if "finite A" "x \<noteq> Min (insert m (insert x A))" for m x :: real and A
    using that by (cases "A = {}") (auto simp: min_def split: if_splits)
  have drop': "Max (insert m (insert x A)) = Max (insert m A)"
    if "finite A" "x \<noteq> Max (insert m (insert x A))" for m x :: real and A
    using that by (cases "A = {}") (auto simp: max_def split: if_splits)
  show "minDisplacement (was_AdjustMinMaxValues s) = Min (insert DBL_MAX ?A)"
    using assms drop [of ?A "sd_StarPos e" DBL_MAX]
    by (auto simp: was_AdjustMinMaxValues_def Let_def adjust_loop_minmax)
  show "maxDisplacement (was_AdjustMinMaxValues s) = Max (insert DBL_MIN ?A)"
    using assms drop' [of ?A "sd_StarPos e" DBL_MIN]
    by (auto simp: was_AdjustMinMaxValues_def Let_def adjust_loop_minmax)
qed

lemma was_Remove_entries [simp]:
  "guidingEntries (was_RemoveOldestEntry s) = tl (guidingEntries s)"
  by (auto simp: was_RemoveOldestEntry_def Let_def split: list.split)

lemma was_Remove_window [simp]:
  "autoWindowing (was_RemoveOldestEntry s) = autoWindowing s"
  "windowSize (was_RemoveOldestEntry s) = windowSize s"
  by (auto simp: was_RemoveOldestEntry_def Let_def split: list.split)

lemma was_Remove_sums: "as_sums s \<Longrightarrow> as_sums (was_RemoveOldestEntry s)"
  by (cases "guidingEntries s") (auto simp: as_sums_def was_RemoveOldestEntry_def Let_def)

lemma was_Remove_extremes:
  assumes "as_extremes s" "1 < length (guidingEntries s)"
  shows "as_extremes (was_RemoveOldestEntry s)"
proof -
  obtain e es where s: "guidingEntries s = e # es" and es: "es \<noteq> []"
    using assms(2) by (cases "guidingEntries s") auto
  note mm = was_Adjust_minmax [where e = e and es = es, OF _ es]
  show ?thesis
    using assms(1) s
    by (auto simp: as_extremes_def positions_def was_RemoveOldestEntry_def Let_def mm)
qed

lemma was_Remove_inv: "as_inv s \<Longrightarrow> 1 < length (guidingEntries s) \<Longrightarrow> as_inv (was_RemoveOldestEntry s)"
  by (simp add: as_inv_def was_Remove_sums was_Remove_extremes)

lemma remove_oldest_n_frame [simp]:
  "guidingEntries (remove_oldest_n n s) = drop n (guidingEntries s)"
  "autoWindowing (remove_oldest_n n s) = autoWindowing s"
  "windowSize (remove_oldest_n n s) = windowSize s"
  by (induction n arbitrary: s) (simp_all add: drop_Suc)

lemma remove_oldest_n_inv:
  "as_inv s \<Longrightarrow> n < length (guidingEntries s) \<Longrightarrow> as_inv (remove_oldest_n n s)"
  by (induction n arbitrary: s) (simp_all add: was_Remove_inv)

text \<open>The window is never longer than its size, once one is set.\<close>

definition was_inv :: "'a windowed_axis_stats_scheme \<Rightarrow> bool" where
  "was_inv s \<longleftrightarrow> as_inv s \<and>
     (autoWindowing s \<longrightarrow> 0 < windowSize s \<and> windowSize s < 2 ^ 31 \<and>
        int (length (guidingEntries s)) \<le> windowSize s)"

lemma as_Add_window [simp]:
  fixes s :: "'a windowed_axis_stats_scheme"
  shows "autoWindowing (as_AddGuideInfo s t y g) = autoWindowing s"
    and "windowSize (as_AddGuideInfo s t y g) = windowSize s"
  by (simp_all add: as_AddGuideInfo_def Let_def)

lemma as_inv_update_window [simp]:
  fixes s :: "'a windowed_axis_stats_scheme"
  shows "as_inv (s\<lparr>windowSize := w, autoWindowing := b\<rparr>) = as_inv s"
    and "as_inv (s\<lparr>autoWindowing := b, windowSize := w\<rparr>) = as_inv s"
  by (simp_all add: axis_inv_defs)

lemma was_AddGuideInfo_inv:
  assumes "was_inv s" "is_dbl y"
  shows "was_inv (was_AddGuideInfo s t y g)"
proof -
  let ?s = "as_AddGuideInfo s t y g"
  have inv: "as_inv ?s" using assms by (simp add: was_inv_def as_AddGuideInfo_inv)
  show ?thesis
  proof (cases "autoWindowing s \<and> int (length (guidingEntries ?s)) > windowSize s mod 2 ^ 64")
    case True
    with assms(1) have w: "windowSize s mod 2 ^ 64 = windowSize s" and "0 < windowSize s"
      by (auto simp: was_inv_def)
    from True w have "windowSize s < int (length (guidingEntries ?s))" by simp
    with \<open>0 < windowSize s\<close> have "1 < length (guidingEntries ?s)" by linarith
    with inv have "as_inv (was_RemoveOldestEntry ?s)" by (rule was_Remove_inv)
    with True assms(1) w show ?thesis by (simp add: was_AddGuideInfo_def was_inv_def)
  next
    case False
    with assms(1) inv show ?thesis
      by (auto simp: was_AddGuideInfo_def was_inv_def Let_def)
  qed
qed

lemma sint_diff_small:
  assumes "n < 2 ^ 31" "sint (w :: u32) > 0"
  shows "sint (of_nat n - w) = int n - sint w"
proof -
  have "sint w < 2 ^ 31" using sint_lt [of w] by simp
  with assms have "- (2 ^ 31) \<le> int n - sint w" "int n - sint w < 2 ^ 31" by simp_all
  then have "signed_take_bit 31 (int n - sint w) = int n - sint w"
    by (intro signed_take_bit_int_eq_self) simp_all
  then have "sint (word_of_int (int n - sint w) :: u32) = int n - sint w"
    by (simp only: sint_sbintrunc') simp
  then show ?thesis by simp
qed

lemma was_ChangeWindowSize_inv:
  assumes "was_inv s" "length (guidingEntries s) < 2 ^ 31" "sint NewSize \<ge> 0"
  shows "was_inv (fst (was_ChangeWindowSize s NewSize))"
proof (cases "NewSize > 0")
  case True
  then have pos: "sint NewSize > 0"
    using assms(3) by (metis word_gt_0 order_le_less signed_eq_0_iff)
  define d where "d = nat (sint (of_nat (as_GetCount s) - NewSize))"
  have d: "d = nat (int (length (guidingEntries s)) - sint NewSize)"
    using sint_diff_small [OF assms(2) pos] by (simp add: d_def as_GetCount_def)
  have "as_inv (remove_oldest_n d s)"
  proof (cases "guidingEntries s = []")
    case True
    with d pos have "d = 0" by simp
    with assms(1) show ?thesis by (simp add: was_inv_def)
  next
    case False
    then have "0 < length (guidingEntries s)" by simp
    with d pos have "d < length (guidingEntries s)" by linarith
    with assms(1) show ?thesis by (simp add: was_inv_def remove_oldest_n_inv)
  qed
  moreover have "int (length (guidingEntries s) - d) \<le> sint NewSize" using d pos by simp
  ultimately show ?thesis
    using True pos sint_lt [of NewSize] by (simp add: was_ChangeWindowSize_def was_inv_def d_def Let_def)
next
  case False
  with assms(1) show ?thesis by (simp add: was_ChangeWindowSize_def was_inv_def)
qed

subsection \<open>What the statistics are\<close>

definition entry_times :: "'a axis_stats_scheme \<Rightarrow> real list" where
  "entry_times s = map sd_DeltaTime (guidingEntries s)"

lemma as_sums_lists:
  assumes "as_sums s"
  shows "sumX s = sum_list (entry_times s)" "sumY s = sum_list (positions s)"
    "sumXSq s = (\<Sum>x\<leftarrow>entry_times s. x * x)" "sumYSq s = (\<Sum>y\<leftarrow>positions s. y * y)"
  using assms by (simp_all add: as_sums_def entry_times_def positions_def comp_def)

lemma positions_length [simp]: "length (positions s) = length (guidingEntries s)"
  "length (entry_times s) = length (guidingEntries s)"
  by (simp_all add: positions_def entry_times_def)

lemma length_neq: "0 < length (guidingEntries s) \<Longrightarrow> positions s \<noteq> [] \<and> entry_times s \<noteq> []"
  by (auto simp: positions_def entry_times_def)

lemma sum_of_squares_form:
  assumes "as_sums s" "guidingEntries s \<noteq> []"
  shows "real (length (guidingEntries s)) * sumYSq s - sumY s * sumY s
      = real (length (guidingEntries s)) * sq_dev (mean (positions s)) (positions s)"
    and "real (length (guidingEntries s)) * sumXSq s - sumX s * sumX s
      = real (length (guidingEntries s)) * sq_dev (mean (entry_times s)) (entry_times s)"
  using assms sq_dev_mean [of "positions s"] sq_dev_mean [of "entry_times s"] length_neq [of s]
  by (simp_all add: as_sums_lists)

lemma as_GetVariance_eq:
  assumes "as_sums s" "1 < length (guidingEntries s)"
  shows "as_GetVariance s
    = sq_dev (mean (positions s)) (positions s) / (real (length (guidingEntries s)) - 1)"
proof -
  have ne: "guidingEntries s \<noteq> []" using assms(2) by auto
  from sum_of_squares_form(1) [OF assms(1) ne] assms(2) ne show ?thesis
    by (simp add: as_GetVariance_def Let_def)
qed

lemma as_GetMean_eq: "as_sums s \<Longrightarrow> guidingEntries s \<noteq> [] \<Longrightarrow> as_GetMean s = mean (positions s)"
  by (simp add: as_GetMean_def mean_def as_sums_lists(2))

lemma as_GetSigma_eq:
  assumes "as_sums s" "1 < length (guidingEntries s)" "length (guidingEntries s) < 2 ^ 32"
  shows "as_GetSigma s = sqrt (as_GetVariance s)"
proof -
  let ?n = "length (guidingEntries s)"
  have "?n * (?n - 1) < 2 ^ 32 * 2 ^ 32"
    using assms(3) by (intro mult_strict_mono) auto
  then have "size_mul ?n (?n - 1) = ?n * (?n - 1)" by simp
  then have "real (size_mul ?n (?n - 1)) = real ?n * (real ?n - 1)"
    using assms(2) by (simp add: of_nat_diff)
  moreover have "0 \<le> as_GetVariance s"
    using as_GetVariance_eq [OF assms(1,2)] assms(2) by simp
  ultimately show ?thesis
    using assms(2) by (simp add: as_GetSigma_def as_GetVariance_def Let_def)
qed

lemma as_GetMedian_le:
  assumes "guidingEntries s \<noteq> []"
  shows "2 * length (filter (\<lambda>y. y < as_GetMedian s) (positions s)) \<le> length (positions s)"
    and "2 * length (filter (\<lambda>y. as_GetMedian s < y) (positions s)) \<le> length (positions s)"
proof -
  let ?ys = "sort (positions s)" let ?n = "length (positions s)" let ?c = "?n div 2"
  have n: "0 < ?n" using assms by simp
  then have c: "?c < length ?ys" by simp
  have perm: "length (filter P (positions s)) = length (filter P ?ys)" for P
    by (metis filter_sort length_sort)
  have med: "as_GetMedian s = (if ?n mod 2 = 1 then ?ys ! ?c else (?ys ! ?c + ?ys ! (?c - 1)) / 2)"
  proof (cases "?n = 1")
    case True
    then obtain e where "guidingEntries s = [e]" by (auto simp: length_Suc_conv)
    then show ?thesis by (simp add: as_GetMedian_def Let_def positions_def)
  next
    case False
    with n show ?thesis by (simp add: as_GetMedian_def Let_def positions_def)
  qed
  have mono: "?ys ! (?c - 1) \<le> ?ys ! ?c"
    using c by (intro sorted_nth_mono) simp_all
  have below: "length (filter (\<lambda>y. y < ?ys ! ?c) ?ys) \<le> ?c"
    using c by (intro sorted_count_below) simp_all
  have above: "length (filter (\<lambda>y. ?ys ! (?c - 1) < y) ?ys) \<le> ?n - Suc (?c - 1)"
    using sorted_count_above [of ?ys "?c - 1"] c by simp
  have above': "length (filter (\<lambda>y. ?ys ! ?c < y) ?ys) \<le> ?n - Suc ?c"
    using sorted_count_above [of ?ys ?c] c by simp
  have hi: "as_GetMedian s \<le> ?ys ! ?c" using mono by (simp add: med)
  have "length (filter (\<lambda>y. y < as_GetMedian s) ?ys) \<le> length (filter (\<lambda>y. y < ?ys ! ?c) ?ys)"
    using hi by (intro filter_length_mono) auto
  with below show "2 * length (filter (\<lambda>y. y < as_GetMedian s) (positions s)) \<le> ?n"
    unfolding perm by linarith
  show "2 * length (filter (\<lambda>y. as_GetMedian s < y) (positions s)) \<le> ?n"
  proof (cases "?n mod 2 = 1")
    case True
    with above' show ?thesis unfolding perm by (simp add: med)
  next
    case False
    have "length (filter (\<lambda>y. as_GetMedian s < y) ?ys) \<le> length (filter (\<lambda>y. ?ys ! (?c - 1) < y) ?ys)"
      using False mono by (intro filter_length_mono) (auto simp: med)
    also note above
    also have "2 * (?n - Suc (?c - 1)) \<le> ?n" using False n by arith
    finally show ?thesis unfolding perm using False n by simp
  qed
qed

text \<open>
  The squared error of a line over the entries, and the normal equations the code's slope and
  intercept solve.
\<close>

definition line_error :: "real \<Rightarrow> real \<Rightarrow> star_displacement list \<Rightarrow> real" where
  "line_error a b es = (\<Sum>e\<leftarrow>es. (sd_StarPos e - (sd_DeltaTime e * a + b))\<^sup>2)"

lemma line_error_expand:
  "line_error a b es =
     (\<Sum>e\<leftarrow>es. sd_StarPos e * sd_StarPos e) - 2 * a * (\<Sum>e\<leftarrow>es. sd_DeltaTime e * sd_StarPos e)
     - 2 * b * (\<Sum>e\<leftarrow>es. sd_StarPos e) + a * a * (\<Sum>e\<leftarrow>es. sd_DeltaTime e * sd_DeltaTime e)
     + 2 * a * b * (\<Sum>e\<leftarrow>es. sd_DeltaTime e) + real (length es) * b * b"
  by (induction es) (simp_all add: line_error_def power2_eq_square algebra_simps)

lemma line_error_nonneg: "0 \<le> line_error a b es"
  unfolding line_error_def by (rule sum_list_nonneg) auto

lemma line_error_sums:
  assumes "as_sums s"
  shows "line_error a b (guidingEntries s) = sumYSq s - 2 * a * sumXY s - 2 * b * sumY s
     + a * a * sumXSq s + 2 * a * b * sumX s + real (length (guidingEntries s)) * b * b"
  using assms by (simp add: as_sums_def line_error_expand)

text \<open>A line whose residuals are orthogonal to the constants and to the times has least error.\<close>

lemma least_squares_min:
  fixes n X Y XY XX YY a b c d :: real
  assumes "a * X + c * n = Y" and "a * XX + c * X = XY"
    and pos: "0 \<le> (b - a) * (b - a) * XX + 2 * (b - a) * (d - c) * X + n * (d - c) * (d - c)"
  shows "YY - 2 * a * XY - 2 * c * Y + a * a * XX + 2 * a * c * X + n * c * c
       \<le> YY - 2 * b * XY - 2 * d * Y + b * b * XX + 2 * b * d * X + n * d * d"
  using pos unfolding assms(1,2) [symmetric] by (simp add: algebra_simps)

text \<open>The times of the window are not all equal: the case in which a slope exists.\<close>

definition times_vary :: "'a axis_stats_scheme \<Rightarrow> bool" where
  "times_vary s \<longleftrightarrow> (\<exists>x\<in>set (entry_times s). \<exists>y\<in>set (entry_times s). x \<noteq> y)"

lemma fit_denominator:
  assumes "as_sums s" "times_vary s"
  shows "0 < real (length (guidingEntries s)) * sumXSq s - sumX s * sumX s"
    and "1 < length (guidingEntries s)" and "guidingEntries s \<noteq> []"
proof -
  have "entry_times s \<noteq> []" using assms(2) by (auto simp: times_vary_def)
  then have ne: "guidingEntries s \<noteq> []" by (simp add: entry_times_def)
  have "0 < sq_dev (mean (entry_times s)) (entry_times s)"
    using assms(2) sq_dev_mean_pos by (auto simp: times_vary_def)
  with sum_of_squares_form(2) [OF assms(1) ne] ne
  show "0 < real (length (guidingEntries s)) * sumXSq s - sumX s * sumX s" by simp
  show "guidingEntries s \<noteq> []" by (rule ne)
  have "length (guidingEntries s) \<noteq> 1"
    using assms(2) by (auto simp: times_vary_def entry_times_def length_Suc_conv)
  moreover have "length (guidingEntries s) \<noteq> 0" using ne by simp
  ultimately show "1 < length (guidingEntries s)" by linarith
qed

lemma fit_slope:
  assumes "as_sums s" "times_vary s"
  defines "n \<equiv> real (length (guidingEntries s))"
  shows "lf_Slope (as_GetLinearFitResults s)
      = Some ((n * sumXY s - sumX s * sumY s) / (n * sumXSq s - sumX s * sumX s))"
    and "lf_Intercept (as_GetLinearFitResults s) =
      Some ((sumY s - (n * sumXY s - sumX s * sumY s) / (n * sumXSq s - sumX s * sumX s) * sumX s) / n)"
  using fit_denominator [OF assms(1,2)]
  by (simp_all add: as_GetLinearFitResults_def Let_def n_def)

lemma normal_equations:
  assumes "as_sums s" "times_vary s"
    and "lf_Slope (as_GetLinearFitResults s) = Some a"
    and "lf_Intercept (as_GetLinearFitResults s) = Some c"
  shows "a * sumX s + c * real (length (guidingEntries s)) = sumY s"
    and "a * sumXSq s + c * sumX s = sumXY s"
proof -
  define n D where "n = real (length (guidingEntries s))" and "D = n * sumXSq s - sumX s * sumX s"
  have pos: "0 < D" "0 < n" using fit_denominator [OF assms(1,2)] by (simp_all add: n_def D_def)
  have a: "a * D = n * sumXY s - sumX s * sumY s" and c: "c * n = sumY s - a * sumX s"
    using assms(3,4) pos by (auto simp: fit_slope [OF assms(1,2)] n_def D_def)
  show "a * sumX s + c * real (length (guidingEntries s)) = sumY s"
    using c by (simp add: n_def)
  have "n * (a * sumXSq s + c * sumX s) = a * D + (a * sumX s + c * n) * sumX s"
    by (simp add: D_def algebra_simps)
  also have "\<dots> = (n * sumXY s - sumX s * sumY s) + (a * sumX s + (sumY s - a * sumX s)) * sumX s"
    by (simp only: a c)
  also have "\<dots> = n * sumXY s" by (simp add: algebra_simps)
  finally show "a * sumXSq s + c * sumX s = sumXY s" using pos by simp
qed

lemma fit_is_least_squares:
  assumes "as_sums s" "times_vary s"
    and "lf_Slope (as_GetLinearFitResults s) = Some a"
    and "lf_Intercept (as_GetLinearFitResults s) = Some c"
  shows "line_error a c (guidingEntries s) \<le> line_error b d (guidingEntries s)"
proof -
  have "0 \<le> line_error (a - b) (c - d) (map (\<lambda>e. e\<lparr>sd_StarPos := 0\<rparr>) (guidingEntries s))"
    by (rule line_error_nonneg)
  also have "\<dots> = (b - a) * (b - a) * sumXSq s + 2 * (b - a) * (d - c) * sumX s
      + real (length (guidingEntries s)) * (d - c) * (d - c)"
    using assms(1) by (simp add: line_error_expand comp_def as_sums_def algebra_simps)
  finally show ?thesis
    unfolding line_error_sums [OF assms(1)]
    by (intro least_squares_min normal_equations [OF assms])
qed

text \<open>The coefficient of determination lies between 0 and 1.\<close>

lemma cauchy_schwarz_form:
  assumes "as_sums s" "times_vary s"
  defines "n \<equiv> real (length (guidingEntries s))"
  shows "(n * sumXY s - sumX s * sumY s)\<^sup>2
    \<le> (n * sumXSq s - sumX s * sumX s) * (n * sumYSq s - sumY s * sumY s)"
proof -
  define D E F where "D = n * sumXSq s - sumX s * sumX s"
    and "E = n * sumXY s - sumX s * sumY s" and "F = n * sumYSq s - sumY s * sumY s"
  have pos: "0 < D" "0 < n" using fit_denominator [OF assms(1,2)] by (simp_all add: n_def D_def)
  define a c where "a = E / D" and "c = (sumY s - a * sumX s) / n"
  have aD: "a * D = E" and cn: "c * n = sumY s - a * sumX s" using pos by (simp_all add: a_def c_def)
  have "0 \<le> n * line_error a c (guidingEntries s)"
    using pos by (simp add: line_error_nonneg)
  also have "\<dots> = n * (sumYSq s - 2 * a * sumXY s + a * a * sumXSq s)
      - 2 * (c * n) * (sumY s - a * sumX s) + (c * n) * (c * n)"
    by (simp add: line_error_sums [OF assms(1)] n_def algebra_simps)
  also have "\<dots> = F - 2 * a * E + a * (a * D)"
    unfolding cn by (simp add: D_def E_def F_def algebra_simps)
  finally have "0 \<le> (F - a * E) * D" unfolding aD using pos by (simp add: algebra_simps)
  also have "\<dots> = F * D - E * E" using aD by (simp add: algebra_simps)
  finally show ?thesis by (simp add: D_def E_def F_def power2_eq_square algebra_simps)
qed

lemma rSquared_eq:
  assumes "as_sums s" "times_vary s" and "lf_rSquared (as_GetLinearFitResults s) = Some r"
  defines "n \<equiv> real (length (guidingEntries s))"
  defines "D \<equiv> n * sumXSq s - sumX s * sumX s" and "F \<equiv> n * sumYSq s - sumY s * sumY s"
  shows "0 < D \<and> 0 < F \<and> r = (n * sumXY s - sumX s * sumY s)\<^sup>2 / (D * F)"
proof -
  have n: "0 < n" and D: "0 < D" and len: "1 < length (guidingEntries s)"
    using fit_denominator [OF assms(1,2)] by (simp_all add: n_def D_def)
  have Sxx: "sumXSq s - sumX s * sumX s / n = D / n" and Syy: "sumYSq s - sumY s * sumY s / n = F / n"
    and Sxy: "sumXY s - sumX s * sumY s / n = (n * sumXY s - sumX s * sumY s) / n"
    using n by (simp_all add: D_def F_def field_simps)
  have "0 \<le> D * F"
    using cauchy_schwarz_form [OF assms(1,2)] zero_le_power2 order_trans
    unfolding D_def F_def n_def by blast
  moreover have "lf_rSquared (as_GetLinearFitResults s) =
      fdiv ((n * sumXY s - sumX s * sumY s) / n * ((n * sumXY s - sumX s * sumY s) / n)) (D / n)
        \<bind> (\<lambda>q. fdiv (F / n - (F / n - q)) (F / n))"
    using len by (simp add: as_GetLinearFitResults_def Let_def n_def [symmetric] Sxx Syy Sxy)
  then have "F \<noteq> 0" and r: "r = (n * sumXY s - sumX s * sumY s)\<^sup>2 / (D * F)"
    using assms(3) n D by (auto simp: fdiv_def power2_eq_square split: if_splits)
  ultimately show ?thesis using D by (simp add: zero_le_mult_iff order_less_le)
qed

subsection \<open>Properties\<close>

text \<open>For every nonempty dataset fed to a cleared \<open>DescriptiveStats\<close>, the count, mean, sum,
  extreme values and largest step are those of the dataset, and the standard deviation is the
  square root of the sum of squared deviations over \<open>n - 1\<close>; with a single value \<open>GetSigma\<close> has no
  finite result (it divides zero by zero).\<close>

theorem descriptive_stats_correct:
  assumes "xs \<noteq> []"
  shows "ds_count (ds_run xs) = int (length xs) \<and>
    ds_GetMean (ds_run xs) = mean xs \<and> ds_GetSum (ds_run xs) = sum_list xs \<and>
    ds_GetMinimum (ds_run xs) = Min (set xs) \<and> ds_GetMaximum (ds_run xs) = Max (set xs) \<and>
    ds_GetMaxDelta (ds_run xs) = max_step xs \<and>
    ds_GetSigma (ds_run xs) = (if length xs = 1 then None
      else Some (sqrt (sq_dev (mean xs) xs / (real (length xs) - 1))))"
proof -
  have inv: "ds_inv xs (ds_run xs)" by (rule ds_run_inv)
  have pos: "0 < length xs" using assms by simp
  have step: "max_step xs = 0" if "\<not> Suc 0 < length xs"
    using that by (cases xs rule: max_step.cases) simp_all
  have sigma: "ds_GetSigma (ds_run xs) = (if length xs = 1 then None
      else Some (sqrt (sq_dev (mean xs) xs / (real (length xs) - 1))))"
  proof -
    have "0 \<le> sq_dev (mean xs) xs / (real (length xs) - 1)"
      using pos by (intro divide_nonneg_nonneg) (simp_all add: Suc_le_eq)
    note root = fsqrt_Some [OF this]
    show ?thesis
      using inv assms pos by (auto simp: ds_inv_def ds_GetSigma_def of_nat_diff root)
  qed
  show ?thesis
    using inv assms pos mean_sum [OF assms] sigma step
    by (auto simp: ds_inv_def ds_GetMean_def ds_GetSum_def ds_GetMinimum_def ds_GetMaximum_def
        ds_GetMaxDelta_def mult.commute)
qed

theorem descriptive_stats_correct_witness:
  "ds_GetMean (ds_run [1, 2, 6]) = 3 \<and> ds_GetMaxDelta (ds_run [1, 2, 6]) = 4
   \<and> ds_GetSigma (ds_run [1, 2, 6]) = Some (sqrt 7)"
  using descriptive_stats_correct [of "[1, 2, 6]"] by (simp add: mean_def power2_eq_square)

text \<open>The output of a \<open>LowPassFilter\<close> built with a non-negative cut-off period never leaves the
  range of the values fed to it.\<close>

theorem low_pass_stays_in_range:
  assumes "0 \<le> cutoff" "xs \<noteq> []" "\<forall>x\<in>set xs. lo \<le> x \<and> x \<le> hi"
  shows "lo \<le> lp_lpfResult (lp_run (lp_new cutoff period) xs)
    \<and> lp_lpfResult (lp_run (lp_new cutoff period) xs) \<le> hi"
proof -
  obtain ys y where xs: "xs = ys @ [y]" using assms(2) by (meson rev_exhaust)
  have app: "lp_run f (ys @ [y]) = fst (lp_AddValue (lp_run f ys) y)" for f
    by (induction ys arbitrary: f) simp_all
  have "lp_inv lo hi (lp_run (lp_new cutoff period) ys)"
    using assms xs by (intro lp_run_inv lp_new_inv) auto
  then show ?thesis
    using lp_AddValue_inv(2) [of lo hi _ y] assms(3) xs by (auto simp: app lp_AddValue_def Let_def)
qed

theorem low_pass_stays_in_range_witness:
  "0 \<le> lp_lpfResult (lp_run (lp_new 3 1) [2, 4, 0]) \<and> lp_lpfResult (lp_run (lp_new 3 1) [2, 4, 0]) \<le> 4"
  by (rule low_pass_stays_in_range) auto

text \<open>A run of \<open>AddGuideInfo\<close> calls on a windowed dataset.\<close>

fun was_run :: "'a windowed_axis_stats_scheme \<Rightarrow> (real \<times> real \<times> real) list \<Rightarrow> 'a windowed_axis_stats_scheme" where
  "was_run s [] = s"
| "was_run s ((t, y, g) # adds) = was_run (was_AddGuideInfo s t y g) adds"

lemma was_run_inv: "was_inv s \<Longrightarrow> \<forall>(t, y, g)\<in>set adds. is_dbl y \<Longrightarrow> was_inv (was_run s adds)"
  by (induction s adds rule: was_run.induct) (simp_all add: was_AddGuideInfo_inv)

lemma was_Add_window [simp]:
  "autoWindowing (was_AddGuideInfo s t y g) = autoWindowing s"
  "windowSize (was_AddGuideInfo s t y g) = windowSize s"
  by (simp_all add: was_AddGuideInfo_def Let_def)

lemma positions_Add_windowed:
  assumes "autoWindowing s" "windowSize s = int w" "0 < w" "w < 2 ^ 31" "length (positions s) \<le> w"
  shows "positions (was_AddGuideInfo s t y g)
    = drop (Suc (length (positions s)) - w) (positions s @ [y])"
proof -
  have w: "int w mod 2 ^ 64 = int w" using assms(4) by simp
  show ?thesis
  proof (cases "length (positions s) = w")
    case True
    then show ?thesis
      using assms w positions_AddGuideInfo [of s t y g]
      by (auto simp: was_AddGuideInfo_def positions_def map_tl drop_Suc)
  next
    case False
    then show ?thesis
      using assms w positions_AddGuideInfo [of s t y g]
      by (simp add: was_AddGuideInfo_def Let_def)
  qed
qed

lemma was_run_positions:
  assumes "autoWindowing s" "windowSize s = int w" "0 < w" "w < 2 ^ 31" "length (positions s) \<le> w"
  shows "positions (was_run s adds) =
    drop (length (positions s) + length adds - w) (positions s @ map (fst \<circ> snd) adds)"
  using assms
proof (induction s adds rule: was_run.induct)
  case (2 s t y g adds)
  let ?s = "was_AddGuideInfo s t y g"
  have p: "positions ?s = drop (Suc (length (positions s)) - w) (positions s @ [y])"
    using 2 by (intro positions_Add_windowed) auto
  then have len: "length (positions ?s) = min (Suc (length (positions s))) w"
    using 2 by (simp del: positions_length)
  have "positions (was_run ?s adds) =
      drop (length (positions ?s) + length adds - w) (positions ?s @ map (fst \<circ> snd) adds)"
    using 2 len by (intro "2.IH") (simp_all del: positions_length)
  also have "\<dots> = drop (length (positions s) + Suc (length adds) - w)
      (positions s @ y # map (fst \<circ> snd) adds)"
    using "2.prems"(3,5) unfolding len
    by (cases "length (positions s) = w") (simp_all add: p drop_Suc comp_def del: positions_length)
  finally show ?case by (simp add: comp_def)
qed simp

lemma window_holds_inv:
  assumes "0 < w" "w < 2 ^ 31" "\<forall>(t, y, g)\<in>set adds. is_dbl y"
  shows "as_inv (was_run (was_new garbage (int w)) adds)"
proof -
  have "was_inv (was_new garbage (int w))"
    using assms(1,2) was_new_inv [of garbage "int w"]
    by (simp add: was_inv_def) (simp add: was_new_def as_InitializeScalars_def)
  with assms(3) show ?thesis
    using was_run_inv by (auto simp: was_inv_def)
qed

text \<open>What is reported of the extreme values, with the values the code starts them from.\<close>

lemma extremes_GetMinMax:
  assumes "as_extremes s" "positions s \<noteq> []"
  shows "as_GetMinDisplacement s = Min (set (positions s))"
    "as_GetMaxDisplacement s = (if DBL_MIN \<le> Max (set (positions s)) then Max (set (positions s)) else DBL_MIN)"
proof -
  have n: "guidingEntries s \<noteq> []" "set (positions s) \<noteq> {}" using assms(2) by (auto simp: positions_def)
  have "Min (set (positions s)) \<in> set (positions s)" using n(2) by (intro Min_in) simp_all
  then have "Min (set (positions s)) \<le> DBL_MAX" using assms(1) by (auto simp: as_extremes_def is_dbl_def)
  moreover have "minDisplacement s = min DBL_MAX (Min (set (positions s)))"
    using assms(1) n(2) by (simp only: as_extremes_def Min_insert finite_set not_False_eq_True)
  ultimately show "as_GetMinDisplacement s = Min (set (positions s))"
    using n by (simp add: as_GetMinDisplacement_def)
  show "as_GetMaxDisplacement s = (if DBL_MIN \<le> Max (set (positions s)) then Max (set (positions s)) else DBL_MIN)"
    using assms(1) n by (auto simp: as_GetMaxDisplacement_def as_extremes_def max_def)
qed

text \<open>C5: After any sequence of \<open>AddGuideInfo\<close> calls, an auto-windowed dataset of size \<open>w\<close> holds
  exactly the \<open>w\<close> most recent star positions, and its running sums are those of the entries it holds. The minimum it
  reports is the smallest of them. The maximum is the largest of them as long as that is at least \<open>DBL_MIN\<close>, the smallest
  positive normal double, from which the code starts its maximum; otherwise, as when all of them are negative, it is \<open>DBL_MIN\<close>.\<close>

theorem window_holds_latest:
  assumes "0 < w" "w < 2 ^ 31" "\<forall>(t, y, g)\<in>set adds. is_dbl y"
    and "s = was_run (was_new garbage (int w)) adds" "window = drop (length adds - w) (map (fst \<circ> snd) adds)"
  shows "positions s = window \<and> as_sums s \<and>
    (window \<noteq> [] \<longrightarrow> as_GetMinDisplacement s = Min (set window) \<and>
      as_GetMaxDisplacement s = (if DBL_MIN \<le> Max (set window) then Max (set window) else DBL_MIN))"
proof -
  let ?s = "was_new garbage (int w)"
  have new: "autoWindowing ?s" "windowSize ?s = int w" "positions ?s = []"
    using assms(1) by (simp_all add: was_new_def as_InitializeScalars_def positions_def)
  have inv: "as_inv s" using window_holds_inv [OF assms(1-3), of garbage] assms(4) by simp
  have p: "positions s = window"
    using was_run_positions [OF new(1,2), of adds] new(3) assms by (simp flip: positions_length)
  have ext: "as_extremes s" using inv by (simp add: as_inv_def)
  show ?thesis using p inv extremes_GetMinMax [OF ext] by (simp add: as_inv_def)
qed

theorem window_holds_latest_witness:
  "positions (was_run (was_new 7 2) [(0, 5, 0), (1, 6, 1), (2, 4, -1)]) = [6, 4] \<and>
   as_GetMinDisplacement (was_run (was_new 7 2) [(0, 5, 0), (1, 6, 1), (2, 4, -1)]) = 4 \<and>
   as_GetMaxDisplacement (was_run (was_new 7 2) [(0, 5, 0), (1, 6, 1), (2, 4, -1)]) = 6"
proof -
  have "DBL_MIN \<le> 6" using DBL_MIN_small by linarith
  then show ?thesis
    using window_holds_latest [of 2 "[(0, 5, 0), (1, 6, 1), (2, 4, -1)]", OF _ _ _ refl refl, of 7]
    by (simp add: is_dbl_small)
qed



text \<open>C7: When the entries are not all taken at the same time, \<open>GetLinearFitResults\<close> returns a slope
  and an intercept that minimise the sum of squared residuals over all lines, and its R-squared, when
  it is finite, lies between 0 and 1.\<close>

theorem linear_fit_least_squares:
  assumes "as_inv s" "times_vary s"
  shows "\<exists>a c. lf_Slope (as_GetLinearFitResults s) = Some a \<and>
      lf_Intercept (as_GetLinearFitResults s) = Some c \<and>
      (\<forall>b d. line_error a c (guidingEntries s) \<le> line_error b d (guidingEntries s)) \<and>
      (case lf_rSquared (as_GetLinearFitResults s) of None \<Rightarrow> True | Some r \<Rightarrow> 0 \<le> r \<and> r \<le> 1)"
proof -
  have sums: "as_sums s" using assms(1) by (simp add: as_inv_def)
  obtain a c where ac: "lf_Slope (as_GetLinearFitResults s) = Some a"
      "lf_Intercept (as_GetLinearFitResults s) = Some c"
    using fit_slope [OF sums assms(2)] by blast
  have "0 \<le> r \<and> r \<le> 1" if "lf_rSquared (as_GetLinearFitResults s) = Some r" for r
    using rSquared_eq [OF sums assms(2) that] cauchy_schwarz_form [OF sums assms(2)]
    by (auto simp: divide_le_eq_1)
  then show ?thesis
    using ac fit_is_least_squares [OF sums assms(2) ac] by (auto split: option.split)
qed

theorem linear_fit_least_squares_witness:
  "\<exists>a c. lf_Slope (as_GetLinearFitResults (was_run (was_new 0 9) [(0, 1, 0), (1, 3, 0)])) = Some a \<and>
      lf_Intercept (as_GetLinearFitResults (was_run (was_new 0 9) [(0, 1, 0), (1, 3, 0)])) = Some c \<and>
      line_error a c (guidingEntries (was_run (was_new 0 9) [(0, 1, 0), (1, 3, 0)])) \<le> 0"
proof -
  define s where "s = was_run (was_new 0 9) [(0, 1, 0), (1, 3, 0)]"
  have e: "guidingEntries s = [StarDisplacement 0 1, StarDisplacement 1 3]"
    by (simp add: s_def was_new_def was_AddGuideInfo_def as_AddGuideInfo_def as_InitializeScalars_def Let_def)
  have inv: "as_inv s"
    unfolding s_def using window_holds_inv [of 9 "[(0, 1, 0), (1, 3, 0)]" 0] by (simp add: is_dbl_small)
  have vary: "times_vary s"
    unfolding times_vary_def entry_times_def e by (auto simp: StarDisplacement_def)
  have exact: "line_error 2 1 (guidingEntries s) = 0"
    unfolding e by (simp add: line_error_def StarDisplacement_def)
  obtain a c where "lf_Slope (as_GetLinearFitResults s) = Some a"
      "lf_Intercept (as_GetLinearFitResults s) = Some c"
      "line_error a c (guidingEntries s) \<le> line_error 2 1 (guidingEntries s)"
    using linear_fit_least_squares [OF inv vary] by blast
  with exact show ?thesis unfolding s_def [symmetric] by simp
qed

text \<open>\<open>GetMedian\<close> is a median of the window: at most half of the positions are below it and at
  most half are above it.\<close>

theorem median_splits_window:
  assumes "guidingEntries s \<noteq> []"
  shows "2 * length (filter (\<lambda>y. y < as_GetMedian s) (positions s)) \<le> length (positions s)
    \<and> 2 * length (filter (\<lambda>y. as_GetMedian s < y) (positions s)) \<le> length (positions s)"
  using as_GetMedian_le [OF assms] by simp

theorem median_splits_window_witness:
  "as_GetMedian (was_run (was_new 0 9) [(0, 1, 0), (1, 8, 0), (2, 3, 0), (3, 2, 0)]) = 5 / 2
   \<and> 2 * length (filter (\<lambda>y. y < as_GetMedian (was_run (was_new 0 9) [(0, 1, 0), (1, 8, 0), (2, 3, 0), (3, 2, 0)]))
      (positions (was_run (was_new 0 9) [(0, 1, 0), (1, 8, 0), (2, 3, 0), (3, 2, 0)]))) \<le> 4"
proof -
  define s where "s = was_run (was_new 0 9) [(0, 1, 0), (1, 8, 0), (2, 3, 0), (3, 2, 0)]"
  have e: "guidingEntries s = [StarDisplacement 0 1, StarDisplacement 1 8, StarDisplacement 2 3, StarDisplacement 3 2]"
    by (simp add: s_def was_new_def was_AddGuideInfo_def as_AddGuideInfo_def as_InitializeScalars_def Let_def)
  have "as_GetMedian s = 5 / 2"
    by (simp add: as_GetMedian_def e StarDisplacement_def Let_def)
  moreover have "length (positions s) = 4" by (simp add: e)
  ultimately show ?thesis
    unfolding s_def [symmetric] using median_splits_window [of s] e by simp
qed

text \<open>
  What the code does where its comments promise more: the maximum of an all-negative dataset is
  reported as \<open>numeric_limits<double>::min()\<close>, a positive number, and the step from the first entry
  to the second is never counted by \<open>GetMaxDelta\<close>.
\<close>

lemma max_displacement_all_negative:
  "as_GetMaxDisplacement (was_AddGuideInfo (was_new 0 0) 0 (-5) 0) = DBL_MIN
   \<and> Max (set (positions (was_AddGuideInfo (was_new 0 0) 0 (-5) 0))) = -5"
  using DBL_MIN_pos
  by (simp add: was_new_def was_AddGuideInfo_def as_AddGuideInfo_def as_InitializeScalars_def
      as_GetMaxDisplacement_def positions_def StarDisplacement_def Let_def)

lemma max_delta_misses_first_step:
  "as_GetMaxDelta (was_run (was_new 0 0) [(0, 1, 0), (1, 9, 0)]) = 0
   \<and> max_step (positions (was_run (was_new 0 0) [(0, 1, 0), (1, 9, 0)])) = 8"
  by (simp add: was_new_def was_AddGuideInfo_def as_AddGuideInfo_def as_InitializeScalars_def
      as_GetMaxDelta_def positions_def StarDisplacement_def Let_def)

text \<open>Removing the only entry leaves its extreme values behind for the next one.\<close>

lemma stale_minimum_after_removal:
  "as_GetMinDisplacement (was_AddGuideInfo (was_RemoveOldestEntry
     (was_AddGuideInfo (was_new 0 0) 0 3 0)) 1 7 0) = 3"
proof -
  have "3 \<le> DBL_MAX" using DBL_MAX_large by simp
  then show ?thesis
    by (simp add: was_new_def was_AddGuideInfo_def as_AddGuideInfo_def as_InitializeScalars_def
        as_GetMinDisplacement_def was_RemoveOldestEntry_def was_AdjustMinMaxValues_def
        StarDisplacement_def Let_def)
qed

end
