(* ===== verification/GuideAlgorithms.thy ===== *)
theory GuideAlgorithms
  imports GuidingStats
begin

text \<open>
  The guide algorithms of \<open>src/src/algorithm/\<close>: each is a state and a \<open>result\<close> operation that
  turns the measured star offset on one axis into the correction to send. One group of definitions
  per class, in the order of its file: the setters with their range checks, the parameter interface
  the event server uses, \<open>reset\<close> and \<open>result\<close>.

  A setter also writes the accepted value to the profile: the writes are returned as a list of
  \<open>cfg_write\<close>. The constructors read the profile: the reader is their argument \<open>getDouble\<close>
  (\<open>getBoolean\<close>), a function of the key and the default.
\<close>

subsection \<open>The contract of a guide algorithm\<close>

text \<open>
  \<open>run\<close> feeds a list of offsets to an algorithm. The locale states what the guiding loop relies on:
  an invariant every call keeps, and silence inside the minimum-move dead band.
\<close>

fun algo_run :: "('s \<Rightarrow> real \<Rightarrow> 's \<times> 'r) \<Rightarrow> 's \<Rightarrow> real list \<Rightarrow> 's \<times> 'r list" where
  "algo_run result s [] = (s, [])"
| "algo_run result s (x # xs) =
    (let (s, r) = result s x; (s, rs) = algo_run result s xs in (s, r # rs))"

declare algo_run.simps(2) [simp del]

lemma algo_run_Cons [simp]:
  "algo_run f s (x # xs) = (fst (algo_run f (fst (f s x)) xs),
     snd (f s x) # snd (algo_run f (fst (f s x)) xs))"
  by (simp add: algo_run.simps(2) case_prod_beta Let_def)

lemma algo_run_length [simp]: "length (snd (algo_run f s xs)) = length xs"
  by (induction xs arbitrary: s) simp_all

text \<open>A result that is \<^term>\<open>None\<close> is not a finite number; algorithms that only add and multiply
  never produce one.\<close>

definition finite_result :: "('s \<Rightarrow> real \<Rightarrow> 's \<times> real) \<Rightarrow> 's \<Rightarrow> real \<Rightarrow> 's \<times> real option" where
  "finite_result f s x = (fst (f s x), Some (snd (f s x)))"

lemma finite_result_sel [simp]:
  "fst (finite_result f s x) = fst (f s x)" "snd (finite_result f s x) = Some (snd (f s x))"
  by (simp_all add: finite_result_def)

locale guide_algorithm =
  fixes result :: "'s \<Rightarrow> real \<Rightarrow> 's \<times> real option"
    and inv :: "'s \<Rightarrow> bool"
    and minMove :: "'s \<Rightarrow> real"
  assumes inv_result: "inv s \<Longrightarrow> inv (fst (result s x))"
    and minMove_result: "inv s \<Longrightarrow> minMove (fst (result s x)) = minMove s"
    and finite: "inv s \<Longrightarrow> \<exists>r. snd (result s x) = Some r"
    and deadband: "inv s \<Longrightarrow> \<bar>x\<bar> < minMove s \<Longrightarrow> snd (result s x) = Some 0"
begin

lemma run_inv: "inv s \<Longrightarrow> inv (fst (algo_run result s xs)) \<and> minMove (fst (algo_run result s xs)) = minMove s"
  by (induction xs arbitrary: s) (simp_all add: inv_result minMove_result)

lemma run_finite: "inv s \<Longrightarrow> i < length xs \<Longrightarrow> \<exists>r. snd (algo_run result s xs) ! i = Some r"
proof (induction xs arbitrary: s i)
  case (Cons x xs)
  then show ?case by (cases i) (simp_all add: finite inv_result)
qed simp

lemma run_deadband:
  "inv s \<Longrightarrow> i < length xs \<Longrightarrow> \<bar>xs ! i\<bar> < minMove s \<Longrightarrow> snd (algo_run result s xs) ! i = Some 0"
proof (induction xs arbitrary: s i)
  case (Cons x xs)
  then show ?case by (cases i) (simp_all add: deadband inv_result minMove_result)
qed simp

end

text \<open>An algorithm with a gain: a correction is at most that multiple of the offset, and it never
  points away from it.\<close>

locale bounded_algorithm = guide_algorithm +
  fixes gain :: "'a \<Rightarrow> real"
  assumes gain_result: "inv s \<Longrightarrow> gain (fst (result s x)) = gain s"
    and bounded: "inv s \<Longrightarrow> snd (result s x) = Some r \<Longrightarrow> \<bar>r\<bar> \<le> gain s * \<bar>x\<bar>"
begin

lemma run_bounded:
  "inv s \<Longrightarrow> i < length xs \<Longrightarrow> snd (algo_run result s xs) ! i = Some r \<Longrightarrow> \<bar>r\<bar> \<le> gain s * \<bar>xs ! i\<bar>"
proof (induction xs arbitrary: s i)
  case (Cons x xs)
  then show ?case
    using Cons.IH [of "fst (result s x)"]
    by (cases i) (simp_all add: bounded inv_result gain_result)
qed simp

lemma run_within_gain:
  assumes "inv s" "i < length xs"
  shows "\<exists>r. snd (algo_run result s xs) ! i = Some r \<and> \<bar>r\<bar> \<le> gain s * \<bar>xs ! i\<bar> \<and>
    (\<bar>xs ! i\<bar> < minMove s \<longrightarrow> r = 0)"
  using assms run_finite [OF assms] run_bounded [OF assms] run_deadband [OF assms] by auto

end

subsection \<open>Identity (\<open>guide_algorithm_identity.cpp\<close>)\<close>

definition identity_result :: "unit \<Rightarrow> real \<Rightarrow> unit \<times> real" where
  "identity_result s input = (s, input)"

interpretation identity: bounded_algorithm "finite_result identity_result" "\<lambda>_. True" "\<lambda>_. 0" "\<lambda>_. 1"
  by unfold_locales (simp_all add: identity_result_def)

subsection \<open>Hysteresis (\<open>guide_algorithm_hysteresis.cpp\<close>)\<close>

record hysteresis =
  hy_minMove :: real
  hy_hysteresis :: real
  hy_aggression :: real
  hy_lastMove :: real

definition hy_DefaultMinMove :: real where "hy_DefaultMinMove = 0.2"
definition hy_DefaultHysteresis :: real where "hy_DefaultHysteresis = 0.1"
definition hy_DefaultAggression :: real where "hy_DefaultAggression = 0.7"
definition hy_MaxAggression :: real where "hy_MaxAggression = 2"
definition hy_MaxHysteresis :: real where "hy_MaxHysteresis = 0.99"

lemmas hy_consts = hy_DefaultMinMove_def hy_DefaultHysteresis_def hy_DefaultAggression_def
  hy_MaxAggression_def hy_MaxHysteresis_def

definition hy_reset :: "hysteresis \<Rightarrow> hysteresis" where
  "hy_reset s = s\<lparr>hy_lastMove := 0\<rparr>"

definition hy_result :: "hysteresis \<Rightarrow> real \<Rightarrow> hysteresis \<times> real" where
  "hy_result s input =
    (let dReturn = (1 - hy_hysteresis s) * input + hy_hysteresis s * hy_lastMove s;
         dReturn = dReturn * hy_aggression s;
         dReturn = (if \<bar>input\<bar> < hy_minMove s then 0 else dReturn)
     in (s\<lparr>hy_lastMove := dReturn\<rparr>, dReturn))"

definition hy_SetMinMove :: "string \<Rightarrow> hysteresis \<Rightarrow> real \<Rightarrow> hysteresis \<times> bool \<times> cfg_write list" where
  "hy_SetMinMove path s minMove =
    (let (s, bError) = (if minMove < 0 then (s\<lparr>hy_minMove := hy_DefaultMinMove\<rparr>, True)
                        else (s\<lparr>hy_minMove := minMove\<rparr>, False))
     in (s, bError, [SetDouble (path @ ''/minMove'') (hy_minMove s)]))"

definition hy_SetHysteresis :: "string \<Rightarrow> hysteresis \<Rightarrow> real \<Rightarrow> hysteresis \<times> bool \<times> cfg_write list" where
  "hy_SetHysteresis path s hysteresis =
    (let (s, bError) =
       (if hysteresis < 0 \<or> hysteresis > hy_MaxHysteresis
        then (s\<lparr>hy_hysteresis := min (max hysteresis 0) hy_MaxHysteresis\<rparr>, True)
        else (s\<lparr>hy_hysteresis := hysteresis\<rparr>, False))
     in (s, bError, [SetDouble (path @ ''/hysteresis'') (hy_hysteresis s)]))"

definition hy_SetAggression :: "string \<Rightarrow> hysteresis \<Rightarrow> real \<Rightarrow> hysteresis \<times> bool \<times> cfg_write list" where
  "hy_SetAggression path s aggression =
    (let (s, bError) =
       (if aggression < 0 \<or> aggression > hy_MaxAggression
        then (s\<lparr>hy_aggression := hy_DefaultAggression\<rparr>, True)
        else (s\<lparr>hy_aggression := aggression\<rparr>, False));
         s = s\<lparr>hy_lastMove := 0\<rparr>
     in (s, bError, [SetDouble (path @ ''/aggression'') (hy_aggression s)]))"

definition hy_GetParam :: "hysteresis \<Rightarrow> string \<Rightarrow> real option" where
  "hy_GetParam s name =
    (if name = ''minMove'' then Some (hy_minMove s)
     else if name = ''hysteresis'' then Some (hy_hysteresis s)
     else if name = ''aggression'' then Some (hy_aggression s)
     else None)"

definition hy_SetParam :: "string \<Rightarrow> hysteresis \<Rightarrow> string \<Rightarrow> real \<Rightarrow> hysteresis \<times> bool \<times> cfg_write list" where
  "hy_SetParam path s name val =
    (let (s, err, w) =
       (if name = ''minMove'' then hy_SetMinMove path s val
        else if name = ''hysteresis'' then hy_SetHysteresis path s val
        else if name = ''aggression'' then hy_SetAggression path s val
        else (s, True, []))
     in (s, \<not> err, w))"

definition hy_new :: "string \<Rightarrow> (string \<Rightarrow> real \<Rightarrow> real) \<Rightarrow> hysteresis \<Rightarrow> hysteresis \<times> cfg_write list" where
  \<comment> \<open>the last argument is the uninitialised object\<close>
  "hy_new path getDouble s =
    (let (s, _, w1) = hy_SetMinMove path s (getDouble (path @ ''/minMove'') hy_DefaultMinMove);
         (s, _, w2) = hy_SetHysteresis path s (getDouble (path @ ''/hysteresis'') hy_DefaultHysteresis);
         (s, _, w3) = hy_SetAggression path s (getDouble (path @ ''/aggression'') hy_DefaultAggression)
     in (hy_reset s, w1 @ w2 @ w3))"

definition hy_inv :: "hysteresis \<Rightarrow> bool" where
  "hy_inv s \<longleftrightarrow> 0 \<le> hy_minMove s \<and> 0 \<le> hy_hysteresis s \<and> hy_hysteresis s \<le> hy_MaxHysteresis \<and>
     0 \<le> hy_aggression s \<and> hy_aggression s \<le> hy_MaxAggression"

lemma hy_new_inv: "hy_inv (fst (hy_new path getDouble s))"
  by (auto simp: hy_new_def hy_inv_def hy_SetMinMove_def hy_SetHysteresis_def hy_SetAggression_def
      hy_reset_def hy_consts Let_def)

lemma hy_SetParam_inv: "hy_inv s \<Longrightarrow> hy_inv (fst (hy_SetParam path s name val))"
  by (auto simp: hy_inv_def hy_SetParam_def hy_SetMinMove_def hy_SetHysteresis_def
      hy_SetAggression_def hy_consts Let_def)

interpretation hy: guide_algorithm "finite_result hy_result" hy_inv hy_minMove
  by unfold_locales (simp_all add: hy_result_def hy_inv_def Let_def)

text \<open>The correction is a weighted mean of the offset and the last move, times the aggression.
  With an aggression of at most 1, offsets bounded by \<open>B\<close> never produce a move beyond \<open>B\<close>.\<close>

lemma hy_result_contract:
  assumes "hy_inv s" "hy_aggression s \<le> 1" "\<bar>hy_lastMove s\<bar> \<le> B" "\<bar>x\<bar> \<le> B"
  shows "\<bar>snd (hy_result s x)\<bar> \<le> B"
proof -
  let ?m = "(1 - hy_hysteresis s) * x + hy_hysteresis s * hy_lastMove s"
  have h: "0 \<le> hy_hysteresis s" "hy_hysteresis s \<le> 1" "0 \<le> hy_aggression s"
    using assms(1) by (simp_all add: hy_inv_def hy_consts)
  have m: "-B \<le> ?m \<and> ?m \<le> B"
    using convex_between [of "hy_hysteresis s" "-B" x B "hy_lastMove s"] h assms(3,4)
    by (simp add: algebra_simps)
  have "\<bar>?m * hy_aggression s\<bar> \<le> \<bar>?m\<bar> * 1"
    unfolding abs_mult using h assms(2) by (intro mult_left_mono) simp_all
  moreover have "\<bar>?m\<bar> \<le> B" using m by (simp add: abs_le_iff)
  ultimately have "\<bar>?m * hy_aggression s\<bar> \<le> B" by simp
  moreover have "0 \<le> B" using assms(4) by linarith
  ultimately show ?thesis by (simp add: hy_result_def Let_def)
qed

lemma hy_result_frame [simp]:
  "hy_aggression (fst (hy_result s x)) = hy_aggression s"
  "hy_lastMove (fst (hy_result s x)) = snd (hy_result s x)"
  by (simp_all add: hy_result_def Let_def)

lemma hy_run_contract:
  assumes "hy_inv s" "hy_aggression s \<le> 1" "\<bar>hy_lastMove s\<bar> \<le> B" "\<forall>x\<in>set xs. \<bar>x\<bar> \<le> B"
  shows "\<forall>r\<in>set (snd (algo_run hy_result s xs)). \<bar>r\<bar> \<le> B"
  using assms
proof (induction xs arbitrary: s)
  case (Cons x xs)
  have "\<bar>snd (hy_result s x)\<bar> \<le> B" using Cons.prems by (intro hy_result_contract) simp_all
  moreover from this have "\<forall>r\<in>set (snd (algo_run hy_result (fst (hy_result s x)) xs)). \<bar>r\<bar> \<le> B"
    using Cons.prems hy.inv_result [of s x] by (intro Cons.IH) simp_all
  ultimately show ?case by simp
qed simp

subsection \<open>Lowpass (\<open>guide_algorithm_lowpass.cpp\<close>)\<close>

record lowpass =
  lo_minMove :: real
  lo_slopeWeight :: real
  lo_axisStats :: windowed_axis_stats
  lo_timeBase :: int

definition lo_DefaultMinMove :: real where "lo_DefaultMinMove = 0.2"
definition lo_DefaultSlopeWeight :: real where "lo_DefaultSlopeWeight = 5"
definition lo_HISTORY_SIZE :: nat where "lo_HISTORY_SIZE = 10"

lemmas lo_consts = lo_DefaultMinMove_def lo_DefaultSlopeWeight_def lo_HISTORY_SIZE_def

text \<open>The loop of \<open>reset\<close>: it would not end on a dataset that trims itself below the history size.\<close>

partial_function (option) lo_fill :: "lowpass \<Rightarrow> lowpass option" where
  "lo_fill s =
    (if as_GetCount (lo_axisStats s) < lo_HISTORY_SIZE
     then lo_fill (s\<lparr>lo_axisStats := was_AddGuideInfo (lo_axisStats s) (of_int (lo_timeBase s)) 0 0,
                    lo_timeBase := lo_timeBase s + 1\<rparr>)
     else Some s)"

definition lo_reset :: "lowpass \<Rightarrow> lowpass option" where
  "lo_reset s = lo_fill (s\<lparr>lo_axisStats := as_ClearAll (lo_axisStats s), lo_timeBase := 0\<rparr>)"

definition lo_result :: "lowpass \<Rightarrow> real \<Rightarrow> lowpass \<times> real option" where
  \<comment> \<open>a slope that is not finite is 0/0 here, a NaN: every comparison with it is false\<close>
  "lo_result s input =
    (let stats = was_AddGuideInfo (lo_axisStats s) (of_int (lo_timeBase s)) input 0;
         median = as_GetMedian stats;
         stats = was_RemoveOldestEntry stats;
         slope = lf_Slope (as_GetLinearFitResults stats);
         dReturn = map_option (\<lambda>sl. median + lo_slopeWeight s * sl) slope;
         dReturn = (case dReturn of None \<Rightarrow> None
                    | Some d \<Rightarrow> if \<bar>d\<bar> > \<bar>input\<bar> then Some input else Some d);
         dReturn = (if \<bar>input\<bar> < lo_minMove s then Some 0 else dReturn)
     in (s\<lparr>lo_axisStats := stats, lo_timeBase := lo_timeBase s + 1\<rparr>, dReturn))"

definition lo_SetMinMove :: "string \<Rightarrow> lowpass \<Rightarrow> real \<Rightarrow> lowpass \<times> bool \<times> cfg_write list" where
  "lo_SetMinMove path s minMove =
    (let (s, bError) = (if minMove < 0 then (s\<lparr>lo_minMove := lo_DefaultMinMove\<rparr>, True)
                        else (s\<lparr>lo_minMove := minMove\<rparr>, False))
     in (s, bError, [SetDouble (path @ ''/minMove'') (lo_minMove s)]))"

definition lo_SetSlopeWeight :: "string \<Rightarrow> lowpass \<Rightarrow> real \<Rightarrow> lowpass \<times> bool \<times> cfg_write list" where
  "lo_SetSlopeWeight path s slopeWeight =
    (let (s, bError) = (if slopeWeight < 0 then (s\<lparr>lo_slopeWeight := lo_DefaultSlopeWeight\<rparr>, True)
                        else (s\<lparr>lo_slopeWeight := slopeWeight\<rparr>, False))
     in (s, bError, [SetDouble (path @ ''/SlopeWeight'') (lo_slopeWeight s)]))"

definition lo_GetParam :: "lowpass \<Rightarrow> string \<Rightarrow> real option" where
  "lo_GetParam s name =
    (if name = ''minMove'' then Some (lo_minMove s)
     else if name = ''slopeWeight'' then Some (lo_slopeWeight s)
     else None)"

definition lo_SetParam :: "string \<Rightarrow> lowpass \<Rightarrow> string \<Rightarrow> real \<Rightarrow> lowpass \<times> bool \<times> cfg_write list" where
  "lo_SetParam path s name val =
    (let (s, err, w) =
       (if name = ''minMove'' then lo_SetMinMove path s val
        else if name = ''slopeWeight'' then lo_SetSlopeWeight path s val
        else (s, True, []))
     in (s, \<not> err, w))"

definition lo_new :: "string \<Rightarrow> (string \<Rightarrow> real \<Rightarrow> real) \<Rightarrow> int \<Rightarrow> lowpass \<Rightarrow> (lowpass \<times> cfg_write list) option" where
  "lo_new path getDouble garbage s =
    (let (s, _, w1) = lo_SetMinMove path s (getDouble (path @ ''/minMove'') lo_DefaultMinMove);
         (s, _, w2) = lo_SetSlopeWeight path s (getDouble (path @ ''/SlopeWeight'') lo_DefaultSlopeWeight);
         s = s\<lparr>lo_axisStats := was_new garbage 0, lo_timeBase := 0\<rparr>
     in map_option (\<lambda>s. (s, w1 @ w2)) (lo_reset s))"

text \<open>Entries stamped by a counter: their times increase and stay below the counter.\<close>

definition stamped :: "int \<Rightarrow> 'a axis_stats_scheme \<Rightarrow> bool" where
  "stamped tb st \<longleftrightarrow> as_sums st \<and> sorted_wrt (<) (entry_times st) \<and> (\<forall>t\<in>set (entry_times st). t < of_int tb)"

lemma entry_times_add: "entry_times (as_AddGuideInfo st t y g) = entry_times st @ [t]"
  using as_AddGuideInfo_entries [of st t y g] by (auto simp: entry_times_def)

lemma stamped_add: "stamped tb st \<Longrightarrow> stamped (tb + 1) (as_AddGuideInfo st (of_int tb) y g)"
  by (force simp: stamped_def entry_times_add sorted_wrt_append as_AddGuideInfo_sums)

lemma stamped_remove: "stamped tb st \<Longrightarrow> stamped tb (was_RemoveOldestEntry st)"
proof -
  assume a: "stamped tb st"
  have "entry_times (was_RemoveOldestEntry st) = tl (entry_times st)"
    by (simp add: entry_times_def map_tl)
  with a show ?thesis
    by (cases "entry_times st") (auto simp: stamped_def was_Remove_sums)
qed

lemma stamped_add_windowed: "stamped tb st \<Longrightarrow> stamped (tb + 1) (was_AddGuideInfo st (of_int tb) y g)"
  by (simp add: was_AddGuideInfo_def Let_def stamped_add stamped_remove)

lemma stamped_clear: "stamped tb (as_ClearAll st)"
  by (simp add: stamped_def entry_times_def axis_inv_defs as_ClearAll_def as_InitializeScalars_def)

lemma stamped_vary: "stamped tb st \<Longrightarrow> 2 \<le> length (guidingEntries st) \<Longrightarrow> times_vary st"
proof -
  assume st: "stamped tb st" and len: "2 \<le> length (guidingEntries st)"
  obtain t u ts where "entry_times st = t # u # ts"
    using len by (metis Suc_le_length_iff numeral_2_eq_2 positions_length(2))
  with st show "times_vary st" by (auto simp: stamped_def times_vary_def)
qed

lemma stamped_slope:
  "stamped tb st \<Longrightarrow> 2 \<le> length (guidingEntries st) \<Longrightarrow> \<exists>a. lf_Slope (as_GetLinearFitResults st) = Some a"
  using fit_slope(1) [of st] stamped_vary by (auto simp: stamped_def)

definition lo_inv :: "lowpass \<Rightarrow> bool" where
  "lo_inv s \<longleftrightarrow> stamped (lo_timeBase s) (lo_axisStats s) \<and>
     length (guidingEntries (lo_axisStats s)) = lo_HISTORY_SIZE \<and> \<not> autoWindowing (lo_axisStats s) \<and>
     0 \<le> lo_minMove s \<and> 0 \<le> lo_slopeWeight s"

lemma lo_fill_returns:
  assumes "k = lo_HISTORY_SIZE - length (guidingEntries (lo_axisStats s))"
    and "length (guidingEntries (lo_axisStats s)) \<le> lo_HISTORY_SIZE"
    and "stamped (lo_timeBase s) (lo_axisStats s)" "\<not> autoWindowing (lo_axisStats s)"
    and "0 \<le> lo_minMove s" "0 \<le> lo_slopeWeight s"
  shows "\<exists>t. lo_fill s = Some t \<and> lo_inv t"
  using assms
proof (induction k arbitrary: s)
  case 0
  then show ?case by (auto simp: lo_fill.simps lo_inv_def as_GetCount_def)
next
  case (Suc k)
  let ?s = "s\<lparr>lo_axisStats := was_AddGuideInfo (lo_axisStats s) (of_int (lo_timeBase s)) 0 0,
              lo_timeBase := lo_timeBase s + 1\<rparr>"
  have add: "was_AddGuideInfo (lo_axisStats s) (of_int (lo_timeBase s)) 0 0
      = as_AddGuideInfo (lo_axisStats s) (of_int (lo_timeBase s)) 0 0"
    using Suc.prems(4) by (simp add: was_AddGuideInfo_def)
  have "\<exists>t. lo_fill ?s = Some t \<and> lo_inv t"
    using Suc.prems by (intro Suc.IH) (simp_all add: add stamped_add)
  moreover have "length (guidingEntries (lo_axisStats s)) < lo_HISTORY_SIZE"
    using Suc.prems(1) by simp
  then have "lo_fill s = lo_fill ?s"
    by (subst lo_fill.simps) (simp add: as_GetCount_def)
  ultimately show ?case by simp
qed

lemma lo_reset_returns:
  assumes "\<not> autoWindowing (lo_axisStats s)" "0 \<le> lo_minMove s" "0 \<le> lo_slopeWeight s"
  shows "\<exists>t. lo_reset s = Some t \<and> lo_inv t"
  unfolding lo_reset_def using assms
  by (intro lo_fill_returns [OF refl])
    (simp_all add: stamped_clear, simp_all add: as_ClearAll_def as_InitializeScalars_def)

lemma lo_new_returns: "\<exists>t w. lo_new path getDouble garbage s = Some (t, w) \<and> lo_inv t"
proof -
  obtain s1 e1 w1 where 1: "lo_SetMinMove path s (getDouble (path @ ''/minMove'') lo_DefaultMinMove)
      = (s1, e1, w1)" by (metis prod_cases3)
  obtain s2 e2 w2 where 2: "lo_SetSlopeWeight path s1
      (getDouble (path @ ''/SlopeWeight'') lo_DefaultSlopeWeight) = (s2, e2, w2)" by (metis prod_cases3)
  have "0 \<le> lo_minMove s1" using 1 by (auto simp: lo_SetMinMove_def lo_consts split: if_splits)
  then have s2: "0 \<le> lo_minMove s2" "0 \<le> lo_slopeWeight s2"
    using 2 by (auto simp: lo_SetSlopeWeight_def lo_consts split: if_splits)
  let ?s = "s2\<lparr>lo_axisStats := was_new garbage 0, lo_timeBase := 0\<rparr>"
  have "\<exists>t. lo_reset ?s = Some t \<and> lo_inv t"
    using s2 by (intro lo_reset_returns) (simp_all add: was_new_def as_InitializeScalars_def)
  then show ?thesis by (auto simp: lo_new_def 1 2)
qed

lemma lo_SetParam_inv: "lo_inv s \<Longrightarrow> lo_inv (fst (lo_SetParam path s name val))"
  by (auto simp: lo_inv_def lo_SetParam_def lo_SetMinMove_def lo_SetSlopeWeight_def lo_consts Let_def)

lemma lo_result_inv:
  assumes "lo_inv s"
  shows "lo_inv (fst (lo_result s x))"
  using assms stamped_add [of "lo_timeBase s" "lo_axisStats s" x 0]
  by (simp add: lo_inv_def lo_result_def Let_def was_AddGuideInfo_def stamped_remove)

lemma lo_result_value:
  assumes "lo_inv s"
  shows "\<exists>r. snd (lo_result s x) = Some r \<and> \<bar>r\<bar> \<le> \<bar>x\<bar> \<and> (\<bar>x\<bar> < lo_minMove s \<longrightarrow> r = 0)"
proof -
  have "\<exists>a. lf_Slope (as_GetLinearFitResults (lo_axisStats (fst (lo_result s x)))) = Some a"
    using lo_result_inv [OF assms, of x]
    by (intro stamped_slope [of "lo_timeBase (fst (lo_result s x))"]) (simp_all add: lo_inv_def lo_consts)
  then show ?thesis by (auto simp: lo_result_def Let_def)
qed

interpretation lo: bounded_algorithm lo_result lo_inv lo_minMove "\<lambda>_. 1"
proof unfold_locales
  fix s x r assume inv: "lo_inv s"
  show "lo_inv (fst (lo_result s x))" by (rule lo_result_inv [OF inv])
  show "lo_minMove (fst (lo_result s x)) = lo_minMove s" by (simp add: lo_result_def Let_def)
  show "\<exists>r. snd (lo_result s x) = Some r" using lo_result_value [OF inv] by blast
  show "\<bar>x\<bar> < lo_minMove s \<Longrightarrow> snd (lo_result s x) = Some 0"
    using lo_result_value [OF inv, of x] by auto
  show "snd (lo_result s x) = Some r \<Longrightarrow> \<bar>r\<bar> \<le> 1 * \<bar>x\<bar>"
    using lo_result_value [OF inv, of x] by auto
qed simp

subsection \<open>Lowpass2 (\<open>guide_algorithm_lowpass2.cpp\<close>)\<close>

record lowpass2 =
  l2_aggressiveness :: real
  l2_minMove :: real
  l2_rejects :: int
  l2_axisStats :: windowed_axis_stats
  l2_timeBase :: int

definition l2_DefaultMinMove :: real where "l2_DefaultMinMove = 0.2"
definition l2_DefaultAggressiveness :: real where "l2_DefaultAggressiveness = 80"
definition l2_HISTORY_SIZE :: int where "l2_HISTORY_SIZE = 10"

lemmas l2_consts = l2_DefaultMinMove_def l2_DefaultAggressiveness_def l2_HISTORY_SIZE_def

definition l2_reset :: "lowpass2 \<Rightarrow> lowpass2" where
  "l2_reset s = s\<lparr>l2_axisStats := as_ClearAll (l2_axisStats s), l2_timeBase := 0, l2_rejects := 0\<rparr>"

definition l2_result :: "lowpass2 \<Rightarrow> real \<Rightarrow> lowpass2 \<times> real option" where
  \<comment> \<open>a slope that is not finite (\<^term>\<open>None\<close>) is a NaN and makes every comparison false\<close>
  "l2_result s input =
    (let s = s\<lparr>l2_axisStats := was_AddGuideInfo (l2_axisStats s) (of_int (l2_timeBase s)) input 0,
              l2_timeBase := l2_timeBase s + 1\<rparr>;
         numpts = as_GetCount (l2_axisStats s);
         attenuation = l2_aggressiveness s / 100;
         (s, dReturn) =
           (if numpts < 4 then (s, Some (input * attenuation))
            else if \<bar>input\<bar> > 4 * l2_minMove s
            then (l2_reset s, Some (input * attenuation))
            else let newSlope = lf_Slope (as_GetLinearFitResults (l2_axisStats s));
                     d = map_option (\<lambda>sl. sl * real numpts * attenuation) newSlope
                 in (s, map_option (\<lambda>d. if input * d < 0 then 0 else d) d));
         (s, dReturn) =
           (case dReturn of
              None \<Rightarrow> (s\<lparr>l2_rejects := 0\<rparr>, None)
            | Some d \<Rightarrow>
                if \<bar>d\<bar> > \<bar>input\<bar>
                then let s = s\<lparr>l2_rejects := l2_rejects s + 1\<rparr>;
                         s = (if l2_rejects s > 3 then l2_reset s else s)
                     in (s, Some (input * attenuation))
                else (s\<lparr>l2_rejects := 0\<rparr>, Some d));
         dReturn = (if \<bar>input\<bar> < l2_minMove s then Some 0 else dReturn)
     in (s, dReturn))"

definition l2_SetMinMove :: "string \<Rightarrow> lowpass2 \<Rightarrow> real \<Rightarrow> lowpass2 \<times> bool \<times> cfg_write list" where
  "l2_SetMinMove path s minMove =
    (let (s, bError) = (if minMove < 0 then (s\<lparr>l2_minMove := l2_DefaultMinMove\<rparr>, True)
                        else (s\<lparr>l2_minMove := minMove\<rparr>, False))
     in (s, bError, [SetDouble (path @ ''/minMove'') (l2_minMove s)]))"

definition l2_SetAggressiveness :: "string \<Rightarrow> lowpass2 \<Rightarrow> real \<Rightarrow> lowpass2 \<times> bool \<times> cfg_write list" where
  \<comment> \<open>the error branch assigns the default to the parameter, not to the member\<close>
  "l2_SetAggressiveness path s aggressiveness =
    (let (s, aggressiveness, bError) =
       (if aggressiveness < 0 then (s, l2_DefaultAggressiveness, True)
        else (s\<lparr>l2_aggressiveness := aggressiveness\<rparr>, aggressiveness, False))
     in (s, bError, [SetDouble (path @ ''/Aggressiveness'') aggressiveness]))"

definition l2_GetParam :: "lowpass2 \<Rightarrow> string \<Rightarrow> real option" where
  "l2_GetParam s name =
    (if name = ''minMove'' then Some (l2_minMove s)
     else if name = ''aggressiveness'' then Some (l2_aggressiveness s)
     else None)"

definition l2_SetParam :: "string \<Rightarrow> lowpass2 \<Rightarrow> string \<Rightarrow> real \<Rightarrow> lowpass2 \<times> bool \<times> cfg_write list" where
  "l2_SetParam path s name val =
    (let (s, err, w) =
       (if name = ''minMove'' then l2_SetMinMove path s val
        else if name = ''aggressiveness'' then l2_SetAggressiveness path s val
        else (s, True, []))
     in (s, \<not> err, w))"

definition l2_new :: "string \<Rightarrow> (string \<Rightarrow> real \<Rightarrow> real) \<Rightarrow> int \<Rightarrow> lowpass2 \<Rightarrow> lowpass2 \<times> cfg_write list" where
  "l2_new path getDouble garbage s =
    (let (s, _, w1) = l2_SetMinMove path s (getDouble (path @ ''/minMove'') l2_DefaultMinMove);
         (s, _, w2) = l2_SetAggressiveness path s
           (getDouble (path @ ''/Aggressiveness'') l2_DefaultAggressiveness);
         s = s\<lparr>l2_axisStats := was_new garbage l2_HISTORY_SIZE, l2_timeBase := 0\<rparr>
     in (l2_reset s, w1 @ w2))"

definition l2_inv :: "lowpass2 \<Rightarrow> bool" where
  "l2_inv s \<longleftrightarrow> stamped (l2_timeBase s) (l2_axisStats s) \<and> 0 \<le> l2_minMove s \<and>
     0 \<le> l2_aggressiveness s \<and> 0 \<le> l2_rejects s \<and> l2_rejects s \<le> 3"

lemma l2_SetParam_inv: "l2_inv s \<Longrightarrow> l2_inv (fst (l2_SetParam path s name val))"
  by (auto simp: l2_inv_def l2_SetParam_def l2_SetMinMove_def l2_SetAggressiveness_def l2_consts Let_def)

text \<open>The setter of the aggressiveness leaves the member as it was when the value is rejected, and
  writes the default to the profile: the two then disagree.\<close>

lemma l2_SetAggressiveness_rejected:
  "v < 0 \<Longrightarrow> l2_SetAggressiveness path s v =
     (s, True, [SetDouble (path @ ''/Aggressiveness'') l2_DefaultAggressiveness])"
  by (simp add: l2_SetAggressiveness_def)

text \<open>The value computed before the magnitude check, and the check.\<close>

lemma l2_reset_frame [simp]:
  "l2_minMove (l2_reset s) = l2_minMove s" "l2_aggressiveness (l2_reset s) = l2_aggressiveness s"
  by (simp_all add: l2_reset_def)

lemma l2_result_frame [simp]:
  "l2_minMove (fst (l2_result s x)) = l2_minMove s"
  "l2_aggressiveness (fst (l2_result s x)) = l2_aggressiveness s"
  by (auto simp: l2_result_def Let_def split: option.split)

lemma l2_reset_inv: "0 \<le> l2_minMove s \<Longrightarrow> 0 \<le> l2_aggressiveness s \<Longrightarrow> l2_inv (l2_reset s)"
  by (simp add: l2_inv_def stamped_clear) (simp add: l2_reset_def stamped_clear)

lemma l2_inv_rejects: "l2_inv s \<Longrightarrow> 0 \<le> n \<Longrightarrow> n \<le> 3 \<Longrightarrow> l2_inv (s\<lparr>l2_rejects := n\<rparr>)"
  by (simp add: l2_inv_def)

lemma l2_result_inv:
  assumes "l2_inv s"
  shows "l2_inv (fst (l2_result s x))"
proof -
  let ?s = "s\<lparr>l2_axisStats := was_AddGuideInfo (l2_axisStats s) (of_int (l2_timeBase s)) x 0,
              l2_timeBase := l2_timeBase s + 1\<rparr>"
  have s: "l2_inv ?s" using assms by (simp add: l2_inv_def stamped_add_windowed)
  have nn: "0 \<le> l2_minMove s" "0 \<le> l2_aggressiveness s" using assms by (simp_all add: l2_inv_def)
  have r: "l2_inv (l2_reset ?s)" "l2_inv (l2_reset (?s\<lparr>l2_rejects := n\<rparr>))"
    "l2_inv (l2_reset (l2_reset ?s\<lparr>l2_rejects := n\<rparr>))" for n
    using nn by (auto intro!: l2_reset_inv)
  have n: "l2_rejects (l2_reset ?s) = 0" by (simp add: l2_reset_def)
  show ?thesis
    using s r assms n by (auto simp: l2_result_def Let_def l2_inv_rejects l2_inv_def split: option.split)
qed

lemma l2_new_inv:
  assumes "0 \<le> l2_aggressiveness s \<or> 0 \<le> getDouble (path @ ''/Aggressiveness'') l2_DefaultAggressiveness"
  shows "l2_inv (fst (l2_new path getDouble garbage s))"
  using assms
  by (auto simp: l2_new_def l2_SetMinMove_def l2_SetAggressiveness_def l2_consts Let_def intro!: l2_reset_inv)

definition l2_gain :: "lowpass2 \<Rightarrow> real" where
  "l2_gain s = max 1 (l2_aggressiveness s / 100)"

lemma l2_result_value:
  assumes "l2_inv s"
  shows "\<exists>r. snd (l2_result s x) = Some r \<and> \<bar>r\<bar> \<le> l2_gain s * \<bar>x\<bar> \<and> 0 \<le> x * r \<and>
    (\<bar>x\<bar> < l2_minMove s \<longrightarrow> r = 0)"
proof -
  let ?st = "was_AddGuideInfo (l2_axisStats s) (of_int (l2_timeBase s)) x 0"
  define a where "a = l2_aggressiveness s / 100"
  have a: "0 \<le> a" using assms by (simp add: l2_inv_def a_def)
  have "\<bar>x * a\<bar> = a * \<bar>x\<bar>" using a by (simp add: abs_mult)
  also have "\<dots> \<le> l2_gain s * \<bar>x\<bar>" by (rule mult_right_mono) (simp_all add: l2_gain_def a_def)
  finally have att: "\<bar>x * a\<bar> \<le> l2_gain s * \<bar>x\<bar>" .
  have "0 \<le> (x * x) * a" by (rule mult_nonneg_nonneg [OF zero_le_square a])
  then have sgn: "0 \<le> x * (x * a)" by (simp add: mult.assoc)
  have one: "\<bar>x\<bar> \<le> l2_gain s * \<bar>x\<bar>"
    using mult_right_mono [of 1 "l2_gain s" "\<bar>x\<bar>"] by (simp add: l2_gain_def)
  have slope: "\<exists>sl. lf_Slope (as_GetLinearFitResults ?st) = Some sl" if "4 \<le> as_GetCount ?st"
    using assms that by (intro stamped_slope [of "l2_timeBase s + 1"])
      (simp_all add: stamped_add_windowed l2_inv_def as_GetCount_def)
  have "\<exists>d. snd (l2_result s x) = Some d \<and>
      (d = 0 \<or> d = x * a \<or> \<bar>d\<bar> \<le> \<bar>x\<bar> \<and> 0 \<le> x * d) \<and> (\<bar>x\<bar> < l2_minMove s \<longrightarrow> d = 0)"
  proof (cases "as_GetCount ?st < 4")
    case True
    then show ?thesis
      by (intro exI [of _ "if \<bar>x\<bar> < l2_minMove s then 0 else x * a"])
        (auto simp: l2_result_def Let_def a_def)
  next
    case False
    then obtain sl where sl: "lf_Slope (as_GetLinearFitResults ?st) = Some sl" using slope by fastforce
    define p where "p = sl * real (as_GetCount ?st) * a"
    define r where "r = (if \<bar>x\<bar> > 4 * l2_minMove s then x * a else if x * p < 0 then 0 else p)"
    have "snd (l2_result s x) =
        Some (if \<bar>x\<bar> < l2_minMove s then 0 else if \<bar>r\<bar> > \<bar>x\<bar> then x * a else r)"
      using False sl by (simp add: l2_result_def Let_def p_def r_def a_def)
    moreover have "r = 0 \<or> r = x * a \<or> 0 \<le> x * r" by (auto simp: r_def)
    ultimately show ?thesis by auto
  qed
  then obtain d where d: "snd (l2_result s x) = Some d"
    "d = 0 \<or> d = x * a \<or> \<bar>d\<bar> \<le> \<bar>x\<bar> \<and> 0 \<le> x * d" "\<bar>x\<bar> < l2_minMove s \<longrightarrow> d = 0"
    by blast
  have "\<bar>d\<bar> \<le> l2_gain s * \<bar>x\<bar>" "0 \<le> x * d"
    using d(2) att sgn one by (auto simp: l2_gain_def)
  with d show ?thesis by blast
qed

interpretation l2: bounded_algorithm l2_result l2_inv l2_minMove l2_gain
proof unfold_locales
  fix s x r assume inv: "l2_inv s"
  show "l2_inv (fst (l2_result s x))" by (rule l2_result_inv [OF inv])
  show "\<exists>r. snd (l2_result s x) = Some r" using l2_result_value [OF inv] by blast
  show "\<bar>x\<bar> < l2_minMove s \<Longrightarrow> snd (l2_result s x) = Some 0"
    using l2_result_value [OF inv, of x] by auto
  show "snd (l2_result s x) = Some r \<Longrightarrow> \<bar>r\<bar> \<le> l2_gain s * \<bar>x\<bar>"
    using l2_result_value [OF inv, of x] by auto
qed (simp_all add: l2_gain_def)

subsection \<open>ResistSwitch (\<open>guide_algorithm_resistswitch.cpp\<close>)\<close>

record resist_switch =
  rs_minMove :: real
  rs_aggression :: real
  rs_fastSwitchEnabled :: bool
  rs_history :: "real list"
  rs_currentSide :: int

definition rs_DefaultMinMove :: real where "rs_DefaultMinMove = 0.2"
definition rs_DefaultAggression :: real where "rs_DefaultAggression = 1"
definition rs_HISTORY_SIZE :: nat where "rs_HISTORY_SIZE = 10"

lemmas rs_consts = rs_DefaultMinMove_def rs_DefaultAggression_def rs_HISTORY_SIZE_def

definition rs_sign :: "real \<Rightarrow> int" where
  "rs_sign x = (if x > 0 then 1 else if x < 0 then -1 else 0)"

function rs_fill :: "real list \<Rightarrow> real list" where
  "rs_fill h = (if length h < rs_HISTORY_SIZE then rs_fill (h @ [0]) else h)"
  by pat_completeness auto
termination by (relation "measure (\<lambda>h. rs_HISTORY_SIZE - length h)") auto

declare rs_fill.simps [simp del]

definition rs_reset :: "resist_switch \<Rightarrow> resist_switch" where
  "rs_reset s = s\<lparr>rs_history := rs_fill [], rs_currentSide := 0\<rparr>"

definition rs_decHistory :: "resist_switch \<Rightarrow> int" where
  "rs_decHistory s = (\<Sum>h\<leftarrow>rs_history s. if \<bar>h\<bar> > rs_minMove s then rs_sign h else 0)"

text \<open>The large-excursion branch: the history becomes zeros with the input in its last three places.\<close>

definition rs_fast_switch :: "resist_switch \<Rightarrow> real \<Rightarrow> resist_switch" where
  "rs_fast_switch s input =
    (if rs_fastSwitchEnabled s \<and> rs_sign input \<noteq> rs_currentSide s \<and> \<bar>input\<bar> > 3 * rs_minMove s
     then s\<lparr>rs_currentSide := 0,
            rs_history := replicate (rs_HISTORY_SIZE - 3) 0 @ replicate 3 input\<rparr>
     else s)"

text \<open>
  The body of the \<open>try\<close>: \<^term>\<open>None\<close> is a thrown veto (the caller then sends nothing); the state is
  what the body left behind.
\<close>

definition rs_decide :: "resist_switch \<Rightarrow> real \<Rightarrow> resist_switch \<times> real option" where
  "rs_decide s input =
    (if \<bar>input\<bar> < rs_minMove s then (s, None)
     else
       let s = rs_fast_switch s input;
           decHistory = rs_decHistory s;
           hist = rs_history s
       in if rs_currentSide s = 0 \<or> sgn (rs_currentSide s) = - sgn decHistory
          then if \<bar>decHistory\<bar> < 3 then (s, None)
               else let oldest = hist ! 0 + hist ! 1 + hist ! 2;
                        newest = hist ! (length hist - 1) + hist ! (length hist - 2) + hist ! (length hist - 3)
                    in if \<bar>newest\<bar> \<le> \<bar>oldest\<bar> then (s, None)
                       else let s = s\<lparr>rs_currentSide := sgn decHistory\<rparr>
                            in if rs_currentSide s \<noteq> rs_sign input then (s, None) else (s, Some input)
          else if rs_currentSide s \<noteq> rs_sign input then (s, None) else (s, Some input))"

definition rs_result :: "resist_switch \<Rightarrow> real \<Rightarrow> resist_switch \<times> real" where
  "rs_result s input =
    (let s = s\<lparr>rs_history := tl (rs_history s @ [input])\<rparr>;
         (s, d) = rs_decide s input;
         rslt = (case d of None \<Rightarrow> 0 | Some r \<Rightarrow> r)
     in (s, rslt * rs_aggression s))"

definition rs_SetMinMove :: "string \<Rightarrow> resist_switch \<Rightarrow> real \<Rightarrow> resist_switch \<times> bool \<times> cfg_write list" where
  "rs_SetMinMove path s minMove =
    (let (s, bError) =
       (if minMove \<le> 0 then (s\<lparr>rs_minMove := rs_DefaultMinMove\<rparr>, True)
        else (s\<lparr>rs_minMove := minMove, rs_currentSide := 0\<rparr>, False))
     in (s, bError, [SetDouble (path @ ''/minMove'') (rs_minMove s)]))"

definition rs_SetAggression :: "string \<Rightarrow> resist_switch \<Rightarrow> real \<Rightarrow> resist_switch \<times> bool \<times> cfg_write list" where
  "rs_SetAggression path s aggr =
    (let (s, bError) =
       (if aggr < 0 \<or> aggr > 1 then (s\<lparr>rs_aggression := rs_DefaultAggression\<rparr>, True)
        else (s\<lparr>rs_aggression := aggr\<rparr>, False))
     in (s, bError, [SetDouble (path @ ''/aggression'') (rs_aggression s)]))"

definition rs_SetFastSwitchEnabled :: "string \<Rightarrow> resist_switch \<Rightarrow> bool \<Rightarrow> resist_switch \<times> cfg_write list" where
  "rs_SetFastSwitchEnabled path s enable =
    (let s = s\<lparr>rs_fastSwitchEnabled := enable\<rparr>
     in (s, [SetBoolean (path @ ''/fastSwitch'') (rs_fastSwitchEnabled s)]))"

definition rs_GetParam :: "resist_switch \<Rightarrow> string \<Rightarrow> real option" where
  "rs_GetParam s name =
    (if name = ''minMove'' then Some (rs_minMove s)
     else if name = ''fastSwitch'' then Some (if rs_fastSwitchEnabled s then 1 else 0)
     else if name = ''aggression'' then Some (rs_aggression s)
     else None)"

definition rs_SetParam :: "string \<Rightarrow> resist_switch \<Rightarrow> string \<Rightarrow> real \<Rightarrow> resist_switch \<times> bool \<times> cfg_write list" where
  "rs_SetParam path s name val =
    (let (s, err, w) =
       (if name = ''minMove'' then rs_SetMinMove path s val
        else if name = ''fastSwitch''
        then (let (s, w) = rs_SetFastSwitchEnabled path s (val \<noteq> 0) in (s, False, w))
        else if name = ''aggression'' then rs_SetAggression path s val
        else (s, True, []))
     in (s, \<not> err, w))"

definition rs_new :: "string \<Rightarrow> (string \<Rightarrow> real \<Rightarrow> real) \<Rightarrow> (string \<Rightarrow> bool \<Rightarrow> bool) \<Rightarrow> resist_switch \<Rightarrow> resist_switch \<times> cfg_write list" where
  "rs_new path getDouble getBoolean s =
    (let (s, _, w1) = rs_SetMinMove path s (getDouble (path @ ''/minMove'') rs_DefaultMinMove);
         (s, _, w2) = rs_SetAggression path s (getDouble (path @ ''/aggression'') rs_DefaultAggression);
         (s, w3) = rs_SetFastSwitchEnabled path s (getBoolean (path @ ''/fastSwitch'') True)
     in (rs_reset s, w1 @ w2 @ w3))"

definition rs_inv :: "resist_switch \<Rightarrow> bool" where
  "rs_inv s \<longleftrightarrow> length (rs_history s) = rs_HISTORY_SIZE \<and> rs_currentSide s \<in> {-1, 0, 1} \<and>
     0 < rs_minMove s \<and> 0 \<le> rs_aggression s \<and> rs_aggression s \<le> 1"

lemma rs_fill_zeros: "length h \<le> rs_HISTORY_SIZE \<Longrightarrow> rs_fill h = h @ replicate (rs_HISTORY_SIZE - length h) 0"
proof (induction h rule: rs_fill.induct)
  case (1 h)
  show ?case
  proof (cases "length h < rs_HISTORY_SIZE")
    case True
    then have "rs_HISTORY_SIZE - length h = Suc (rs_HISTORY_SIZE - Suc (length h))" by simp
    with True 1 show ?thesis by (simp add: rs_fill.simps [of h])
  next
    case False
    with 1 show ?thesis by (simp add: rs_fill.simps [of h])
  qed
qed

lemma rs_new_inv: "rs_inv (fst (rs_new path getDouble getBoolean s))"
  by (auto simp: rs_new_def rs_inv_def rs_SetMinMove_def rs_SetAggression_def rs_fill_zeros
      rs_SetFastSwitchEnabled_def rs_reset_def rs_consts Let_def)

lemma rs_SetParam_inv: "rs_inv s \<Longrightarrow> rs_inv (fst (rs_SetParam path s name val))"
  by (auto simp: rs_inv_def rs_SetParam_def rs_SetMinMove_def rs_SetAggression_def
      rs_SetFastSwitchEnabled_def rs_consts Let_def)

lemma sgn_int_range: "sgn (k :: int) \<in> {-1, 0, 1}"
  by (auto simp: sgn_if)

lemma rs_fast_switch_inv: "rs_inv s \<Longrightarrow> rs_inv (rs_fast_switch s x)"
  by (auto simp: rs_inv_def rs_fast_switch_def rs_consts)

lemma rs_fast_switch_frame [simp]:
  "rs_minMove (rs_fast_switch s x) = rs_minMove s"
  "rs_aggression (rs_fast_switch s x) = rs_aggression s"
  "rs_fastSwitchEnabled (rs_fast_switch s x) = rs_fastSwitchEnabled s"
  by (auto simp: rs_fast_switch_def)

lemma rs_inv_side: "rs_inv s \<Longrightarrow> rs_inv (s\<lparr>rs_currentSide := sgn k\<rparr>)"
  using sgn_int_range [of k] by (auto simp: rs_inv_def)

lemma rs_inv_sign: "rs_inv s \<Longrightarrow> rs_inv (s\<lparr>rs_currentSide := rs_sign x\<rparr>)"
  by (auto simp: rs_inv_def rs_sign_def)

lemma rs_inv_zero: "rs_inv s \<Longrightarrow> rs_inv (s\<lparr>rs_currentSide := 0\<rparr>)"
  by (auto simp: rs_inv_def)

lemma rs_inv_shift: "rs_inv s \<Longrightarrow> rs_inv (s\<lparr>rs_history := tl (rs_history s @ [x])\<rparr>)"
  by (auto simp: rs_inv_def)

lemma rs_decide_inv: "rs_inv s \<Longrightarrow> rs_inv (fst (rs_decide s x))"
  by (auto simp: rs_decide_def Let_def rs_fast_switch_inv rs_inv_side rs_inv_sign rs_inv_zero)

lemma rs_decide_frame [simp]:
  "rs_minMove (fst (rs_decide s x)) = rs_minMove s"
  "rs_aggression (fst (rs_decide s x)) = rs_aggression s"
  by (auto simp: rs_decide_def Let_def)

text \<open>A correction is only let through when the input lies on the side the algorithm then holds.\<close>

lemma rs_decide_Some:
  assumes "snd (rs_decide s x) = Some r"
  shows "r = x \<and> rs_currentSide (fst (rs_decide s x)) = rs_sign x \<and> rs_minMove s \<le> \<bar>x\<bar>"
  using assms by (auto simp: rs_decide_def Let_def split: if_splits)

lemma rs_result_value:
  "snd (rs_result s x) = 0 \<or>
   (snd (rs_result s x) = x * rs_aggression s \<and> rs_currentSide (fst (rs_result s x)) = rs_sign x
    \<and> rs_minMove s \<le> \<bar>x\<bar>)"
proof -
  let ?s = "s\<lparr>rs_history := tl (rs_history s @ [x])\<rparr>"
  show ?thesis
  proof (cases "snd (rs_decide ?s x)")
    case None
    then show ?thesis by (simp add: rs_result_def case_prod_beta Let_def)
  next
    case (Some r)
    with rs_decide_Some [OF Some] show ?thesis by (simp add: rs_result_def case_prod_beta Let_def)
  qed
qed

lemma rs_result_inv: "rs_inv s \<Longrightarrow> rs_inv (fst (rs_result s x))"
  by (simp add: rs_result_def case_prod_beta Let_def rs_decide_inv rs_inv_shift)

lemma rs_result_frame [simp]:
  "rs_minMove (fst (rs_result s x)) = rs_minMove s"
  "rs_aggression (fst (rs_result s x)) = rs_aggression s"
  by (simp_all add: rs_result_def case_prod_beta Let_def)

interpretation rs: bounded_algorithm "finite_result rs_result" rs_inv rs_minMove rs_aggression
proof unfold_locales
  fix s x r assume inv: "rs_inv s"
  show "rs_inv (fst (finite_result rs_result s x))" by (simp add: rs_result_inv inv)
  show "\<bar>x\<bar> < rs_minMove s \<Longrightarrow> snd (finite_result rs_result s x) = Some 0"
    using rs_result_value [of s x] by auto
  show "snd (finite_result rs_result s x) = Some r \<Longrightarrow> \<bar>r\<bar> \<le> rs_aggression s * \<bar>x\<bar>"
    using rs_result_value [of s x] inv by (auto simp: abs_mult mult.commute rs_inv_def)
qed simp_all

text \<open>Changing sides takes evidence: at least three net excursions to the new side among the last
  ten, and the newest three larger than the oldest three.\<close>

lemma rs_decide_side:
  assumes "\<not> rs_fastSwitchEnabled s"
    and "rs_currentSide (fst (rs_decide s x)) \<noteq> rs_currentSide s"
  shows "3 \<le> \<bar>rs_decHistory s\<bar> \<and> rs_currentSide (fst (rs_decide s x)) = sgn (rs_decHistory s)
    \<and> (rs_currentSide s = 0 \<or> sgn (rs_currentSide s) = - sgn (rs_decHistory s))"
  using assms by (auto simp: rs_decide_def rs_fast_switch_def Let_def split: if_splits)

subsection \<open>Properties\<close>

text \<open>Whatever the profile holds, the constructor of the lowpass algorithm returns (its history
  loop ends), and on any sequence of offsets every correction is a finite number, at most as large as
  the offset, and zero inside the minimum-move band.\<close>

theorem lowpass_safe:
  shows "\<exists>s w. lo_new path getDouble garbage s0 = Some (s, w) \<and>
    (\<forall>i < length xs. \<exists>r. snd (algo_run lo_result s xs) ! i = Some r \<and> \<bar>r\<bar> \<le> \<bar>xs ! i\<bar> \<and>
      (\<bar>xs ! i\<bar> < lo_minMove s \<longrightarrow> r = 0))"
  using lo_new_returns [of path getDouble garbage s0] lo.run_within_gain [of _ _ xs] by fastforce

theorem lowpass_safe_witness:
  "\<exists>s w r. lo_new ''p'' (\<lambda>_ d. d) 0 (undefined :: lowpass) = Some (s, w) \<and>
     snd (algo_run lo_result s [1, 2]) ! 1 = Some r \<and> \<bar>r\<bar> \<le> 2"
proof -
  obtain s w where "lo_new ''p'' (\<lambda>_ d. d) 0 (undefined :: lowpass) = Some (s, w)"
    "\<forall>i < length [1, 2 :: real]. \<exists>r. snd (algo_run lo_result s [1, 2]) ! i = Some r \<and>
       \<bar>r\<bar> \<le> \<bar>[1, 2 :: real] ! i\<bar> \<and> (\<bar>[1, 2 :: real] ! i\<bar> < lo_minMove s \<longrightarrow> r = 0)"
    using lowpass_safe [of "''p''" "\<lambda>_ d. d" 0 "undefined :: lowpass" "[1, 2]"] by blast
  from this(2) [rule_format, of 1] this(1) show ?thesis by auto
qed

text \<open>On any sequence of offsets the second lowpass algorithm, with an aggressiveness that is not
  negative, returns finite corrections at most as large as the offset times the larger of 1 and the
  aggressiveness, and zero inside the minimum-move band; the aggressiveness of a fresh object is known
  to be set only when the profile's value is accepted.\<close>

theorem lowpass2_safe:
  assumes "0 \<le> getDouble (path @ ''/Aggressiveness'') l2_DefaultAggressiveness" "i < length xs"
    and s: "s = fst (l2_new path getDouble garbage s0)"
  shows "\<exists>r. snd (algo_run l2_result s xs) ! i = Some r \<and>
    \<bar>r\<bar> \<le> max 1 (l2_aggressiveness s / 100) * \<bar>xs ! i\<bar> \<and> (\<bar>xs ! i\<bar> < l2_minMove s \<longrightarrow> r = 0)"
proof -
  have "l2_inv s" unfolding s using assms(1) by (intro l2_new_inv) simp
  then show ?thesis using l2.run_within_gain [OF _ assms(2)] by (simp add: l2_gain_def)
qed

theorem lowpass2_safe_witness:
  "\<exists>r. snd (algo_run l2_result (fst (l2_new ''p'' (\<lambda>_ d. d) 0 undefined)) [3, 1]) ! 0 = Some r \<and> \<bar>r\<bar> \<le> 3"
proof -
  have "l2_aggressiveness (fst (l2_new ''p'' (\<lambda>_ d. d) 0 undefined)) = 80"
    by (simp add: l2_new_def l2_SetMinMove_def l2_SetAggressiveness_def l2_consts)
  with lowpass2_safe [of "\<lambda>_ d. d" "''p''" 0 "[3, 1]" _ 0 undefined, OF _ _ refl] show ?thesis
    by (auto simp: l2_DefaultAggressiveness_def)
qed

text \<open>C8: The resist-switch algorithm sends either nothing or the offset scaled by the aggression, and it
  sends something only towards the side it then holds and outside the minimum-move band. Without the
  fast switch it changes sides only when at least three more of the last ten offsets lie beyond the
  band on the new side than on the old one.\<close>

theorem resist_switch_conservative:
  assumes "rs_inv s" and tr: "rs_result s x = (t, r)"
  shows "rs_inv t \<and> (r = 0 \<or> r = x * rs_aggression s \<and> rs_sign x = rs_currentSide t \<and> rs_minMove s \<le> \<bar>x\<bar>)
    \<and> (\<not> rs_fastSwitchEnabled s \<and> rs_currentSide t \<noteq> rs_currentSide s \<longrightarrow>
        3 \<le> \<bar>rs_decHistory (s\<lparr>rs_history := tl (rs_history s @ [x])\<rparr>)\<bar> \<and>
        rs_currentSide t = sgn (rs_decHistory (s\<lparr>rs_history := tl (rs_history s @ [x])\<rparr>)))"
proof -
  let ?s = "s\<lparr>rs_history := tl (rs_history s @ [x])\<rparr>"
  have t: "t = fst (rs_decide ?s x)" using tr by (auto simp: rs_result_def case_prod_beta Let_def)
  have "rs_inv t" using rs_result_inv [OF assms(1), of x] tr by simp
  moreover have "r = 0 \<or> r = x * rs_aggression s \<and> rs_sign x = rs_currentSide t \<and> rs_minMove s \<le> \<bar>x\<bar>"
    using rs_result_value [of s x] tr by auto
  ultimately show ?thesis using rs_decide_side [of ?s x] by (simp add: t)
qed

theorem resist_switch_conservative_witness:
  "rs_currentSide (fst (rs_result \<lparr>rs_minMove = 1, rs_aggression = 1, rs_fastSwitchEnabled = False,
      rs_history = [0, 0, 0, 0, 0, 0, 0, 0, -2, -2], rs_currentSide = 1\<rparr> (-2))) = -1
   \<and> snd (rs_result \<lparr>rs_minMove = 1, rs_aggression = 1, rs_fastSwitchEnabled = False,
      rs_history = [0, 0, 0, 0, 0, 0, 0, 0, -2, -2], rs_currentSide = 1\<rparr> (-2)) = -2
   \<and> rs_inv (fst (rs_result \<lparr>rs_minMove = 1, rs_aggression = 1, rs_fastSwitchEnabled = False,
      rs_history = [0, 0, 0, 0, 0, 0, 0, 0, -2, -2], rs_currentSide = 1\<rparr> (-2)))"
proof -
  let ?s = "\<lparr>rs_minMove = 1, rs_aggression = 1, rs_fastSwitchEnabled = False,
      rs_history = [0, 0, 0, 0, 0, 0, 0, 0, -2, -2], rs_currentSide = 1\<rparr>"
  have inv: "rs_inv ?s" by (simp add: rs_inv_def rs_consts)
  have eq: "rs_result ?s (-2) = (?s\<lparr>rs_history := [0, 0, 0, 0, 0, 0, 0, -2, -2, -2], rs_currentSide := -1\<rparr>, -2)"
    by (simp add: rs_result_def rs_decide_def rs_fast_switch_def rs_decHistory_def rs_sign_def Let_def
        numeral_nat)
  show ?thesis using resist_switch_conservative [OF inv eq] unfolding eq by (simp only: fst_conv snd_conv) simp
qed

text \<open>With an aggression of at most 1, the hysteresis algorithm never sends a move larger than the
  largest offset it has seen, over any sequence of offsets, although it adds a share of the previous
  move to each one.\<close>

theorem hysteresis_bounded:
  assumes "hy_inv s" "hy_aggression s \<le> 1" "\<bar>hy_lastMove s\<bar> \<le> B" "\<forall>x\<in>set xs. \<bar>x\<bar> \<le> B"
  shows "\<forall>r\<in>set (snd (algo_run hy_result s xs)). \<bar>r\<bar> \<le> B"
  by (rule hy_run_contract [OF assms])

theorem hysteresis_bounded_witness:
  "list_all (\<lambda>r. \<bar>r\<bar> \<le> 3) (snd (algo_run hy_result (fst (hy_new ''p'' (\<lambda>_ d. d) undefined)) [3, -3]))"
proof -
  let ?s = "fst (hy_new ''p'' (\<lambda>_ d. d) undefined)"
  have "hy_aggression ?s = 0.7 \<and> hy_lastMove ?s = 0"
    by (simp add: hy_new_def hy_SetMinMove_def hy_SetHysteresis_def hy_SetAggression_def hy_reset_def hy_consts)
  then show ?thesis unfolding list_all_iff by (intro hysteresis_bounded hy_new_inv) simp_all
qed

text \<open>In every algorithm with parameters, a parameter that \<open>SetParam\<close> accepts is the one \<open>GetParam\<close>
  then returns (for the fast-switch flag, 1 for any value but 0), and \<open>SetParam\<close> never breaks the
  algorithm's invariant, whether it accepts the value or not.\<close>

theorem params_roundtrip:
  "(hy_SetParam path h name v = (h', ok, w) \<longrightarrow>
      (ok \<longrightarrow> hy_GetParam h' name = Some v) \<and> (hy_inv h \<longrightarrow> hy_inv h')) \<and>
   (lo_SetParam path l name v = (l', ok, w) \<longrightarrow>
      (ok \<longrightarrow> lo_GetParam l' name = Some v) \<and> (lo_inv l \<longrightarrow> lo_inv l')) \<and>
   (l2_SetParam path m name v = (m', ok, w) \<longrightarrow>
      (ok \<longrightarrow> l2_GetParam m' name = Some v) \<and> (l2_inv m \<longrightarrow> l2_inv m')) \<and>
   (rs_SetParam path r name v = (r', ok, w) \<longrightarrow>
      (ok \<longrightarrow> rs_GetParam r' name = Some (if name = ''fastSwitch'' then (if v = 0 then 0 else 1) else v))
      \<and> (rs_inv r \<longrightarrow> rs_inv r'))"
proof -
  have "hy_SetParam path h name v = (h', ok, w) \<Longrightarrow> ok \<Longrightarrow> hy_GetParam h' name = Some v"
    by (auto simp: hy_SetParam_def hy_GetParam_def hy_SetMinMove_def hy_SetHysteresis_def
        hy_SetAggression_def Let_def split: if_splits)
  moreover have "lo_SetParam path l name v = (l', ok, w) \<Longrightarrow> ok \<Longrightarrow> lo_GetParam l' name = Some v"
    by (auto simp: lo_SetParam_def lo_GetParam_def lo_SetMinMove_def lo_SetSlopeWeight_def
        Let_def split: if_splits)
  moreover have "l2_SetParam path m name v = (m', ok, w) \<Longrightarrow> ok \<Longrightarrow> l2_GetParam m' name = Some v"
    by (auto simp: l2_SetParam_def l2_GetParam_def l2_SetMinMove_def l2_SetAggressiveness_def
        Let_def split: if_splits)
  moreover have "rs_SetParam path r name v = (r', ok, w) \<Longrightarrow> ok \<Longrightarrow>
      rs_GetParam r' name = Some (if name = ''fastSwitch'' then (if v = 0 then 0 else 1) else v)"
    by (auto simp: rs_SetParam_def rs_GetParam_def rs_SetMinMove_def rs_SetAggression_def
        rs_SetFastSwitchEnabled_def Let_def split: if_splits)
  ultimately show ?thesis
    using hy_SetParam_inv [of h path name v] lo_SetParam_inv [of l path name v]
      l2_SetParam_inv [of m path name v] rs_SetParam_inv [of r path name v]
    by (intro conjI impI) (simp_all only: fst_conv)
qed

theorem params_roundtrip_witness:
  "rs_GetParam (fst (rs_SetParam ''p'' \<lparr>rs_minMove = 1, rs_aggression = 1, rs_fastSwitchEnabled = False,
     rs_history = [], rs_currentSide = 1\<rparr> ''fastSwitch'' 7)) ''fastSwitch'' = Some 1"
proof -
  let ?r = "\<lparr>rs_minMove = 1, rs_aggression = 1, rs_fastSwitchEnabled = False, rs_history = [], rs_currentSide = 1\<rparr>"
  obtain r' w where "rs_SetParam ''p'' ?r ''fastSwitch'' 7 = (r', True, w)"
    by (simp add: rs_SetParam_def rs_SetFastSwitchEnabled_def)
  with params_roundtrip [of "''p''" _ "''fastSwitch''" 7 _ True w _ _ _ _ ?r r'] show ?thesis by simp
qed

end
