(* ===== verification/Controller.thy ===== *)
theory Controller
  imports Prelude "HOL-Library.Signed_Division"
begin

unbundle bit_operations_syntax

text \<open>
  \<open>src/src/controller.cpp\<close>: the state machine behind the event server's \<open>guide\<close> and \<open>dither\<close>
  requests. The static \<open>ctrl\<close> is the record \<open>controller\<close>; \<open>UpdateControllerState\<close> runs once per camera
  frame. What the controller reads of the rest of the program (the gear, the guider, the frame, the
  clock and the outcome of the calls it makes) is the record \<open>env\<close>; the calls it makes and the
  notifications it sends are the list of \<open>ctrl_event\<close>s returned in order, and the environment fields
  those calls write are updated.
\<close>

datatype ctrl_state = STATE_IDLE | STATE_SETUP | STATE_ATTEMPT_START | STATE_SELECT_STAR
  | STATE_WAIT_SELECTED | STATE_CALIBRATE | STATE_CALIBRATION_WAIT | STATE_GUIDE
  | STATE_SETTLE_BEGIN | STATE_SETTLE_WAIT | STATE_FINISH

datatype settle_op = OP_DITHER | OP_GUIDE

datatype guider_state = GS_UNINITIALIZED | GS_SELECTING | GS_SELECTED | GS_CALIBRATING_PRIMARY
  | GS_CALIBRATING_SECONDARY | GS_CALIBRATED | GS_GUIDING | GS_STOP

definition IsCalibratingOrGuiding :: "guider_state \<Rightarrow> bool" where
  "IsCalibratingOrGuiding s \<longleftrightarrow>
     s \<in> {GS_CALIBRATING_PRIMARY, GS_CALIBRATING_SECONDARY, GS_CALIBRATED, GS_GUIDING}"

record settle_params =
  tolerancePx :: real
  settleTimeSec :: int
  timeoutSec :: int
  frames :: int

type_synonym roi = "int \<times> int \<times> int \<times> int"

definition SETTLING_TIME_DISABLED :: int where "SETTLING_TIME_DISABLED = 9999"

definition GUIDEOPT_FORCE_RECAL :: u32 where "GUIDEOPT_FORCE_RECAL = push_bit 0 1"
definition GUIDEOPT_USE_STICKY_LOCK :: u32 where "GUIDEOPT_USE_STICKY_LOCK = push_bit 1 1"

record controller =
  state :: ctrl_state
  forceCalibration :: bool
  haveSaveSticky :: bool
  saveSticky :: bool
  autoFindAttemptsRemaining :: int
  waitSelectedRemaining :: int
  useStickyLock :: bool
  settleOp :: settle_op
  settle :: settle_params
  ctrl_roi :: roi
  settlePriorFrameInRange :: bool
  settleTimeout :: int \<comment> \<open>the times the stop watches were started\<close>
  settleInRange :: int
  saveDecGuideMode :: dec_guide_mode
  overrideDecGuideMode :: bool
  settleFrameCount :: int
  droppedFrameCount :: int
  succeeded :: bool
  errorMsg :: string

record mount_env =
  IsConnected :: bool
  IsCalibrated :: bool
  IsStepGuider :: bool
  IsBumpInProgress :: bool

record env =
  camera :: "bool option" \<comment> \<open>\<open>pCamera\<close>: null, or its \<open>Connected\<close> flag\<close>
  mount1 :: "mount_env option" \<comment> \<open>\<open>pMount\<close>\<close>
  mount2 :: "mount_env option" \<comment> \<open>\<open>pSecondaryMount\<close>\<close>
  scopeDecGuideMode :: dec_guide_mode \<comment> \<open>the Dec guide mode of \<open>TheScope()\<close>\<close>
  guiderState :: guider_state
  lockPosIsSticky :: bool
  isLocked :: bool
  currentGuideError :: real
  CaptureActive :: bool
  autoExposureEnabled :: bool
  ditherRaOnly :: bool
  now :: int \<comment> \<open>milliseconds\<close>
  autoSelectError :: bool
  startGuidingError :: bool
  ditherError :: bool

datatype ctrl_event =
    NotifySettleBegin
  | NotifySettling real real int bool
  | NotifySettleDone string int int
  | NotifySettlingStateChange string
  | NotifyGuidingDitherSettleDone bool
  | GuiderReset
  | GuiderForceFullFrame
  | ResetAutoExposure
  | StartCapturing
  | AutoSelectStar roi
  | StartGuiding
  | ClearCalibration1
  | ClearCalibration2
  | SetLockPosIsSticky bool
  | SetDecGuideMode dec_guide_mode
  | FrameDither real bool

type_synonym ctrl_result = "controller \<times> env \<times> ctrl_event list"

subsection \<open>Helpers\<close>

definition IsSettling :: "controller \<Rightarrow> bool" where
  "IsSettling c \<longleftrightarrow> state c = STATE_SETTLE_BEGIN \<or> state c = STATE_SETTLE_WAIT"

definition IsIdle :: "controller \<Rightarrow> bool" where
  "IsIdle c \<longleftrightarrow> state c = STATE_IDLE"

definition ReentrancyError :: "string \<Rightarrow> controller \<Rightarrow> string" where
  "ReentrancyError op c = ''Cannot initiate '' @ op @ '' while '' @
     (if settleOp c = OP_DITHER then ''dither'' else ''guide'') @ '' is in progress''"

definition do_fail :: "string \<Rightarrow> controller \<Rightarrow> controller" where
  "do_fail msg c = c\<lparr>succeeded := False, errorMsg := msg, state := STATE_FINISH\<rparr>"

definition all_gear_connected :: "env \<Rightarrow> bool" where
  "all_gear_connected e \<longleftrightarrow> camera e = Some True \<and>
     (case mount1 e of None \<Rightarrow> True | Some m \<Rightarrow> IsConnected m) \<and>
     (case mount2 e of None \<Rightarrow> True | Some m \<Rightarrow> IsConnected m)"

definition CanGuide :: "env \<Rightarrow> string option" where
  \<comment> \<open>\<^term>\<open>None\<close> is true; otherwise the error\<close>
  "CanGuide e = (if \<not> all_gear_connected e then Some ''all equipment must be connected first'' else None)"

definition do_notify :: "controller \<Rightarrow> env \<Rightarrow> ctrl_event list" where
  "do_notify c e =
    (if succeeded c
     then [NotifySettleDone [] (settleFrameCount c) (droppedFrameCount c),
           NotifySettlingStateChange ''Settling complete'']
     else [NotifySettleDone (errorMsg c) (settleFrameCount c) (droppedFrameCount c),
           NotifySettlingStateChange ''Settling failed'']) @
    (case mount1 e of None \<Rightarrow> [] | Some _ \<Rightarrow> [NotifyGuidingDitherSettleDone (succeeded c)])"

definition start_capturing :: "env \<Rightarrow> env \<times> ctrl_event list \<times> bool" where
  "start_capturing e =
    (if camera e \<noteq> Some True then (e, [], False)
     else (e\<lparr>CaptureActive := True\<rparr>,
           [GuiderReset, GuiderForceFullFrame, ResetAutoExposure, StartCapturing], True))"

definition start_guiding :: "env \<Rightarrow> ctrl_event list \<times> bool" where
  "start_guiding e = ([StartGuiding], \<not> startGuidingError e)"

definition IsAoBumpInProgress :: "env \<Rightarrow> bool" where
  "IsAoBumpInProgress e = (case mount1 e of None \<Rightarrow> False
     | Some m \<Rightarrow> IsStepGuider m \<and> IsBumpInProgress m)"

definition uncalibrated :: "mount_env option \<Rightarrow> bool" where
  "uncalibrated m = (case m of None \<Rightarrow> False | Some m \<Rightarrow> \<not> IsCalibrated m)"

definition clear_calibration :: "env \<Rightarrow> env \<times> ctrl_event list" where
  "clear_calibration e =
    (e\<lparr>mount1 := map_option (\<lambda>m. m\<lparr>IsCalibrated := False\<rparr>) (mount1 e),
       mount2 := map_option (\<lambda>m. m\<lparr>IsCalibrated := False\<rparr>) (mount2 e)\<rparr>,
     (case mount1 e of None \<Rightarrow> [] | Some _ \<Rightarrow> [ClearCalibration1]) @
     (case mount2 e of None \<Rightarrow> [] | Some _ \<Rightarrow> [ClearCalibration2]))"

subsection \<open>One iteration of the update loop\<close>

text \<open>Each case of the switch returns the new state, the events, and the loop's \<open>done\<close> flag.\<close>

definition step_setup :: "controller \<Rightarrow> env \<Rightarrow> ctrl_result \<times> bool" where
  "step_setup c e =
    ((c\<lparr>haveSaveSticky := False, autoFindAttemptsRemaining := 3, overrideDecGuideMode := False,
        state := STATE_ATTEMPT_START\<rparr>, e, []), False)"

definition step_attempt_start :: "controller \<Rightarrow> env \<Rightarrow> ctrl_result \<times> bool" where
  "step_attempt_start c e =
    (case CanGuide e of
       Some err \<Rightarrow> ((do_fail err c, e, []), False)
     | None \<Rightarrow>
       if IsCalibratingOrGuiding (guiderState e)
       then if forceCalibration c then ((c\<lparr>state := STATE_CALIBRATE\<rparr>, e, []), False)
            else if guiderState e = GS_CALIBRATED \<or> guiderState e = GS_GUIDING
            then ((c\<lparr>state := STATE_SETTLE_BEGIN\<rparr>, e, []), False)
            else ((c\<lparr>state := STATE_CALIBRATION_WAIT\<rparr>, e, []), True)
       else if \<not> CaptureActive e
       then (let (e, ev, ok) = start_capturing e
             in if \<not> ok then ((do_fail ''unable to start capturing'' c, e, ev), False)
                else ((c\<lparr>state := STATE_SELECT_STAR\<rparr>, e, ev), True))
       else if guiderState e = GS_SELECTED
       then ((c\<lparr>state := STATE_CALIBRATE\<rparr>, e, []), False)
       else if autoExposureEnabled e
            then ((c\<lparr>state := STATE_SELECT_STAR\<rparr>, e, [ResetAutoExposure]), True)
            else ((c\<lparr>state := STATE_SELECT_STAR\<rparr>, e, []), False))"

definition step_select_star :: "controller \<Rightarrow> env \<Rightarrow> ctrl_result \<times> bool" where
  "step_select_star c e =
    (if autoSelectError e
     then let c = c\<lparr>autoFindAttemptsRemaining := autoFindAttemptsRemaining c - 1\<rparr>
          in if autoFindAttemptsRemaining c = 0
             then ((do_fail ''failed to find a suitable guide star'' c, e, [AutoSelectStar (ctrl_roi c)]), False)
             else ((c\<lparr>state := STATE_ATTEMPT_START\<rparr>, e, [AutoSelectStar (ctrl_roi c), GuiderReset]), True)
     else ((c\<lparr>state := STATE_WAIT_SELECTED, waitSelectedRemaining := 3\<rparr>, e, [AutoSelectStar (ctrl_roi c)]), True))"

definition step_wait_selected :: "controller \<Rightarrow> env \<Rightarrow> ctrl_result \<times> bool" where
  "step_wait_selected c e =
    (if guiderState e = GS_SELECTED then ((c\<lparr>state := STATE_CALIBRATE\<rparr>, e, []), False)
     else let c = c\<lparr>waitSelectedRemaining := waitSelectedRemaining c - 1\<rparr>
          in if waitSelectedRemaining c = 0 then ((c\<lparr>state := STATE_ATTEMPT_START\<rparr>, e, []), True)
             else ((c, e, []), True))"

definition step_calibrate :: "controller \<Rightarrow> env \<Rightarrow> ctrl_result \<times> bool" where
  "step_calibrate c e =
    (let (e, ev1) = (if forceCalibration c then clear_calibration e else (e, []))
     in if uncalibrated (mount1 e) \<or> uncalibrated (mount2 e)
        then let (c, e, ev2) =
                   (if useStickyLock c
                    then (c\<lparr>saveSticky := lockPosIsSticky e, haveSaveSticky := True\<rparr>,
                          e\<lparr>lockPosIsSticky := True\<rparr>, [SetLockPosIsSticky True])
                    else (c, e, []));
                 (ev3, ok) = start_guiding e
             in if \<not> ok
                then let (e, ev4) = (if useStickyLock c \<and> haveSaveSticky c
                                     then (e\<lparr>lockPosIsSticky := saveSticky c\<rparr>, [SetLockPosIsSticky (saveSticky c)])
                                     else (e, []))
                     in ((do_fail ''could not start calibration'' c, e, ev1 @ ev2 @ ev3 @ ev4), False)
                else ((c\<lparr>state := STATE_CALIBRATION_WAIT\<rparr>, e, ev1 @ ev2 @ ev3), True)
        else ((c\<lparr>state := STATE_GUIDE\<rparr>, e, ev1), False))"

definition step_calibration_wait :: "controller \<Rightarrow> env \<Rightarrow> ctrl_result \<times> bool" where
  "step_calibration_wait c e =
    (if \<not> uncalibrated (mount1 e) \<and> \<not> uncalibrated (mount2 e)
     then let (e, ev) = (if useStickyLock c \<and> haveSaveSticky c
                         then (e\<lparr>lockPosIsSticky := saveSticky c\<rparr>, [SetLockPosIsSticky (saveSticky c)])
                         else (e, []))
          in ((c\<lparr>state := STATE_SETTLE_BEGIN\<rparr>, e, ev), False)
     else ((c, e, []), True))"

definition step_guide :: "controller \<Rightarrow> env \<Rightarrow> ctrl_result \<times> bool" where
  "step_guide c e =
    (let (ev, ok) = start_guiding e
     in if \<not> ok then ((do_fail ''could not start guiding'' c, e, ev), False)
        else ((c\<lparr>state := STATE_SETTLE_BEGIN\<rparr>, e, ev), True))"

definition step_settle_begin :: "controller \<Rightarrow> env \<Rightarrow> ctrl_result \<times> bool" where
  "step_settle_begin c e =
    (let (e, ev) = (if overrideDecGuideMode c
                    then (e\<lparr>scopeDecGuideMode := DEC_AUTO\<rparr>, [SetDecGuideMode DEC_AUTO]) else (e, []))
     in ((c\<lparr>settlePriorFrameInRange := False, settleFrameCount := 0, droppedFrameCount := 0,
            settleTimeout := now e, state := STATE_SETTLE_WAIT\<rparr>, e,
          [NotifySettleBegin, NotifySettlingStateChange ''Settling started''] @ ev), True))"

definition succeed :: "controller \<Rightarrow> controller" where
  "succeed c = c\<lparr>succeeded := True, state := STATE_FINISH\<rparr>"

definition step_settle_wait :: "controller \<Rightarrow> env \<Rightarrow> ctrl_result \<times> bool" where
  "step_settle_wait c e =
    (let lockedOnStar = isLocked e;
         currentError = currentGuideError e;
         inRange = (lockedOnStar \<and> currentError \<le> tolerancePx (settle c));
         aoBumpInProgress = IsAoBumpInProgress e;
         c = c\<lparr>settleFrameCount := settleFrameCount c + 1\<rparr>;
         c = (if \<not> lockedOnStar then c\<lparr>droppedFrameCount := droppedFrameCount c + 1\<rparr> else c)
     in if settleFrameCount c \<ge> frames (settle c) then ((succeed c, e, []), False)
        else
          let (c, timeInRange, finished) =
            (if inRange
             then if \<not> settlePriorFrameInRange c
                  then if settleTimeSec (settle c) \<le> 0 then (succeed c, 0, True)
                       else (c\<lparr>settleInRange := now e\<rparr>, 0, False)
                  else let t = now e - settleInRange c
                       in if t sdiv 1000 \<ge> settleTimeSec (settle c) \<and> \<not> aoBumpInProgress
                          then (succeed c, t, True) else (c, t, False)
             else (c, 0, False))
          in if finished then ((c, e, []), False)
             else if (now e - settleTimeout c) sdiv 1000 \<ge> timeoutSec (settle c)
             then ((do_fail ''timed-out waiting for guider to settle'' c, e, []), False)
             else ((c\<lparr>settlePriorFrameInRange := inRange\<rparr>, e,
                    [NotifySettling currentError (of_int timeInRange / 1000) (settleTimeSec (settle c)) lockedOnStar]), True))"

definition step_finish :: "controller \<Rightarrow> env \<Rightarrow> ctrl_result \<times> bool" where
  "step_finish c e =
    (let (c, e, ev) = (if overrideDecGuideMode c
                       then (c\<lparr>overrideDecGuideMode := False\<rparr>, e\<lparr>scopeDecGuideMode := saveDecGuideMode c\<rparr>,
                             [SetDecGuideMode (saveDecGuideMode c)])
                       else (c, e, []))
     in ((c\<lparr>state := STATE_IDLE\<rparr>, e, ev @ do_notify c e), True))"

definition ctrl_step :: "controller \<Rightarrow> env \<Rightarrow> ctrl_result \<times> bool" where
  "ctrl_step c e =
    (case state c of
       STATE_IDLE \<Rightarrow> ((c, e, []), True)
     | STATE_SETUP \<Rightarrow> step_setup c e
     | STATE_ATTEMPT_START \<Rightarrow> step_attempt_start c e
     | STATE_SELECT_STAR \<Rightarrow> step_select_star c e
     | STATE_WAIT_SELECTED \<Rightarrow> step_wait_selected c e
     | STATE_CALIBRATE \<Rightarrow> step_calibrate c e
     | STATE_CALIBRATION_WAIT \<Rightarrow> step_calibration_wait c e
     | STATE_GUIDE \<Rightarrow> step_guide c e
     | STATE_SETTLE_BEGIN \<Rightarrow> step_settle_begin c e
     | STATE_SETTLE_WAIT \<Rightarrow> step_settle_wait c e
     | STATE_FINISH \<Rightarrow> step_finish c e)"

lemmas ctrl_step_defs = ctrl_step_def step_setup_def step_attempt_start_def step_select_star_def
  step_wait_selected_def step_calibrate_def step_calibration_wait_def step_guide_def
  step_settle_begin_def step_settle_wait_def step_finish_def

text \<open>Every iteration that does not end the loop moves down this order: the loop always ends.\<close>

fun rank :: "ctrl_state \<Rightarrow> nat" where
  "rank STATE_SETUP = 7"
| "rank STATE_ATTEMPT_START = 6"
| "rank STATE_SELECT_STAR = 5"
| "rank STATE_WAIT_SELECTED = 5"
| "rank STATE_CALIBRATE = 4"
| "rank STATE_CALIBRATION_WAIT = 3"
| "rank STATE_GUIDE = 3"
| "rank STATE_SETTLE_BEGIN = 2"
| "rank STATE_SETTLE_WAIT = 2"
| "rank STATE_FINISH = 1"
| "rank STATE_IDLE = 0"

lemma ctrl_step_rank:
  assumes "ctrl_step c e = ((c', e', ev), False)"
  shows "rank (state c') < rank (state c)"
  using assms
  by (cases "state c")
    (auto simp: ctrl_step_defs do_fail_def succeed_def start_capturing_def start_guiding_def Let_def
      split: option.splits if_splits prod.splits)

function UpdateControllerState :: "controller \<Rightarrow> env \<Rightarrow> ctrl_result" where
  "UpdateControllerState c e =
    (case ctrl_step c e of
       ((c', e', ev), True) \<Rightarrow> (c', e', ev)
     | ((c', e', ev), False) \<Rightarrow>
         (case UpdateControllerState c' e' of (c'', e'', ev') \<Rightarrow> (c'', e'', ev @ ev')))"
  by pat_completeness auto
termination
  by (relation "measure (\<lambda>(c, e). rank (state c))") (auto dest!: ctrl_step_rank [OF sym])

declare UpdateControllerState.simps [simp del]


subsection \<open>Requests\<close>

definition Guide :: "u32 \<Rightarrow> settle_params \<Rightarrow> roi \<Rightarrow> controller \<Rightarrow> env \<Rightarrow> string option \<times> ctrl_result" where
  \<comment> \<open>the first component is the error; \<^term>\<open>None\<close> when the call returns true\<close>
  "Guide options settle_p roi_p c e =
    (if state c \<noteq> STATE_IDLE then (Some (ReentrancyError ''guide'' c), c, e, [])
     else (None, UpdateControllerState
       (c\<lparr>forceCalibration := (options AND GUIDEOPT_FORCE_RECAL \<noteq> 0),
          useStickyLock := (options AND GUIDEOPT_USE_STICKY_LOCK \<noteq> 0),
          settleOp := OP_GUIDE, settle := settle_p, ctrl_roi := roi_p, state := STATE_SETUP\<rparr>) e))"

definition dither_dec_mode :: "bool \<Rightarrow> settle_params \<Rightarrow> env \<Rightarrow> bool \<times> bool \<times> dec_guide_mode" where
  \<comment> \<open>the final \<open>raOnly\<close>, \<open>overrideDecGuideMode\<close> and \<open>dgm\<close>\<close>
  "dither_dec_mode forceRaOnly settle_p e =
    (let raOnly = (if forceRaOnly then True else ditherRaOnly e)
     in if (case mount1 e of None \<Rightarrow> False | Some m \<Rightarrow> \<not> IsStepGuider m) \<and> \<not> raOnly
        then let dgm = scopeDecGuideMode e
             in if dgm \<noteq> DEC_AUTO
                then if (dgm = DEC_NORTH \<or> dgm = DEC_SOUTH) \<and> settleTimeSec settle_p \<noteq> SETTLING_TIME_DISABLED
                     then (raOnly, True, dgm)
                     else (True, False, dgm)
                else (raOnly, False, dgm)
        else (raOnly, False, DEC_NONE))"

definition Dither :: "real \<Rightarrow> bool \<Rightarrow> settle_params \<Rightarrow> controller \<Rightarrow> env \<Rightarrow> string option \<times> ctrl_result" where
  "Dither pixels forceRaOnly settle_p c e =
    (if state c \<noteq> STATE_IDLE then (Some (ReentrancyError ''dither'' c), c, e, [])
     else case dither_dec_mode forceRaOnly settle_p e of (raOnly, override, dgm) \<Rightarrow>
       if ditherError e then (Some ''Dither error'', c, e, [FrameDither pixels raOnly])
       else case UpdateControllerState
              (c\<lparr>settleOp := OP_DITHER, settle := settle_p, overrideDecGuideMode := override,
                 saveDecGuideMode := dgm, state := STATE_SETTLE_BEGIN\<rparr>) e of
            (c', e', ev) \<Rightarrow> (None, c', e', FrameDither pixels raOnly # ev))"

definition dither_frames_settle :: "int \<Rightarrow> settle_params" where
  "dither_frames_settle settleFrames =
    \<lparr>tolerancePx = 99, settleTimeSec = SETTLING_TIME_DISABLED, timeoutSec = SETTLING_TIME_DISABLED,
     frames = settleFrames\<rparr>"

definition DitherFrames :: "real \<Rightarrow> int \<Rightarrow> controller \<Rightarrow> env \<Rightarrow> string option \<times> ctrl_result" where
  "DitherFrames pixels settleFrames c e = Dither pixels False (dither_frames_settle settleFrames) c e"

definition AbortController :: "string \<Rightarrow> controller \<Rightarrow> env \<Rightarrow> ctrl_result" where
  "AbortController reason c e =
    (if state c \<noteq> STATE_IDLE then UpdateControllerState (do_fail reason c) e else (c, e, []))"

definition DitherCompat :: "real \<Rightarrow> controller \<Rightarrow> env \<Rightarrow> string option \<times> ctrl_result" where
  "DitherCompat pixels c e =
    (case AbortController ''manual or phd1-style dither'' c e of (c1, e1, ev1) \<Rightarrow>
       case DitherFrames pixels 10 c1 e1 of (r, c2, e2, ev2) \<Rightarrow> (r, c2, e2, ev1 @ ev2))"

text \<open>The calls the rest of the program makes: requests, aborts, and one update per camera frame.\<close>

datatype ctrl_call = CGuide u32 settle_params roi | CDither real bool settle_params
  | CDitherCompat real | CAbort string | CFrame

definition ctrl_do :: "ctrl_call \<Rightarrow> controller \<Rightarrow> env \<Rightarrow> bool \<times> ctrl_result" where
  \<comment> \<open>the boolean: a guide or dither request was accepted\<close>
  "ctrl_do call c e =
    (case call of
       CGuide opts sp r \<Rightarrow> (case Guide opts sp r c e of (err, res) \<Rightarrow> (err = None, res))
     | CDither px ra sp \<Rightarrow> (case Dither px ra sp c e of (err, res) \<Rightarrow> (err = None, res))
     | CDitherCompat px \<Rightarrow> (case DitherCompat px c e of (err, res) \<Rightarrow> (err = None, res))
     | CAbort reason \<Rightarrow> (False, AbortController reason c e)
     | CFrame \<Rightarrow> (False, UpdateControllerState c e))"

fun ctrl_run :: "controller \<Rightarrow> dec_guide_mode \<Rightarrow> (ctrl_call \<times> env) list \<Rightarrow>
    controller \<times> dec_guide_mode \<times> nat \<times> ctrl_event list" where
  \<comment> \<open>every call sees an arbitrary environment, except that the scope keeps its Dec guide mode\<close>
  "ctrl_run c m [] = (c, m, 0, [])"
| "ctrl_run c m ((call, e) # rest) =
    (case ctrl_do call c (e\<lparr>scopeDecGuideMode := m\<rparr>) of (acc, c', e', ev) \<Rightarrow>
     case ctrl_run c' (scopeDecGuideMode e') rest of (c'', m'', n, ev') \<Rightarrow>
       (c'', m'', (if acc then 1 else 0) + n, ev @ ev'))"


text \<open>Rewriting a concrete update: one iteration at a time.\<close>

lemma Update_done:
  "ctrl_step c e = ((c', e', ev), True) \<Longrightarrow> UpdateControllerState c e = (c', e', ev)"
  by (simp add: UpdateControllerState.simps [of c e])

lemma Update_more:
  "ctrl_step c e = ((c', e', ev), False) \<Longrightarrow> UpdateControllerState c e =
     (case UpdateControllerState c' e' of (c'', e'', ev') \<Rightarrow> (c'', e'', ev @ ev'))"
  by (simp add: UpdateControllerState.simps [of c e])

subsection \<open>Every accepted request is answered by exactly one completion notice\<close>

primrec is_settle_done :: "ctrl_event \<Rightarrow> bool" where
  "is_settle_done NotifySettleBegin = False"
| "is_settle_done (NotifySettling a b n l) = False"
| "is_settle_done (NotifySettleDone m n d) = True"
| "is_settle_done (NotifySettlingStateChange m) = False"
| "is_settle_done (NotifyGuidingDitherSettleDone b) = False"
| "is_settle_done GuiderReset = False"
| "is_settle_done GuiderForceFullFrame = False"
| "is_settle_done ResetAutoExposure = False"
| "is_settle_done StartCapturing = False"
| "is_settle_done (AutoSelectStar r) = False"
| "is_settle_done StartGuiding = False"
| "is_settle_done ClearCalibration1 = False"
| "is_settle_done ClearCalibration2 = False"
| "is_settle_done (SetLockPosIsSticky b) = False"
| "is_settle_done (SetDecGuideMode g) = False"
| "is_settle_done (FrameDither px ra) = False"

definition settle_dones :: "ctrl_event list \<Rightarrow> nat" where
  "settle_dones ev = length (filter is_settle_done ev)"

definition pending :: "controller \<Rightarrow> nat" where
  "pending c = (if state c = STATE_IDLE then 0 else 1)"

lemma settle_dones_simps [simp]:
  "settle_dones [] = 0"
  "settle_dones (x # xs) = (if is_settle_done x then 1 else 0) + settle_dones xs"
  "settle_dones (xs @ ys) = settle_dones xs + settle_dones ys"
  by (simp_all add: settle_dones_def)

text \<open>A property that every iteration of the loop keeps is a property of the whole update.\<close>

lemma UpdateControllerState_induct:
  assumes U: "UpdateControllerState c e = (c', e', ev)"
    and step: "\<And>c e c' e' ev d. ctrl_step c e = ((c', e', ev), d) \<Longrightarrow> P c e c' e' ev"
    and trans: "\<And>c e c' e' ev c'' e'' ev'. P c e c' e' ev \<Longrightarrow> P c' e' c'' e'' ev' \<Longrightarrow> P c e c'' e'' (ev @ ev')"
  shows "P c e c' e' ev"
  using U
proof (induction c e arbitrary: c' e' ev rule: UpdateControllerState.induct)
  case (1 c e)
  obtain c1 e1 ev1 d where s: "ctrl_step c e = ((c1, e1, ev1), d)"
    by (cases "ctrl_step c e") auto
  show ?case
  proof (cases d)
    case True
    then show ?thesis using "1.prems" s step [OF s]
      by (simp add: UpdateControllerState.simps [of c e])
  next
    case False
    obtain c2 e2 ev2 where u: "UpdateControllerState c1 e1 = (c2, e2, ev2)" by (metis prod_cases3)
    have "P c1 e1 c2 e2 ev2" using "1.IH" s False u by (metis (full_types))
    then have "P c e c2 e2 (ev1 @ ev2)" by (rule trans [OF step [OF s]])
    then show ?thesis using "1.prems" s u False
      by (simp add: UpdateControllerState.simps [of c e])
  qed
qed

lemma UpdateControllerState_idle [simp]:
  "state c = STATE_IDLE \<Longrightarrow> UpdateControllerState c e = (c, e, [])"
  by (simp add: UpdateControllerState.simps [of c e] ctrl_step_def)

lemma ctrl_step_dones:
  assumes "ctrl_step c e = ((c', e', ev), d)"
  shows "pending c = settle_dones ev + pending c'"
  using assms
  by (cases "state c")
    (auto simp: ctrl_step_defs do_fail_def succeed_def start_capturing_def start_guiding_def Let_def
      pending_def do_notify_def clear_calibration_def
      split: option.splits if_splits prod.splits)

lemma UpdateControllerState_dones:
  assumes "UpdateControllerState c e = (c', e', ev)"
  shows "pending c = settle_dones ev + pending c'"
  by (rule UpdateControllerState_induct [OF assms, where P = "\<lambda>c e c' e' ev. pending c = settle_dones ev + pending c'"])
    (auto dest: ctrl_step_dones)

lemma AbortController_dones:
  assumes "AbortController reason c e = (c', e', ev)"
  shows "pending c = settle_dones ev + pending c'"
proof (cases "state c = STATE_IDLE")
  case False
  have p: "pending (do_fail reason c) = pending c" using False by (simp add: pending_def do_fail_def)
  have "UpdateControllerState (do_fail reason c) e = (c', e', ev)"
    using assms False by (simp add: AbortController_def)
  from UpdateControllerState_dones [OF this] show ?thesis by (simp only: p)
qed (use assms in \<open>simp add: AbortController_def\<close>)

text \<open>Aborting an operation ends it, as failed, with its one notification.\<close>

lemma AbortController_busy:
  assumes "AbortController reason c e = (c', e', ev)" "state c \<noteq> STATE_IDLE"
  shows "state c' = STATE_IDLE \<and> \<not> succeeded c' \<and> errorMsg c' = reason \<and> settle_dones ev = 1"
proof -
  have u: "UpdateControllerState (do_fail reason c) e = (c', e', ev)" using assms by (simp add: AbortController_def)
  obtain c1 e1 ev1 where s: "step_finish (do_fail reason c) e = ((c1, e1, ev1), True)"
    by (cases "overrideDecGuideMode c") (auto simp: step_finish_def do_fail_def)
  then have "(c', e', ev) = (c1, e1, ev1)"
    using u [unfolded UpdateControllerState.simps [of "do_fail reason c"]] by (simp add: ctrl_step_def do_fail_def)
  moreover have "state c1 = STATE_IDLE \<and> \<not> succeeded c1 \<and> errorMsg c1 = reason"
    using s by (auto simp: step_finish_def do_fail_def split: if_splits)
  ultimately show ?thesis using AbortController_dones [OF assms(1)] assms(2) by (simp add: pending_def)
qed

lemma Dither_dones:
  assumes "Dither px ra sp c e = (err, c', e', ev)"
  shows "pending c + (if err = None then 1 else 0) = settle_dones ev + pending c'"
proof (cases "state c = STATE_IDLE \<and> \<not> ditherError e")
  case True
  obtain ra' ov dgm where m: "dither_dec_mode ra sp e = (ra', ov, dgm)" by (metis prod_cases3)
  let ?c = "c\<lparr>settleOp := OP_DITHER, settle := sp, overrideDecGuideMode := ov,
                 saveDecGuideMode := dgm, state := STATE_SETTLE_BEGIN\<rparr>"
  obtain c1 e1 ev1 where u: "UpdateControllerState ?c e = (c1, e1, ev1)" by (metis prod_cases3)
  show ?thesis using assms True m u UpdateControllerState_dones [OF u]
    by (auto simp: Dither_def pending_def)
qed (use assms in \<open>auto simp: Dither_def split: prod.splits if_splits\<close>)

lemma ctrl_do_dones:
  assumes "ctrl_do call c e = (acc, c', e', ev)"
  shows "pending c + (if acc then 1 else 0) = settle_dones ev + pending c'"
proof (cases call)
  case (CGuide opts sp r)
  then show ?thesis using assms
    by (auto simp: ctrl_do_def Guide_def pending_def split: if_splits prod.splits
        dest!: UpdateControllerState_dones)
next
  case (CDither px ra sp)
  then show ?thesis using assms by (auto simp: ctrl_do_def split: prod.splits dest!: Dither_dones)
next
  case (CDitherCompat px)
  then show ?thesis using assms
    by (auto simp: ctrl_do_def DitherCompat_def DitherFrames_def split: prod.splits if_splits
        dest!: AbortController_dones Dither_dones)
qed (use assms in \<open>auto simp: ctrl_do_def dest: AbortController_dones UpdateControllerState_dones\<close>)

lemma ctrl_run_dones:
  "ctrl_run c m calls = (c', m', n, ev) \<Longrightarrow> pending c + n = settle_dones ev + pending c'"
proof (induction calls arbitrary: c m c' m' n ev)
  case (Cons x rest)
  obtain call e where x: "x = (call, e)" by (cases x)
  obtain acc c1 e1 ev1 where d: "ctrl_do call c (e\<lparr>scopeDecGuideMode := m\<rparr>) = (acc, c1, e1, ev1)"
    by (metis prod_cases4)
  obtain c2 m2 n2 ev2 where r: "ctrl_run c1 (scopeDecGuideMode e1) rest = (c2, m2, n2, ev2)"
    by (metis prod_cases4)
  show ?case using Cons.prems Cons.IH [OF r] ctrl_do_dones [OF d] by (auto simp: x d r)
qed auto

subsection \<open>The scope's Dec guide mode is restored\<close>

definition dec_mode_inv :: "dec_guide_mode \<Rightarrow> controller \<Rightarrow> dec_guide_mode \<Rightarrow> bool" where
  "dec_mode_inv m0 c m \<longleftrightarrow> (state c = STATE_IDLE \<longrightarrow> \<not> overrideDecGuideMode c) \<and>
     (overrideDecGuideMode c \<longrightarrow> state c \<noteq> STATE_SETUP \<and> saveDecGuideMode c = m0 \<and> (m = m0 \<or> m = DEC_AUTO)) \<and>
     (\<not> overrideDecGuideMode c \<longrightarrow> m = m0)"

lemma clear_calibration_scope [simp]:
  "scopeDecGuideMode (fst (clear_calibration e)) = scopeDecGuideMode e"
  by (simp add: clear_calibration_def)

lemma start_capturing_scope [simp]:
  "scopeDecGuideMode (fst (start_capturing e)) = scopeDecGuideMode e"
  by (simp add: start_capturing_def)

lemma step_calibrate_frame:
  assumes "step_calibrate c e = ((c', e', ev), d)"
  shows "scopeDecGuideMode e' = scopeDecGuideMode e \<and> overrideDecGuideMode c' = overrideDecGuideMode c \<and>
    saveDecGuideMode c' = saveDecGuideMode c \<and> state c' \<notin> {STATE_IDLE, STATE_SETUP}"
  using assms
  by (auto simp: step_calibrate_def do_fail_def clear_calibration_def Let_def split: prod.splits if_splits)

lemma step_attempt_start_frame:
  assumes "step_attempt_start c e = ((c', e', ev), d)"
  shows "scopeDecGuideMode e' = scopeDecGuideMode e \<and> overrideDecGuideMode c' = overrideDecGuideMode c \<and>
    saveDecGuideMode c' = saveDecGuideMode c \<and> state c' \<notin> {STATE_IDLE, STATE_SETUP}"
  using assms
  by (auto simp: step_attempt_start_def do_fail_def start_capturing_def Let_def
      split: prod.splits if_splits option.splits)

lemma step_settle_wait_frame:
  assumes "step_settle_wait c e = ((c', e', ev), d)"
  shows "e' = e \<and> overrideDecGuideMode c' = overrideDecGuideMode c \<and>
    saveDecGuideMode c' = saveDecGuideMode c \<and> (state c' = state c \<or> state c' = STATE_FINISH)"
  using assms
  by (auto simp: step_settle_wait_def do_fail_def succeed_def Let_def split: if_splits)

lemma ctrl_step_dec_mode:
  assumes s: "ctrl_step c e = ((c', e', ev), d)" and i: "dec_mode_inv m0 c (scopeDecGuideMode e)"
  shows "dec_mode_inv m0 c' (scopeDecGuideMode e')"
proof (cases "state c")
  case STATE_ATTEMPT_START
  then show ?thesis using s i step_attempt_start_frame [of c e c' e' ev d]
    by (auto simp: ctrl_step_def dec_mode_inv_def)
next
  case STATE_CALIBRATE
  then show ?thesis using s i step_calibrate_frame [of c e c' e' ev d]
    by (auto simp: ctrl_step_def dec_mode_inv_def)
next
  case STATE_SETTLE_WAIT
  then show ?thesis using s i step_settle_wait_frame [of c e c' e' ev d]
    by (auto simp: ctrl_step_def dec_mode_inv_def)
qed (use s i in \<open>auto simp: ctrl_step_def step_setup_def step_select_star_def step_wait_selected_def
    step_calibration_wait_def step_guide_def start_guiding_def step_settle_begin_def step_finish_def
    do_fail_def dec_mode_inv_def Let_def split: if_splits\<close>)

lemma UpdateControllerState_dec_mode:
  assumes "UpdateControllerState c e = (c', e', ev)" "dec_mode_inv m0 c (scopeDecGuideMode e)"
  shows "dec_mode_inv m0 c' (scopeDecGuideMode e')"
  using UpdateControllerState_induct [OF assms(1),
      where P = "\<lambda>c e c' e' ev. dec_mode_inv m0 c (scopeDecGuideMode e) \<longrightarrow> dec_mode_inv m0 c' (scopeDecGuideMode e')"]
    assms(2) ctrl_step_dec_mode by blast

lemma AbortController_dec_mode:
  assumes "AbortController reason c e = (c', e', ev)" "dec_mode_inv m0 c (scopeDecGuideMode e)"
  shows "dec_mode_inv m0 c' (scopeDecGuideMode e')"
proof (cases "state c = STATE_IDLE")
  case False
  have "dec_mode_inv m0 (do_fail reason c) (scopeDecGuideMode e)"
    using assms(2) by (auto simp: dec_mode_inv_def do_fail_def)
  then show ?thesis using assms(1) False UpdateControllerState_dec_mode
    by (auto simp: AbortController_def)
qed (use assms in \<open>auto simp: AbortController_def\<close>)

lemma Dither_dec_mode:
  assumes "Dither px ra sp c e = (err, c', e', ev)" "dec_mode_inv m0 c (scopeDecGuideMode e)"
  shows "dec_mode_inv m0 c' (scopeDecGuideMode e')"
proof (cases "state c = STATE_IDLE \<and> \<not> ditherError e")
  case True
  obtain ra' ov dgm where m: "dither_dec_mode ra sp e = (ra', ov, dgm)" by (metis prod_cases3)
  let ?c = "c\<lparr>settleOp := OP_DITHER, settle := sp, overrideDecGuideMode := ov,
                 saveDecGuideMode := dgm, state := STATE_SETTLE_BEGIN\<rparr>"
  have "dec_mode_inv m0 ?c (scopeDecGuideMode e)" using m assms(2) True
    by (auto simp: dither_dec_mode_def dec_mode_inv_def Let_def split: if_splits option.splits)
  then show ?thesis using assms(1) True m UpdateControllerState_dec_mode
    by (auto simp: Dither_def split: prod.splits)
qed (use assms in \<open>auto simp: Dither_def split: prod.splits if_splits\<close>)

lemma Guide_dec_mode:
  assumes "Guide opts sp r c e = (err, c', e', ev)" "dec_mode_inv m0 c (scopeDecGuideMode e)"
  shows "dec_mode_inv m0 c' (scopeDecGuideMode e')"
proof (cases "state c = STATE_IDLE")
  case True
  let ?c = "c\<lparr>forceCalibration := (opts AND GUIDEOPT_FORCE_RECAL \<noteq> 0),
          useStickyLock := (opts AND GUIDEOPT_USE_STICKY_LOCK \<noteq> 0),
          settleOp := OP_GUIDE, settle := sp, ctrl_roi := r, state := STATE_SETUP\<rparr>"
  have "dec_mode_inv m0 ?c (scopeDecGuideMode e)" using assms(2) True by (auto simp: dec_mode_inv_def)
  then show ?thesis using assms(1) True UpdateControllerState_dec_mode
    by (auto simp: Guide_def)
qed (use assms in \<open>auto simp: Guide_def\<close>)

lemma ctrl_do_dec_mode:
  assumes "ctrl_do call c e = (acc, c', e', ev)" "dec_mode_inv m0 c (scopeDecGuideMode e)"
  shows "dec_mode_inv m0 c' (scopeDecGuideMode e')"
proof (cases call)
  case (CDitherCompat px)
  then show ?thesis using assms AbortController_dec_mode Dither_dec_mode
    by (fastforce simp: ctrl_do_def DitherCompat_def DitherFrames_def split: prod.splits)
qed (use assms in \<open>auto simp: ctrl_do_def split: prod.splits
      dest: AbortController_dec_mode UpdateControllerState_dec_mode Dither_dec_mode Guide_dec_mode\<close>)

lemma ctrl_run_dec_mode:
  "ctrl_run c m calls = (c', m', n, ev) \<Longrightarrow> dec_mode_inv m0 c m \<Longrightarrow> dec_mode_inv m0 c' m'"
proof (induction calls arbitrary: c m c' m' n ev)
  case (Cons x rest)
  obtain call e where x: "x = (call, e)" by (cases x)
  obtain acc c1 e1 ev1 where d: "ctrl_do call c (e\<lparr>scopeDecGuideMode := m\<rparr>) = (acc, c1, e1, ev1)"
    by (metis prod_cases4)
  have i: "dec_mode_inv m0 c1 (scopeDecGuideMode e1)" using ctrl_do_dec_mode [OF d] Cons.prems(2) by simp
  obtain c2 m2 n2 ev2 where r: "ctrl_run c1 (scopeDecGuideMode e1) rest = (c2, m2, n2, ev2)"
    by (metis prod_cases4)
  show ?case using Cons.prems Cons.IH [OF r i] by (simp add: x d r)
qed auto


subsection \<open>Settling: soundness and bounded waiting\<close>

definition in_settle_range :: "controller \<Rightarrow> env \<Rightarrow> bool" where
  "in_settle_range c e \<longleftrightarrow> isLocked e \<and> currentGuideError e \<le> tolerancePx (settle c)"

definition ctrl_frames :: "controller \<Rightarrow> env list \<Rightarrow> controller" where
  \<comment> \<open>the controller after the updates of these camera frames\<close>
  "ctrl_frames c es = foldl (\<lambda>c e. fst (UpdateControllerState c e)) c es"

lemma ctrl_frames_simps [simp]:
  "ctrl_frames c [] = c"
  "ctrl_frames c (e # es) = ctrl_frames (fst (UpdateControllerState c e)) es"
  "ctrl_frames c (es @ [e]) = fst (UpdateControllerState (ctrl_frames c es) e)"
  by (simp_all add: ctrl_frames_def)

lemma Update_finish:
  "state c = STATE_FINISH \<Longrightarrow>
   UpdateControllerState c e = fst (step_finish c e) \<and> snd (step_finish c e)"
  by (auto simp: UpdateControllerState.simps [of c e] ctrl_step_def step_finish_def split: prod.splits)

lemma step_finish_state [simp]: "step_finish c e = ((c', e', ev), d) \<Longrightarrow> state c' = STATE_IDLE \<and> succeeded c' = succeeded c"
  by (auto simp: step_finish_def split: if_splits)

text \<open>What one frame does to a settling controller: either it keeps waiting, or it becomes idle with
  the verdict of the frame.\<close>

definition settle_success :: "controller \<Rightarrow> env \<Rightarrow> bool" where
  "settle_success c e \<longleftrightarrow> settleFrameCount c + 1 \<ge> frames (settle c) \<or>
     (in_settle_range c e \<and>
       (if settlePriorFrameInRange c
        then (now e - settleInRange c) sdiv 1000 \<ge> settleTimeSec (settle c) \<and> \<not> IsAoBumpInProgress e
        else settleTimeSec (settle c) \<le> 0))"

definition settle_timed_out :: "controller \<Rightarrow> env \<Rightarrow> bool" where
  "settle_timed_out c e \<longleftrightarrow> (now e - settleTimeout c) sdiv 1000 \<ge> timeoutSec (settle c)"

lemma step_settle_wait_cases:
  "step_settle_wait c e = ((c', e', ev), d) \<Longrightarrow>
     e' = e \<and> settle c' = settle c \<and> settleTimeout c' = settleTimeout c \<and>
     settleFrameCount c' = settleFrameCount c + 1 \<and>
     (if settle_success c e then state c' = STATE_FINISH \<and> succeeded c' \<and> \<not> d \<and> ev = []
      else if settle_timed_out c e then state c' = STATE_FINISH \<and> \<not> succeeded c' \<and> \<not> d \<and> ev = []
      else state c' = state c \<and> d \<and> settlePriorFrameInRange c' = in_settle_range c e \<and>
        settleInRange c' = (if in_settle_range c e \<and> \<not> settlePriorFrameInRange c then now e else settleInRange c))"
  by (auto simp: step_settle_wait_def settle_success_def settle_timed_out_def in_settle_range_def
      do_fail_def succeed_def Let_def split: if_splits)

lemma Update_settle_wait:
  fixes c e
  assumes w: "state c = STATE_SETTLE_WAIT"
  defines "c' \<equiv> fst (UpdateControllerState c e)"
  shows "if settle_success c e then state c' = STATE_IDLE \<and> succeeded c'
     else if settle_timed_out c e then state c' = STATE_IDLE \<and> \<not> succeeded c'
     else state c' = STATE_SETTLE_WAIT \<and> settle c' = settle c \<and> settleTimeout c' = settleTimeout c \<and>
        settleFrameCount c' = settleFrameCount c + 1 \<and> settlePriorFrameInRange c' = in_settle_range c e \<and>
        settleInRange c' = (if in_settle_range c e \<and> \<not> settlePriorFrameInRange c then now e else settleInRange c)"
proof -
  obtain c1 e1 ev1 d where s: "step_settle_wait c e = ((c1, e1, ev1), d)"
    by (cases "step_settle_wait c e") auto
  note r = step_settle_wait_cases [OF s]
  show ?thesis
  proof (cases d)
    case True
    then have "c' = c1" using w s by (simp add: c'_def UpdateControllerState.simps [of c e] ctrl_step_def)
    then show ?thesis using r w True by (auto split: if_splits)
  next
    case False
    then have f: "state c1 = STATE_FINISH" "e1 = e" using r by (auto split: if_splits)
    obtain c2 e2 ev2 d2 where s2: "step_finish c1 e = ((c2, e2, ev2), d2)"
      by (cases "step_finish c1 e") auto
    have "c' = c2" using w s False f s2 Update_finish [of c1 e]
      by (simp add: c'_def UpdateControllerState.simps [of c e] ctrl_step_def)
    then show ?thesis using r False step_finish_state [OF s2] by (auto split: if_splits)
  qed
qed

lemma ctrl_frames_idle: "state c = STATE_IDLE \<Longrightarrow> ctrl_frames c es = c"
  by (induction es) auto

lemma ctrl_frames_bounded:
  assumes "state c = STATE_SETTLE_WAIT" "es \<noteq> []" "frames (settle c) \<le> settleFrameCount c + int (length es)"
  shows "state (ctrl_frames c es) = STATE_IDLE"
  using assms
proof (induction es arbitrary: c)
  case (Cons e es)
  let ?c = "fst (UpdateControllerState c e)"
  note u = Update_settle_wait [OF Cons.prems(1), of e]
  show ?case
  proof (cases "settle_success c e \<or> settle_timed_out c e")
    case True
    then have "state ?c = STATE_IDLE" using u by (auto split: if_splits)
    then show ?thesis using ctrl_frames_idle by simp
  next
    case False
    then have w: "state ?c = STATE_SETTLE_WAIT" "settle ?c = settle c" "settleFrameCount ?c = settleFrameCount c + 1"
      using u by (auto split: if_splits)
    have "es \<noteq> []" using False Cons.prems(3) by (auto simp: settle_success_def)
    then show ?thesis using Cons.IH [OF w(1)] Cons.prems(3) w by simp
  qed
qed simp

text \<open>The frames seen while settling, and what the controller remembers of them.\<close>

definition settle_memory :: "controller \<Rightarrow> controller \<Rightarrow> env list \<Rightarrow> bool" where
  "settle_memory c0 c es \<longleftrightarrow> state c = STATE_SETTLE_WAIT \<and> settle c = settle c0 \<and>
     settleFrameCount c = settleFrameCount c0 + int (length es) \<and>
     (settlePriorFrameInRange c \<longrightarrow>
       (\<exists>i < length es. settleInRange c = now (es ! i) \<and>
          (\<forall>k. i \<le> k \<and> k < length es \<longrightarrow> in_settle_range c0 (es ! k))))"

lemma settle_memory_step:
  assumes m: "settle_memory c0 c es" and n: "\<not> settle_success c e" "\<not> settle_timed_out c e"
  shows "settle_memory c0 (fst (UpdateControllerState c e)) (es @ [e])"
proof -
  let ?c = "fst (UpdateControllerState c e)"
  have w: "state c = STATE_SETTLE_WAIT" and se: "settle c = settle c0"
    using m by (auto simp: settle_memory_def)
  note u = Update_settle_wait [OF w, of e]
  have r: "in_settle_range c e = in_settle_range c0 e" by (simp add: in_settle_range_def se)
  have "\<exists>i < length (es @ [e]). settleInRange ?c = now ((es @ [e]) ! i) \<and>
      (\<forall>k. i \<le> k \<and> k < length (es @ [e]) \<longrightarrow> in_settle_range c0 ((es @ [e]) ! k))"
    if p: "settlePriorFrameInRange ?c"
  proof (cases "settlePriorFrameInRange c")
    case True
    then obtain i where "i < length es" "settleInRange c = now (es ! i)"
      "\<forall>k. i \<le> k \<and> k < length es \<longrightarrow> in_settle_range c0 (es ! k)"
      using m by (auto simp: settle_memory_def)
    then show ?thesis using u n r p True by (intro exI [of _ i]) (auto simp: nth_append less_Suc_eq)
  next
    case False
    then show ?thesis using u n r p by (intro exI [of _ "length es"]) (auto simp: nth_append less_Suc_eq)
  qed
  then show ?thesis using u n m by (auto simp: settle_memory_def)
qed

lemma settle_memory_frames:
  assumes "settle_memory c0 c0 []"
  shows "settle_memory c0 (ctrl_frames c0 es) es \<or> state (ctrl_frames c0 es) = STATE_IDLE"
proof (induction es rule: rev_induct)
  case (snoc e es)
  let ?c = "ctrl_frames c0 es"
  show ?case
  proof (cases "state ?c = STATE_IDLE")
    case False
    then have m: "settle_memory c0 ?c es" using snoc by blast
    then have w: "state ?c = STATE_SETTLE_WAIT" by (simp add: settle_memory_def)
    show ?thesis
      using settle_memory_step [OF m, of e] Update_settle_wait [OF w, of e] by (auto split: if_splits)
  qed simp
qed (use assms in simp)

lemma settle_memory_timeout:
  assumes "settle_memory c0 c0 []"
  shows "state (ctrl_frames c0 es) = STATE_IDLE \<or> settleTimeout (ctrl_frames c0 es) = settleTimeout c0"
proof (induction es rule: rev_induct)
  case (snoc x xs)
  show ?case
  proof (cases "state (ctrl_frames c0 xs) = STATE_IDLE")
    case False
    then have "state (ctrl_frames c0 xs) = STATE_SETTLE_WAIT"
      using settle_memory_frames [OF assms] by (auto simp: settle_memory_def)
    from Update_settle_wait [OF this, of x] show ?thesis using snoc False by (auto split: if_splits)
  qed simp
qed simp

lemma sdiv_1000_ge:
  fixes t s :: int
  assumes "t sdiv 1000 \<ge> s" "s > 0"
  shows "t \<ge> 1000 * s"
proof -
  have "t > 0" using assms by (cases "t > 0") (auto simp: signed_divide_int_def sgn_if split: if_splits)
  then have "t div 1000 \<ge> s" using assms(1) by (simp add: signed_divide_int_def sgn_if)
  then show ?thesis by linarith
qed


lemma Update_settle_begin:
  assumes "state c = STATE_SETTLE_BEGIN"
  shows "let c' = fst (UpdateControllerState c e) in state c' = STATE_SETTLE_WAIT \<and> settle c' = settle c \<and>
    \<not> settlePriorFrameInRange c' \<and> settleFrameCount c' = 0 \<and> droppedFrameCount c' = 0 \<and> settleTimeout c' = now e"
  using assms
  by (simp add: UpdateControllerState.simps [of c e] ctrl_step_def step_settle_begin_def)

lemma Dither_accepted:
  assumes "Dither px ra sp c e = (None, c', e', ev)"
  shows "state c = STATE_IDLE" "state c' = STATE_SETTLE_WAIT" "settle c' = sp" "\<not> settlePriorFrameInRange c'"
    "settleFrameCount c' = 0" "settleTimeout c' = now e"
proof -
  show i: "state c = STATE_IDLE" using assms by (auto simp: Dither_def split: if_splits)
  obtain ra' ov dgm where m: "dither_dec_mode ra sp e = (ra', ov, dgm)" by (metis prod_cases3)
  let ?c = "c\<lparr>settleOp := OP_DITHER, settle := sp, overrideDecGuideMode := ov,
                 saveDecGuideMode := dgm, state := STATE_SETTLE_BEGIN\<rparr>"
  have "c' = fst (UpdateControllerState ?c e)"
    using assms i m by (auto simp: Dither_def split: if_splits prod.splits)
  then show "state c' = STATE_SETTLE_WAIT" "settle c' = sp" "\<not> settlePriorFrameInRange c'"
    "settleFrameCount c' = 0" "settleTimeout c' = now e"
    using Update_settle_begin [of ?c e] by (auto simp: Let_def)
qed

lemma settle_success_frames:
  assumes m0: "settle_memory c0 c0 []" and T: "settleTimeSec (settle c0) > 0"
    and fr: "settleFrameCount c0 + int (length es) < frames (settle c0)"
    and fin: "state (ctrl_frames c0 es) = STATE_IDLE" "succeeded (ctrl_frames c0 es)"
  shows "\<exists>i j. i < j \<and> j < length es \<and> (\<forall>k. i \<le> k \<and> k \<le> j \<longrightarrow> in_settle_range c0 (es ! k)) \<and>
    now (es ! j) - now (es ! i) \<ge> 1000 * settleTimeSec (settle c0) \<and> \<not> IsAoBumpInProgress (es ! j)"
  using fr fin
proof (induction es rule: rev_induct)
  case Nil
  then show ?case using m0 by (simp add: settle_memory_def)
next
  case (snoc e es)
  let ?c = "ctrl_frames c0 es"
  show ?case
  proof (cases "state ?c = STATE_IDLE")
    case True
    then obtain i j where "i < j \<and> j < length es \<and> (\<forall>k. i \<le> k \<and> k \<le> j \<longrightarrow> in_settle_range c0 (es ! k)) \<and>
      now (es ! j) - now (es ! i) \<ge> 1000 * settleTimeSec (settle c0) \<and> \<not> IsAoBumpInProgress (es ! j)"
      using snoc by auto
    then show ?thesis by (intro exI [of _ i] exI [of _ j]) (auto simp: nth_append)
  next
    case False
    then have m: "settle_memory c0 ?c es" using settle_memory_frames [OF m0] by blast
    then have w: "state ?c = STATE_SETTLE_WAIT" and se: "settle ?c = settle c0"
      and fc: "settleFrameCount ?c = settleFrameCount c0 + int (length es)"
      by (auto simp: settle_memory_def)
    have suc: "settle_success ?c e"
      using Update_settle_wait [OF w, of e] snoc.prems by (auto split: if_splits)
    have nf: "\<not> settleFrameCount ?c + 1 \<ge> frames (settle ?c)" using fc se snoc.prems(1) by simp
    have p: "settlePriorFrameInRange ?c" "in_settle_range c0 e" "\<not> IsAoBumpInProgress e"
      "(now e - settleInRange ?c) sdiv 1000 \<ge> settleTimeSec (settle c0)"
      using suc nf T se by (auto simp: settle_success_def in_settle_range_def split: if_splits)
    obtain i where i: "i < length es" "settleInRange ?c = now (es ! i)"
      "\<forall>k. i \<le> k \<and> k < length es \<longrightarrow> in_settle_range c0 (es ! k)"
      using m p(1) by (auto simp: settle_memory_def)
    have "now e - now (es ! i) \<ge> 1000 * settleTimeSec (settle c0)"
      using sdiv_1000_ge [OF p(4) T] i(2) by simp
    then show ?thesis using i p
      by (intro exI [of _ i] exI [of _ "length es"]) (auto simp: nth_append less_Suc_eq)
  qed
qed

subsection \<open>Properties\<close>

definition sample_mount :: mount_env where
  "sample_mount = \<lparr>IsConnected = True, IsCalibrated = True, IsStepGuider = False, IsBumpInProgress = False\<rparr>"

definition sample_env :: env where
  "sample_env = \<lparr>camera = Some True, mount1 = Some sample_mount, mount2 = None, scopeDecGuideMode = DEC_NORTH,
     guiderState = GS_GUIDING, lockPosIsSticky = False, isLocked = True, currentGuideError = 1, CaptureActive = True,
     autoExposureEnabled = False, ditherRaOnly = False, now = 0, autoSelectError = False,
     startGuidingError = False, ditherError = False\<rparr>"

definition sample_settle :: settle_params where
  "sample_settle = \<lparr>tolerancePx = 3/2, settleTimeSec = 2, timeoutSec = 60, frames = 99\<rparr>"

definition ctrl0 :: controller where
  "ctrl0 = \<lparr>state = STATE_IDLE, forceCalibration = False, haveSaveSticky = False, saveSticky = False,
     autoFindAttemptsRemaining = 0, waitSelectedRemaining = 0, useStickyLock = False, settleOp = OP_DITHER,
     settle = \<lparr>tolerancePx = 0, settleTimeSec = 0, timeoutSec = 0, frames = 0\<rparr>, ctrl_roi = (0, 0, 0, 0),
     settlePriorFrameInRange = False, settleTimeout = 0, settleInRange = 0, saveDecGuideMode = DEC_NONE,
     overrideDecGuideMode = False, settleFrameCount = 0, droppedFrameCount = 0, succeeded = False, errorMsg = []\<rparr>"

lemmas sample_defs = sample_mount_def sample_env_def sample_settle_def ctrl0_def

text \<open>C1: Over any sequence of guide, dither and abort requests and camera frames, with the rest of the
  program arbitrary between the calls, the number of settle-done notifications sent is exactly the
  number of requests that were accepted, less the one still in progress when the controller is not
  idle. While it is not idle, \<open>Guide\<close> and the \<open>Dither\<close> with settling are refused and change nothing. The dither of the older
  interface is accepted: it first ends the operation in progress, as failed and with its one notification, and its own dither then
  starts from the idle state.\<close>
theorem controller_answers_once:
  assumes "ctrl_run c m calls = (c', m', n, ev)" and "state c = STATE_IDLE"
  shows "settle_dones ev = n - (if state c' = STATE_IDLE then 0 else 1) \<and>
    (state c' \<noteq> STATE_IDLE \<longrightarrow> n > 0 \<and>
      Guide opts sp r c' e = (Some (ReentrancyError ''guide'' c'), c', e, []) \<and>
      Dither px ra sp c' e = (Some (ReentrancyError ''dither'' c'), c', e, []) \<and>
      (\<exists>c1 e1 ev1. state c1 = STATE_IDLE \<and> \<not> succeeded c1 \<and> errorMsg c1 = ''manual or phd1-style dither'' \<and>
        settle_dones ev1 = 1 \<and>
        DitherCompat px c' e = (case DitherFrames px 10 c1 e1 of (res, c2, e2, ev2) \<Rightarrow> (res, c2, e2, ev1 @ ev2))))"
proof -
  obtain c1 e1 ev1 where a: "AbortController ''manual or phd1-style dither'' c' e = (c1, e1, ev1)" by (metis prod_cases3)
  have "DitherCompat px c' e = (case DitherFrames px 10 c1 e1 of (res, c2, e2, ev2) \<Rightarrow> (res, c2, e2, ev1 @ ev2))"
    by (simp add: DitherCompat_def a)
  then show ?thesis
    using ctrl_run_dones [OF assms(1)] assms(2) AbortController_busy [OF a]
    by (auto simp: pending_def Guide_def Dither_def split: if_splits)
qed

lemma controller_answers_once_witness:
  "settle_dones (snd (snd (snd (ctrl_run ctrl0 DEC_NORTH
     [(CDither 3 False sample_settle, sample_env), (CAbort ''stop'', sample_env)])))) = 1"
proof -
  define calls where "calls = [(CDither 3 False sample_settle, sample_env), (CAbort ''stop'', sample_env)]"
  obtain c' m' n ev where r: "ctrl_run ctrl0 DEC_NORTH calls = (c', m', n, ev)" by (metis prod_cases4)
  have "state ctrl0 = STATE_IDLE" by (simp add: ctrl0_def)
  note a = controller_answers_once [OF r this]
  have "state (fst (ctrl_run ctrl0 DEC_NORTH calls)) = STATE_IDLE"
    "fst (snd (snd (ctrl_run ctrl0 DEC_NORTH calls))) = 1"
    unfolding calls_def by code_simp+
  then have "state c' = STATE_IDLE" "n = 1" by (simp_all add: r)
  then show ?thesis using a r by (simp add: calls_def)
qed


text \<open>C4: The Dec guide mode the user chose is restored: whatever requests, aborts and camera frames
  occur, and however they end (settled, timed out, failed or aborted), once the controller is idle again
  the scope's Dec guide mode is the one it had before, and while a dither that overrides it is in
  progress the mode is the user's or \<open>DEC_AUTO\<close>.\<close>
theorem dec_guide_mode_restored:
  assumes "ctrl_run c m calls = (c', m', n, ev)" and "state c = STATE_IDLE" "\<not> overrideDecGuideMode c"
  shows "if state c' = STATE_IDLE then m' = m \<and> \<not> overrideDecGuideMode c' else m' = m \<or> m' = DEC_AUTO"
  using ctrl_run_dec_mode [OF assms(1), of m] assms(2,3) by (auto simp: dec_mode_inv_def)

lemma dec_guide_mode_restored_witness:
  "fst (snd (ctrl_run ctrl0 DEC_NORTH
     [(CDither 3 False sample_settle, sample_env), (CAbort ''stop'', sample_env)])) = DEC_NORTH"
proof -
  define calls where "calls = [(CDither 3 False sample_settle, sample_env), (CAbort ''stop'', sample_env)]"
  obtain c' m' n ev where r: "ctrl_run ctrl0 DEC_NORTH calls = (c', m', n, ev)" by (metis prod_cases4)
  have "state (fst (ctrl_run ctrl0 DEC_NORTH calls)) = STATE_IDLE"
    unfolding calls_def by code_simp
  then have "state c' = STATE_IDLE" by (simp add: r)
  moreover have "state ctrl0 = STATE_IDLE" "\<not> overrideDecGuideMode ctrl0" by (simp_all add: ctrl0_def)
  ultimately show ?thesis using dec_guide_mode_restored [OF r] r by (simp add: calls_def)
qed

text \<open>C2: Settling is sound: after an accepted dither with a positive settle time, as long as fewer than
  \<open>frames\<close> frames have been seen, the controller only becomes idle with success when there is a
  contiguous run of frames, all with the star locked and the error within the tolerance, whose
  first and last are at least the settle time apart, and no AO bump is in progress at the last.\<close>
theorem dither_settle_sound:
  assumes "Dither px ra sp c e = (None, c0, e0, ev)" and "settleTimeSec sp > 0"
    and "int (length es) < frames sp"
    and "state (ctrl_frames c0 es) = STATE_IDLE" "succeeded (ctrl_frames c0 es)"
  shows "\<exists>i j. i < j \<and> j < length es \<and>
    (\<forall>k. i \<le> k \<and> k \<le> j \<longrightarrow> isLocked (es ! k) \<and> currentGuideError (es ! k) \<le> tolerancePx sp) \<and>
    now (es ! j) - now (es ! i) \<ge> 1000 * settleTimeSec sp \<and> \<not> IsAoBumpInProgress (es ! j)"
proof -
  note d = Dither_accepted [OF assms(1)]
  have "settle_memory c0 c0 []" using d by (simp add: settle_memory_def)
  from settle_success_frames [OF this, of es] show ?thesis
    using assms d by (simp add: in_settle_range_def)
qed

definition sample_frames :: "env list" where
  "sample_frames = [sample_env\<lparr>now := 100\<rparr>, sample_env\<lparr>now := 1200\<rparr>, sample_env\<lparr>now := 2200\<rparr>]"

lemma dither_settle_sound_witness:
  "\<exists>i j. i < j \<and> j < 3 \<and> now (sample_frames ! j) - now (sample_frames ! i) \<ge> 2000"
proof -
  obtain c0 e0 ev where d: "Dither 3 False sample_settle ctrl0 sample_env = (None, c0, e0, ev)"
  proof -
    have "fst (Dither 3 False sample_settle ctrl0 sample_env) = None" by code_simp
    then show ?thesis using that by (cases "Dither 3 False sample_settle ctrl0 sample_env") auto
  qed
  have "state (ctrl_frames (fst (snd (Dither 3 False sample_settle ctrl0 sample_env))) sample_frames) = STATE_IDLE"
    "succeeded (ctrl_frames (fst (snd (Dither 3 False sample_settle ctrl0 sample_env))) sample_frames)"
    by code_simp+
  then have "state (ctrl_frames c0 sample_frames) = STATE_IDLE" "succeeded (ctrl_frames c0 sample_frames)"
    by (simp_all add: d)
  moreover have "length sample_frames = 3" by (simp add: sample_frames_def)
  ultimately show ?thesis using dither_settle_sound [OF d, of sample_frames]
    by (auto simp: sample_settle_def)
qed

text \<open>C3: Settling always ends: after an accepted dither the controller is idle again at the latest when the
  camera has delivered \<open>frames\<close> frames, whatever those frames are; and it is idle after the first frame
  that comes \<open>timeoutSec\<close> or more after the start.\<close>
theorem dither_settle_ends:
  assumes "Dither px ra sp c e = (None, c0, e0, ev)" and "es \<noteq> []"
    and "frames sp \<le> int (length es) \<or> (now (last es) - now e) sdiv 1000 \<ge> timeoutSec sp"
  shows "state (ctrl_frames c0 es) = STATE_IDLE"
proof (rule ccontr)
  assume n: "state (ctrl_frames c0 es) \<noteq> STATE_IDLE"
  note d = Dither_accepted [OF assms(1)]
  have es: "es = butlast es @ [last es]" using assms(2) by simp
  let ?c = "ctrl_frames c0 (butlast es)"
  have m: "settle_memory c0 c0 []" using d by (simp add: settle_memory_def)
  have ni: "state ?c \<noteq> STATE_IDLE"
    using n by (subst (asm) es) (metis UpdateControllerState_idle ctrl_frames_simps(3) fst_conv)
  have t: "settleTimeout ?c = now e" "settle ?c = sp"
    using ni settle_memory_timeout [OF m] settle_memory_frames [OF m] d by (auto simp: settle_memory_def)
  have w: "state ?c = STATE_SETTLE_WAIT"
    using ni settle_memory_frames [OF m] by (auto simp: settle_memory_def)
  have "\<not> settle_timed_out ?c (last es)"
    using n Update_settle_wait [OF w, of "last es"]
    by (subst (asm) es) (auto split: if_splits)
  then have "\<not> (now (last es) - now e) sdiv 1000 \<ge> timeoutSec sp"
    using t by (simp add: settle_timed_out_def)
  moreover have "\<not> frames sp \<le> int (length es)"
    using n ctrl_frames_bounded [OF d(2) assms(2)] d by auto
  ultimately show False using assms(3) by blast
qed

lemma dither_settle_ends_witness:
  "state (ctrl_frames (fst (snd (Dither 3 False sample_settle ctrl0 sample_env)))
     [sample_env\<lparr>now := 60000, isLocked := False\<rparr>]) = STATE_IDLE"
proof -
  obtain c0 e0 ev where d: "Dither 3 False sample_settle ctrl0 sample_env = (None, c0, e0, ev)"
  proof -
    have "fst (Dither 3 False sample_settle ctrl0 sample_env) = None" by code_simp
    then show ?thesis using that by (cases "Dither 3 False sample_settle ctrl0 sample_env") auto
  qed
  have "timeoutSec sample_settle \<le> (60000 - now sample_env) sdiv 1000" by code_simp
  then show ?thesis using dither_settle_ends [OF d, of "[sample_env\<lparr>now := 60000, isLocked := False\<rparr>]"]
    by (simp add: d)
qed

text \<open>An abort while a calibration runs leaves the lock position sticky: the flag saved before the
  calibration is only put back by \<open>STATE_CALIBRATION_WAIT\<close> itself.\<close>

definition uncal_env :: env where
  "uncal_env = sample_env\<lparr>mount1 := Some (sample_mount\<lparr>IsCalibrated := False\<rparr>), guiderState := GS_SELECTED\<rparr>"

lemma abort_leaves_sticky_lock:
  "let (err, c1, e1, ev1) = Guide GUIDEOPT_USE_STICKY_LOCK sample_settle (0, 0, 0, 0) ctrl0 uncal_env;
       (c2, e2, ev2) = AbortController ''stopped'' c1 e1
   in err = None \<and> state c1 = STATE_CALIBRATION_WAIT \<and> \<not> lockPosIsSticky uncal_env \<and>
      state c2 = STATE_IDLE \<and> lockPosIsSticky e2"
  by code_simp

end
