(* ===== verification/Geometry.thy ===== *)
theory Geometry
  imports Prelude
begin

text \<open>
  \<open>src/src/guiding/point.hpp\<close> and the angle helpers of \<open>src/src/image/image_math.hpp\<close>: image points with a
  validity flag, points that shift at a constant rate, and the normalisation of angles and times.
  \<open>hypot\<close> and \<open>atan2\<close> of the C library are given by their real-number definitions; an \<open>assert\<close> is compiled
  out, as in a release build, so the operations read the coordinates whatever the flag says.
\<close>

subsection \<open>\<open>hypot\<close> and \<open>atan2\<close>\<close>

definition hypot :: "real \<Rightarrow> real \<Rightarrow> real" where
  "hypot x y = sqrt (x\<^sup>2 + y\<^sup>2)"

definition atan2 :: "real \<Rightarrow> real \<Rightarrow> real" where
  "atan2 y x =
    (if x > 0 then arctan (y / x)
     else if x < 0 then (if y \<ge> 0 then arctan (y / x) + pi else arctan (y / x) - pi)
     else if y > 0 then pi / 2 else if y < 0 then - pi / 2 else 0)"

lemma hypot_nonneg [simp]: "0 \<le> hypot x y" by (simp add: hypot_def)
lemma hypot_zero [simp]: "hypot 0 0 = 0" by (simp add: hypot_def)
lemma hypot_pos: "x \<noteq> 0 \<or> y \<noteq> 0 \<Longrightarrow> 0 < hypot x y"
  by (auto simp: hypot_def sum_power2_gt_zero_iff)
lemma hypot_square: "(hypot x y)\<^sup>2 = x\<^sup>2 + y\<^sup>2" by (simp add: hypot_def)
lemma hypot_minus [simp]: "hypot x (- y) = hypot x y" "hypot (- x) y = hypot x y"
  by (simp_all add: hypot_def)
lemma hypot_zero_iff: "hypot x y = 0 \<longleftrightarrow> x = 0 \<and> y = 0"
  using hypot_pos [of x y] by fastforce

lemma hypot_scale: "hypot (s * a) (s * b) = \<bar>s\<bar> * hypot a b"
proof -
  have "(s * a)\<^sup>2 + (s * b)\<^sup>2 = s\<^sup>2 * (a\<^sup>2 + b\<^sup>2)" by (simp add: power_mult_distrib algebra_simps)
  then show ?thesis by (simp add: hypot_def real_sqrt_mult)
qed

lemma hypot_factor:
  assumes "x \<noteq> 0"
  shows "hypot x y = \<bar>x\<bar> * sqrt (1 + (y / x)\<^sup>2)"
proof -
  have "x\<^sup>2 + y\<^sup>2 = x\<^sup>2 * (1 + (y / x)\<^sup>2)" using assms by (simp add: field_simps)
  then show ?thesis by (simp add: hypot_def real_sqrt_mult)
qed

lemma sqrt_one_plus_pos [simp]: "0 < sqrt (1 + (z::real)\<^sup>2)"
  by (simp add: add_pos_nonneg)

lemma cos_atan2: "hypot x y * cos (atan2 y x) = x"
proof (cases "x = 0")
  case False
  have "\<bar>x\<bar> * sqrt (1 + (y / x)\<^sup>2) * cos (arctan (y / x)) = \<bar>x\<bar>"
    using sqrt_one_plus_pos [of "y / x"] by (simp add: cos_arctan)
  then show ?thesis using False
    by (auto simp: atan2_def hypot_factor [OF False] cos_diff)
qed (auto simp: atan2_def hypot_def)

lemma sin_atan2: "hypot x y * sin (atan2 y x) = y"
proof (cases "x = 0")
  case False
  have "sqrt (1 + (y / x)\<^sup>2) * sin (arctan (y / x)) = y / x"
    using sqrt_one_plus_pos [of "y / x"] by (simp add: sin_arctan)
  then have "x * sqrt (1 + (y / x)\<^sup>2) * sin (arctan (y / x)) = y"
    using False by (simp add: mult.assoc)
  then show ?thesis using False
    by (auto simp: atan2_def hypot_factor [OF False] sin_diff abs_if)
qed (auto simp: atan2_def hypot_def)

lemma atan2_bounds: "- pi < atan2 y x" "atan2 y x \<le> pi"
proof -
  have b: "- (pi / 2) < arctan (y / x)" "arctan (y / x) < pi / 2" by (rule arctan_lbound arctan_ubound)+
  have n: "x < 0 \<Longrightarrow> y \<ge> 0 \<Longrightarrow> arctan (y / x) \<le> 0"
    by (simp add: divide_nonneg_neg)
  have p: "x < 0 \<Longrightarrow> y < 0 \<Longrightarrow> arctan (y / x) > 0"
    by (simp add: divide_neg_neg)
  show "- pi < atan2 y x" "atan2 y x \<le> pi"
    using b n p pi_gt_zero by (auto simp: atan2_def)
qed

subsection \<open>Normalisation\<close>

definition norm_to :: "real \<Rightarrow> real \<Rightarrow> real \<Rightarrow> real" where
  "norm_to val start fin =
    (let range = fin - start; ofs = val - start in val - of_int \<lfloor>ofs / range\<rfloor> * range)"

definition norm_angle :: "real \<Rightarrow> real" where "norm_angle val = norm_to val (- pi) pi"
definition norm_ra :: "real \<Rightarrow> real" where "norm_ra val = norm_to val 0 24"
definition norm24 :: "real \<Rightarrow> real" where "norm24 t = norm_to t 0 24"
definition degrees :: "real \<Rightarrow> real" where "degrees r = r * 180 / pi"
definition radians :: "real \<Rightarrow> real" where "radians d = d * pi / 180"

definition GST :: "int \<Rightarrow> real" where
  "GST t = (let d = of_int t / 86400 - 10957.5 in 18.697374558 + 24.06570982441908 * d)"

definition LST :: "int \<Rightarrow> real \<Rightarrow> real" where
  "LST t longitude = norm24 (GST t + longitude / 15)"

definition ROUND :: "real \<Rightarrow> int" where "ROUND x = \<lfloor>x + 0.5\<rfloor>"

lemma norm_to_range:
  assumes "start < fin"
  shows "start \<le> norm_to val start fin" "norm_to val start fin < fin"
proof -
  let ?r = "fin - start" let ?k = "\<lfloor>(val - start) / ?r\<rfloor>"
  have r: "?r > 0" using assms by simp
  have "of_int ?k \<le> (val - start) / ?r" "(val - start) / ?r < of_int ?k + 1" by linarith+
  then have "of_int ?k * ?r \<le> val - start" "val - start < (of_int ?k + 1) * ?r"
    using r by (simp_all only: pos_le_divide_eq pos_divide_less_eq)
  then show "start \<le> norm_to val start fin" "norm_to val start fin < fin"
    by (simp_all add: norm_to_def Let_def algebra_simps)
qed

lemma norm_to_id: "start \<le> val \<Longrightarrow> val < fin \<Longrightarrow> norm_to val start fin = val"
proof -
  assume a: "start \<le> val" "val < fin"
  then have "0 \<le> (val - start) / (fin - start)" "(val - start) / (fin - start) < 1" by auto
  then have "\<lfloor>(val - start) / (fin - start)\<rfloor> = 0" by linarith
  then show ?thesis by (simp add: norm_to_def Let_def)
qed

lemma norm_angle_range: "- pi \<le> norm_angle v" "norm_angle v < pi"
  using norm_to_range [of "- pi" pi v] by (simp_all add: norm_angle_def)

lemma norm_angle_abs: "\<bar>norm_angle v\<bar> \<le> pi"
  using norm_angle_range [of v] by linarith

lemma norm_angle_multiple: "\<exists>k::int. norm_angle v = v - of_int k * (2 * pi)"
  by (auto simp: norm_angle_def norm_to_def Let_def intro: exI [of _ "\<lfloor>(v + pi) / (2 * pi)\<rfloor>"])

lemma norm_angle_unique:
  assumes "- pi \<le> w" "w < pi" "w = v - of_int k * (2 * pi)"
  shows "norm_angle v = w"
proof -
  have "(v + pi) / (2 * pi) = (w + pi) / (2 * pi) + of_int k" using assms(3) by (simp add: field_simps)
  moreover have "\<lfloor>(w + pi) / (2 * pi)\<rfloor> = 0" using assms(1,2) by (intro floor_unique) auto
  ultimately have "\<lfloor>(v + pi) / (2 * pi)\<rfloor> = k" by simp
  then show ?thesis using assms(3) by (simp add: norm_angle_def norm_to_def Let_def)
qed

lemma cos_sub_multiple: "cos (v - of_int k * (2 * pi)) = cos v" "sin (v - of_int k * (2 * pi)) = sin v"
proof -
  have c: "cos (of_int k * (2 * pi)) = 1" "sin (of_int k * (2 * pi)) = 0"
    using cos_int_2pin [of k] sin_int_2pin [of k] by (simp_all only: mult.commute [of "of_int k"])
  show "cos (v - of_int k * (2 * pi)) = cos v" "sin (v - of_int k * (2 * pi)) = sin v"
    by (simp_all add: cos_diff sin_diff c)
qed

lemma cos_norm_angle [simp]: "cos (norm_angle v) = cos v"
  and sin_norm_angle [simp]: "sin (norm_angle v) = sin v"
  using norm_angle_multiple [of v] cos_sub_multiple by auto

lemma norm_angle_shift: "norm_angle (v + of_int k * (2 * pi)) = norm_angle v"
proof -
  obtain j :: int where j: "norm_angle v = v - of_int j * (2 * pi)" using norm_angle_multiple by blast
  show ?thesis
    by (rule norm_angle_unique [of _ _ "k + j"]) (use norm_angle_range [of v] j in \<open>simp_all add: algebra_simps\<close>)
qed

lemma norm_angle_idem [simp]: "norm_angle (norm_angle v) = norm_angle v"
  using norm_angle_range [of v] by (simp add: norm_angle_def norm_to_id)

lemma norm_angle_add_norm [simp]: "norm_angle (norm_angle v + w) = norm_angle (v + w)"
proof -
  obtain j :: int where "norm_angle v = v - of_int j * (2 * pi)" using norm_angle_multiple by blast
  then have "norm_angle v + w = (v + w) + of_int (- j) * (2 * pi)" by simp
  then show ?thesis by (simp only: norm_angle_shift)
qed

lemma norm_angle_diff_norm [simp]: "norm_angle (w - norm_angle v) = norm_angle (w - v)"
proof -
  obtain j :: int where "norm_angle v = v - of_int j * (2 * pi)" using norm_angle_multiple by blast
  then have "w - norm_angle v = (w - v) + of_int j * (2 * pi)" by simp
  then show ?thesis by (simp only: norm_angle_shift)
qed


subsection \<open>Points\<close>

record sodium_point =
  m_valid :: bool
  X :: real
  Y :: real

definition SetXY :: "real \<Rightarrow> real \<Rightarrow> 'a sodium_point_scheme \<Rightarrow> 'a sodium_point_scheme" where
  "SetXY x y p = p\<lparr>X := x, Y := y, m_valid := True\<rparr>"

definition Invalidate :: "'a sodium_point_scheme \<Rightarrow> 'a sodium_point_scheme" where
  "Invalidate p = p\<lparr>m_valid := False\<rparr>"

definition SodiumPoint :: "real \<Rightarrow> real \<Rightarrow> sodium_point" where
  "SodiumPoint x y = \<lparr>m_valid = True, X = x, Y = y\<rparr>"

definition dX :: "'a sodium_point_scheme \<Rightarrow> 'b sodium_point_scheme \<Rightarrow> real" where "dX p q = X p - X q"
definition dY :: "'a sodium_point_scheme \<Rightarrow> 'b sodium_point_scheme \<Rightarrow> real" where "dY p q = Y p - Y q"

definition Distance :: "'a sodium_point_scheme \<Rightarrow> 'b sodium_point_scheme \<Rightarrow> real" where
  "Distance p q = hypot (dX p q) (dY p q)"

definition Distance0 :: "'a sodium_point_scheme \<Rightarrow> real" where "Distance0 p = hypot (X p) (Y p)"

definition Angle :: "'a sodium_point_scheme \<Rightarrow> 'b sodium_point_scheme \<Rightarrow> real" where
  "Angle p q = (let dx = dX p q; dy = dY p q in if dx \<noteq> 0 \<or> dy \<noteq> 0 then atan2 dy dx else 0)"

definition Angle0 :: "'a sodium_point_scheme \<Rightarrow> real" where "Angle0 p = Angle p (SodiumPoint 0 0)"

definition point_add :: "sodium_point \<Rightarrow> sodium_point \<Rightarrow> sodium_point" where
  "point_add p q = SodiumPoint (X p + X q) (Y p + Y q)"
definition point_sub :: "sodium_point \<Rightarrow> sodium_point \<Rightarrow> sodium_point" where
  "point_sub p q = SodiumPoint (X p - X q) (Y p - Y q)"
definition point_scale :: "sodium_point \<Rightarrow> real \<Rightarrow> sodium_point" where
  "point_scale p k = SodiumPoint (X p * k) (Y p * k)"

lemma point_simps [simp]:
  "X (SetXY x y p) = x" "Y (SetXY x y p) = y" "m_valid (SetXY x y p)" "\<not> m_valid (Invalidate p)"
  "X (SodiumPoint x y) = x" "Y (SodiumPoint x y) = y" "m_valid (SodiumPoint x y)"
  by (simp_all add: SetXY_def Invalidate_def SodiumPoint_def)

lemma Angle0_eq: "Angle0 p = atan2 (Y p) (X p)"
  by (simp add: Angle0_def Angle_def dX_def dY_def atan2_def Let_def)

lemma polar: "Distance0 p * cos (Angle0 p) = X p" "Distance0 p * sin (Angle0 p) = Y p"
  by (simp_all add: Distance0_def Angle0_eq cos_atan2 sin_atan2)

lemma Distance_nonneg [simp]: "0 \<le> Distance p q" by (simp add: Distance_def)
lemma Distance_self [simp]: "Distance p p = 0" by (simp add: Distance_def dX_def dY_def)
lemma Distance_zero_iff: "Distance p q = 0 \<longleftrightarrow> X p = X q \<and> Y p = Y q"
  by (simp add: Distance_def hypot_zero_iff dX_def dY_def)
lemma Distance_commute: "Distance p q = Distance q p"
  by (simp add: Distance_def dX_def dY_def hypot_def power2_commute)

subsection \<open>Points that shift at a constant rate\<close>

record shift_point = sodium_point +
  m_rate :: sodium_point
  m_x0 :: real
  m_y0 :: real
  m_t0 :: int \<comment> \<open>milliseconds\<close>

definition BeginShift :: "int \<Rightarrow> shift_point \<Rightarrow> shift_point" where
  "BeginShift t p = (if m_valid p then p\<lparr>m_x0 := X p, m_y0 := Y p, m_t0 := t\<rparr> else p)"

definition SetShiftRate :: "int \<Rightarrow> real \<Rightarrow> real \<Rightarrow> shift_point \<Rightarrow> shift_point" where
  "SetShiftRate t xrate yrate p = BeginShift t (p\<lparr>m_rate := SetXY xrate yrate (m_rate p)\<rparr>)"

definition DisableShift :: "shift_point \<Rightarrow> shift_point" where
  "DisableShift p = p\<lparr>m_rate := Invalidate (m_rate p)\<rparr>"

definition UpdateShift :: "int \<Rightarrow> shift_point \<Rightarrow> shift_point" where
  "UpdateShift t p =
    (if m_valid p \<and> m_valid (m_rate p)
     then let dt = of_int (t - m_t0 p) / 1000
          in p\<lparr>X := m_x0 p + X (m_rate p) * dt, Y := m_y0 p + Y (m_rate p) * dt\<rparr>
     else p)"

definition ShiftSetXY :: "int \<Rightarrow> real \<Rightarrow> real \<Rightarrow> shift_point \<Rightarrow> shift_point" where
  "ShiftSetXY t x y p = BeginShift t (SetXY x y p)"

lemma UpdateShift_fields [simp]:
  "m_valid (UpdateShift t p) = m_valid p" "m_rate (UpdateShift t p) = m_rate p"
  "m_x0 (UpdateShift t p) = m_x0 p" "m_y0 (UpdateShift t p) = m_y0 p" "m_t0 (UpdateShift t p) = m_t0 p"
  by (cases p; simp add: UpdateShift_def Let_def)+

lemma SetShiftRate_fields [simp]:
  "m_valid (SetShiftRate t vx vy p) = m_valid p" "m_rate (SetShiftRate t vx vy p) = SetXY vx vy (m_rate p)"
  "X (SetShiftRate t vx vy p) = X p" "Y (SetShiftRate t vx vy p) = Y p"
  "m_valid p \<Longrightarrow> m_x0 (SetShiftRate t vx vy p) = X p" "m_valid p \<Longrightarrow> m_y0 (SetShiftRate t vx vy p) = Y p"
  "m_valid p \<Longrightarrow> m_t0 (SetShiftRate t vx vy p) = t"
  by (cases p; simp add: SetShiftRate_def BeginShift_def)+

text \<open>A shifting lock position does not accumulate error: however many updates happened in between and
  at whatever times, the position at time \<open>t\<close> is the start plus the rate times the elapsed seconds; and a
  change of the shift rate starts from the position shown at that moment.\<close>
theorem shift_position_exact:
  assumes "m_valid p" and "p' = UpdateShift t (foldl (\<lambda>q s. UpdateShift s q) (SetShiftRate t0 vx vy p) ts)"
  shows "X p' = X p + vx * (of_int (t - t0) / 1000) \<and> Y p' = Y p + vy * (of_int (t - t0) / 1000) \<and>
    X (SetShiftRate t wx wy p') = X p' \<and> m_x0 (SetShiftRate t wx wy p') = X p' \<and> m_y0 (SetShiftRate t wx wy p') = Y p'"
proof -
  let ?q = "foldl (\<lambda>q s. UpdateShift s q) (SetShiftRate t0 vx vy p) ts"
  have q: "m_valid ?q \<and> m_rate ?q = SetXY vx vy (m_rate p) \<and> m_x0 ?q = X p \<and> m_y0 ?q = Y p \<and> m_t0 ?q = t0"
    using assms(1) by (induction ts rule: rev_induct) simp_all
  then have "X (UpdateShift t ?q) = X p + vx * (of_int (t - t0) / 1000) \<and>
      Y (UpdateShift t ?q) = Y p + vy * (of_int (t - t0) / 1000)"
    by (simp add: UpdateShift_def [of t ?q] Let_def)
  then show ?thesis using q assms(2) by simp
qed

theorem shift_position_exact_witness:
  "X (UpdateShift 5000 (foldl (\<lambda>q s. UpdateShift s q)
      (SetShiftRate 1000 2 0 \<lparr>m_valid = True, X = 10, Y = 3, m_rate = SodiumPoint 0 0, m_x0 = 0, m_y0 = 0, m_t0 = 0\<rparr>)
      [1500, 3300])) = 18"
  using shift_position_exact [of "\<lparr>m_valid = True, X = 10, Y = 3, m_rate = SodiumPoint 0 0, m_x0 = 0, m_y0 = 0, m_t0 = 0\<rparr>"
      _ 5000 1000 2 0 "[1500, 3300]", OF _ refl] by simp

end
