(* ===== verification/BlcHistory.thy ===== *)
theory BlcHistory
  imports Prelude
begin

text \<open>
  \<open>src/src/algorithm/backlash_comp.cpp\<close>: the data of the Dec backlash compensation and \<open>BLCHistory\<close>, which
  remembers the residual errors after the last compensations and decides on a change of their size.

  An access to a \<open>std::vector\<close> beyond its end, which C++ leaves undefined, is \<^term>\<open>None\<close>, and so is a
  conversion of an infinite quotient to an integer.
\<close>

subsection \<open>State\<close>

definition MIN_COMP_AMOUNT :: int where "MIN_COMP_AMOUNT = 20"
definition MAX_COMP_AMOUNT :: int where "MAX_COMP_AMOUNT = 8000"
definition ENTRY_CAPACITY :: nat where "ENTRY_CAPACITY = 3"
definition HISTORY_DEPTH :: nat where "HISTORY_DEPTH = 10"

record correction_tuple =
  timeSeconds :: int
  miss :: real

record blc_event =
  corrections :: "correction_tuple list"
  initialOvershoot :: bool
  initialUndershoot :: bool
  stictionSeen :: bool

record blc_history =
  blcEvents :: "blc_event list"
  blcIndex :: int
  windowOpen :: bool
  timeBase :: int
  lastIncrease :: int

record recent_stats =
  shortCount :: int
  longCount :: int
  stictionCount :: int
  avgInitialMiss :: real
  avgStictionAmount :: real

record backlash_comp =
  m_compActive :: bool
  m_lastDirection :: guide_direction
  m_adjustmentFloor :: int
  m_adjustmentCeiling :: int
  m_pulseWidth :: int
  m_fixedSize :: bool
  m_pHistory :: blc_history

subsection \<open>Events\<close>

definition BLCEvent :: "int \<Rightarrow> real \<Rightarrow> blc_event" where
  "BLCEvent t amount = \<lparr>corrections = [\<lparr>timeSeconds = t, miss = amount\<rparr>], initialOvershoot = False,
     initialUndershoot = False, stictionSeen = False\<rparr>"

definition InfoCount :: "blc_event \<Rightarrow> nat" where
  "InfoCount e = length (corrections e)"

definition AddEventInfo :: "int \<Rightarrow> real \<Rightarrow> real \<Rightarrow> blc_event \<Rightarrow> blc_event" where
  "AddEventInfo t amount minMove e =
    (if InfoCount e < 3
     then let e = e\<lparr>corrections := corrections e @ [\<lparr>timeSeconds = t, miss = amount\<rparr>]\<rparr>
          in if \<bar>amount\<bar> > minMove
             then if InfoCount e = 2
                  then if amount > 0 then e\<lparr>initialUndershoot := True\<rparr> else e\<lparr>initialOvershoot := True\<rparr>
                  else if InfoCount e = 3
                  then e\<lparr>stictionSeen := (amount < 0 \<and> miss (corrections e ! 1) > 0)\<rparr>
                  else e
             else e
     else e)"

subsection \<open>\<open>BLCHistory\<close>\<close>

definition history_new :: "int \<Rightarrow> blc_history" where
  "history_new now = \<lparr>blcEvents = [], blcIndex = 0, windowOpen = False, timeBase = now, lastIncrease = 0\<rparr>"

definition CloseWindow :: "blc_history \<Rightarrow> blc_history" where
  "CloseWindow h = h\<lparr>windowOpen := False\<rparr>"

definition RecordNewBLCPulse :: "int \<Rightarrow> real \<Rightarrow> blc_history \<Rightarrow> blc_history" where
  "RecordNewBLCPulse now triggerDeflection h =
    (let evs = (if length (blcEvents h) \<ge> HISTORY_DEPTH then tl (blcEvents h) else blcEvents h) @
               [BLCEvent (now - timeBase h) triggerDeflection]
     in h\<lparr>blcEvents := evs, blcIndex := int (length evs) - 1, windowOpen := True\<rparr>)"

definition event_at :: "blc_history \<Rightarrow> int \<Rightarrow> blc_event option" where
  "event_at h i = (if 0 \<le> i \<and> i < int (length (blcEvents h)) then Some (blcEvents h ! nat i) else None)"

definition AddDeflection :: "int \<Rightarrow> real \<Rightarrow> real \<Rightarrow> blc_history \<Rightarrow> blc_history option" where
  "AddDeflection now amt minMove h =
    (if blcIndex h \<ge> 0
     then case event_at h (blcIndex h) of None \<Rightarrow> None
          | Some e \<Rightarrow>
              Some (if InfoCount e < ENTRY_CAPACITY
                    then h\<lparr>blcEvents := (blcEvents h)[nat (blcIndex h) := AddEventInfo (now - timeBase h) amt minMove e]\<rparr>
                    else CloseWindow h)
     else Some (CloseWindow h))"

fun remove_oldest :: "(blc_event \<Rightarrow> bool) \<Rightarrow> blc_event list \<Rightarrow> blc_event list" where
  \<comment> \<open>erases the first event with the property, the last event excepted\<close>
  "remove_oldest Q (e # e' # es) = (if Q e then e' # es else e # remove_oldest Q (e' # es))"
| "remove_oldest Q es = es"

definition erase_oldest :: "(blc_event \<Rightarrow> bool) \<Rightarrow> blc_history \<Rightarrow> blc_history" where
  "erase_oldest P h =
    (let evs = remove_oldest P (blcEvents h)
     in if length evs < length (blcEvents h) then h\<lparr>blcEvents := evs, blcIndex := int (length evs) - 1\<rparr> else h)"

definition RemoveOldestOvershoots :: "nat \<Rightarrow> blc_history \<Rightarrow> blc_history" where
  "RemoveOldestOvershoots howMany = (erase_oldest initialOvershoot ^^ howMany)"

definition RemoveOldestStictions :: "nat \<Rightarrow> blc_history \<Rightarrow> blc_history" where
  "RemoveOldestStictions howMany = (erase_oldest stictionSeen ^^ howMany)"

definition ClearHistory :: "blc_history \<Rightarrow> blc_history" where
  "ClearHistory h = CloseWindow (h\<lparr>blcEvents := []\<rparr>)"

text \<open>\<open>GetStats\<close>: the loop from \<open>blcIndex\<close> down to \<open>bottom\<close>, with the two running sums and the count.\<close>

fun stats_loop :: "blc_history \<Rightarrow> int list \<Rightarrow> recent_stats \<times> real \<times> real \<times> int \<Rightarrow> (recent_stats \<times> real \<times> real \<times> int) option" where
  "stats_loop h [] acc = Some acc"
| "stats_loop h (i # is) (r, missSum, stictionSum, ct) =
    (case event_at h i of None \<Rightarrow> None
     | Some e \<Rightarrow>
        (let r = (if initialOvershoot e then r\<lparr>longCount := longCount r + 1\<rparr> else r\<lparr>shortCount := shortCount r + 1\<rparr>)
         in if stictionSeen e \<and> InfoCount e \<le> 2 then None
            else let (r, stictionSum) = (if stictionSeen e
                       then (r\<lparr>stictionCount := stictionCount r + 1\<rparr>, stictionSum + miss (corrections e ! 2))
                       else (r, stictionSum));
                     (missSum, ct) = (if InfoCount e > 1 then (missSum + miss (corrections e ! 1), ct + 1) else (missSum, ct))
                 in stats_loop h is (r, missSum, stictionSum, ct)))"

definition GetStats :: "int \<Rightarrow> blc_history \<Rightarrow> recent_stats option" where
  "GetStats numEvents h =
    (let bottom = max 0 (blcIndex h - (numEvents - 1));
         r0 = \<lparr>shortCount = 0, longCount = 0, stictionCount = 0, avgInitialMiss = 0, avgStictionAmount = 0\<rparr>
     in case stats_loop h (rev [bottom..blcIndex h]) (r0, 0, 0, 0) of None \<Rightarrow> None
        | Some (r, missSum, stictionSum, ct) \<Rightarrow>
            Some (r\<lparr>avgInitialMiss := (if ct > 0 then missSum / of_int ct else 0),
                    avgStictionAmount := (if stictionCount r > 0 then stictionSum / of_int (stictionCount r) else 0)\<rparr>))"

definition ms_for :: "real \<Rightarrow> real \<Rightarrow> int option" where
  \<comment> \<open>\<open>(int)(floor(abs(px) / yRate) + 0.5)\<close>\<close>
  "ms_for px yrate = (case fdiv \<bar>px\<bar> yrate of None \<Rightarrow> None | Some q \<Rightarrow> Some (trunc (of_int \<lfloor>q\<rfloor> + 0.5)))"

text \<open>\<open>AdjustmentNeeded\<close>: the new history, whether to adjust, and the correction in milliseconds.\<close>

definition undershoot_adjustment :: "int \<Rightarrow> recent_stats \<Rightarrow> blc_event \<Rightarrow> blc_history \<Rightarrow> blc_history \<times> int option" where
  "undershoot_adjustment corr st e h =
    (if avgInitialMiss st > 0
     then if InfoCount e = ENTRY_CAPACITY \<and> \<not> stictionCount st > 2 \<and> \<not> longCount st \<ge> 2
          then (h\<lparr>lastIncrease := corr\<rparr>, Some corr)
          else (h, None)
     else (CloseWindow h, None))"

definition overshoot_adjustment ::
    "int \<Rightarrow> real \<Rightarrow> recent_stats \<Rightarrow> blc_event \<Rightarrow> blc_history \<Rightarrow> (blc_history \<times> int option) option" where
  "overshoot_adjustment corr yrate st e h =
    (if stictionSeen e
     then if stictionCount st > 1
          then case ms_for (avgStictionAmount st) yrate of None \<Rightarrow> None
               | Some c \<Rightarrow> Some (RemoveOldestStictions 1 h, Some (- c))
          else Some (h, None)
     else if longCount st > shortCount st \<and> blcIndex h \<ge> 4 then Some (RemoveOldestOvershoots 2 h, Some (- corr))
     else if avgInitialMiss st \<le> -0.1 then Some (h, Some (- corr))
     else Some (CloseWindow h, None))"

definition AdjustmentNeeded :: "real \<Rightarrow> real \<Rightarrow> real \<Rightarrow> blc_history \<Rightarrow> (blc_history \<times> int option) option" where
  "AdjustmentNeeded ms minMove yrate h =
    (if blcIndex h \<ge> 0
     then case GetStats (int HISTORY_DEPTH) h of None \<Rightarrow> None
       | Some st \<Rightarrow>
         (case event_at h (blcIndex h) of None \<Rightarrow> None
          | Some e \<Rightarrow>
            if InfoCount e < 2 then None
            else if \<bar>ms\<bar> \<ge> minMove
            then case ms_for (avgInitialMiss st) yrate of None \<Rightarrow> None
              | Some corr \<Rightarrow>
                (case (if ms > 0 then Some (undershoot_adjustment corr st e h)
                       else overshoot_adjustment corr yrate st e h) of None \<Rightarrow> None
                 | Some (h, adjust) \<Rightarrow> Some (if adjust \<noteq> None then CloseWindow h else h, adjust))
            else Some (h, None))
     else Some (h, None))"

subsection \<open>No access past the end\<close>

text \<open>The invariant: every event has between one and three deflections, three when stiction was seen; while the
  window is open, \<open>blcIndex\<close> is the last event.\<close>

definition event_ok :: "blc_event \<Rightarrow> bool" where
  "event_ok e \<longleftrightarrow> 1 \<le> InfoCount e \<and> InfoCount e \<le> 3 \<and> (stictionSeen e \<longrightarrow> InfoCount e = 3)"

definition history_ok :: "blc_history \<Rightarrow> bool" where
  "history_ok h \<longleftrightarrow> list_all event_ok (blcEvents h) \<and> length (blcEvents h) \<le> HISTORY_DEPTH \<and>
     (windowOpen h \<longrightarrow> blcEvents h \<noteq> [] \<and> blcIndex h = int (length (blcEvents h)) - 1)"

lemma history_new_ok [simp]: "history_ok (history_new now)"
  by (simp add: history_ok_def history_new_def)

lemma CloseWindow_ok [simp]: "history_ok h \<Longrightarrow> history_ok (CloseWindow h)" "\<not> windowOpen (CloseWindow h)"
  "blcEvents (CloseWindow h) = blcEvents h" "blcIndex (CloseWindow h) = blcIndex h"
  by (simp_all add: history_ok_def CloseWindow_def)

lemma ClearHistory_ok [simp]: "history_ok (ClearHistory h)"
  by (simp add: history_ok_def ClearHistory_def CloseWindow_def)

lemma BLCEvent_ok [simp]: "event_ok (BLCEvent t a)"
  by (simp add: event_ok_def BLCEvent_def InfoCount_def)

lemma RecordNewBLCPulse_ok:
  assumes "history_ok h"
  shows "history_ok (RecordNewBLCPulse now d h)"
proof -
  have "list_all event_ok (tl (blcEvents h))" using assms by (cases "blcEvents h") (simp_all add: history_ok_def)
  then show ?thesis using assms
    by (auto simp: history_ok_def RecordNewBLCPulse_def Let_def HISTORY_DEPTH_def)
qed

lemma AddEventInfo_ok:
  assumes "event_ok e"
  shows "event_ok (AddEventInfo t a m e)" "InfoCount (AddEventInfo t a m e) = min 3 (InfoCount e + 1)"
    "2 \<le> InfoCount (AddEventInfo t a m e)"
  using assms by (auto simp: event_ok_def AddEventInfo_def InfoCount_def Let_def)

lemma AddDeflection_ok:
  assumes "history_ok h" "windowOpen h"
  obtains h' where "AddDeflection now a m h = Some h'" "history_ok h'" "blcEvents h' \<noteq> []"
    "blcIndex h' = int (length (blcEvents h')) - 1" "2 \<le> InfoCount (last (blcEvents h'))"
proof -
  let ?n = "length (blcEvents h) - 1" and ?e = "last (blcEvents h)"
  have ne: "blcEvents h \<noteq> []" and i: "nat (blcIndex h) = ?n" "0 \<le> blcIndex h" "blcIndex h < int (length (blcEvents h))"
    using assms by (auto simp: history_ok_def Suc_le_eq simp flip: length_greater_0_conv)
  have at: "event_at h (blcIndex h) = Some ?e" using i ne by (simp add: event_at_def last_conv_nth)
  have e: "event_ok ?e" using assms(1) ne by (simp add: history_ok_def list_all_iff)
  show ?thesis
  proof (cases "InfoCount ?e < ENTRY_CAPACITY")
    case True
    let ?h = "h\<lparr>blcEvents := (blcEvents h)[?n := AddEventInfo (now - timeBase h) a m ?e]\<rparr>"
    have "list_all event_ok (blcEvents ?h)"
      using assms(1) AddEventInfo_ok(1) [OF e] by (auto simp: history_ok_def list_all_iff dest!: set_update_subset_insert [THEN subsetD])
    moreover have "last (blcEvents ?h) = AddEventInfo (now - timeBase h) a m ?e"
      using ne by (simp add: last_list_update)
    ultimately show ?thesis
      by (intro that [of ?h]) (use True at i ne assms AddEventInfo_ok [OF e] in \<open>auto simp: AddDeflection_def history_ok_def\<close>)
  next
    case False
    then show ?thesis
      by (intro that [of "CloseWindow h"])
        (use at i ne assms in \<open>auto simp: AddDeflection_def ENTRY_CAPACITY_def history_ok_def CloseWindow_def\<close>)
  qed
qed

lemma remove_oldest_set: "set (remove_oldest Q es) \<subseteq> set es"
  by (induction Q es rule: remove_oldest.induct) auto

lemma remove_oldest_length: "length (remove_oldest Q es) \<le> length es" "es \<noteq> [] \<Longrightarrow> remove_oldest Q es \<noteq> []"
  by (induction Q es rule: remove_oldest.induct) auto

lemma erase_oldest_ok:
  assumes "history_ok h"
  shows "history_ok (erase_oldest P h)"
  using assms remove_oldest_length [where Q = P and es = "blcEvents h"]
    remove_oldest_set [where Q = P and es = "blcEvents h"]
  by (auto simp: history_ok_def erase_oldest_def Let_def list_all_iff)

lemma erase_oldest_pow_ok: "history_ok h \<Longrightarrow> history_ok ((erase_oldest P ^^ n) h)"
  by (induction n) (simp_all add: erase_oldest_ok)

lemma event_at_ok: "history_ok h \<Longrightarrow> event_at h i = Some e \<Longrightarrow> event_ok e"
  by (auto simp: event_at_def history_ok_def list_all_iff split: if_splits)

lemma stats_loop_defined:
  assumes "history_ok h" "\<forall>i\<in>set is. 0 \<le> i \<and> i < int (length (blcEvents h))"
  shows "stats_loop h is acc \<noteq> None"
  using assms(2)
proof (induction "is" arbitrary: acc)
  case (Cons i "is")
  obtain r s ss c where acc: "acc = (r, s, ss, c)" by (metis prod_cases4)
  obtain e where e: "event_at h i = Some e" using Cons.prems by (simp add: event_at_def)
  have "\<not> (stictionSeen e \<and> InfoCount e \<le> 2)" using event_at_ok [OF assms(1) e] by (auto simp: event_ok_def)
  then show ?case using Cons e by (auto simp: acc Let_def split: prod.splits)
qed simp

lemma GetStats_defined:
  assumes "history_ok h" "0 \<le> blcIndex h" "blcIndex h < int (length (blcEvents h))"
  shows "GetStats n h \<noteq> None"
proof -
  have "stats_loop h (rev [max 0 (blcIndex h - (n - 1))..blcIndex h]) acc \<noteq> None" for acc
    using assms by (intro stats_loop_defined) auto
  then show ?thesis by (auto simp: GetStats_def Let_def split: option.splits)
qed

lemma ms_for_defined: "y \<noteq> 0 \<Longrightarrow> ms_for x y \<noteq> None"
  by (simp add: ms_for_def)

lemma AdjustmentNeeded_ok:
  assumes "history_ok h" "blcEvents h \<noteq> []" "blcIndex h = int (length (blcEvents h)) - 1"
    "2 \<le> InfoCount (last (blcEvents h))" "yrate \<noteq> 0"
  obtains h' c where "AdjustmentNeeded m mm yrate h = Some (h', c)" "history_ok h'"
proof -
  have i: "0 \<le> blcIndex h" "blcIndex h < int (length (blcEvents h))"
    using assms(2,3) by (auto simp: Suc_le_eq simp flip: length_greater_0_conv)
  obtain st where st: "GetStats (int HISTORY_DEPTH) h = Some st" using GetStats_defined [OF assms(1) i] by auto
  have at: "event_at h (blcIndex h) = Some (last (blcEvents h))"
  proof -
    have "nat (blcIndex h) = length (blcEvents h) - 1" using i assms(3) by linarith
    then show ?thesis using i assms(2) by (simp add: event_at_def last_conv_nth)
  qed
  obtain c where c: "ms_for (avgInitialMiss st) yrate = Some c" using ms_for_defined [OF assms(5)] by fastforce
  obtain d where d: "ms_for (avgStictionAmount st) yrate = Some d" using ms_for_defined [OF assms(5)] by fastforce
  have li: "history_ok (h\<lparr>lastIncrease := c\<rparr>)" using assms(1) by (simp add: history_ok_def)
  have r: "history_ok (RemoveOldestStictions 1 h)" "history_ok (RemoveOldestOvershoots 2 h)"
    unfolding RemoveOldestStictions_def RemoveOldestOvershoots_def using assms(1) by (rule erase_oldest_pow_ok)+
  have "\<exists>h' c. AdjustmentNeeded m mm yrate h = Some (h', c) \<and> history_ok h'"
    using assms(1,4) i st at c d li r
    by (auto simp: AdjustmentNeeded_def undershoot_adjustment_def overshoot_adjustment_def)
  then show ?thesis using that by blast
qed

end
