(* ===== verification/Mount.thy ===== *)
theory Mount
  imports Geometry BlcHistory
begin

unbundle bit_operations_syntax

text \<open>
  \<open>src/src/telescope/mount.cpp\<close> and \<open>mount.hpp\<close>: the calibration of a mount or AO unit, the transforms
  between camera and mount coordinates, the meridian flip, the adjustment of a calibration to where the
  scope points, its persistence, and \<open>MoveOffset\<close>, which turns a measured offset into two axis moves.

  A virtual function is an argument of the definitions that call it (\<open>moveAxis\<close>, the guide algorithms,
  the backlash compensation, \<open>SetCalibration\<close>). A profile is a map from keys to typed values; \<open>rd\<close> is what
  a double becomes when the configuration library writes it as text and reads it back.
\<close>

subsection \<open>Data\<close>

datatype pier_side = PIER_SIDE_UNKNOWN | PIER_SIDE_EAST | PIER_SIDE_WEST

datatype guide_parity = GUIDE_PARITY_EVEN | GUIDE_PARITY_ODD | GUIDE_PARITY_UNKNOWN | GUIDE_PARITY_UNCHANGED

definition UNKNOWN_DECLINATION :: real where "UNKNOWN_DECLINATION = 997"
definition POSITION_UNKNOWN :: real where "POSITION_UNKNOWN = - 888"

record calibration =
  xRate :: real
  yRate :: real
  xAngle :: real
  yAngle :: real
  declination :: real
  rotatorAngle :: real
  binning :: "16 word"
  pierSide :: pier_side
  raGuideParity :: guide_parity
  decGuideParity :: guide_parity
  isValid :: bool
  timestamp :: string

definition MOVEOPT_ALGO_RESULT :: u32 where "MOVEOPT_ALGO_RESULT = push_bit 0 1"
definition MOVEOPT_ALGO_DEDUCE :: u32 where "MOVEOPT_ALGO_DEDUCE = push_bit 1 1"
definition MOVEOPT_USE_BLC :: u32 where "MOVEOPT_USE_BLC = push_bit 2 1"
definition MOVEOPT_GRAPH :: u32 where "MOVEOPT_GRAPH = push_bit 3 1"
definition MOVEOPT_MANUAL :: u32 where "MOVEOPT_MANUAL = push_bit 4 1"

definition MOVEOPTS_CALIBRATION_MOVE :: u32 where "MOVEOPTS_CALIBRATION_MOVE = 0"
definition MOVEOPTS_GUIDE_STEP :: u32 where
  "MOVEOPTS_GUIDE_STEP = MOVEOPT_ALGO_RESULT OR MOVEOPT_USE_BLC OR MOVEOPT_GRAPH"
definition MOVEOPTS_DEDUCED_MOVE :: u32 where
  "MOVEOPTS_DEDUCED_MOVE = MOVEOPT_ALGO_DEDUCE OR MOVEOPT_USE_BLC OR MOVEOPT_GRAPH"
definition MOVEOPTS_RECOVERY_MOVE :: u32 where "MOVEOPTS_RECOVERY_MOVE = MOVEOPT_USE_BLC"
definition MOVEOPTS_AO_BUMP :: u32 where "MOVEOPTS_AO_BUMP = MOVEOPT_USE_BLC"

lemmas moveopt_defs = MOVEOPT_ALGO_RESULT_def MOVEOPT_ALGO_DEDUCE_def MOVEOPT_USE_BLC_def MOVEOPT_GRAPH_def
  MOVEOPT_MANUAL_def MOVEOPTS_CALIBRATION_MOVE_def MOVEOPTS_GUIDE_STEP_def MOVEOPTS_DEDUCED_MOVE_def
  MOVEOPTS_RECOVERY_MOVE_def MOVEOPTS_AO_BUMP_def

datatype move_result = MOVE_OK | MOVE_ERROR | MOVE_ERROR_SLEWING | MOVE_ERROR_AO_LIMIT_REACHED

record move_result_info =
  amountMoved :: int
  limited :: bool

definition move_result_info0 :: move_result_info where
  "move_result_info0 = \<lparr>amountMoved = 0, limited = False\<rparr>"

record mount =
  m_connected :: bool
  m_requestCount :: int
  m_errorCount :: int
  m_calibrated :: bool
  m_cal :: calibration
  m_xRate :: real
  m_yAngleError :: real
  m_guidingEnabled :: bool
  m_backlashComp :: "backlash_comp option" \<comment> \<open>\<^term>\<open>None\<close>: the null pointer\<close>

subsection \<open>Pier sides and parities\<close>

definition OppositeSide :: "pier_side \<Rightarrow> pier_side" where
  "OppositeSide p = (case p of PIER_SIDE_EAST \<Rightarrow> PIER_SIDE_WEST | PIER_SIDE_WEST \<Rightarrow> PIER_SIDE_EAST
     | PIER_SIDE_UNKNOWN \<Rightarrow> PIER_SIDE_UNKNOWN)"

definition IsOppositeSide :: "pier_side \<Rightarrow> pier_side \<Rightarrow> bool" where
  "IsOppositeSide a b \<longleftrightarrow> (a = PIER_SIDE_EAST \<and> b = PIER_SIDE_WEST) \<or> (a = PIER_SIDE_WEST \<and> b = PIER_SIDE_EAST)"

definition OppositeParity :: "guide_parity \<Rightarrow> guide_parity" where
  "OppositeParity p = (case p of GUIDE_PARITY_EVEN \<Rightarrow> GUIDE_PARITY_ODD | GUIDE_PARITY_ODD \<Rightarrow> GUIDE_PARITY_EVEN
     | _ \<Rightarrow> p)"

definition pier_side_int :: "pier_side \<Rightarrow> int" where
  "pier_side_int p = (case p of PIER_SIDE_UNKNOWN \<Rightarrow> -1 | PIER_SIDE_EAST \<Rightarrow> 0 | PIER_SIDE_WEST \<Rightarrow> 1)"

definition guide_parity_int :: "guide_parity \<Rightarrow> int" where
  "guide_parity_int p = (case p of GUIDE_PARITY_EVEN \<Rightarrow> 1 | GUIDE_PARITY_ODD \<Rightarrow> -1 | GUIDE_PARITY_UNKNOWN \<Rightarrow> 0
     | GUIDE_PARITY_UNCHANGED \<Rightarrow> -5)"

definition pier_side_of :: "int \<Rightarrow> pier_side" where
  "pier_side_of val = (if val = pier_side_int PIER_SIDE_EAST then PIER_SIDE_EAST
     else if val = pier_side_int PIER_SIDE_WEST then PIER_SIDE_WEST else PIER_SIDE_UNKNOWN)"

definition guide_parity_of :: "int \<Rightarrow> guide_parity" where
  "guide_parity_of val = (if val = guide_parity_int GUIDE_PARITY_EVEN then GUIDE_PARITY_EVEN
     else if val = guide_parity_int GUIDE_PARITY_ODD then GUIDE_PARITY_ODD else GUIDE_PARITY_UNKNOWN)"

lemma OppositeSide_simps [simp]: "OppositeSide (OppositeSide p) = p"
  by (cases p) (simp_all add: OppositeSide_def)
lemma OppositeParity_simps [simp]: "OppositeParity (OppositeParity p) = p"
  by (cases p) (simp_all add: OppositeParity_def)
lemma pier_side_of_int [simp]: "pier_side_of (pier_side_int p) = p"
  by (cases p) (simp_all add: pier_side_of_def pier_side_int_def)
lemma guide_parity_of_int [simp]:
  "guide_parity_of (guide_parity_int p) = (if p = GUIDE_PARITY_UNCHANGED then GUIDE_PARITY_UNKNOWN else p)"
  by (cases p) (simp_all add: guide_parity_of_def guide_parity_int_def)

subsection \<open>The calibration\<close>

definition MountIsCalibrated :: "'a mount_scheme \<Rightarrow> bool" where
  "MountIsCalibrated m = (if m_connected m then m_calibrated m else False)"

definition mount_ClearCalibration :: "'a mount_scheme \<Rightarrow> 'a mount_scheme" where
  "mount_ClearCalibration m = m\<lparr>m_calibrated := False\<rparr>"

definition mount_yAngle :: "'a mount_scheme \<Rightarrow> real" where
  "mount_yAngle m = norm_angle (xAngle (m_cal m) - m_yAngleError m + pi / 2)"

definition RAParity :: "'a mount_scheme \<Rightarrow> guide_parity" where
  "RAParity m = (if m_calibrated m then raGuideParity (m_cal m) else GUIDE_PARITY_UNKNOWN)"

definition DecParity :: "'a mount_scheme \<Rightarrow> guide_parity" where
  "DecParity m = (if m_calibrated m then decGuideParity (m_cal m) else GUIDE_PARITY_UNKNOWN)"

definition stored_cal :: "calibration \<Rightarrow> calibration \<Rightarrow> calibration" where
  \<comment> \<open>\<open>m_cal\<close> after the assignments of \<open>SetCalibration\<close>\<close>
  "stored_cal old cal = old\<lparr>xRate := xRate cal, yRate := yRate cal, binning := binning cal,
     declination := declination cal, pierSide := pierSide cal,
     raGuideParity := (if raGuideParity cal \<noteq> GUIDE_PARITY_UNCHANGED then raGuideParity cal else raGuideParity old),
     decGuideParity := (if decGuideParity cal \<noteq> GUIDE_PARITY_UNCHANGED then decGuideParity cal else decGuideParity old),
     rotatorAngle := rotatorAngle cal, isValid := True, xAngle := xAngle cal, yAngle := yAngle cal\<rparr>"

definition mount_SetCalibration ::
    "string \<Rightarrow> string \<Rightarrow> calibration \<Rightarrow> 'a mount_scheme \<Rightarrow> 'a mount_scheme \<times> cfg_write list" where
  \<comment> \<open>\<open>cls\<close> is \<open>GetMountClassName()\<close>, \<open>stamp\<close> the formatted current time\<close>
  "mount_SetCalibration cls stamp cal m =
    (let c = stored_cal (m_cal m) cal;
         prefix = ''/'' @ cls @ ''/calibration/''
     in (m\<lparr>m_cal := c, m_xRate := xRate cal, m_yAngleError := norm_angle (xAngle cal - yAngle cal + pi / 2),
           m_calibrated := True\<rparr>,
         [SetString (prefix @ ''timestamp'') stamp,
          SetDouble (prefix @ ''xAngle'') (xAngle c),
          SetDouble (prefix @ ''yAngle'') (yAngle c),
          SetDouble (prefix @ ''xRate'') (xRate c),
          SetDouble (prefix @ ''yRate'') (yRate c),
          SetInt (prefix @ ''binning'') (uint (binning c)),
          SetDouble (prefix @ ''declination'') (declination c),
          SetInt (prefix @ ''pierSide'') (pier_side_int (pierSide c)),
          SetInt (prefix @ ''raGuideParity'') (guide_parity_int (raGuideParity c)),
          SetInt (prefix @ ''decGuideParity'') (guide_parity_int (decGuideParity c)),
          SetDouble (prefix @ ''rotatorAngle'') (rotatorAngle c)]))"

text \<open>The profile the writes go to, and reading it.\<close>

datatype cfg_val = CDouble real | CBool bool | CInt int | CString string

type_synonym profile = "string \<Rightarrow> cfg_val option"

primrec profile_set :: "(real \<Rightarrow> real) \<Rightarrow> profile \<Rightarrow> cfg_write \<Rightarrow> profile" where
  "profile_set rd p (SetDouble k v) = p(k \<mapsto> CDouble (rd v))"
| "profile_set rd p (SetBoolean k v) = p(k \<mapsto> CBool v)"
| "profile_set rd p (SetInt k v) = p(k \<mapsto> CInt v)"
| "profile_set rd p (SetString k v) = p(k \<mapsto> CString v)"

definition profile_store :: "(real \<Rightarrow> real) \<Rightarrow> cfg_write list \<Rightarrow> profile \<Rightarrow> profile" where
  "profile_store rd ws p = foldl (profile_set rd) p ws"

definition GetDouble :: "profile \<Rightarrow> string \<Rightarrow> real \<Rightarrow> real" where
  "GetDouble p k d = (case p k of Some (CDouble v) \<Rightarrow> v | _ \<Rightarrow> d)"
definition GetInt :: "profile \<Rightarrow> string \<Rightarrow> int \<Rightarrow> int" where
  "GetInt p k d = (case p k of Some (CInt v) \<Rightarrow> v | _ \<Rightarrow> d)"
definition GetBoolean :: "profile \<Rightarrow> string \<Rightarrow> bool \<Rightarrow> bool" where
  "GetBoolean p k d = (case p k of Some (CBool v) \<Rightarrow> v | _ \<Rightarrow> d)"
definition GetString :: "profile \<Rightarrow> string \<Rightarrow> string \<Rightarrow> string" where
  "GetString p k d = (case p k of Some (CString v) \<Rightarrow> v | _ \<Rightarrow> d)"

definition GetLastCalibration :: "string \<Rightarrow> profile \<Rightarrow> calibration \<Rightarrow> calibration" where
  "GetLastCalibration cls p cal =
    (let prefix = ''/'' @ cls @ ''/calibration/'';
         stamp = GetString p (prefix @ ''timestamp'') []
     in if stamp \<noteq> []
        then cal\<lparr>xRate := GetDouble p (prefix @ ''xRate'') 1,
                 yRate := GetDouble p (prefix @ ''yRate'') 1,
                 binning := word_of_int (GetInt p (prefix @ ''binning'') 1),
                 xAngle := GetDouble p (prefix @ ''xAngle'') 0,
                 yAngle := GetDouble p (prefix @ ''yAngle'') 0,
                 declination := GetDouble p (prefix @ ''declination'') 0,
                 pierSide := pier_side_of (GetInt p (prefix @ ''pierSide'') (pier_side_int PIER_SIDE_UNKNOWN)),
                 raGuideParity := guide_parity_of (GetInt p (prefix @ ''raGuideParity'') (guide_parity_int GUIDE_PARITY_UNKNOWN)),
                 decGuideParity := guide_parity_of (GetInt p (prefix @ ''decGuideParity'') (guide_parity_int GUIDE_PARITY_UNKNOWN)),
                 rotatorAngle := GetDouble p (prefix @ ''rotatorAngle'') POSITION_UNKNOWN,
                 timestamp := stamp, isValid := True\<rparr>
        else cal\<lparr>isValid := False\<rparr>)"

subsection \<open>Camera and mount coordinates\<close>

definition TransformCameraCoordinatesToMountCoordinates ::
    "'a mount_scheme \<Rightarrow> sodium_point \<Rightarrow> sodium_point \<Rightarrow> bool \<times> sodium_point" where
  \<comment> \<open>the error flag and the resulting mount vector\<close>
  "TransformCameraCoordinatesToMountCoordinates m cam mnt =
    (if \<not> m_valid cam then (True, Invalidate mnt)
     else let hyp = Distance0 cam;
              cameraTheta = Angle0 cam;
              xA = cameraTheta - xAngle (m_cal m);
              yA = cameraTheta - (xAngle (m_cal m) + m_yAngleError m)
          in (False, SetXY (cos xA * hyp) (sin yA * hyp) mnt))"

definition TransformMountCoordinatesToCameraCoordinates ::
    "'a mount_scheme \<Rightarrow> sodium_point \<Rightarrow> sodium_point \<Rightarrow> bool \<times> sodium_point" where
  "TransformMountCoordinatesToCameraCoordinates m mnt cam =
    (if \<not> m_valid mnt then (True, Invalidate cam)
     else let hyp = Distance0 mnt;
              mountTheta = Angle0 mnt;
              mountTheta = (if \<bar>m_yAngleError m\<bar> > pi / 2 then - mountTheta else mountTheta);
              xA = mountTheta + xAngle (m_cal m)
          in (False, SetXY (cos xA * hyp) (sin xA * hyp) cam))"

text \<open>The forward transform as a linear map of the camera vector.\<close>

lemma camera_to_mount:
  assumes "m_valid cam"
  shows "TransformCameraCoordinatesToMountCoordinates m cam mnt =
    (False, SetXY (X cam * cos (xAngle (m_cal m)) + Y cam * sin (xAngle (m_cal m)))
       (Y cam * cos (xAngle (m_cal m) + m_yAngleError m) - X cam * sin (xAngle (m_cal m) + m_yAngleError m)) mnt)"
proof -
  let ?x = "xAngle (m_cal m)" let ?y = "xAngle (m_cal m) + m_yAngleError m"
  have "cos (Angle0 cam - ?x) * Distance0 cam = X cam * cos ?x + Y cam * sin ?x"
    using polar [of cam] by (simp add: cos_diff algebra_simps flip: polar)
  moreover have "sin (Angle0 cam - ?y) * Distance0 cam = Y cam * cos ?y - X cam * sin ?y"
    by (simp add: sin_diff algebra_simps flip: polar)
  ultimately show ?thesis
    using assms by (simp add: TransformCameraCoordinatesToMountCoordinates_def Let_def)
qed

lemma mount_to_camera:
  assumes "m_valid mnt"
  shows "TransformMountCoordinatesToCameraCoordinates m mnt cam =
    (let s = (if \<bar>m_yAngleError m\<bar> > pi / 2 then - Y mnt else Y mnt)
     in (False, SetXY (X mnt * cos (xAngle (m_cal m)) - s * sin (xAngle (m_cal m)))
       (X mnt * sin (xAngle (m_cal m)) + s * cos (xAngle (m_cal m))) cam))"
  using assms
  by (simp add: TransformMountCoordinatesToCameraCoordinates_def Let_def cos_add sin_add cos_diff sin_diff
      algebra_simps flip: polar)


subsection \<open>The meridian flip\<close>

definition flipped_cal :: "bool \<Rightarrow> 'a mount_scheme \<Rightarrow> calibration" where
  "flipped_cal decFlipRequired m =
    (let origX = xAngle (m_cal m); origY = mount_yAngle m;
         newX = origX + pi;
         newY = (if decFlipRequired then origY + pi else origY);
         newDecParity = (if decFlipRequired then decGuideParity (m_cal m) else OppositeParity (decGuideParity (m_cal m)))
     in (m_cal m)\<lparr>xAngle := norm_angle newX, yAngle := norm_angle newY, pierSide := OppositeSide (pierSide (m_cal m)),
                  decGuideParity := newDecParity\<rparr>)"

definition FlipCalibration ::
    "(calibration \<Rightarrow> 'a mount_scheme \<Rightarrow> 'a mount_scheme \<times> cfg_write list) \<Rightarrow> ('a mount_scheme \<Rightarrow> bool) \<Rightarrow> bool \<Rightarrow>
     'a mount_scheme \<Rightarrow> bool \<times> 'a mount_scheme \<times> cfg_write list" where
  \<comment> \<open>the virtual \<open>SetCalibration\<close> and \<open>IsCalibrated\<close>, and \<open>CalibrationFlipRequiresDecFlip()\<close>\<close>
  "FlipCalibration setCal isCal decFlipRequired m =
    (if \<not> isCal m then (True, m, [])
     else case setCal (flipped_cal decFlipRequired m) m of (m, ws) \<Rightarrow> (False, m, ws))"

subsection \<open>Adjusting the calibration to where the scope points\<close>

record pointing_env =
  pe_declination :: real
  pe_pierSide :: pier_side
  pe_rotator :: real \<comment> \<open>degrees, or \<open>POSITION_UNKNOWN\<close>\<close>
  pe_binning :: "16 word" \<comment> \<open>\<open>pCamera->Binning\<close>\<close>
  pe_canReportPosition :: bool
  pe_guideRates :: "(real \<times> real) option" \<comment> \<open>\<^term>\<open>None\<close> when \<open>GetGuideRates\<close> fails\<close>
  pe_calRates :: "real \<times> real" \<comment> \<open>the RA and Dec guide speeds in the calibration details\<close>
  pe_cameraPixelSize :: real
  pe_profilePixelSize :: real
  pe_decCompEnabled :: bool

datatype adjust_event = AlertGuideSpeeds | AlertNoPierSide | AlertPixelSize | SetCameraPixelSize real
  | HandleImageScaleChange | AlertRotator | AlertTooFarFromEquator

definition DEC_COMP_LIMIT :: real where "DEC_COMP_LIMIT = pi / 2 * 2 / 3"

definition guide_speed_alert :: "pointing_env \<Rightarrow> adjust_event list" where
  "guide_speed_alert e =
    (if pe_canReportPosition e
     then case pe_calRates e of (calRA, calDec) \<Rightarrow>
       if calRA > 0 \<and> calDec > 0
       then case pe_guideRates e of None \<Rightarrow> []
            | Some (ra, dec) \<Rightarrow>
                if \<bar>1 - ra / calRA\<bar> > 0.05 \<or> \<bar>1 - dec / calDec\<bar> > 0.05 then [AlertGuideSpeeds] else []
       else []
     else [])"

definition pixel_scale :: "pointing_env \<Rightarrow> real \<times> adjust_event list" where
  "pixel_scale e =
    (if \<bar>pe_cameraPixelSize e - pe_profilePixelSize e\<bar> \<ge> 1
     then (pe_cameraPixelSize e / pe_profilePixelSize e, [AlertPixelSize, SetCameraPixelSize (pe_cameraPixelSize e)])
     else (1, []))"

definition rebinned_cal :: "16 word \<Rightarrow> calibration \<Rightarrow> calibration" where
  "rebinned_cal bin c =
    (let adj = of_nat (unat (binning c)) / of_nat (unat bin)
     in c\<lparr>xRate := xRate c * adj, yRate := yRate c * adj, binning := bin\<rparr>)"

definition bin_scale :: "16 word \<Rightarrow> calibration \<Rightarrow> real" where
  \<comment> \<open>the C expression \<open>binning / m_cal.binning\<close>: a division of integers\<close>
  "bin_scale bin c = of_nat (unat bin div unat (binning c))"

definition rotated_cal :: "real \<Rightarrow> calibration \<Rightarrow> calibration" where
  "rotated_cal newRotatorAngle c =
    (let da = radians (newRotatorAngle - rotatorAngle c)
     in c\<lparr>xAngle := norm_angle (xAngle c - da), yAngle := norm_angle (yAngle c - da), rotatorAngle := newRotatorAngle\<rparr>)"

definition dec_compensated :: "bool \<Rightarrow> real \<Rightarrow> 'a mount_scheme \<Rightarrow> 'a mount_scheme \<times> adjust_event list" where
  "dec_compensated decCompEnabled newDeclination m =
    (let (m, deccomp, ev) =
       (if newDeclination \<noteq> declination (m_cal m) \<and> newDeclination \<noteq> UNKNOWN_DECLINATION \<and>
           declination (m_cal m) \<noteq> UNKNOWN_DECLINATION
        then if \<bar>declination (m_cal m)\<bar> > DEC_COMP_LIMIT then (m, False, [AlertTooFarFromEquator])
             else if \<not> decCompEnabled then (m, False, [])
             else let d = max (radians (-89)) (min (radians 89) newDeclination)
                  in (m\<lparr>m_xRate := (xRate (m_cal m) / cos (declination (m_cal m))) * cos d\<rparr>, True, [])
        else (m, False, []))
     in if \<not> deccomp \<and> m_xRate m \<noteq> xRate (m_cal m) then (m\<lparr>m_xRate := xRate (m_cal m)\<rparr>, ev) else (m, ev))"

definition adjust_binning ::
    "(calibration \<Rightarrow> 'a mount_scheme \<Rightarrow> 'a mount_scheme \<times> cfg_write list) \<Rightarrow> 16 word \<Rightarrow> real \<Rightarrow> 'a mount_scheme \<Rightarrow>
     'a mount_scheme \<times> real \<times> cfg_write list" where
  "adjust_binning setCal bin scaleAdjustment m =
    (if bin \<noteq> binning (m_cal m) \<and> isValid (m_cal m)
     then case setCal (rebinned_cal bin (m_cal m)) m of
       (m', w) \<Rightarrow> (m', scaleAdjustment * bin_scale bin (m_cal m), w)
     else (m, scaleAdjustment, []))"

definition adjust_scale :: "('m \<Rightarrow> 'm) \<Rightarrow> real \<Rightarrow> 'm \<Rightarrow> 'm \<times> adjust_event list" where
  \<comment> \<open>\<open>imageScaleChange\<close>: what \<open>pFrame->HandleImageScaleChange()\<close> does to this mount\<close>
  "adjust_scale imageScaleChange scaleAdjustment m =
    (if \<bar>scaleAdjustment - 1\<bar> \<ge> 0.01 then (imageScaleChange m, [HandleImageScaleChange]) else (m, []))"

definition adjust_side ::
    "(calibration \<Rightarrow> 'a mount_scheme \<Rightarrow> 'a mount_scheme \<times> cfg_write list) \<Rightarrow> ('a mount_scheme \<Rightarrow> bool) \<Rightarrow> bool \<Rightarrow>
     pier_side \<Rightarrow> 'a mount_scheme \<Rightarrow> 'a mount_scheme \<times> cfg_write list" where
  "adjust_side setCal isCal decFlip newPierSide m =
    (if IsOppositeSide newPierSide (pierSide (m_cal m))
     then case FlipCalibration setCal isCal decFlip m of (err, m, w) \<Rightarrow> (m, w) else (m, []))"

definition adjust_rotator ::
    "(calibration \<Rightarrow> 'a mount_scheme \<Rightarrow> 'a mount_scheme \<times> cfg_write list) \<Rightarrow> real \<Rightarrow> 'a mount_scheme \<Rightarrow>
     'a mount_scheme \<times> cfg_write list \<times> adjust_event list" where
  "adjust_rotator setCal newRotatorAngle m =
    (if newRotatorAngle \<noteq> POSITION_UNKNOWN
     then if rotatorAngle (m_cal m) = POSITION_UNKNOWN
          then (m\<lparr>m_cal := (m_cal m)\<lparr>rotatorAngle := newRotatorAngle\<rparr>\<rparr>, [], [AlertRotator])
          else if \<bar>newRotatorAngle - rotatorAngle (m_cal m)\<bar> > 0.05
          then case setCal (rotated_cal newRotatorAngle (m_cal m)) m of (m, w) \<Rightarrow> (m, w, [])
          else (m, [], [])
     else (m, [], []))"

definition AdjustCalibrationForScopePointing ::
    "(calibration \<Rightarrow> 'a mount_scheme \<Rightarrow> 'a mount_scheme \<times> cfg_write list) \<Rightarrow> ('a mount_scheme \<Rightarrow> bool) \<Rightarrow> bool \<Rightarrow>
     ('a mount_scheme \<Rightarrow> 'a mount_scheme) \<Rightarrow> pointing_env \<Rightarrow> 'a mount_scheme \<Rightarrow>
     'a mount_scheme \<times> cfg_write list \<times> adjust_event list" where
  "AdjustCalibrationForScopePointing setCal isCal decFlip imageScaleChange e m =
    (let ev1 = guide_speed_alert e;
         ev2 = (if pe_pierSide e \<noteq> PIER_SIDE_UNKNOWN \<and> pierSide (m_cal m) = PIER_SIDE_UNKNOWN then [AlertNoPierSide] else []);
         (scaleAdjustment, ev3) = pixel_scale e;
         (m, scaleAdjustment, w1) = adjust_binning setCal (pe_binning e) scaleAdjustment m;
         (m, ev4) = adjust_scale imageScaleChange scaleAdjustment m;
         (m, w2) = adjust_side setCal isCal decFlip (pe_pierSide e) m;
         (m, w3, ev5) = adjust_rotator setCal (pe_rotator e) m;
         (m, ev6) = dec_compensated (pe_decCompEnabled e) (pe_declination e) m
     in (m, w1 @ w2 @ w3, ev1 @ ev2 @ ev3 @ ev4 @ ev5 @ ev6))"

subsection \<open>Moving by an offset\<close>

record guider_offset =
  cameraOfs :: sodium_point
  mountOfs :: sodium_point

record 'i guide_step_info =
  gs_moveOptions :: u32
  gs_env :: 'i \<comment> \<open>frame number, time, star and AO data copied from the frame\<close>
  gs_cameraOffset :: sodium_point
  gs_mountOffset :: sodium_point
  gs_guideDistanceRA :: real
  gs_guideDistanceDec :: real
  gs_durationRA :: int
  gs_directionRA :: guide_direction
  gs_durationDec :: int
  gs_directionDec :: guide_direction
  gs_raLimited :: bool
  gs_decLimited :: bool

definition algo_apply :: "('g \<Rightarrow> real \<Rightarrow> 'g \<times> real option) \<Rightarrow> 'g option \<Rightarrow> real \<Rightarrow> 'g option \<times> real option" where
  \<comment> \<open>\<open>result\<close> of a guide algorithm, when there is one; a \<^term>\<open>None\<close> value is a NaN or an infinity\<close>
  "algo_apply res a x = (case a of None \<Rightarrow> (None, Some x) | Some g \<Rightarrow> (case res g x of (g', r) \<Rightarrow> (Some g', r)))"

definition algo_deduce :: "('g \<Rightarrow> 'g \<times> real) \<Rightarrow> 'g option \<Rightarrow> 'g option \<times> real" where
  "algo_deduce ded a = (case a of None \<Rightarrow> (None, 0) | Some g \<Rightarrow> (case ded g of (g', r) \<Rightarrow> (Some g', r)))"

text \<open>The part of \<open>MoveOffset\<close> after the distances are known. \<^term>\<open>None\<close>: a rate is zero, so that the
  conversion of the infinite duration to an integer is undefined.\<close>

definition move_axes ::
    "(guide_direction \<Rightarrow> int \<Rightarrow> u32 \<Rightarrow> 'a mount_scheme \<Rightarrow> 'a mount_scheme \<times> move_result \<times> move_result_info) \<Rightarrow>
     (u32 \<Rightarrow> real \<Rightarrow> int \<Rightarrow> 'a mount_scheme \<Rightarrow> 'a mount_scheme \<times> int) \<Rightarrow> u32 \<Rightarrow> guider_offset \<Rightarrow> 'i \<Rightarrow>
     real \<Rightarrow> real \<Rightarrow> 'a mount_scheme \<Rightarrow> ('a mount_scheme \<times> 'i guide_step_info \<times> move_result) option" where
  "move_axes moveAxis applyBLC opts ofs info xDistance yDistance m =
    (let xDirection = (if xDistance > 0 then WEST else EAST);
         yDirection = (if yDistance > 0 then SOUTH else NORTH)
     in case fdiv xDistance (m_xRate m) of None \<Rightarrow> None | Some qx \<Rightarrow>
       (let (m, r, xMove) = moveAxis xDirection (ROUND \<bar>qx\<bar>) opts m;
            fin = (\<lambda>m yMove r. (m, \<lparr>gs_moveOptions = opts, gs_env = info, gs_cameraOffset = cameraOfs ofs,
                gs_mountOffset = mountOfs ofs, gs_guideDistanceRA = xDistance, gs_guideDistanceDec = yDistance,
                gs_durationRA = amountMoved xMove, gs_directionRA = xDirection,
                gs_durationDec = amountMoved yMove, gs_directionDec = yDirection,
                gs_raLimited = limited xMove, gs_decLimited = limited yMove\<rparr>, r))
        in if r \<noteq> MOVE_ERROR_SLEWING \<and> r \<noteq> MOVE_ERROR_AO_LIMIT_REACHED
           then case fdiv yDistance (yRate (m_cal m)) of None \<Rightarrow> None | Some qy \<Rightarrow>
             (let (m, amt) = applyBLC opts yDistance (ROUND \<bar>qy\<bar>) m;
                  (m, r, yMove) = moveAxis yDirection amt opts m
              in Some (fin m yMove r))
           else Some (fin m move_result_info0 r)))"

record ('m, 'g, 'i) move_state =
  ms_mount :: 'm
  ms_xAlgo :: "'g option"
  ms_yAlgo :: "'g option"
  ms_lastStep :: "'i guide_step_info option" \<comment> \<open>\<^term>\<open>None\<close>: invalidated\<close>

definition MoveOffset ::
    "(guide_direction \<Rightarrow> int \<Rightarrow> u32 \<Rightarrow> 'a mount_scheme \<Rightarrow> 'a mount_scheme \<times> move_result \<times> move_result_info) \<Rightarrow>
     (u32 \<Rightarrow> real \<Rightarrow> int \<Rightarrow> 'a mount_scheme \<Rightarrow> 'a mount_scheme \<times> int) \<Rightarrow>
     (u32 \<Rightarrow> real \<Rightarrow> 'a mount_scheme \<Rightarrow> 'a mount_scheme option) \<Rightarrow>
     ('g \<Rightarrow> real \<Rightarrow> 'g \<times> real option) \<Rightarrow> ('g \<Rightarrow> 'g \<times> real) \<Rightarrow> 'i \<Rightarrow>
     guider_offset \<Rightarrow> u32 \<Rightarrow> ('a mount_scheme, 'g, 'i) move_state \<Rightarrow>
     (('a mount_scheme, 'g, 'i) move_state \<times> guider_offset \<times> move_result) option" where
  "MoveOffset moveAxis applyBLC trackBLC res ded info ofs opts s =
    (let fin = (\<lambda>s ofs xd yd. case move_axes moveAxis applyBLC opts ofs info xd yd (ms_mount s) of
          None \<Rightarrow> None | Some (m, step, r) \<Rightarrow> Some (s\<lparr>ms_mount := m, ms_lastStep := Some step\<rparr>, ofs, r))
     in if opts AND MOVEOPT_ALGO_DEDUCE \<noteq> 0
        then let (xa, xd) = algo_deduce ded (ms_xAlgo s); (ya, yd) = algo_deduce ded (ms_yAlgo s);
                 s = s\<lparr>ms_xAlgo := xa, ms_yAlgo := ya\<rparr>
             in if xd = 0 \<and> yd = 0 then Some (s, ofs, MOVE_OK)
                else fin s (ofs\<lparr>mountOfs := SetXY xd yd (mountOfs ofs)\<rparr>) xd yd
        else let (err, ofs) = (if \<not> m_valid (mountOfs ofs)
                   then case TransformCameraCoordinatesToMountCoordinates (ms_mount s) (cameraOfs ofs) (mountOfs ofs) of
                     (err, p) \<Rightarrow> (err, ofs\<lparr>mountOfs := p\<rparr>)
                   else (False, ofs))
             in if err then Some (s, ofs, MOVE_ERROR)
                else case trackBLC opts (Y (mountOfs ofs)) (ms_mount s) of None \<Rightarrow> None | Some m \<Rightarrow>
                     let s = s\<lparr>ms_mount := m\<rparr>
                     in if opts AND MOVEOPT_ALGO_RESULT \<noteq> 0
                        then case algo_apply res (ms_xAlgo s) (X (mountOfs ofs)) of (xa, xo) \<Rightarrow>
                             case algo_apply res (ms_yAlgo s) (Y (mountOfs ofs)) of (ya, yo) \<Rightarrow>
                             case (xo, yo) of
                               (Some xd, Some yd) \<Rightarrow> fin (s\<lparr>ms_xAlgo := xa, ms_yAlgo := ya\<rparr>) ofs xd yd
                             | _ \<Rightarrow> None
                        else fin s ofs (X (mountOfs ofs)) (Y (mountOfs ofs)))"


subsection \<open>Lemmas on the transforms\<close>

lemma stored_cal_fields [simp]:
  "xRate (stored_cal old cal) = xRate cal" "yRate (stored_cal old cal) = yRate cal"
  "xAngle (stored_cal old cal) = xAngle cal" "yAngle (stored_cal old cal) = yAngle cal"
  "binning (stored_cal old cal) = binning cal" "declination (stored_cal old cal) = declination cal"
  "pierSide (stored_cal old cal) = pierSide cal" "rotatorAngle (stored_cal old cal) = rotatorAngle cal"
  "isValid (stored_cal old cal)"
  by (simp_all add: stored_cal_def)

lemma mount_SetCalibration_fields [simp]:
  "m_cal (fst (mount_SetCalibration cls stamp cal m)) = stored_cal (m_cal m) cal"
  "m_xRate (fst (mount_SetCalibration cls stamp cal m)) = xRate cal"
  "m_yAngleError (fst (mount_SetCalibration cls stamp cal m)) = norm_angle (xAngle cal - yAngle cal + pi / 2)"
  "m_calibrated (fst (mount_SetCalibration cls stamp cal m))"
  "m_connected (fst (mount_SetCalibration cls stamp cal m)) = m_connected m"
  by (simp_all add: mount_SetCalibration_def Let_def)

lemma sin_zero_small:
  assumes "sin e = 0" "- pi \<le> e" "e < pi"
  shows "e = 0 \<or> e = - pi"
proof -
  obtain i :: int where i: "e = of_int i * pi" using assms(1) sin_zero_iff_int2 by blast
  have "of_int i * pi < 1 * pi" "(-1) * pi \<le> of_int i * pi" using assms(2,3) i by simp_all
  then have "(of_int i :: real) < 1" "- 1 \<le> (of_int i :: real)"
    using pi_gt_zero by (simp_all only: mult_less_cancel_right_pos mult_le_cancel_right_pos)
  then have "i = 0 \<or> i = -1" by linarith
  then show ?thesis using i by auto
qed

text \<open>Perpendicular axes: the orthogonality error is then 0 or half a turn.\<close>

lemma yAngleError_perpendicular:
  assumes "cos (xAngle cal - yAngle cal) = 0"
  shows "norm_angle (xAngle cal - yAngle cal + pi / 2) = 0 \<or> norm_angle (xAngle cal - yAngle cal + pi / 2) = - pi"
  using assms norm_angle_range [of "xAngle cal - yAngle cal + pi / 2"]
  by (intro sin_zero_small) (simp_all add: sin_add)

lemma rotation_back:
  fixes c s x y :: real
  assumes "s\<^sup>2 + c\<^sup>2 = 1"
  shows "(x * c + y * s) * c - (y * c - x * s) * s = x" "(x * c + y * s) * s + (y * c - x * s) * c = y"
proof -
  have "(x * c + y * s) * c - (y * c - x * s) * s = x * (s\<^sup>2 + c\<^sup>2)"
    by (simp add: power2_eq_square algebra_simps)
  then show "(x * c + y * s) * c - (y * c - x * s) * s = x" using assms by simp
  have "(x * c + y * s) * s + (y * c - x * s) * c = y * (s\<^sup>2 + c\<^sup>2)"
    by (simp add: power2_eq_square algebra_simps)
  then show "(x * c + y * s) * s + (y * c - x * s) * c = y" using assms by simp
qed

lemma rotation_length:
  fixes c s x y :: real
  assumes "s\<^sup>2 + c\<^sup>2 = 1"
  shows "hypot (x * c + y * s) (y * c - x * s) = hypot x y"
proof -
  have "(x * c + y * s)\<^sup>2 + (y * c - x * s)\<^sup>2 = (x\<^sup>2 + y\<^sup>2) * (s\<^sup>2 + c\<^sup>2)"
    by (simp add: power2_eq_square algebra_simps)
  then show ?thesis using assms by (simp add: hypot_def)
qed

subsection \<open>Properties of the calibration\<close>

text \<open>C12: With perpendicular axes, whatever their orientation and handedness, the transform of a camera
  vector to mount coordinates keeps its length, and the reverse transform gives the vector back
  exactly.\<close>
theorem transform_roundtrip:
  assumes "m = fst (mount_SetCalibration cls stamp cal m0)" and "cos (xAngle cal - yAngle cal) = 0"
    and "m_valid cam"
  shows "case TransformCameraCoordinatesToMountCoordinates m cam p of (err, mnt) \<Rightarrow>
    \<not> err \<and> Distance0 mnt = Distance0 cam \<and>
    (case TransformMountCoordinatesToCameraCoordinates m mnt q of (err', cam') \<Rightarrow>
       \<not> err' \<and> X cam' = X cam \<and> Y cam' = Y cam)"
proof -
  let ?x = "xAngle (m_cal m)"
  have e: "m_yAngleError m = 0 \<or> m_yAngleError m = - pi"
    using yAngleError_perpendicular [OF assms(2)] assms(1) by simp
  have sc: "(sin ?x)\<^sup>2 + (cos ?x)\<^sup>2 = 1" by simp
  note bk = rotation_back [OF sc] and len = rotation_length [OF sc]
  from e show ?thesis
  proof
    assume e: "m_yAngleError m = 0"
    then show ?thesis
      using assms(3) bk [of "X cam" "Y cam"] len [of "X cam" "Y cam"]
      by (simp add: camera_to_mount mount_to_camera Distance0_def Let_def)
  next
    assume e: "m_yAngleError m = - pi"
    have "- (Y cam * cos (?x - pi) - X cam * sin (?x - pi)) = Y cam * cos ?x - X cam * sin ?x"
      by (simp add: cos_diff sin_diff)
    then show ?thesis
      using assms(3) e bk [of "X cam" "Y cam"] len [of "X cam" "Y cam"]
        hypot_minus(1) [of "X cam * cos ?x + Y cam * sin ?x" "Y cam * cos (?x - pi) - X cam * sin (?x - pi)"]
      by (simp add: camera_to_mount mount_to_camera Distance0_def Let_def)
  qed
qed

definition sample_cal :: calibration where
  "sample_cal = \<lparr>xRate = 1/100, yRate = 1/100, xAngle = 1, yAngle = 1 - pi / 2, declination = 0, rotatorAngle = 0,
     binning = 1, pierSide = PIER_SIDE_EAST, raGuideParity = GUIDE_PARITY_EVEN, decGuideParity = GUIDE_PARITY_EVEN,
     isValid = True, timestamp = []\<rparr>"

definition sample_mount :: mount where
  "sample_mount = \<lparr>m_connected = True, m_requestCount = 0, m_errorCount = 0, m_calibrated = True, m_cal = sample_cal,
     m_xRate = 1/100, m_yAngleError = norm_angle (xAngle sample_cal - yAngle sample_cal + pi / 2), m_guidingEnabled = True, m_backlashComp = None\<rparr>"

theorem transform_roundtrip_witness:
  "\<not> fst (TransformCameraCoordinatesToMountCoordinates (fst (mount_SetCalibration ''scope'' ''now'' sample_cal sample_mount))
      (SodiumPoint 3 4) (SodiumPoint 0 0)) \<and>
   Distance0 (snd (TransformCameraCoordinatesToMountCoordinates (fst (mount_SetCalibration ''scope'' ''now'' sample_cal sample_mount))
      (SodiumPoint 3 4) (SodiumPoint 0 0))) = 5"
  using transform_roundtrip [of _ "''scope''" "''now''" sample_cal sample_mount "SodiumPoint 3 4" "SodiumPoint 0 0" "SodiumPoint 0 0", OF refl]
  by (auto simp: sample_cal_def Distance0_def hypot_def split: prod.splits)

lemma sincos_norm_add [simp]:
  "sin (norm_angle a + norm_angle b) = sin (a + b)" "cos (norm_angle a + norm_angle b) = cos (a + b)"
  "sin (a + norm_angle b) = sin (a + b)" "cos (a + norm_angle b) = cos (a + b)"
  "sin (norm_angle a + b) = sin (a + b)" "cos (norm_angle a + b) = cos (a + b)"
  by (simp_all add: sin_add cos_add)

text \<open>What a flip does to the two angles the forward transform uses.\<close>

lemma flip_angles:
  assumes "MountIsCalibrated m"
    and "FlipCalibration (mount_SetCalibration cls stamp) MountIsCalibrated decFlip m = (err, m1, ws)"
  shows "\<not> err" "MountIsCalibrated m1"
    "sin (xAngle (m_cal m1)) = - sin (xAngle (m_cal m))" "cos (xAngle (m_cal m1)) = - cos (xAngle (m_cal m))"
    "sin (xAngle (m_cal m1) + m_yAngleError m1) =
       (if decFlip then - sin (xAngle (m_cal m) + m_yAngleError m) else sin (xAngle (m_cal m) + m_yAngleError m))"
    "cos (xAngle (m_cal m1) + m_yAngleError m1) =
       (if decFlip then - cos (xAngle (m_cal m) + m_yAngleError m) else cos (xAngle (m_cal m) + m_yAngleError m))"
    "m_cal m1 = stored_cal (m_cal m) (flipped_cal decFlip m)"
proof -
  have m1: "m1 = fst (mount_SetCalibration cls stamp (flipped_cal decFlip m) m)" and e: "\<not> err"
    using assms by (auto simp: FlipCalibration_def split: prod.splits)
  let ?x = "xAngle (m_cal m)" let ?e = "m_yAngleError m"
  have a: "xAngle (flipped_cal decFlip m) = norm_angle (?x + pi)"
    by (simp add: flipped_cal_def Let_def)
  have d: "xAngle (flipped_cal decFlip m) - yAngle (flipped_cal decFlip m) + pi / 2 =
      norm_angle (?x + pi) - norm_angle ((if decFlip then norm_angle (?x - ?e + pi / 2) + pi else norm_angle (?x - ?e + pi / 2))) + pi / 2"
    by (simp add: flipped_cal_def mount_yAngle_def Let_def)
  have ey: "m_yAngleError m1 = norm_angle (if decFlip then ?e else ?e + pi)"
  proof -
    have "norm_angle (norm_angle a - norm_angle b + c) = norm_angle (a - b + c)" for a b c
    proof -
      have "norm_angle (norm_angle a - norm_angle b + c) = norm_angle ((norm_angle a + c) - norm_angle b)"
        by (simp add: algebra_simps)
      also have "\<dots> = norm_angle (norm_angle a + (c - b))" by (simp add: add_diff_eq)
      also have "\<dots> = norm_angle (a - b + c)" by (simp only: norm_angle_add_norm) (simp add: algebra_simps)
      finally show ?thesis .
    qed
    note n = this
    have n2: "norm_angle (a + (b - norm_angle c)) = norm_angle (a + (b - c))" for a b c
      using norm_angle_diff_norm [of "a + b" c] by (simp only: add_diff_eq)
    show ?thesis by (simp add: m1 d n n2) (simp add: algebra_simps)
  qed
  show "\<not> err" by (rule e)
  show "MountIsCalibrated m1" using assms(1) by (simp add: MountIsCalibrated_def m1 split: if_splits)
  show "sin (xAngle (m_cal m1)) = - sin ?x" "cos (xAngle (m_cal m1)) = - cos ?x"
    by (simp_all add: m1 a)
  have x1: "xAngle (m_cal m1) = norm_angle (?x + pi)" by (simp add: m1 a)
  show "sin (xAngle (m_cal m1) + m_yAngleError m1) = (if decFlip then - sin (?x + ?e) else sin (?x + ?e))"
    "cos (xAngle (m_cal m1) + m_yAngleError m1) = (if decFlip then - cos (?x + ?e) else cos (?x + ?e))"
    by (simp_all add: x1 ey sin_add cos_add algebra_simps)
  show "m_cal m1 = stored_cal (m_cal m) (flipped_cal decFlip m)" by (simp add: m1)
qed

text \<open>C13: A meridian flip of the calibration turns the RA correction around and leaves the Dec correction as it
  is, or turns it around too exactly when the mount asks for it; it changes the pier side, keeps the
  rates, and flipping twice gives back the transform, the pier side and the parities.\<close>
theorem flip_calibration_correct:
  assumes "MountIsCalibrated m" and "m_valid cam" and "raGuideParity (m_cal m) \<noteq> GUIDE_PARITY_UNCHANGED"
    and "decGuideParity (m_cal m) \<noteq> GUIDE_PARITY_UNCHANGED"
    and "FlipCalibration (mount_SetCalibration cls stamp) MountIsCalibrated decFlip m = (err, m1, ws)"
    and "FlipCalibration (mount_SetCalibration cls stamp) MountIsCalibrated decFlip m1 = (err2, m2, ws2)"
  shows "\<not> err \<and> \<not> err2 \<and>
    (let p = snd (TransformCameraCoordinatesToMountCoordinates m cam q);
         p1 = snd (TransformCameraCoordinatesToMountCoordinates m1 cam q);
         p2 = snd (TransformCameraCoordinatesToMountCoordinates m2 cam q)
     in X p1 = - X p \<and> Y p1 = (if decFlip then - Y p else Y p) \<and> X p2 = X p \<and> Y p2 = Y p) \<and>
    pierSide (m_cal m1) = OppositeSide (pierSide (m_cal m)) \<and> pierSide (m_cal m2) = pierSide (m_cal m) \<and>
    decGuideParity (m_cal m2) = decGuideParity (m_cal m) \<and> raGuideParity (m_cal m1) = raGuideParity (m_cal m) \<and>
    xRate (m_cal m1) = xRate (m_cal m) \<and> yRate (m_cal m1) = yRate (m_cal m)"
proof -
  note f1 = flip_angles [OF assms(1,5)]
  note f2 = flip_angles [OF f1(2) assms(6)]
  have t: "X (snd (TransformCameraCoordinatesToMountCoordinates m1 cam q)) =
      - X (snd (TransformCameraCoordinatesToMountCoordinates m cam q))"
    "Y (snd (TransformCameraCoordinatesToMountCoordinates m1 cam q)) =
      (if decFlip then - Y (snd (TransformCameraCoordinatesToMountCoordinates m cam q))
       else Y (snd (TransformCameraCoordinatesToMountCoordinates m cam q)))"
    "X (snd (TransformCameraCoordinatesToMountCoordinates m2 cam q)) =
      X (snd (TransformCameraCoordinatesToMountCoordinates m cam q))"
    "Y (snd (TransformCameraCoordinatesToMountCoordinates m2 cam q)) =
      Y (snd (TransformCameraCoordinatesToMountCoordinates m cam q))"
    by (simp_all add: camera_to_mount [OF assms(2)] f1(3-6) f2(3-6))
  show ?thesis
    using f1(1,7) f2(1,7) assms(3,4) t
    by (cases decFlip; cases "decGuideParity (m_cal m)")
      (simp_all add: flipped_cal_def stored_cal_def Let_def OppositeParity_def)
qed

theorem flip_calibration_correct_witness:
  "X (snd (TransformCameraCoordinatesToMountCoordinates
      (fst (snd (FlipCalibration (mount_SetCalibration ''scope'' ''now'') MountIsCalibrated False sample_mount)))
      (SodiumPoint 3 4) (SodiumPoint 0 0))) =
   - X (snd (TransformCameraCoordinatesToMountCoordinates sample_mount (SodiumPoint 3 4) (SodiumPoint 0 0)))"
proof -
  obtain err m1 ws where 1: "FlipCalibration (mount_SetCalibration ''scope'' ''now'') MountIsCalibrated False sample_mount
      = (err, m1, ws)" by (metis prod_cases3)
  obtain err2 m2 ws2 where 2: "FlipCalibration (mount_SetCalibration ''scope'' ''now'') MountIsCalibrated False m1
      = (err2, m2, ws2)" by (metis prod_cases3)
  have "MountIsCalibrated sample_mount" "raGuideParity (m_cal sample_mount) \<noteq> GUIDE_PARITY_UNCHANGED"
    "decGuideParity (m_cal sample_mount) \<noteq> GUIDE_PARITY_UNCHANGED"
    by (simp_all add: sample_mount_def sample_cal_def MountIsCalibrated_def)
  from flip_calibration_correct [OF this(1) _ this(2,3) 1 2, of "SodiumPoint 3 4" "SodiumPoint 0 0"]
  show ?thesis by (simp add: 1 Let_def)
qed


text \<open>C14: A stored calibration is read back: after \<open>SetCalibration\<close> the profile holds every value of the new
  calibration (a double as the configuration library rounds it), under the mount's own keys, and
  \<open>GetLastCalibration\<close> returns them, whatever the profile held before.\<close>
theorem calibration_persisted:
  assumes "mount_SetCalibration cls stamp cal m = (m', ws)" and "stamp \<noteq> []"
    and "raGuideParity (m_cal m') \<noteq> GUIDE_PARITY_UNCHANGED" "decGuideParity (m_cal m') \<noteq> GUIDE_PARITY_UNCHANGED"
  shows "GetLastCalibration cls (profile_store rd ws p) c =
    \<lparr>xRate = rd (xRate cal), yRate = rd (yRate cal), xAngle = rd (xAngle cal), yAngle = rd (yAngle cal),
     declination = rd (declination cal), rotatorAngle = rd (rotatorAngle cal), binning = binning cal,
     pierSide = pierSide cal, raGuideParity = raGuideParity (m_cal m'), decGuideParity = decGuideParity (m_cal m'),
     isValid = True, timestamp = stamp\<rparr>"
proof -
  let ?c = "stored_cal (m_cal m) cal"
  have m: "m_cal m' = ?c" using assms(1) by (auto simp: mount_SetCalibration_def Let_def)
  let ?p = "''/'' @ cls @ ''/calibration/''"
  let ?q = "profile_store rd ws p"
  have q: "?q (?p @ ''timestamp'') = Some (CString stamp)" "?q (?p @ ''xAngle'') = Some (CDouble (rd (xAngle ?c)))"
    "?q (?p @ ''yAngle'') = Some (CDouble (rd (yAngle ?c)))" "?q (?p @ ''xRate'') = Some (CDouble (rd (xRate ?c)))"
    "?q (?p @ ''yRate'') = Some (CDouble (rd (yRate ?c)))" "?q (?p @ ''binning'') = Some (CInt (uint (binning ?c)))"
    "?q (?p @ ''declination'') = Some (CDouble (rd (declination ?c)))"
    "?q (?p @ ''pierSide'') = Some (CInt (pier_side_int (pierSide ?c)))"
    "?q (?p @ ''raGuideParity'') = Some (CInt (guide_parity_int (raGuideParity ?c)))"
    "?q (?p @ ''decGuideParity'') = Some (CInt (guide_parity_int (decGuideParity ?c)))"
    "?q (?p @ ''rotatorAngle'') = Some (CDouble (rd (rotatorAngle ?c)))"
    using assms(1) by (auto simp: mount_SetCalibration_def profile_store_def Let_def)
  show ?thesis
    using assms(2-4) q unfolding m
    by (cases c) (simp add: GetLastCalibration_def Let_def GetString_def GetDouble_def GetInt_def)
qed

theorem calibration_persisted_witness:
  "xRate (GetLastCalibration ''scope'' (profile_store id (snd (mount_SetCalibration ''scope'' ''now'' sample_cal sample_mount))
     (\<lambda>_. None)) sample_cal) = 1/100"
proof -
  obtain m' ws where 1: "mount_SetCalibration ''scope'' ''now'' sample_cal sample_mount = (m', ws)" by fastforce
  have "m_cal m' = stored_cal (m_cal sample_mount) sample_cal" using mount_SetCalibration_fields(1) 1 by (metis fst_conv)
  then have "raGuideParity (m_cal m') = GUIDE_PARITY_EVEN" "decGuideParity (m_cal m') = GUIDE_PARITY_EVEN"
    by (simp_all add: stored_cal_def sample_cal_def)
  then show ?thesis using calibration_persisted [OF 1, of id "\<lambda>_. None" sample_cal]
    by (simp add: 1) (simp add: sample_cal_def)
qed

subsection \<open>Properties of the adjustment\<close>

lemma cos_DEC_COMP_LIMIT: "\<bar>d\<bar> \<le> DEC_COMP_LIMIT \<Longrightarrow> cos d \<ge> 1 / 2"
proof -
  assume a: "\<bar>d\<bar> \<le> DEC_COMP_LIMIT"
  have "cos (pi / 3) \<le> cos \<bar>d\<bar>"
    using a pi_gt_zero by (intro cos_monotone_0_pi_le) (auto simp: DEC_COMP_LIMIT_def)
  then show ?thesis by (simp add: cos_60)
qed

lemma cos_89: "0 < cos (max (radians (-89)) (min (radians 89) d))"
proof (rule cos_gt_zero_pi)
  have "radians (-89) = - (89 * pi / 180)" "radians 89 = 89 * pi / 180" by (simp_all add: radians_def)
  then show "- (pi / 2) < max (radians (-89)) (min (radians 89) d)" "max (radians (-89)) (min (radians 89) d) < pi / 2"
    using pi_gt_zero by linarith+
qed

lemma dec_compensated_rate:
  assumes "dec_compensated b d m = (m', ev)" "0 < xRate (m_cal m)"
  shows "m_cal m' = m_cal m" "0 < m_xRate m'" "m_xRate m' \<le> 2 * xRate (m_cal m)"
proof -
  have k: "0 < r / cos d0 * cos c \<and> r / cos d0 * cos c \<le> 2 * r"
    if "0 < r" "\<bar>d0\<bar> \<le> DEC_COMP_LIMIT" "0 < cos c" for r d0 c :: real
  proof -
    have c: "1 / 2 \<le> cos d0" by (rule cos_DEC_COMP_LIMIT [OF that(2)])
    have "r / cos d0 * cos c \<le> r / cos d0 * 1"
      using that(1) c by (intro mult_left_mono) auto
    also have "\<dots> \<le> r / (1 / 2)" using that(1) c by (simp only: mult_1_right) (intro divide_left_mono; simp)
    finally show ?thesis using that c by simp
  qed
  show "m_cal m' = m_cal m" "0 < m_xRate m'" "m_xRate m' \<le> 2 * xRate (m_cal m)"
    using assms k [of "xRate (m_cal m)" "declination (m_cal m)" "max (radians (-89)) (min (radians 89) d)"] cos_89 [of d]
    by (auto simp: dec_compensated_def Let_def split: if_splits)
qed

lemma rotated_cal_transform:
  assumes "m' = fst (mount_SetCalibration cls stamp (rotated_cal r (m_cal m)) m)"
    and "m_yAngleError m = norm_angle (xAngle (m_cal m) - yAngle (m_cal m) + pi / 2)"
  shows "m_yAngleError m' = m_yAngleError m" "cos (xAngle (m_cal m')) = cos (xAngle (m_cal m) - radians (r - rotatorAngle (m_cal m)))"
    "sin (xAngle (m_cal m')) = sin (xAngle (m_cal m) - radians (r - rotatorAngle (m_cal m)))"
    "rotatorAngle (m_cal m') = r"
proof -
  let ?x = "xAngle (m_cal m)" let ?y = "yAngle (m_cal m)" let ?d = "radians (r - rotatorAngle (m_cal m))"
  have "norm_angle (norm_angle (?x - ?d) - norm_angle (?y - ?d) + pi / 2) =
      norm_angle ((norm_angle (?x - ?d) + pi / 2) - norm_angle (?y - ?d))" by (simp add: algebra_simps)
  also have "\<dots> = norm_angle (norm_angle (?x - ?d) + (pi / 2 - (?y - ?d)))"
    by (simp only: norm_angle_diff_norm) (simp add: algebra_simps)
  also have "\<dots> = norm_angle (?x - ?y + pi / 2)"
    by (simp only: norm_angle_add_norm) (simp add: algebra_simps)
  finally show "m_yAngleError m' = m_yAngleError m"
    using assms by (simp add: rotated_cal_def Let_def)
  show "cos (xAngle (m_cal m')) = cos (?x - ?d)" "sin (xAngle (m_cal m')) = sin (?x - ?d)" "rotatorAngle (m_cal m') = r"
    using assms(1) by (simp_all add: rotated_cal_def Let_def)
qed


text \<open>One step of the adjustment at a time. Each keeps \<open>good_cal\<close>: the RA rate is positive and the binning
  not zero.\<close>

definition good_cal :: "'a mount_scheme \<Rightarrow> bool" where
  "good_cal m \<longleftrightarrow> 0 < xRate (m_cal m) \<and> binning (m_cal m) \<noteq> 0"

lemma word_real_pos: "0 < (of_nat (unat w) :: real) \<longleftrightarrow> w \<noteq> (0 :: 16 word)"
  by (simp only: of_nat_0_less_iff unat_gt_0)

lemma rebinned_good:
  assumes "good_cal m" "bin \<noteq> 0"
  shows "good_cal (fst (mount_SetCalibration cls stamp (rebinned_cal bin (m_cal m)) m))"
proof -
  have "0 < xRate (m_cal m) * ((of_nat (unat (binning (m_cal m))) :: real) / of_nat (unat bin))"
    using assms by (intro mult_pos_pos divide_pos_pos) (simp_all only: good_cal_def word_real_pos not_False_eq_True)
  then show ?thesis using assms(2) by (simp add: good_cal_def rebinned_cal_def Let_def)
qed

lemma FlipCalibration_good:
  assumes "FlipCalibration (mount_SetCalibration cls stamp) isCal decFlip m = (err, m', ws)"
  shows "good_cal m' = good_cal m" "rotatorAngle (m_cal m') = rotatorAngle (m_cal m)"
    "pierSide (m_cal m') = (if isCal m then OppositeSide (pierSide (m_cal m)) else pierSide (m_cal m))"
  using assms
  by (auto simp: FlipCalibration_def good_cal_def flipped_cal_def mount_SetCalibration_def Let_def split: if_splits)

lemma rotated_good:
  "good_cal (fst (mount_SetCalibration cls stamp (rotated_cal r (m_cal m)) m)) = good_cal m"
  "pierSide (m_cal (fst (mount_SetCalibration cls stamp (rotated_cal r (m_cal m)) m))) = pierSide (m_cal m)"
  by (simp_all add: good_cal_def rotated_cal_def Let_def)

lemma adjust_binning_good:
  assumes "adjust_binning (mount_SetCalibration cls stamp) bin sc m = (m', sc', w)" "good_cal m" "bin \<noteq> 0"
  shows "good_cal m'" "pierSide (m_cal m') = pierSide (m_cal m)" "MountIsCalibrated m \<Longrightarrow> MountIsCalibrated m'"
  using assms rebinned_good [OF assms(2,3), of cls stamp]
  by (auto simp: adjust_binning_def MountIsCalibrated_def rebinned_cal_def Let_def mount_SetCalibration_def split: if_splits prod.splits)

lemma adjust_side_good:
  assumes "adjust_side (mount_SetCalibration cls stamp) isCal decFlip side m = (m', w)"
  shows "good_cal m' = good_cal m"
    "side = PIER_SIDE_UNKNOWN \<or> pierSide (m_cal m) = PIER_SIDE_UNKNOWN \<Longrightarrow> pierSide (m_cal m') = pierSide (m_cal m)"
    "isCal m \<Longrightarrow> side \<noteq> PIER_SIDE_UNKNOWN \<Longrightarrow> pierSide (m_cal m) \<noteq> PIER_SIDE_UNKNOWN \<Longrightarrow> pierSide (m_cal m') = side"
proof -
  note f = FlipCalibration_good [of cls stamp isCal decFlip m]
  show "good_cal m' = good_cal m"
    using assms f(1) by (auto simp: adjust_side_def split: if_splits prod.splits)
  show "pierSide (m_cal m') = pierSide (m_cal m)" if "side = PIER_SIDE_UNKNOWN \<or> pierSide (m_cal m) = PIER_SIDE_UNKNOWN"
    using assms that by (auto simp: adjust_side_def IsOppositeSide_def)
  assume "isCal m" "side \<noteq> PIER_SIDE_UNKNOWN" "pierSide (m_cal m) \<noteq> PIER_SIDE_UNKNOWN"
  then show "pierSide (m_cal m') = side"
    using assms f(3)
    by (cases side; cases "pierSide (m_cal m)")
      (auto simp: adjust_side_def IsOppositeSide_def OppositeSide_def split: prod.splits)
qed

lemma adjust_rotator_good:
  assumes "adjust_rotator (mount_SetCalibration cls stamp) r m = (m', w, ev)"
  shows "good_cal m' = good_cal m" "pierSide (m_cal m') = pierSide (m_cal m)"
    "r \<noteq> POSITION_UNKNOWN \<Longrightarrow> \<bar>r - rotatorAngle (m_cal m')\<bar> \<le> 0.05"
  using assms
  by (auto simp: adjust_rotator_def good_cal_def rotated_cal_def mount_SetCalibration_def Let_def split: if_splits)

text \<open>Only a change of the scale is announced as one.\<close>

lemma pixel_scale_quiet: "pixel_scale e = (sc, ev) \<Longrightarrow> HandleImageScaleChange \<notin> set ev"
  by (auto simp: pixel_scale_def split: if_splits)

lemma adjust_rotator_quiet: "adjust_rotator setCal r m = (m', w, ev) \<Longrightarrow> HandleImageScaleChange \<notin> set ev"
  by (auto simp: adjust_rotator_def split: if_splits prod.splits)

lemma dec_compensated_quiet: "dec_compensated c d m = (m', ev) \<Longrightarrow> HandleImageScaleChange \<notin> set ev"
  by (auto simp: dec_compensated_def Let_def split: if_splits)

lemma guide_speed_quiet: "HandleImageScaleChange \<notin> set (guide_speed_alert e)"
  by (simp only: guide_speed_alert_def list.set insert_iff empty_iff adjust_event.distinct simp_thms
      split: if_split prod.split option.split)

definition scale_changed :: "pointing_env \<Rightarrow> 'a mount_scheme \<Rightarrow> bool" where
  \<comment> \<open>by a hundredth or more, as the code computes the ratios of the pixel sizes and of the binnings\<close>
  "scale_changed e m \<longleftrightarrow>
    \<bar>(if \<bar>pe_cameraPixelSize e - pe_profilePixelSize e\<bar> \<ge> 1 then pe_cameraPixelSize e / pe_profilePixelSize e else 1) *
     (if pe_binning e \<noteq> binning (m_cal m) \<and> isValid (m_cal m) then bin_scale (pe_binning e) (m_cal m) else 1) - 1\<bar> \<ge> 0.01"


definition sample_pointing :: pointing_env where
  "sample_pointing = \<lparr>pe_declination = 1/2, pe_pierSide = PIER_SIDE_WEST, pe_rotator = 30, pe_binning = 1,
     pe_canReportPosition = False, pe_guideRates = None, pe_calRates = (0, 0), pe_cameraPixelSize = 5,
     pe_profilePixelSize = 5, pe_decCompEnabled = True\<rparr>"


text \<open>The ratio of two binnings is computed as a quotient of integers: a change from 2 to 3 goes unnoticed.\<close>

lemma binning_ratio_truncated:
  "bin_scale 3 (sample_cal\<lparr>binning := 2\<rparr>) = 1" "bin_scale 1 (sample_cal\<lparr>binning := 2\<rparr>) = 0"
  by (simp_all add: bin_scale_def)


subsection \<open>What \<open>MoveOffset\<close> needs of an axis move\<close>

text \<open>
  The contract of the virtual \<open>MoveAxis\<close>, under an invariant of the device that it keeps: a move reports an amount between 0 and the amount asked for, and
  leaves the calibration alone. \<open>step_ok\<close> says of a recorded step that its directions are those of the
  distances and that the pulses are no longer than the distances ask for at the calibrated rates.
\<close>

locale axis_mover =
  fixes moveAxis :: "guide_direction \<Rightarrow> int \<Rightarrow> u32 \<Rightarrow> 'a mount_scheme \<Rightarrow> 'a mount_scheme \<times> move_result \<times> move_result_info"
    and inv :: "'a mount_scheme \<Rightarrow> bool"
  assumes moved_le: "moveAxis d n opts m = (m', r, i) \<Longrightarrow> inv m \<Longrightarrow> 0 \<le> n \<Longrightarrow> 0 \<le> amountMoved i \<and> amountMoved i \<le> n"
    and moved_inv: "moveAxis d n opts m = (m', r, i) \<Longrightarrow> inv m \<Longrightarrow> inv m'"
    and moved_cal: "moveAxis d n opts m = (m', r, i) \<Longrightarrow> m_cal m' = m_cal m \<and> m_xRate m' = m_xRate m"

lemma ROUND_abs_nonneg [simp]: "0 \<le> ROUND \<bar>q\<bar>"
  by (simp add: ROUND_def)

lemma ROUND_bound: "of_int (ROUND \<bar>q\<bar>) \<le> \<bar>q\<bar> + 1 / 2"
  unfolding ROUND_def by linarith

definition step_ok :: "real \<Rightarrow> real \<Rightarrow> int \<Rightarrow> 'i guide_step_info \<Rightarrow> bool" where
  \<comment> \<open>\<open>extra\<close>: the longest pulse the backlash compensation adds\<close>
  "step_ok xr yr extra step \<longleftrightarrow>
     gs_directionRA step = (if gs_guideDistanceRA step > 0 then WEST else EAST) \<and>
     gs_directionDec step = (if gs_guideDistanceDec step > 0 then SOUTH else NORTH) \<and>
     0 \<le> gs_durationRA step \<and> of_int (gs_durationRA step) \<le> \<bar>gs_guideDistanceRA step\<bar> / \<bar>xr\<bar> + 1 / 2 \<and>
     0 \<le> gs_durationDec step \<and> of_int (gs_durationDec step) \<le> \<bar>gs_guideDistanceDec step\<bar> / \<bar>yr\<bar> + 1 / 2 + of_int extra"

context axis_mover
begin

lemma move_axes_total:
  assumes "m_xRate m \<noteq> 0" "yRate (m_cal m) \<noteq> 0"
  shows "\<exists>m' step r. move_axes moveAxis applyBLC opts ofs info xd yd m = Some (m', step, r)"
proof -
  obtain m1 r1 i1 where 1: "moveAxis (if xd > 0 then WEST else EAST) (ROUND \<bar>xd / m_xRate m\<bar>) opts m = (m1, r1, i1)"
    by (metis prod_cases3)
  have "m_cal m1 = m_cal m" using moved_cal [OF 1] by simp
  then show ?thesis using assms 1 by (auto simp: move_axes_def fdiv_def Let_def split: prod.splits)
qed

lemma move_axes_step:
  assumes "move_axes moveAxis applyBLC opts ofs info xd yd m = Some (m', step, r)"
    and blc: "\<And>o' y n m. inv m \<Longrightarrow> 0 \<le> n \<Longrightarrow> inv (fst (applyBLC o' y n m)) \<and> 0 \<le> snd (applyBLC o' y n m) \<and>
      snd (applyBLC o' y n m) \<le> n + extra"
    and i: "inv m" and ex: "0 \<le> extra"
  shows "step_ok (m_xRate m) (yRate (m_cal m)) extra step \<and> gs_guideDistanceRA step = xd \<and> gs_guideDistanceDec step = yd \<and>
    gs_moveOptions step = opts \<and> gs_mountOffset step = mountOfs ofs \<and> gs_cameraOffset step = cameraOfs ofs"
proof -
  let ?dx = "if xd > 0 then WEST else EAST" let ?dy = "if yd > 0 then SOUTH else NORTH"
  obtain qx where qx: "fdiv xd (m_xRate m) = Some qx" using assms(1)
    by (cases "fdiv xd (m_xRate m)") (auto simp: move_axes_def)
  obtain m1 r1 i1 where 1: "moveAxis ?dx (ROUND \<bar>qx\<bar>) opts m = (m1, r1, i1)" by (metis prod_cases3)
  note b1 = moved_le [OF 1 i ROUND_abs_nonneg] and i1 = moved_inv [OF 1 i]
  have x: "of_int (amountMoved i1) \<le> \<bar>xd\<bar> / \<bar>m_xRate m\<bar> + 1 / 2"
  proof -
    have "of_int (amountMoved i1) \<le> (of_int (ROUND \<bar>qx\<bar>) :: real)" using b1 by simp
    also have "\<dots> \<le> \<bar>qx\<bar> + 1 / 2" by (rule ROUND_bound)
    also have "\<bar>qx\<bar> = \<bar>xd\<bar> / \<bar>m_xRate m\<bar>" using qx by (auto simp: fdiv_def split: if_splits)
    finally show ?thesis .
  qed
  show ?thesis
  proof (cases "r1 \<noteq> MOVE_ERROR_SLEWING \<and> r1 \<noteq> MOVE_ERROR_AO_LIMIT_REACHED")
    case False
    have "step = \<lparr>gs_moveOptions = opts, gs_env = info, gs_cameraOffset = cameraOfs ofs,
        gs_mountOffset = mountOfs ofs, gs_guideDistanceRA = xd, gs_guideDistanceDec = yd, gs_durationRA = amountMoved i1,
        gs_directionRA = ?dx, gs_durationDec = 0, gs_directionDec = ?dy, gs_raLimited = limited i1, gs_decLimited = False\<rparr>"
      using False assms(1) qx 1 by (auto simp: move_axes_def Let_def move_result_info0_def)
    then show ?thesis using b1 x ex by (simp only: step_ok_def guide_step_info.simps) simp
  next
    case True
    then obtain qy where qy: "fdiv yd (yRate (m_cal m1)) = Some qy" using assms(1) qx 1
      by (cases "fdiv yd (yRate (m_cal m1))") (auto simp: move_axes_def Let_def)
    obtain m2 n2 where 2: "applyBLC opts yd (ROUND \<bar>qy\<bar>) m1 = (m2, n2)" by fastforce
    have n2: "inv m2" "0 \<le> n2" "n2 \<le> ROUND \<bar>qy\<bar> + extra" using blc [OF i1, of "ROUND \<bar>qy\<bar>" opts yd] 2 by simp_all
    obtain m3 r3 i3 where 3: "moveAxis ?dy n2 opts m2 = (m3, r3, i3)" by (metis prod_cases3)
    note b3 = moved_le [OF 3 n2(1,2)]
    have y: "of_int (amountMoved i3) \<le> \<bar>yd\<bar> / \<bar>yRate (m_cal m)\<bar> + 1 / 2 + of_int extra"
    proof -
      have "of_int (amountMoved i3) \<le> (of_int (ROUND \<bar>qy\<bar>) :: real) + of_int extra" using b3 n2(3) by linarith
      also have "\<dots> \<le> \<bar>qy\<bar> + 1 / 2 + of_int extra" using ROUND_bound [of qy] by simp
      also have "\<bar>qy\<bar> = \<bar>yd\<bar> / \<bar>yRate (m_cal m)\<bar>" using qy moved_cal [OF 1] by (auto simp: fdiv_def split: if_splits)
      finally show ?thesis .
    qed
    show ?thesis using assms(1) qx 1 b1 x y True qy 2 3 b3
      by (auto simp: move_axes_def Let_def step_ok_def)
  qed
qed

lemma MoveOffset_step:
  assumes "MoveOffset moveAxis applyBLC trackBLC res ded info ofs opts s = Some (s', ofs', r)"
    and "ms_lastStep s = None" "ms_lastStep s' = Some step"
    and "\<And>o' y n m. inv m \<Longrightarrow> 0 \<le> n \<Longrightarrow> inv (fst (applyBLC o' y n m)) \<and> 0 \<le> snd (applyBLC o' y n m) \<and>
      snd (applyBLC o' y n m) \<le> n + extra"
    and "inv (ms_mount s)" and ex: "0 \<le> extra"
    and trk: "\<And>o' y m m'. trackBLC o' y m = Some m' \<Longrightarrow> inv m \<Longrightarrow> m_xRate m' = m_xRate m \<and> m_cal m' = m_cal m"
      "\<And>o' y m m'. trackBLC o' y m = Some m' \<Longrightarrow> inv m \<Longrightarrow> inv m'"
  shows "step_ok (m_xRate (ms_mount s)) (yRate (m_cal (ms_mount s))) extra step"
proof -
  have st: "step_ok (m_xRate m) (yRate (m_cal m)) extra step"
    if "move_axes moveAxis applyBLC opts ofs info xd yd m = Some (m', step, r)" "inv m" for opts ofs xd yd m m' step r
    using move_axes_step [OF that(1) assms(4) that(2) ex] by simp
  show ?thesis using assms(1-3,5) trk
    by (auto simp: MoveOffset_def Let_def split: if_splits option.splits prod.splits dest!: st)
qed

end

end
