(* ===== verification/Scope.thy ===== *)
theory Scope
  imports Mount "HOL-Library.Signed_Division"
begin

unbundle bit_operations_syntax

text \<open>
  \<open>src/src/telescope/scope.cpp\<close>: the scope as a mount that moves by guide pulses. First the settings and
  \<open>MoveAxis\<close>, which enforces the Dec guide mode and the pulse limits; then the calibration state machine,
  \<open>UpdateCalibrationState\<close>, called once per camera frame with the star's position, one definition per
  case of its switch.

  The calls to the outside (guide pulses, scheduled moves, alerts, log and event server messages) are
  appended to the ghost field \<open>sc_trace\<close>, oldest first.
\<close>

subsection \<open>State\<close>

definition DefaultCalibrationDuration :: int where "DefaultCalibrationDuration = 750"
definition DefaultMaxDecDuration :: int where "DefaultMaxDecDuration = 2500"
definition DefaultMaxRaDuration :: int where "DefaultMaxRaDuration = 2500"
definition MAX_DURATION_MAX :: int where "MAX_DURATION_MAX = 8000"
definition MAX_CALIBRATION_STEPS :: int where "MAX_CALIBRATION_STEPS = 60"
definition LIMIT_REACHED_WARN_COUNT :: int where "LIMIT_REACHED_WARN_COUNT = 5"
definition MAX_NUDGES :: int where "MAX_NUDGES = 3"
definition NUDGE_TOLERANCE :: real where "NUDGE_TOLERANCE = 2"
definition DEFAULT_DISTANCE :: int where "DEFAULT_DISTANCE = 25"
definition CALIBRATION_RATE_UNCALIBRATED :: real where "CALIBRATION_RATE_UNCALIBRATED = 1230000"
definition BL_BACKLASH_MIN_COUNT :: int where "BL_BACKLASH_MIN_COUNT = 3"
definition BL_MAX_CLEARING_TIME :: int where "BL_MAX_CLEARING_TIME = 60000"
definition BL_MIN_CLEARING_DISTANCE :: real where "BL_MIN_CLEARING_DISTANCE = 3"

datatype guide_axis = GUIDE_RA | GUIDE_DEC

datatype calibration_state = CALIBRATION_STATE_CLEARED | CALIBRATION_STATE_GO_WEST | CALIBRATION_STATE_GO_EAST
  | CALIBRATION_STATE_CLEAR_BACKLASH | CALIBRATION_STATE_GO_NORTH | CALIBRATION_STATE_GO_SOUTH
  | CALIBRATION_STATE_NUDGE_SOUTH | CALIBRATION_STATE_COMPLETE

datatype calibration_issue = CI_None | CI_Steps | CI_Angle | CI_Rates | CI_Different

record calibration_details =
  focalLength :: int
  imageScale :: real
  raGuideSpeed :: real
  decGuideSpeed :: real
  orthoError :: real
  origBinning :: real
  raSteps :: "(real \<times> real) list"
  decSteps :: "(real \<times> real) list"
  raStepCount :: int
  decStepCount :: int
  lastIssue :: calibration_issue
  origTimestamp :: string
  origPierSide :: pier_side

datatype limit_alert = InsufficientCorrections | LimitPreventsCorrections | EvenMaximumMoves

datatype scope_event =
    GuidePulse guide_direction int
  | AlertLimit guide_axis limit_alert
  | NotifyGuidingParam string int
  | NotifyGuidingParamStr string string
  | ProfileWrite cfg_write
  | ScheduleAxisMove guide_direction int u32
  | LogCalibrationStep string int real real sodium_point real
  | CalibrationStatus string int
  | CalibrationFailed string
  | CalibrationDirectComplete string real real guide_parity
  | AlertEastMovement
  | SaveCalibrationDetails calibration_details
  | CalibrationIssueAlert calibration_issue
  | CalibrationComplete

record scope = mount +
  m_calibrationDuration :: int
  m_calibrationDistance :: int
  m_maxDecDuration :: int
  m_maxRaDuration :: int
  m_decGuideMode :: dec_guide_mode
  m_saveDecGuideMode :: dec_guide_mode
  m_limitReachedDeferralTime :: int
  m_raLimitReachedDirection :: guide_direction
  m_raLimitReachedCount :: int
  m_decLimitReachedDirection :: guide_direction
  m_decLimitReachedCount :: int
  s_lastLogged :: int \<comment> \<open>the static of \<open>AlertLimitReached\<close>\<close>
  m_calibrationSteps :: int
  m_recenterRemaining :: int
  m_recenterDuration :: int
  m_calibrationInitialLocation :: sodium_point
  m_calibrationStartingLocation :: sodium_point
  m_calibrationStartingCoords :: sodium_point
  m_southStartingLocation :: sodium_point
  m_eastStartingLocation :: sodium_point
  m_lastLocation :: sodium_point
  m_totalSouthAmt :: real
  m_northDirCosX :: "real option" \<comment> \<open>\<^term>\<open>None\<close> is NaN\<close>
  m_northDirCosY :: "real option"
  m_eastAlertShown :: bool
  m_blMarkerPoint :: sodium_point
  m_blExpectedBacklashStep :: real
  m_blLastCumDistance :: real
  m_blAcceptedMoves :: int
  m_blDistanceMoved :: real
  m_blMaxClearingPulses :: int
  m_calibration :: calibration
  m_calibrationDetails :: calibration_details
  m_assumeOrthogonal :: bool
  m_raSteps :: int
  m_decSteps :: int
  m_calibrationFlipRequiresDecFlip :: bool
  m_prevCalibration :: calibration
  m_prevCalibrationDetails :: calibration_details
  m_lastCalibrationIssue :: calibration_issue
  m_useDecCompensation :: bool
  m_calibrationState :: calibration_state
  sc_trace :: "scope_event list"

definition emit :: "scope_event list \<Rightarrow> scope \<Rightarrow> scope" where
  "emit ev s = s\<lparr>sc_trace := sc_trace s @ ev\<rparr>"

subsection \<open>Settings\<close>

definition SetCalibrationDuration :: "int \<Rightarrow> scope \<Rightarrow> scope \<times> bool" where
  "SetCalibrationDuration d s =
    (let (s, bError) = (if d \<le> 0 then (s\<lparr>m_calibrationDuration := DefaultCalibrationDuration\<rparr>, True)
                        else (s\<lparr>m_calibrationDuration := d\<rparr>, False))
     in (emit [ProfileWrite (SetInt ''/scope/CalibrationDuration'' (m_calibrationDuration s))] s, bError))"

definition SetCalibrationDistance :: "int \<Rightarrow> scope \<Rightarrow> scope \<times> bool" where
  "SetCalibrationDistance d s =
    (let (s, bError) = (if d \<le> 0 then (s\<lparr>m_calibrationDistance := DEFAULT_DISTANCE\<rparr>, True)
                        else (s\<lparr>m_calibrationDistance := d\<rparr>, False))
     in (emit [ProfileWrite (SetInt ''/scope/CalibrationDistance'' (m_calibrationDistance s))] s, bError))"

definition SetMaxDecDuration :: "int \<Rightarrow> scope \<Rightarrow> scope \<times> bool" where
  "SetMaxDecDuration d s =
    (let (s, bError) = (if d < 0 then (s\<lparr>m_maxDecDuration := DefaultMaxDecDuration\<rparr>, True)
       else ((if m_maxDecDuration s \<noteq> d then emit [NotifyGuidingParam ''Dec Max Duration'' d] s else s)
               \<lparr>m_maxDecDuration := d\<rparr>, False))
     in (emit [ProfileWrite (SetInt ''/scope/MaxDecDuration'' (m_maxDecDuration s))] s, bError))"

definition SetMaxRaDuration :: "int \<Rightarrow> scope \<Rightarrow> scope \<times> bool" where
  "SetMaxRaDuration d s =
    (let (s, bError) = (if d < 0 then (s\<lparr>m_maxRaDuration := DefaultMaxRaDuration\<rparr>, True)
       else (if m_maxRaDuration s \<noteq> d
             then (emit [NotifyGuidingParam ''RA Max Duration'' d] s)\<lparr>m_maxRaDuration := d\<rparr> else s, False))
     in (emit [ProfileWrite (SetInt ''/scope/MaxRaDuration'' (m_maxRaDuration s))] s, bError))"

definition SetCalibrationFlipRequiresDecFlip :: "bool \<Rightarrow> scope \<Rightarrow> scope" where
  "SetCalibrationFlipRequiresDecFlip val s =
    emit [ProfileWrite (SetBoolean ''/scope/CalFlipRequiresDecFlip'' val)] (s\<lparr>m_calibrationFlipRequiresDecFlip := val\<rparr>)"

definition SetAssumeOrthogonal :: "bool \<Rightarrow> scope \<Rightarrow> scope" where
  "SetAssumeOrthogonal val s =
    emit [ProfileWrite (SetBoolean ''/scope/AssumeOrthogonal'' val)] (s\<lparr>m_assumeOrthogonal := val\<rparr>)"

definition EnableDecCompensation :: "bool \<Rightarrow> scope \<Rightarrow> scope" where
  "EnableDecCompensation enable s =
    emit [ProfileWrite (SetBoolean ''/scope/UseDecComp'' enable)] (s\<lparr>m_useDecCompensation := enable\<rparr>)"

definition StartDecDrift :: "scope \<Rightarrow> scope" where
  "StartDecDrift s = s\<lparr>m_saveDecGuideMode := m_decGuideMode s, m_decGuideMode := DEC_NONE\<rparr>"

definition EndDecDrift :: "scope \<Rightarrow> scope" where
  "EndDecDrift s = s\<lparr>m_decGuideMode := m_saveDecGuideMode s\<rparr>"

definition IsDecDrifting :: "scope \<Rightarrow> bool" where
  "IsDecDrifting s \<longleftrightarrow> m_decGuideMode s = DEC_NONE"

definition ValidGuideRates :: "real \<Rightarrow> real \<Rightarrow> bool" where
  "ValidGuideRates RAGuideRate DecGuideRate =
    (let spd = RAGuideRate * 3600 / (15 * 0.9973)
     in if spd > 0.1 \<and> spd < 1.2
        then let spd = DecGuideRate * 3600 / (15 * 0.9973)
             in \<not> (spd \<noteq> -1 \<and> (spd < 0.1 \<or> spd > 1.2))
        else False)"

definition scope_IsCalibrated :: "scope \<Rightarrow> bool" where
  "scope_IsCalibrated s =
    (if \<not> MountIsCalibrated s then False
     else case m_decGuideMode s of
       DEC_NONE \<Rightarrow> True
     | _ \<Rightarrow> yRate (m_calibration s) \<noteq> CALIBRATION_RATE_UNCALIBRATED)"

definition scope_ClearCalibration :: "scope \<Rightarrow> scope" where
  "scope_ClearCalibration s = (mount_ClearCalibration s)\<lparr>m_calibrationState := CALIBRATION_STATE_CLEARED\<rparr>"

definition scope_SetCalibration :: "string \<Rightarrow> calibration \<Rightarrow> scope \<Rightarrow> scope \<times> cfg_write list" where
  "scope_SetCalibration stamp cal s = mount_SetCalibration ''scope'' stamp cal (s\<lparr>m_calibration := cal\<rparr>)"

subsection \<open>\<open>MoveAxis\<close>\<close>

definition DeferPulseLimitAlertCheck :: "int \<Rightarrow> scope \<Rightarrow> scope" where
  "DeferPulseLimitAlertCheck now s = s\<lparr>m_limitReachedDeferralTime := now + 120\<rparr>"

definition AlertLimitReached :: "int \<Rightarrow> int \<Rightarrow> guide_axis \<Rightarrow> scope \<Rightarrow> scope" where
  \<comment> \<open>\<open>now\<close> in seconds; the text of the first message also depends on \<open>CanPulseGuide\<close>\<close>
  "AlertLimitReached now duration axis s =
    (if s_lastLogged s \<noteq> 0 \<and> now < s_lastLogged s + 30 then s
     else let s = s\<lparr>s_lastLogged := now\<rparr>
          in if now < m_limitReachedDeferralTime s then s
             else if duration < MAX_DURATION_MAX
                  then let defaultVal = (if axis = GUIDE_RA then DefaultMaxRaDuration else DefaultMaxDecDuration)
                       in if duration \<ge> defaultVal then emit [AlertLimit axis InsufficientCorrections] s
                          else emit [AlertLimit axis LimitPreventsCorrections] s
                  else emit [AlertLimit axis EvenMaximumMoves] s)"

definition algo_move :: "u32 \<Rightarrow> bool" where
  "algo_move moveOptions \<longleftrightarrow> moveOptions AND (MOVEOPT_ALGO_RESULT OR MOVEOPT_ALGO_DEDUCE) \<noteq> 0"

definition limit_dec :: "int \<Rightarrow> guide_direction \<Rightarrow> int \<Rightarrow> scope \<Rightarrow> scope \<times> int \<times> bool" where
  "limit_dec now direction duration s =
    (let duration = (if m_decGuideMode s = DEC_NONE \<or> (direction = SOUTH \<and> m_decGuideMode s = DEC_NORTH) \<or>
                        (direction = NORTH \<and> m_decGuideMode s = DEC_SOUTH) then 0 else duration);
         limitReached = (duration > m_maxDecDuration s);
         duration = (if limitReached then m_maxDecDuration s else duration);
         s = (if limitReached \<and> direction = m_decLimitReachedDirection s
              then let s = s\<lparr>m_decLimitReachedCount := m_decLimitReachedCount s + 1\<rparr>
                   in if m_decLimitReachedCount s \<ge> LIMIT_REACHED_WARN_COUNT
                      then AlertLimitReached now duration GUIDE_DEC s else s
              else s\<lparr>m_decLimitReachedCount := 0\<rparr>)
     in (s\<lparr>m_decLimitReachedDirection := (if limitReached then direction else NONE)\<rparr>, duration, limitReached))"

definition limit_ra :: "int \<Rightarrow> guide_direction \<Rightarrow> int \<Rightarrow> scope \<Rightarrow> scope \<times> int \<times> bool" where
  "limit_ra now direction duration s =
    (let limitReached = (duration > m_maxRaDuration s);
         duration = (if limitReached then m_maxRaDuration s else duration);
         s = (if limitReached \<and> direction = m_raLimitReachedDirection s
              then let s = s\<lparr>m_raLimitReachedCount := m_raLimitReachedCount s + 1\<rparr>
                   in if m_raLimitReachedCount s \<ge> LIMIT_REACHED_WARN_COUNT
                      then AlertLimitReached now duration GUIDE_RA s else s
              else s\<lparr>m_raLimitReachedCount := 0\<rparr>)
     in (s\<lparr>m_raLimitReachedDirection := (if limitReached then direction else NONE)\<rparr>, duration, limitReached))"

definition limit_move :: "int \<Rightarrow> guide_direction \<Rightarrow> int \<Rightarrow> u32 \<Rightarrow> scope \<Rightarrow> scope \<times> int \<times> bool" where
  "limit_move now direction duration moveOptions s =
    (if direction \<in> {NORTH, SOUTH} \<and> algo_move moveOptions then limit_dec now direction duration s
     else if direction \<in> {EAST, WEST} \<and> algo_move moveOptions then limit_ra now direction duration s
     else (s, duration, False))"

definition scope_MoveAxis ::
    "(guide_direction \<Rightarrow> int \<Rightarrow> move_result) \<Rightarrow> int \<Rightarrow> guide_direction \<Rightarrow> int \<Rightarrow> u32 \<Rightarrow> scope \<Rightarrow>
     scope \<times> move_result \<times> move_result_info" where
  \<comment> \<open>\<open>guide\<close> is the virtual \<open>Guide\<close> that sends the pulse to the device\<close>
  "scope_MoveAxis guide now direction duration moveOptions s =
    (if \<not> m_guidingEnabled s \<and> moveOptions AND MOVEOPT_MANUAL = 0
     then (s, MOVE_ERROR, \<lparr>amountMoved = 0, limited = False\<rparr>)
     else
       let (s, duration, limitReached) = limit_move now direction duration moveOptions s
       in if duration > 0
          then let s = emit [GuidePulse direction duration] s; r = guide direction duration
               in if r \<noteq> MOVE_OK then (s, r, \<lparr>amountMoved = 0, limited = limitReached\<rparr>)
                  else (s, MOVE_OK, \<lparr>amountMoved = duration, limited = limitReached\<rparr>)
          else (s, MOVE_OK, \<lparr>amountMoved = duration, limited = limitReached\<rparr>))"


subsection \<open>Lemmas on \<open>MoveAxis\<close>\<close>

fun pulses :: "scope_event list \<Rightarrow> (guide_direction \<times> int) list" where
  "pulses [] = []"
| "pulses (GuidePulse d n # ev) = (d, n) # pulses ev"
| "pulses (_ # ev) = pulses ev"

lemma pulses_append [simp]: "pulses (xs @ ys) = pulses xs @ pulses ys"
  by (induction xs rule: pulses.induct) simp_all

definition limits_ok :: "scope \<Rightarrow> bool" where
  "limits_ok s \<longleftrightarrow> 0 \<le> m_maxDecDuration s \<and> 0 \<le> m_maxRaDuration s"

definition same_settings :: "scope \<Rightarrow> scope \<Rightarrow> bool" where
  "same_settings s t \<longleftrightarrow> m_cal s = m_cal t \<and> m_xRate s = m_xRate t \<and> m_maxDecDuration s = m_maxDecDuration t \<and>
     m_maxRaDuration s = m_maxRaDuration t \<and> m_decGuideMode s = m_decGuideMode t \<and>
     m_guidingEnabled s = m_guidingEnabled t \<and> m_backlashComp s = m_backlashComp t"

lemma AlertLimitReached_frame:
  "same_settings (AlertLimitReached now d a s) s \<and> pulses (sc_trace (AlertLimitReached now d a s)) = pulses (sc_trace s)"
  by (simp add: AlertLimitReached_def emit_def same_settings_def Let_def)

definition dec_allowed :: "dec_guide_mode \<Rightarrow> guide_direction \<Rightarrow> bool" where
  "dec_allowed m d \<longleftrightarrow> m = DEC_AUTO \<or> (m = DEC_NORTH \<and> d = NORTH) \<or> (m = DEC_SOUTH \<and> d = SOUTH)"

lemma limit_dec_frame:
  assumes "limit_dec now d n s = (s', n', lm)" "d \<in> {NORTH, SOUTH}"
  shows "same_settings s' s" "pulses (sc_trace s') = pulses (sc_trace s)" "n' \<le> m_maxDecDuration s"
    "0 \<le> n \<Longrightarrow> 0 \<le> m_maxDecDuration s \<Longrightarrow> 0 \<le> n' \<and> n' \<le> n" "\<not> dec_allowed (m_decGuideMode s) d \<Longrightarrow> n' \<le> 0"
    "lm \<longleftrightarrow> dec_allowed (m_decGuideMode s) d \<and> n > m_maxDecDuration s \<or> \<not> dec_allowed (m_decGuideMode s) d \<and> 0 > m_maxDecDuration s"
proof -
  note f = AlertLimitReached_frame [unfolded same_settings_def]
  show "same_settings s' s" "pulses (sc_trace s') = pulses (sc_trace s)" "n' \<le> m_maxDecDuration s"
    "0 \<le> n \<Longrightarrow> 0 \<le> m_maxDecDuration s \<Longrightarrow> 0 \<le> n' \<and> n' \<le> n"
    using assms(1) f by (auto simp: limit_dec_def same_settings_def Let_def split: if_splits)
  show "\<not> dec_allowed (m_decGuideMode s) d \<Longrightarrow> n' \<le> 0"
    "lm \<longleftrightarrow> dec_allowed (m_decGuideMode s) d \<and> n > m_maxDecDuration s \<or> \<not> dec_allowed (m_decGuideMode s) d \<and> 0 > m_maxDecDuration s"
    using assms by (cases "m_decGuideMode s"; auto simp: limit_dec_def dec_allowed_def Let_def)+
qed

lemma limit_ra_frame:
  assumes "limit_ra now d n s = (s', n', lm)"
  shows "same_settings s' s" "pulses (sc_trace s') = pulses (sc_trace s)" "n' = min n (m_maxRaDuration s)"
    "lm \<longleftrightarrow> n > m_maxRaDuration s"
  using assms AlertLimitReached_frame [unfolded same_settings_def]
  by (auto simp: limit_ra_def same_settings_def Let_def split: if_splits)

lemma limit_move_frame:
  assumes "limit_move now d n opts s = (s', n', lm)"
  shows "same_settings s' s" "pulses (sc_trace s') = pulses (sc_trace s)"
    "0 \<le> n \<Longrightarrow> limits_ok s \<Longrightarrow> 0 \<le> n' \<and> n' \<le> n"
  using assms limit_dec_frame [of now d n s s' n' lm] limit_ra_frame [of now d n s s' n' lm]
  by (auto simp: limit_move_def limits_ok_def same_settings_def split: if_splits)

lemma scope_MoveAxis_cases:
  assumes "scope_MoveAxis guide now d n opts s = (s', r, i)"
  obtains (disabled) "\<not> m_guidingEnabled s" "opts AND MOVEOPT_MANUAL = 0" "s' = s" "r = MOVE_ERROR"
      "i = \<lparr>amountMoved = 0, limited = False\<rparr>"
  | (moved) s1 k lm where "m_guidingEnabled s \<or> opts AND MOVEOPT_MANUAL \<noteq> 0" "limit_move now d n opts s = (s1, k, lm)"
      "s' = (if k > 0 then emit [GuidePulse d k] s1 else s1)" "r = (if k > 0 then guide d k else MOVE_OK)"
      "i = \<lparr>amountMoved = (if k > 0 \<and> guide d k \<noteq> MOVE_OK then 0 else k), limited = lm\<rparr>"
proof (cases "\<not> m_guidingEnabled s \<and> opts AND MOVEOPT_MANUAL = 0")
  case True
  then have "(s', r, i) = (s, MOVE_ERROR, \<lparr>amountMoved = 0, limited = False\<rparr>)"
    unfolding assms [symmetric] by (simp add: scope_MoveAxis_def)
  then show ?thesis using True by (intro disabled) simp_all
next
  case False
  obtain s1 k lm where l: "limit_move now d n opts s = (s1, k, lm)" by (metis prod_cases3)
  have e: "(s', r, i) = (if k > 0 then emit [GuidePulse d k] s1 else s1, if k > 0 then guide d k else MOVE_OK,
      \<lparr>amountMoved = (if k > 0 \<and> guide d k \<noteq> MOVE_OK then 0 else k), limited = lm\<rparr>)"
    unfolding assms [symmetric] using False by (auto simp: scope_MoveAxis_def l Let_def)
  have "m_guidingEnabled s \<or> opts AND MOVEOPT_MANUAL \<noteq> 0" using False by blast
  then show ?thesis by (rule moved [OF _ l]) (use e in simp_all)
qed

lemma scope_MoveAxis_cal:
  assumes "scope_MoveAxis guide now d n opts s = (s', r, i)"
  shows "same_settings s' s"
  using assms
proof (cases rule: scope_MoveAxis_cases)
  case (moved s1 k lm)
  then show ?thesis using limit_move_frame(1) [OF moved(2)] by (simp add: emit_def same_settings_def)
qed (simp add: same_settings_def)

lemma scope_MoveAxis_amount:
  assumes "scope_MoveAxis guide now d n opts s = (s', r, i)" "limits_ok s" "0 \<le> n"
  shows "0 \<le> amountMoved i \<and> amountMoved i \<le> n"
  using assms(1)
proof (cases rule: scope_MoveAxis_cases)
  case (moved s1 k lm)
  then show ?thesis using limit_move_frame(3) [OF moved(2)] assms(2,3) by simp
qed (use assms in simp)

lemma same_settings_limits: "same_settings s' s \<Longrightarrow> limits_ok s' = limits_ok s"
  by (simp add: same_settings_def limits_ok_def)

interpretation sc: axis_mover "scope_MoveAxis guide now" limits_ok for guide now
proof unfold_locales
  fix d n opts s s' r i
  assume a: "scope_MoveAxis guide now d n opts s = (s', r, i)"
  show "m_cal s' = m_cal s \<and> m_xRate s' = m_xRate s"
    using scope_MoveAxis_cal [OF a] by (simp add: same_settings_def)
  assume l: "limits_ok s"
  show "limits_ok s'" using scope_MoveAxis_cal [OF a] l by (simp add: same_settings_limits)
  assume "0 \<le> n"
  then show "0 \<le> amountMoved i \<and> amountMoved i \<le> n" using scope_MoveAxis_amount [OF a l] by blast
qed

text \<open>C9: A guide step (or dead-reckoning step) never sends a pulse the settings forbid: at most one pulse is
  sent, in the direction asked for and no longer than asked for or than the limit of its axis; never
  while guiding is disabled, and on the Dec axis never in a direction the Dec guide mode excludes. The
  amount reported is the length of the pulse the device accepted, or 0, and \<open>limited\<close> is set exactly when the
  limit cut the pulse.\<close>
theorem guide_pulse_within_limits:
  assumes "scope_MoveAxis guide now d n opts s = (s', r, i)" and "algo_move opts" and "0 \<le> n" and "limits_ok s"
    and "d \<noteq> NONE"
  shows "\<exists>ps. pulses (sc_trace s') = pulses (sc_trace s) @ ps \<and>
    (ps = [] \<or> (\<exists>k. ps = [(d, k)] \<and> 0 < k \<and> k \<le> n \<and>
       k \<le> (if d \<in> {NORTH, SOUTH} then m_maxDecDuration s else m_maxRaDuration s) \<and>
       (m_guidingEnabled s \<or> opts AND MOVEOPT_MANUAL \<noteq> 0) \<and>
       (d \<in> {NORTH, SOUTH} \<longrightarrow> dec_allowed (m_decGuideMode s) d))) \<and>
    amountMoved i = (case ps of [] \<Rightarrow> 0 | (dir, k) # _ \<Rightarrow> if guide dir k = MOVE_OK then k else 0) \<and>
    (limited i \<longleftrightarrow> (m_guidingEnabled s \<or> opts AND MOVEOPT_MANUAL \<noteq> 0) \<and>
       (if d \<in> {NORTH, SOUTH} then dec_allowed (m_decGuideMode s) d \<and> n > m_maxDecDuration s else n > m_maxRaDuration s))"
  using assms(1)
proof (cases rule: scope_MoveAxis_cases)
  case (moved s1 k lm)
  have l: "(if d \<in> {NORTH, SOUTH} then limit_dec now d n s else limit_ra now d n s) = (s1, k, lm)"
    using moved(2) assms(2,5) by (cases d) (auto simp: limit_move_def)
  have "pulses (sc_trace s1) = pulses (sc_trace s)" "0 \<le> k" "k \<le> n"
    "k \<le> (if d \<in> {NORTH, SOUTH} then m_maxDecDuration s else m_maxRaDuration s)"
    "d \<in> {NORTH, SOUTH} \<Longrightarrow> 0 < k \<Longrightarrow> dec_allowed (m_decGuideMode s) d"
    "lm \<longleftrightarrow> (if d \<in> {NORTH, SOUTH} then dec_allowed (m_decGuideMode s) d \<and> n > m_maxDecDuration s else n > m_maxRaDuration s)"
    using l assms(3,4) limit_dec_frame [of now d n s s1 k lm] limit_ra_frame [of now d n s s1 k lm]
    by (auto simp: limits_ok_def split: if_splits)
  then show ?thesis
    using moved by (intro exI [of _ "if k > 0 then [(d, k)] else []"]) (auto simp: emit_def)
qed auto

definition sample_details :: calibration_details where
  "sample_details = \<lparr>focalLength = 400, imageScale = 2, raGuideSpeed = -1, decGuideSpeed = -1, orthoError = 0, origBinning = 1,
     raSteps = [], decSteps = [], raStepCount = 0, decStepCount = 0, lastIssue = CI_None, origTimestamp = [],
     origPierSide = PIER_SIDE_EAST\<rparr>"

definition sample_scope :: scope where
  "sample_scope = \<lparr>m_connected = True, m_requestCount = 0, m_errorCount = 0, m_calibrated = False,
     m_cal = sample_cal, m_xRate = 1 / 100, m_yAngleError = 0, m_guidingEnabled = True, m_backlashComp = None,
     m_calibrationDuration = 7500, m_calibrationDistance = 25, m_maxDecDuration = 2500, m_maxRaDuration = 2500,
     m_decGuideMode = DEC_NORTH, m_saveDecGuideMode = DEC_AUTO, m_limitReachedDeferralTime = 0,
     m_raLimitReachedDirection = NONE, m_raLimitReachedCount = 0, m_decLimitReachedDirection = NONE,
     m_decLimitReachedCount = 0, s_lastLogged = 0, m_calibrationSteps = 0, m_recenterRemaining = 0, m_recenterDuration = 0,
     m_calibrationInitialLocation = SodiumPoint 0 0, m_calibrationStartingLocation = SodiumPoint 0 0,
     m_calibrationStartingCoords = SodiumPoint 0 0, m_southStartingLocation = SodiumPoint 0 0,
     m_eastStartingLocation = SodiumPoint 0 0, m_lastLocation = SodiumPoint 0 0, m_totalSouthAmt = 0,
     m_northDirCosX = None, m_northDirCosY = None, m_eastAlertShown = False, m_blMarkerPoint = SodiumPoint 0 0,
     m_blExpectedBacklashStep = 0, m_blLastCumDistance = 0, m_blAcceptedMoves = 0, m_blDistanceMoved = 0,
     m_blMaxClearingPulses = 8, m_calibration = sample_cal, m_calibrationDetails = sample_details,
     m_assumeOrthogonal = False, m_raSteps = 0, m_decSteps = 0, m_calibrationFlipRequiresDecFlip = False,
     m_prevCalibration = sample_cal, m_prevCalibrationDetails = sample_details, m_lastCalibrationIssue = CI_None,
     m_useDecCompensation = True, m_calibrationState = CALIBRATION_STATE_CLEARED, sc_trace = []\<rparr>"

theorem guide_pulse_within_limits_witness:
  "let (s', r, i) = scope_MoveAxis (\<lambda>_ _. MOVE_OK) 0 NORTH 4000 MOVEOPTS_GUIDE_STEP sample_scope
   in pulses (sc_trace s') = [(NORTH, 2500)] \<and> amountMoved i = 2500 \<and> limited i"
proof -
  obtain s' r i where 1: "scope_MoveAxis (\<lambda>_ _. MOVE_OK) 0 NORTH 4000 MOVEOPTS_GUIDE_STEP sample_scope = (s', r, i)"
    by (metis prod_cases3)
  have h: "algo_move MOVEOPTS_GUIDE_STEP" "limits_ok sample_scope"
    by (simp_all add: algo_move_def moveopt_defs limits_ok_def sample_scope_def)
  have p: "pulses (sc_trace s') = [(NORTH, 2500)]"
    using 1 h(1) by (auto simp: scope_MoveAxis_def limit_move_def limit_dec_def sample_scope_def emit_def Let_def)
  obtain ps where ps: "pulses (sc_trace s') = pulses (sc_trace sample_scope) @ ps"
    "amountMoved i = (case ps of [] \<Rightarrow> 0 | (dir, k) # _ \<Rightarrow> k)" "limited i"
    using guide_pulse_within_limits [OF 1 h(1) _ h(2)]
    by (auto simp: sample_scope_def dec_allowed_def)
  then have "ps = [(NORTH, 2500)]" using p by (simp add: sample_scope_def)
  then show ?thesis using ps p 1 by simp
qed

subsection \<open>The calibration state machine\<close>

text \<open>
  What one call reads of the rest of the program is the record \<open>cal_env\<close>. A case of the switch returns the new
  state and how it leaves: \<open>Break\<close>, falling through to the next case with the local \<open>dX\<close>, \<open>dY\<close> and \<open>dist\<close>,
  an exception (\<open>Throw\<close>), or \<open>Undef\<close>, the conversion of an infinite quotient to an integer.
\<close>

record cal_env =
  ce_coords :: "(real \<times> real) option" \<comment> \<open>RA (hours) and Dec (degrees) of \<open>GetCoordinates\<close>; \<^term>\<open>None\<close> is an error\<close>
  ce_guideRates :: "(real \<times> real) option" \<comment> \<open>\<open>GetGuideRates\<close>; \<^term>\<open>None\<close> is an error\<close>
  ce_canPulseGuide :: bool
  ce_fastRecenter :: bool
  ce_maxMovePixels :: int
  ce_declination :: real
  ce_pierSide :: pier_side
  ce_rotator :: real
  ce_binning :: "16 word"
  ce_focalLength :: int
  ce_pixelScale :: real
  ce_stamp :: string \<comment> \<open>the formatted current time\<close>
  ce_profile :: profile
  ce_prevDetails :: calibration_details \<comment> \<open>what \<open>LoadCalibrationDetails\<close> reads before the new ones are saved\<close>

datatype cal_exit = Break | Fall real real real | Throw | Undef

definition DIV_ROUND_UP :: "int \<Rightarrow> int \<Rightarrow> int" where
  "DIV_ROUND_UP x y = (x + y - 1) sdiv y"

definition dist_crit :: "scope \<Rightarrow> real" where
  "dist_crit s = of_int (m_calibrationDistance s)"

definition GetRADecCoordinates :: "cal_env \<Rightarrow> sodium_point \<Rightarrow> sodium_point" where
  "GetRADecCoordinates e p = (case ce_coords e of None \<Rightarrow> Invalidate p | Some (ra, dec) \<Rightarrow> SetXY ra dec p)"

definition MountCoords :: "sodium_point \<Rightarrow> real \<Rightarrow> real \<Rightarrow> sodium_point" where
  "MountCoords cameraVector xCalibAngle yCalibAngle =
    (let hyp = Distance0 cameraVector;
         cameraTheta = Angle0 cameraVector;
         yAngleError = norm_angle ((xCalibAngle - yCalibAngle) + pi / 2);
         xA = cameraTheta - xCalibAngle;
         yA = cameraTheta - (xCalibAngle + yAngleError)
     in SodiumPoint (hyp * cos xA) (hyp * sin yA))"

definition BeginCalibration :: "(int \<Rightarrow> scope \<Rightarrow> scope) \<Rightarrow> sodium_point \<Rightarrow> scope \<Rightarrow> scope \<times> bool" where
  \<comment> \<open>\<open>checkDuration\<close>: \<open>CheckCalibrationDuration\<close>, which may change the step and the distance\<close>
  "BeginCalibration checkDuration currentLocation s =
    (if \<not> m_connected s then (s, True)
     else if \<not> m_valid currentLocation then (s, True)
     else let s = scope_ClearCalibration (checkDuration (m_calibrationDuration s) s)
          in (s\<lparr>m_calibrationSteps := 0, m_calibrationInitialLocation := currentLocation,
                m_calibrationStartingLocation := Invalidate (m_calibrationStartingLocation s),
                m_calibrationStartingCoords := Invalidate (m_calibrationStartingCoords s),
                m_calibrationState := CALIBRATION_STATE_GO_WEST,
                m_calibrationDetails := (m_calibrationDetails s)\<lparr>raSteps := [], decSteps := [], lastIssue := CI_None\<rparr>,
                m_raSteps := 0, m_decSteps := 0, m_eastAlertShown := False\<rparr>, False))"

definition log_step :: "string \<Rightarrow> real \<Rightarrow> real \<Rightarrow> sodium_point \<Rightarrow> real \<Rightarrow> scope \<Rightarrow> scope" where
  "log_step dir dx dy loc dst s = emit [LogCalibrationStep dir (m_calibrationSteps s) dx dy loc dst] s"

definition add_raStep :: "real \<Rightarrow> real \<Rightarrow> scope \<Rightarrow> scope" where
  "add_raStep dx dy s = s\<lparr>m_calibrationDetails := (m_calibrationDetails s)\<lparr>raSteps := raSteps (m_calibrationDetails s) @ [(dx, dy)]\<rparr>\<rparr>"

definition add_decStep :: "real \<Rightarrow> real \<Rightarrow> scope \<Rightarrow> scope" where
  "add_decStep dx dy s = s\<lparr>m_calibrationDetails := (m_calibrationDetails s)\<lparr>decSteps := decSteps (m_calibrationDetails s) @ [(dx, dy)]\<rparr>\<rparr>"

definition ra_parity :: "sodium_point \<Rightarrow> cal_env \<Rightarrow> guide_parity" where
  \<comment> \<open>true westward motion decreases RA\<close>
  "ra_parity start e =
    (if m_valid start
     then case ce_coords e of None \<Rightarrow> GUIDE_PARITY_UNKNOWN
          | Some (ra, _) \<Rightarrow>
              let ONE_ARCSEC = 24 / (360 * 60 * 60); dra = ra - X start
              in if dra < - ONE_ARCSEC then GUIDE_PARITY_EVEN else if dra > ONE_ARCSEC then GUIDE_PARITY_ODD
                 else GUIDE_PARITY_UNKNOWN
     else GUIDE_PARITY_UNKNOWN)"

definition dec_parity :: "sodium_point \<Rightarrow> cal_env \<Rightarrow> guide_parity" where
  \<comment> \<open>true northward motion increases Dec\<close>
  "dec_parity start e =
    (if m_valid start
     then case ce_coords e of None \<Rightarrow> GUIDE_PARITY_UNKNOWN
          | Some (_, dec) \<Rightarrow>
              let ONE_ARCSEC = 1 / (60 * 60); ddec = dec - Y start
              in if ddec > ONE_ARCSEC then GUIDE_PARITY_EVEN else if ddec < - ONE_ARCSEC then GUIDE_PARITY_ODD
                 else GUIDE_PARITY_UNKNOWN
     else GUIDE_PARITY_UNKNOWN)"

definition recenter_duration :: "cal_env \<Rightarrow> real \<Rightarrow> int \<Rightarrow> int \<Rightarrow> real \<Rightarrow> int option" where
  \<comment> \<open>the largest pulse that keeps the star and the user's limit; \<^term>\<open>None\<close>: the rate is zero\<close>
  "recenter_duration e factor maxDuration calDuration rate =
    (if ce_fastRecenter e
     then case fdiv (factor * of_int (ce_maxMovePixels e)) rate of None \<Rightarrow> None
          | Some q \<Rightarrow>
              let d = \<lfloor>q\<rfloor>;
                  d = (if d > maxDuration then maxDuration else d)
              in Some (if d < calDuration then calDuration else d)
     else Some calDuration)"

definition west_measured :: "cal_env \<Rightarrow> sodium_point \<Rightarrow> real \<Rightarrow> scope \<Rightarrow> scope" where
  "west_measured e loc dst s =
    (let s = s\<lparr>m_calibration := (m_calibration s)
                \<lparr>xAngle := Angle (m_calibrationStartingLocation s) loc,
                 xRate := dst / of_int (m_calibrationSteps s * m_calibrationDuration s),
                 raGuideParity := ra_parity (m_calibrationStartingCoords s) e\<rparr>,
              m_raSteps := m_calibrationSteps s\<rparr>;
         s = emit [CalibrationDirectComplete ''West'' (xAngle (m_calibration s)) (xRate (m_calibration s))
                     (raGuideParity (m_calibration s))] s
     in s\<lparr>m_recenterRemaining := m_calibrationSteps s * m_calibrationDuration s\<rparr>)"

definition cal_go_west :: "cal_env \<Rightarrow> sodium_point \<Rightarrow> real \<Rightarrow> real \<Rightarrow> real \<Rightarrow> scope \<Rightarrow> scope \<times> cal_exit" where
  "cal_go_west e loc dx dy dst s =
    (let s = add_raStep dx dy (log_step ''West'' dx dy loc dst s)
     in if dst < dist_crit s
        then let old = m_calibrationSteps s; s = s\<lparr>m_calibrationSteps := old + 1\<rparr>
             in if old > MAX_CALIBRATION_STEPS
                then (emit [CalibrationFailed ''RA Calibration Failed: star did not move enough''] s, Throw)
                else (emit [CalibrationStatus ''West'' (m_calibrationSteps s),
                            ScheduleAxisMove WEST (m_calibrationDuration s) MOVEOPTS_CALIBRATION_MOVE] s, Break)
        else
          let s = west_measured e loc dst s
          in case recenter_duration e 1 (m_maxRaDuration s) (m_calibrationDuration s) (xRate (m_calibration s)) of
               None \<Rightarrow> (s, Undef)
             | Some d \<Rightarrow>
                 (s\<lparr>m_recenterDuration := d,
                    m_calibrationSteps := DIV_ROUND_UP (m_recenterRemaining s) d,
                    m_calibrationState := CALIBRATION_STATE_GO_EAST, m_eastStartingLocation := loc\<rparr>,
                  Fall dx dy dst))"

definition east_alert :: "cal_env \<Rightarrow> sodium_point \<Rightarrow> scope \<Rightarrow> bool" where
  "east_alert e loc s \<longleftrightarrow> \<not> ce_canPulseGuide e \<and>
    (let eastDistMoved = Distance (m_eastStartingLocation s) loc;
         westDistMoved = Distance (m_calibrationStartingLocation s) (m_eastStartingLocation s);
         eastAngle = Angle (m_eastStartingLocation s) loc
     in \<bar>eastDistMoved\<bar> < 0.25 * westDistMoved \<or>
        \<bar>norm_angle (eastAngle - (xAngle (m_calibration s) + pi))\<bar> > radians 30)"

definition expected_backlash_step :: "cal_env \<Rightarrow> scope \<Rightarrow> real" where
  "expected_backlash_step e s =
    (let step = xRate (m_calibration s) * of_int (m_calibrationDuration s) * 0.6
     in case ce_guideRates e of None \<Rightarrow> step
        | Some (RASpeed, DecSpeed) \<Rightarrow> if RASpeed \<noteq> 0 \<and> RASpeed \<noteq> DecSpeed then step * (DecSpeed / RASpeed) else step)"

definition cal_go_east :: "cal_env \<Rightarrow> sodium_point \<Rightarrow> real \<Rightarrow> real \<Rightarrow> real \<Rightarrow> scope \<Rightarrow> scope \<times> cal_exit" where
  "cal_go_east e loc dx dy dst s =
    (let s = add_raStep dx dy (log_step ''East'' dx dy loc dst s)
     in if m_recenterRemaining s > 0
        then let duration = m_recenterDuration s;
                 duration = (if duration > m_recenterRemaining s then m_recenterRemaining s else duration);
                 s = emit [CalibrationStatus ''East'' (m_calibrationSteps s)] s;
                 s = s\<lparr>m_recenterRemaining := m_recenterRemaining s - duration,
                       m_calibrationSteps := m_calibrationSteps s - 1, m_lastLocation := loc\<rparr>
             in (emit [ScheduleAxisMove EAST duration MOVEOPTS_CALIBRATION_MOVE] s, Break)
        else
          let s = (if east_alert e loc s then (emit [AlertEastMovement] s)\<lparr>m_eastAlertShown := True\<rparr> else s);
              s = s\<lparr>m_calibrationSteps := 0, m_calibrationStartingLocation := loc\<rparr>
          in if m_decGuideMode s = DEC_NONE
             then (s\<lparr>m_calibrationState := CALIBRATION_STATE_COMPLETE,
                     m_calibration := (m_calibration s)\<lparr>yAngle := norm_angle (xAngle (m_calibration s) + pi / 2),
                       yRate := CALIBRATION_RATE_UNCALIBRATED, decGuideParity := GUIDE_PARITY_UNKNOWN\<rparr>\<rparr>, Break)
             else (s\<lparr>m_calibrationState := CALIBRATION_STATE_CLEAR_BACKLASH, m_blMarkerPoint := loc,
                     m_calibrationStartingCoords := GetRADecCoordinates e (m_calibrationStartingCoords s),
                     m_blExpectedBacklashStep := expected_backlash_step e s,
                     m_blMaxClearingPulses := max 8 (BL_MAX_CLEARING_TIME sdiv m_calibrationDuration s),
                     m_blLastCumDistance := 0, m_blAcceptedMoves := 0\<rparr>, Fall 0 0 0))"


definition accept_move :: "real \<Rightarrow> real \<Rightarrow> scope \<Rightarrow> scope" where
  "accept_move blDelta blCumDelta s =
    (if blDelta \<ge> m_blExpectedBacklashStep s
     then if m_blAcceptedMoves s = 0 \<or> blCumDelta > m_blLastCumDistance s
          then s\<lparr>m_blAcceptedMoves := m_blAcceptedMoves s + 1\<rparr>
          else s\<lparr>m_blAcceptedMoves := 0\<rparr>
     else if blCumDelta < m_blLastCumDistance s then s\<lparr>m_blAcceptedMoves := 0\<rparr> else s)"

definition to_go_north :: "real \<Rightarrow> real \<Rightarrow> real \<Rightarrow> scope \<Rightarrow> scope \<times> cal_exit" where
  "to_go_north dx dy dst s =
    (s\<lparr>m_blDistanceMoved := Distance (m_blMarkerPoint s) (m_calibrationInitialLocation s),
       m_calibrationState := CALIBRATION_STATE_GO_NORTH\<rparr>, Fall dx dy dst)"

definition cal_clear_backlash :: "cal_env \<Rightarrow> sodium_point \<Rightarrow> real \<Rightarrow> real \<Rightarrow> real \<Rightarrow> scope \<Rightarrow> scope \<times> cal_exit" where
  "cal_clear_backlash e loc dx dy dst s =
    (let s = log_step ''Backlash'' dx dy loc dst s;
         blDelta = Distance (m_blMarkerPoint s) loc;
         blCumDelta = dst
     in if m_calibrationSteps s = 0
        then (emit [CalibrationStatus ''Clearing backlash'' 1]
               ((emit [ScheduleAxisMove NORTH (m_calibrationDuration s) MOVEOPTS_CALIBRATION_MOVE] s)
                  \<lparr>m_calibrationSteps := 1\<rparr>), Break)
        else
          let s = accept_move blDelta blCumDelta s
          in if m_blAcceptedMoves s < BL_BACKLASH_MIN_COUNT
             then if m_calibrationSteps s < m_blMaxClearingPulses s \<and> blCumDelta < dist_crit s
                  then (let s = (emit [ScheduleAxisMove NORTH (m_calibrationDuration s) MOVEOPTS_CALIBRATION_MOVE] s)
                          \<lparr>m_calibrationSteps := m_calibrationSteps s + 1, m_blMarkerPoint := loc,
                           m_calibrationStartingCoords := GetRADecCoordinates e (m_calibrationStartingCoords s),
                           m_blLastCumDistance := blCumDelta\<rparr>
                        in (emit [CalibrationStatus ''Clearing backlash'' (m_calibrationSteps s)] s, Break))
                  else if blCumDelta \<ge> BL_MIN_CLEARING_DISTANCE
                  then to_go_north 0 0 0 (s\<lparr>m_calibrationSteps := 0, m_calibrationStartingLocation := loc\<rparr>)
                  else (emit [CalibrationFailed ''Backlash Clearing Failed: star did not move enough''] s, Throw)
             else let s = emit [LogCalibrationStep ''North'' 0 0 0 (m_blMarkerPoint s) 0] s;
                      s = (add_decStep 0 0 s)\<lparr>m_calibrationSteps := 1, m_calibrationStartingLocation := m_blMarkerPoint s\<rparr>
                  in to_go_north (dX (m_blMarkerPoint s) loc) (dY (m_blMarkerPoint s) loc)
                       (Distance (m_blMarkerPoint s) loc) s)"

definition north_calibration :: "cal_env \<Rightarrow> sodium_point \<Rightarrow> real \<Rightarrow> scope \<Rightarrow> calibration" where
  "north_calibration e loc dst s =
    (let c = m_calibration s;
         yA = Angle loc (m_calibrationStartingLocation s);
         n = of_int (m_calibrationSteps s * m_calibrationDuration s);
         c = (if m_assumeOrthogonal s
              then let a1 = norm_angle (xAngle c + pi / 2);
                       a2 = norm_angle (xAngle c - pi / 2);
                       a = (if \<bar>norm_angle (a1 - yA)\<bar> < \<bar>norm_angle (a2 - yA)\<bar> then a1 else a2);
                       dec_dist = dst * cos (yA - a)
                   in c\<lparr>yAngle := a, yRate := dec_dist / n\<rparr>
              else c\<lparr>yAngle := yA, yRate := dst / n\<rparr>)
     in c\<lparr>decGuideParity := dec_parity (m_calibrationStartingCoords s) e\<rparr>)"

definition north_measured :: "cal_env \<Rightarrow> sodium_point \<Rightarrow> real \<Rightarrow> scope \<Rightarrow> scope" where
  "north_measured e loc dst s =
    (let s = s\<lparr>m_calibration := north_calibration e loc dst s, m_decSteps := m_calibrationSteps s\<rparr>;
         s = emit [CalibrationDirectComplete ''North'' (yAngle (m_calibration s)) (yRate (m_calibration s))
                     (decGuideParity (m_calibration s))] s
     in s\<lparr>m_recenterRemaining := m_calibrationSteps s * m_calibrationDuration s\<rparr>)"

definition cal_go_north :: "cal_env \<Rightarrow> sodium_point \<Rightarrow> real \<Rightarrow> real \<Rightarrow> real \<Rightarrow> scope \<Rightarrow> scope \<times> cal_exit" where
  "cal_go_north e loc dx dy dst s =
    (let s = add_decStep dx dy (log_step ''North'' dx dy loc dst s)
     in if dst < dist_crit s
        then let old = m_calibrationSteps s; s = s\<lparr>m_calibrationSteps := old + 1\<rparr>
             in if old > MAX_CALIBRATION_STEPS
                then (emit [CalibrationFailed ''DEC Calibration Failed: star did not move enough''] s, Throw)
                else (emit [CalibrationStatus ''North'' (m_calibrationSteps s),
                            ScheduleAxisMove NORTH (m_calibrationDuration s) MOVEOPTS_CALIBRATION_MOVE] s, Break)
        else
          let s = north_measured e loc dst s
          in case recenter_duration e 0.8 (m_maxDecDuration s) (m_calibrationDuration s) (yRate (m_calibration s)) of
               None \<Rightarrow> (s, Undef)
             | Some d \<Rightarrow>
                 (s\<lparr>m_recenterDuration := d,
                    m_calibrationSteps := DIV_ROUND_UP (m_recenterRemaining s) d,
                    m_calibrationState := CALIBRATION_STATE_GO_SOUTH, m_southStartingLocation := loc\<rparr>,
                  Fall dx dy dst))"

definition cal_go_south :: "cal_env \<Rightarrow> sodium_point \<Rightarrow> real \<Rightarrow> real \<Rightarrow> real \<Rightarrow> scope \<Rightarrow> scope \<times> cal_exit" where
  "cal_go_south e loc dx dy dst s =
    (let s = add_decStep dx dy (log_step ''South'' dx dy loc dst s)
     in if m_recenterRemaining s > 0
        then let duration = m_recenterDuration s;
                 duration = (if duration > m_recenterRemaining s then m_recenterRemaining s else duration);
                 s = emit [CalibrationStatus ''South'' (m_calibrationSteps s)] s;
                 s = s\<lparr>m_recenterRemaining := m_recenterRemaining s - duration,
                       m_calibrationSteps := m_calibrationSteps s - 1\<rparr>
             in (emit [ScheduleAxisMove SOUTH duration MOVEOPTS_CALIBRATION_MOVE] s, Break)
        else
          let d = Distance (m_calibrationInitialLocation s) (m_southStartingLocation s);
              s = s\<lparr>m_lastLocation := loc,
                    m_northDirCosX := fdiv (dX (m_calibrationInitialLocation s) (m_southStartingLocation s)) d,
                    m_northDirCosY := fdiv (dY (m_calibrationInitialLocation s) (m_southStartingLocation s)) d\<rparr>;
              s = s\<lparr>m_totalSouthAmt := Y (MountCoords (point_sub (m_southStartingLocation s) (m_lastLocation s))
                        (xAngle (m_calibration s)) (yAngle (m_calibration s)))\<rparr>
          in (s\<lparr>m_calibrationState := CALIBRATION_STATE_NUDGE_SOUTH, m_calibrationSteps := 0\<rparr>, Fall dx dy dst))"

definition nudge_direction_ok :: "sodium_point \<Rightarrow> scope \<Rightarrow> bool" where
  \<comment> \<open>the angle between the nudge and the north moves is within 40 degrees of 180; a NaN is not\<close>
  "nudge_direction_ok loc s =
    (let nudge_amt = Distance loc (m_calibrationInitialLocation s)
     in case (fdiv (dX loc (m_calibrationInitialLocation s)) nudge_amt,
              fdiv (dY loc (m_calibrationInitialLocation s)) nudge_amt, m_northDirCosX s, m_northDirCosY s) of
          (Some nx, Some ny, Some cx, Some cy) \<Rightarrow>
             \<bar>\<bar>arccos (nx * cx + ny * cy)\<bar> * 180 / pi - 180\<bar> < 40
        | _ \<Rightarrow> False)"

definition cal_nudge_south :: "cal_env \<Rightarrow> sodium_point \<Rightarrow> real \<Rightarrow> real \<Rightarrow> real \<Rightarrow> scope \<Rightarrow> scope \<times> cal_exit" where
  "cal_nudge_south e loc dx dy dst s =
    (let nudge_amt = Distance loc (m_calibrationInitialLocation s);
         leave = (s\<lparr>m_calibrationState := CALIBRATION_STATE_COMPLETE\<rparr>, Fall dx dy dst)
     in if nudge_direction_ok loc s
        then if m_calibrationSteps s \<le> MAX_NUDGES \<and> nudge_amt > NUDGE_TOLERANCE \<and>
                nudge_amt < dist_crit s + m_blDistanceMoved s
             then let decAmt = Y (MountCoords (point_sub loc (m_calibrationInitialLocation s))
                                   (xAngle (m_calibration s)) (yAngle (m_calibration s)))
                  in if decAmt * m_totalSouthAmt s > 0
                     then let decAmt = min \<bar>decAmt\<bar> (of_int (ce_maxMovePixels e))
                          in case fdiv decAmt (yRate (m_calibration s)) of None \<Rightarrow> (s, Undef)
                             | Some q \<Rightarrow>
                                 let pulseAmt = \<lfloor>q\<rfloor>;
                                     pulseAmt = (if pulseAmt > m_calibrationDuration s then m_calibrationDuration s else pulseAmt);
                                     s = s\<lparr>m_calibrationSteps := m_calibrationSteps s + 1\<rparr>
                                 in (emit [CalibrationStatus ''Nudge South'' (m_calibrationSteps s),
                                           ScheduleAxisMove SOUTH pulseAmt MOVEOPTS_CALIBRATION_MOVE] s, Break)
                     else leave
             else leave
        else leave)"

subsection \<open>Completion and the sanity check\<close>

definition ortho_error :: "real \<Rightarrow> real \<Rightarrow> real" where
  \<comment> \<open>degrees from the nearest multiple of 90 degrees\<close>
  "ortho_error xA yA = degrees \<bar>\<bar>norm_angle (xA - yA)\<bar> - pi / 2\<bar>"

definition rates_issue :: "bool \<Rightarrow> calibration \<Rightarrow> calibration_details \<Rightarrow> bool" where
  "rates_issue decComp newCal newDetails \<longleftrightarrow>
     declination newCal \<noteq> UNKNOWN_DECLINATION \<and> yRate newCal \<noteq> CALIBRATION_RATE_UNCALIBRATED \<and>
     \<bar>declination newCal\<bar> \<le> DEC_COMP_LIMIT \<and> decComp \<and>
     (let expectedRatio = cos (declination newCal);
          speedRatio = (if raGuideSpeed newDetails > 0 then decGuideSpeed newDetails / raGuideSpeed newDetails else 1);
          actualRatio = xRate newCal * speedRatio / yRate newCal
      in \<bar>expectedRatio - actualRatio\<bar> > 0.20)"

definition different_issue :: "calibration \<Rightarrow> calibration_details \<Rightarrow> calibration \<Rightarrow> calibration_details \<Rightarrow> bool" where
  "different_issue oldCal oldDetails newCal newDetails \<longleftrightarrow>
     isValid oldCal \<and> \<bar>imageScale oldDetails - imageScale newDetails\<bar> < 0.1 \<and>
     \<bar>degrees (xAngle oldCal - xAngle newCal)\<bar> < 5 \<and>
     yRate newCal \<noteq> CALIBRATION_RATE_UNCALIBRATED \<and> yRate oldCal \<noteq> CALIBRATION_RATE_UNCALIBRATED \<and>
     yRate newCal \<noteq> 0 \<and> \<bar>1 - yRate oldCal / yRate newCal\<bar> > 0.20"

definition SanityCheckCalibration ::
    "bool \<Rightarrow> calibration \<Rightarrow> calibration_details \<Rightarrow> calibration \<Rightarrow> calibration_details \<Rightarrow> calibration_issue" where
  "SanityCheckCalibration decComp oldCal oldDetails newCal newDetails =
    (if raStepCount newDetails < 4 \<or> (decStepCount newDetails < 4 \<and> decStepCount newDetails > 0) then CI_Steps
     else let issue = (if ortho_error (xAngle newCal) (yAngle newCal) > 12.5 then CI_Angle
                       else if rates_issue decComp newCal newDetails then CI_Rates else CI_None)
          in if issue = CI_None \<and> different_issue oldCal oldDetails newCal newDetails then CI_Different else issue)"

definition SetCalibrationDetails :: "cal_env \<Rightarrow> real \<Rightarrow> real \<Rightarrow> real \<Rightarrow> calibration_details \<Rightarrow> scope \<Rightarrow> scope" where
  "SetCalibrationDetails e xA yA bin det s =
    (let (ra_rate, dec_rate) = (case ce_guideRates e of None \<Rightarrow> (-1, -1) | Some r \<Rightarrow> r);
         det = det\<lparr>raGuideSpeed := ra_rate, decGuideSpeed := dec_rate, focalLength := ce_focalLength e,
                   imageScale := ce_pixelScale e, orthoError := ortho_error xA yA, origBinning := bin,
                   origTimestamp := ce_stamp e, origPierSide := ce_pierSide e\<rparr>
     in emit [SaveCalibrationDetails det] (s\<lparr>m_calibrationDetails := det\<rparr>))"

definition store_new_cal :: "cal_env \<Rightarrow> scope \<Rightarrow> scope \<times> cfg_write list" where
  \<comment> \<open>remember the previous calibration and store the new one\<close>
  "store_new_cal e s =
    (let s = s\<lparr>m_prevCalibration := GetLastCalibration ''scope'' (ce_profile e) (m_prevCalibration s),
               m_prevCalibrationDetails := ce_prevDetails e\<rparr>
     in scope_SetCalibration (ce_stamp e)
          ((m_calibration s)\<lparr>declination := ce_declination e, pierSide := ce_pierSide e,
              rotatorAngle := ce_rotator e, binning := ce_binning e\<rparr>) s)"

definition store_new_details :: "cal_env \<Rightarrow> scope \<Rightarrow> scope" where
  "store_new_details e s =
    SetCalibrationDetails e (xAngle (m_calibration s)) (yAngle (m_calibration s)) (of_nat (unat (ce_binning e)))
      ((m_calibrationDetails s)\<lparr>raStepCount := m_raSteps s, decStepCount := m_decSteps s\<rparr>) s"

definition check_new_cal :: "(real \<Rightarrow> real) \<Rightarrow> cal_env \<Rightarrow> cfg_write list \<Rightarrow> calibration_details \<Rightarrow> scope \<Rightarrow> calibration_issue" where
  "check_new_cal rd e ws newDetails s =
    SanityCheckCalibration (m_useDecCompensation s) (m_prevCalibration s) (m_prevCalibrationDetails s)
      (GetLastCalibration ''scope'' (profile_store rd ws (ce_profile e)) (m_calibration s)) newDetails"

definition flag_issue :: "calibration_issue \<Rightarrow> calibration_details \<Rightarrow> scope \<Rightarrow> scope" where
  "flag_issue issue newDetails s =
    (let s = s\<lparr>m_lastCalibrationIssue := issue\<rparr>
     in if issue \<noteq> CI_None
        then let det = newDetails\<lparr>lastIssue := issue\<rparr>
             in emit [SaveCalibrationDetails det, CalibrationIssueAlert issue] (s\<lparr>m_calibrationDetails := det\<rparr>)
        else s)"

definition cal_complete :: "(real \<Rightarrow> real) \<Rightarrow> (calibration_details \<Rightarrow> calibration_details) \<Rightarrow> cal_env \<Rightarrow> scope \<Rightarrow> scope \<times> cal_exit" where
  \<comment> \<open>\<open>reload\<close>: what \<open>LoadCalibrationDetails\<close> reads back of the saved details\<close>
  "cal_complete rd reload e s =
    (case store_new_cal e s of (s, ws) \<Rightarrow>
       let s = store_new_details e (emit (map ProfileWrite ws) s);
           newDetails = reload (m_calibrationDetails s);
           s = flag_issue (check_new_cal rd e ws newDetails s) newDetails s
       in (emit [CalibrationComplete] s, Break))"

text \<open>The switch: from a state, its case and those it falls through to.\<close>

definition fall_to :: "(real \<Rightarrow> real \<Rightarrow> real \<Rightarrow> scope \<Rightarrow> scope \<times> cal_exit) \<Rightarrow> scope \<times> cal_exit \<Rightarrow> scope \<times> cal_exit" where
  "fall_to next r = (case r of (s, Fall dx dy dst) \<Rightarrow> next dx dy dst s | _ \<Rightarrow> r)"

definition from_complete where
  "from_complete rd reload e loc dx dy dst s = cal_complete rd reload e s"
definition from_nudge where
  "from_nudge rd reload e loc dx dy dst s = fall_to (from_complete rd reload e loc) (cal_nudge_south e loc dx dy dst s)"
definition from_south where
  "from_south rd reload e loc dx dy dst s = fall_to (from_nudge rd reload e loc) (cal_go_south e loc dx dy dst s)"
definition from_north where
  "from_north rd reload e loc dx dy dst s = fall_to (from_south rd reload e loc) (cal_go_north e loc dx dy dst s)"
definition from_backlash where
  "from_backlash rd reload e loc dx dy dst s = fall_to (from_north rd reload e loc) (cal_clear_backlash e loc dx dy dst s)"
definition from_east where
  "from_east rd reload e loc dx dy dst s = fall_to (from_backlash rd reload e loc) (cal_go_east e loc dx dy dst s)"
definition from_west where
  "from_west rd reload e loc dx dy dst s = fall_to (from_east rd reload e loc) (cal_go_west e loc dx dy dst s)"

definition note_start :: "cal_env \<Rightarrow> sodium_point \<Rightarrow> scope \<Rightarrow> scope" where
  "note_start e loc s =
    (if \<not> m_valid (m_calibrationStartingLocation s)
     then s\<lparr>m_calibrationStartingLocation := loc,
            m_calibrationStartingCoords := GetRADecCoordinates e (m_calibrationStartingCoords s)\<rparr>
     else s)"

definition UpdateCalibrationState ::
    "(real \<Rightarrow> real) \<Rightarrow> (calibration_details \<Rightarrow> calibration_details) \<Rightarrow> cal_env \<Rightarrow> sodium_point \<Rightarrow> scope \<Rightarrow> (scope \<times> bool) option" where
  \<comment> \<open>the new state and \<open>bError\<close>; \<^term>\<open>None\<close> is undefined behaviour\<close>
  "UpdateCalibrationState rd reload e currentLocation s =
    (let s = note_start e currentLocation s;
         dx = dX (m_calibrationStartingLocation s) currentLocation;
         dy = dY (m_calibrationStartingLocation s) currentLocation;
         dst = Distance (m_calibrationStartingLocation s) currentLocation;
         (s, r) = (case m_calibrationState s of
             CALIBRATION_STATE_CLEARED \<Rightarrow> (s, Break)
           | CALIBRATION_STATE_GO_WEST \<Rightarrow> from_west rd reload e currentLocation dx dy dst s
           | CALIBRATION_STATE_GO_EAST \<Rightarrow> from_east rd reload e currentLocation dx dy dst s
           | CALIBRATION_STATE_CLEAR_BACKLASH \<Rightarrow> from_backlash rd reload e currentLocation dx dy dst s
           | CALIBRATION_STATE_GO_NORTH \<Rightarrow> from_north rd reload e currentLocation dx dy dst s
           | CALIBRATION_STATE_GO_SOUTH \<Rightarrow> from_south rd reload e currentLocation dx dy dst s
           | CALIBRATION_STATE_NUDGE_SOUTH \<Rightarrow> from_nudge rd reload e currentLocation dx dy dst s
           | CALIBRATION_STATE_COMPLETE \<Rightarrow> from_complete rd reload e currentLocation dx dy dst s)
     in case r of Undef \<Rightarrow> None
        | Throw \<Rightarrow> Some (scope_ClearCalibration s, True)
        | _ \<Rightarrow> Some (s, False))"


end
