(* ===== verification/BacklashComp.thy ===== *)
theory BacklashComp
  imports Scope
begin

unbundle bit_operations_syntax

text \<open>
  \<open>src/src/algorithm/backlash_comp.cpp\<close>: \<open>BacklashComp\<close>, the Dec backlash compensation of a scope, and with it the
  scope's \<open>MoveOffset\<close>. The compensation reads and writes its scope (the longest Dec pulse, the profile), so
  its operations take and return both; the scope's own copy (\<open>m_backlashComp\<close>) is put back by \<open>scope_trackBLC\<close>
  and \<open>scope_applyBLC\<close>, which are what \<open>MoveOffset\<close> calls.
\<close>

subsection \<open>Operations\<close>

definition comp_values :: "int \<Rightarrow> int \<Rightarrow> int \<Rightarrow> backlash_comp \<Rightarrow> backlash_comp" where
  \<comment> \<open>\<open>wxMin\<close> and \<open><\<close> compare an \<open>int\<close> with an \<open>unsigned int\<close>: as unsigned numbers\<close>
  "comp_values requestedSize flr ceil b =
    (let pw = max 0 (if umod requestedSize < MAX_COMP_AMOUNT then umod requestedSize else MAX_COMP_AMOUNT);
         fl = (if flr > pw \<or> umod flr < MIN_COMP_AMOUNT then MIN_COMP_AMOUNT else flr);
         ce = (if ceil < pw then trunc (min (1.5 * of_int pw) (of_int MAX_COMP_AMOUNT))
               else if umod ceil < MAX_COMP_AMOUNT then umod ceil else MAX_COMP_AMOUNT)
     in b\<lparr>m_pulseWidth := pw, m_adjustmentFloor := fl, m_adjustmentCeiling := ce,
          m_fixedSize := (\<bar>ce - fl\<bar> < MIN_COMP_AMOUNT)\<rparr>)"

definition SetCompValues :: "int \<Rightarrow> int \<Rightarrow> int \<Rightarrow> backlash_comp \<Rightarrow> scope \<Rightarrow> backlash_comp \<times> scope" where
  "SetCompValues requestedSize flr ceil b s =
    (let b = comp_values requestedSize flr ceil b
     in (b, if m_pulseWidth b > m_maxDecDuration s \<and> m_compActive b then fst (SetMaxDecDuration (m_pulseWidth b) s) else s))"

definition BacklashComp_new :: "int \<Rightarrow> profile \<Rightarrow> scope \<Rightarrow> backlash_comp \<times> scope" where
  "BacklashComp_new now p s =
    (let lastAmt = GetInt p ''/scope/DecBacklashPulse'' 0;
         lastFloor = GetInt p ''/scope/DecBacklashFloor'' 0;
         lastCeiling = GetInt p ''/scope/DecBacklashCeiling'' 0;
         active = (if lastAmt > 0 then GetBoolean p ''/scope/BacklashCompEnabled'' False else False)
     in SetCompValues lastAmt lastFloor lastCeiling
          \<lparr>m_compActive = active, m_lastDirection = NONE, m_adjustmentFloor = 0, m_adjustmentCeiling = 0,
           m_pulseWidth = 0, m_fixedSize = False, m_pHistory = history_new now\<rparr> s)"

definition ResetBLCState :: "backlash_comp \<Rightarrow> backlash_comp" where
  "ResetBLCState b = (if m_compActive b then b\<lparr>m_lastDirection := NONE, m_pHistory := CloseWindow (m_pHistory b)\<rparr> else b)"

definition EnableBacklashComp :: "bool \<Rightarrow> backlash_comp \<Rightarrow> scope \<Rightarrow> backlash_comp \<times> scope" where
  "EnableBacklashComp enable b s =
    (let (b, s) = (if m_compActive b \<noteq> enable
           then (if enable then ResetBLCState b else b, emit [NotifyGuidingParam ''Backlash comp enabled'' (of_bool enable)] s)
           else (b, s))
     in (b\<lparr>m_compActive := enable\<rparr>, emit [ProfileWrite (SetBoolean ''/scope/BacklashCompEnabled'' enable)] s))"

definition SetBacklashPulseWidth :: "int \<Rightarrow> int \<Rightarrow> int \<Rightarrow> backlash_comp \<Rightarrow> scope \<Rightarrow> backlash_comp \<times> scope" where
  "SetBacklashPulseWidth ms flr ceil b s =
    (let (b, s) = (if m_pulseWidth b \<noteq> ms \<or> m_adjustmentFloor b \<noteq> flr \<or> m_adjustmentCeiling b \<noteq> ceil
           then let oldBLC = m_pulseWidth b;
                    (b, s) = SetCompValues ms flr ceil b s;
                    s = emit [NotifyGuidingParam ''Backlash comp amount'' (m_pulseWidth b)] s
                in (if \<bar>m_pulseWidth b - oldBLC\<bar> > 100
                    then b\<lparr>m_pHistory := CloseWindow (ClearHistory (m_pHistory b))\<rparr> else b, s)
           else (b, s))
     in (b, emit [ProfileWrite (SetInt ''/scope/DecBacklashPulse'' (m_pulseWidth b)),
                  ProfileWrite (SetInt ''/scope/DecBacklashFloor'' (m_adjustmentFloor b)),
                  ProfileWrite (SetInt ''/scope/DecBacklashCeiling'' (m_adjustmentCeiling b))] s))"

definition adjusted_pulse :: "int \<Rightarrow> backlash_comp \<Rightarrow> int" where
  "adjusted_pulse adjustment b =
    (let nominalBLC = of_int (m_pulseWidth b) + of_int adjustment :: real
     in if nominalBLC > of_int (m_pulseWidth b)
        then let newBLC = ROUND (min (of_int (m_pulseWidth b) * 1.1) nominalBLC)
             in if newBLC > m_adjustmentCeiling b then m_adjustmentCeiling b else newBLC
        else let newBLC = ROUND (max (0.8 * of_int (m_pulseWidth b)) nominalBLC)
             in if newBLC < m_adjustmentFloor b then m_adjustmentFloor b else newBLC)"

definition TrackBLCResults ::
    "int \<Rightarrow> real \<Rightarrow> u32 \<Rightarrow> real \<Rightarrow> backlash_comp \<Rightarrow> scope \<Rightarrow> (backlash_comp \<times> scope) option" where
  \<comment> \<open>\<open>minMove0\<close>: \<open>GetMinMove()\<close> of the Dec guide algorithm\<close>
  "TrackBLCResults now minMove0 moveOptions yRawOffset b s =
    (if \<not> m_compActive b then Some (b, s)
     else if moveOptions AND MOVEOPT_USE_BLC = 0 then Some (ResetBLCState b, s)
     else if moveOptions AND MOVEOPT_ALGO_RESULT = 0 then Some (b\<lparr>m_pHistory := CloseWindow (m_pHistory b)\<rparr>, s)
     else if \<not> windowOpen (m_pHistory b) \<or> m_fixedSize b then Some (b, s)
     else
       let dir = (if yRawOffset > 0 then SOUTH else NORTH);
           ms = (if dir = m_lastDirection b then \<bar>yRawOffset\<bar> else - \<bar>yRawOffset\<bar>);
           minMove = max minMove0 0
       in case AddDeflection now ms minMove (m_pHistory b) of None \<Rightarrow> None
          | Some h \<Rightarrow>
            (case AdjustmentNeeded ms minMove (yRate (m_cal s)) h of None \<Rightarrow> None
             | Some (h, None) \<Rightarrow> Some (b\<lparr>m_pHistory := h\<rparr>, s)
             | Some (h, Some adjustment) \<Rightarrow>
                 let b = b\<lparr>m_pHistory := h\<rparr>; newBLC = adjusted_pulse adjustment b
                 in Some (SetCompValues newBLC (m_adjustmentFloor b) (m_adjustmentCeiling b) b
                            (emit [ProfileWrite (SetInt ''/scope/DecBacklashPulse'' newBLC)] s))))"

definition ApplyBacklashComp :: "int \<Rightarrow> u32 \<Rightarrow> real \<Rightarrow> int \<Rightarrow> backlash_comp \<Rightarrow> backlash_comp \<times> int" where
  "ApplyBacklashComp now moveOptions yGuideDistance yAmount b =
    (if moveOptions AND MOVEOPT_USE_BLC = 0 then (b, yAmount)
     else if \<not> m_compActive b \<or> m_pulseWidth b \<le> 0 \<or> yGuideDistance = 0 then (b, yAmount)
     else
       let dir = (if yGuideDistance > 0 then SOUTH else NORTH);
           (b, yAmount) = (if m_lastDirection b \<noteq> NONE \<and> dir \<noteq> m_lastDirection b
             then (if moveOptions AND MOVEOPT_ALGO_RESULT \<noteq> 0
                   then b\<lparr>m_pHistory := RecordNewBLCPulse now yGuideDistance (m_pHistory b)\<rparr>
                   else b\<lparr>m_pHistory := CloseWindow (m_pHistory b)\<rparr>, yAmount + m_pulseWidth b)
             else (b, yAmount))
       in (b\<lparr>m_lastDirection := dir\<rparr>, yAmount))"

subsection \<open>The scope's \<open>MoveOffset\<close>\<close>

definition scope_trackBLC :: "int \<Rightarrow> real \<Rightarrow> u32 \<Rightarrow> real \<Rightarrow> scope \<Rightarrow> scope option" where
  "scope_trackBLC now minMove0 opts y s =
    (case m_backlashComp s of None \<Rightarrow> Some s
     | Some b \<Rightarrow> (case TrackBLCResults now minMove0 opts y b s of None \<Rightarrow> None
                  | Some (b, s) \<Rightarrow> Some (s\<lparr>m_backlashComp := Some b\<rparr>)))"

definition scope_applyBLC :: "int \<Rightarrow> u32 \<Rightarrow> real \<Rightarrow> int \<Rightarrow> scope \<Rightarrow> scope \<times> int" where
  "scope_applyBLC now opts y n s =
    (case m_backlashComp s of None \<Rightarrow> (s, n)
     | Some b \<Rightarrow> (case ApplyBacklashComp now opts y n b of (b, n) \<Rightarrow> (s\<lparr>m_backlashComp := Some b\<rparr>, n)))"

definition scope_MoveOffset ::
    "(guide_direction \<Rightarrow> int \<Rightarrow> move_result) \<Rightarrow> int \<Rightarrow> real \<Rightarrow> ('g \<Rightarrow> real \<Rightarrow> 'g \<times> real option) \<Rightarrow> ('g \<Rightarrow> 'g \<times> real) \<Rightarrow> 'i \<Rightarrow>
     guider_offset \<Rightarrow> u32 \<Rightarrow> (scope, 'g, 'i) move_state \<Rightarrow> ((scope, 'g, 'i) move_state \<times> guider_offset \<times> move_result) option" where
  "scope_MoveOffset guide now minMove0 =
     MoveOffset (scope_MoveAxis guide now) (scope_applyBLC now) (scope_trackBLC now minMove0)"

subsection \<open>The settings stay consistent\<close>

definition comp_ok :: "backlash_comp \<Rightarrow> bool" where
  "comp_ok b \<longleftrightarrow> 0 \<le> m_pulseWidth b \<and> m_pulseWidth b \<le> m_adjustmentCeiling b \<and>
     m_adjustmentCeiling b \<le> MAX_COMP_AMOUNT \<and> MIN_COMP_AMOUNT \<le> m_adjustmentFloor b \<and>
     (m_adjustmentFloor b \<le> m_pulseWidth b \<or> m_adjustmentFloor b = MIN_COMP_AMOUNT) \<and>
     (m_fixedSize b \<longleftrightarrow> \<bar>m_adjustmentCeiling b - m_adjustmentFloor b\<bar> < MIN_COMP_AMOUNT) \<and> history_ok (m_pHistory b)"

lemmas comp_consts = MIN_COMP_AMOUNT_def MAX_COMP_AMOUNT_def

lemma default_ceiling:
  assumes "0 \<le> pw" "pw \<le> 8000"
  shows "pw \<le> trunc (min (1.5 * of_int pw) 8000)" "trunc (min (1.5 * of_int pw) 8000) \<le> 8000"
proof -
  have "trunc (min (1.5 * of_int pw) 8000) = \<lfloor>min (1.5 * of_int pw) (8000::real)\<rfloor>" using assms(1) by (simp add: trunc_def)
  then show "pw \<le> trunc (min (1.5 * of_int pw) 8000)" "trunc (min (1.5 * of_int pw) 8000) \<le> 8000"
    using assms by (simp_all add: le_floor_iff floor_le_iff min_def)
qed

lemma SetCompValues_ok:
  assumes "SetCompValues req fl ce b s = (b', s')" "0 \<le> req" "req < 2 ^ 31" "0 \<le> fl" "fl < 2 ^ 31" "ce < 2 ^ 31"
    "history_ok (m_pHistory b)"
  shows "comp_ok b'" "m_pulseWidth b' = min req MAX_COMP_AMOUNT" "m_pHistory b' = m_pHistory b"
    "m_lastDirection b' = m_lastDirection b" "m_compActive b' = m_compActive b"
proof -
  obtain pw where w: "pw = min req 8000" by blast
  have pw: "max 0 (if umod req < MAX_COMP_AMOUNT then umod req else MAX_COMP_AMOUNT) = pw"
    using assms(2,3) by (auto simp: comp_consts w)
  have p: "0 \<le> pw" "pw \<le> 8000" using assms(2) by (auto simp: w)
  note d = default_ceiling [OF p]
  have fl: "umod fl = fl" using assms(4,5) by simp
  have ce: "umod ce = ce" if "pw \<le> ce" using that p assms(6) by simp
  have b': "b' = comp_values req fl ce b" using assms(1) by (simp add: SetCompValues_def Let_def)
  note u = b' [unfolded comp_values_def Let_def pw fl]
  show "m_pulseWidth b' = min req MAX_COMP_AMOUNT" "m_pHistory b' = m_pHistory b"
    "m_lastDirection b' = m_lastDirection b" "m_compActive b' = m_compActive b"
    using w by (simp_all add: u comp_consts)
  show "comp_ok b'"
  proof (cases "ce < pw")
    case True
    then show ?thesis using p d assms(7) by (auto simp: comp_ok_def u comp_consts)
  next
    case False
    then have "umod ce = ce" using ce by simp
    then show ?thesis using False p assms(7) by (auto simp: comp_ok_def u comp_consts)
  qed
qed

lemma SetMaxDecDuration_frame:
  assumes "0 \<le> d"
  shows "m_xRate (fst (SetMaxDecDuration d s)) = m_xRate s" "m_cal (fst (SetMaxDecDuration d s)) = m_cal s"
    "m_maxRaDuration (fst (SetMaxDecDuration d s)) = m_maxRaDuration s" "m_maxDecDuration (fst (SetMaxDecDuration d s)) = d"
    "m_backlashComp (fst (SetMaxDecDuration d s)) = m_backlashComp s"
  using assms by (simp_all add: SetMaxDecDuration_def emit_def)

lemma SetCompValues_scope:
  assumes "SetCompValues req fl ce b s = (b', s')" "0 \<le> m_pulseWidth b'"
  shows "m_xRate s' = m_xRate s" "m_cal s' = m_cal s" "limits_ok s \<Longrightarrow> limits_ok s'" "m_backlashComp s' = m_backlashComp s"
    "m_maxRaDuration s' = m_maxRaDuration s"
proof -
  have "s' = (if m_pulseWidth b' > m_maxDecDuration s \<and> m_compActive b' then fst (SetMaxDecDuration (m_pulseWidth b') s) else s)"
    using assms(1) by (auto simp: SetCompValues_def Let_def)
  then show "m_xRate s' = m_xRate s" "m_cal s' = m_cal s" "limits_ok s \<Longrightarrow> limits_ok s'" "m_backlashComp s' = m_backlashComp s"
    "m_maxRaDuration s' = m_maxRaDuration s"
    using SetMaxDecDuration_frame [OF assms(2), of s] assms(2) by (simp_all add: limits_ok_def)
qed

lemma SetCompValues_same:
  assumes "SetCompValues n (m_adjustmentFloor b) (m_adjustmentCeiling b) b s = (b', s')" "comp_ok b"
    "0 \<le> n" "n \<le> m_adjustmentCeiling b" "m_adjustmentFloor b \<le> n \<or> m_adjustmentFloor b = MIN_COMP_AMOUNT"
  shows "m_adjustmentFloor b' = m_adjustmentFloor b" "m_adjustmentCeiling b' = m_adjustmentCeiling b" "m_pulseWidth b' = n"
    "comp_ok b'"
proof -
  have r: "m_adjustmentFloor b < 2 ^ 31" "0 \<le> m_adjustmentFloor b"
    using assms(2) by (auto simp: comp_ok_def comp_consts)
  have n: "n \<le> 8000" using assms(2,4) by (simp add: comp_ok_def comp_consts)
  have u: "umod n = n" "umod (m_adjustmentFloor b) = m_adjustmentFloor b" "umod (m_adjustmentCeiling b) = m_adjustmentCeiling b"
    using assms(2-4) n r by (auto simp: comp_ok_def comp_consts)
  have b': "b' = comp_values n (m_adjustmentFloor b) (m_adjustmentCeiling b) b"
    using assms(1) by (simp add: SetCompValues_def Let_def)
  show "m_pulseWidth b' = n" "m_adjustmentFloor b' = m_adjustmentFloor b" "m_adjustmentCeiling b' = m_adjustmentCeiling b"
    using assms(2-5) n by (auto simp: b' comp_values_def Let_def u comp_ok_def comp_consts)
  show "comp_ok b'" using SetCompValues_ok(1) [OF assms(1)] assms(2-4) n r by (simp add: comp_ok_def comp_consts)
qed

text \<open>One adjustment changes the pulse by at most a tenth up or a fifth down.\<close>

lemma ROUND_mono: "x \<le> y \<Longrightarrow> ROUND x \<le> ROUND y"
  by (simp add: ROUND_def floor_mono)

lemma ROUND_of_int [simp]: "ROUND (of_int n) = n"
  unfolding ROUND_def by linarith

lemma adjusted_pulse_bounds:
  assumes "comp_ok b" "\<not> m_fixedSize b" "0 < m_pulseWidth b"
  shows "0 \<le> adjusted_pulse a b" "adjusted_pulse a b \<le> m_adjustmentCeiling b"
    "m_adjustmentFloor b \<le> adjusted_pulse a b \<or> m_adjustmentFloor b = MIN_COMP_AMOUNT"
    "adjusted_pulse a b \<le> max (ROUND (1.1 * of_int (m_pulseWidth b))) MIN_COMP_AMOUNT"
    "min (m_pulseWidth b) (ROUND (0.8 * of_int (m_pulseWidth b))) \<le> adjusted_pulse a b"
    "m_pulseWidth b \<le> adjusted_pulse a b \<or> m_adjustmentFloor b \<le> adjusted_pulse a b"
proof -
  let ?p = "m_pulseWidth b"
  have p: "0 \<le> ?p" "?p \<le> m_adjustmentCeiling b" "m_adjustmentCeiling b \<le> 8000" "20 \<le> m_adjustmentFloor b"
    "m_adjustmentFloor b \<le> ?p \<or> m_adjustmentFloor b = 20" "40 \<le> m_adjustmentCeiling b \<or> m_adjustmentFloor b \<le> ?p"
    using assms by (auto simp: comp_ok_def comp_consts)
  have up: "?p \<le> ROUND (min (of_int ?p * 1.1) (of_int ?p + of_int a))" if "a > 0"
  proof -
    have "ROUND (of_int ?p) \<le> ROUND (min (of_int ?p * 1.1) (of_int ?p + of_int a))"
      using that p(1) by (intro ROUND_mono) (simp add: min_def)
    then show ?thesis by simp
  qed
  have up2: "ROUND (min (of_int ?p * 1.1) (of_int ?p + of_int a)) \<le> ROUND (1.1 * of_int ?p)"
    by (intro ROUND_mono) (simp add: min_def)
  have dn: "ROUND (max (0.8 * of_int ?p) (of_int ?p + of_int a)) \<le> ?p" if "a \<le> 0"
  proof -
    have "ROUND (max (0.8 * of_int ?p) (of_int ?p + of_int a)) \<le> ROUND (of_int ?p)"
      using that p(1) by (intro ROUND_mono) simp
    then show ?thesis by simp
  qed
  have dn2: "ROUND (0.8 * of_int ?p) \<le> ROUND (max (0.8 * of_int ?p) (of_int ?p + of_int a))" by (intro ROUND_mono) simp
  have r: "?p \<le> ROUND (1.1 * of_int ?p)"
    using ROUND_mono [of "of_int ?p" "1.1 * of_int ?p"] p(1) by simp
  have z: "0 \<le> ROUND (0.8 * of_int ?p)" using ROUND_mono [of 0 "0.8 * of_int ?p"] p(1) by (simp add: ROUND_def)
  have e: "adjusted_pulse a b = (if a > 0
      then min (m_adjustmentCeiling b) (ROUND (min (of_int ?p * 1.1) (of_int ?p + of_int a)))
      else max (m_adjustmentFloor b) (ROUND (max (0.8 * of_int ?p) (of_int ?p + of_int a))))"
    by (auto simp: adjusted_pulse_def Let_def)
  show "0 \<le> adjusted_pulse a b" "adjusted_pulse a b \<le> m_adjustmentCeiling b"
    "m_adjustmentFloor b \<le> adjusted_pulse a b \<or> m_adjustmentFloor b = MIN_COMP_AMOUNT"
    "adjusted_pulse a b \<le> max (ROUND (1.1 * of_int ?p)) MIN_COMP_AMOUNT"
    "min ?p (ROUND (0.8 * of_int ?p)) \<le> adjusted_pulse a b"
    "?p \<le> adjusted_pulse a b \<or> m_adjustmentFloor b \<le> adjusted_pulse a b"
    using p up up2 dn dn2 r z by (auto simp: e comp_consts)
qed

subsection \<open>Runs of the compensation\<close>

lemma comp_ok_history: "comp_ok b \<Longrightarrow> history_ok h \<Longrightarrow> comp_ok (b\<lparr>m_pHistory := h\<rparr>)"
  by (simp add: comp_ok_def)

lemma comp_ok_direction: "comp_ok b \<Longrightarrow> comp_ok (b\<lparr>m_lastDirection := d\<rparr>)"
  by (simp add: comp_ok_def)

lemma comp_ok_active: "comp_ok b \<Longrightarrow> comp_ok (b\<lparr>m_compActive := a\<rparr>)"
  by (simp add: comp_ok_def)

lemma ResetBLCState_ok: "comp_ok b \<Longrightarrow> comp_ok (ResetBLCState b)"
  by (simp add: ResetBLCState_def comp_ok_def)

lemma ApplyBacklashComp_ok: "comp_ok b \<Longrightarrow> comp_ok (fst (ApplyBacklashComp now opts y n b))"
  by (auto simp: ApplyBacklashComp_def comp_ok_def RecordNewBLCPulse_ok Let_def)

lemma ApplyBacklashComp_frame:
  "m_pulseWidth (fst (ApplyBacklashComp now opts y n b)) = m_pulseWidth b"
  "m_adjustmentCeiling (fst (ApplyBacklashComp now opts y n b)) = m_adjustmentCeiling b"
  "m_compActive (fst (ApplyBacklashComp now opts y n b)) = m_compActive b"
  "comp_ok b \<Longrightarrow> n \<le> snd (ApplyBacklashComp now opts y n b) \<and> snd (ApplyBacklashComp now opts y n b) \<le> n + m_pulseWidth b"
  by (auto simp: ApplyBacklashComp_def comp_ok_def Let_def)

lemma adjusted_pulse_range:
  assumes "comp_ok b"
  shows "0 \<le> adjusted_pulse a b" "adjusted_pulse a b \<le> 8000"
proof -
  let ?p = "m_pulseWidth b"
  have p: "0 \<le> ?p" "?p \<le> 8000" "m_adjustmentCeiling b \<le> 8000" "0 \<le> m_adjustmentCeiling b" "20 \<le> m_adjustmentFloor b"
    "m_adjustmentFloor b \<le> 8000" using assms by (auto simp: comp_ok_def comp_consts)
  have "0 \<le> ROUND (min (of_int ?p * 1.1) (of_int ?p + of_int a))" if "a > 0"
    using that p(1) ROUND_mono [of 0 "min (of_int ?p * 1.1) (of_int ?p + of_int a)"] by (simp add: ROUND_def)
  moreover have "ROUND (max (0.8 * of_int ?p) (of_int ?p + of_int a)) \<le> 8000" if "a \<le> 0"
    using that p(1,2) ROUND_mono [of "max (0.8 * of_int ?p) (of_int ?p + of_int a)" 8000] by (simp add: ROUND_def)
  ultimately show "0 \<le> adjusted_pulse a b" "adjusted_pulse a b \<le> 8000"
    using p by (auto simp: adjusted_pulse_def Let_def)
qed

definition track_ok :: "backlash_comp \<Rightarrow> scope \<Rightarrow> backlash_comp \<Rightarrow> scope \<Rightarrow> bool" where
  \<comment> \<open>what tracking keeps\<close>
  "track_ok b s b' s' \<longleftrightarrow> comp_ok b' \<and> m_xRate s' = m_xRate s \<and> m_cal s' = m_cal s \<and> (limits_ok s \<longrightarrow> limits_ok s') \<and>
     m_maxRaDuration s' = m_maxRaDuration s \<and>
     (0 < m_pulseWidth b \<longrightarrow> m_adjustmentFloor b' = m_adjustmentFloor b \<and> m_adjustmentCeiling b' = m_adjustmentCeiling b \<and>
        (m_pulseWidth b' = m_pulseWidth b \<or> (\<exists>a. m_pulseWidth b' = adjusted_pulse a b \<and> \<not> m_fixedSize b)))"

lemma track_ok_same:
  "comp_ok b' \<Longrightarrow> m_adjustmentFloor b' = m_adjustmentFloor b \<Longrightarrow> m_adjustmentCeiling b' = m_adjustmentCeiling b \<Longrightarrow>
   m_pulseWidth b' = m_pulseWidth b \<Longrightarrow> track_ok b s b' s"
  by (simp add: track_ok_def)

lemma track_ok_adjusted:
  assumes b: "comp_ok b" and nf: "\<not> m_fixedSize b"
    and r: "SetCompValues (adjusted_pulse a b) (m_adjustmentFloor b) (m_adjustmentCeiling b) b (emit ev s) = (b', s')"
  shows "track_ok b s b' s'"
proof -
  note n = adjusted_pulse_range [OF b, of a]
  have rng: "adjusted_pulse a b < 2 ^ 31" "0 \<le> m_adjustmentFloor b" "m_adjustmentFloor b < 2 ^ 31" "m_adjustmentCeiling b < 2 ^ 31"
    "history_ok (m_pHistory b)" using n b by (auto simp: comp_ok_def comp_consts)
  have ok: "comp_ok b'" by (rule SetCompValues_ok(1) [OF r n(1) rng])
  then have "0 \<le> m_pulseWidth b'" by (simp add: comp_ok_def)
  note sc = SetCompValues_scope [OF r this]
  have same: "m_adjustmentFloor b' = m_adjustmentFloor b \<and> m_adjustmentCeiling b' = m_adjustmentCeiling b \<and>
      m_pulseWidth b' = adjusted_pulse a b" if "0 < m_pulseWidth b"
    using SetCompValues_same(1-3) [OF r b] adjusted_pulse_bounds(1-3) [OF b nf that, of a] by blast
  have fr: "m_xRate (emit ev s) = m_xRate s" "m_cal (emit ev s) = m_cal s" "limits_ok (emit ev s) = limits_ok s"
    "m_maxRaDuration (emit ev s) = m_maxRaDuration s" by (simp_all add: emit_def limits_ok_def)
  show ?thesis unfolding track_ok_def using ok sc fr same nf by metis
qed

lemma TrackBLCResults_ok:
  assumes "comp_ok b" "yRate (m_cal s) \<noteq> 0"
  obtains b' s' where "TrackBLCResults now mm opts y b s = Some (b', s')" "track_ok b s b' s'"
proof -
  consider (done1) "\<not> m_compActive b \<or> opts AND MOVEOPT_USE_BLC = 0 \<or> opts AND MOVEOPT_ALGO_RESULT = 0 \<or>
      \<not> windowOpen (m_pHistory b) \<or> m_fixedSize b"
    | (go) "m_compActive b" "opts AND MOVEOPT_USE_BLC \<noteq> 0" "opts AND MOVEOPT_ALGO_RESULT \<noteq> 0" "windowOpen (m_pHistory b)"
      "\<not> m_fixedSize b" by blast
  then show ?thesis
  proof cases
    case done1
    let ?r = "if \<not> m_compActive b then b else if opts AND MOVEOPT_USE_BLC = 0 then ResetBLCState b
        else if opts AND MOVEOPT_ALGO_RESULT = 0 then b\<lparr>m_pHistory := CloseWindow (m_pHistory b)\<rparr> else b"
    have "TrackBLCResults now mm opts y b s = Some (?r, s)"
      using done1 unfolding TrackBLCResults_def by (cases "m_compActive b"; cases "opts AND MOVEOPT_USE_BLC = 0";
        cases "opts AND MOVEOPT_ALGO_RESULT = 0") simp_all
    moreover have "track_ok b s ?r s"
      by (rule track_ok_same) (use assms(1) in \<open>simp_all add: comp_ok_def ResetBLCState_def\<close>)
    ultimately show ?thesis by (rule that)
  next
    case go
    have h: "history_ok (m_pHistory b)" using assms(1) by (simp add: comp_ok_def)
    define ms where "ms = (if (if y > 0 then SOUTH else NORTH) = m_lastDirection b then \<bar>y\<bar> else - \<bar>y\<bar>)"
    obtain h1 where h1: "AddDeflection now ms (max mm 0) (m_pHistory b) = Some h1" "history_ok h1" "blcEvents h1 \<noteq> []"
      "blcIndex h1 = int (length (blcEvents h1)) - 1" "2 \<le> InfoCount (last (blcEvents h1))"
      using AddDeflection_ok [OF h go(4)] .
    obtain h2 c where h2: "AdjustmentNeeded ms (max mm 0) (yRate (m_cal s)) h1 = Some (h2, c)" "history_ok h2"
      using AdjustmentNeeded_ok [OF h1(2-5) assms(2)] .
    define b2 where "b2 = b\<lparr>m_pHistory := h2\<rparr>"
    have b2: "comp_ok b2" using comp_ok_history [OF assms(1) h2(2)] by (simp add: b2_def)
    have t: "TrackBLCResults now mm opts y b s = (case c of None \<Rightarrow> Some (b2, s)
      | Some a \<Rightarrow> Some (SetCompValues (adjusted_pulse a b2) (m_adjustmentFloor b2) (m_adjustmentCeiling b2) b2
                   (emit [ProfileWrite (SetInt ''/scope/DecBacklashPulse'' (adjusted_pulse a b2))] s)))"
      using go h1(1) h2(1) by (simp add: TrackBLCResults_def ms_def b2_def Let_def split: option.split)
    have sm: "track_ok b2 s b' s' \<longleftrightarrow> track_ok b s b' s'" for b' s'
    proof -
      have "adjusted_pulse a b2 = adjusted_pulse a b" for a by (simp add: adjusted_pulse_def b2_def Let_def)
      moreover have "m_pulseWidth b2 = m_pulseWidth b" "m_adjustmentFloor b2 = m_adjustmentFloor b"
        "m_adjustmentCeiling b2 = m_adjustmentCeiling b" "m_fixedSize b2 = m_fixedSize b" by (simp_all add: b2_def)
      ultimately show "track_ok b2 s b' s' \<longleftrightarrow> track_ok b s b' s'" by (simp only: track_ok_def)
    qed
    show ?thesis
    proof (cases c)
      case None
      have "track_ok b s b2 s" using sm track_ok_same [OF b2 refl refl refl] by blast
      then show ?thesis using that t None by simp
    next
      case (Some a)
      obtain b' s' where r: "SetCompValues (adjusted_pulse a b2) (m_adjustmentFloor b2) (m_adjustmentCeiling b2) b2
         (emit [ProfileWrite (SetInt ''/scope/DecBacklashPulse'' (adjusted_pulse a b2))] s) = (b', s')" by fastforce
      have "track_ok b2 s b' s'" by (rule track_ok_adjusted [OF b2 _ r]) (use go(5) in \<open>simp add: b2_def\<close>)
      then show ?thesis using that sm t Some r by simp
    qed
  qed
qed

text \<open>One tracked result changes the compensation pulse by at most a tenth of it upwards (to the 20 ms minimum at
  least) or a fifth of it downwards, never across the ceiling or, downwards, the floor, and it leaves both alone.\<close>
theorem blc_adjustment_bounded:
  assumes "TrackBLCResults now minMove opts y b s = Some (b', s')" and "comp_ok b" and "0 < m_pulseWidth b"
    and "yRate (m_cal s) \<noteq> 0"
  shows "m_adjustmentFloor b' = m_adjustmentFloor b \<and> m_adjustmentCeiling b' = m_adjustmentCeiling b \<and>
    m_pulseWidth b' \<le> m_adjustmentCeiling b \<and>
    (m_pulseWidth b \<le> m_pulseWidth b' \<or> m_adjustmentFloor b \<le> m_pulseWidth b') \<and>
    m_pulseWidth b' \<le> max (max (ROUND (1.1 * of_int (m_pulseWidth b))) MIN_COMP_AMOUNT) (m_pulseWidth b) \<and>
    min (m_pulseWidth b) (ROUND (0.8 * of_int (m_pulseWidth b))) \<le> m_pulseWidth b'"
proof -
  have "m_pulseWidth b \<le> m_adjustmentCeiling b" using assms(2) by (simp add: comp_ok_def)
  moreover have "m_adjustmentFloor b' = m_adjustmentFloor b \<and> m_adjustmentCeiling b' = m_adjustmentCeiling b \<and>
       (m_pulseWidth b' = m_pulseWidth b \<or> (\<exists>a. m_pulseWidth b' = adjusted_pulse a b \<and> \<not> m_fixedSize b))"
    by (rule TrackBLCResults_ok [OF assms(2,4), of now minMove opts y]) (use assms(1,3) in \<open>auto simp: track_ok_def\<close>)
  moreover note adjusted_pulse_bounds [OF assms(2) _ assms(3)]
  ultimately show ?thesis by (elim conjE disjE exE) (simp_all add: le_max_iff_disj)
qed

definition sample_blc :: backlash_comp where
  "sample_blc = \<lparr>m_compActive = True, m_lastDirection = SOUTH, m_adjustmentFloor = 100, m_adjustmentCeiling = 300,
     m_pulseWidth = 200, m_fixedSize = False, m_pHistory = history_new 0\<rparr>"

lemma sample_blc_ok: "comp_ok sample_blc"
  by (simp add: comp_ok_def sample_blc_def comp_consts)

theorem blc_adjustment_bounded_witness:
  "case TrackBLCResults 1 0 MOVEOPTS_GUIDE_STEP 1 sample_blc sample_scope of None \<Rightarrow> False
   | Some (b', s') \<Rightarrow> m_pulseWidth b' \<le> 300 \<and> 160 \<le> m_pulseWidth b'"
proof -
  have y: "yRate (m_cal sample_scope) \<noteq> 0" by (simp add: sample_scope_def sample_cal_def)
  obtain b' s' where t: "TrackBLCResults 1 0 MOVEOPTS_GUIDE_STEP 1 sample_blc sample_scope = Some (b', s')"
    using TrackBLCResults_ok [OF sample_blc_ok y, of 1 0 MOVEOPTS_GUIDE_STEP 1] by blast
  have "0 < m_pulseWidth sample_blc" by (simp add: sample_blc_def)
  from blc_adjustment_bounded [OF t sample_blc_ok this y] show ?thesis
    by (simp add: t) (simp add: sample_blc_def ROUND_def)
qed

text \<open>Arbitrary sequences of the operations.\<close>

datatype blc_op = BTrack int real u32 real | BApply int u32 real int | BSet int int int | BEnable bool | BReset

fun blc_step :: "blc_op \<Rightarrow> backlash_comp \<times> scope \<Rightarrow> (backlash_comp \<times> scope) option" where
  "blc_step (BTrack now mm opts y) (b, s) = TrackBLCResults now mm opts y b s"
| "blc_step (BApply now opts y n) (b, s) = Some (fst (ApplyBacklashComp now opts y n b), s)"
| "blc_step (BSet ms fl ce) (b, s) = Some (SetBacklashPulseWidth ms fl ce b s)"
| "blc_step (BEnable e) (b, s) = Some (EnableBacklashComp e b s)"
| "blc_step BReset (b, s) = Some (ResetBLCState b, s)"

fun blc_run :: "blc_op list \<Rightarrow> backlash_comp \<times> scope \<Rightarrow> (backlash_comp \<times> scope) option" where
  "blc_run [] st = Some st"
| "blc_run (op # ops) st = (case blc_step op st of None \<Rightarrow> None | Some st' \<Rightarrow> blc_run ops st')"

definition int_ok :: "int \<Rightarrow> bool" where
  \<comment> \<open>a nonnegative \<open>int\<close>\<close>
  "int_ok x \<longleftrightarrow> 0 \<le> x \<and> x < 2 ^ 31"

fun op_ok :: "blc_op \<Rightarrow> bool" where
  "op_ok (BSet ms fl ce) = (int_ok ms \<and> int_ok fl \<and> int_ok ce)"
| "op_ok _ = True"

lemma SetBacklashPulseWidth_ok:
  assumes "comp_ok b" "int_ok ms" "int_ok fl" "int_ok ce"
  shows "comp_ok (fst (SetBacklashPulseWidth ms fl ce b s)) \<and> m_cal (snd (SetBacklashPulseWidth ms fl ce b s)) = m_cal s"
proof -
  obtain b' s' where r: "SetCompValues ms fl ce b s = (b', s')" by fastforce
  have ok: "comp_ok b'" using SetCompValues_ok(1) [OF r] assms by (simp add: int_ok_def comp_ok_def)
  then have c: "m_cal s' = m_cal s" using SetCompValues_scope(2) [OF r] by (simp add: comp_ok_def)
  show ?thesis using ok c assms(1) by (auto simp: SetBacklashPulseWidth_def r Let_def comp_ok_def emit_def)
qed

lemma blc_step_ok:
  assumes "op_ok op" "comp_ok b" "yRate (m_cal s) \<noteq> 0"
  shows "\<exists>b' s'. blc_step op (b, s) = Some (b', s') \<and> comp_ok b' \<and> m_cal s' = m_cal s"
proof (cases op)
  case (BTrack now mm opts y)
  obtain b' s' where t: "TrackBLCResults now mm opts y b s = Some (b', s')" "track_ok b s b' s'"
    using TrackBLCResults_ok [OF assms(2,3)] .
  have "comp_ok b'" "m_cal s' = m_cal s" using t(2) by (simp_all add: track_ok_def)
  then show ?thesis using t(1) by (simp add: BTrack)
next
  case (BSet ms fl ce)
  obtain b' s' where t: "SetBacklashPulseWidth ms fl ce b s = (b', s')" by fastforce
  have "comp_ok b'" "m_cal s' = m_cal s"
    using SetBacklashPulseWidth_ok [OF assms(2), of ms fl ce s] assms(1) by (simp_all add: BSet t)
  then show ?thesis using t by (simp add: BSet)
next
  case (BEnable e)
  obtain b' s' where t: "EnableBacklashComp e b s = (b', s')" by fastforce
  then have "comp_ok b'" "m_cal s' = m_cal s"
    using comp_ok_active [OF assms(2)] comp_ok_active [OF ResetBLCState_ok [OF assms(2)]]
    by (auto simp: EnableBacklashComp_def emit_def Let_def split: if_splits)
  then show ?thesis using t by (simp add: BEnable)
next
  case (BApply now opts y n)
  then show ?thesis using ApplyBacklashComp_ok [OF assms(2)] by simp
next
  case BReset
  then show ?thesis using ResetBLCState_ok [OF assms(2)] by simp
qed

lemma blc_run_ok:
  assumes "list_all op_ok ops" "comp_ok b" "yRate (m_cal s) \<noteq> 0"
  shows "\<exists>b' s'. blc_run ops (b, s) = Some (b', s') \<and> comp_ok b'"
  using assms
proof (induction ops arbitrary: b s)
  case (Cons op ops)
  then show ?case using blc_step_ok [of op b s] by fastforce
qed simp

text \<open>C17: The backlash compensation never reads outside its history and never leaves its limits: from its
  construction, over any sequence of tracked results, compensated moves, and changes of the settings with
  non-negative values, every operation is defined as long as the Dec rate is not zero; the pulse stays
  between 0 and the ceiling, the ceiling at most 8000 ms, and the floor at least 20 ms.\<close>
theorem blc_always_defined:
  assumes "list_all op_ok ops" and "yRate (m_cal s) \<noteq> 0"
    and "int_ok (GetInt p ''/scope/DecBacklashPulse'' 0)" "int_ok (GetInt p ''/scope/DecBacklashFloor'' 0)"
    and "int_ok (GetInt p ''/scope/DecBacklashCeiling'' 0)"
  shows "case blc_run ops (BacklashComp_new now p s) of None \<Rightarrow> False
    | Some (b, _) \<Rightarrow> 0 \<le> m_pulseWidth b \<and> m_pulseWidth b \<le> m_adjustmentCeiling b \<and> m_adjustmentCeiling b \<le> 8000 \<and>
        20 \<le> m_adjustmentFloor b \<and> length (blcEvents (m_pHistory b)) \<le> 10"
proof -
  obtain b s1 where n: "BacklashComp_new now p s = (b, s1)" by fastforce
  note r = n [unfolded BacklashComp_new_def Let_def]
  have ok: "comp_ok b" using SetCompValues_ok(1) [OF r] assms(3-5) by (simp add: int_ok_def)
  then have "m_cal s1 = m_cal s" using SetCompValues_scope(2) [OF r] by (simp add: comp_ok_def)
  then obtain b' s' where "blc_run ops (b, s1) = Some (b', s')" "comp_ok b'"
    using blc_run_ok [OF assms(1) ok, of s1] assms(2) by auto
  then show ?thesis by (simp add: n comp_ok_def comp_consts history_ok_def HISTORY_DEPTH_def)
qed

theorem blc_always_defined_witness:
  "case blc_run [BSet 200 100 300, BEnable True, BApply 1 MOVEOPTS_GUIDE_STEP 1 50, BApply 2 MOVEOPTS_GUIDE_STEP (-1) 50,
      BTrack 3 0 MOVEOPTS_GUIDE_STEP 1] (BacklashComp_new 0 (\<lambda>_. None) sample_scope) of None \<Rightarrow> False
    | Some (b, _) \<Rightarrow> m_pulseWidth b \<le> 8000"
proof -
  let ?ops = "[BSet 200 100 300, BEnable True, BApply 1 MOVEOPTS_GUIDE_STEP 1 50, BApply 2 MOVEOPTS_GUIDE_STEP (-1) 50,
      BTrack 3 0 MOVEOPTS_GUIDE_STEP 1]"
  have "list_all op_ok ?ops" "yRate (m_cal sample_scope) \<noteq> 0" "int_ok (GetInt (\<lambda>_. None) k 0)" for k
    by (simp_all add: int_ok_def sample_scope_def sample_cal_def GetInt_def)
  from blc_always_defined [OF this(1,2) this(3) this(3) this(3), of 0] show ?thesis
    by (auto split: option.splits prod.splits)
qed

text \<open>Enabling the compensation is meant to forget the last direction, but it resets while still disabled, which
  does nothing.\<close>

lemma enable_keeps_direction:
  assumes "\<not> m_compActive b"
  shows "m_lastDirection (fst (EnableBacklashComp True b s)) = m_lastDirection b"
    "m_pHistory (fst (EnableBacklashComp True b s)) = m_pHistory b"
  using assms by (simp_all add: EnableBacklashComp_def ResetBLCState_def)

text \<open>A negative pulse width is taken for a large unsigned number.\<close>

lemma negative_pulse_is_maximal: "m_pulseWidth (fst (SetCompValues (-1) fl ce b s)) = 8000"
  by (simp add: SetCompValues_def comp_values_def umod_def comp_consts Let_def)

subsection \<open>Compensation exactly at reversals\<close>

fun apply_run :: "(int \<times> u32 \<times> real \<times> int) list \<Rightarrow> backlash_comp \<Rightarrow> int" where
  \<comment> \<open>the milliseconds added to a sequence of Dec moves\<close>
  "apply_run [] b = 0"
| "apply_run ((now, opts, y, n) # ms) b =
    (case ApplyBacklashComp now opts y n b of (b', n') \<Rightarrow> n' - n + apply_run ms b')"

definition move_dir :: "int \<times> u32 \<times> real \<times> int \<Rightarrow> guide_direction option" where
  "move_dir m = (case m of (_, opts, y, _) \<Rightarrow>
     if opts AND MOVEOPT_USE_BLC = 0 \<or> y = 0 then None else Some (if y > 0 then SOUTH else NORTH))"

fun reversals :: "guide_direction \<Rightarrow> guide_direction option list \<Rightarrow> nat" where
  "reversals d [] = 0"
| "reversals d (None # ds) = reversals d ds"
| "reversals d (Some e # ds) = (if d \<noteq> NONE \<and> e \<noteq> d then 1 else 0) + reversals e ds"



subsection \<open>A guide step of the scope\<close>

definition blc_limit :: "backlash_comp \<Rightarrow> int" where
  \<comment> \<open>an active compensation of 0 ms whose history is still open can be raised to the floor of 20 ms, with a ceiling of 30 ms\<close>
  "blc_limit b = (if 0 < m_pulseWidth b then m_adjustmentCeiling b else max (m_adjustmentCeiling b) 30)"

lemma track_from_zero:
  assumes "TrackBLCResults now mm opts y b s = Some (b', s')" "comp_ok b" "m_pulseWidth b = 0"
  shows "m_adjustmentCeiling b' \<le> max (m_adjustmentCeiling b) 30"
proof -
  have fl: "m_adjustmentFloor b = 20" and ce: "0 \<le> m_adjustmentCeiling b" "m_adjustmentCeiling b \<le> 8000"
    using assms(2,3) by (auto simp: comp_ok_def comp_consts)
  have adj: "adjusted_pulse a (b\<lparr>m_pHistory := h\<rparr>) \<in> {0, 20}" for a h
    using ce by (auto simp: adjusted_pulse_def Let_def ROUND_def fl assms(3) min_def max_def)
  have set: "m_adjustmentCeiling (fst (SetCompValues p 20 (m_adjustmentCeiling b) d t)) \<le> max (m_adjustmentCeiling b) 30"
    if "p \<in> {0, 20}" for p d t
    using that ce by (auto simp: SetCompValues_def comp_values_def Let_def umod_def comp_consts trunc_def min_def)
  show ?thesis
    using assms(1) set [OF adj]
    by (auto simp: TrackBLCResults_def ResetBLCState_def Let_def fl split: if_splits option.splits) (metis fst_conv)+
qed

definition guider_ok :: "int \<Rightarrow> scope \<Rightarrow> bool" where
  \<comment> \<open>\<open>c\<close> bounds the compensation\<close>
  "guider_ok c s \<longleftrightarrow> limits_ok s \<and> yRate (m_cal s) \<noteq> 0 \<and>
     (case m_backlashComp s of None \<Rightarrow> True | Some b \<Rightarrow> comp_ok b \<and> blc_limit b \<le> c)"

lemma guider_ok_settings: "same_settings s' s \<Longrightarrow> guider_ok c s' = guider_ok c s"
  by (simp add: guider_ok_def same_settings_def limits_ok_def)

interpretation gs: axis_mover "scope_MoveAxis guide now" "guider_ok c" for guide now c
proof unfold_locales
  fix d n opts s s' r i
  assume a: "scope_MoveAxis guide now d n opts s = (s', r, i)"
  show "m_cal s' = m_cal s \<and> m_xRate s' = m_xRate s"
    using scope_MoveAxis_cal [OF a] by (simp add: same_settings_def)
  assume l: "guider_ok c s"
  show "guider_ok c s'" using scope_MoveAxis_cal [OF a] l by (simp add: guider_ok_settings)
  assume "0 \<le> n"
  then show "0 \<le> amountMoved i \<and> amountMoved i \<le> n"
    using scope_MoveAxis_amount [OF a _] l by (auto simp: guider_ok_def)
qed

lemma scope_applyBLC_ok:
  assumes "guider_ok c s" "0 \<le> n" "0 \<le> c"
  shows "guider_ok c (fst (scope_applyBLC now opts y n s)) \<and> 0 \<le> snd (scope_applyBLC now opts y n s) \<and>
    snd (scope_applyBLC now opts y n s) \<le> n + c"
proof (cases "m_backlashComp s")
  case None then show ?thesis using assms by (simp add: scope_applyBLC_def)
next
  case (Some b)
  have b: "comp_ok b" "blc_limit b \<le> c" using assms(1) Some by (simp_all add: guider_ok_def)
  obtain b' n' where r: "ApplyBacklashComp now opts y n b = (b', n')" by fastforce
  have f: "comp_ok b'" "m_pulseWidth b' = m_pulseWidth b" "m_adjustmentCeiling b' = m_adjustmentCeiling b"
    "n \<le> n'" "n' \<le> n + m_pulseWidth b"
    using ApplyBacklashComp_ok [OF b(1), of now opts y n] ApplyBacklashComp_frame(1,2) [of now opts y n b]
      ApplyBacklashComp_frame(4) [OF b(1), of n now opts y] r by auto
  have "m_pulseWidth b \<le> c" using b by (auto simp: comp_ok_def blc_limit_def split: if_splits)
  moreover have "blc_limit b' = blc_limit b" using f by (simp add: blc_limit_def)
  ultimately show ?thesis using assms b f Some by (simp add: scope_applyBLC_def r guider_ok_def limits_ok_def)
qed

lemma scope_trackBLC_ok:
  assumes "guider_ok c s"
  obtains s' where "scope_trackBLC now mm opts y s = Some s'" "guider_ok c s'" "m_xRate s' = m_xRate s" "m_cal s' = m_cal s"
proof (cases "m_backlashComp s")
  case None then show ?thesis using assms that by (simp add: scope_trackBLC_def)
next
  case (Some b)
  have b: "comp_ok b" "blc_limit b \<le> c" "yRate (m_cal s) \<noteq> 0" "limits_ok s"
    using assms Some by (simp_all add: guider_ok_def)
  obtain b' s' where t: "TrackBLCResults now mm opts y b s = Some (b', s')" "track_ok b s b' s'"
    using TrackBLCResults_ok [OF b(1,3)] .
  have k: "comp_ok b'" "m_xRate s' = m_xRate s" "m_cal s' = m_cal s" "limits_ok s'"
    using t(2) b(4) by (simp_all add: track_ok_def)
  have "blc_limit b' \<le> blc_limit b"
  proof (cases "0 < m_pulseWidth b")
    case False
    then have "m_pulseWidth b = 0" using b(1) by (simp add: comp_ok_def)
    from track_from_zero [OF t(1) b(1) this] show ?thesis using False by (auto simp: blc_limit_def)
  next
    case True
    have "0 < ROUND (0.8 * of_int (m_pulseWidth b))" using True by (simp add: ROUND_def)
    then have "0 < adjusted_pulse a b" if "\<not> m_fixedSize b" for a
      using adjusted_pulse_bounds(5) [OF b(1) that True, of a] True by (simp add: min_def split: if_splits)
    then have "0 < m_pulseWidth b'" "m_adjustmentCeiling b' = m_adjustmentCeiling b"
      using t(2) True by (auto simp: track_ok_def)
    then show ?thesis using True by (simp add: blc_limit_def)
  qed
  then show ?thesis using that [of "s'\<lparr>m_backlashComp := Some b'\<rparr>"] t(1) k b Some
    by (simp add: scope_trackBLC_def guider_ok_def limits_ok_def)
qed


text \<open>The compensation of a new profile, with its pulse of 0, is one of those.\<close>

lemma new_profile_guider_ok:
  assumes "limits_ok s" "yRate (m_cal s) \<noteq> 0"
  shows "guider_ok 30 (s\<lparr>m_backlashComp := Some (fst (BacklashComp_new now (\<lambda>_. None) s))\<rparr>)"
proof -
  obtain b t where n: "BacklashComp_new now (\<lambda>_. None) s = (b, t)" by fastforce
  note r = n [unfolded BacklashComp_new_def Let_def]
  have "comp_ok b" using SetCompValues_ok(1) [OF r] by (simp add: GetInt_def)
  moreover have "m_pulseWidth b = 0" "m_adjustmentCeiling b = 0"
    using r by (auto simp: SetCompValues_def comp_values_def GetInt_def Let_def umod_def comp_consts)
  ultimately show ?thesis using assms by (simp add: n guider_ok_def limits_ok_def blc_limit_def)
qed

definition sample_move :: "(scope, unit, unit) move_state" where
  "sample_move = \<lparr>ms_mount = sample_scope\<lparr>m_backlashComp := Some sample_blc\<rparr>, ms_xAlgo = None, ms_yAlgo = None,
     ms_lastStep = None\<rparr>"


end
