(* ===== verification/ScopeSettings.thy ===== *)
theory ScopeSettings
  imports BacklashComp
begin

text \<open>
  More operations of \<open>src/src/telescope/scope.cpp\<close> and \<open>mount.cpp\<close> that change the settings of the scope:
  switching guiding on and off, the Dec guide mode with its effect on the backlash compensation, and the
  correction of the calibration pulse when a calibration starts with another binning or guide speed, with the
  calculations of \<open>src/src/gui/calstep_dialog.cpp\<close> it uses.
\<close>

subsection \<open>Guiding and the Dec guide mode\<close>

definition scope_SetGuidingEnabled :: "int \<Rightarrow> bool \<Rightarrow> scope \<Rightarrow> scope" where
  \<comment> \<open>\<open>now\<close> in seconds; the guide algorithms are notified outside the scope\<close>
  "scope_SetGuidingEnabled now guidingEnabled s =
    (if guidingEnabled \<noteq> m_guidingEnabled s
     then let s = emit [NotifyGuidingParam ''MountGuidingEnabled'' (of_bool guidingEnabled)] s;
              s = s\<lparr>m_guidingEnabled := guidingEnabled\<rparr>
          in if guidingEnabled then DeferPulseLimitAlertCheck now s else s
     else s)"

definition dec_mode_of :: "int \<Rightarrow> dec_guide_mode option" where
  "dec_mode_of i = (if i = 0 then Some DEC_NONE else if i = 1 then Some DEC_AUTO
     else if i = 2 then Some DEC_NORTH else if i = 3 then Some DEC_SOUTH else None)"

fun dec_mode_int :: "dec_guide_mode \<Rightarrow> int" where
  "dec_mode_int DEC_NONE = 0" | "dec_mode_int DEC_AUTO = 1" | "dec_mode_int DEC_NORTH = 2" | "dec_mode_int DEC_SOUTH = 3"

fun DecGuideModeStr :: "dec_guide_mode \<Rightarrow> string" where
  "DecGuideModeStr DEC_NONE = ''Off''" | "DecGuideModeStr DEC_AUTO = ''Auto''"
| "DecGuideModeStr DEC_NORTH = ''North''" | "DecGuideModeStr DEC_SOUTH = ''South''"

definition mode_blc :: "dec_guide_mode \<Rightarrow> scope \<Rightarrow> scope" where
  "mode_blc mode s =
    (case m_backlashComp s of None \<Rightarrow> s
     | Some b \<Rightarrow> if mode \<noteq> DEC_AUTO
                 then (case EnableBacklashComp False b s of (b, s) \<Rightarrow> s\<lparr>m_backlashComp := Some b\<rparr>)
                 else s\<lparr>m_backlashComp := Some (ResetBLCState b)\<rparr>)"

definition SetDecGuideMode :: "int \<Rightarrow> scope \<Rightarrow> scope \<times> bool" where
  "SetDecGuideMode decGuideMode s =
    (case dec_mode_of decGuideMode of None \<Rightarrow> (s, True)
     | Some mode \<Rightarrow>
         (if m_decGuideMode s \<noteq> mode
          then let s = s\<lparr>m_decGuideMode := mode\<rparr>;
                   s = emit [NotifyGuidingParamStr ''Dec Guide Mode'' (DecGuideModeStr mode)] s;
                   s = mode_blc mode s
               in emit [ProfileWrite (SetInt ''/scope/DecGuideMode'' (dec_mode_int mode))] s
          else s, False))"

subsection \<open>The calibration pulse\<close>

definition GetPixelScale :: "real \<Rightarrow> int \<Rightarrow> int \<Rightarrow> real option" where
  "GetPixelScale pixelSizeMicrons focalLengthMm bin = fdiv (206.265 * pixelSizeMicrons * of_int bin) (of_int focalLengthMm)"

definition GetCalibrationDistance :: "int \<Rightarrow> int \<Rightarrow> real \<Rightarrow> int \<Rightarrow> int" where
  \<comment> \<open>\<open>badInt\<close>: what the conversion of an infinite quotient to an \<open>int\<close> gives; \<open>std::max\<close> of 25 and a NaN is 25\<close>
  "GetCalibrationDistance badInt fl pixelSize bin =
    (case GetPixelScale pixelSize fl bin of None \<Rightarrow> DEFAULT_DISTANCE
     | Some pixelScale \<Rightarrow> (case fdiv 20 pixelScale of None \<Rightarrow> badInt
         | Some px \<Rightarrow> \<lceil>max (of_int DEFAULT_DISTANCE) px\<rceil>))"

definition GetCalibrationStepSize :: "int \<Rightarrow> int \<Rightarrow> real \<Rightarrow> int \<Rightarrow> real \<Rightarrow> int \<Rightarrow> real \<Rightarrow> int \<Rightarrow> int" where
  \<comment> \<open>\<open>*pStepSize\<close>; the image scale it can also return is \<open>GetPixelScale\<close>\<close>
  "GetCalibrationStepSize badInt FocalLength PixelSize bin GuideSpeed DesiredSteps Declination distance =
    (case GetPixelScale PixelSize FocalLength bin of None \<Rightarrow> badInt
     | Some ImageScale \<Rightarrow>
    (case fdiv (of_int distance * ImageScale) (15 * GuideSpeed) of None \<Rightarrow> badInt
     | Some totalDuration \<Rightarrow>
    (case fdiv totalDuration (of_int DesiredSteps) of None \<Rightarrow> badInt
     | Some perStep \<Rightarrow>
    (case fdiv (perStep * 1000) (cos (radians Declination)) of None \<Rightarrow> badInt
     | Some Pulse \<Rightarrow>
         let MaxPulse = totalDuration / 6 * 1000
         in \<lceil>min MaxPulse Pulse / 50\<rceil> * 50))))"

record duration_env =
  de_details :: calibration_details \<comment> \<open>what \<open>LoadCalibrationDetails\<close> reads\<close>
  de_binning :: int
  de_focalLength :: int
  de_pixelSize :: real
  de_guideRates :: "(real \<times> real) option" \<comment> \<open>\<open>GetGuideRates\<close>; \<^term>\<open>None\<close> is an error\<close>
  de_badInt :: int

definition adjust_distance :: "duration_env \<Rightarrow> scope \<Rightarrow> scope" where
  "adjust_distance e s =
    (if of_int (de_binning e) \<noteq> origBinning (de_details e)
     then let newDistance = GetCalibrationDistance (de_badInt e) (de_focalLength e) (de_pixelSize e) (de_binning e)
          in if newDistance \<noteq> m_calibrationDistance s then fst (SetCalibrationDistance newDistance s) else s
     else s)"

definition CheckCalibrationDuration :: "duration_env \<Rightarrow> scope \<Rightarrow> scope" where
  "CheckCalibrationDuration e s =
    (let s = adjust_distance e s
     in case de_guideRates e of None \<Rightarrow> s
        | Some (raSpd, decSpd) \<Rightarrow>
            if raGuideSpeed (de_details e) \<le> 0 then s
            else if \<not> (of_int (de_binning e) \<noteq> origBinning (de_details e) \<or>
                      \<bar>1 - raSpd / raGuideSpeed (de_details e)\<bar> > 0.05) then s
            else fst (SetCalibrationDuration
                   (GetCalibrationStepSize (de_badInt e) (de_focalLength e) (de_pixelSize e) (de_binning e)
                      (raSpd * 3600 / (15 * 0.9973)) 12 0 (m_calibrationDistance s)) s))"

definition scope_BeginCalibration :: "duration_env \<Rightarrow> sodium_point \<Rightarrow> scope \<Rightarrow> scope \<times> bool" where
  "scope_BeginCalibration e = BeginCalibration (\<lambda>_. CheckCalibrationDuration e)"

subsection \<open>Lemmas\<close>

definition cal_settings_ok :: "scope \<Rightarrow> bool" where
  "cal_settings_ok s \<longleftrightarrow> 0 < m_calibrationDuration s \<and> 0 < m_calibrationDistance s"

lemma SetCalibration_positive:
  "cal_settings_ok s \<Longrightarrow> cal_settings_ok (fst (SetCalibrationDuration d s))"
  "cal_settings_ok s \<Longrightarrow> cal_settings_ok (fst (SetCalibrationDistance d s))"
  by (auto simp: cal_settings_ok_def SetCalibrationDuration_def SetCalibrationDistance_def emit_def
      DefaultCalibrationDuration_def DEFAULT_DISTANCE_def Let_def)

lemma CheckCalibrationDuration_ok:
  assumes "cal_settings_ok s"
  shows "cal_settings_ok (CheckCalibrationDuration e s)"
proof -
  have "cal_settings_ok (adjust_distance e s)"
    using SetCalibration_positive(2) [OF assms] assms by (simp add: adjust_distance_def Let_def)
  then show ?thesis
    using SetCalibration_positive(1) by (auto simp: CheckCalibrationDuration_def Let_def split: option.split)
qed

lemma scope_BeginCalibration_ok:
  assumes "scope_BeginCalibration e loc s0 = (s, False)" "cal_settings_ok s0"
  shows "cal_settings_ok s"
  using assms(1) CheckCalibrationDuration_ok [OF assms(2), of e]
  by (auto simp: scope_BeginCalibration_def BeginCalibration_def scope_ClearCalibration_def mount_ClearCalibration_def
      cal_settings_ok_def Let_def split: if_splits)

lemma mode_blc_simps [simp]:
  "m_backlashComp (mode_blc mode s) =
    map_option (\<lambda>b. if mode \<noteq> DEC_AUTO then b\<lparr>m_compActive := False\<rparr> else ResetBLCState b) (m_backlashComp s)"
  "m_decGuideMode (mode_blc mode s) = m_decGuideMode s"
  by (auto simp: mode_blc_def EnableBacklashComp_def emit_def Let_def split: option.split)

text \<open>A request for a Dec guide mode is checked: a number that is none of the four modes is reported as an error and
  changes nothing; the others are set and stored. A change to a mode other than the automatic one
  switches the backlash compensation off, a change to the automatic mode makes it forget the last direction.\<close>
theorem dec_guide_mode_checked:
  "case SetDecGuideMode i s of (s', bError) \<Rightarrow>
     if 0 \<le> i \<and> i \<le> 3
     then \<not> bError \<and> dec_mode_int (m_decGuideMode s') = i \<and>
       (if m_decGuideMode s' = m_decGuideMode s then s' = s
        else last (sc_trace s') = ProfileWrite (SetInt ''/scope/DecGuideMode'' i) \<and>
          m_backlashComp s' = map_option (\<lambda>b. if i \<noteq> 1 then b\<lparr>m_compActive := False\<rparr>
            else if m_compActive b then b\<lparr>m_lastDirection := NONE, m_pHistory := CloseWindow (m_pHistory b)\<rparr>
            else b) (m_backlashComp s))
     else bError \<and> s' = s"
proof (cases "dec_mode_of i")
  case None
  then have "\<not> (0 \<le> i \<and> i \<le> 3)" by (auto simp: dec_mode_of_def split: if_splits)
  then show ?thesis using None by (simp add: SetDecGuideMode_def)
next
  case (Some mode)
  then have "dec_mode_int mode = i" "mode = DEC_AUTO \<longleftrightarrow> i = 1" "0 \<le> i" "i \<le> 3"
    by (auto simp: dec_mode_of_def split: if_splits)
  then show ?thesis using Some
    by (simp add: SetDecGuideMode_def emit_def Let_def) (auto simp: ResetBLCState_def intro: option.map_cong0)
qed

end
