(* ===== verification/ScopeCalibration.thy ===== *)
theory ScopeCalibration
  imports ScopeSettings
begin

text \<open>
  Correctness of the calibration state machine of \<open>Scope\<close>: it ends whatever the star does, its rates
  are positive, and the RA pulses that move the star out are undone.
\<close>

subsection \<open>The calibration ends, with usable rates\<close>

definition clearing_pulses :: "scope \<Rightarrow> int" where
  "clearing_pulses s = max 8 (BL_MAX_CLEARING_TIME sdiv m_calibrationDuration s)"

definition cal_base :: "scope \<Rightarrow> bool" where
  "cal_base s \<longleftrightarrow> 0 < m_calibrationDuration s \<and> 0 < m_calibrationDistance s \<and> \<not> m_calibrated s"

definition recenter_ok :: "scope \<Rightarrow> bool" where
  "recenter_ok s \<longleftrightarrow> m_calibrationDuration s \<le> m_recenterDuration s \<and> 0 \<le> m_recenterRemaining s \<and>
     m_recenterRemaining s \<le> 61 * m_calibrationDuration s"

definition ra_ok :: "scope \<Rightarrow> bool" where "ra_ok s \<longleftrightarrow> 0 < xRate (m_calibration s)"

definition dec_ok :: "scope \<Rightarrow> bool" where
  "dec_ok s \<longleftrightarrow> \<not> m_assumeOrthogonal s \<longrightarrow> 0 < yRate (m_calibration s)"

definition cal_inv :: "scope \<Rightarrow> bool" where
  "cal_inv s \<longleftrightarrow> cal_base s \<and> (case m_calibrationState s of
     CALIBRATION_STATE_CLEARED \<Rightarrow> False
   | CALIBRATION_STATE_GO_WEST \<Rightarrow> 0 \<le> m_calibrationSteps s \<and> m_calibrationSteps s \<le> 61 \<and>
       (m_calibrationSteps s = 0 \<longrightarrow> \<not> m_valid (m_calibrationStartingLocation s))
   | CALIBRATION_STATE_GO_EAST \<Rightarrow> recenter_ok s \<and> ra_ok s
   | CALIBRATION_STATE_CLEAR_BACKLASH \<Rightarrow> ra_ok s \<and> 1 \<le> m_calibrationSteps s \<and>
       m_calibrationSteps s \<le> m_blMaxClearingPulses s \<and> m_blMaxClearingPulses s = clearing_pulses s
   | CALIBRATION_STATE_GO_NORTH \<Rightarrow> ra_ok s \<and> 1 \<le> m_calibrationSteps s \<and> m_calibrationSteps s \<le> 61
   | CALIBRATION_STATE_GO_SOUTH \<Rightarrow> recenter_ok s \<and> ra_ok s \<and> dec_ok s
   | CALIBRATION_STATE_NUDGE_SOUTH \<Rightarrow> ra_ok s \<and> dec_ok s \<and> 1 \<le> m_calibrationSteps s \<and> m_calibrationSteps s \<le> 4
   | CALIBRATION_STATE_COMPLETE \<Rightarrow> ra_ok s)"

definition cal_level :: "scope \<Rightarrow> int" where
  "cal_level s = 64 + clearing_pulses s"

text \<open>The measure: the stage, then the number of frames the stage can still take.\<close>

definition cal_measure :: "scope \<Rightarrow> int" where
  "cal_measure s = (case m_calibrationState s of
     CALIBRATION_STATE_CLEARED \<Rightarrow> 0
   | CALIBRATION_STATE_GO_WEST \<Rightarrow> 6 * cal_level s + (62 - m_calibrationSteps s)
   | CALIBRATION_STATE_GO_EAST \<Rightarrow> 5 * cal_level s + DIV_ROUND_UP (m_recenterRemaining s) (m_recenterDuration s)
   | CALIBRATION_STATE_CLEAR_BACKLASH \<Rightarrow> 4 * cal_level s + (clearing_pulses s - m_calibrationSteps s)
   | CALIBRATION_STATE_GO_NORTH \<Rightarrow> 3 * cal_level s + (62 - m_calibrationSteps s)
   | CALIBRATION_STATE_GO_SOUTH \<Rightarrow> 2 * cal_level s + DIV_ROUND_UP (m_recenterRemaining s) (m_recenterDuration s)
   | CALIBRATION_STATE_NUDGE_SOUTH \<Rightarrow> cal_level s + (4 - m_calibrationSteps s)
   | CALIBRATION_STATE_COMPLETE \<Rightarrow> 1)"

definition settled :: "int \<Rightarrow> scope \<Rightarrow> scope \<times> cal_exit \<Rightarrow> bool" where
  \<comment> \<open>a case has been left for good: either the calibration is over or the measure is below the bound\<close>
  "settled bnd s0 r \<longleftrightarrow> (case r of (s, x) \<Rightarrow>
     (case x of Break \<Rightarrow> (m_calibrated s \<and> 0 < xRate (m_cal s)) \<or> (cal_inv s \<and> cal_measure s < bnd)
      | Fall _ _ _ \<Rightarrow> False | Throw \<Rightarrow> True | Undef \<Rightarrow> m_assumeOrthogonal s0))"

lemmas cal_consts = MAX_CALIBRATION_STEPS_def BL_MAX_CLEARING_TIME_def BL_BACKLASH_MIN_COUNT_def MAX_NUDGES_def

lemma clearing_pulses_ge: "8 \<le> clearing_pulses s" by (simp add: clearing_pulses_def)

lemma DIV_ROUND_UP_eq: "0 < y \<Longrightarrow> 0 \<le> x \<Longrightarrow> DIV_ROUND_UP x y = (x + y - 1) div y"
  by (simp add: DIV_ROUND_UP_def signed_divide_int_def sgn_if)

lemma DIV_ROUND_UP_less:
  assumes "0 < x" "0 < y"
  shows "DIV_ROUND_UP (x - (if y > x then x else y)) y = DIV_ROUND_UP x y - 1"
proof (cases "y > x")
  case True
  have "(x + y - 1) div y = 1" using assms True by (intro int_div_pos_eq [where r = "x - 1"]) auto
  then show ?thesis using assms True by (simp add: DIV_ROUND_UP_eq)
next
  case False
  have "x + y - 1 = (x - 1) + y" by simp
  moreover have "((x - 1) + y) div y = (x - 1) div y + 1" using assms(2) by (intro div_add_self2) simp
  ultimately have "(x + y - 1) div y = (x - 1) div y + 1" by (simp only:)
  then show ?thesis using assms False by (simp add: DIV_ROUND_UP_eq)
qed

lemma DIV_ROUND_UP_bounds:
  assumes "0 \<le> x" "0 < d" "d \<le> y" "x \<le> 61 * d"
  shows "0 \<le> DIV_ROUND_UP x y" "DIV_ROUND_UP x y \<le> 61"
proof -
  have y: "0 < y" using assms by linarith
  have "x \<le> 61 * y" using assms by (meson mult_left_mono order_trans zero_le_numeral)
  then have "(x + y - 1) div y \<le> (61 * y + y - 1) div y" using y by (intro zdiv_mono1) auto
  also have "\<dots> = 61" using y by (intro int_div_pos_eq [where r = "y - 1"]) auto
  finally show "DIV_ROUND_UP x y \<le> 61" using assms(1) y by (simp add: DIV_ROUND_UP_eq)
  show "0 \<le> DIV_ROUND_UP x y" using assms(1) y by (simp add: DIV_ROUND_UP_eq pos_imp_zdiv_nonneg_iff)
qed

lemma cal_measure_pos: "cal_inv s \<Longrightarrow> 1 \<le> cal_measure s"
  using clearing_pulses_ge [of s] DIV_ROUND_UP_bounds [of "m_recenterRemaining s" "m_calibrationDuration s" "m_recenterDuration s"]
  by (cases "m_calibrationState s")
    (auto simp: cal_inv_def cal_measure_def cal_level_def cal_base_def recenter_ok_def)

lemma recenter_duration_ge:
  "recenter_duration e f mx d r = Some k \<Longrightarrow> d \<le> k"
  by (auto simp: recenter_duration_def Let_def split: if_splits option.splits)

lemma recenter_duration_defined:
  "r \<noteq> 0 \<Longrightarrow> recenter_duration e f mx d r \<noteq> None"
  by (simp add: recenter_duration_def fdiv_def Let_def)

lemma cal_complete_done:
  assumes "ra_ok s"
  shows "m_calibrated (fst (cal_complete rd reload e s)) \<and> 0 < xRate (m_cal (fst (cal_complete rd reload e s))) \<and>
    snd (cal_complete rd reload e s) = Break"
proof -
  obtain s1 ws where 1: "store_new_cal e s = (s1, ws)" by fastforce
  have d: "m_calibrated s1" "0 < xRate (m_cal s1)"
    using 1 assms
    by (auto simp: store_new_cal_def scope_SetCalibration_def mount_SetCalibration_def ra_ok_def Let_def)
  have f: "m_calibrated (flag_issue i nd t) = m_calibrated t" "m_cal (flag_issue i nd t) = m_cal t"
    "m_calibrated (store_new_details e t) = m_calibrated t" "m_cal (store_new_details e t) = m_cal t"
    "m_calibrated (emit ev t) = m_calibrated t" "m_cal (emit ev t) = m_cal t" for i nd t ev
    by (simp_all add: flag_issue_def store_new_details_def SetCalibrationDetails_def emit_def Let_def split: prod.splits)
  show ?thesis using d by (simp add: cal_complete_def 1 Let_def f)
qed

lemma from_complete_settled:
  assumes "ra_ok s"
  shows "settled bnd s0 (from_complete rd reload e loc dx dy dst s)"
  using cal_complete_done [OF assms, of rd reload e]
  by (cases "cal_complete rd reload e s") (simp add: settled_def from_complete_def)

lemma cal_nudge_south_cases:
  obtains (leave) "cal_nudge_south e loc dx dy dst s = (s\<lparr>m_calibrationState := CALIBRATION_STATE_COMPLETE\<rparr>, Fall dx dy dst)"
  | (undef) "cal_nudge_south e loc dx dy dst s = (s, Undef)" "yRate (m_calibration s) = 0"
  | (nudge) k where "cal_nudge_south e loc dx dy dst s =
       (emit [CalibrationStatus ''Nudge South'' (m_calibrationSteps s + 1), ScheduleAxisMove SOUTH k MOVEOPTS_CALIBRATION_MOVE]
          (s\<lparr>m_calibrationSteps := m_calibrationSteps s + 1\<rparr>), Break)" "m_calibrationSteps s \<le> 3"
proof -
  define amt where "amt = Y (MountCoords (point_sub loc (m_calibrationInitialLocation s))
      (xAngle (m_calibration s)) (yAngle (m_calibration s)))"
  define go where "go \<longleftrightarrow> nudge_direction_ok loc s \<and> m_calibrationSteps s \<le> MAX_NUDGES \<and>
      Distance loc (m_calibrationInitialLocation s) > NUDGE_TOLERANCE \<and>
      Distance loc (m_calibrationInitialLocation s) < dist_crit s + m_blDistanceMoved s \<and> amt * m_totalSouthAmt s > 0"
  show ?thesis
  proof (cases go)
    case False
    then show ?thesis by (intro leave) (auto simp: cal_nudge_south_def go_def amt_def Let_def)
  next
    case True
    note g = this [unfolded go_def amt_def]
    have st: "m_calibrationSteps s \<le> 3" using True by (simp add: go_def MAX_NUDGES_def)
    show ?thesis
    proof (cases "fdiv (min \<bar>amt\<bar> (of_int (ce_maxMovePixels e))) (yRate (m_calibration s))")
      case None
      then have "yRate (m_calibration s) = 0" by (simp add: fdiv_def split: if_splits)
      moreover have "cal_nudge_south e loc dx dy dst s = (s, Undef)"
        using g None by (simp add: cal_nudge_south_def amt_def Let_def)
      ultimately show ?thesis by (rule undef [rotated])
    next
      case (Some q)
      show ?thesis
        by (rule nudge [OF _ st, of "if \<lfloor>q\<rfloor> > m_calibrationDuration s then m_calibrationDuration s else \<lfloor>q\<rfloor>"])
          (use g Some in \<open>simp add: cal_nudge_south_def amt_def Let_def\<close>)
    qed
  qed
qed

lemma from_nudge_settled:
  assumes "cal_base s" "ra_ok s" "dec_ok s" "m_calibrationState s = CALIBRATION_STATE_NUDGE_SOUTH"
    "0 \<le> m_calibrationSteps s" "m_calibrationSteps s \<le> 4"
    and b: "cal_level s + (4 - m_calibrationSteps s) \<le> bnd"
  shows "settled bnd s (from_nudge rd reload e loc dx dy dst s)"
proof (cases rule: cal_nudge_south_cases [of e loc dx dy dst s])
  case leave
  have "settled bnd s (from_complete rd reload e loc dx dy dst (s\<lparr>m_calibrationState := CALIBRATION_STATE_COMPLETE\<rparr>))"
    using assms(2) by (intro from_complete_settled) (simp add: ra_ok_def)
  then show ?thesis using leave by (simp add: from_nudge_def fall_to_def)
next
  case undef
  then show ?thesis using assms(3) by (auto simp: from_nudge_def fall_to_def settled_def dec_ok_def)
next
  case (nudge k)
  then show ?thesis using assms
    by (simp add: from_nudge_def fall_to_def settled_def emit_def cal_inv_def cal_base_def cal_measure_def
        cal_level_def clearing_pulses_def ra_ok_def dec_ok_def)
qed


lemma settled_ortho:
  "m_assumeOrthogonal t = m_assumeOrthogonal s \<Longrightarrow> settled bnd t r \<Longrightarrow> settled bnd s r"
  by (cases r; cases "snd r") (simp_all add: settled_def)

lemmas cal_unfold = emit_def log_step_def add_raStep_def add_decStep_def

lemma cal_level_ge: "72 \<le> cal_level s"
  using clearing_pulses_ge [of s] by (simp add: cal_level_def)

lemma from_south_settled:
  assumes "cal_base s" "ra_ok s" "dec_ok s" "m_calibrationState s = CALIBRATION_STATE_GO_SOUTH" "recenter_ok s"
    and b: "2 * cal_level s + DIV_ROUND_UP (m_recenterRemaining s) (m_recenterDuration s) \<le> bnd"
  shows "settled bnd s (from_south rd reload e loc dx dy dst s)"
proof (cases "m_recenterRemaining s > 0")
  case True
  let ?k = "if m_recenterDuration s > m_recenterRemaining s then m_recenterRemaining s else m_recenterDuration s"
  obtain t where g: "cal_go_south e loc dx dy dst s = (t, Break)"
    and t: "m_recenterRemaining t = m_recenterRemaining s - ?k" "m_recenterDuration t = m_recenterDuration s"
      "m_calibrationState t = m_calibrationState s" "m_calibrationDuration t = m_calibrationDuration s"
      "cal_base t" "ra_ok t" "dec_ok t" "cal_level t = cal_level s"
    using True assms
    by (simp add: cal_go_south_def cal_unfold Let_def cal_base_def ra_ok_def dec_ok_def cal_level_def clearing_pulses_def)
  have r: "0 < m_recenterDuration s" using assms(1,5) by (simp add: cal_base_def recenter_ok_def)
  show ?thesis
    using assms DIV_ROUND_UP_less [OF True r] True t
    by (simp add: from_south_def fall_to_def g settled_def cal_inv_def recenter_ok_def cal_measure_def)
next
  case False
  obtain t where g: "cal_go_south e loc dx dy dst s = (t, Fall dx dy dst)"
    and t: "cal_base t" "ra_ok t" "dec_ok t" "m_calibrationState t = CALIBRATION_STATE_NUDGE_SOUTH"
      "m_calibrationSteps t = 0" "cal_level t = cal_level s" "m_assumeOrthogonal t = m_assumeOrthogonal s"
    using False assms
    by (simp add: cal_go_south_def cal_unfold Let_def cal_base_def ra_ok_def dec_ok_def cal_level_def clearing_pulses_def)
  have "cal_level t + (4 - m_calibrationSteps t) \<le> bnd"
    using b cal_level_ge [of s] t(5,6) DIV_ROUND_UP_bounds(1) [of "m_recenterRemaining s" "m_calibrationDuration s" "m_recenterDuration s"]
      assms(1,5) by (simp add: cal_base_def recenter_ok_def)
  from from_nudge_settled [OF t(1-4) _ _ this, of rd reload e loc dx dy dst] show ?thesis
    using t(5,7) by (simp add: from_south_def fall_to_def g settled_def)
qed

text \<open>The rate measured for the Dec axis, when the axes are not assumed orthogonal.\<close>

lemma north_calibration_fields:
  "xRate (north_calibration e loc dst s) = xRate (m_calibration s)"
  "\<not> m_assumeOrthogonal s \<Longrightarrow> yRate (north_calibration e loc dst s) = dst / of_int (m_calibrationSteps s * m_calibrationDuration s)"
  by (simp_all add: north_calibration_def Let_def)

lemma from_north_settled:
  assumes "cal_base s" "ra_ok s" "m_calibrationState s = CALIBRATION_STATE_GO_NORTH"
    and st: "0 \<le> m_calibrationSteps s" "m_calibrationSteps s \<le> 61" "m_calibrationSteps s = 0 \<longrightarrow> dst = 0"
    and b: "3 * cal_level s + (62 - m_calibrationSteps s) \<le> bnd"
  shows "settled bnd s (from_north rd reload e loc dx dy dst s)"
proof (cases "dst < dist_crit s")
  case True
  then show ?thesis using assms
    by (simp add: from_north_def fall_to_def cal_go_north_def settled_def dist_crit_def Let_def cal_unfold
        MAX_CALIBRATION_STEPS_def cal_inv_def cal_base_def ra_ok_def cal_measure_def cal_level_def clearing_pulses_def)
next
  case False
  have pos: "0 < m_calibrationDuration s" "0 < dist_crit s" using assms(1) by (simp_all add: cal_base_def dist_crit_def)
  have d: "0 < dst" using False pos by simp
  have s1: "1 \<le> m_calibrationSteps s" using st d by (cases "m_calibrationSteps s = 0") auto
  have n: "(0::real) < of_int (m_calibrationSteps s * m_calibrationDuration s)"
    using s1 pos(1) by (simp add: mult_pos_pos)
  let ?t = "add_decStep dx dy (log_step ''North'' dx dy loc dst s)"
  let ?m = "north_measured e loc dst ?t"
  let ?y = "yRate (m_calibration ?m)"
  have f: "m_calibrationDuration ?t = m_calibrationDuration s" "m_calibrationSteps ?t = m_calibrationSteps s"
    "m_assumeOrthogonal ?t = m_assumeOrthogonal s" "dist_crit ?t = dist_crit s" "m_maxDecDuration ?t = m_maxDecDuration s"
    by (simp_all add: cal_unfold dist_crit_def)
  have m: "m_calibrationDuration ?m = m_calibrationDuration s" "m_maxDecDuration ?m = m_maxDecDuration s"
    "m_recenterRemaining ?m = m_calibrationSteps s * m_calibrationDuration s"
    "m_assumeOrthogonal ?m = m_assumeOrthogonal s" "cal_base ?m" "ra_ok ?m" "cal_level ?m = cal_level s"
    using assms(1,2)
    by (simp_all add: north_measured_def Let_def cal_unfold cal_base_def ra_ok_def cal_level_def clearing_pulses_def
        north_calibration_fields)
  have y: "\<not> m_assumeOrthogonal s \<Longrightarrow> 0 < ?y"
    using d n by (simp add: north_measured_def Let_def cal_unfold north_calibration_fields)
  have g: "cal_go_north e loc dx dy dst s =
      (case recenter_duration e 0.8 (m_maxDecDuration ?m) (m_calibrationDuration ?m) ?y of
         None \<Rightarrow> (?m, Undef)
       | Some d \<Rightarrow> (?m\<lparr>m_recenterDuration := d, m_calibrationSteps := DIV_ROUND_UP (m_recenterRemaining ?m) d,
            m_calibrationState := CALIBRATION_STATE_GO_SOUTH, m_southStartingLocation := loc\<rparr>, Fall dx dy dst))"
    using False f(4) by (simp add: cal_go_north_def Let_def)
  show ?thesis
  proof (cases "recenter_duration e 0.8 (m_maxDecDuration ?m) (m_calibrationDuration ?m) ?y")
    case None
    then have "m_assumeOrthogonal s" using y recenter_duration_defined [of ?y] by fastforce
    then show ?thesis using None by (simp add: from_north_def fall_to_def g settled_def)
  next
    case (Some k)
    have k: "m_calibrationDuration s \<le> k" using recenter_duration_ge [OF Some] m(1) by simp
    define t where "t = ?m\<lparr>m_recenterDuration := k, m_calibrationSteps := DIV_ROUND_UP (m_recenterRemaining ?m) k,
            m_calibrationState := CALIBRATION_STATE_GO_SOUTH, m_southStartingLocation := loc\<rparr>"
    have g': "cal_go_north e loc dx dy dst s = (t, Fall dx dy dst)"
      by (simp only: g Some option.case t_def)
    have t: "cal_base t" "ra_ok t" "dec_ok t" "m_calibrationState t = CALIBRATION_STATE_GO_SOUTH" "recenter_ok t"
      "cal_level t = cal_level s" "m_assumeOrthogonal t = m_assumeOrthogonal s"
      using m y k st(1,2) pos(1) mult_right_mono [of "m_calibrationSteps s" 61 "m_calibrationDuration s"]
      by (auto simp: t_def cal_base_def ra_ok_def dec_ok_def recenter_ok_def cal_level_def clearing_pulses_def)
    have "2 * cal_level t + DIV_ROUND_UP (m_recenterRemaining t) (m_recenterDuration t) \<le> bnd"
      using b cal_level_ge [of s] t(1,5,6) st(2)
        DIV_ROUND_UP_bounds(2) [of "m_recenterRemaining t" "m_calibrationDuration t" "m_recenterDuration t"]
      by (simp add: cal_base_def recenter_ok_def)
    from settled_ortho [OF t(7) from_south_settled [OF t(1-5) this]] show ?thesis
      using g' by (simp add: from_north_def fall_to_def)
  qed
qed


lemma from_backlash_settled:
  assumes "cal_base s" "ra_ok s" "m_calibrationState s = CALIBRATION_STATE_CLEAR_BACKLASH"
    and st: "0 \<le> m_calibrationSteps s" "m_calibrationSteps s \<le> clearing_pulses s"
    and mx: "m_blMaxClearingPulses s = clearing_pulses s"
    and b: "4 * cal_level s + (clearing_pulses s - m_calibrationSteps s) \<le> bnd"
  shows "settled bnd s (from_backlash rd reload e loc dx dy dst s)"
proof -
  have north: "settled bnd s (from_backlash rd reload e loc dx dy dst s)"
    if g: "cal_clear_backlash e loc dx dy dst s = (t, Fall x y z)"
      and t: "cal_base t" "ra_ok t" "m_calibrationState t = CALIBRATION_STATE_GO_NORTH" "0 \<le> m_calibrationSteps t"
        "m_calibrationSteps t \<le> 61" "m_calibrationSteps t = 0 \<longrightarrow> z = 0" "cal_level t = cal_level s"
        "m_assumeOrthogonal t = m_assumeOrthogonal s" for t x y z
  proof -
    have "3 * cal_level t + (62 - m_calibrationSteps t) \<le> bnd"
      using b st cal_level_ge [of s] t(4,7) by simp
    from settled_ortho [OF t(8) from_north_settled [OF t(1-6) this]] show ?thesis
      by (simp add: from_backlash_def fall_to_def g)
  qed
  let ?t = "accept_move (Distance (m_blMarkerPoint s) loc) dst (log_step ''Backlash'' dx dy loc dst s)"
  have f: "m_calibrationDuration ?t = m_calibrationDuration s" "m_calibrationSteps ?t = m_calibrationSteps s"
    "m_assumeOrthogonal ?t = m_assumeOrthogonal s" "dist_crit ?t = dist_crit s" "m_calibration ?t = m_calibration s"
    "m_blMaxClearingPulses ?t = m_blMaxClearingPulses s" "m_calibrationState ?t = m_calibrationState s"
    "cal_base ?t = cal_base s" "ra_ok ?t = ra_ok s" "clearing_pulses ?t = clearing_pulses s" "cal_level ?t = cal_level s"
    by (simp_all add: accept_move_def cal_unfold dist_crit_def cal_base_def ra_ok_def clearing_pulses_def cal_level_def)
  consider (first) "m_calibrationSteps s = 0"
    | (more) "m_calibrationSteps s \<noteq> 0" "m_blAcceptedMoves ?t < BL_BACKLASH_MIN_COUNT"
        "m_calibrationSteps s < m_blMaxClearingPulses s \<and> dst < dist_crit s"
    | (limit) "m_calibrationSteps s \<noteq> 0" "m_blAcceptedMoves ?t < BL_BACKLASH_MIN_COUNT"
        "\<not> (m_calibrationSteps s < m_blMaxClearingPulses s \<and> dst < dist_crit s)" "dst \<ge> BL_MIN_CLEARING_DISTANCE"
    | (fail) "m_calibrationSteps s \<noteq> 0" "m_blAcceptedMoves ?t < BL_BACKLASH_MIN_COUNT"
        "\<not> (m_calibrationSteps s < m_blMaxClearingPulses s \<and> dst < dist_crit s)" "\<not> dst \<ge> BL_MIN_CLEARING_DISTANCE"
    | (got) "m_calibrationSteps s \<noteq> 0" "\<not> m_blAcceptedMoves ?t < BL_BACKLASH_MIN_COUNT" by argo
  then show ?thesis
  proof cases
    case first
    obtain t where g: "cal_clear_backlash e loc dx dy dst s = (t, Break)" and "m_calibrationSteps t = 1"
      "m_calibrationState t = m_calibrationState s" "cal_base t" "ra_ok t" "clearing_pulses t = clearing_pulses s"
      "m_blMaxClearingPulses t = clearing_pulses s" "cal_level t = cal_level s"
      using first assms(1,2) mx
      by (simp add: cal_clear_backlash_def cal_unfold Let_def cal_base_def ra_ok_def clearing_pulses_def cal_level_def)
    then show ?thesis using assms(3) b first clearing_pulses_ge [of s]
      by (simp add: from_backlash_def fall_to_def settled_def cal_inv_def cal_measure_def)
  next
    case more
    let ?u = "(emit [ScheduleAxisMove NORTH (m_calibrationDuration ?t) MOVEOPTS_CALIBRATION_MOVE] ?t)
        \<lparr>m_calibrationSteps := m_calibrationSteps ?t + 1, m_blMarkerPoint := loc,
         m_calibrationStartingCoords := GetRADecCoordinates e (m_calibrationStartingCoords ?t), m_blLastCumDistance := dst\<rparr>"
    have g: "cal_clear_backlash e loc dx dy dst s =
        (emit [CalibrationStatus ''Clearing backlash'' (m_calibrationSteps ?u)] ?u, Break)"
      using more f by (simp add: cal_clear_backlash_def Let_def log_step_def emit_def)
    have u: "cal_inv (emit ev ?u)" "cal_measure (emit ev ?u) < bnd" for ev
      using more(3) mx assms(1-3) st b f
      by (simp_all add: cal_inv_def cal_base_def cal_measure_def cal_level_def clearing_pulses_def ra_ok_def emit_def)
    show ?thesis using u by (simp add: from_backlash_def fall_to_def g settled_def)
  next
    case limit
    show ?thesis
      by (rule north [of "fst (to_go_north 0 0 0 (?t\<lparr>m_calibrationSteps := 0, m_calibrationStartingLocation := loc\<rparr>))" 0 0 0])
        (use limit f assms(1,2) in \<open>simp_all add: cal_clear_backlash_def Let_def log_step_def emit_def to_go_north_def
          cal_base_def ra_ok_def cal_level_def clearing_pulses_def\<close>)
  next
    case fail
    have g: "snd (cal_clear_backlash e loc dx dy dst s) = Throw"
      using fail f by (auto simp: cal_clear_backlash_def Let_def log_step_def emit_def)
    show ?thesis
      by (cases "cal_clear_backlash e loc dx dy dst s") (use g in \<open>simp add: from_backlash_def fall_to_def settled_def\<close>)
  next
    case got
    define u where "u = add_decStep 0 0 (emit [LogCalibrationStep ''North'' 0 0 0 (m_blMarkerPoint ?t) 0] ?t)"
    have fu: "cal_base u" "ra_ok u" "cal_level u = cal_level s" "m_assumeOrthogonal u = m_assumeOrthogonal s"
      "m_blMarkerPoint u = m_blMarkerPoint ?t"
      using f assms(1,2)
      by (simp_all add: u_def add_decStep_def emit_def cal_base_def ra_ok_def cal_level_def clearing_pulses_def)
    define w where "w = u\<lparr>m_calibrationSteps := 1, m_calibrationStartingLocation := m_blMarkerPoint
        (emit [LogCalibrationStep ''North'' 0 0 0 (m_blMarkerPoint ?t) 0] ?t)\<rparr>"
    have k: "(m_calibrationSteps (log_step ''Backlash'' dx dy loc dst s) = 0) = False"
      "(m_blAcceptedMoves ?t < BL_BACKLASH_MIN_COUNT) = False"
      "m_blMarkerPoint (log_step ''Backlash'' dx dy loc dst s) = m_blMarkerPoint s"
      using got by (simp_all add: log_step_def emit_def)
    have g: "cal_clear_backlash e loc dx dy dst s = to_go_north (dX (m_blMarkerPoint w) loc) (dY (m_blMarkerPoint w) loc)
        (Distance (m_blMarkerPoint w) loc) w"
      by (simp only: cal_clear_backlash_def Let_def k if_False u_def w_def)
    show ?thesis
      by (rule north [OF g [unfolded to_go_north_def]])
        (use fu in \<open>simp_all add: w_def cal_base_def ra_ok_def cal_level_def clearing_pulses_def\<close>)
  qed
qed


lemma from_east_settled:
  assumes "cal_base s" "ra_ok s" "m_calibrationState s = CALIBRATION_STATE_GO_EAST" "recenter_ok s"
    and b: "5 * cal_level s + DIV_ROUND_UP (m_recenterRemaining s) (m_recenterDuration s) \<le> bnd"
  shows "settled bnd s (from_east rd reload e loc dx dy dst s)"
proof (cases "m_recenterRemaining s > 0")
  case True
  let ?k = "if m_recenterDuration s > m_recenterRemaining s then m_recenterRemaining s else m_recenterDuration s"
  obtain t where g: "cal_go_east e loc dx dy dst s = (t, Break)"
    and t: "m_recenterRemaining t = m_recenterRemaining s - ?k" "m_recenterDuration t = m_recenterDuration s"
      "m_calibrationState t = m_calibrationState s" "m_calibrationDuration t = m_calibrationDuration s"
      "cal_base t" "ra_ok t" "cal_level t = cal_level s"
    using True assms
    by (simp add: cal_go_east_def cal_unfold Let_def cal_base_def ra_ok_def cal_level_def clearing_pulses_def)
  have r: "0 < m_recenterDuration s" using assms(1,4) by (simp add: cal_base_def recenter_ok_def)
  show ?thesis
    using assms DIV_ROUND_UP_less [OF True r] True t
    by (simp add: from_east_def fall_to_def g settled_def cal_inv_def recenter_ok_def cal_measure_def)
next
  case False
  have b': "5 * cal_level s \<le> bnd"
    using b DIV_ROUND_UP_bounds(1) [of "m_recenterRemaining s" "m_calibrationDuration s" "m_recenterDuration s"]
      assms(1,4) by (simp add: cal_base_def recenter_ok_def)
  define u where "u = add_raStep dx dy (log_step ''East'' dx dy loc dst s)"
  define w where "w = (if east_alert e loc u then (emit [AlertEastMovement] u)\<lparr>m_eastAlertShown := True\<rparr> else u)
      \<lparr>m_calibrationSteps := 0, m_calibrationStartingLocation := loc\<rparr>"
  have w: "cal_base w" "ra_ok w" "cal_level w = cal_level s" "m_assumeOrthogonal w = m_assumeOrthogonal s"
    "m_calibrationDuration w = m_calibrationDuration s" "m_calibrationSteps w = 0"
    using assms(1,2) by (auto simp: w_def u_def cal_unfold cal_base_def ra_ok_def cal_level_def clearing_pulses_def)
  have uf: "(m_recenterRemaining u > 0) = False" using False by (simp add: u_def cal_unfold)
  define fin where "fin = w\<lparr>m_calibrationState := CALIBRATION_STATE_COMPLETE,
      m_calibration := (m_calibration w)\<lparr>yAngle := norm_angle (xAngle (m_calibration w) + pi / 2),
        yRate := CALIBRATION_RATE_UNCALIBRATED, decGuideParity := GUIDE_PARITY_UNKNOWN\<rparr>\<rparr>"
  define t where "t = w\<lparr>m_calibrationState := CALIBRATION_STATE_CLEAR_BACKLASH, m_blMarkerPoint := loc,
      m_calibrationStartingCoords := GetRADecCoordinates e (m_calibrationStartingCoords w),
      m_blExpectedBacklashStep := expected_backlash_step e w,
      m_blMaxClearingPulses := max 8 (BL_MAX_CLEARING_TIME sdiv m_calibrationDuration w),
      m_blLastCumDistance := 0, m_blAcceptedMoves := 0\<rparr>"
  have g: "cal_go_east e loc dx dy dst s = (if m_decGuideMode w = DEC_NONE then (fin, Break) else (t, Fall 0 0 0))"
    using uf unfolding u_def by (simp only: cal_go_east_def Let_def fin_def t_def w_def u_def if_False)
  show ?thesis
  proof (cases "m_decGuideMode w = DEC_NONE")
    case True
    have "m_calibrationState fin = CALIBRATION_STATE_COMPLETE" "cal_base fin" "ra_ok fin"
      using w(1,2) by (simp_all add: fin_def cal_base_def ra_ok_def)
    then show ?thesis using b' cal_level_ge [of s] g True
      by (simp add: from_east_def fall_to_def settled_def cal_inv_def cal_measure_def)
  next
    case False
    then have g: "cal_go_east e loc dx dy dst s = (t, Fall 0 0 0)" using g by simp
    have t: "cal_base t" "ra_ok t" "m_calibrationState t = CALIBRATION_STATE_CLEAR_BACKLASH" "m_calibrationSteps t = 0"
        "m_blMaxClearingPulses t = clearing_pulses t" "cal_level t = cal_level s" "m_assumeOrthogonal t = m_assumeOrthogonal s"
      using w by (simp_all add: t_def cal_base_def ra_ok_def cal_level_def clearing_pulses_def)
    have "4 * cal_level t + (clearing_pulses t - m_calibrationSteps t) \<le> bnd"
      using b' t(4,6) by (simp add: cal_level_def)
    from settled_ortho [OF t(7) from_backlash_settled [OF t(1-3) _ _ t(5) this]] show ?thesis
      using t(4) clearing_pulses_ge [of t] by (simp add: from_east_def fall_to_def g)
  qed
qed

lemma from_west_settled:
  assumes "cal_base s" "m_calibrationState s = CALIBRATION_STATE_GO_WEST"
    and st: "0 \<le> m_calibrationSteps s" "m_calibrationSteps s \<le> 61" "m_calibrationSteps s = 0 \<longrightarrow> dst = 0"
    and b: "6 * cal_level s + (62 - m_calibrationSteps s) \<le> bnd"
  shows "settled bnd s (from_west rd reload e loc dx dy dst s)"
proof (cases "dst < dist_crit s")
  case True
  then show ?thesis using assms
    by (simp add: from_west_def fall_to_def cal_go_west_def settled_def dist_crit_def Let_def cal_unfold
        MAX_CALIBRATION_STEPS_def cal_inv_def cal_base_def cal_measure_def cal_level_def clearing_pulses_def)
next
  case False
  have pos: "0 < m_calibrationDuration s" "0 < dist_crit s" using assms(1) by (simp_all add: cal_base_def dist_crit_def)
  have d: "0 < dst" using False pos by simp
  have s1: "1 \<le> m_calibrationSteps s" using st d by (cases "m_calibrationSteps s = 0") auto
  have n: "(0::real) < of_int (m_calibrationSteps s * m_calibrationDuration s)"
    using s1 pos(1) by (simp add: mult_pos_pos)
  let ?t = "add_raStep dx dy (log_step ''West'' dx dy loc dst s)"
  let ?m = "west_measured e loc dst ?t"
  have f: "m_calibrationDuration ?t = m_calibrationDuration s" "m_calibrationSteps ?t = m_calibrationSteps s"
    "dist_crit ?t = dist_crit s"
    by (simp_all add: cal_unfold dist_crit_def)
  have m: "m_calibrationDuration ?m = m_calibrationDuration s"
    "m_recenterRemaining ?m = m_calibrationSteps s * m_calibrationDuration s"
    "m_assumeOrthogonal ?m = m_assumeOrthogonal s" "cal_base ?m" "cal_level ?m = cal_level s" "ra_ok ?m"
    using assms(1) d n
    by (simp_all add: west_measured_def Let_def cal_unfold cal_base_def ra_ok_def cal_level_def clearing_pulses_def)
  have g: "cal_go_west e loc dx dy dst s =
      (case recenter_duration e 1 (m_maxRaDuration ?m) (m_calibrationDuration ?m) (xRate (m_calibration ?m)) of
         None \<Rightarrow> (?m, Undef)
       | Some d \<Rightarrow> (?m\<lparr>m_recenterDuration := d, m_calibrationSteps := DIV_ROUND_UP (m_recenterRemaining ?m) d,
            m_calibrationState := CALIBRATION_STATE_GO_EAST, m_eastStartingLocation := loc\<rparr>, Fall dx dy dst))"
    using False f(3) by (simp add: cal_go_west_def Let_def)
  have "xRate (m_calibration ?m) \<noteq> 0" using m(6) by (simp add: ra_ok_def)
  then obtain k where k: "recenter_duration e 1 (m_maxRaDuration ?m) (m_calibrationDuration ?m) (xRate (m_calibration ?m)) = Some k"
    using recenter_duration_defined by blast
  have kd: "m_calibrationDuration s \<le> k" using recenter_duration_ge [OF k] m(1) by simp
  define t where "t = ?m\<lparr>m_recenterDuration := k, m_calibrationSteps := DIV_ROUND_UP (m_recenterRemaining ?m) k,
            m_calibrationState := CALIBRATION_STATE_GO_EAST, m_eastStartingLocation := loc\<rparr>"
  have g': "cal_go_west e loc dx dy dst s = (t, Fall dx dy dst)" by (simp only: g k option.case t_def)
  have t: "cal_base t" "ra_ok t" "m_calibrationState t = CALIBRATION_STATE_GO_EAST" "recenter_ok t"
    "cal_level t = cal_level s" "m_assumeOrthogonal t = m_assumeOrthogonal s"
    using m kd st(1,2) pos(1) mult_right_mono [of "m_calibrationSteps s" 61 "m_calibrationDuration s"]
    by (auto simp: t_def cal_base_def ra_ok_def recenter_ok_def cal_level_def clearing_pulses_def)
  have "5 * cal_level t + DIV_ROUND_UP (m_recenterRemaining t) (m_recenterDuration t) \<le> bnd"
    using b cal_level_ge [of s] t(1,4,5) st(2)
      DIV_ROUND_UP_bounds(2) [of "m_recenterRemaining t" "m_calibrationDuration t" "m_recenterDuration t"]
    by (simp add: cal_base_def recenter_ok_def)
  from settled_ortho [OF t(6) from_east_settled [OF t(1-4) this]] show ?thesis
    using g' by (simp add: from_west_def fall_to_def)
qed


text \<open>One frame: the calibration is over, or the measure is smaller.\<close>

lemma UpdateCalibrationState_step:
  assumes inv: "cal_inv s"
  shows "case UpdateCalibrationState rd reload e loc s of
      None \<Rightarrow> m_assumeOrthogonal s
    | Some (s', bError) \<Rightarrow> bError \<or> (m_calibrated s' \<and> 0 < xRate (m_cal s')) \<or> (cal_inv s' \<and> cal_measure s' < cal_measure s)"
proof -
  define t where "t = note_start e loc s"
  let ?dx = "dX (m_calibrationStartingLocation t) loc" and ?dy = "dY (m_calibrationStartingLocation t) loc"
    and ?d = "Distance (m_calibrationStartingLocation t) loc"
  have f: "m_calibrationState t = m_calibrationState s" "m_calibrationSteps t = m_calibrationSteps s"
    "cal_base t = cal_base s" "recenter_ok t = recenter_ok s" "ra_ok t = ra_ok s" "dec_ok t = dec_ok s"
    "m_assumeOrthogonal t = m_assumeOrthogonal s" "cal_level t = cal_level s" "clearing_pulses t = clearing_pulses s"
    "m_blMaxClearingPulses t = m_blMaxClearingPulses s"
    "m_recenterRemaining t = m_recenterRemaining s" "m_recenterDuration t = m_recenterDuration s"
    by (simp_all add: t_def note_start_def cal_base_def recenter_ok_def ra_ok_def dec_ok_def cal_level_def clearing_pulses_def)
  have z: "\<not> m_valid (m_calibrationStartingLocation s) \<Longrightarrow> ?d = 0"
    by (simp add: t_def note_start_def)
  define r where "r = (case m_calibrationState t of
             CALIBRATION_STATE_CLEARED \<Rightarrow> (t, Break)
           | CALIBRATION_STATE_GO_WEST \<Rightarrow> from_west rd reload e loc ?dx ?dy ?d t
           | CALIBRATION_STATE_GO_EAST \<Rightarrow> from_east rd reload e loc ?dx ?dy ?d t
           | CALIBRATION_STATE_CLEAR_BACKLASH \<Rightarrow> from_backlash rd reload e loc ?dx ?dy ?d t
           | CALIBRATION_STATE_GO_NORTH \<Rightarrow> from_north rd reload e loc ?dx ?dy ?d t
           | CALIBRATION_STATE_GO_SOUTH \<Rightarrow> from_south rd reload e loc ?dx ?dy ?d t
           | CALIBRATION_STATE_NUDGE_SOUTH \<Rightarrow> from_nudge rd reload e loc ?dx ?dy ?d t
           | CALIBRATION_STATE_COMPLETE \<Rightarrow> from_complete rd reload e loc ?dx ?dy ?d t)"
  have u: "UpdateCalibrationState rd reload e loc s =
      (case r of (s, x) \<Rightarrow> case x of Undef \<Rightarrow> None | Throw \<Rightarrow> Some (scope_ClearCalibration s, True) | _ \<Rightarrow> Some (s, False))"
    by (simp only: UpdateCalibrationState_def Let_def t_def r_def)
  have "settled (cal_measure s) t r"
  proof (cases "m_calibrationState s")
    case CALIBRATION_STATE_CLEARED then show ?thesis using inv by (simp add: cal_inv_def)
  next
    case CALIBRATION_STATE_GO_WEST
    then show ?thesis using inv z
      by (simp add: r_def f cal_inv_def) (intro from_west_settled; auto simp: f cal_measure_def)
  next
    case CALIBRATION_STATE_GO_EAST
    then show ?thesis using inv
      by (simp add: r_def f cal_inv_def) (intro from_east_settled; auto simp: f cal_measure_def)
  next
    case CALIBRATION_STATE_CLEAR_BACKLASH
    then show ?thesis using inv
      by (simp add: r_def f cal_inv_def) (intro from_backlash_settled; auto simp: f cal_measure_def)
  next
    case CALIBRATION_STATE_GO_NORTH
    then show ?thesis using inv
      by (simp add: r_def f cal_inv_def) (intro from_north_settled; auto simp: f cal_measure_def)
  next
    case CALIBRATION_STATE_GO_SOUTH
    then show ?thesis using inv
      by (simp add: r_def f cal_inv_def) (intro from_south_settled; auto simp: f cal_measure_def)
  next
    case CALIBRATION_STATE_NUDGE_SOUTH
    then show ?thesis using inv
      by (simp add: r_def f cal_inv_def) (intro from_nudge_settled; auto simp: f cal_measure_def)
  next
    case CALIBRATION_STATE_COMPLETE
    then show ?thesis using inv
      by (simp add: r_def f cal_inv_def) (intro from_complete_settled; auto simp: f)
  qed
  then show ?thesis
    by (cases r; cases "snd r") (auto simp: u settled_def f)
qed


text \<open>What no case of the switch changes.\<close>

definition kept :: "scope \<Rightarrow> bool \<times> bool \<times> dec_guide_mode" where
  "kept s = (m_assumeOrthogonal s, m_connected s, m_decGuideMode s)"

lemma kept_measured: "kept (west_measured e loc dst s) = kept s" "kept (north_measured e loc dst s) = kept s"
  by (simp_all add: west_measured_def north_measured_def kept_def emit_def Let_def)

lemma kept_west: "kept (fst (cal_go_west e loc dx dy dst s)) = kept s"
  using kept_measured(1) [of e loc dst "add_raStep dx dy (log_step ''West'' dx dy loc dst s)"]
  by (simp add: cal_go_west_def Let_def kept_def cal_unfold split: option.splits)

lemma kept_east: "kept (fst (cal_go_east e loc dx dy dst s)) = kept s"
  by (simp add: cal_go_east_def Let_def kept_def cal_unfold)

lemma kept_backlash: "kept (fst (cal_clear_backlash e loc dx dy dst s)) = kept s"
  by (simp add: cal_clear_backlash_def to_go_north_def accept_move_def Let_def kept_def cal_unfold)

lemma kept_north: "kept (fst (cal_go_north e loc dx dy dst s)) = kept s"
  using kept_measured(2) [of e loc dst "add_decStep dx dy (log_step ''North'' dx dy loc dst s)"]
  by (simp add: cal_go_north_def Let_def kept_def cal_unfold split: option.splits)

lemma kept_south: "kept (fst (cal_go_south e loc dx dy dst s)) = kept s"
  by (simp add: cal_go_south_def Let_def kept_def cal_unfold)

lemma kept_nudge: "kept (fst (cal_nudge_south e loc dx dy dst s)) = kept s"
  by (cases rule: cal_nudge_south_cases [of e loc dx dy dst s]) (simp_all add: kept_def emit_def)

lemma kept_complete: "kept (fst (cal_complete rd reload e s)) = kept s"
  by (simp add: cal_complete_def store_new_cal_def scope_SetCalibration_def mount_SetCalibration_def store_new_details_def
      SetCalibrationDetails_def flag_issue_def kept_def emit_def Let_def split: prod.splits)

lemma kept_fall:
  "(\<And>dx dy dst t. kept (fst (next dx dy dst t)) = kept t) \<Longrightarrow> kept (fst r) = kept s \<Longrightarrow> kept (fst (fall_to next r)) = kept s"
  by (cases r; cases "snd r") (simp_all add: fall_to_def)

lemma kept_from:
  "kept (fst (from_complete rd reload e loc dx dy dst s)) = kept s"
  "kept (fst (from_nudge rd reload e loc dx dy dst s)) = kept s"
  "kept (fst (from_south rd reload e loc dx dy dst s)) = kept s"
  "kept (fst (from_north rd reload e loc dx dy dst s)) = kept s"
  "kept (fst (from_backlash rd reload e loc dx dy dst s)) = kept s"
  "kept (fst (from_east rd reload e loc dx dy dst s)) = kept s"
  "kept (fst (from_west rd reload e loc dx dy dst s)) = kept s"
proof -
  show c: "kept (fst (from_complete rd reload e loc dx dy dst s)) = kept s" for dx dy dst s
    by (simp add: from_complete_def kept_complete)
  show n: "kept (fst (from_nudge rd reload e loc dx dy dst s)) = kept s" for dx dy dst s
    unfolding from_nudge_def by (rule kept_fall [OF c kept_nudge])
  show so: "kept (fst (from_south rd reload e loc dx dy dst s)) = kept s" for dx dy dst s
    unfolding from_south_def by (rule kept_fall [OF n kept_south])
  show no: "kept (fst (from_north rd reload e loc dx dy dst s)) = kept s" for dx dy dst s
    unfolding from_north_def by (rule kept_fall [OF so kept_north])
  show b: "kept (fst (from_backlash rd reload e loc dx dy dst s)) = kept s" for dx dy dst s
    unfolding from_backlash_def by (rule kept_fall [OF no kept_backlash])
  show ea: "kept (fst (from_east rd reload e loc dx dy dst s)) = kept s" for dx dy dst s
    unfolding from_east_def by (rule kept_fall [OF b kept_east])
  show "kept (fst (from_west rd reload e loc dx dy dst s)) = kept s" for dx dy dst s
    unfolding from_west_def by (rule kept_fall [OF ea kept_west])
qed

lemma kept_step:
  assumes "UpdateCalibrationState rd reload e loc s = Some (s', bError)"
  shows "kept s' = kept s"
proof -
  have n: "kept (note_start e loc s) = kept s" by (simp add: note_start_def kept_def)
  have c: "kept (scope_ClearCalibration t) = kept t" for t
    by (simp add: scope_ClearCalibration_def mount_ClearCalibration_def kept_def)
  have "kept s' = kept (note_start e loc s)"
    using assms by (auto simp: UpdateCalibrationState_def Let_def c kept_from [symmetric]
        split: calibration_state.splits prod.splits cal_exit.splits; metis c fst_conv kept_from)
  then show ?thesis by (simp add: n)
qed


text \<open>The guider's side (\<open>Guider::UpdateGuideState\<close>, state \<open>STATE_CALIBRATING_PRIMARY\<close>): one call per frame
  until the mount is calibrated or an error stops the calibration.\<close>

datatype cal_outcome = Undefined | Failed scope | Completed scope | Running scope

fun cal_run :: "(real \<Rightarrow> real) \<Rightarrow> (calibration_details \<Rightarrow> calibration_details) \<Rightarrow> (cal_env \<times> sodium_point) list \<Rightarrow>
    scope \<Rightarrow> cal_outcome" where
  "cal_run rd reload [] s = Running s"
| "cal_run rd reload ((e, loc) # fs) s =
    (case UpdateCalibrationState rd reload e loc s of
       None \<Rightarrow> Undefined
     | Some (s', bError) \<Rightarrow>
         if bError then Failed s' else if m_calibrated s' then Completed s' else cal_run rd reload fs s')"

lemma cal_run_ends:
  assumes "cal_inv s" "cal_measure s \<le> int (length fs)"
  shows "case cal_run rd reload fs s of Undefined \<Rightarrow> m_assumeOrthogonal s | Failed _ \<Rightarrow> True
     | Completed s' \<Rightarrow> m_calibrated s' \<and> 0 < xRate (m_cal s') | Running _ \<Rightarrow> False"
  using assms
proof (induction fs arbitrary: s)
  case Nil then show ?case using cal_measure_pos [of s] by simp
next
  case (Cons f fs)
  obtain e loc where f: "f = (e, loc)" by fastforce
  note st = UpdateCalibrationState_step [OF Cons.prems(1), of rd reload e loc]
  show ?case
  proof (cases "UpdateCalibrationState rd reload e loc s")
    case None then show ?thesis using st by (simp add: f)
  next
    case (Some p)
    obtain s' b where p: "p = (s', b)" by fastforce
    have u: "UpdateCalibrationState rd reload e loc s = Some (s', b)" using Some p by simp
    have a: "m_assumeOrthogonal s' = m_assumeOrthogonal s" using kept_step [OF u] by (simp add: kept_def)
    consider (err) b | (fin) "\<not> b" "m_calibrated s'" "0 < xRate (m_cal s')"
      | (go) "\<not> b" "cal_inv s'" "cal_measure s' < cal_measure s"
      using st u by auto
    then show ?thesis
    proof cases
      case err then show ?thesis by (simp add: f u)
    next
      case fin then show ?thesis by (simp add: f u)
    next
      case go
      have c: "\<not> m_calibrated s'" using go(2) by (simp add: cal_inv_def cal_base_def)
      have "cal_measure s' \<le> int (length fs)" using go(3) Cons.prems(2) by simp
      from Cons.IH [OF go(2) this] show ?thesis using go(1) c a
        by (simp add: f u split: cal_outcome.splits)
    qed
  qed
qed

lemma BeginCalibration_inv:
  assumes "scope_BeginCalibration de loc s0 = (s, False)" "cal_settings_ok s0"
  shows "cal_inv s" "cal_measure s \<le> 7 * cal_level s"
  using assms(1) scope_BeginCalibration_ok [OF assms] clearing_pulses_ge [of s]
  by (auto simp: scope_BeginCalibration_def cal_settings_ok_def BeginCalibration_def cal_inv_def cal_base_def cal_measure_def cal_level_def scope_ClearCalibration_def
      mount_ClearCalibration_def Let_def split: if_splits)



definition sample_env :: cal_env where
  "sample_env = \<lparr>ce_coords = None, ce_guideRates = None, ce_canPulseGuide = True, ce_fastRecenter = True,
     ce_maxMovePixels = 20, ce_declination = 0, ce_pierSide = PIER_SIDE_EAST, ce_rotator = 0, ce_binning = 1,
     ce_focalLength = 400, ce_pixelScale = 2, ce_stamp = ''now'', ce_profile = (\<lambda>_. None), ce_prevDetails = sample_details\<rparr>"

definition sample_duration_env :: duration_env where
  "sample_duration_env = \<lparr>de_details = sample_details, de_binning = 1, de_focalLength = 400, de_pixelSize = 4,
     de_guideRates = None, de_badInt = 0\<rparr>"

lemma sample_check [simp]: "CheckCalibrationDuration sample_duration_env s = s"
  by (simp add: CheckCalibrationDuration_def adjust_distance_def sample_duration_env_def sample_details_def)

lemma sample_settings_ok [simp]: "cal_settings_ok (sample_scope\<lparr>m_decGuideMode := d\<rparr>)" "cal_settings_ok sample_scope"
  by (simp_all add: cal_settings_ok_def sample_scope_def)



subsection \<open>The RA moves are undone\<close>

definition ra_move :: "scope_event \<Rightarrow> int" where
  "ra_move ev = (case ev of ScheduleAxisMove d n _ \<Rightarrow> if d = WEST then n else if d = EAST then - n else 0 | _ \<Rightarrow> 0)"

definition ra_net :: "scope_event list \<Rightarrow> int" where
  \<comment> \<open>milliseconds of west less milliseconds of east moves\<close>
  "ra_net tr = sum_list (map ra_move tr)"

lemma ra_net_simps [simp]:
  "ra_net (xs @ ys) = ra_net xs + ra_net ys" "ra_net [] = 0" "ra_net (ev # xs) = ra_move ev + ra_net xs"
  by (simp_all add: ra_net_def)

lemma ra_net_ProfileWrite [simp]: "ra_net (map ProfileWrite ws) = 0"
  by (induction ws) (simp_all add: ra_move_def)

definition ra_out :: "scope \<Rightarrow> int" where
  \<comment> \<open>what is still to be undone\<close>
  "ra_out s = (case m_calibrationState s of
      CALIBRATION_STATE_GO_WEST \<Rightarrow> m_calibrationSteps s * m_calibrationDuration s
    | CALIBRATION_STATE_GO_EAST \<Rightarrow> m_recenterRemaining s | _ \<Rightarrow> 0)"

definition late :: "scope \<Rightarrow> bool" where
  "late s \<longleftrightarrow> m_calibrationState s \<notin> {CALIBRATION_STATE_GO_WEST, CALIBRATION_STATE_GO_EAST}"

definition ra_kept :: "scope \<Rightarrow> int \<Rightarrow> bool" where
  "ra_kept s k \<longleftrightarrow> ra_net (sc_trace s) - ra_out s = k"

definition balanced :: "scope \<Rightarrow> scope \<Rightarrow> int \<Rightarrow> bool" where
  "balanced s t k \<longleftrightarrow> ra_kept t k \<and> (late t \<or> m_calibrated t = m_calibrated s)"

definition late_kept :: "scope \<Rightarrow> scope \<Rightarrow> bool" where
  "late_kept s t \<longleftrightarrow> late s \<longrightarrow> late t \<and> ra_net (sc_trace t) = ra_net (sc_trace s)"

lemma late_backlash: "late_kept s (fst (cal_clear_backlash e loc dx dy dst s))"
  by (simp add: cal_clear_backlash_def to_go_north_def accept_move_def Let_def late_kept_def late_def ra_move_def cal_unfold)

lemma late_north: "late_kept s (fst (cal_go_north e loc dx dy dst s))"
  by (simp add: cal_go_north_def north_measured_def Let_def late_kept_def late_def ra_move_def cal_unfold split: option.splits)

lemma late_south: "late_kept s (fst (cal_go_south e loc dx dy dst s))"
  by (simp add: cal_go_south_def Let_def late_kept_def late_def ra_move_def cal_unfold)

lemma late_nudge: "late_kept s (fst (cal_nudge_south e loc dx dy dst s))"
  by (cases rule: cal_nudge_south_cases [of e loc dx dy dst s]) (simp_all add: late_kept_def late_def ra_move_def emit_def)

lemma late_complete: "late_kept s (fst (cal_complete rd reload e s))"
  by (simp add: cal_complete_def store_new_cal_def scope_SetCalibration_def mount_SetCalibration_def store_new_details_def
      SetCalibrationDetails_def flag_issue_def late_kept_def late_def emit_def ra_move_def Let_def split: prod.splits)

lemma late_fall:
  "(\<And>dx dy dst t. late_kept t (fst (next dx dy dst t))) \<Longrightarrow> late_kept s (fst r) \<Longrightarrow> late_kept s (fst (fall_to next r))"
  by (cases r; cases "snd r") (fastforce simp: fall_to_def late_kept_def)+

lemma late_from:
  "late_kept s (fst (from_complete rd reload e loc dx dy dst s))"
  "late_kept s (fst (from_nudge rd reload e loc dx dy dst s))"
  "late_kept s (fst (from_south rd reload e loc dx dy dst s))"
  "late_kept s (fst (from_north rd reload e loc dx dy dst s))"
  "late_kept s (fst (from_backlash rd reload e loc dx dy dst s))"
proof -
  show c: "late_kept s (fst (from_complete rd reload e loc dx dy dst s))" for dx dy dst s
    by (simp add: from_complete_def late_complete)
  show n: "late_kept s (fst (from_nudge rd reload e loc dx dy dst s))" for dx dy dst s
    unfolding from_nudge_def by (rule late_fall [OF c late_nudge])
  show so: "late_kept s (fst (from_south rd reload e loc dx dy dst s))" for dx dy dst s
    unfolding from_south_def by (rule late_fall [OF n late_south])
  show no: "late_kept s (fst (from_north rd reload e loc dx dy dst s))" for dx dy dst s
    unfolding from_north_def by (rule late_fall [OF so late_north])
  show "late_kept s (fst (from_backlash rd reload e loc dx dy dst s))" for dx dy dst s
    unfolding from_backlash_def by (rule late_fall [OF no late_backlash])
qed

lemma late_balanced: "late s \<Longrightarrow> late_kept s t \<Longrightarrow> balanced u t (ra_net (sc_trace s))"
  by (auto simp: balanced_def late_def late_kept_def ra_kept_def ra_out_def split: calibration_state.splits)

lemma from_east_balanced:
  assumes "m_calibrationState s = CALIBRATION_STATE_GO_EAST" "0 \<le> m_recenterRemaining s"
  shows "balanced s (fst (from_east rd reload e loc dx dy dst s)) (ra_net (sc_trace s) - m_recenterRemaining s)"
proof (cases "m_recenterRemaining s > 0")
  case True
  then show ?thesis using assms
    by (simp add: from_east_def fall_to_def cal_go_east_def Let_def cal_unfold balanced_def ra_kept_def ra_out_def ra_move_def)
next
  case False
  then have r: "m_recenterRemaining s = 0" using assms(2) by simp
  obtain t x where g: "cal_go_east e loc dx dy dst s = (t, x)" by fastforce
  have t: "late t" "ra_net (sc_trace t) = ra_net (sc_trace s)" "x = Break \<or> x = Fall 0 0 0"
    using g r by (auto simp: cal_go_east_def Let_def cal_unfold late_def ra_move_def split: if_splits)
  have "late_kept t (fst (from_east rd reload e loc dx dy dst s))"
    using t(3) late_from(5) [of t rd reload e loc 0 0 0]
    by (auto simp: from_east_def fall_to_def g) (simp add: late_kept_def)
  from late_balanced [OF t(1) this] show ?thesis by (simp add: t(2) r)
qed

lemma from_west_balanced:
  assumes "m_calibrationState s = CALIBRATION_STATE_GO_WEST" "0 \<le> m_calibrationSteps s" "0 < m_calibrationDuration s"
    "snd (from_west rd reload e loc dx dy dst s) \<notin> {Throw, Undef}"
  shows "balanced s (fst (from_west rd reload e loc dx dy dst s)) (ra_net (sc_trace s) - m_calibrationSteps s * m_calibrationDuration s)"
proof (cases "dst < dist_crit s")
  case True
  then show ?thesis using assms
    by (auto simp: from_west_def fall_to_def cal_go_west_def dist_crit_def Let_def cal_unfold balanced_def ra_kept_def ra_out_def ra_move_def
        algebra_simps)
next
  case False
  let ?m = "west_measured e loc dst (add_raStep dx dy (log_step ''West'' dx dy loc dst s))"
  have m: "m_recenterRemaining ?m = m_calibrationSteps s * m_calibrationDuration s"
    "ra_net (sc_trace ?m) = ra_net (sc_trace s)" "m_calibrated ?m = m_calibrated s"
    by (simp_all add: west_measured_def Let_def cal_unfold ra_move_def)
  have f: "dist_crit (add_raStep dx dy (log_step ''West'' dx dy loc dst s)) = dist_crit s" by (simp add: dist_crit_def cal_unfold)
  show ?thesis
  proof (cases "recenter_duration e 1 (m_maxRaDuration ?m) (m_calibrationDuration ?m) (xRate (m_calibration ?m))")
    case None
    then have "cal_go_west e loc dx dy dst s = (?m, Undef)" using False f by (simp add: cal_go_west_def Let_def)
    then show ?thesis using assms(4) by (simp add: from_west_def fall_to_def)
  next
    case (Some k)
    define t where "t = ?m\<lparr>m_recenterDuration := k, m_calibrationSteps := DIV_ROUND_UP (m_recenterRemaining ?m) k,
            m_calibrationState := CALIBRATION_STATE_GO_EAST, m_eastStartingLocation := loc\<rparr>"
    have "cal_go_west e loc dx dy dst s = (t, Fall dx dy dst)" using False f Some by (simp add: cal_go_west_def Let_def t_def)
    moreover have "m_recenterRemaining t = m_calibrationSteps s * m_calibrationDuration s" "ra_net (sc_trace t) = ra_net (sc_trace s)"
      "m_calibrationState t = CALIBRATION_STATE_GO_EAST" "m_calibrated t = m_calibrated s" using m by (simp_all add: t_def)
    ultimately show ?thesis using from_east_balanced [of t rd reload e loc dx dy dst] assms(2,3)
      by (simp add: from_west_def fall_to_def balanced_def)
  qed
qed


lemma balanced_step:
  assumes "cal_inv s" "UpdateCalibrationState rd reload e loc s = Some (s', False)"
  shows "balanced s s' (ra_net (sc_trace s) - ra_out s)"
proof -
  define t where "t = note_start e loc s"
  let ?dx = "dX (m_calibrationStartingLocation t) loc" and ?dy = "dY (m_calibrationStartingLocation t) loc"
    and ?d = "Distance (m_calibrationStartingLocation t) loc"
  have f: "m_calibrationState t = m_calibrationState s" "m_calibrationSteps t = m_calibrationSteps s"
    "m_calibrationDuration t = m_calibrationDuration s" "ra_out t = ra_out s" "sc_trace t = sc_trace s"
    "m_recenterRemaining t = m_recenterRemaining s" "m_calibrated t = m_calibrated s"
    by (simp_all add: t_def note_start_def ra_out_def split: calibration_state.split)
  have late: "balanced s (fst r) (ra_net (sc_trace s) - ra_out s)" if "late s" "late_kept t (fst r)" for r :: "scope \<times> cal_exit"
    using late_balanced [of t "fst r" s] that by (auto simp: late_def f ra_out_def split: calibration_state.splits)
  have b: "balanced t = balanced s" by (simp add: balanced_def f fun_eq_iff)
  note u = assms(2) [unfolded UpdateCalibrationState_def Let_def, folded t_def]
  show ?thesis
  proof (cases "m_calibrationState s")
    case CALIBRATION_STATE_CLEARED
    then show ?thesis using assms(1) by (simp add: cal_inv_def)
  next
    case CALIBRATION_STATE_GO_WEST
    then have "s' = fst (from_west rd reload e loc ?dx ?dy ?d t)" "snd (from_west rd reload e loc ?dx ?dy ?d t) \<notin> {Throw, Undef}"
      using u by (auto simp: f split: prod.splits cal_exit.splits)
    then show ?thesis using from_west_balanced [of t rd reload e loc ?dx ?dy ?d] assms(1) CALIBRATION_STATE_GO_WEST
      by (simp add: f cal_inv_def cal_base_def b ra_out_def)
  next
    case CALIBRATION_STATE_GO_EAST
    then have "s' = fst (from_east rd reload e loc ?dx ?dy ?d t)"
      using u by (auto simp: f split: prod.splits cal_exit.splits)
    then show ?thesis using from_east_balanced [of t rd reload e loc ?dx ?dy ?d] assms(1) CALIBRATION_STATE_GO_EAST
      by (simp add: f cal_inv_def recenter_ok_def b ra_out_def)
  next
    case CALIBRATION_STATE_CLEAR_BACKLASH
    then have "s' = fst (from_backlash rd reload e loc ?dx ?dy ?d t)"
      using u by (auto simp: f split: prod.splits cal_exit.splits)
    then show ?thesis using late late_from(5) CALIBRATION_STATE_CLEAR_BACKLASH by (simp add: late_def)
  next
    case CALIBRATION_STATE_GO_NORTH
    then have "s' = fst (from_north rd reload e loc ?dx ?dy ?d t)"
      using u by (auto simp: f split: prod.splits cal_exit.splits)
    then show ?thesis using late late_from(4) CALIBRATION_STATE_GO_NORTH by (simp add: late_def)
  next
    case CALIBRATION_STATE_GO_SOUTH
    then have "s' = fst (from_south rd reload e loc ?dx ?dy ?d t)"
      using u by (auto simp: f split: prod.splits cal_exit.splits)
    then show ?thesis using late late_from(3) CALIBRATION_STATE_GO_SOUTH by (simp add: late_def)
  next
    case CALIBRATION_STATE_NUDGE_SOUTH
    then have "s' = fst (from_nudge rd reload e loc ?dx ?dy ?d t)"
      using u by (auto simp: f split: prod.splits cal_exit.splits)
    then show ?thesis using late late_from(2) CALIBRATION_STATE_NUDGE_SOUTH by (simp add: late_def)
  next
    case CALIBRATION_STATE_COMPLETE
    then have "s' = fst (from_complete rd reload e loc ?dx ?dy ?d t)"
      using u by (auto simp: f split: prod.splits cal_exit.splits)
    then show ?thesis using late late_from(1) CALIBRATION_STATE_COMPLETE by (simp add: late_def)
  qed
qed

lemma cal_run_balanced:
  assumes "cal_inv s" "cal_run rd reload fs s = Completed s'"
  shows "ra_net (sc_trace s') = ra_net (sc_trace s) - ra_out s"
  using assms
proof (induction fs arbitrary: s)
  case (Cons f fs)
  obtain e loc where f: "f = (e, loc)" by fastforce
  obtain t where t: "UpdateCalibrationState rd reload e loc s = Some (t, False)"
    "(if m_calibrated t then Completed t else cal_run rd reload fs t) = Completed s'"
    using Cons.prems(2) by (auto simp: f split: option.splits prod.splits if_splits)
  note b = balanced_step [OF Cons.prems(1) t(1)]
  show ?case
  proof (cases "m_calibrated t")
    case True
    then have "late t" using b Cons.prems(1) by (auto simp: balanced_def cal_inv_def cal_base_def)
    then have "ra_out t = 0" by (auto simp: late_def ra_out_def split: calibration_state.splits)
    then show ?thesis using b t(2) True by (simp add: balanced_def ra_kept_def)
  next
    case False
    have "cal_inv t" using UpdateCalibrationState_step [OF Cons.prems(1), of rd reload e loc] t(1) False by simp
    from Cons.IH [OF this] show ?thesis using t(2) False b by (simp add: balanced_def ra_kept_def)
  qed
qed simp

text \<open>C11: Calibration undoes its RA moves: in a calibration that completes, the west pulses scheduled add up to
  exactly the same number of milliseconds as the east pulses.\<close>
theorem calibration_recenters:
  assumes "scope_BeginCalibration de loc s0 = (s, False)" and "cal_settings_ok s0"
    and "cal_run rd reload frames s = Completed s'"
  shows "ra_net (sc_trace s') = ra_net (sc_trace s)"
proof -
  have "ra_out s = 0"
    using assms(1) by (auto simp: scope_BeginCalibration_def BeginCalibration_def ra_out_def Let_def split: if_splits)
  then show ?thesis using cal_run_balanced [OF BeginCalibration_inv(1) [OF assms(1,2)] assms(3)] by simp
qed


lemma cal_done_step:
  assumes "m_calibrationState s = CALIBRATION_STATE_COMPLETE" "ra_ok s"
  obtains s' where "UpdateCalibrationState rd reload e loc s = Some (s', False)" "m_calibrated s'"
proof -
  have "ra_ok (note_start e loc s)" using assms(2) by (simp add: ra_ok_def note_start_def)
  from cal_complete_done [OF this, of rd reload e]
  obtain s' where "cal_complete rd reload e (note_start e loc s) = (s', Break)" "m_calibrated s'"
    by (cases "cal_complete rd reload e (note_start e loc s)") auto
  moreover have "m_calibrationState (note_start e loc s) = CALIBRATION_STATE_COMPLETE"
    using assms(1) by (simp add: note_start_def)
  ultimately show ?thesis by (intro that [of s']) (simp_all add: UpdateCalibrationState_def from_complete_def Let_def)
qed

theorem calibration_recenters_witness:
  "\<exists>s s'. scope_BeginCalibration sample_duration_env (SodiumPoint 0 0) (sample_scope\<lparr>m_decGuideMode := DEC_NONE\<rparr>) = (s, False) \<and>
     cal_run id id [(sample_env, SodiumPoint 0 0), (sample_env\<lparr>ce_fastRecenter := False\<rparr>, SodiumPoint 25 0),
       (sample_env, SodiumPoint 0 0), (sample_env, SodiumPoint 0 0)] s = Completed s' \<and> ra_net (sc_trace s') = 0"
proof -
  let ?p = "SodiumPoint 0 0" and ?q = "SodiumPoint 25 0" and ?e = "sample_env\<lparr>ce_fastRecenter := False\<rparr>"
  have d: "Distance ?p ?q = 25" "Distance ?p ?p = 0"
    by (simp_all add: Distance_def hypot_def dX_def dY_def)
  obtain s where s: "scope_BeginCalibration sample_duration_env ?p (sample_scope\<lparr>m_decGuideMode := DEC_NONE\<rparr>) = (s, False)"
    "m_calibrationDuration s = 7500" "m_calibrationDistance s = 25" "m_calibrationState s = CALIBRATION_STATE_GO_WEST"
    "m_calibrationSteps s = 0" "\<not> m_valid (m_calibrationStartingLocation s)" "m_decGuideMode s = DEC_NONE" "sc_trace s = []"
    "\<not> m_calibrated s"
    by (simp add: scope_BeginCalibration_def BeginCalibration_def sample_scope_def scope_ClearCalibration_def mount_ClearCalibration_def)
  obtain s1 where s1: "UpdateCalibrationState id id sample_env ?p s = Some (s1, False)"
    "m_calibrationDuration s1 = 7500" "m_calibrationDistance s1 = 25" "m_calibrationState s1 = CALIBRATION_STATE_GO_WEST"
    "m_calibrationSteps s1 = 1" "m_calibrationStartingLocation s1 = ?p" "m_decGuideMode s1 = DEC_NONE" "\<not> m_calibrated s1"
    using s d by (simp add: UpdateCalibrationState_def note_start_def from_west_def fall_to_def cal_go_west_def cal_unfold
        dist_crit_def MAX_CALIBRATION_STEPS_def Let_def)
  obtain s2 where s2: "UpdateCalibrationState id id ?e ?q s1 = Some (s2, False)"
    "m_calibrationDuration s2 = 7500" "m_calibrationDistance s2 = 25" "m_calibrationState s2 = CALIBRATION_STATE_GO_EAST"
    "m_recenterRemaining s2 = 0" "m_calibrationStartingLocation s2 = ?p" "m_decGuideMode s2 = DEC_NONE" "\<not> m_calibrated s2"
    "ra_ok s2"
    using s1 d by (simp add: UpdateCalibrationState_def note_start_def from_west_def from_east_def fall_to_def cal_go_west_def
        cal_go_east_def west_measured_def recenter_duration_def cal_unfold dist_crit_def ra_ok_def Let_def)
  obtain s3 where s3: "UpdateCalibrationState id id sample_env ?p s2 = Some (s3, False)"
    "m_calibrationState s3 = CALIBRATION_STATE_COMPLETE" "ra_ok s3" "\<not> m_calibrated s3"
    using s2 d by (simp add: UpdateCalibrationState_def note_start_def from_east_def fall_to_def
        cal_go_east_def east_alert_def sample_env_def cal_unfold ra_ok_def Let_def)
  obtain s4 where s4: "UpdateCalibrationState id id sample_env ?p s3 = Some (s4, False)" "m_calibrated s4"
    using cal_done_step [OF s3(2,3)] .
  have run: "cal_run id id [(sample_env, ?p), (?e, ?q), (sample_env, ?p), (sample_env, ?p)] s = Completed s4"
    using s1(1,8) s2(1,8) s3(1,4) s4 by simp
  have "ra_net (sc_trace s4) = 0"
    using calibration_recenters [OF s(1) _ run] s(8) by simp
  then show ?thesis using s(1) run by blast
qed

end
