(* ===== verification/BacklashTool.thy ===== *)
theory BacklashTool
  imports ScopeSettings GuidingStats
begin

unbundle bit_operations_syntax

text \<open>
  \<open>src/src/algorithm/backlash_comp.cpp\<close>: \<open>BacklashTool\<close>, which measures the Dec backlash of the scope: it pulses
  north until the star moves steadily, north and south again by the same number of equal pulses, computes
  the backlash from the star's positions, tests it and brings the star back. \<open>DecMeasurementStep\<close> is called
  once per frame while the guider is in measurement mode; one definition per case of its switch.

  What it sends to the frame and the guider is appended to the ghost field \<open>bt_trace\<close>, oldest first. The
  conversion of a NaN or an infinity to an \<open>int\<close> gives an unspecified number: the field \<open>be_badInt\<close> of the
  environment.
\<close>

subsection \<open>State\<close>

definition BACKLASH_MIN_COUNT :: int where "BACKLASH_MIN_COUNT = 3"
definition BACKLASH_EXPECTED_DISTANCE :: real where "BACKLASH_EXPECTED_DISTANCE = 4"
definition BACKLASH_EXEMPTION_DISTANCE :: real where "BACKLASH_EXEMPTION_DISTANCE = 40"
definition MAX_CLEARING_STEPS :: int where "MAX_CLEARING_STEPS = 100"
definition NORTH_PULSE_SIZE :: int where "NORTH_PULSE_SIZE = 500"
definition MAX_NORTH_PULSES :: int where "MAX_NORTH_PULSES = 8000"

lemmas blt_consts = BACKLASH_MIN_COUNT_def BACKLASH_EXPECTED_DISTANCE_def BACKLASH_EXEMPTION_DISTANCE_def
  MAX_CLEARING_STEPS_def NORTH_PULSE_SIZE_def MAX_NORTH_PULSES_def

datatype blt_state = BLT_STATE_INITIALIZE | BLT_STATE_CLEAR_NORTH | BLT_STATE_STEP_NORTH | BLT_STATE_STEP_SOUTH
  | BLT_STATE_ABORTED | BLT_STATE_TEST_CORRECTION | BLT_STATE_RESTORE | BLT_STATE_WRAPUP | BLT_STATE_COMPLETED

datatype measurement_result = MEASUREMENT_TOO_FEW_NORTH | MEASUREMENT_TOO_FEW_SOUTH | MEASUREMENT_BL_NOT_CLEARED
  | MEASUREMENT_SANITY | MEASUREMENT_VALID

datatype blt_status = Status_None | Status_NotCalibrated | Status_NoDecRate | Status_ClearingNorth int
  | Status_NotCleared | Status_MovingNorth int int int | Status_TooCloseToEdge | Status_MovingSouth int int int
  | Status_Erratic | Status_NoSouthMoves | Status_TestCorrection int | Status_Restoring | Status_Complete | Status_Halted

datatype blt_event = BltMove guide_direction int | BltMeasurementMode bool

record backlash_tool =
  bt_pulseWidth :: int
  bt_stepCount :: int
  bt_northPulseCount :: int
  bt_restoreCount :: int
  bt_acceptedMoves :: int
  bt_lastClearRslt :: real
  bt_lastDecGuideRate :: real
  bt_backlashResultPx :: real
  bt_cumClearingDistance :: real
  bt_backlashExemption :: bool
  bt_backlashResultMs :: int
  bt_northRate :: real
  bt_startingPoint :: sodium_point
  bt_markerPoint :: sodium_point
  bt_endSouth :: sodium_point
  bt_lastStatus :: blt_status
  bt_northBLSteps :: "real list"
  bt_southBLSteps :: "real list"
  bt_driftPerSec :: real
  bt_northStats :: axis_stats
  bt_msmtStartTime :: int
  bt_msmtEndTime :: int
  bt_state :: blt_state
  bt_Rslt :: measurement_result
  bt_trace :: "blt_event list"

record blt_env =
  be_profile :: profile
  be_uninit :: calibration \<comment> \<open>the uninitialised members of a local \<open>Calibration\<close>\<close>
  be_width :: int
  be_height :: int
  be_maxMove :: int \<comment> \<open>\<open>GetMaxMovePixels\<close>\<close>
  be_now :: int \<comment> \<open>milliseconds\<close>
  be_badInt :: int

definition int_of :: "blt_env \<Rightarrow> real option \<Rightarrow> int" where
  "int_of e x = (case x of None \<Rightarrow> be_badInt e | Some r \<Rightarrow> trunc r)"

definition GetLastDecGuideRate :: "blt_env \<Rightarrow> real" where
  "GetLastDecGuideRate e =
    (let lastCalibration = GetLastCalibration ''scope'' (be_profile e) (be_uninit e)
     in if isValid lastCalibration then yRate lastCalibration else -1)"

definition BacklashTool_new :: "blt_env \<Rightarrow> backlash_tool \<Rightarrow> backlash_tool" where
  \<comment> \<open>the second argument gives the members the constructor leaves uninitialised\<close>
  "BacklashTool_new e t =
    (let rate = GetLastDecGuideRate e;
         t = t\<lparr>bt_lastDecGuideRate := rate\<rparr>;
         t = (if rate > 0 then t\<lparr>bt_state := BLT_STATE_INITIALIZE, bt_lastStatus := Status_None\<rparr>
              else t\<lparr>bt_state := BLT_STATE_ABORTED, bt_lastStatus := Status_NotCalibrated\<rparr>)
     in t\<lparr>bt_northBLSteps := [], bt_southBLSteps := [], bt_backlashResultPx := 0, bt_backlashResultMs := 0,
          bt_cumClearingDistance := 0, bt_backlashExemption := False\<rparr>)"

definition OutOfRoom :: "blt_env \<Rightarrow> real \<Rightarrow> real \<Rightarrow> int \<Rightarrow> bool" where
  "OutOfRoom e camX camY margin \<longleftrightarrow> camX < of_int margin \<or> camY < of_int margin \<or>
     camX \<ge> of_int (be_width e - margin) \<or> camY \<ge> of_int (be_height e - margin)"

subsection \<open>Computing the backlash\<close>

fun south_loop :: "real \<Rightarrow> real \<Rightarrow> real \<Rightarrow> real \<Rightarrow> int \<Rightarrow> real \<Rightarrow> int \<Rightarrow> real \<Rightarrow> real \<Rightarrow> real list \<Rightarrow> real \<times> measurement_result" where
  \<comment> \<open>the loop over the south steps: \<open>step\<close>, \<open>earlySouthMoves\<close>, \<open>goodSouthMoves\<close>, \<open>lastSouthMove\<close>, the
      step before, and the steps to come\<close>
  "south_loop expectedMagnitude driftPxPerFrame nRate northDelta step early good lastMove prev [] =
    (0, MEASUREMENT_TOO_FEW_SOUTH)"
| "south_loop expectedMagnitude driftPxPerFrame nRate northDelta step early good lastMove prev (x # xs) =
    (let southMove = x - prev; early = early + southMove
     in if southMove < 0 \<and> (\<bar>southMove\<bar> \<ge> expectedMagnitude \<or> \<bar>southMove + lastMove / 2\<bar> > expectedMagnitude)
        then if good + 1 = 2
             then let blPx = of_int step * expectedMagnitude - \<bar>early - of_int step * driftPxPerFrame\<bar>;
                      rslt = (if blPx * nRate < -200 then MEASUREMENT_SANITY
                              else if blPx \<ge> 0.7 * northDelta then MEASUREMENT_TOO_FEW_NORTH else MEASUREMENT_VALID)
                  in (if blPx < 0 then 0 else blPx, rslt)
             else south_loop expectedMagnitude driftPxPerFrame nRate northDelta (step + 1) early (good + 1) southMove x xs
        else south_loop expectedMagnitude driftPxPerFrame nRate northDelta (step + 1) early
               (if good > 0 then good - 1 else good) southMove x xs)"

definition ComputeBacklashPx :: "blt_env \<Rightarrow> backlash_tool \<Rightarrow> (real \<times> int \<times> real \<times> measurement_result) option" where
  \<comment> \<open>\<open>bltPx\<close>, \<open>bltMs\<close>, \<open>northRate\<close> and the result; \<^term>\<open>None\<close> when the pulse width is zero\<close>
  "ComputeBacklashPx e t =
    (if length (bt_northBLSteps t) > 3
     then let driftAmtPx = bt_driftPerSec t * of_int (bt_msmtEndTime t - bt_msmtStartTime t) / 1000;
              stepCount = as_GetCount (bt_northStats t);
              northDelta = sumY (bt_northStats t)
          in case fdiv (northDelta - driftAmtPx) (of_int (int stepCount * bt_pulseWidth t)) of None \<Rightarrow> None
             | Some q \<Rightarrow>
               let nRate = \<bar>q\<bar>;
                   driftPxPerFrame = driftAmtPx / real stepCount;
                   expectedMagnitude = \<bar>0.9 * as_GetMedian (bt_northStats t)\<bar>;
                   (blPx, rslt) = (case bt_southBLSteps t of [] \<Rightarrow> (0, MEASUREMENT_TOO_FEW_SOUTH)
                     | s # ss \<Rightarrow> south_loop expectedMagnitude driftPxPerFrame nRate northDelta 1 0 0 0 s ss)
               in Some (blPx, int_of e (fdiv blPx nRate), nRate, rslt)
     else Some (0, int_of e (fdiv 0 0), 0, MEASUREMENT_TOO_FEW_NORTH))"

definition GetBacklashSigma :: "backlash_tool \<Rightarrow> (real \<times> real) option" where
  \<comment> \<open>\<open>SigmaPx\<close> and \<open>SigmaMs\<close>; \<^term>\<open>None\<close> when one of them is not a number or infinite\<close>
  "GetBacklashSigma t =
    (if (bt_Rslt t = MEASUREMENT_VALID \<or> bt_Rslt t = MEASUREMENT_TOO_FEW_NORTH) \<and> as_GetCount (bt_northStats t) > 1
     then let variance = as_GetVariance (bt_northStats t); n = real (as_GetCount (bt_northStats t))
          in case fsqrt (variance / n + 2 * variance / (n - 1)) of None \<Rightarrow> None
             | Some px \<Rightarrow> map_option (Pair px) (fdiv px (bt_northRate t))
     else Some (0, 0))"

subsection \<open>The measurement\<close>

text \<open>How a case of the switch leaves: \<open>break\<close>, into the next case, an exception, or an integer division by zero.\<close>

datatype blt_exit = BltBreak | BltFall | BltThrow | BltUndef

definition blt_move :: "guide_direction \<Rightarrow> int \<Rightarrow> backlash_tool \<Rightarrow> backlash_tool" where
  \<comment> \<open>\<open>ScheduleAxisMove\<close> with \<open>MOVEOPTS_CALIBRATION_MOVE\<close>\<close>
  "blt_move dir ms t = t\<lparr>bt_trace := bt_trace t @ [BltMove dir ms]\<rparr>"

definition blt_out_of_room :: "blt_env \<Rightarrow> sodium_point \<Rightarrow> bool" where
  "blt_out_of_room e cam \<longleftrightarrow> OutOfRoom e (X cam) (Y cam) (be_maxMove e)"

definition blt_initialize :: "blt_env \<Rightarrow> sodium_point \<Rightarrow> backlash_tool \<Rightarrow> scope \<Rightarrow> backlash_tool \<times> scope" where
  "blt_initialize e loc t s =
    (let t = t\<lparr>bt_stepCount := 0, bt_markerPoint := loc, bt_startingPoint := loc\<rparr>;
         t = (if bt_lastDecGuideRate t \<le> 0 then t\<lparr>bt_lastDecGuideRate := GetLastDecGuideRate e\<rparr> else t)
     in if bt_lastDecGuideRate t > 0
        then (t\<lparr>bt_pulseWidth := trunc (BACKLASH_EXPECTED_DISTANCE * 1.25 / bt_lastDecGuideRate t), bt_acceptedMoves := 0,
                bt_lastClearRslt := 0, bt_cumClearingDistance := 0, bt_backlashExemption := False,
                bt_Rslt := MEASUREMENT_VALID, bt_state := BLT_STATE_CLEAR_NORTH,
                bt_trace := bt_trace t @ [BltMeasurementMode True]\<rparr>,
              scope_SetGuidingEnabled (be_now e div 1000) True s)
        else (t\<lparr>bt_state := BLT_STATE_ABORTED, bt_lastStatus := Status_NoDecRate\<rparr>, s))"

definition accept_clearing :: "real \<Rightarrow> backlash_tool \<Rightarrow> backlash_tool" where
  "accept_clearing decDelta t =
    (if \<bar>decDelta\<bar> \<ge> BACKLASH_EXPECTED_DISTANCE
     then if bt_acceptedMoves t = 0 \<or> bt_lastClearRslt t * decDelta > 0
          then t\<lparr>bt_acceptedMoves := bt_acceptedMoves t + 1\<rparr> else t\<lparr>bt_acceptedMoves := 0\<rparr>
     else t)"

definition start_north :: "blt_env \<Rightarrow> scope \<Rightarrow> backlash_tool \<Rightarrow> backlash_tool option" where
  \<comment> \<open>\<^term>\<open>None\<close>: the pulse width is zero and a divisor\<close>
  "start_north e s t =
    (let totalBacklashCleared = bt_stepCount t * bt_pulseWidth t;
         pw = max NORTH_PULSE_SIZE (m_calibrationDuration s);
         pw = min pw \<lfloor>0.7 * of_int (be_maxMove e) / bt_lastDecGuideRate t\<rfloor>
     in if pw = 0 then None
        else Some (t\<lparr>bt_state := BLT_STATE_STEP_NORTH, bt_pulseWidth := pw, bt_stepCount := 0,
               bt_northPulseCount := trunc (max (of_int ((MAX_NORTH_PULSES + pw - 1) sdiv pw))
                  (of_int totalBacklashCleared * 1.5 / of_int pw)),
               bt_msmtStartTime := be_now e\<rparr>))"

definition clear_north :: "blt_env \<Rightarrow> scope \<Rightarrow> sodium_point \<Rightarrow> sodium_point \<Rightarrow> real \<Rightarrow> backlash_tool \<Rightarrow> blt_exit \<times> backlash_tool" where
  "clear_north e s cam loc decDelta t =
    (if bt_stepCount t = 0
     then (BltBreak, (blt_move NORTH (bt_pulseWidth t) t)\<lparr>bt_stepCount := 1, bt_lastStatus := Status_ClearingNorth 1\<rparr>)
     else
       let t = accept_clearing decDelta t;
           enough = (bt_acceptedMoves t \<ge> BACKLASH_MIN_COUNT)
       in if \<not> enough \<and> bt_stepCount t \<ge> MAX_CLEARING_STEPS
          then (BltThrow, t\<lparr>bt_lastStatus := Status_NotCleared, bt_Rslt := MEASUREMENT_BL_NOT_CLEARED\<rparr>)
          else let exempt = (\<not> enough \<and> \<bar>bt_cumClearingDistance t\<bar> > BACKLASH_EXEMPTION_DISTANCE);
                   t = (if exempt then t\<lparr>bt_backlashExemption := True\<rparr> else t)
               in if \<not> enough \<and> \<not> exempt \<and> \<not> blt_out_of_room e cam
                  then let n = bt_stepCount t + 1
                       in (BltBreak, (blt_move NORTH (bt_pulseWidth t) t)\<lparr>bt_stepCount := n, bt_markerPoint := loc,
                             bt_lastClearRslt := decDelta, bt_lastStatus := Status_ClearingNorth n\<rparr>)
                  else if enough \<or> bt_backlashExemption t \<or> blt_out_of_room e cam
                  then (case start_north e s t of None \<Rightarrow> (BltUndef, t) | Some t \<Rightarrow> (BltFall, t))
                  else (BltFall, t))"

definition add_north_delta :: "sodium_point \<Rightarrow> backlash_tool \<Rightarrow> backlash_tool option" where
  \<comment> \<open>\<^term>\<open>None\<close>: \<open>back()\<close> of an empty vector\<close>
  "add_north_delta loc t =
    (case bt_northBLSteps t of [] \<Rightarrow> None
     | _ \<Rightarrow> Some (t\<lparr>bt_northStats := as_AddGuideInfo (bt_northStats t) (of_int (bt_stepCount t))
                                      (Y loc - last (bt_northBLSteps t)) 0\<rparr>))"

definition step_north :: "blt_env \<Rightarrow> sodium_point \<Rightarrow> sodium_point \<Rightarrow> backlash_tool \<Rightarrow> blt_exit \<times> backlash_tool" where
  "step_north e cam loc t =
    (if bt_stepCount t < bt_northPulseCount t \<and> \<not> blt_out_of_room e cam
     then let t = t\<lparr>bt_lastStatus := Status_MovingNorth (bt_pulseWidth t) (bt_stepCount t + 1) (bt_northPulseCount t)\<rparr>
          in case (if bt_stepCount t \<ge> 1 then add_north_delta loc t else Some (t\<lparr>bt_markerPoint := loc\<rparr>)) of
               None \<Rightarrow> (BltUndef, t)
             | Some t \<Rightarrow>
                 (BltBreak, (blt_move NORTH (bt_pulseWidth t) (t\<lparr>bt_northBLSteps := bt_northBLSteps t @ [Y loc]\<rparr>))
                    \<lparr>bt_stepCount := bt_stepCount t + 1\<rparr>)
     else let t = t\<lparr>bt_msmtEndTime := be_now e\<rparr>
          in case (if bt_stepCount t \<ge> 1 then add_north_delta loc t else Some t) of
               None \<Rightarrow> (BltUndef, t)
             | Some t \<Rightarrow>
                 let t = t\<lparr>bt_northBLSteps := bt_northBLSteps t @ [Y loc]\<rparr>
                 in if bt_stepCount t < bt_northPulseCount t \<and> of_int (bt_stepCount t) < 0.5 * (of_int (bt_northPulseCount t) :: real)
                    then (BltThrow, t\<lparr>bt_lastStatus := Status_TooCloseToEdge, bt_Rslt := MEASUREMENT_TOO_FEW_NORTH\<rparr>)
                    else (BltFall, t\<lparr>bt_northPulseCount := bt_stepCount t, bt_stepCount := 0,
                                     bt_state := BLT_STATE_STEP_SOUTH\<rparr>))"

definition step_south :: "sodium_point \<Rightarrow> backlash_tool \<Rightarrow> blt_exit \<times> backlash_tool" where
  "step_south loc t =
    (if bt_stepCount t < bt_northPulseCount t
     then let n = bt_stepCount t + 1
          in (BltBreak, (blt_move SOUTH (bt_pulseWidth t) t)
                \<lparr>bt_lastStatus := Status_MovingSouth (bt_pulseWidth t) n (bt_northPulseCount t),
                 bt_southBLSteps := bt_southBLSteps t @ [Y loc], bt_stepCount := n\<rparr>)
     else (BltFall, t\<lparr>bt_southBLSteps := bt_southBLSteps t @ [Y loc], bt_endSouth := loc,
                      bt_state := BLT_STATE_TEST_CORRECTION, bt_stepCount := 0\<rparr>))"

definition issue_test :: "blt_env \<Rightarrow> backlash_tool \<Rightarrow> blt_exit \<times> backlash_tool" where
  "issue_test e t =
    (if bt_backlashResultMs t > 0
     then if bt_backlashResultPx t < of_int (be_maxMove e)
          then (BltBreak, (blt_move SOUTH (bt_backlashResultMs t) t)
                  \<lparr>bt_lastStatus := Status_TestCorrection (bt_backlashResultMs t), bt_stepCount := bt_stepCount t + 1\<rparr>)
          else let maxFrameMove = int_of e (map_option (\<lambda>x. of_int \<lfloor>x\<rfloor>) (fdiv (0.8 * of_int (be_maxMove e)) (bt_northRate t)))
               in (BltBreak, (blt_move SOUTH maxFrameMove t)\<lparr>bt_stepCount := 0, bt_state := BLT_STATE_RESTORE\<rparr>)
     else (BltFall, t\<lparr>bt_state := BLT_STATE_RESTORE, bt_stepCount := 0\<rparr>))"

definition test_correction :: "blt_env \<Rightarrow> backlash_tool \<Rightarrow> blt_exit \<times> backlash_tool" where
  \<comment> \<open>after the test pulse the star's position is only logged\<close>
  "test_correction e t =
    (if bt_stepCount t = 0
     then case ComputeBacklashPx e t of None \<Rightarrow> (BltUndef, t)
          | Some (px, ms, rate, rslt) \<Rightarrow>
              let t = t\<lparr>bt_backlashResultPx := px, bt_backlashResultMs := ms, bt_northRate := rate, bt_Rslt := rslt\<rparr>
              in if rslt = MEASUREMENT_SANITY then (BltThrow, t\<lparr>bt_lastStatus := Status_Erratic\<rparr>)
                 else if rslt = MEASUREMENT_TOO_FEW_SOUTH then (BltThrow, t\<lparr>bt_lastStatus := Status_NoSouthMoves\<rparr>)
                 else issue_test e t
     else (BltFall, t\<lparr>bt_state := BLT_STATE_RESTORE, bt_stepCount := 0\<rparr>))"

definition restore_count :: "blt_env \<Rightarrow> real \<Rightarrow> backlash_tool \<Rightarrow> int" where
  "restore_count e amt t =
    min (int_of e (case fdiv amt (bt_northRate t) of None \<Rightarrow> None
           | Some x \<Rightarrow> map_option (\<lambda>x. of_int \<lfloor>x\<rfloor>) (fdiv x (of_int (bt_pulseWidth t))))) 10"

definition restore_star :: "blt_env \<Rightarrow> sodium_point \<Rightarrow> backlash_tool \<Rightarrow> blt_exit \<times> backlash_tool" where
  "restore_star e loc t =
    (let t = (if bt_stepCount t = 0
              then let amt = \<bar>Y loc - Y (bt_startingPoint t)\<bar>
                   in if amt > of_int (be_maxMove e) then t\<lparr>bt_restoreCount := restore_count e amt t, bt_stepCount := 0\<rparr>
                      else t\<lparr>bt_state := BLT_STATE_WRAPUP\<rparr>
              else t)
     in if bt_stepCount t < bt_restoreCount t
        then (BltBreak, (blt_move SOUTH (bt_pulseWidth t) t)\<lparr>bt_stepCount := bt_stepCount t + 1, bt_lastStatus := Status_Restoring\<rparr>)
        else (BltFall, t\<lparr>bt_state := BLT_STATE_WRAPUP\<rparr>))"

definition CleanUp :: "backlash_tool \<Rightarrow> scope \<Rightarrow> backlash_tool \<times> scope" where
  \<comment> \<open>a scope always has its \<open>BacklashComp\<close>\<close>
  "CleanUp t s = (t\<lparr>bt_trace := bt_trace t @ [BltMeasurementMode False]\<rparr>,
                  s\<lparr>m_backlashComp := map_option ResetBLCState (m_backlashComp s)\<rparr>)"

definition blt_wrapup :: "backlash_tool \<Rightarrow> scope \<Rightarrow> backlash_tool \<times> scope" where
  "blt_wrapup t s = (case CleanUp (t\<lparr>bt_lastStatus := Status_Complete\<rparr>) s of (t, s) \<Rightarrow> (t\<lparr>bt_state := BLT_STATE_COMPLETED\<rparr>, s))"

text \<open>The cases that fall into one another, from a given case on.\<close>

definition blt_then :: "blt_exit \<times> backlash_tool \<Rightarrow> (backlash_tool \<Rightarrow> blt_exit \<times> backlash_tool) \<Rightarrow> blt_exit \<times> backlash_tool" where
  "blt_then r f = (case r of (BltFall, t) \<Rightarrow> f t | _ \<Rightarrow> r)"

definition blt_cases :: "blt_env \<Rightarrow> scope \<Rightarrow> sodium_point \<Rightarrow> sodium_point \<Rightarrow> real \<Rightarrow> backlash_tool \<Rightarrow> blt_exit \<times> backlash_tool" where
  \<comment> \<open>the switch from \<open>CLEAR_NORTH\<close> to \<open>RESTORE\<close>; falling out of it is reaching \<open>WRAPUP\<close>\<close>
  "blt_cases e s cam loc decDelta t =
    (let restore = restore_star e loc;
         test = (\<lambda>t. blt_then (test_correction e t) restore);
         south = (\<lambda>t. blt_then (step_south loc t) test);
         north = (\<lambda>t. blt_then (step_north e cam loc t) south);
         clear = (\<lambda>t. blt_then (clear_north e s cam loc decDelta t) north)
     in case bt_state t of
          BLT_STATE_CLEAR_NORTH \<Rightarrow> clear t
        | BLT_STATE_STEP_NORTH \<Rightarrow> north t
        | BLT_STATE_STEP_SOUTH \<Rightarrow> south t
        | BLT_STATE_TEST_CORRECTION \<Rightarrow> test t
        | BLT_STATE_RESTORE \<Rightarrow> restore t
        | _ \<Rightarrow> (BltFall, t))"

definition blt_abort :: "backlash_tool \<Rightarrow> scope \<Rightarrow> backlash_tool \<times> scope" where
  "blt_abort t s = CleanUp (t\<lparr>bt_state := BLT_STATE_ABORTED\<rparr>) s"

definition blt_switch :: "blt_env \<Rightarrow> sodium_point \<Rightarrow> sodium_point \<Rightarrow> real \<Rightarrow> backlash_tool \<Rightarrow> scope \<Rightarrow> (backlash_tool \<times> scope) option" where
  "blt_switch e cam loc decDelta t s =
    (case bt_state t of
       BLT_STATE_INITIALIZE \<Rightarrow> Some (blt_initialize e loc t s)
     | BLT_STATE_COMPLETED \<Rightarrow> Some (t, s)
     | BLT_STATE_ABORTED \<Rightarrow> Some (CleanUp (t\<lparr>bt_lastStatus := Status_Halted\<rparr>) s)
     | _ \<Rightarrow> (case blt_cases e s cam loc decDelta t of
               (BltBreak, t) \<Rightarrow> Some (t, s)
             | (BltFall, t) \<Rightarrow> Some (blt_wrapup t s)
             | (BltThrow, t) \<Rightarrow> Some (blt_abort t s)
             | (BltUndef, t) \<Rightarrow> None))"

definition DecMeasurementStep :: "blt_env \<Rightarrow> sodium_point \<Rightarrow> backlash_tool \<Rightarrow> scope \<Rightarrow> (backlash_tool \<times> scope) option" where
  "DecMeasurementStep e cam t s =
    (case TransformCameraCoordinatesToMountCoordinates s cam (SodiumPoint 0 0) of (err, loc) \<Rightarrow>
       if err then Some (blt_abort t s)
       else if bt_state t \<noteq> BLT_STATE_INITIALIZE
            then let decDelta = Y loc - Y (bt_markerPoint t)
                 in blt_switch e cam loc decDelta (t\<lparr>bt_cumClearingDistance := bt_cumClearingDistance t + decDelta\<rparr>) s
            else blt_switch e cam loc 0 t s)"

definition StartMeasurement :: "blt_env \<Rightarrow> real \<Rightarrow> sodium_point \<Rightarrow> backlash_tool \<Rightarrow> scope \<Rightarrow> (backlash_tool \<times> scope) option" where
  "StartMeasurement e DriftPerMin pos t s =
    DecMeasurementStep e pos (t\<lparr>bt_state := BLT_STATE_INITIALIZE, bt_driftPerSec := DriftPerMin / 60, bt_northBLSteps := [],
      bt_southBLSteps := [], bt_northStats := as_ClearAll (bt_northStats t)\<rparr>) s"

definition StopMeasurement :: "blt_env \<Rightarrow> sodium_point \<Rightarrow> backlash_tool \<Rightarrow> scope \<Rightarrow> (backlash_tool \<times> scope) option" where
  "StopMeasurement e pos t s = DecMeasurementStep e pos (t\<lparr>bt_state := BLT_STATE_ABORTED\<rparr>) s"

subsection \<open>Every measurement ends\<close>

definition blt_ended :: "backlash_tool \<Rightarrow> bool" where
  "blt_ended t \<longleftrightarrow> bt_state t = BLT_STATE_COMPLETED \<or> bt_state t = BLT_STATE_ABORTED"

text \<open>The guider calls the step once per frame until the measurement has ended.\<close>

fun blt_run :: "(blt_env \<times> sodium_point) list \<Rightarrow> backlash_tool \<Rightarrow> scope \<Rightarrow> (backlash_tool \<times> scope) option" where
  "blt_run [] t s = Some (t, s)"
| "blt_run ((e, p) # fs) t s =
    (if blt_ended t then Some (t, s)
     else case DecMeasurementStep e p t s of None \<Rightarrow> None | Some (t, s) \<Rightarrow> blt_run fs t s)"

fun blt_moves :: "blt_event list \<Rightarrow> (guide_direction \<times> int) list" where
  "blt_moves [] = []"
| "blt_moves (BltMove d n # es) = (d, n) # blt_moves es"
| "blt_moves (BltMeasurementMode b # es) = blt_moves es"

fun mode_after :: "bool \<Rightarrow> blt_event list \<Rightarrow> bool" where
  \<comment> \<open>whether the guider is in measurement mode after these events\<close>
  "mode_after m [] = m"
| "mode_after m (BltMove d n # es) = mode_after m es"
| "mode_after m (BltMeasurementMode c # es) = mode_after c es"

lemma blt_moves_append [simp]: "blt_moves (xs @ ys) = blt_moves xs @ blt_moves ys"
  by (induction xs rule: blt_moves.induct) simp_all

lemma mode_after_append [simp]: "mode_after m (xs @ ys) = mode_after (mode_after m xs) ys"
  by (induction m xs rule: mode_after.induct) simp_all

definition moved :: "(guide_direction \<times> int) list \<Rightarrow> nat \<Rightarrow> nat \<Rightarrow> (guide_direction \<times> int) list \<Rightarrow> backlash_tool \<Rightarrow> bool" where
  \<comment> \<open>after the moves \<open>b\<close>: up to 100 clearing pulses, \<open>n\<close> north and \<open>m\<close> south pulses of the measurement, and \<open>rest\<close>\<close>
  "moved b n m rest t \<longleftrightarrow> (\<exists>c w. c \<le> 100 \<and> blt_moves (bt_trace t) =
     b @ replicate c (NORTH, w) @ replicate n (NORTH, bt_pulseWidth t) @ replicate m (SOUTH, bt_pulseWidth t) @ rest)"

definition blt_ok :: "int \<Rightarrow> real \<Rightarrow> (guide_direction \<times> int) list \<Rightarrow> backlash_tool \<Rightarrow> bool" where
  "blt_ok K r b t \<longleftrightarrow> (bt_state t \<noteq> BLT_STATE_ABORTED \<longrightarrow> bt_lastDecGuideRate t = r) \<and>
    (case bt_state t of
       BLT_STATE_CLEAR_NORTH \<Rightarrow> 0 \<le> bt_stepCount t \<and> bt_stepCount t \<le> 100 \<and> 0 \<le> bt_pulseWidth t \<and> 150 * bt_pulseWidth t \<le> K \<and>
         bt_northBLSteps t = [] \<and> bt_southBLSteps t = [] \<and> as_GetCount (bt_northStats t) = 0 \<and>
         blt_moves (bt_trace t) = b @ replicate (nat (bt_stepCount t)) (NORTH, bt_pulseWidth t)
     | BLT_STATE_STEP_NORTH \<Rightarrow> 0 \<le> bt_stepCount t \<and> bt_stepCount t \<le> bt_northPulseCount t \<and> bt_northPulseCount t \<le> K \<and>
         0 < bt_pulseWidth t \<and> length (bt_northBLSteps t) = nat (bt_stepCount t) \<and> bt_southBLSteps t = [] \<and>
         as_GetCount (bt_northStats t) = nat (bt_stepCount t) - 1 \<and> moved b (nat (bt_stepCount t)) 0 [] t
     | BLT_STATE_STEP_SOUTH \<Rightarrow> 0 \<le> bt_stepCount t \<and> bt_stepCount t \<le> bt_northPulseCount t \<and> bt_northPulseCount t \<le> K \<and>
         0 < bt_pulseWidth t \<and> length (bt_northBLSteps t) = nat (bt_northPulseCount t) + 1 \<and>
         length (bt_southBLSteps t) = nat (bt_stepCount t) \<and>
         as_GetCount (bt_northStats t) = nat (bt_northPulseCount t) \<and>
         moved b (nat (bt_northPulseCount t)) (nat (bt_stepCount t)) [] t
     | BLT_STATE_TEST_CORRECTION \<Rightarrow> 0 < bt_pulseWidth t \<and> 0 \<le> bt_stepCount t \<and> bt_stepCount t \<le> 1 \<and>
         as_GetCount (bt_northStats t) + 1 = length (bt_northBLSteps t) \<and>
         length (bt_southBLSteps t) = length (bt_northBLSteps t) \<and>
         (\<exists>rest. moved b (length (bt_northBLSteps t) - 1) (length (bt_northBLSteps t) - 1) rest t \<and>
            list_all (\<lambda>m. fst m = SOUTH) rest \<and> int (length rest) \<le> bt_stepCount t)
     | BLT_STATE_RESTORE \<Rightarrow> 0 < bt_pulseWidth t \<and> 0 \<le> bt_stepCount t \<and> bt_stepCount t \<le> 10 \<and>
         (0 < bt_stepCount t \<longrightarrow> bt_restoreCount t \<le> 10) \<and>
         length (bt_southBLSteps t) = length (bt_northBLSteps t) \<and> bt_northBLSteps t \<noteq> [] \<and>
         (\<exists>rest. moved b (length (bt_northBLSteps t) - 1) (length (bt_northBLSteps t) - 1) rest t \<and>
            list_all (\<lambda>m. fst m = SOUTH) rest \<and> int (length rest) \<le> 1 + bt_stepCount t)
     | BLT_STATE_INITIALIZE \<Rightarrow> False
     | BLT_STATE_ABORTED \<Rightarrow> True
     | _ \<Rightarrow> 0 < bt_pulseWidth t \<and> length (bt_southBLSteps t) = length (bt_northBLSteps t) \<and> bt_northBLSteps t \<noteq> [] \<and>
         (\<exists>rest. moved b (length (bt_northBLSteps t) - 1) (length (bt_northBLSteps t) - 1) rest t \<and>
            list_all (\<lambda>m. fst m = SOUTH) rest \<and> length rest \<le> 11))"

definition blt_level :: "int \<Rightarrow> backlash_tool \<Rightarrow> int" where
  "blt_level K t = (case bt_state t of
       BLT_STATE_CLEAR_NORTH \<Rightarrow> 2 * K + 118 - bt_stepCount t
     | BLT_STATE_STEP_NORTH \<Rightarrow> K + 17 + bt_northPulseCount t - bt_stepCount t
     | BLT_STATE_STEP_SOUTH \<Rightarrow> 16 + bt_northPulseCount t - bt_stepCount t
     | BLT_STATE_TEST_CORRECTION \<Rightarrow> 15 - bt_stepCount t
     | BLT_STATE_RESTORE \<Rightarrow> 12 - bt_stepCount t
     | BLT_STATE_WRAPUP \<Rightarrow> 1
     | _ \<Rightarrow> 0)"

text \<open>What is left by a case of the switch that is entered at level \<open>L\<close> and falls into the state \<open>next\<close>.\<close>

definition case_ok :: "int \<Rightarrow> real \<Rightarrow> (guide_direction \<times> int) list \<Rightarrow> blt_state \<Rightarrow> int \<Rightarrow> blt_exit \<times> backlash_tool \<Rightarrow> bool" where
  "case_ok K r b next L res \<longleftrightarrow> (case res of
       (BltBreak, t) \<Rightarrow> blt_ok K r b t \<and> blt_level K t < L \<and> \<not> blt_ended t
     | (BltFall, t) \<Rightarrow> blt_ok K r b t \<and> blt_level K t \<le> L \<and> bt_state t = next
     | (BltThrow, t) \<Rightarrow> True
     | (BltUndef, t) \<Rightarrow> False)"

lemma blt_then_ok:
  assumes "case_ok K r b nx L res"
    and "\<And>t. blt_ok K r b t \<Longrightarrow> blt_level K t \<le> L \<Longrightarrow> bt_state t = nx \<Longrightarrow> case_ok K r b nx' (blt_level K t) (f t)"
  shows "case_ok K r b nx' L (blt_then res f)"
proof -
  obtain ex t where res: "res = (ex, t)" by fastforce
  show ?thesis
  proof (cases ex)
    case BltFall
    then have t: "blt_ok K r b t" "blt_level K t \<le> L" "bt_state t = nx" using assms(1) by (simp_all add: case_ok_def res)
    obtain ex' t' where "f t = (ex', t')" by fastforce
    then show ?thesis using assms(2) [OF t] t(2) BltFall by (cases ex') (auto simp: case_ok_def res blt_then_def)
  qed (use assms(1) in \<open>simp_all add: case_ok_def res blt_then_def\<close>)
qed

lemma moved_add:
  "moved b n m rest t \<Longrightarrow> moved b n m (rest @ [(d, k)]) (blt_move d k t)"
  "moved b n 0 [] t \<Longrightarrow> moved b (Suc n) 0 [] (blt_move NORTH (bt_pulseWidth t) t)"
  "moved b n m [] t \<Longrightarrow> moved b n (Suc m) [] (blt_move SOUTH (bt_pulseWidth t) t)"
  by (auto simp: moved_def blt_move_def replicate_append_same)

lemma moved_cong:
  "bt_pulseWidth t' = bt_pulseWidth t \<Longrightarrow> bt_trace t' = bt_trace t \<Longrightarrow> moved b n m rest t' = moved b n m rest t"
  by (simp add: moved_def)

lemma accept_clearing_frame [simp]:
  "bt_stepCount (accept_clearing d t) = bt_stepCount t" "bt_pulseWidth (accept_clearing d t) = bt_pulseWidth t"
  "bt_trace (accept_clearing d t) = bt_trace t" "bt_state (accept_clearing d t) = bt_state t"
  "bt_lastDecGuideRate (accept_clearing d t) = bt_lastDecGuideRate t"
  "bt_northBLSteps (accept_clearing d t) = bt_northBLSteps t" "bt_southBLSteps (accept_clearing d t) = bt_southBLSteps t"
  "bt_northStats (accept_clearing d t) = bt_northStats t"
  "bt_cumClearingDistance (accept_clearing d t) = bt_cumClearingDistance t"
  by (simp_all add: accept_clearing_def)

lemma north_count_bounds:
  assumes "0 < pw" "0 \<le> n" "n \<le> 100" "0 \<le> w" "150 * w \<le> K" "8000 \<le> K"
  shows "0 \<le> trunc (max (of_int ((MAX_NORTH_PULSES + pw - 1) sdiv pw)) (of_int (n * w) * 1.5 / of_int pw))"
    "trunc (max (of_int ((MAX_NORTH_PULSES + pw - 1) sdiv pw)) (of_int (n * w) * 1.5 / of_int pw)) \<le> K"
proof -
  let ?a = "(MAX_NORTH_PULSES + pw - 1) sdiv pw" and ?b = "of_int (n * w) * 1.5 / (of_int pw :: real)"
  have a: "?a = (7999 + pw) div pw" using assms(1) by (simp add: signed_divide_int_def MAX_NORTH_PULSES_def)
  have "(7999 + pw) div pw \<le> 8000"
  proof -
    have "(7999 + pw) div pw = 7999 div pw + 1" using assms(1) by simp
    moreover have "7999 div pw \<le> 7999" using zdiv_mono2 [of 7999 1 pw] assms(1) by simp
    ultimately show ?thesis by simp
  qed
  then have a1: "real_of_int ?a \<le> of_int K" "0 \<le> ?a" using assms(1,6) by (simp_all add: a pos_imp_zdiv_nonneg_iff)
  have nw: "n * w \<le> 100 * w" using assms(3,4) by (rule mult_right_mono)
  have "?b \<le> of_int (n * w) * 1.5 / 1"
    using assms(1,2,4) by (intro divide_left_mono) (simp_all add: mult_nonneg_nonneg)
  also have "\<dots> \<le> of_int K" using nw assms(5) by linarith
  finally have b: "?b \<le> of_int K" .
  have m: "0 \<le> max (of_int ?a) ?b" using a1(2) by (simp add: le_max_iff_disj)
  have le: "max (of_int ?a) ?b \<le> of_int K" using a1(1) b by (rule max.boundedI)
  show "0 \<le> trunc (max (of_int ?a) ?b)" using m by (simp add: trunc_def)
  show "trunc (max (of_int ?a) ?b) \<le> K" using m le by (simp add: trunc_def floor_le_iff less_le_trans [of _ "of_int K + 1"])
qed

lemma start_north_ok:
  assumes "blt_ok K r b t" "bt_state t = BLT_STATE_CLEAR_NORTH" "8000 \<le> K" "0 < r" "r \<le> 0.7 * of_int (be_maxMove e)"
  obtains t' where "start_north e s t = Some t'" "blt_ok K r b t'" "blt_level K t' \<le> 2 * K + 17" "bt_state t' = BLT_STATE_STEP_NORTH"
proof -
  define pw where "pw = min (max NORTH_PULSE_SIZE (m_calibrationDuration s)) \<lfloor>0.7 * of_int (be_maxMove e) / r\<rfloor>"
  have "1 \<le> \<lfloor>0.7 * of_int (be_maxMove e) / r\<rfloor>" using assms(4,5) by (simp add: le_floor_iff)
  then have pw: "0 < pw" by (auto simp: pw_def NORTH_PULSE_SIZE_def)
  have ok: "bt_lastDecGuideRate t = r" "0 \<le> bt_stepCount t" "bt_stepCount t \<le> 100" "0 \<le> bt_pulseWidth t" "150 * bt_pulseWidth t \<le> K"
    "bt_northBLSteps t = []" "bt_southBLSteps t = []" "as_GetCount (bt_northStats t) = 0"
    "blt_moves (bt_trace t) = b @ replicate (nat (bt_stepCount t)) (NORTH, bt_pulseWidth t)"
    using assms(1,2) by (simp_all add: blt_ok_def)
  note n = north_count_bounds [OF pw ok(2,3,4,5) assms(3)]
  have m: "\<exists>c w. c \<le> 100 \<and> blt_moves (bt_trace t) = b @ replicate c (NORTH, w)"
    using ok(3,9) by (intro exI [of _ "nat (bt_stepCount t)"] exI [of _ "bt_pulseWidth t"]) simp
  show ?thesis
  proof (rule that)
    show "start_north e s t = Some (t\<lparr>bt_state := BLT_STATE_STEP_NORTH, bt_pulseWidth := pw, bt_stepCount := 0,
               bt_northPulseCount := trunc (max (of_int ((MAX_NORTH_PULSES + pw - 1) sdiv pw))
                  (of_int (bt_stepCount t * bt_pulseWidth t) * 1.5 / of_int pw)), bt_msmtStartTime := be_now e\<rparr>)"
      using pw unfolding start_north_def Let_def ok(1) pw_def [symmetric] by simp
  qed (use n pw ok(1,6-8) m in \<open>simp_all add: blt_ok_def moved_def blt_level_def blt_ended_def\<close>)
qed

lemma clear_north_ok:
  assumes "blt_ok K r b t" "bt_state t = BLT_STATE_CLEAR_NORTH" "8000 \<le> K" "0 < r" "r \<le> 0.7 * of_int (be_maxMove e)"
  shows "case_ok K r b BLT_STATE_STEP_NORTH (blt_level K t) (clear_north e s cam loc d t)"
proof (cases "bt_stepCount t = 0")
  case True
  then show ?thesis using assms(1,2)
    by (simp add: clear_north_def case_ok_def blt_ok_def blt_level_def blt_ended_def blt_move_def)
next
  case False
  define t1 where "t1 = accept_clearing d t"
  have t1: "blt_ok K r b t1" "bt_state t1 = BLT_STATE_CLEAR_NORTH" "bt_stepCount t1 = bt_stepCount t"
    using assms(1,2) by (simp_all add: t1_def blt_ok_def)
  have upd: "blt_ok K r b (t1\<lparr>bt_backlashExemption := x\<rparr>)" "bt_state (t1\<lparr>bt_backlashExemption := x\<rparr>) = BLT_STATE_CLEAR_NORTH" for x
    using t1(1,2) by (simp_all add: blt_ok_def)
  have L: "2 * K + 17 \<le> blt_level K t" using assms(1,2) by (simp add: blt_ok_def blt_level_def blt_ended_def)
  have start: "case_ok K r b BLT_STATE_STEP_NORTH (blt_level K t)
      (case start_north e s t2 of None \<Rightarrow> (BltUndef, t2) | Some t \<Rightarrow> (BltFall, t))"
    if "blt_ok K r b t2" "bt_state t2 = BLT_STATE_CLEAR_NORTH" for t2
  proof -
    note t2 = that
    obtain t' where "start_north e s t2 = Some t'" "blt_ok K r b t'" "blt_level K t' \<le> 2 * K + 17" "bt_state t' = BLT_STATE_STEP_NORTH"
      using start_north_ok [OF t2 assms(3-5)] .
    then show ?thesis using L by (simp add: case_ok_def)
  qed
  have go: "blt_ok K r b t' \<and> blt_level K t' < blt_level K t \<and> \<not> blt_ended t'"
    if "t' = (blt_move NORTH (bt_pulseWidth t1) t1)\<lparr>bt_stepCount := bt_stepCount t1 + 1, bt_markerPoint := loc,
             bt_lastClearRslt := d, bt_lastStatus := st\<rparr>" "bt_stepCount t1 < MAX_CLEARING_STEPS" for t' st
    using t1 that assms(2) by (auto simp: blt_ok_def blt_level_def blt_ended_def blt_move_def blt_consts nat_add_distrib replicate_append_same)
  show ?thesis
    using False upd start [OF t1(1,2)] start [OF upd, of True] go
    by (auto simp: clear_north_def Let_def t1_def [symmetric] case_ok_def not_le)
qed

lemma count_AddGuideInfo [simp]: "as_GetCount (as_AddGuideInfo st d p g) = Suc (as_GetCount st)"
  by (simp add: as_GetCount_def as_AddGuideInfo_def Let_def split: prod.split)

lemma add_north_delta_Some:
  assumes "bt_northBLSteps t \<noteq> []"
  shows "add_north_delta loc t = Some (t\<lparr>bt_northStats := as_AddGuideInfo (bt_northStats t) (of_int (bt_stepCount t))
    (Y loc - last (bt_northBLSteps t)) 0\<rparr>)"
  using assms by (auto simp: add_north_delta_def split: list.split)

lemma step_north_ok:
  assumes "blt_ok K r b t" "bt_state t = BLT_STATE_STEP_NORTH" "0 \<le> K"
  shows "case_ok K r b BLT_STATE_STEP_SOUTH (blt_level K t) (step_north e cam loc t)"
proof -
  have ok: "bt_lastDecGuideRate t = r" "0 \<le> bt_stepCount t" "bt_stepCount t \<le> bt_northPulseCount t" "bt_northPulseCount t \<le> K"
    "0 < bt_pulseWidth t" "length (bt_northBLSteps t) = nat (bt_stepCount t)" "bt_southBLSteps t = []"
    "as_GetCount (bt_northStats t) = nat (bt_stepCount t) - 1" "moved b (nat (bt_stepCount t)) 0 [] t"
    using assms(1,2) by (simp_all add: blt_ok_def)
  have ne: "bt_northBLSteps t \<noteq> []" if "1 \<le> bt_stepCount t" using ok(6) that by auto
  show ?thesis
  proof (cases "bt_stepCount t < bt_northPulseCount t \<and> \<not> blt_out_of_room e cam")
    case True
    have go: "blt_ok K r b t' \<and> blt_level K t' < blt_level K t \<and> \<not> blt_ended t'"
      if "t' = (blt_move NORTH (bt_pulseWidth t) (t1\<lparr>bt_northBLSteps := bt_northBLSteps t @ [Y loc]\<rparr>))\<lparr>bt_stepCount := bt_stepCount t + 1\<rparr>"
        and "t1 = t\<lparr>bt_lastStatus := st, bt_northStats := sts\<rparr> \<and> as_GetCount sts = nat (bt_stepCount t) \<or>
          t1 = t\<lparr>bt_lastStatus := st, bt_markerPoint := loc\<rparr> \<and> bt_stepCount t = 0" for t' t1 st sts
      using ok(1-8) moved_add(2) [OF ok(9)] True assms(2) that
      by (auto simp: blt_ok_def blt_level_def blt_ended_def moved_def blt_move_def nat_add_distrib)
    show ?thesis
    proof (cases "1 \<le> bt_stepCount t")
      case a: True
      show ?thesis using go [OF refl disjI1 [OF conjI [OF refl]]] a ne [OF a] True ok(8)
        by (simp add: step_north_def case_ok_def add_north_delta_Some)
    next
      case a: False
      show ?thesis using go [OF refl disjI2 [OF conjI [OF refl]]] a True ok(2) by (simp add: step_north_def case_ok_def)
    qed
  next
    case False
    have go: "blt_ok K r b t' \<and> blt_level K t' \<le> blt_level K t \<and> bt_state t' = BLT_STATE_STEP_SOUTH"
      if "t' = t1\<lparr>bt_northBLSteps := bt_northBLSteps t @ [Y loc], bt_northPulseCount := bt_stepCount t, bt_stepCount := 0,
               bt_state := BLT_STATE_STEP_SOUTH\<rparr>"
        and "t1 = t\<lparr>bt_msmtEndTime := n, bt_northStats := sts\<rparr> \<and> as_GetCount sts = nat (bt_stepCount t) \<or>
          t1 = t\<lparr>bt_msmtEndTime := n\<rparr> \<and> bt_stepCount t = 0" for t' t1 n sts
      using ok assms(2,3) that by (auto simp: blt_ok_def blt_level_def blt_ended_def moved_def)
    show ?thesis
    proof (cases "1 \<le> bt_stepCount t")
      case a: True
      show ?thesis using go [OF refl disjI1 [OF conjI [OF refl]]] a ne [OF a] ok(8)
        unfolding step_north_def if_not_P [OF False] by (simp add: case_ok_def add_north_delta_Some Let_def)
    next
      case a: False
      show ?thesis using go [OF refl disjI2 [OF conjI [OF refl]]] a ok(2)
        unfolding step_north_def if_not_P [OF False] by (simp add: case_ok_def Let_def)
    qed
  qed
qed

lemma step_south_ok:
  assumes "blt_ok K r b t" "bt_state t = BLT_STATE_STEP_SOUTH"
  shows "case_ok K r b BLT_STATE_TEST_CORRECTION (blt_level K t) (step_south loc t)"
proof -
  have ok: "bt_lastDecGuideRate t = r" "0 \<le> bt_stepCount t" "bt_stepCount t \<le> bt_northPulseCount t" "bt_northPulseCount t \<le> K"
    "0 < bt_pulseWidth t" "length (bt_northBLSteps t) = nat (bt_northPulseCount t) + 1"
    "length (bt_southBLSteps t) = nat (bt_stepCount t)"
    "as_GetCount (bt_northStats t) = nat (bt_northPulseCount t)"
    "moved b (nat (bt_northPulseCount t)) (nat (bt_stepCount t)) [] t"
    using assms by (simp_all add: blt_ok_def)
  show ?thesis
  proof (cases "bt_stepCount t < bt_northPulseCount t")
    case True
    then show ?thesis using ok(1-8) moved_add(3) [OF ok(9)] assms(2)
      by (auto simp: step_south_def case_ok_def blt_ok_def blt_level_def blt_ended_def moved_def blt_move_def nat_add_distrib Let_def)
  next
    case False
    then have "bt_stepCount t = bt_northPulseCount t" using ok(3) by simp
    then show ?thesis using ok assms(2)
      by (auto simp: step_south_def case_ok_def blt_ok_def blt_level_def blt_ended_def moved_def intro!: exI [of _ "[]"])
  qed
qed

lemma Compute_defined:
  assumes "0 < bt_pulseWidth t" "as_GetCount (bt_northStats t) + 1 = length (bt_northBLSteps t)"
  obtains px ms rate rslt where "ComputeBacklashPx e t = Some (px, ms, rate, rslt)"
proof -
  have "ComputeBacklashPx e t \<noteq> None"
  proof (cases "length (bt_northBLSteps t) > 3")
    case True
    then have "(of_int (int (as_GetCount (bt_northStats t)) * bt_pulseWidth t) :: real) \<noteq> 0" using assms by auto
    then show ?thesis using True by (simp add: ComputeBacklashPx_def Let_def fdiv_def split: prod.splits)
  qed (simp add: ComputeBacklashPx_def)
  then show ?thesis using that by (metis option.exhaust prod_cases4)
qed

lemma moved_state:
  "moved b n m rest (t\<lparr>bt_state := st, bt_stepCount := k\<rparr>) = moved b n m rest t"
  "moved b n m rest (t\<lparr>bt_state := st\<rparr>) = moved b n m rest t"
  "moved b n m rest (t\<lparr>bt_backlashResultPx := px, bt_backlashResultMs := ms, bt_northRate := rate, bt_Rslt := rslt\<rparr>) =
   moved b n m rest t"
  by (simp_all add: moved_def)

lemma issue_test_ok:
  assumes "blt_ok K r b t" "bt_state t = BLT_STATE_TEST_CORRECTION" "bt_stepCount t = 0"
  shows "case_ok K r b BLT_STATE_RESTORE (blt_level K t) (issue_test e t)"
proof -
  let ?n = "length (bt_northBLSteps t) - 1"
  have ok: "bt_lastDecGuideRate t = r" "0 < bt_pulseWidth t" "as_GetCount (bt_northStats t) + 1 = length (bt_northBLSteps t)"
    "length (bt_southBLSteps t) = length (bt_northBLSteps t)" "moved b ?n ?n [] t"
    using assms by (auto simp: blt_ok_def)
  have ne: "bt_northBLSteps t \<noteq> []" using ok(3) by auto
  have m: "\<exists>rest. moved b ?n ?n rest (blt_move SOUTH k t) \<and> list_all (\<lambda>m. fst m = SOUTH) rest \<and> length rest \<le> 1" for k
    using moved_add(1) [OF ok(5), of SOUTH k] by (intro exI [of _ "[(SOUTH, k)]"]) simp
  show ?thesis
    using ok ne m assms(2,3)
    by (auto simp: issue_test_def case_ok_def blt_ok_def blt_level_def blt_ended_def Let_def moved_def blt_move_def intro!: exI [of _ "[]"])
qed

lemma test_correction_ok:
  assumes "blt_ok K r b t" "bt_state t = BLT_STATE_TEST_CORRECTION"
  shows "case_ok K r b BLT_STATE_RESTORE (blt_level K t) (test_correction e t)"
proof (cases "bt_stepCount t = 0")
  case True
  have "0 < bt_pulseWidth t" "as_GetCount (bt_northStats t) + 1 = length (bt_northBLSteps t)"
    using assms by (simp_all add: blt_ok_def)
  then obtain px ms rate rslt where c: "ComputeBacklashPx e t = Some (px, ms, rate, rslt)" by (rule Compute_defined)
  define t1 where "t1 = t\<lparr>bt_backlashResultPx := px, bt_backlashResultMs := ms, bt_northRate := rate, bt_Rslt := rslt\<rparr>"
  have t1: "blt_ok K r b t1" "bt_state t1 = BLT_STATE_TEST_CORRECTION" "bt_stepCount t1 = 0" "blt_level K t1 = blt_level K t"
    using assms True by (simp_all add: t1_def blt_ok_def blt_level_def blt_ended_def moved_state)
  have "case_ok K r b BLT_STATE_RESTORE (blt_level K t) (issue_test e t1)" using issue_test_ok [OF t1(1-3)] t1(4) by simp
  then show ?thesis using True c by (simp add: test_correction_def t1_def [symmetric] Let_def) (simp add: case_ok_def)
next
  case False
  obtain rest where rest: "moved b (length (bt_northBLSteps t) - 1) (length (bt_northBLSteps t) - 1) rest t"
    "list_all (\<lambda>m. fst m = SOUTH) rest" "int (length rest) \<le> bt_stepCount t"
    using assms by (auto simp: blt_ok_def)
  have "bt_northBLSteps t \<noteq> []" "bt_stepCount t = 1" using assms False by (auto simp: blt_ok_def)
  then show ?thesis using assms False rest
    by (auto simp: test_correction_def case_ok_def blt_ok_def blt_level_def blt_ended_def moved_state)
qed

lemma restore_star_ok:
  assumes "blt_ok K r b t" "bt_state t = BLT_STATE_RESTORE"
  shows "case_ok K r b BLT_STATE_WRAPUP (blt_level K t) (restore_star e loc t)"
proof -
  let ?n = "length (bt_northBLSteps t) - 1"
  obtain rest where rest: "moved b ?n ?n rest t" "list_all (\<lambda>m. fst m = SOUTH) rest" "int (length rest) \<le> 1 + bt_stepCount t"
    using assms by (auto simp: blt_ok_def)
  have ok: "bt_lastDecGuideRate t = r" "0 < bt_pulseWidth t" "0 \<le> bt_stepCount t" "bt_stepCount t \<le> 10"
    "0 < bt_stepCount t \<Longrightarrow> bt_restoreCount t \<le> 10" "length (bt_southBLSteps t) = length (bt_northBLSteps t)"
    "bt_northBLSteps t \<noteq> []" using assms by (simp_all add: blt_ok_def)
  have rc: "restore_count e amt t \<le> 10" for amt by (simp add: restore_count_def)
  note m = moved_add(1) [OF rest(1), of SOUTH "bt_pulseWidth t"]
  have wrap: "\<exists>rest. moved b ?n ?n rest t \<and> list_all (\<lambda>m. fst m = SOUTH) rest \<and> length rest \<le> 11"
    using rest ok(4) by (intro exI [of _ rest]) simp
  have move: "\<exists>rest. moved b ?n ?n rest (blt_move SOUTH (bt_pulseWidth t) t) \<and> list_all (\<lambda>m. fst m = SOUTH) rest \<and>
      int (length rest) \<le> 2 + bt_stepCount t"
    using m rest(2,3) by (intro exI [of _ "rest @ [(SOUTH, bt_pulseWidth t)]"]) simp
  have stale: "\<exists>rest. moved b ?n ?n rest (blt_move SOUTH (bt_pulseWidth t) t) \<and> list_all (\<lambda>m. fst m = SOUTH) rest \<and>
      length rest \<le> 11" if "bt_stepCount t = 0"
    using move that by fastforce
  let ?amt = "\<bar>Y loc - Y (bt_startingPoint t)\<bar>"
  show ?thesis
  proof (cases "bt_stepCount t = 0")
    case True
    then show ?thesis using ok(1,2,6,7) wrap stale [OF True] move rc [of ?amt] assms(2)
      by (auto simp: restore_star_def case_ok_def blt_ok_def blt_level_def blt_ended_def moved_def blt_move_def Let_def)
  next
    case False
    then show ?thesis using ok wrap move assms(2)
      by (auto simp: restore_star_def case_ok_def blt_ok_def blt_level_def blt_ended_def moved_def blt_move_def Let_def)
  qed
qed

definition frame_ok :: "real \<Rightarrow> blt_env \<times> sodium_point \<Rightarrow> bool" where
  \<comment> \<open>a pulse of a millisecond moves the star by less than 70 percent of the search region\<close>
  "frame_ok r f \<longleftrightarrow> r \<le> 0.7 * of_int (be_maxMove (fst f))"

lemma blt_cases_ok:
  assumes "blt_ok K r b t" "\<not> blt_ended t" "8000 \<le> K" "0 < r" "r \<le> 0.7 * of_int (be_maxMove e)"
  shows "case_ok K r b BLT_STATE_WRAPUP (blt_level K t) (blt_cases e s cam loc d t)"
proof -
  note restore = restore_star_ok [of K r b _ e loc]
  have test: "case_ok K r b BLT_STATE_WRAPUP (blt_level K t) (blt_then (test_correction e t) (restore_star e loc))"
    if "blt_ok K r b t" "bt_state t = BLT_STATE_TEST_CORRECTION" for t
    by (rule blt_then_ok [OF test_correction_ok [OF that] restore])
  have south: "case_ok K r b BLT_STATE_WRAPUP (blt_level K t)
      (blt_then (step_south loc t) (\<lambda>t. blt_then (test_correction e t) (restore_star e loc)))"
    if "blt_ok K r b t" "bt_state t = BLT_STATE_STEP_SOUTH" for t
    by (rule blt_then_ok [OF step_south_ok [OF that] test])
  have north: "case_ok K r b BLT_STATE_WRAPUP (blt_level K t) (blt_then (step_north e cam loc t)
      (\<lambda>t. blt_then (step_south loc t) (\<lambda>t. blt_then (test_correction e t) (restore_star e loc))))"
    if "blt_ok K r b t" "bt_state t = BLT_STATE_STEP_NORTH" for t
    by (rule blt_then_ok [OF step_north_ok [OF that] south]) (use assms(3) in simp_all)
  have clear: "case_ok K r b BLT_STATE_WRAPUP (blt_level K t) (blt_then (clear_north e s cam loc d t)
      (\<lambda>t. blt_then (step_north e cam loc t) (\<lambda>t. blt_then (step_south loc t) (\<lambda>t. blt_then (test_correction e t) (restore_star e loc)))))"
    if "bt_state t = BLT_STATE_CLEAR_NORTH"
    by (rule blt_then_ok [OF clear_north_ok [OF assms(1) that assms(3-5)] north])
  show ?thesis
    using assms(1,2) clear north [OF assms(1)] south [OF assms(1)] test [OF assms(1)] restore [OF assms(1)]
    by (cases "bt_state t") (simp_all add: blt_cases_def Let_def blt_ended_def, simp_all add: case_ok_def blt_ok_def)
qed

definition trace_grows :: "backlash_tool \<Rightarrow> blt_exit \<times> backlash_tool \<Rightarrow> bool" where
  "trace_grows t r \<longleftrightarrow> mode_after False (bt_trace (snd r)) = mode_after False (bt_trace t)"

lemma blt_then_grows:
  assumes "trace_grows t r" and "\<And>t'. trace_grows t' (f t')"
  shows "trace_grows t (blt_then r f)"
proof -
  obtain ex u where r: "r = (ex, u)" by fastforce
  show ?thesis using assms(1) assms(2) [of u] by (cases ex) (simp_all add: trace_grows_def blt_then_def r)
qed

lemma blt_cases_grows: "trace_grows t (blt_cases e s cam loc d t)"
proof -
  have restore: "trace_grows t (restore_star e loc t)" for t
    by (simp add: restore_star_def trace_grows_def blt_move_def Let_def)
  have test: "trace_grows t (test_correction e t)" for t
    by (auto simp: test_correction_def issue_test_def trace_grows_def blt_move_def Let_def split: option.split)
  have south: "trace_grows t (step_south loc t)" for t
    by (simp add: step_south_def trace_grows_def blt_move_def Let_def)
  have north: "trace_grows t (step_north e cam loc t)" for t
    by (auto simp: step_north_def trace_grows_def blt_move_def add_north_delta_def Let_def split: list.split)
  have start: "bt_trace t' = bt_trace t" if "start_north e s t = Some t'" for t t'
    using that by (auto simp: start_north_def Let_def split: if_splits)
  have fall: "mode_after False (bt_trace (snd (case start_north e s u of None \<Rightarrow> (BltUndef, u) | Some t \<Rightarrow> (BltFall, t))))
      = mode_after False (bt_trace t)" if "bt_trace u = bt_trace t" for t u
    using that start [of u] by (cases "start_north e s u") simp_all
  have clear: "trace_grows t (clear_north e s cam loc d t)" for t
    by (simp add: clear_north_def trace_grows_def blt_move_def fall Let_def)
  show ?thesis
    using blt_then_grows [OF clear blt_then_grows [OF north blt_then_grows [OF south blt_then_grows [OF test restore]]]]
      blt_then_grows [OF north blt_then_grows [OF south blt_then_grows [OF test restore]]]
      blt_then_grows [OF south blt_then_grows [OF test restore]] blt_then_grows [OF test restore] restore
    by (cases "bt_state t") (simp_all add: blt_cases_def Let_def trace_grows_def [of t "(BltFall, t)"])
qed

lemma ended_ok: "blt_ok K r b t \<Longrightarrow> blt_ended t \<Longrightarrow> blt_level K t = 0"
  by (auto simp: blt_ended_def blt_level_def)

lemma level_nonneg: "blt_ok K r b t \<Longrightarrow> 8000 \<le> K \<Longrightarrow> 0 \<le> blt_level K t \<and> (\<not> blt_ended t \<longrightarrow> 0 < blt_level K t)"
  by (cases "bt_state t") (auto simp: blt_level_def blt_ok_def blt_ended_def)

lemma blt_switch_active:
  "\<not> blt_ended t \<Longrightarrow> bt_state t \<noteq> BLT_STATE_INITIALIZE \<Longrightarrow> blt_switch e cam loc d t s =
    (case blt_cases e s cam loc d t of (BltBreak, t) \<Rightarrow> Some (t, s) | (BltFall, t) \<Rightarrow> Some (blt_wrapup t s)
       | (BltThrow, t) \<Rightarrow> Some (blt_abort t s) | (BltUndef, t) \<Rightarrow> None)"
  by (cases "bt_state t") (simp_all add: blt_switch_def blt_ended_def)

lemma cum_distance_frame [simp]:
  "blt_ok K r b (t\<lparr>bt_cumClearingDistance := x\<rparr>) = blt_ok K r b t"
  "blt_level K (t\<lparr>bt_cumClearingDistance := x\<rparr>) = blt_level K t"
  "blt_ended (t\<lparr>bt_cumClearingDistance := x\<rparr>) = blt_ended t"
  by (simp_all add: blt_ok_def blt_level_def blt_ended_def moved_def cong: blt_state.case_cong)

lemma blt_abort_ok:
  "blt_ok K r b (fst (blt_abort u s))" "blt_level K (fst (blt_abort u s)) = 0" "blt_ended (fst (blt_abort u s))"
  "\<not> mode_after False (bt_trace (fst (blt_abort u s)))"
  by (simp_all add: blt_abort_def CleanUp_def blt_ok_def blt_level_def blt_ended_def)

lemma blt_wrapup_ok:
  assumes "blt_ok K r b v" "bt_state v = BLT_STATE_WRAPUP"
  shows "blt_ok K r b (fst (blt_wrapup v s))" "blt_level K (fst (blt_wrapup v s)) = 0" "blt_ended (fst (blt_wrapup v s))"
    "\<not> mode_after False (bt_trace (fst (blt_wrapup v s)))"
  using assms by (simp_all add: blt_wrapup_def CleanUp_def blt_ok_def blt_level_def blt_ended_def moved_def)

lemma blt_switch_ok:
  assumes "blt_ok K r b t" "\<not> blt_ended t" "8000 \<le> K" "0 < r" "frame_ok r (e, p)" "mode_after False (bt_trace t)"
  obtains t' s' where "blt_switch e p loc d t s = Some (t', s')" "blt_ok K r b t'" "blt_level K t' < blt_level K t"
    "mode_after False (bt_trace t') = (\<not> blt_ended t')"
proof -
  have pos: "0 < blt_level K t" using level_nonneg [OF assms(1,3)] assms(2) by simp
  have ini: "bt_state t \<noteq> BLT_STATE_INITIALIZE" using assms(1) by (auto simp: blt_ok_def)
  obtain ex v where c: "blt_cases e s p loc d t = (ex, v)" by fastforce
  have ok: "case_ok K r b BLT_STATE_WRAPUP (blt_level K t) (ex, v)"
    using blt_cases_ok [OF assms(1-4), of e s p loc d] assms(5) by (simp add: c frame_ok_def)
  have mode: "mode_after False (bt_trace v)"
    using blt_cases_grows [of t e s p loc d] assms(6) by (simp add: trace_grows_def c)
  note step = blt_switch_active [OF assms(2) ini, of e p loc d s, unfolded c]
  show ?thesis
  proof (cases ex)
    case BltBreak
    then show ?thesis using that [of v s] step mode ok by (simp add: case_ok_def)
  next
    case BltFall
    then have "blt_ok K r b v" "bt_state v = BLT_STATE_WRAPUP" using ok by (simp_all add: case_ok_def)
    note w = blt_wrapup_ok [OF this, of s]
    show ?thesis using that [of "fst (blt_wrapup v s)" "snd (blt_wrapup v s)"] step BltFall pos w by simp
  next
    case BltThrow
    then show ?thesis using that [of "fst (blt_abort v s)" "snd (blt_abort v s)"] blt_abort_ok(1) [of K r b v s] blt_abort_ok(2) [of K v s] blt_abort_ok(3,4) [of v s] step pos by simp
  next
    case BltUndef
    then show ?thesis using ok by (simp add: case_ok_def)
  qed
qed

lemma DecMeasurementStep_ok:
  assumes "blt_ok K r b t" "\<not> blt_ended t" "8000 \<le> K" "0 < r" "frame_ok r (e, p)" "mode_after False (bt_trace t)"
  obtains t' s' where "DecMeasurementStep e p t s = Some (t', s')" "blt_ok K r b t'" "blt_level K t' < blt_level K t"
    "mode_after False (bt_trace t') = (\<not> blt_ended t')"
proof -
  have pos: "0 < blt_level K t" using level_nonneg [OF assms(1,3)] assms(2) by simp
  obtain err loc where tr: "TransformCameraCoordinatesToMountCoordinates s p (SodiumPoint 0 0) = (err, loc)" by fastforce
  show ?thesis
  proof (cases err)
    case True
    then show ?thesis using that [of "fst (blt_abort t s)" "snd (blt_abort t s)"] blt_abort_ok(1) [of K r b t s] blt_abort_ok(2) [of K t s] blt_abort_ok(3,4) [of t s] tr pos
      by (simp add: DecMeasurementStep_def)
  next
    case False
    define d where "d = Y loc - Y (bt_markerPoint t)"
    define u where "u = t\<lparr>bt_cumClearingDistance := bt_cumClearingDistance t + d\<rparr>"
    have u: "blt_ok K r b u" "\<not> blt_ended u" "mode_after False (bt_trace u)" "blt_level K u = blt_level K t"
      using assms by (simp_all add: u_def)
    have ini: "bt_state t \<noteq> BLT_STATE_INITIALIZE" using assms(1) by (auto simp: blt_ok_def)
    obtain t' s' where "blt_switch e p loc d u s = Some (t', s')" "blt_ok K r b t'" "blt_level K t' < blt_level K u"
      "mode_after False (bt_trace t') = (\<not> blt_ended t')"
      using blt_switch_ok [OF u(1,2) assms(3-5) u(3)] .
    then show ?thesis using that tr False ini u(4) by (simp add: DecMeasurementStep_def Let_def d_def [symmetric] u_def [symmetric])
  qed
qed

lemma blt_run_ok:
  assumes "blt_ok K r b t" "8000 \<le> K" "0 < r" "list_all (frame_ok r) fs" "mode_after False (bt_trace t) = (\<not> blt_ended t)"
  obtains t' s' where "blt_run fs t s = Some (t', s')" "blt_ok K r b t'" "mode_after False (bt_trace t') = (\<not> blt_ended t')"
    "blt_ended t' \<or> blt_level K t' + int (length fs) \<le> blt_level K t"
  using assms
proof (induction fs arbitrary: t s thesis)
  case (Cons f fs)
  obtain e p where f: "f = (e, p)" by fastforce
  show ?case
  proof (cases "blt_ended t")
    case True
    then show ?thesis using Cons.prems f by auto
  next
    case False
    have fr: "frame_ok r (e, p)" "list_all (frame_ok r) fs" using Cons.prems(5) f by simp_all
    obtain t1 s1 where 1: "DecMeasurementStep e p t s = Some (t1, s1)" "blt_ok K r b t1" "blt_level K t1 < blt_level K t"
      "mode_after False (bt_trace t1) = (\<not> blt_ended t1)"
      by (rule DecMeasurementStep_ok [OF Cons.prems(2) False Cons.prems(3,4) fr(1)]) (use Cons.prems(6) False in auto)
    obtain t' s' where "blt_run fs t1 s1 = Some (t', s')" "blt_ok K r b t'" "mode_after False (bt_trace t') = (\<not> blt_ended t')"
      "blt_ended t' \<or> blt_level K t' + int (length fs) \<le> blt_level K t1"
      by (rule Cons.IH [OF _ 1(2) Cons.prems(3,4) fr(2) 1(4)])
    then show ?thesis using 1 False f by (intro Cons.prems(1)) auto
  qed
qed simp

definition frames_needed :: "backlash_tool \<Rightarrow> int" where
  "frames_needed t = 2 * max 8000 (150 * bt_pulseWidth t) + 118"

lemma blt_initialize_ok:
  assumes "blt_initialize e loc t0 s0 = (t, s)" "bt_northBLSteps t0 = []" "bt_southBLSteps t0 = []"
    "as_GetCount (bt_northStats t0) = 0" "\<not> mode_after False (bt_trace t0)"
  shows "blt_ended t \<and> \<not> mode_after False (bt_trace t) \<and> bt_state t = BLT_STATE_ABORTED \<or>
    0 < bt_lastDecGuideRate t \<and> mode_after False (bt_trace t) \<and> \<not> blt_ended t \<and>
    blt_ok (max 8000 (150 * bt_pulseWidth t)) (bt_lastDecGuideRate t) (blt_moves (bt_trace t0)) t \<and>
    blt_level (max 8000 (150 * bt_pulseWidth t)) t = frames_needed t"
proof -
  define r where "r = (if bt_lastDecGuideRate t0 \<le> 0 then GetLastDecGuideRate e else bt_lastDecGuideRate t0)"
  have 0: "0 \<le> trunc (BACKLASH_EXPECTED_DISTANCE * 1.25 / r)" if "0 < r" using that by (simp add: trunc_def blt_consts)
  show ?thesis
  proof (cases "0 < r")
    case True
    have "t = t0\<lparr>bt_stepCount := 0, bt_markerPoint := loc, bt_startingPoint := loc, bt_lastDecGuideRate := r,
        bt_pulseWidth := trunc (BACKLASH_EXPECTED_DISTANCE * 1.25 / r), bt_acceptedMoves := 0,
        bt_lastClearRslt := 0, bt_cumClearingDistance := 0, bt_backlashExemption := False,
        bt_Rslt := MEASUREMENT_VALID, bt_state := BLT_STATE_CLEAR_NORTH, bt_trace := bt_trace t0 @ [BltMeasurementMode True]\<rparr>"
      using assms(1) True by (auto simp: blt_initialize_def r_def Let_def split: if_splits)
    then show ?thesis using True assms(2-4) 0 by (simp add: blt_ok_def blt_level_def blt_ended_def frames_needed_def)
  next
    case False
    then have "t = t0\<lparr>bt_stepCount := 0, bt_markerPoint := loc, bt_startingPoint := loc,
        bt_lastDecGuideRate := r, bt_state := BLT_STATE_ABORTED, bt_lastStatus := Status_NoDecRate\<rparr>"
      using assms(1) by (auto simp: blt_initialize_def r_def Let_def split: if_splits)
    then show ?thesis using assms(5) by (simp add: blt_ended_def)
  qed
qed

lemma StartMeasurement_ok:
  assumes "StartMeasurement e d pos t0 s0 = Some (t, s)" "\<not> mode_after False (bt_trace t0)"
  shows "blt_ended t \<and> \<not> mode_after False (bt_trace t) \<and> bt_state t = BLT_STATE_ABORTED \<or>
    0 < bt_lastDecGuideRate t \<and> mode_after False (bt_trace t) \<and> \<not> blt_ended t \<and>
    blt_ok (max 8000 (150 * bt_pulseWidth t)) (bt_lastDecGuideRate t) (blt_moves (bt_trace t0)) t \<and>
    blt_level (max 8000 (150 * bt_pulseWidth t)) t = frames_needed t"
proof -
  define u where "u = t0\<lparr>bt_state := BLT_STATE_INITIALIZE, bt_driftPerSec := d / 60, bt_northBLSteps := [],
      bt_southBLSteps := [], bt_northStats := as_ClearAll (bt_northStats t0)\<rparr>"
  have u: "bt_state u = BLT_STATE_INITIALIZE" "bt_northBLSteps u = []" "bt_southBLSteps u = []" "as_GetCount (bt_northStats u) = 0"
    "bt_trace u = bt_trace t0" by (simp_all add: u_def as_GetCount_def as_ClearAll_def)
  obtain err loc where tr: "TransformCameraCoordinatesToMountCoordinates s0 pos (SodiumPoint 0 0) = (err, loc)" by fastforce
  show ?thesis
  proof (cases err)
    case True
    then have "t = fst (blt_abort u s0)" using assms(1) tr by (simp add: StartMeasurement_def DecMeasurementStep_def u_def [symmetric])
    then show ?thesis by (simp add: blt_abort_def CleanUp_def blt_ended_def)
  next
    case False
    then have "blt_initialize e loc u s0 = (t, s)" using assms(1) tr u(1)
      by (simp add: StartMeasurement_def DecMeasurementStep_def blt_switch_def u_def [symmetric])
    from blt_initialize_ok [OF this u(2-4)] assms(2) show ?thesis by (simp add: u(5))
  qed
qed

text \<open>C19: A backlash measurement always ends, wherever the star is seen, and is never undefined: after the start, within
  a number of frames that depends only on the clearing pulse, it has completed or been aborted, and the guider
  is back in its normal mode. (A pulse of a millisecond must not move the star by 70 percent of the search region.)\<close>
theorem blt_measurement_ends:
  assumes "StartMeasurement e d pos t0 s0 = Some (t, s)" and "\<not> mode_after False (bt_trace t0)"
    and "list_all (frame_ok (bt_lastDecGuideRate t)) frames" and "frames_needed t \<le> int (length frames)"
  shows "case blt_run frames t s of None \<Rightarrow> False | Some (t', s') \<Rightarrow> blt_ended t' \<and> \<not> mode_after False (bt_trace t')"
proof -
  let ?K = "max 8000 (150 * bt_pulseWidth t)"
  consider "blt_ended t" "\<not> mode_after False (bt_trace t)"
    | "0 < bt_lastDecGuideRate t" "mode_after False (bt_trace t) = (\<not> blt_ended t)"
      "blt_ok ?K (bt_lastDecGuideRate t) (blt_moves (bt_trace t0)) t" "blt_level ?K t = frames_needed t"
    using StartMeasurement_ok [OF assms(1,2)] by blast
  then show ?thesis
  proof cases
    case 1
    then show ?thesis by (cases frames) auto
  next
    case 2
    obtain t' s' where r: "blt_run frames t s = Some (t', s')" "blt_ok ?K (bt_lastDecGuideRate t) (blt_moves (bt_trace t0)) t'"
      "mode_after False (bt_trace t') = (\<not> blt_ended t')" "blt_ended t' \<or> blt_level ?K t' + int (length frames) \<le> blt_level ?K t"
      by (rule blt_run_ok [OF 2(3) _ 2(1) assms(3) 2(2)]) auto
    then have "blt_ended t'" using level_nonneg [OF r(2)] assms(4) 2(4) by force
    then show ?thesis using r by simp
  qed
qed

text \<open>C20: A completed measurement has undone what it did: after at most 100 clearing pulses it sent as many south pulses as
  north pulses of the same width, recorded one position before each of them and one after the last, and then sent only
  south pulses, at most 11.\<close>
theorem blt_star_returned:
  assumes "StartMeasurement e d pos t0 s0 = Some (t, s)" and "\<not> mode_after False (bt_trace t0)"
    and "list_all (frame_ok (bt_lastDecGuideRate t)) frames"
    and "blt_run frames t s = Some (t', s')" and "bt_state t' = BLT_STATE_COMPLETED"
  shows "\<exists>c w n rest. blt_moves (bt_trace t') = blt_moves (bt_trace t0) @ replicate c (NORTH, w) @
      replicate n (NORTH, bt_pulseWidth t') @ replicate n (SOUTH, bt_pulseWidth t') @ rest \<and>
    c \<le> 100 \<and> 0 < bt_pulseWidth t' \<and> length (bt_northBLSteps t') = n + 1 \<and> length (bt_southBLSteps t') = n + 1 \<and>
    list_all (\<lambda>m. fst m = SOUTH) rest \<and> length rest \<le> 11"
proof -
  let ?K = "max 8000 (150 * bt_pulseWidth t)" and ?n = "length (bt_northBLSteps t') - 1"
  consider "blt_ended t" "bt_state t = BLT_STATE_ABORTED"
    | "0 < bt_lastDecGuideRate t" "mode_after False (bt_trace t) = (\<not> blt_ended t)"
      "blt_ok ?K (bt_lastDecGuideRate t) (blt_moves (bt_trace t0)) t"
    using StartMeasurement_ok [OF assms(1,2)] by blast
  then show ?thesis
  proof cases
    case 1
    then have "t' = t" using assms(4) by (cases frames) auto
    then show ?thesis using 1(2) assms(5) by simp
  next
    case 2
    have "blt_ok ?K (bt_lastDecGuideRate t) (blt_moves (bt_trace t0)) t'"
      by (rule blt_run_ok [OF 2(3) _ 2(1) assms(3) 2(2), of s]) (use assms(4) in auto)
    then obtain rest where ok: "0 < bt_pulseWidth t'" "length (bt_southBLSteps t') = length (bt_northBLSteps t')" "bt_northBLSteps t' \<noteq> []"
      "moved (blt_moves (bt_trace t0)) ?n ?n rest t'" "list_all (\<lambda>m. fst m = SOUTH) rest" "length rest \<le> 11"
      using assms(5) by (auto simp: blt_ok_def)
    then obtain c w where "c \<le> 100" "blt_moves (bt_trace t') = blt_moves (bt_trace t0) @ replicate c (NORTH, w) @
        replicate ?n (NORTH, bt_pulseWidth t') @ replicate ?n (SOUTH, bt_pulseWidth t') @ rest"
      by (auto simp: moved_def)
    then show ?thesis using ok by (intro exI [of _ c] exI [of _ w] exI [of _ ?n] exI [of _ rest]) simp
  qed
qed

definition sample_tool :: backlash_tool where
  "sample_tool = \<lparr>bt_pulseWidth = 0, bt_stepCount = 0, bt_northPulseCount = 0, bt_restoreCount = 0, bt_acceptedMoves = 0,
     bt_lastClearRslt = 0, bt_lastDecGuideRate = 1 / 100, bt_backlashResultPx = 0, bt_cumClearingDistance = 0,
     bt_backlashExemption = False, bt_backlashResultMs = 0, bt_northRate = 0, bt_startingPoint = SodiumPoint 0 0,
     bt_markerPoint = SodiumPoint 0 0, bt_endSouth = SodiumPoint 0 0, bt_lastStatus = Status_None, bt_northBLSteps = [],
     bt_southBLSteps = [], bt_driftPerSec = 0,
     bt_northStats = \<lparr>guidingEntries = [], axisMoves = 0, axisReversals = 0, prevMove = 0, prevPosition = 0, sumX = 0, sumY = 0,
       sumXY = 0, sumXSq = 0, sumYSq = 0, maxDisplacement = 0, minDisplacement = 0, maxDelta = 0, maxDeltaInx = 0\<rparr>,
     bt_msmtStartTime = 0, bt_msmtEndTime = 0, bt_state = BLT_STATE_INITIALIZE, bt_Rslt = MEASUREMENT_VALID, bt_trace = []\<rparr>"

definition sample_blt_env :: blt_env where
  "sample_blt_env = \<lparr>be_profile = (\<lambda>_. None), be_uninit = sample_cal, be_width = 1000, be_height = 1000, be_maxMove = 120,
     be_now = 0, be_badInt = 0\<rparr>"

text \<open>A scope whose Dec axis is the image's Y axis: the mount sees a star at its image Y.\<close>

definition straight_scope :: scope where
  "straight_scope = sample_scope\<lparr>m_cal := sample_cal\<lparr>xAngle := 0\<rparr>, m_yAngleError := 0\<rparr>"

lemma straight_transform [simp]:
  assumes "xAngle (m_cal m) = 0" "m_yAngleError m = 0"
  shows "TransformCameraCoordinatesToMountCoordinates m (SodiumPoint x y) (SodiumPoint 0 0) = (False, SodiumPoint x y)"
  using assms polar [of "SodiumPoint x y"]
  by (simp add: TransformCameraCoordinatesToMountCoordinates_def Let_def mult.commute SodiumPoint_def SetXY_def)

lemma straight_scope_simps [simp]:
  "xAngle (m_cal straight_scope) = 0" "m_yAngleError straight_scope = 0" "m_guidingEnabled straight_scope"
  "m_calibrationDuration straight_scope = 7500"
  by (simp_all add: straight_scope_def sample_scope_def)

theorem blt_measurement_ends_witness:
  "\<exists>t s t' s'. StartMeasurement sample_blt_env 0 (SodiumPoint 500 500) sample_tool straight_scope = Some (t, s) \<and>
    blt_run (replicate 150118 (sample_blt_env, SodiumPoint 500 500)) t s = Some (t', s') \<and> blt_ended t'"
proof -
  obtain t s where st: "StartMeasurement sample_blt_env 0 (SodiumPoint 500 500) sample_tool straight_scope = Some (t, s)"
    and t: "bt_lastDecGuideRate t = 1 / 100" "bt_pulseWidth t = 500"
    by (simp add: StartMeasurement_def DecMeasurementStep_def blt_switch_def blt_initialize_def sample_tool_def blt_consts trunc_def)
  have "list_all (frame_ok (bt_lastDecGuideRate t)) (replicate 150118 (sample_blt_env, SodiumPoint 500 500))"
    by (simp add: t frame_ok_def sample_blt_env_def list_all_length)
  from blt_measurement_ends [OF st _ this] show ?thesis using st
    by (auto simp: sample_tool_def frames_needed_def t split: option.splits)
qed

theorem blt_star_returned_witness:
  "\<exists>t s t' s' c w n rest.
    StartMeasurement sample_blt_env 0 (SodiumPoint 500 500) sample_tool straight_scope = Some (t, s) \<and>
    blt_run (map (\<lambda>y. (sample_blt_env, SodiumPoint 500 y)) [500, 550, 560, 570, 560, 550]) t s = Some (t', s') \<and>
    bt_state t' = BLT_STATE_COMPLETED \<and>
    blt_moves (bt_trace t') = replicate c (NORTH, w) @ replicate n (NORTH, 7500) @ replicate n (SOUTH, 7500) @ rest \<and>
    length (bt_southBLSteps t') = n + 1"
proof -
  let ?s = straight_scope and ?step = "\<lambda>y. DecMeasurementStep sample_blt_env (SodiumPoint 500 y)"
  define st where "st = as_ClearAll (bt_northStats sample_tool)"
  let ?t1 = "sample_tool\<lparr>bt_pulseWidth := 500, bt_markerPoint := SodiumPoint 500 500, bt_startingPoint := SodiumPoint 500 500,
    bt_state := BLT_STATE_CLEAR_NORTH, bt_trace := [BltMeasurementMode True], bt_northStats := st\<rparr>"
  let ?t2 = "?t1\<lparr>bt_stepCount := 1, bt_lastStatus := Status_ClearingNorth 1,
    bt_trace := [BltMeasurementMode True, BltMove NORTH 500]\<rparr>"
  let ?t3 = "?t2\<lparr>bt_stepCount := 1, bt_acceptedMoves := 1, bt_cumClearingDistance := 50, bt_backlashExemption := True,
    bt_state := BLT_STATE_STEP_NORTH, bt_pulseWidth := 7500, bt_northPulseCount := 2, bt_markerPoint := SodiumPoint 500 550,
    bt_northBLSteps := [550], bt_lastStatus := Status_MovingNorth 7500 1 2,
    bt_trace := [BltMeasurementMode True, BltMove NORTH 500, BltMove NORTH 7500]\<rparr>"
  let ?t4 = "?t3\<lparr>bt_stepCount := 2, bt_cumClearingDistance := 60, bt_northBLSteps := [550, 560],
    bt_lastStatus := Status_MovingNorth 7500 2 2, bt_northStats := as_AddGuideInfo st 1 10 0,
    bt_trace := [BltMeasurementMode True, BltMove NORTH 500, BltMove NORTH 7500, BltMove NORTH 7500]\<rparr>"
  let ?t5 = "?t4\<lparr>bt_stepCount := 1, bt_cumClearingDistance := 80, bt_northBLSteps := [550, 560, 570], bt_southBLSteps := [570],
    bt_state := BLT_STATE_STEP_SOUTH, bt_lastStatus := Status_MovingSouth 7500 1 2,
    bt_northStats := as_AddGuideInfo (as_AddGuideInfo st 1 10 0) 2 10 0,
    bt_trace := [BltMeasurementMode True, BltMove NORTH 500, BltMove NORTH 7500, BltMove NORTH 7500, BltMove SOUTH 7500]\<rparr>"
  let ?t6 = "?t5\<lparr>bt_stepCount := 2, bt_cumClearingDistance := 90, bt_southBLSteps := [570, 560],
    bt_lastStatus := Status_MovingSouth 7500 2 2, bt_trace := [BltMeasurementMode True, BltMove NORTH 500, BltMove NORTH 7500,
      BltMove NORTH 7500, BltMove SOUTH 7500, BltMove SOUTH 7500]\<rparr>"
  note defs = DecMeasurementStep_def blt_switch_def sample_tool_def sample_blt_env_def blt_then_def Let_def blt_move_def
  note room = blt_out_of_room_def OutOfRoom_def blt_consts
  have 1: "StartMeasurement sample_blt_env 0 (SodiumPoint 500 500) sample_tool ?s = Some (?t1, ?s)"
    by (simp add: StartMeasurement_def defs blt_initialize_def blt_consts trunc_def scope_SetGuidingEnabled_def st_def)
  have 2: "?step 500 ?t1 ?s = Some (?t2, ?s)"
    by (simp add: defs blt_cases_def clear_north_def)
  have 3: "?step 550 ?t2 ?s = Some (?t3, ?s)"
    by (simp add: defs blt_cases_def clear_north_def accept_clearing_def start_north_def step_north_def room trunc_def)
  have 4: "?step 560 ?t3 ?s = Some (?t4, ?s)"
    by (simp add: defs blt_cases_def step_north_def add_north_delta_def room)
  have 5: "?step 570 ?t4 ?s = Some (?t5, ?s)"
    by (simp add: defs blt_cases_def step_north_def step_south_def add_north_delta_def room)
  have 6: "?step 560 ?t5 ?s = Some (?t6, ?s)"
    by (simp add: defs blt_cases_def step_south_def)
  obtain t' s' where 7: "?step 550 ?t6 ?s = Some (t', s')" "bt_state t' = BLT_STATE_COMPLETED" "bt_pulseWidth t' = 7500" "blt_ended t'"
    by (simp add: defs blt_cases_def step_south_def test_correction_def ComputeBacklashPx_def int_of_def issue_test_def
        restore_star_def blt_wrapup_def CleanUp_def blt_ended_def)
  let ?fs = "map (\<lambda>y. (sample_blt_env, SodiumPoint 500 y)) [500, 550, 560, 570, 560, 550]"
  have run: "blt_run ?fs ?t1 ?s = Some (t', s')"
    using 2 3 4 5 6 7 by (simp add: blt_ended_def)
  have "list_all (frame_ok (bt_lastDecGuideRate ?t1)) ?fs" "\<not> mode_after False (bt_trace sample_tool)" "bt_trace sample_tool = []"
    by (simp_all add: frame_ok_def sample_blt_env_def sample_tool_def)
  from blt_star_returned [OF 1 this(2,1) run 7(2)] this(3) show ?thesis
    using 1 run 7(2,3) by (simp only: blt_moves.simps append_Nil) blast
qed

subsection \<open>What is measured\<close>

text \<open>
  A mount without drift that moves \<open>p\<close> pixels with each pulse of the measurement, and whose Dec axis stands
  still after the reversal until \<open>bl\<close> pixels of motion have been taken up.
\<close>

definition south_pos :: "real \<Rightarrow> real \<Rightarrow> real \<Rightarrow> nat \<Rightarrow> real" where
  "south_pos y0 p bl k = y0 - max 0 (real k * p - bl)"

definition north_stats :: "axis_stats \<Rightarrow> real \<Rightarrow> nat \<Rightarrow> axis_stats" where
  "north_stats st p n = foldl (\<lambda>st k. as_AddGuideInfo st (real k) p 0) (as_ClearAll st) [1..<Suc n]"

definition ideal_measurement :: "real \<Rightarrow> real \<Rightarrow> nat \<Rightarrow> real \<Rightarrow> backlash_tool \<Rightarrow> bool" where
  "ideal_measurement p bl n y0 t \<longleftrightarrow> bt_driftPerSec t = 0 \<and> length (bt_northBLSteps t) = n + 1 \<and>
     (\<exists>st. bt_northStats t = north_stats st p n) \<and> bt_southBLSteps t = map (south_pos y0 p bl) [0..<Suc n]"

lemma AddGuideInfo_entries:
  "map sd_StarPos (guidingEntries (as_AddGuideInfo st d x 0)) = map sd_StarPos (guidingEntries st) @ [x]"
  "sumY (as_AddGuideInfo st d x 0) = sumY st + x"
  by (simp_all add: as_AddGuideInfo_def StarDisplacement_def Let_def)

lemma north_stats_values:
  "map sd_StarPos (guidingEntries (north_stats st p n)) = replicate n p \<and> sumY (north_stats st p n) = real n * p"
proof (induction n)
  case 0
  then show ?case by (simp add: north_stats_def as_ClearAll_def as_InitializeScalars_def)
next
  case (Suc n)
  have "north_stats st p (Suc n) = as_AddGuideInfo (north_stats st p n) (real (Suc n)) p 0"
    by (simp add: north_stats_def)
  then show ?case using Suc by (simp add: AddGuideInfo_entries replicate_append_same algebra_simps)
qed

lemma north_stats_summary:
  assumes "0 < n"
  shows "as_GetCount (north_stats st p n) = n" "sumY (north_stats st p n) = real n * p" "as_GetMedian (north_stats st p n) = p"
proof -
  note v = north_stats_values [of st p n]
  show l: "as_GetCount (north_stats st p n) = n"
    using arg_cong [OF v [THEN conjunct1], of length] by (simp add: as_GetCount_def)
  show "sumY (north_stats st p n) = real n * p" using v by simp
  have "sort (replicate n p) = replicate n p" by (rule sorted_sort_id) (simp add: sorted_replicate)
  moreover have "guidingEntries (north_stats st p n) ! 0 = hd (guidingEntries (north_stats st p n))"
    using l assms by (cases "guidingEntries (north_stats st p n)") (auto simp: as_GetCount_def)
  moreover have "sd_StarPos (hd (guidingEntries (north_stats st p n))) = p"
    using v assms l by (metis as_GetCount_def hd_map hd_replicate length_0_conv less_numeral_extra(3))
  ultimately show "as_GetMedian (north_stats st p n) = p"
    using l v assms by (auto simp: as_GetMedian_def as_GetCount_def Let_def)
qed

lemma south_loop_dead:
  "0 < em \<Longrightarrow> south_loop em dr nr nd step early 0 0 prev (replicate k prev @ xs) =
   south_loop em dr nr nd (step + int k) early 0 0 prev xs"
  by (induction k arbitrary: step) (simp_all add: algebra_simps)

lemma south_pos_flat:
  assumes "0 \<le> p" "real n * p \<le> bl"
  shows "map (south_pos y0 p bl) [0..<Suc n] = replicate (Suc n) y0"
proof (rule nth_equalityI)
  fix i assume "i < length (map (south_pos y0 p bl) [0..<Suc n])"
  then have i: "i < Suc n" by simp
  then have "real i * p \<le> real n * p" using assms(1) by (intro mult_right_mono) simp_all
  then show "map (south_pos y0 p bl) [0..<Suc n] ! i = replicate (Suc n) y0 ! i"
    using i assms(2) by (simp add: south_pos_def del: upt_Suc replicate_Suc)
qed simp

text \<open>The loop stops at the second full move after the dead zone of \<open>k\<close> pulses, or at the third when the first
  move after it was cut short by more than a tenth.\<close>

lemma south_loop_ideal:
  assumes p: "0 < p" and r: "0 \<le> r" "r < p"
  shows "south_loop (0.9 * p) 0 nr nd (int k + 1) 0 0 0 y0 ((y0 - (p - r)) # (y0 - (2 * p - r)) # (y0 - (3 * p - r)) # xs) =
    (let bl = (if r \<le> 0.1 * p then real (k + 2) * (0.9 * p) - (2 * p - r) else real (k + 3) * (0.9 * p) - (3 * p - r))
     in (max 0 bl, if bl * nr < -200 then MEASUREMENT_SANITY else if bl \<ge> 0.7 * nd then MEASUREMENT_TOO_FEW_NORTH
                   else MEASUREMENT_VALID))"
proof -
  have m: "y0 - (2 * p - r) - (y0 - (p - r)) = - p" "y0 - (3 * p - r) - (y0 - (2 * p - r)) = - p" "y0 - (p - r) - y0 = - (p - r)"
    by (simp_all add: algebra_simps)
  show ?thesis
  proof (cases "r \<le> 0.1 * p")
    case True
    then show ?thesis using p r by (simp add: m Let_def max_def algebra_simps)
  next
    case False
    then show ?thesis using p r by (simp add: m Let_def max_def algebra_simps)
  qed
qed

lemma south_positions:
  assumes "0 < p" "0 \<le> bl" "bl + 3 * p \<le> real n * p"
  defines "k \<equiv> nat \<lfloor>bl / p\<rfloor>"
  defines "r \<equiv> bl - real k * p"
  obtains xs where "map (south_pos y0 p bl) [0..<Suc n] =
      y0 # replicate k y0 @ (y0 - (p - r)) # (y0 - (2 * p - r)) # (y0 - (3 * p - r)) # xs"
    and "0 \<le> r" "r < p"
proof -
  have k: "real k = of_int \<lfloor>bl / p\<rfloor>" using assms(1,2) by (simp add: k_def)
  have "real k \<le> bl / p" "bl / p < real k + 1" by (simp_all add: k)
  then have r: "0 \<le> r" "r < p" using assms(1) by (simp_all add: r_def field_simps)
  have "real (k + 3) * p \<le> real n * p" using r(1) assms(3) by (simp add: r_def algebra_simps)
  then have kn: "k + 3 \<le> n" using assms(1) by (simp add: mult_le_cancel_right)
  have "[0..<Suc n] = [0..<Suc k] @ [Suc k..<Suc n]" using upt_add_eq_append [of 0 "Suc k" "n - k"] kn by simp
  moreover have "[Suc k..<Suc n] = (k + 1) # (k + 2) # (k + 3) # [k + 4..<Suc n]"
    using kn by (simp add: upt_conv_Cons eval_nat_numeral del: upt_Suc)
  moreover have "map (south_pos y0 p bl) [0..<Suc k] = y0 # replicate k y0"
    using south_pos_flat [of p k bl y0] assms(1) r(1) by (simp add: r_def)
  moreover have "south_pos y0 p bl (k + 1) = y0 - (p - r)" "south_pos y0 p bl (k + 2) = y0 - (2 * p - r)"
    "south_pos y0 p bl (k + 3) = y0 - (3 * p - r)"
    using r assms(1) by (simp_all add: south_pos_def r_def algebra_simps max_def)
  ultimately have "map (south_pos y0 p bl) [0..<Suc n] = y0 # replicate k y0 @ (y0 - (p - r)) # (y0 - (2 * p - r)) #
      (y0 - (3 * p - r)) # map (south_pos y0 p bl) [k + 4..<Suc n]"
    by (simp only: map_append list.map append_Cons append_assoc)
  then show ?thesis by (rule that [OF _ r])
qed

text \<open>C21: On a mount without drift the measurement is accurate and never too large: when every pulse moves the star by
  \<open>p\<close> pixels and the Dec axis has a backlash of \<open>bl\<close> pixels, with three full south moves after it, the computed backlash
  lies between nine tenths of the true one less three tenths of a pulse, and the true one; the rate is \<open>p\<close> per
  pulse width, the time is the whole milliseconds the backlash takes at that rate, and the measurement is valid
  when the backlash is below 70 percent of the north moves (and the pulse is not absurdly long for its effect).\<close>
theorem blt_measures_backlash:
  assumes "ideal_measurement p bl n y0 t" and "0 < p" and "0 \<le> bl" and "bl + 3 * p \<le> real n * p" and "0 < bt_pulseWidth t"
  shows "case ComputeBacklashPx e t of None \<Rightarrow> False
    | Some (px, ms, rate, rslt) \<Rightarrow>
        0.9 * bl - 0.3 * p \<le> px \<and> 0 \<le> px \<and> px \<le> bl \<and> rate = p / of_int (bt_pulseWidth t) \<and> ms = \<lfloor>px / rate\<rfloor> \<and>
        (bl < 0.7 * (real n * p) \<and> p * p \<le> 600 * of_int (bt_pulseWidth t) \<longrightarrow> rslt = MEASUREMENT_VALID)"
proof -
  define k where "k = nat \<lfloor>bl / p\<rfloor>"
  define r where "r = bl - real k * p"
  define w where "w = real_of_int (bt_pulseWidth t)"
  obtain xs where pos: "map (south_pos y0 p bl) [0..<Suc n] =
      y0 # replicate k y0 @ (y0 - (p - r)) # (y0 - (2 * p - r)) # (y0 - (3 * p - r)) # xs" and r: "0 \<le> r" "r < p"
    using south_positions [OF assms(2-4), of y0] unfolding k_def [symmetric] r_def [symmetric] by blast
  define q where "q = (if r \<le> 0.1 * p then real (k + 2) * (0.9 * p) - (2 * p - r) else real (k + 3) * (0.9 * p) - (3 * p - r))"
  define px where "px = max 0 q"
  have "3 * p \<le> real n * p" using assms(3,4) by simp
  then have n: "3 \<le> n" using assms(2) by (simp add: mult_le_cancel_right)
  have w: "0 < w" "1 \<le> w" using assms(5) by (simp_all add: w_def)
  obtain st where st: "bt_northStats t = north_stats st p n" using assms(1) by (auto simp: ideal_measurement_def)
  have c: "as_GetCount (bt_northStats t) = n" "sumY (bt_northStats t) = real n * p" "as_GetMedian (bt_northStats t) = p"
    using north_stats_summary [of n st p] n by (simp_all add: st)
  have nr: "\<bar>(real n * p) / (of_int (int n * bt_pulseWidth t))\<bar> = p / w" using n w assms(2) by (simp add: w_def abs_mult)
  have nz: "(of_int (int n * bt_pulseWidth t) :: real) \<noteq> 0" using n assms(5) by simp
  define z where "z = real k * p"
  have z: "0 \<le> z" using assms(2) by (simp add: z_def)
  have bl: "bl = z + r" by (simp add: r_def z_def)
  have q': "q = 0.9 * z + r - (if r \<le> 0.1 * p then 0.2 * p else 0.3 * p)"
    unfolding q_def z_def by (simp add: field_simps)
  have "0.9 * bl - 0.3 * p \<le> q \<and> q \<le> bl \<and> - 0.3 * p \<le> q"
  proof (cases "r \<le> 0.1 * p")
    case True
    then have "q = 0.9 * z + r - 0.2 * p" by (simp only: q' if_True)
    then show ?thesis using True r z bl assms(2) by (intro conjI; linarith)
  next
    case False
    then have "q = 0.9 * z + r - 0.3 * p" by (simp only: q' if_False)
    then show ?thesis using False r z bl assms(2) by (intro conjI; linarith)
  qed
  then have q: "0.9 * bl - 0.3 * p \<le> q" "q \<le> bl" "- 0.3 * p \<le> q" by blast+
  define rslt where "rslt = (if q * (p / w) < -200 then MEASUREMENT_SANITY
      else if q \<ge> 0.7 * (real n * p) then MEASUREMENT_TOO_FEW_NORTH else MEASUREMENT_VALID)"
  have loop: "south_loop (0.9 * p) 0 (p / w) (real n * p) 1 0 0 0 y0 (replicate k y0 @ (y0 - (p - r)) # (y0 - (2 * p - r)) #
      (y0 - (3 * p - r)) # xs) = (px, rslt)"
    using south_loop_dead [of "0.9 * p" 0 "p / w" "real n * p" 1 0 y0 k] south_loop_ideal [OF assms(2) r, of "p / w" "real n * p" k y0 xs] assms(2)
    by (simp add: q_def px_def rslt_def Let_def add.commute)
  have "ComputeBacklashPx e t = Some (px, int_of e (fdiv px (p / w)), p / w, rslt)"
    using assms(1,2) n nz nr loop unfolding ideal_measurement_def pos ComputeBacklashPx_def c Let_def
    by (simp add: fdiv_def abs_mult)
  moreover have "int_of e (fdiv px (p / w)) = \<lfloor>px / (p / w)\<rfloor>"
    using assms(2) w by (simp add: int_of_def trunc_def px_def)
  moreover have "rslt = MEASUREMENT_VALID" if "bl < 0.7 * (real n * p)" "p * p \<le> 600 * w"
  proof -
    have "- 0.3 * p * p \<le> q * p" using q(3) assms(2) by (intro mult_right_mono) simp_all
    then have "- 200 * w \<le> q * p" using that(2) w by simp
    then have "\<not> q * (p / w) < - 200" using w by (simp add: field_simps)
    then show ?thesis using that(1) q(2) by (simp add: rslt_def)
  qed
  ultimately show ?thesis using q assms(2,3) by (simp add: w_def px_def)
qed

theorem blt_measures_backlash_witness:
  "\<exists>t ms. ideal_measurement 5 10 16 0 t \<and>
    (\<exists>px. ComputeBacklashPx sample_blt_env t = Some (px, ms, 1 / 100, MEASUREMENT_VALID) \<and> 7.5 \<le> px \<and> px \<le> 10)"
proof -
  define t where "t = sample_tool\<lparr>bt_pulseWidth := 500, bt_northBLSteps := replicate 17 0,
      bt_northStats := north_stats (bt_northStats sample_tool) 5 16, bt_southBLSteps := map (south_pos 0 5 10) [0..<Suc 16]\<rparr>"
  have t: "ideal_measurement 5 10 16 0 t" "bt_pulseWidth t = 500"
    by (auto simp: ideal_measurement_def t_def sample_tool_def simp del: upt_Suc)
  show ?thesis
    using blt_measures_backlash [OF t(1), of sample_blt_env] t by (auto split: option.splits prod.splits)
qed

subsection \<open>Two oddities\<close>

text \<open>With at most three north positions the time of the backlash is a NaN converted to an \<open>int\<close>, and when this number happens
  to be positive it is sent as a test pulse.\<close>

lemma few_north_steps_garbage:
  "length (bt_northBLSteps t) \<le> 3 \<Longrightarrow> ComputeBacklashPx e t = Some (0, be_badInt e, 0, MEASUREMENT_TOO_FEW_NORTH)"
  by (simp add: ComputeBacklashPx_def int_of_def)

text \<open>When the star is already close to its start, the number of restore pulses is the one an earlier measurement left behind,
  or uninitialised: if it is positive, a needless pulse is sent.\<close>

lemma stale_restore_count:
  assumes "bt_stepCount t = 0" "\<bar>Y loc - Y (bt_startingPoint t)\<bar> \<le> of_int (be_maxMove e)" "0 < bt_restoreCount t"
  shows "\<exists>t'. restore_star e loc t = (BltBreak, t') \<and> bt_state t' = BLT_STATE_WRAPUP \<and>
    bt_trace t' = bt_trace t @ [BltMove SOUTH (bt_pulseWidth t)]"
  using assms by (simp add: restore_star_def blt_move_def Let_def)

end
