(* ===== verification/StarTracking.thy ===== *)
theory StarTracking
  imports Geometry
begin

text \<open>
  \<open>src/src/guiding/star.hpp\<close> and the checks of \<open>src/src/guiding/guider_multistar.cpp\<close> that decide whether the star found
  in a frame is believed: \<open>MassChecker\<close> compares its mass with the recent ones, \<open>DistanceChecker\<close> rejects jumps,
  but never for longer than five seconds at a stretch. Times are in milliseconds.
\<close>

subsection \<open>Stars\<close>

datatype find_result = STAR_OK | STAR_SATURATED | STAR_LOWSNR | STAR_LOWMASS | STAR_LOWHFD | STAR_HIHFD
  | STAR_TOO_NEAR_EDGE | STAR_MASSCHANGE | STAR_ERROR

record star = sodium_point +
  Mass :: real
  SNR :: real
  HFD :: real
  PeakVal :: "16 word"
  m_lastFindResult :: find_result

fun find_WasFound :: "find_result \<Rightarrow> bool" where
  "find_WasFound STAR_OK = True" | "find_WasFound STAR_SATURATED = True" | "find_WasFound _ = False"

definition star_WasFound :: "'a star_scheme \<Rightarrow> bool" where
  "star_WasFound s \<longleftrightarrow> m_valid s \<and> find_WasFound (m_lastFindResult s)"

definition star_Invalidate :: "'a star_scheme \<Rightarrow> 'a star_scheme" where
  "star_Invalidate s = s\<lparr>Mass := 0, SNR := 0, HFD := 0, m_lastFindResult := STAR_ERROR, m_valid := False\<rparr>"

definition SetError :: "find_result \<Rightarrow> 'a star_scheme \<Rightarrow> 'a star_scheme" where
  "SetError err s = s\<lparr>m_lastFindResult := err\<rparr>"

subsection \<open>\<open>MassChecker\<close>\<close>

record mass_checker =
  mc_data :: "(int \<times> real) list" \<comment> \<open>time and mass, oldest first\<close>
  mc_highMass :: real
  mc_lowMass :: real
  mc_timeWindow :: int
  mc_exposure :: int
  mc_isAutoExposure :: bool

definition MassChecker_new :: mass_checker where
  "MassChecker_new = \<lparr>mc_data = [], mc_highMass = 0, mc_lowMass = 9 * 10 ^ 99, mc_timeWindow = 22500 * 2, mc_exposure = 0,
     mc_isAutoExposure = False\<rparr>"

definition SetTimeWindow :: "u32 \<Rightarrow> mass_checker \<Rightarrow> mass_checker" where
  "SetTimeWindow milliseconds c = c\<lparr>mc_timeWindow := uint (milliseconds * 2)\<rparr>"

definition mc_Reset :: "mass_checker \<Rightarrow> mass_checker" where
  "mc_Reset c = c\<lparr>mc_data := [], mc_highMass := 0, mc_lowMass := 9 * 10 ^ 99\<rparr>"

definition SetExposure :: "int \<Rightarrow> bool \<Rightarrow> mass_checker \<Rightarrow> mass_checker" where
  "SetExposure expo isAutoExp c =
    (if isAutoExp \<noteq> mc_isAutoExposure c then mc_Reset (c\<lparr>mc_isAutoExposure := isAutoExp, mc_exposure := expo\<rparr>)
     else if expo \<noteq> mc_exposure c
          then let c = c\<lparr>mc_exposure := expo\<rparr> in if \<not> mc_isAutoExposure c then mc_Reset c else c
     else c)"

definition AdjustedMass :: "real \<Rightarrow> mass_checker \<Rightarrow> real option" where
  "AdjustedMass mass c = (if mc_isAutoExposure c then fdiv mass (of_int (mc_exposure c)) else Some mass)"

definition AppendData :: "int \<Rightarrow> real \<Rightarrow> mass_checker \<Rightarrow> mass_checker option" where
  \<comment> \<open>\<^term>\<open>None\<close>: an exposure of zero\<close>
  "AppendData now mass c =
    (let oldest = now - mc_timeWindow c
     in case AdjustedMass mass c of None \<Rightarrow> None
        | Some m \<Rightarrow> Some (c\<lparr>mc_data := dropWhile (\<lambda>e. fst e < oldest) (mc_data c) @ [(now, m)]\<rparr>))"

definition mass_median :: "mass_checker \<Rightarrow> real" where
  \<comment> \<open>\<open>std::nth_element\<close> at half the size\<close>
  "mass_median c = sort (map snd (mc_data c)) ! (length (mc_data c) div 2)"

definition update_marks :: "real \<Rightarrow> mass_checker \<Rightarrow> mass_checker" where
  \<comment> \<open>the low-water mark drifts towards the median\<close>
  "update_marks med c =
    (let low = (if med < mc_lowMass c then med else mc_lowMass c)
     in c\<lparr>mc_highMass := (if med > mc_highMass c then med else mc_highMass c), mc_lowMass := low + 0.05 * (med - low)\<rparr>)"

definition CheckMass :: "real \<Rightarrow> real \<Rightarrow> mass_checker \<Rightarrow> (mass_checker \<times> bool \<times> real list) option" where
  \<comment> \<open>the flag to reject the star, and the four limits, none when there are too few data\<close>
  "CheckMass mass threshold c =
    (if length (mc_data c) < 5 then Some (c, False, [])
     else
       let med = mass_median c; c = update_marks med c;
           l0 = mc_lowMass c * (1 - threshold); l2 = mc_highMass c * (1 + threshold); l3 = med * (1 + 2 * threshold);
           limits = [l0, med, l2, l3]
       in case AdjustedMass mass c of None \<Rightarrow> None
          | Some adjmass \<Rightarrow>
              let reject = (adjmass < l0 \<or> adjmass > l2 \<or> adjmass > l3)
              in Some (c, reject, if reject \<and> mc_isAutoExposure c then map (\<lambda>l. l * of_int (mc_exposure c)) limits else limits))"

text \<open>The watermarks enclose the median, so a star of median mass is never rejected for any non-negative threshold.\<close>

definition mc_ok :: "mass_checker \<Rightarrow> bool" where
  "mc_ok c \<longleftrightarrow> 0 \<le> mc_highMass c"

lemma mc_ops_ok:
  "mc_ok MassChecker_new" "mc_ok (mc_Reset c)" "mc_ok c \<Longrightarrow> mc_ok (SetTimeWindow w c)" "mc_ok c \<Longrightarrow> mc_ok (SetExposure n a c)"
  "mc_ok c \<Longrightarrow> AppendData t m c = Some c' \<Longrightarrow> mc_ok c'" "mc_ok c \<Longrightarrow> CheckMass m th c = Some (c', r, ls) \<Longrightarrow> mc_ok c'"
  by (auto simp: mc_ok_def MassChecker_new_def mc_Reset_def SetTimeWindow_def SetExposure_def AppendData_def CheckMass_def update_marks_def Let_def
      split: option.splits if_splits)

lemma median_mass_accepted:
  assumes "AdjustedMass mass c = Some (mass_median c)" "CheckMass mass th c = Some (c', r, ls)" "0 \<le> th" "0 \<le> mass_median c"
    "th \<le> 1" "mc_ok c"
  shows "\<not> r"
proof -
  let ?m = "mass_median c" and ?c = "update_marks (mass_median c) c"
  have lo: "mc_lowMass ?c \<le> ?m" and hi: "?m \<le> mc_highMass ?c" "0 \<le> mc_highMass ?c"
    using assms(4,6) by (auto simp: update_marks_def mc_ok_def Let_def field_simps)
  have "mc_lowMass ?c * (1 - th) \<le> ?m * (1 - th)" using lo assms(5) by (intro mult_right_mono) simp_all
  also have "\<dots> \<le> ?m" using assms(3,4) by (simp add: mult_left_le)
  finally have a: "mc_lowMass ?c * (1 - th) \<le> ?m" .
  have "mc_highMass ?c * 1 \<le> mc_highMass ?c * (1 + th)" using hi(2) assms(3) by (intro mult_left_mono) simp_all
  then have b: "?m \<le> mc_highMass ?c * (1 + th)" using hi(1) by simp
  have "?m * 1 \<le> ?m * (1 + 2 * th)" using assms(3,4) by (intro mult_left_mono) simp_all
  moreover have "AdjustedMass mass ?c = Some ?m"
    using assms(1) by (auto simp: update_marks_def AdjustedMass_def Let_def split: if_splits)
  ultimately show ?thesis using assms(2) a b by (auto simp: CheckMass_def Let_def split: if_splits)
qed

subsection \<open>\<open>DistanceChecker\<close>\<close>

datatype checker_state = ST_GUIDING | ST_WAITING | ST_RECOVERING

record distance_checker =
  dc_state :: checker_state
  dc_expires :: int
  dc_forceTolerance :: real

definition WAIT_INTERVAL_MS :: int where "WAIT_INTERVAL_MS = 5000"

definition DistanceChecker_new :: distance_checker where
  \<comment> \<open>a static object: the members the constructor leaves alone are zero\<close>
  "DistanceChecker_new = \<lparr>dc_state = ST_GUIDING, dc_expires = 0, dc_forceTolerance = 0\<rparr>"

definition Activate :: "int \<Rightarrow> distance_checker \<Rightarrow> distance_checker" where
  "Activate now d =
    (if dc_state d = ST_GUIDING
     then d\<lparr>dc_state := ST_WAITING, dc_expires := now + WAIT_INTERVAL_MS, dc_forceTolerance := 2\<rparr> else d)"

record error_stats =
  es_guiding :: bool
  es_paused :: bool
  es_settling :: bool
  es_frameCount :: nat \<comment> \<open>\<open>CurrentErrorFrameCount\<close>\<close>
  es_smoothed :: real \<comment> \<open>\<open>CurrentErrorSmoothed\<close>\<close>

definition check_distance :: "error_stats \<Rightarrow> real \<Rightarrow> real \<Rightarrow> bool" where
  \<comment> \<open>\<open>_CheckDistance\<close>\<close>
  "check_distance e dst tolerance =
    (if \<not> es_guiding e \<or> es_paused e \<or> es_settling e \<or> es_frameCount e < 10 then True
     else \<not> dst > tolerance * es_smoothed e)"

definition CheckDistance :: "int \<Rightarrow> error_stats \<Rightarrow> real \<Rightarrow> real \<Rightarrow> distance_checker \<Rightarrow> distance_checker \<times> bool" where
  "CheckDistance now e dst tolerance d =
    (let tolerance = (if dc_forceTolerance d \<noteq> 0 then dc_forceTolerance d else tolerance);
         small_offset = check_distance e dst tolerance;
         recovering = (\<lambda>d. (if small_offset then d\<lparr>dc_state := ST_GUIDING\<rparr> else d, True))
     in case dc_state d of
          ST_GUIDING \<Rightarrow> if small_offset then (d, True)
            else (d\<lparr>dc_state := ST_WAITING, dc_expires := now + WAIT_INTERVAL_MS\<rparr>, False)
        | ST_WAITING \<Rightarrow> if small_offset then (d\<lparr>dc_state := ST_GUIDING, dc_forceTolerance := 0\<rparr>, True)
            else if now < dc_expires d then (d, False)
            else recovering (d\<lparr>dc_state := ST_RECOVERING\<rparr>)
        | ST_RECOVERING \<Rightarrow> recovering d)"

text \<open>A run of the checker: frames in which the star was lost (\<open>Activate\<close>), or found at some distance.\<close>

datatype dist_frame = FrameLost int | FrameFound int error_stats real real

fun frame_time :: "dist_frame \<Rightarrow> int" where
  "frame_time (FrameLost t) = t" | "frame_time (FrameFound t _ _ _) = t"

fun dist_run :: "dist_frame list \<Rightarrow> distance_checker \<Rightarrow> (int \<times> bool option) list" where
  \<comment> \<open>the time and, for a star that was found, whether it was accepted\<close>
  "dist_run [] d = []"
| "dist_run (FrameLost t # fs) d = (t, None) # dist_run fs (Activate t d)"
| "dist_run (FrameFound t e dst tol # fs) d =
    (case CheckDistance t e dst tol d of (d, ok) \<Rightarrow> (t, Some ok) # dist_run fs d)"

lemma CheckDistance_rejects:
  assumes "CheckDistance t e x tol d = (d', False)"
  shows "dc_state d' = ST_WAITING" "dc_state d = ST_GUIDING \<Longrightarrow> dc_expires d' = t + 5000"
    "dc_state d = ST_WAITING \<Longrightarrow> d' = d \<and> t < dc_expires d" "dc_state d \<noteq> ST_RECOVERING"
  using assms by (auto simp: CheckDistance_def WAIT_INTERVAL_MS_def Let_def split: checker_state.splits if_splits)

text \<open>While the checker waits, it rejects only before its deadline.\<close>

lemma waiting_rejects:
  assumes "dist_run fs d = mid @ (t, Some False) # post" "\<forall>x\<in>set mid. snd x \<noteq> Some True"
    and "dc_state d = ST_WAITING" "dc_expires d \<le> b"
  shows "t < b"
  using assms
proof (induction fs arbitrary: d mid)
  case (Cons f fs)
  show ?case
  proof (cases f)
    case (FrameLost u)
    have d: "Activate u d = d" using Cons.prems(3) by (simp add: Activate_def)
    obtain mid' where "mid = (u, None) # mid'" "dist_run fs d = mid' @ (t, Some False) # post"
      using Cons.prems(1) by (cases mid) (auto simp: FrameLost d)
    then show ?thesis using Cons.IH Cons.prems(2-4) by auto
  next
    case (FrameFound u e x tol)
    obtain d' ok where c: "CheckDistance u e x tol d = (d', ok)" by fastforce
    have "\<not> ok" using Cons.prems(1,2) by (cases mid) (auto simp: FrameFound c)
    then have d': "d' = d" "u < dc_expires d" using CheckDistance_rejects(3) [OF _ Cons.prems(3)] c by simp_all
    show ?thesis
    proof (cases mid)
      case Nil
      then show ?thesis using Cons.prems(1,4) d' by (simp add: FrameFound c)
    next
      case (Cons m mid')
      then have "dist_run fs d = mid' @ (t, Some False) # post" using Cons.prems(1) d' by (simp add: FrameFound c)
      then show ?thesis using Cons.IH Cons.prems(2-4) Cons by auto
    qed
  qed
qed simp

definition dc_ok :: "int \<Rightarrow> distance_checker \<Rightarrow> bool" where
  "dc_ok t d \<longleftrightarrow> (dc_state d = ST_WAITING \<longrightarrow> dc_expires d \<le> t + 5000)"

lemma dc_ok_step:
  "dc_ok t0 d \<Longrightarrow> t0 \<le> t \<Longrightarrow> dc_ok t (Activate t d)"
  "dc_ok t0 d \<Longrightarrow> t0 \<le> t \<Longrightarrow> CheckDistance t e x tol d = (d', ok) \<Longrightarrow> dc_ok t d'"
  by (auto simp: dc_ok_def Activate_def CheckDistance_def WAIT_INTERVAL_MS_def Let_def split: checker_state.splits if_splits)

text \<open>C22: A jump of the star is rejected for less than five seconds at a stretch: in any sequence of frames with a
  running clock, frames in which the star was found but not believed, with no accepted frame in between, span less
  than 5000 milliseconds, whether or not the star was lost in other frames between them.\<close>
theorem rejection_is_bounded:
  assumes "dist_run fs DistanceChecker_new = pre @ (t0, Some False) # mid @ (t1, Some False) # post"
    and "\<forall>x\<in>set mid. snd x \<noteq> Some True" and "sorted (map frame_time fs)"
  shows "t1 < t0 + 5000"
proof -
  have "t1 < t0 + 5000" if "dist_run fs d = pre @ (t0, Some False) # mid @ (t1, Some False) # post"
    "sorted (u # map frame_time fs)" "dc_ok u d" for u d
    using that
  proof (induction fs arbitrary: u d pre)
    case (Cons f fs)
    show ?case
    proof (cases f)
      case (FrameLost v)
      obtain pre' where "pre = (v, None) # pre'" "dist_run fs (Activate v d) = pre' @ (t0, Some False) # mid @ (t1, Some False) # post"
        using Cons.prems(1) by (cases pre) (auto simp: FrameLost)
      moreover have "dc_ok v (Activate v d)" using dc_ok_step(1) [OF Cons.prems(3)] Cons.prems(2) by (simp add: FrameLost)
      ultimately show ?thesis using Cons.IH [of "Activate v d" pre' v] Cons.prems(2) by (simp add: FrameLost)
    next
      case (FrameFound v e x tol)
      obtain d' ok where c: "CheckDistance v e x tol d = (d', ok)" by fastforce
      have ok': "dc_ok v d'" using dc_ok_step(2) [OF Cons.prems(3) _ c] Cons.prems(2) by (simp add: FrameFound)
      show ?thesis
      proof (cases pre)
        case Nil
        then have r: "\<not> ok" "v = t0" "dist_run fs d' = mid @ (t1, Some False) # post"
          using Cons.prems(1) by (simp_all add: FrameFound c)
        then have "dc_state d' = ST_WAITING" using CheckDistance_rejects(1) c by simp
        then show ?thesis using waiting_rejects [OF r(3) assms(2)] ok' r(2) by (simp add: dc_ok_def)
      next
        case (Cons m pre')
        then have "dist_run fs d' = pre' @ (t0, Some False) # mid @ (t1, Some False) # post"
          using Cons.prems(1) by (simp add: FrameFound c)
        then show ?thesis using Cons.IH [of d' pre' v] Cons.prems(2) ok' by (simp add: FrameFound)
      qed
    qed
  qed simp
  moreover have "sorted (Min (insert 0 (set (map frame_time fs))) # map frame_time fs)" using assms(3) by simp
  moreover have "dc_ok u DistanceChecker_new" for u by (simp add: dc_ok_def DistanceChecker_new_def)
  ultimately show ?thesis using assms(1) by blast
qed

theorem rejection_is_bounded_witness:
  "dist_run (map (\<lambda>t. FrameFound t \<lparr>es_guiding = True, es_paused = False, es_settling = False, es_frameCount = 20, es_smoothed = 1\<rparr> 10 4)
     [0, 2000, 4999, 5000]) DistanceChecker_new = [(0, Some False), (2000, Some False), (4999, Some False), (5000, Some True)] \<and>
   (4999::int) < 0 + 5000"
proof -
  let ?fs = "map (\<lambda>t. FrameFound t \<lparr>es_guiding = True, es_paused = False, es_settling = False, es_frameCount = 20, es_smoothed = 1\<rparr> 10 4)
     [0, 2000, 4999, 5000]"
  have r: "dist_run ?fs DistanceChecker_new = [] @ (0, Some False) # [(2000, Some False)] @ (4999, Some False) # [(5000, Some True)]"
    by (simp add: DistanceChecker_new_def CheckDistance_def check_distance_def WAIT_INTERVAL_MS_def)
  have "(4999::int) < 0 + 5000" by (rule rejection_is_bounded [OF r]) simp_all
  then show ?thesis using r by simp
qed

text \<open>The tolerance forced when the star was lost survives a recovery that took longer than the wait: from then on
  jumps are rejected even when the user tolerates them all (a tolerance of \<open>9e99\<close>).\<close>

lemma forced_tolerance_persists:
  assumes "es_guiding e" "\<not> es_paused e" "\<not> es_settling e" "10 \<le> es_frameCount e" "0 < es_smoothed e"
  defines "far \<equiv> 3 * es_smoothed e"
  shows "let d = Activate 0 DistanceChecker_new;
             d = fst (CheckDistance 6000 e far (9 * 10 ^ 99) d);
             d = fst (CheckDistance 7000 e 0 (9 * 10 ^ 99) d)
         in dc_state d = ST_GUIDING \<and> \<not> snd (CheckDistance 8000 e far (9 * 10 ^ 99) d)"
  using assms by (simp add: Activate_def DistanceChecker_new_def CheckDistance_def check_distance_def WAIT_INTERVAL_MS_def)

end
