(* ===== verification/Images.thy ===== *)
theory Images
  imports Prelude
begin

text \<open>
  \<open>src/src/image/usImage.cpp\<close> and the filters of \<open>src/src/image/image_math.cpp\<close>: 16-bit images stored row by row,
  their statistics, the 3x3 median, the sliding-window median, luminance reconstruction, pixel squaring, dark
  subtraction and the repair of defective pixels. The small medians are unrolled selection networks in the code; here
  each is the same sequence of compare-and-swap steps, rolled up into a fold.
\<close>

subsection \<open>Medians of a few pixels\<close>

type_synonym u16 = "16 word"

fun keep_smallest :: "u16 \<Rightarrow> u16 list \<Rightarrow> u16 list" where
  \<comment> \<open>\<open>if (x < l0) swap(x, l0); if (x < l1) swap(x, l1); ...\<close>\<close>
  "keep_smallest x [] = []"
| "keep_smallest x (l # ls) = (if x < l then x # keep_smallest l ls else l # keep_smallest x ls)"

fun keep_largest :: "u16 \<Rightarrow> u16 list \<Rightarrow> u16 list" where
  \<comment> \<open>\<open>if (x > l0) swap(x, l0); if (x > l1) swap(x, l1)\<close>\<close>
  "keep_largest x [] = []"
| "keep_largest x (l # ls) = (if x > l then x # keep_largest l ls else l # keep_largest x ls)"

definition max_of :: "u16 list \<Rightarrow> u16" where
  \<comment> \<open>\<open>if (l1 > l0) l0 = l1; if (l2 > l0) l0 = l2; ...\<close>\<close>
  "max_of ls = foldl (\<lambda>l0 l. if l > l0 then l else l0) (hd ls) (tl ls)"

definition mean_top2 :: "u16 list \<Rightarrow> u16" where
  "mean_top2 ls =
    (let top = foldl (\<lambda>t x. keep_largest x t) (take 2 ls) (drop 2 ls)
     in ucast (((ucast (top ! 0) :: u32) + ucast (top ! 1)) div 2))"

definition smallest_of :: "nat \<Rightarrow> u16 list \<Rightarrow> u16 list" where
  "smallest_of k l = foldl (\<lambda>ls x. keep_smallest x ls) (take k l) (drop k l)"

definition median9 :: "u16 list \<Rightarrow> u16" where "median9 l = max_of (smallest_of 5 l)"
definition median8 :: "u16 list \<Rightarrow> u16" where "median8 l = mean_top2 (smallest_of 5 l)"
definition median6 :: "u16 list \<Rightarrow> u16" where "median6 l = mean_top2 (smallest_of 4 l)"
definition median5 :: "u16 list \<Rightarrow> u16" where "median5 l = max_of (smallest_of 3 l)"
definition median4 :: "u16 list \<Rightarrow> u16" where "median4 l = mean_top2 (smallest_of 3 l)"
definition median3 :: "u16 list \<Rightarrow> u16" where "median3 l = max_of (smallest_of 2 l)"

definition median_of :: "u16 list \<Rightarrow> u16" where
  \<comment> \<open>specification: the middle of the sorted values, for an even number the mean of the two in the middle\<close>
  "median_of xs =
    (let s = sort xs; h = length xs div 2
     in if odd (length xs) then s ! h else of_nat ((unat (s ! (h - 1)) + unat (s ! h)) div 2))"

lemma keep_smallest_drops_max: "\<exists>m. mset (x # ls) = add_mset m (mset (keep_smallest x ls)) \<and> (\<forall>y\<in>set (x # ls). y \<le> m)"
proof (induction ls arbitrary: x)
  case (Cons l ls)
  obtain m where m: "mset ((if x < l then l else x) # ls) = add_mset m (mset (keep_smallest (if x < l then l else x) ls))"
    "\<forall>y\<in>set ((if x < l then l else x) # ls). y \<le> m" using Cons by blast
  then show ?case by (intro exI [of _ m]) (auto simp: add_mset_commute)
qed simp

lemma keep_largest_drops_min: "\<exists>m. mset (x # ls) = add_mset m (mset (keep_largest x ls)) \<and> (\<forall>y\<in>set (x # ls). m \<le> y)"
proof (induction ls arbitrary: x)
  case (Cons l ls)
  obtain m where m: "mset ((if x > l then l else x) # ls) = add_mset m (mset (keep_largest (if x > l then l else x) ls))"
    "\<forall>y\<in>set ((if x > l then l else x) # ls). m \<le> y" using Cons by blast
  then show ?case by (intro exI [of _ m]) (auto simp: add_mset_commute)
qed simp

lemma sort_keep_smallest: "sort (keep_smallest x ls) = butlast (sort (x # ls))"
proof -
  obtain m where m: "mset (x # ls) = add_mset m (mset (keep_smallest x ls))" "\<forall>y\<in>set (x # ls). y \<le> m"
    using keep_smallest_drops_max by blast
  have "set (keep_smallest x ls) \<subseteq> set (x # ls)" using m(1) by (metis set_mset_mset subset_insertI set_mset_add_mset_insert)
  then have "sorted (sort (keep_smallest x ls) @ [m])" using m(2) by (auto simp: sorted_append)
  moreover have "mset (sort (keep_smallest x ls) @ [m]) = mset (x # ls)" using m(1) by simp
  ultimately have "sort (x # ls) = sort (keep_smallest x ls) @ [m]" by (metis properties_for_sort)
  then show ?thesis by simp
qed

lemma sort_keep_largest: "sort (keep_largest x ls) = tl (sort (x # ls))"
proof -
  obtain m where m: "mset (x # ls) = add_mset m (mset (keep_largest x ls))" "\<forall>y\<in>set (x # ls). m \<le> y"
    using keep_largest_drops_min by blast
  have "set (keep_largest x ls) \<subseteq> set (x # ls)" using m(1) by (metis set_mset_mset subset_insertI set_mset_add_mset_insert)
  then have "sorted (m # sort (keep_largest x ls))" using m(2) by auto
  moreover have "mset (m # sort (keep_largest x ls)) = mset (x # ls)" using m(1) by simp
  ultimately have "sort (x # ls) = m # sort (keep_largest x ls)" by (metis properties_for_sort)
  then show ?thesis by simp
qed

lemma butlast_insort_take:
  "sorted zs \<Longrightarrow> k \<le> length zs \<Longrightarrow> butlast (insort x (take k zs)) = take k (insort (x::'a::linorder) zs)"
proof (induction zs arbitrary: k)
  case (Cons z zs)
  show ?case
  proof (cases k)
    case (Suc j)
    have "insort x (take j zs) \<noteq> []" by (metis length_0_conv length_insort nat.simps(3))
    then show ?thesis using Cons Suc by (auto simp: take_Cons' butlast_take)
  qed simp
qed simp

lemma tl_insort_drop: "sorted zs \<Longrightarrow> tl (insort x (drop k zs)) = drop (Suc k) (insort (x::'a::linorder) zs)"
proof (induction zs arbitrary: k)
  case (Cons z zs)
  show ?case
  proof (cases k)
    case (Suc j)
    show ?thesis
    proof (cases "x \<le> z")
      case True
      then have "\<forall>y\<in>set (drop j zs). x \<le> y" using Cons.prems by (auto dest!: in_set_dropD)
      then have "insort x (drop j zs) = x # drop j zs" by (simp add: insort_is_Cons)
      then show ?thesis using True Suc by simp
    qed (use Cons Suc in simp)
  qed simp
qed simp

lemma sort_mset_cong: "mset xs = mset ys \<Longrightarrow> sort xs = sort (ys :: 'a::linorder list)"
  by (metis sorted_list_of_multiset_mset)

lemma sort_snoc: "sort (ys @ [x]) = insort x (sort (ys :: 'a::linorder list))"
  using sort_mset_cong [of "ys @ [x]" "x # ys"] by simp

lemma sort_fold_smallest:
  "sort ls = take (length ls) (sort ys) \<Longrightarrow> length ls \<le> length ys \<Longrightarrow>
   sort (foldl (\<lambda>ls x. keep_smallest x ls) ls xs) = take (length ls) (sort (ys @ xs))"
proof (induction xs arbitrary: ls ys)
  case (Cons x xs)
  have l: "length (keep_smallest x ls) = length ls" for x ls by (induction ls arbitrary: x) auto
  have "sort (keep_smallest x ls) = take (length ls) (sort (ys @ [x]))"
    using Cons.prems by (simp add: sort_keep_smallest butlast_insort_take sort_snoc)
  then show ?case using Cons.IH [of "keep_smallest x ls" "ys @ [x]"] Cons.prems(2) by (simp add: l)
qed simp

lemma sort_fold_largest:
  "sort ls = drop (length ys - length ls) (sort ys) \<Longrightarrow> length ls \<le> length ys \<Longrightarrow>
   sort (foldl (\<lambda>ls x. keep_largest x ls) ls xs) = drop (length ys + length xs - length ls) (sort (ys @ xs))"
proof (induction xs arbitrary: ls ys)
  case (Cons x xs)
  have l: "length (keep_largest x ls) = length ls" for x ls by (induction ls arbitrary: x) auto
  have "sort (keep_largest x ls) = drop (length (ys @ [x]) - length ls) (sort (ys @ [x]))"
    using Cons.prems by (simp add: sort_keep_largest tl_insort_drop sort_snoc Suc_diff_le)
  then show ?case using Cons.IH [of "keep_largest x ls" "ys @ [x]"] Cons.prems(2) by (simp add: l)
qed simp

lemma sort_smallest_of: "k \<le> length l \<Longrightarrow> sort (smallest_of k l) = take k (sort l)"
  using sort_fold_smallest [of "take k l" "take k l" "drop k l"] by (simp add: smallest_of_def)

lemma length_smallest_of: "k \<le> length l \<Longrightarrow> length (smallest_of k l) = k"
  using arg_cong [OF sort_smallest_of, of k l length] by simp

lemma last_sort: "ls \<noteq> [] \<Longrightarrow> last (sort ls) = Max (set (ls :: 'a::linorder list))"
proof -
  have "sorted zs \<Longrightarrow> zs \<noteq> [] \<Longrightarrow> last zs = Max (set zs)" for zs :: "'a list"
  proof (induction zs)
    case (Cons z zs)
    then show ?case by (cases "zs = []") (auto simp: max_def)
  qed simp
  from this [of "sort ls"] show "ls \<noteq> [] \<Longrightarrow> ?thesis" by (metis set_empty set_sort sorted_sort)
qed

lemma max_of_sort: "ls \<noteq> [] \<Longrightarrow> max_of ls = last (sort ls)"
proof -
  have "(\<lambda>l0 l. if l > l0 then l else l0) = (max :: u16 \<Rightarrow> u16 \<Rightarrow> u16)" by (auto simp: max_def fun_eq_iff)
  moreover have "foldl max a zs = fold max zs a" for a :: u16 and zs by (induction zs arbitrary: a) (simp_all add: max.commute)
  ultimately show "ls \<noteq> [] \<Longrightarrow> ?thesis"
    by (cases ls) (simp_all add: max_of_def last_sort Max.set_eq_fold del: sort_key_simps list.set)
qed

lemma mean_top2_sort:
  assumes "2 \<le> length ls"
  shows "mean_top2 ls = of_nat ((unat (sort ls ! (length ls - 2)) + unat (sort ls ! (length ls - 1))) div 2)"
proof -
  define top where "top = foldl (\<lambda>t x. keep_largest x t) (take 2 ls) (drop 2 ls)"
  have s: "sort top = drop (length ls - 2) (sort ls)"
    using sort_fold_largest [of "take 2 ls" "take 2 ls" "drop 2 ls"] assms by (simp add: top_def)
  have "length top = length (drop (length ls - 2) (sort ls))" by (metis s length_sort)
  then have l: "length top = 2" using assms by simp
  have st: "sort ls ! (length ls - 2) = sort top ! 0" "sort ls ! (length ls - 1) = sort top ! 1"
    unfolding s using assms by (simp_all add: numeral_2_eq_2 Suc_diff_Suc)
  obtain a b where top: "top = [a, b]" using l by (auto simp: length_Suc_conv numeral_2_eq_2)
  have sum: "unat (sort top ! 0) + unat (sort top ! 1) = unat a + unat b" by (simp add: top)
  have "unat a < 2 ^ 16" "unat b < 2 ^ 16" by (rule order_less_le_trans [OF unsigned_less], simp)+
  then have "unat (((ucast a :: u32) + ucast b) div 2) = (unat a + unat b) div 2"
    by (simp add: unat_div unat_word_ariths unsigned_ucast_eq take_bit_nat_eq_self)
  then have "ucast (((ucast a :: u32) + ucast b) div 2) = (of_nat ((unat a + unat b) div 2) :: u16)"
    by (metis of_nat_unat)
  then show ?thesis unfolding st sum by (simp add: mean_top2_def flip: top_def) (simp add: top)
qed

text \<open>The networks compute the median.\<close>

lemma medians_correct:
  "length l = 9 \<Longrightarrow> median9 l = median_of l" "length l = 8 \<Longrightarrow> median8 l = median_of l"
  "length l = 6 \<Longrightarrow> median6 l = median_of l" "length l = 5 \<Longrightarrow> median5 l = median_of l"
  "length l = 4 \<Longrightarrow> median4 l = median_of l" "length l = 3 \<Longrightarrow> median3 l = median_of l"
proof -
  have o: "max_of (smallest_of (Suc h) l) = median_of l" if "length l = Suc (2 * h)" for h
  proof -
    have "smallest_of (Suc h) l \<noteq> []" using length_smallest_of [of "Suc h" l] that by auto
    then have "max_of (smallest_of (Suc h) l) = last (take (Suc h) (sort l))"
      using that by (simp add: max_of_sort sort_smallest_of)
    then show ?thesis using that by (simp add: take_Suc_conv_app_nth median_of_def)
  qed
  have e: "mean_top2 (smallest_of (Suc h) l) = median_of l" if "length l = 2 * h" "0 < h" for h
    using that length_smallest_of [of "Suc h" l] mean_top2_sort [of "smallest_of (Suc h) l"]
    by (simp add: sort_smallest_of median_of_def Let_def)
  show "length l = 9 \<Longrightarrow> median9 l = median_of l" "length l = 5 \<Longrightarrow> median5 l = median_of l"
    "length l = 3 \<Longrightarrow> median3 l = median_of l"
    using o [of 4] o [of 2] o [of 1] by (simp_all add: median9_def median5_def median3_def eval_nat_numeral)
  show "length l = 8 \<Longrightarrow> median8 l = median_of l" "length l = 6 \<Longrightarrow> median6 l = median_of l"
    "length l = 4 \<Longrightarrow> median4 l = median_of l"
    using e [of 4] e [of 3] e [of 2] by (simp_all add: median8_def median6_def median4_def eval_nat_numeral)
qed

subsection \<open>Images\<close>

text \<open>\<open>wxRect\<close> and \<open>wxSize\<close> are plain coordinates; \<open>GetRight\<close> and \<open>GetBottom\<close> are the last column and row inside.\<close>

record rect =
  rX :: int
  rY :: int
  rW :: int
  rH :: int

definition rect_IsEmpty :: "rect \<Rightarrow> bool" where "rect_IsEmpty r \<longleftrightarrow> rW r \<le> 0 \<or> rH r \<le> 0"
definition rect_Right :: "rect \<Rightarrow> int" where "rect_Right r = rX r + rW r - 1"
definition rect_Bottom :: "rect \<Rightarrow> int" where "rect_Bottom r = rY r + rH r - 1"
definition rect_Contains :: "rect \<Rightarrow> int \<times> int \<Rightarrow> bool" where
  "rect_Contains r p \<longleftrightarrow> rX r \<le> fst p \<and> fst p < rX r + rW r \<and> rY r \<le> snd p \<and> snd p < rY r + rH r"

definition rect_Intersect :: "rect \<Rightarrow> rect \<Rightarrow> rect" where
  "rect_Intersect r s =
    (let x0 = max (rX r) (rX s); y0 = max (rY r) (rY s);
         w = min (rect_Right r) (rect_Right s) - x0 + 1; h = min (rect_Bottom r) (rect_Bottom s) - y0 + 1
     in if w \<le> 0 \<or> h \<le> 0 then \<lparr>rX = x0, rY = y0, rW = 0, rH = 0\<rparr> else \<lparr>rX = x0, rY = y0, rW = w, rH = h\<rparr>)"

record us_image =
  ImageData :: "u16 list"
  Width :: int
  Height :: int
  Subframe :: rect
  MinADU :: u16
  MaxADU :: u16
  MedianADU :: u16
  FiltMin :: u16
  FiltMax :: u16
  BitsPerPixel :: nat
  Pedestal :: u16

definition size_rect :: "us_image \<Rightarrow> rect" where
  \<comment> \<open>\<open>wxRect(Size)\<close>\<close>
  "size_rect img = \<lparr>rX = 0, rY = 0, rW = Width img, rH = Height img\<rparr>"

definition px :: "u16 list \<Rightarrow> int \<Rightarrow> int \<Rightarrow> int \<Rightarrow> u16" where
  \<comment> \<open>\<open>data[y * width + x]\<close>\<close>
  "px data w x y = data ! nat (y * w + x)"

definition image_ok :: "us_image \<Rightarrow> bool" where
  "image_ok img \<longleftrightarrow> 0 < Width img \<and> 0 < Height img \<and> int (length (ImageData img)) = Width img * Height img"

definition inside :: "rect \<Rightarrow> us_image \<Rightarrow> bool" where
  \<comment> \<open>a non-empty rectangle within the image\<close>
  "inside r img \<longleftrightarrow> 0 \<le> rX r \<and> 0 \<le> rY r \<and> 0 < rW r \<and> 0 < rH r \<and> rX r + rW r \<le> Width img \<and> rY r + rH r \<le> Height img"

fun put :: "nat \<Rightarrow> 'a list \<Rightarrow> 'a list \<Rightarrow> 'a list" where
  \<comment> \<open>\<open>*d++ = v\<close> for each of the values\<close>
  "put i [] dst = dst"
| "put i (v # vs) dst = put (Suc i) vs (dst[i := v])"

lemma length_put [simp]: "length (put i vs dst) = length dst"
  by (induction vs arbitrary: i dst) simp_all

lemma nth_put: "j < length dst \<Longrightarrow> put i vs dst ! j = (if i \<le> j \<and> j < i + length vs then vs ! (j - i) else dst ! j)"
  by (induction vs arbitrary: i dst) (auto simp: nth_Cons' nth_list_update Suc_le_eq)

subsection \<open>The 3x3 median\<close>

definition hood :: "u16 list \<Rightarrow> int \<Rightarrow> rect \<Rightarrow> int list \<Rightarrow> int list \<Rightarrow> u16 list" where
  \<comment> \<open>\<open>a[0] = src[IX(x, y)]; a[1] = ...\<close> for the given columns and rows of the rectangle\<close>
  "hood src w r xs ys = concat (map (\<lambda>y. map (\<lambda>x. px src w (rX r + x) (rY r + y)) xs) ys)"

definition median3_row :: "(u16 list \<Rightarrow> u16) \<Rightarrow> (u16 list \<Rightarrow> u16) \<Rightarrow> u16 list \<Rightarrow> int \<Rightarrow> rect \<Rightarrow> int list \<Rightarrow> u16 list" where
  \<comment> \<open>leftmost pixel, middle pixels, rightmost pixel\<close>
  "median3_row edge mid src w r ys =
    [edge (hood src w r [0, 1] ys)]
    @ map (\<lambda>x. mid (hood src w r [x - 1, x, x + 1] ys)) [1 .. rW r - 2]
    @ [edge (hood src w r [rW r - 2, rW r - 1] ys)]"

definition IX :: "int \<Rightarrow> rect \<Rightarrow> int \<Rightarrow> nat" where "IX w r y = nat ((rY r + y) * w + rX r)"

definition Median3_rect :: "u16 list \<Rightarrow> u16 list \<Rightarrow> int \<Rightarrow> rect \<Rightarrow> u16 list" where
  "Median3_rect dst src w r =
    (let dst = put (IX w r 0) (median3_row median4 median6 src w r [0, 1]) dst;
         dst = foldl (\<lambda>dst y. put (IX w r y) (median3_row median6 median9 src w r [y - 1, y, y + 1]) dst) dst [1 .. rH r - 2]
     in put (IX w r (rH r - 1)) (median3_row median4 median6 src w r [rH r - 2, rH r - 1]) dst)"

definition Median3 :: "us_image \<Rightarrow> u16 list \<Rightarrow> us_image" where
  \<comment> \<open>\<open>fresh\<close> is the new buffer, whatever it holds; pixels outside a subframe are cleared\<close>
  "Median3 img fresh =
    (if rect_IsEmpty (Subframe img)
     then img\<lparr>ImageData := Median3_rect fresh (ImageData img) (Width img) (size_rect img)\<rparr>
     else img\<lparr>ImageData := Median3_rect (map (\<lambda>_. 0) fresh) (ImageData img) (Width img) (Subframe img)\<rparr>)"

definition neighbours :: "u16 list \<Rightarrow> int \<Rightarrow> rect \<Rightarrow> int \<Rightarrow> int \<Rightarrow> u16 list" where
  \<comment> \<open>specification: the pixels of the rectangle at most one away from the one at column \<open>x\<close> and row \<open>y\<close> of it\<close>
  "neighbours src w r x y =
    hood src w r [max 0 (x - 1) .. min (rW r - 1) (x + 1)] [max 0 (y - 1) .. min (rH r - 1) (y + 1)]"

lemma length_hood [simp]: "length (hood src w r xs ys) = length xs * length ys"
  by (simp add: hood_def length_concat comp_def sum_list_triv mult.commute)

lemma upto_2 [simp]: "[a .. a + 1] = [a, a + 1]" for a :: int by (simp add: upto.simps)
lemma upto_3: "[a - 1 .. a + 1] = [a - 1, a, a + 1]" for a :: int by (simp add: upto.simps)

lemma nth_median3_row:
  assumes "0 \<le> x" "x < rW r" "2 \<le> rW r" "length ys = k"
    and "\<And>l. length l = 2 * k \<Longrightarrow> edge l = median_of l" "\<And>l. length l = 3 * k \<Longrightarrow> mid l = median_of l"
  shows "median3_row edge mid src w r ys ! nat x = median_of (hood src w r [max 0 (x - 1) .. min (rW r - 1) (x + 1)] ys)"
proof -
  consider "x = 0" | "1 \<le> x" "x \<le> rW r - 2" | "x = rW r - 1" using assms(1,2) by linarith
  then show ?thesis
  proof cases
    case 1
    then show ?thesis using assms upto_2 [of 0] by (simp add: median3_row_def)
  next
    case 2
    then have "[max 0 (x - 1) .. min (rW r - 1) (x + 1)] = [x - 1, x, x + 1]" 
      using upto_3 [of x] by (simp add: max_absorb2 min_absorb2)
    moreover have "nat x = Suc (nat (x - 1))" using 2 by simp
    ultimately show ?thesis using 2 assms by (simp add: median3_row_def nth_append)
  next
    case 3
    then have "[max 0 (x - 1) .. min (rW r - 1) (x + 1)] = [rW r - 2, rW r - 1]"
      using upto_2 [of "rW r - 2"] assms(3) by (simp add: max_def min_def)
    moreover have "nat x = Suc (length [1 .. rW r - 2])" using 3 assms(3) by simp
    ultimately show ?thesis using assms by (simp add: median3_row_def nth_append)
  qed
qed


definition idx :: "int \<Rightarrow> rect \<Rightarrow> int \<Rightarrow> int \<Rightarrow> nat" where "idx w r x y = nat ((rY r + y) * w + (rX r + x))"

lemma px_idx: "px data w (rX r + x) (rY r + y) = data ! idx w r x y"
  by (simp add: px_def idx_def)

lemma idx_less:
  assumes "inside r img" "image_ok img" "0 \<le> x" "x < rW r" "0 \<le> y" "y < rH r"
  shows "idx (Width img) r x y < length (ImageData img)"
proof -
  have "(rY r + y) * Width img + (rX r + x) < (rY r + y) * Width img + Width img" using assms by (auto simp: inside_def)
  also have "\<dots> = (rY r + y + 1) * Width img" by (simp add: algebra_simps)
  also have "\<dots> \<le> Height img * Width img" using assms by (intro mult_right_mono) (auto simp: inside_def image_ok_def)
  finally have "(rY r + y) * Width img + (rX r + x) < int (length (ImageData img))"
    using assms(2) by (simp add: image_ok_def mult.commute)
  moreover have "0 \<le> (rY r + y) * Width img + (rX r + x)" using assms by (auto simp: inside_def image_ok_def)
  ultimately show ?thesis by (simp add: idx_def)
qed

lemma row_order:
  assumes "0 \<le> (x :: int)" "x < w" "0 \<le> x'" "x' < w" "y < y'"
  shows "y * w + x < y' * w + x'"
proof -
  have "y * w + x < (y + 1) * w" using assms by (simp add: algebra_simps)
  also have "\<dots> \<le> y' * w" using assms by (intro mult_right_mono) auto
  also have "\<dots> \<le> y' * w + x'" using assms by simp
  finally show ?thesis .
qed

lemma nth_put_row:
  assumes "0 \<le> rX r" "0 \<le> rY r" "rX r + rW r \<le> w" "0 \<le> x" "x < rW r" "0 \<le> y" "0 \<le> y'"
    and "int (length vs) = rW r" "idx w r x y < length dst"
  shows "put (IX w r y') vs dst ! idx w r x y = (if y = y' then vs ! nat x else dst ! idx w r x y)"
proof -
  have nn: "0 \<le> (rY r + z) * w + (rX r + u)" if "0 \<le> z" "0 \<le> u" for z u using assms that by simp
  have i: "int (IX w r y') = (rY r + y') * w + rX r" using nn [of y' 0] assms by (simp add: IX_def)
  have j: "int (idx w r x y) = (rY r + y) * w + (rX r + x)" using nn [of y x] assms by (simp add: idx_def)
  consider "y = y'" | "y < y'" | "y' < y" by linarith
  then show ?thesis
  proof cases
    case 1
    have "idx w r x y = IX w r y' + nat x" using i j assms(4) unfolding 1 by linarith
    moreover have "nat x < length vs" using assms by linarith
    ultimately show ?thesis using 1 assms by (simp add: nth_put)
  next
    case 2
    then have "(rY r + y) * w + (rX r + x) < (rY r + y') * w + (rX r + 0)" using assms by (intro row_order) auto
    then have "idx w r x y < IX w r y'" using i j by linarith
    then show ?thesis using 2 assms by (simp add: nth_put)
  next
    case 3
    then have "(rY r + y') * w + (rX r + (rW r - 1)) < (rY r + y) * w + (rX r + x)" using assms by (intro row_order) auto
    then have "\<not> idx w r x y < IX w r y' + length vs" using i j assms(8) by linarith
    then show ?thesis using 3 assms by (simp add: nth_put)
  qed
qed

lemma nth_put_rows:
  assumes "0 \<le> rX r" "0 \<le> rY r" "rX r + rW r \<le> w" "0 \<le> x" "x < rW r" "0 \<le> y" "\<forall>y'\<in>set ys. 0 \<le> y'" "distinct ys"
    and "\<And>y. int (length (f y)) = rW r" "idx w r x y < length dst"
  shows "foldl (\<lambda>dst y. put (IX w r y) (f y) dst) dst ys ! idx w r x y = (if y \<in> set ys then f y ! nat x else dst ! idx w r x y)"
  using assms(7,8,10)
proof (induction ys arbitrary: dst)
  case (Cons a ys)
  then show ?case using assms(1-6,9) by (auto simp: nth_put_row)
qed simp

lemma length_put_rows [simp]: "length (foldl (\<lambda>dst y. put (i y) (f y) dst) dst ys) = length dst"
  by (induction ys arbitrary: dst) simp_all

lemma length_median3_row [simp]: "2 \<le> rW r \<Longrightarrow> int (length (median3_row e m src w r ys)) = rW r"
  by (simp add: median3_row_def)

lemma nth_Median3_rect:
  assumes "0 \<le> rX r" "0 \<le> rY r" "rX r + rW r \<le> w" "2 \<le> rW r" "2 \<le> rH r" "0 \<le> x" "x < rW r" "0 \<le> y" "y < rH r"
    and "idx w r x y < length dst"
  shows "Median3_rect dst src w r ! idx w r x y = median_of (neighbours src w r x y)"
proof -
  note row = nth_put_row [OF assms(1-3,6,7)] nth_put_rows [OF assms(1-3,6,7)]
  have corner: "median3_row median4 median6 src w r ys ! nat x = median_of (hood src w r [max 0 (x - 1) .. min (rW r - 1) (x + 1)] ys)"
    if "length ys = 2" for ys using nth_median3_row [OF assms(6,7,4) that] medians_correct by simp
  have middle: "median3_row median6 median9 src w r ys ! nat x = median_of (hood src w r [max 0 (x - 1) .. min (rW r - 1) (x + 1)] ys)"
    if "length ys = 3" for ys using nth_median3_row [OF assms(6,7,4) that] medians_correct by simp
  consider "y = 0" | "1 \<le> y" "y \<le> rH r - 2" | "y = rH r - 1" using assms(8,9) by linarith
  then show ?thesis
  proof cases
    case 1
    moreover have "[max 0 (y - 1) .. min (rH r - 1) (y + 1)] = [0, 1]" using 1 assms(5) upto_2 [of 0] by simp
    ultimately show ?thesis using assms by (simp add: Median3_rect_def Let_def row corner neighbours_def)
  next
    case 2
    moreover have "[max 0 (y - 1) .. min (rH r - 1) (y + 1)] = [y - 1, y, y + 1]"
      using 2 upto_3 [of y] by (simp add: max_absorb2 min_absorb2)
    ultimately show ?thesis using assms by (simp add: Median3_rect_def Let_def row middle neighbours_def)
  next
    case 3
    moreover have "[max 0 (y - 1) .. min (rH r - 1) (y + 1)] = [rH r - 2, rH r - 1]"
      using 3 assms(5) upto_2 [of "rH r - 2"] by (simp add: max_def min_def)
    ultimately show ?thesis using assms by (simp add: Median3_rect_def Let_def row corner neighbours_def)
  qed
qed

lemma put_row_outside:
  assumes "0 \<le> rX r" "0 \<le> rY r" "rX r + rW r \<le> w" "0 \<le> u" "u < w" "0 \<le> v" "0 \<le> y'" "y' < rH r" "0 < rW r"
    and "\<not> rect_Contains r (u, v)" "int (length vs) = rW r" "nat (v * w + u) < length d"
  shows "put (IX w r y') vs d ! nat (v * w + u) = d ! nat (v * w + u)"
proof -
  have i: "int (IX w r y') = (rY r + y') * w + rX r" "int (nat (v * w + u)) = v * w + u" using assms by (simp_all add: IX_def)
  have False if a: "IX w r y' \<le> nat (v * w + u)" "nat (v * w + u) < IX w r y' + length vs"
  proof -
    have b: "(rY r + y') * w + rX r \<le> v * w + u" "v * w + u < (rY r + y') * w + (rX r + rW r)" using a i assms(11) by linarith+
    consider "v = rY r + y'" | "v < rY r + y'" | "rY r + y' < v" by linarith
    then show False
    proof cases
      case 1
      then show False using b assms(4-10) by (auto simp: rect_Contains_def)
    next
      case 2
      then show False using row_order [of u w "rX r" v "rY r + y'"] b assms by linarith
    next
      case 3
      then show False using row_order [of "rX r + rW r - 1" w u "rY r + y'" v] b assms by linarith
    qed
  qed
  then show ?thesis using assms(12) by (auto simp: nth_put)
qed

lemma nth_Median3_outside:
  assumes "0 \<le> rX r" "0 \<le> rY r" "rX r + rW r \<le> w" "0 \<le> u" "u < w" "0 \<le> v" "2 \<le> rW r" "2 \<le> rH r"
    and "\<not> rect_Contains r (u, v)" "nat (v * w + u) < length dst"
  shows "Median3_rect dst src w r ! nat (v * w + u) = dst ! nat (v * w + u)"
proof -
  note row = put_row_outside [OF assms(1-6) _ _ _ assms(9)]
  have "foldl (\<lambda>dst y. put (IX w r y) (f y) dst) d ys ! nat (v * w + u) = d ! nat (v * w + u)"
    if "\<forall>y\<in>set ys. 0 \<le> y \<and> y < rH r" "\<And>y. int (length (f y)) = rW r" "nat (v * w + u) < length d" for ys f and d :: "u16 list"
    using that assms(7) by (induction ys arbitrary: d) (auto simp: row)
  then show ?thesis using assms(7,8,10) by (simp add: Median3_rect_def Let_def row)
qed

text \<open>C23: The 3x3 median filter is the reference filter: on a full frame each pixel becomes the median of the pixels at
  most one row and one column away (nine inside, six at an edge, four in a corner; of an even number the mean of the two
  in the middle, rounded down), whatever the new buffer held; with a subframe that holds inside the subframe, and
  every other pixel becomes zero.\<close>
theorem median3_is_median:
  assumes "image_ok img" "length fresh = length (ImageData img)"
    and "r = (if rect_IsEmpty (Subframe img) then size_rect img else Subframe img)"
    and "inside r img" "2 \<le> rW r" "2 \<le> rH r"
    and "0 \<le> u" "u < Width img" "0 \<le> v" "v < Height img"
  shows "px (ImageData (Median3 img fresh)) (Width img) u v =
    (if rect_Contains r (u, v) then median_of (neighbours (ImageData img) (Width img) r (u - rX r) (v - rY r)) else 0)"
proof -
  define dst where "dst = (if rect_IsEmpty (Subframe img) then fresh else map (\<lambda>_. 0) fresh)"
  have m: "ImageData (Median3 img fresh) = Median3_rect dst (ImageData img) (Width img) r"
    by (simp add: Median3_def assms(3) dst_def)
  have w: "0 \<le> rX r" "0 \<le> rY r" "rX r + rW r \<le> Width img" using assms(4) by (auto simp: inside_def)
  define x y where "x = u - rX r" and "y = v - rY r"
  then have uv: "u = rX r + x" "v = rY r + y" by simp_all
  show ?thesis
  proof (cases "rect_Contains r (u, v)")
    case True
    then have xy: "0 \<le> x" "x < rW r" "0 \<le> y" "y < rH r" by (auto simp: rect_Contains_def uv)
    have "idx (Width img) r x y < length dst" using idx_less [OF assms(4,1) xy] assms(2) by (simp add: dst_def)
    then show ?thesis using True nth_Median3_rect [OF w assms(5,6) xy] unfolding m uv px_idx by simp
  next
    case False
    then have "dst = map (\<lambda>_. 0) fresh" using assms(3,7-10) by (auto simp: rect_Contains_def size_rect_def dst_def)
    moreover have "nat (v * Width img + u) < length dst"
      using idx_less [of "size_rect img" img u v] assms by (simp add: dst_def inside_def size_rect_def idx_def image_ok_def)
    ultimately show ?thesis
      using False nth_Median3_outside [OF w assms(7-9,5,6) False, of dst] by (simp add: m px_def)
  qed
qed

definition test_image :: us_image where
  "test_image = \<lparr>ImageData = [10, 20, 30, 40, 900, 60, 70, 80, 90], Width = 3, Height = 3,
     Subframe = \<lparr>rX = 0, rY = 0, rW = 0, rH = 0\<rparr>, MinADU = 0, MaxADU = 0, MedianADU = 0, FiltMin = 0, FiltMax = 0,
     BitsPerPixel = 16, Pedestal = 0\<rparr>"

theorem median3_is_median_witness: "px (ImageData (Median3 test_image (replicate 9 7))) 3 1 1 = 60"
proof -
  have "px (ImageData (Median3 test_image (replicate 9 7))) (Width test_image) 1 1 =
    median_of (neighbours (ImageData test_image) (Width test_image) (size_rect test_image) (1 - 0) (1 - 0))"
    by (subst median3_is_median [where r = "size_rect test_image"])
      (simp_all add: test_image_def image_ok_def rect_IsEmpty_def size_rect_def inside_def rect_Contains_def)
  moreover have "neighbours (ImageData test_image) (Width test_image) (size_rect test_image) (1 - 0) (1 - 0) =
    [10, 20, 30, 40, 900, 60, 70, 80, 90]"
    using upto_3 [of 1] by (simp add: neighbours_def hood_def px_def test_image_def size_rect_def)
  ultimately show ?thesis by (simp add: median_of_def test_image_def)
qed

end
