(* ===== verification/ImageFilters.thy ===== *)
theory ImageFilters
  imports Images
begin

text \<open>
  \<open>MedianFilter\<close> and \<open>histo_median\<close> of \<open>src/src/image/image_math.cpp\<close>, which slide a two-level histogram along each
  row, and \<open>HistogramBuilder\<close> of \<open>src/src/image/usImage.cpp\<close> with the statistics of a frame. Both read a rank off
  counts; the lemmas relate them to the sorted pixels.
\<close>

subsection \<open>Reading a rank off counts\<close>

definition below :: "nat \<Rightarrow> u16 multiset \<Rightarrow> nat" where
  "below v M = size {#x \<in># M. unat x < v#}"

lemma below_mono: "v \<le> v' \<Longrightarrow> below v M \<le> below v' M"
  unfolding below_def by (induction M) auto

lemma below_step: "below (Suc v) M = below v M + size {#x \<in># M. unat x = v#}"
  by (induction M) (auto simp: below_def less_Suc_eq)

lemma below_step_block: "below (256 * Suc c) M = below (256 * c) M + size {#x \<in># M. unat x div 256 = c#}"
proof (induction M)
  case (add x M)
  have "(unat x < 256 * Suc c) = (unat x < 256 * c \<or> unat x div 256 = c)" "\<not> (unat x < 256 * c \<and> unat x div 256 = c)"
    by auto
  then show ?case using add by (auto simp: below_def)
qed (simp add: below_def)

lemma below_all: "below 65536 M = size M"
proof -
  have "unat x < 65536" for x :: u16 by (rule order_less_le_trans [OF unsigned_less]) simp
  then show ?thesis by (simp add: below_def)
qed

lemma rank_between:
  assumes "below v (mset xs) \<le> k" "k < below (Suc v) (mset xs)"
  shows "unat (sort xs ! k) = v"
proof -
  let ?s = "sort xs"
  have s: "below u (mset xs) = length (filter (\<lambda>x. unat x < u) ?s)" for u
    by (simp add: below_def flip: mset_filter size_mset)
      (metis mset_filter mset_sort size_mset)
  have "k < length ?s" using assms(2) s [of "Suc v"] length_filter_le [of _ ?s] by (metis order_less_le_trans)
  moreover have "length (filter (\<lambda>x. x < ?s ! k) ?s) \<le> k" using sorted_count_below [of ?s k] calculation by simp
  moreover have "k < length (filter (\<lambda>x. x \<le> ?s ! k) ?s)"
  proof -
    have "length (filter (\<lambda>x. ?s ! k < x) ?s) \<le> length ?s - Suc k" using sorted_count_above [of ?s k] calculation(1) by simp
    moreover have "length (filter (\<lambda>x. x \<le> ?s ! k) ?s) + length (filter (\<lambda>x. ?s ! k < x) ?s) = length ?s"
      using sum_length_filter_compl [of "\<lambda>x. x \<le> ?s ! k" ?s] by (simp add: not_le)
    ultimately show ?thesis using \<open>k < length ?s\<close> by linarith
  qed
  moreover have "\<not> unat (?s ! k) < v"
  proof
    assume "unat (?s ! k) < v"
    then have "length (filter (\<lambda>x. x \<le> ?s ! k) ?s) \<le> below v (mset xs)"
      unfolding s by (intro filter_length_mono) (auto simp: word_le_nat_alt)
    then show False using assms(1) calculation(3) by linarith
  qed
  moreover have "\<not> v < unat (?s ! k)"
  proof
    assume "v < unat (?s ! k)"
    then have "below (Suc v) (mset xs) \<le> length (filter (\<lambda>x. x < ?s ! k) ?s)"
      unfolding s by (intro filter_length_mono) (auto simp: word_less_nat_alt)
    then show False using assms(2) calculation(2) by linarith
  qed
  ultimately show ?thesis by simp
qed

subsection \<open>\<open>histo_median\<close>\<close>

function histo_scan :: "(nat \<Rightarrow> int) \<Rightarrow> nat \<Rightarrow> nat \<Rightarrow> int \<Rightarrow> nat \<times> int" where
  \<comment> \<open>\<open>for (; i < hi; i++) { if (h[i] > n) break; n -= h[i]; }\<close>\<close>
  "histo_scan h hi i n =
    (if i < hi then if h i > n then (i, n) else histo_scan h hi (Suc i) (n - h i) else (i, n))"
  by pat_completeness auto
termination by (relation "measure (\<lambda>(h, hi, i, n). hi - i)") auto

declare histo_scan.simps [simp del]

definition counts :: "(nat \<Rightarrow> u16) \<Rightarrow> nat \<Rightarrow> int" where "counts h i = int (unat (h i))"

definition histo_median :: "(nat \<Rightarrow> u16) \<Rightarrow> (nat \<Rightarrow> u16) \<Rightarrow> int \<Rightarrow> u16" where
  "histo_median histo1 histo2 n =
    (let (i, n) = histo_scan (counts histo1) 256 0 (n div 2); (i, _) = histo_scan (counts histo2) 65536 (i * 256) n in of_nat i)"

definition histo_of :: "u16 multiset \<Rightarrow> (nat \<Rightarrow> u16) \<Rightarrow> (nat \<Rightarrow> u16) \<Rightarrow> bool" where
  "histo_of M h1 h2 \<longleftrightarrow> (\<forall>c. h1 c = of_nat (size {#x \<in># M. unat x div 256 = c#})) \<and> (\<forall>v. h2 v = of_nat (size {#x \<in># M. unat x = v#}))"

lemma unat_small: "n < 65536 \<Longrightarrow> unat (of_nat n :: u16) = n"
  by (simp add: unat_of_nat)

lemma histo_scan_rank:
  assumes "\<And>i. i0 \<le> i \<Longrightarrow> i < hi \<Longrightarrow> h i = int (N (Suc i)) - int (N i)" "int (N i0) \<le> k" "k < int (N hi)" "i0 \<le> hi"
  shows "\<exists>j n. histo_scan h hi i0 (k - int (N i0)) = (j, n) \<and> n = k - int (N j) \<and> int (N j) \<le> k \<and> k < int (N (Suc j)) \<and> j < hi"
  using assms
proof (induction "hi - i0" arbitrary: i0)
  case 0
  then show ?case by simp
next
  case (Suc d)
  then have i: "i0 < hi" by simp
  have u: "h i0 = int (N (Suc i0)) - int (N i0)" using Suc.prems(1) [of i0] i by simp
  show ?case
  proof (cases "h i0 > k - int (N i0)")
    case True
    then show ?thesis using i u Suc.prems by (auto simp: histo_scan.simps [of h hi i0])
  next
    case False
    then have "histo_scan h hi i0 (k - int (N i0)) = histo_scan h hi (Suc i0) (k - int (N (Suc i0)))"
      using i u by (simp add: histo_scan.simps [of h hi i0])
    then show ?thesis using Suc.hyps(1) [of "Suc i0"] Suc.hyps(2) Suc.prems False u i by simp
  qed
qed

lemma histo_median_rank:
  assumes "histo_of (mset xs) h1 h2" "xs \<noteq> []" "length xs < 65536"
  shows "histo_median h1 h2 (int (length xs)) = sort xs ! (length xs div 2)"
proof -
  let ?M = "mset xs" and ?k = "int (length xs div 2)"
  have sz: "size {#x \<in># ?M. P x#} < 65536" for P
    using assms(3) size_filter_mset_lesseq [of P ?M] by simp
  have h1: "counts h1 c = int (below (256 * Suc c) ?M) - int (below (256 * c) ?M)" for c
    unfolding below_step_block counts_def using assms(1) sz by (simp add: histo_of_def unat_small)
  have h2: "counts h2 v = int (below (Suc v) ?M) - int (below v ?M)" for v
    unfolding below_step counts_def using assms(1) sz by (simp add: histo_of_def unat_small)
  have lt: "?k < int (length xs)" using assms(2) by (cases xs) auto
  obtain c n where c: "histo_scan (counts h1) 256 0 ?k = (c, n)" "n = ?k - int (below (256 * c) ?M)"
      "int (below (256 * c) ?M) \<le> ?k" "?k < int (below (256 * Suc c) ?M)" "c < 256"
    using histo_scan_rank [of 0 256 "counts h1" "\<lambda>c. below (256 * c) ?M" ?k] h1 lt by (auto simp: below_def [of 0] below_all)
  obtain v m where v: "histo_scan (counts h2) 65536 (256 * c) (?k - int (below (256 * c) ?M)) = (v, m)"
    "int (below v ?M) \<le> ?k" "?k < int (below (Suc v) ?M)" "v < 65536"
    using histo_scan_rank [of "256 * c" 65536 "counts h2" "\<lambda>v. below v ?M" ?k] h2 lt c(3,5) by (auto simp: below_all)
  have "unat (sort xs ! (length xs div 2)) = v" using v(2,3) by (intro rank_between) simp_all
  then have "sort xs ! (length xs div 2) = of_nat v" by (metis of_nat_unat ucast_id)
  then show ?thesis using c(1,2) v(1) by (simp add: histo_median_def Let_def mult.commute zdiv_int)
qed

subsection \<open>\<open>MedianFilter\<close>\<close>

type_synonym histo = "(nat \<Rightarrow> u16) \<times> (nat \<Rightarrow> u16)"

definition histo_add :: "u16 \<Rightarrow> histo \<Rightarrow> histo" where
  \<comment> \<open>\<open>++histo1[*p >> 8]; ++histo2[*p]\<close>\<close>
  "histo_add p h =
    (let c = unat (drop_bit 8 p); v = unat p in ((fst h)(c := fst h c + 1), (snd h)(v := snd h v + 1)))"

definition histo_remove :: "u16 \<Rightarrow> histo \<Rightarrow> histo" where
  "histo_remove p h =
    (let c = unat (drop_bit 8 p); v = unat p in ((fst h)(c := fst h c - 1), (snd h)(v := snd h v - 1)))"

definition column :: "us_image \<Rightarrow> int \<Rightarrow> int \<Rightarrow> int \<Rightarrow> u16 list" where
  "column src y0 y1 x = map (px (ImageData src) (Width src) x) [y0 .. y1]"

definition filter_init :: "us_image \<Rightarrow> int \<Rightarrow> int \<Rightarrow> int \<Rightarrow> histo \<times> int" where
  \<comment> \<open>the histogram at the start of a row, from the columns 0 to \<open>halfWidth\<close>\<close>
  "filter_init src halfWidth y0 y1 =
    (foldl (\<lambda>h j. foldl (\<lambda>h i. histo_add (px (ImageData src) (Width src) i j) h) h [0 .. halfWidth]) (\<lambda>_. 0, \<lambda>_. 0) [y0 .. y1],
     (halfWidth + 1) * (y1 - y0 + 1))"

definition filter_step :: "us_image \<Rightarrow> int \<Rightarrow> int \<Rightarrow> int \<Rightarrow> int \<Rightarrow> histo \<times> int \<Rightarrow> histo \<times> int" where
  "filter_step src halfWidth y0 y1 i s =
    (let left = max 0 (i - halfWidth); right = min (i + halfWidth) (Width src - 1);
         s = (if left > 0 then (foldl (\<lambda>h p. histo_remove p h) (fst s) (column src y0 y1 (left - 1)), snd s - (y1 - y0 + 1)) else s)
     in if i + halfWidth \<le> Width src - 1
        then (foldl (\<lambda>h p. histo_add p h) (fst s) (column src y0 y1 right), snd s + (y1 - y0 + 1)) else s)"

definition read_median :: "histo \<times> int \<Rightarrow> u16" where
  "read_median s = histo_median (fst (fst s)) (snd (fst s)) (snd s)"

fun filter_cols :: "us_image \<Rightarrow> int \<Rightarrow> int \<Rightarrow> int \<Rightarrow> int list \<Rightarrow> histo \<times> int \<Rightarrow> u16 list" where
  "filter_cols src halfWidth y0 y1 [] s = []"
| "filter_cols src halfWidth y0 y1 (i # is) s =
    (let s = filter_step src halfWidth y0 y1 i s in read_median s # filter_cols src halfWidth y0 y1 is s)"

definition filter_row :: "us_image \<Rightarrow> int \<Rightarrow> int \<Rightarrow> u16 list" where
  "filter_row src halfWidth y =
    (let y0 = max 0 (y - halfWidth); y1 = min (y + halfWidth) (Height src - 1); s = filter_init src halfWidth y0 y1
     in read_median s # filter_cols src halfWidth y0 y1 [1 .. Width src - 1] s)"

definition MedianFilter :: "us_image \<Rightarrow> int \<Rightarrow> u16 list" where
  "MedianFilter src halfWidth = concat (map (filter_row src halfWidth) [0 .. Height src - 1])"

definition window :: "us_image \<Rightarrow> int \<Rightarrow> int \<Rightarrow> int \<Rightarrow> u16 list" where
  \<comment> \<open>specification: the pixels at most \<open>halfWidth\<close> columns and rows away\<close>
  "window src halfWidth x y =
    concat (map (column src (max 0 (y - halfWidth)) (min (y + halfWidth) (Height src - 1)))
      [max 0 (x - halfWidth) .. min (x + halfWidth) (Width src - 1)])"

lemma drop_bit_8: "unat (drop_bit 8 (p :: u16)) = unat p div 256"
  by (simp add: unat_div drop_bit_eq_div)

lemma histo_of_add: "histo_of M (fst h) (snd h) \<Longrightarrow> histo_of (add_mset p M) (fst (histo_add p h)) (snd (histo_add p h))"
  by (auto simp: histo_of_def histo_add_def Let_def drop_bit_8)

lemma histo_of_remove:
  "histo_of (add_mset p M) (fst h) (snd h) \<Longrightarrow> histo_of M (fst (histo_remove p h)) (snd (histo_remove p h))"
  by (auto simp: histo_of_def histo_remove_def Let_def drop_bit_8 split: if_splits)

lemma histo_of_adds:
  "histo_of M (fst h) (snd h) \<Longrightarrow>
   histo_of (M + mset ps) (fst (foldl (\<lambda>h p. histo_add p h) h ps)) (snd (foldl (\<lambda>h p. histo_add p h) h ps))"
proof (induction ps arbitrary: h M)
  case (Cons p ps)
  from Cons.IH [OF histo_of_add [OF Cons.prems]] show ?case by simp
qed simp

lemma histo_of_removes:
  "histo_of (M + mset ps) (fst h) (snd h) \<Longrightarrow>
   histo_of M (fst (foldl (\<lambda>h p. histo_remove p h) h ps)) (snd (foldl (\<lambda>h p. histo_remove p h) h ps))"
proof (induction ps arbitrary: h M)
  case (Cons p ps)
  from Cons.prems have "histo_of (add_mset p (M + mset ps)) (fst h) (snd h)" by simp
  from Cons.IH [OF histo_of_remove [OF this]] show ?case by simp
qed simp

definition cols :: "us_image \<Rightarrow> int \<Rightarrow> int \<Rightarrow> int list \<Rightarrow> u16 multiset" where
  "cols src y0 y1 xs = (\<Sum>x\<leftarrow>xs. mset (column src y0 y1 x))"

definition state_of :: "us_image \<Rightarrow> int \<Rightarrow> int \<Rightarrow> int list \<Rightarrow> histo \<times> int \<Rightarrow> bool" where
  "state_of src y0 y1 xs s \<longleftrightarrow>
    histo_of (cols src y0 y1 xs) (fst (fst s)) (snd (fst s)) \<and> snd s = int (size (cols src y0 y1 xs))"

lemma cols_simps [simp]:
  "cols src y0 y1 [] = {#}" "cols src y0 y1 (x # xs) = mset (column src y0 y1 x) + cols src y0 y1 xs"
  "cols src y0 y1 (xs @ ys) = cols src y0 y1 xs + cols src y0 y1 ys"
  by (simp_all add: cols_def)

lemma size_cols: "y0 \<le> y1 \<Longrightarrow> int (size (cols src y0 y1 xs)) = int (length xs) * (y1 - y0 + 1)"
  by (induction xs) (auto simp: column_def algebra_simps)

lemma mset_window:
  "mset (window src hw x y) = cols src (max 0 (y - hw)) (min (y + hw) (Height src - 1)) [max 0 (x - hw) .. min (x + hw) (Width src - 1)]"
  by (simp add: window_def cols_def mset_concat comp_def)

lemma upto_snoc: "a \<le> b \<Longrightarrow> [a .. b] = [a .. b - 1] @ [b :: int]"
  by (simp add: upto_rec2)

text \<open>One step moves the window on by one column.\<close>

lemma filter_step_state:
  assumes "state_of src y0 y1 [max 0 (i - 1 - hw) .. min (i - 1 + hw) (Width src - 1)] s" "0 \<le> hw" "1 \<le> i" "i < Width src"
    and "y0 \<le> y1"
  shows "state_of src y0 y1 [max 0 (i - hw) .. min (i + hw) (Width src - 1)] (filter_step src hw y0 y1 i s)"
proof -
  define s1 where "s1 = (if max 0 (i - hw) > 0 then
    (foldl (\<lambda>h p. histo_remove p h) (fst s) (column src y0 y1 (max 0 (i - hw) - 1)), snd s - (y1 - y0 + 1)) else s)"
  have len: "int (length (column src y0 y1 x)) = y1 - y0 + 1" for x using assms(5) by (simp add: column_def)
  have s1: "state_of src y0 y1 [max 0 (i - hw) .. min (i - 1 + hw) (Width src - 1)] s1"
  proof (cases "i - hw > 0")
    case True
    then have "[max 0 (i - 1 - hw) .. min (i - 1 + hw) (Width src - 1)]
        = (i - hw - 1) # [max 0 (i - hw) .. min (i - 1 + hw) (Width src - 1)]"
      using assms(2-4) upto_rec1 [of "i - 1 - hw" "min (i - 1 + hw) (Width src - 1)"] by (simp add: max_absorb2)
    then show ?thesis using assms(1) True histo_of_removes [of _ "column src y0 y1 (i - hw - 1)" "fst s"]
      by (simp add: state_of_def s1_def len add.commute [of "mset _"])
  qed (use assms(1) in \<open>simp add: s1_def\<close>)
  show ?thesis
  proof (cases "i + hw \<le> Width src - 1")
    case True
    then have "[max 0 (i - hw) .. min (i + hw) (Width src - 1)]
        = [max 0 (i - hw) .. min (i - 1 + hw) (Width src - 1)] @ [i + hw]"
      using assms(2-4) upto_snoc [of "max 0 (i - hw)" "i + hw"] by (simp add: min_absorb1 diff_add_eq)
    then show ?thesis using s1 True histo_of_adds [of _ "fst s1" "column src y0 y1 (i + hw)"]
      by (simp add: state_of_def filter_step_def Let_def len add.commute [of "mset _"] min_absorb1 flip: s1_def)
  next
    case False
    then show ?thesis using s1 by (simp add: filter_step_def Let_def min_absorb2 flip: s1_def)
  qed
qed

lemma histo_of_row:
  "histo_of M (fst h) (snd h) \<Longrightarrow>
   histo_of (M + image_mset f (mset is)) (fst (foldl (\<lambda>h i. histo_add (f i) h) h is)) (snd (foldl (\<lambda>h i. histo_add (f i) h) h is))"
proof (induction "is" arbitrary: M h)
  case (Cons i "is")
  from Cons.IH [OF histo_of_add [OF Cons.prems]] show ?case by simp
qed simp

lemma histo_of_rows:
  "histo_of M (fst h) (snd h) \<Longrightarrow>
   histo_of (M + (\<Sum>j\<leftarrow>js. image_mset (\<lambda>i. f i j) (mset is)))
     (fst (foldl (\<lambda>h j. foldl (\<lambda>h i. histo_add (f i j) h) h is) h js))
     (snd (foldl (\<lambda>h j. foldl (\<lambda>h i. histo_add (f i j) h) h is) h js))"
proof (induction js arbitrary: M h)
  case (Cons j js)
  from Cons.IH [OF histo_of_row [OF Cons.prems, of "\<lambda>i. f i j" "is"]] show ?case by (simp add: add.assoc)
qed simp

lemma sum_mset_swap:
  "(\<Sum>j\<leftarrow>js. image_mset (\<lambda>i. f i j) (mset is)) = (\<Sum>i\<leftarrow>is. image_mset (f i) (mset js))"
proof (induction "is")
  case (Cons i "is")
  have "(\<Sum>j\<leftarrow>js. image_mset (\<lambda>i. f i j) (mset (i # is))) = image_mset (f i) (mset js) + (\<Sum>j\<leftarrow>js. image_mset (\<lambda>i. f i j) (mset is))"
    by (induction js) (simp_all add: ac_simps)
  then show ?case using Cons by simp
qed (induction js, simp_all)

lemma filter_init_state:
  assumes "0 \<le> hw" "hw < Width src" "y0 \<le> y1"
  shows "state_of src y0 y1 [max 0 (0 - hw) .. min (0 + hw) (Width src - 1)] (filter_init src hw y0 y1)"
proof -
  let ?h = "fst (filter_init src hw y0 y1)"
  have "histo_of {#} (fst (\<lambda>_. 0, \<lambda>_. 0)) (snd (\<lambda>_. 0, \<lambda>_. 0))" by (simp add: histo_of_def)
  note h = histo_of_rows [OF this, of "px (ImageData src) (Width src)" "[0 .. hw]" "[y0 .. y1]"]
  have "(\<Sum>j\<leftarrow>[y0 .. y1]. image_mset (\<lambda>i. px (ImageData src) (Width src) i j) (mset [0 .. hw])) = cols src y0 y1 [0 .. hw]"
    by (subst sum_mset_swap) (simp add: cols_def column_def)
  then have "histo_of (cols src y0 y1 [0 .. hw]) (fst ?h) (snd ?h)"
    using h by (simp only: filter_init_def fst_conv add_0)
  moreover have "snd (filter_init src hw y0 y1) = int (size (cols src y0 y1 [0 .. hw]))"
    using assms by (simp add: size_cols filter_init_def)
  moreover have "[max 0 (0 - hw) .. min (0 + hw) (Width src - 1)] = [0 .. hw]" using assms by (simp add: min_absorb1)
  ultimately show ?thesis by (simp only: state_of_def)
qed

lemma length_window_less:
  assumes "0 \<le> hw" "0 \<le> x" "x < Width src" "0 \<le> y" "y < Height src" "(2 * hw + 1) * (2 * hw + 1) < 65536"
  shows "window src hw x y \<noteq> []" "length (window src hw x y) < 65536"
proof -
  let ?y0 = "max 0 (y - hw)" and ?y1 = "min (y + hw) (Height src - 1)" and ?xs = "[max 0 (x - hw) .. min (x + hw) (Width src - 1)]"
  have "?y0 \<le> ?y1" using assms by auto
  then have l: "int (length (window src hw x y)) = int (length ?xs) * (?y1 - ?y0 + 1)"
    by (metis mset_window size_cols size_mset)
  have b: "1 \<le> int (length ?xs)" "int (length ?xs) \<le> 2 * hw + 1" "1 \<le> ?y1 - ?y0 + 1" "?y1 - ?y0 + 1 \<le> 2 * hw + 1"
    using assms by (auto simp: max_def min_def)
  have "int (length ?xs) * (?y1 - ?y0 + 1) \<le> (2 * hw + 1) * (2 * hw + 1)" using b assms(1) by (intro mult_mono) linarith+
  then show "length (window src hw x y) < 65536" using l assms(6) by linarith
  have "1 * 1 \<le> int (length ?xs) * (?y1 - ?y0 + 1)" using b by (intro mult_mono) simp_all
  then show "window src hw x y \<noteq> []" using l by auto
qed

lemma read_median_window:
  assumes "state_of src (max 0 (y - hw)) (min (y + hw) (Height src - 1)) [max 0 (x - hw) .. min (x + hw) (Width src - 1)] s"
    and "0 \<le> hw" "0 \<le> x" "x < Width src" "0 \<le> y" "y < Height src" "(2 * hw + 1) * (2 * hw + 1) < 65536"
  shows "read_median s = sort (window src hw x y) ! (length (window src hw x y) div 2)"
proof -
  have "histo_of (mset (window src hw x y)) (fst (fst s)) (snd (fst s))" "snd s = int (length (window src hw x y))"
    using assms(1) by (simp_all add: state_of_def flip: mset_window)
  then show ?thesis unfolding read_median_def using histo_median_rank length_window_less [OF assms(2-)] by simp
qed

lemma filter_cols_medians:
  assumes "state_of src (max 0 (y - hw)) (min (y + hw) (Height src - 1)) [max 0 (x - 1 - hw) .. min (x - 1 + hw) (Width src - 1)] s"
    and "0 \<le> hw" "1 \<le> x" "0 \<le> y" "y < Height src" "(2 * hw + 1) * (2 * hw + 1) < 65536"
  shows "filter_cols src hw (max 0 (y - hw)) (min (y + hw) (Height src - 1)) [x .. Width src - 1] s =
    map (\<lambda>x. sort (window src hw x y) ! (length (window src hw x y) div 2)) [x .. Width src - 1]"
  using assms(1,3)
proof (induction "nat (Width src - x)" arbitrary: x s)
  case (Suc d)
  then have x: "x < Width src" by simp
  let ?y0 = "max 0 (y - hw)" and ?y1 = "min (y + hw) (Height src - 1)"
  define s' where "s' = filter_step src hw ?y0 ?y1 x s"
  have s': "state_of src ?y0 ?y1 [max 0 (x - hw) .. min (x + hw) (Width src - 1)] s'"
    unfolding s'_def using Suc.prems x assms(2-5) by (intro filter_step_state) auto
  have "filter_cols src hw ?y0 ?y1 [x + 1 .. Width src - 1] s' =
      map (\<lambda>x. sort (window src hw x y) ! (length (window src hw x y) div 2)) [x + 1 .. Width src - 1]"
    using Suc.hyps(1) [of "x + 1" s'] Suc.hyps(2) s' Suc.prems(2) by simp
  then show ?case using x read_median_window [OF s' assms(2) _ x assms(4-6)] Suc.prems(2)
    by (simp add: upto_rec1 [of x] flip: s'_def)
qed simp

lemma nth_concat_rows:
  assumes "\<And>i. i < n \<Longrightarrow> length (f i) = w" "v < n" "u < w"
  shows "concat (map f [0 ..< n]) ! (v * w + u) = f v ! u"
  using assms
proof (induction n)
  case (Suc n)
  have "length (concat (map f [0 ..< m])) = m * w" if "m \<le> n" for m using that by (induction m) (simp_all add: Suc.prems(1))
  then have l: "length (concat (map f [0 ..< n])) = n * w" by simp
  show ?case
  proof (cases "v = n")
    case True
    then show ?thesis using Suc.prems l by (simp add: nth_append)
  next
    case False
    then have "v * w + u < n * w" using Suc.prems mult_le_mono1 [of "Suc v" n w] by auto
    then show ?thesis using Suc False l by (simp add: nth_append)
  qed
qed simp

text \<open>C24: The sliding-window median filter is the reference filter: for any half width less than the width of the image,
  and small enough for the 16-bit counters, every pixel becomes the element of rank \<open>n div 2\<close> of the \<open>n\<close> sorted pixels
  in the window around it, cut off at the edges of the image.\<close>
theorem median_filter_is_median:
  assumes "0 \<le> halfWidth" "halfWidth < Width src" "(2 * halfWidth + 1) * (2 * halfWidth + 1) < 65536"
    and "0 \<le> x" "x < Width src" "0 \<le> y" "y < Height src"
  shows "px (MedianFilter src halfWidth) (Width src) x y =
    sort (window src halfWidth x y) ! (length (window src halfWidth x y) div 2)"
proof -
  define med where "med = (\<lambda>y x. sort (window src halfWidth x y) ! (length (window src halfWidth x y) div 2))"
  have row: "filter_row src halfWidth y = map (med y) [0 .. Width src - 1]" if "0 \<le> y" "y < Height src" for y
  proof -
    let ?y0 = "max 0 (y - halfWidth)" and ?y1 = "min (y + halfWidth) (Height src - 1)"
    have s: "state_of src ?y0 ?y1 [max 0 (0 - halfWidth) .. min (0 + halfWidth) (Width src - 1)] (filter_init src halfWidth ?y0 ?y1)"
      using assms that by (intro filter_init_state) auto
    have "filter_row src halfWidth y = med y 0 # map (med y) [1 .. Width src - 1]"
      using read_median_window [OF s] filter_cols_medians [of src y halfWidth 1, simplified] s assms(1-5) that
      by (simp add: filter_row_def Let_def med_def)
    then show ?thesis using assms(4,5) by (simp add: upto_rec1 [of 0])
  qed
  have up: "[0 .. n - 1] = map int [0 ..< nat n]" if "0 \<le> n" for n
    using that by (induction n rule: int_ge_induct) (simp_all add: upto_snoc nat_add_distrib)
  have "MedianFilter src halfWidth = concat (map (\<lambda>i. map (med (int i)) [0 .. Width src - 1]) [0 ..< nat (Height src)])"
    unfolding MedianFilter_def using assms(6,7) row by (auto simp: up intro!: arg_cong [where f = concat])
  then have "MedianFilter src halfWidth ! (nat y * nat (Width src) + nat x) = map (med (int (nat y))) [0 .. Width src - 1] ! nat x"
    using assms nth_concat_rows [of "nat (Height src)" "\<lambda>i. map (med (int i)) [0 .. Width src - 1]" "nat (Width src)" "nat y" "nat x"]
    by simp
  then show ?thesis using assms by (simp add: px_def nat_add_distrib nat_mult_distrib med_def)
qed

theorem median_filter_is_median_witness: "px (MedianFilter test_image 1) 3 0 1 = 70"
proof -
  have "px (MedianFilter test_image 1) (Width test_image) 0 1 =
      sort (window test_image 1 0 1) ! (length (window test_image 1 0 1) div 2)"
    by (rule median_filter_is_median) (simp_all add: test_image_def)
  moreover have "window test_image 1 0 1 = [10, 40, 70, 20, 900, 80]"
    using upto_2 [of 0] upto_3 [of 1] by (simp add: window_def column_def px_def test_image_def)
  ultimately show ?thesis by (simp add: test_image_def)
qed

subsection \<open>\<open>HistogramBuilder\<close> and the statistics of a frame\<close>

record histogram_builder =
  hb_histo :: "nat \<Rightarrow> int"
  hb_MinADU :: u16
  hb_MaxADU :: u16
  hb_pixCount :: int

definition hb_new :: "(nat \<Rightarrow> int) \<Rightarrow> histogram_builder" where
  \<comment> \<open>the counters are not initialised\<close>
  "hb_new garbage = \<lparr>hb_histo = garbage, hb_MinADU = 0, hb_MaxADU = 0, hb_pixCount = 0\<rparr>"

definition hb_median :: "histogram_builder \<Rightarrow> u16" where
  "hb_median hb = of_nat (fst (histo_scan (hb_histo hb) (unat (hb_MaxADU hb)) (unat (hb_MinADU hb)) (hb_pixCount hb div 2)))"

definition clear_range :: "nat \<Rightarrow> nat \<Rightarrow> (nat \<Rightarrow> int) \<Rightarrow> nat \<Rightarrow> int" where
  \<comment> \<open>\<open>for (k = lo; k < hi; ++k) histo[k] = 0\<close>\<close>
  "clear_range lo hi h k = (if lo \<le> k \<and> k < hi then 0 else h k)"

definition hb_pixel :: "histogram_builder \<Rightarrow> u16 \<Rightarrow> histogram_builder" where
  "hb_pixel hb v =
    (let hb = (if v < hb_MinADU hb
               then hb\<lparr>hb_histo := clear_range (unat v) (unat (hb_MinADU hb)) (hb_histo hb), hb_MinADU := v\<rparr> else hb);
         hb = (if v > hb_MaxADU hb
               then hb\<lparr>hb_histo := clear_range (unat (hb_MaxADU hb) + 1) (unat v + 1) (hb_histo hb), hb_MaxADU := v\<rparr> else hb)
     in hb\<lparr>hb_histo := (hb_histo hb)(unat v := hb_histo hb (unat v) + 1)\<rparr>)"

definition hb_scan :: "u16 list \<Rightarrow> histogram_builder \<Rightarrow> histogram_builder" where
  "hb_scan t hb =
    (let hb = (if hb_pixCount hb = 0
               then hb\<lparr>hb_MinADU := hd t, hb_MaxADU := hd t, hb_histo := (hb_histo hb)(unat (hd t) := 0)\<rparr> else hb);
         hb = foldl hb_pixel hb t
     in hb\<lparr>hb_pixCount := hb_pixCount hb + int (length t)\<rparr>)"

definition filt_range :: "u16 list \<Rightarrow> u16 \<times> u16" where
  "filt_range ds = foldl (\<lambda>(lo, hi) d. (if d < lo then d else lo, if d > hi then d else hi)) (65535, 0) ds"

definition stats_of :: "(nat \<Rightarrow> int) \<Rightarrow> u16 list \<Rightarrow> u16 list \<Rightarrow> us_image \<Rightarrow> us_image" where
  \<comment> \<open>the raw pixels and the filtered ones\<close>
  "stats_of garbage raw filt img =
    (let hb = hb_scan raw (hb_new garbage); (lo, hi) = filt_range filt
     in img\<lparr>MinADU := hb_MinADU hb, MaxADU := hb_MaxADU hb, MedianADU := hb_median hb, FiltMin := lo, FiltMax := hi\<rparr>)"

definition CalcStats :: "(nat \<Rightarrow> int) \<Rightarrow> (nat \<Rightarrow> u16) \<Rightarrow> us_image \<Rightarrow> us_image" where
  \<comment> \<open>what the two fresh buffers hold are arguments\<close>
  "CalcStats garbage fresh img =
    (if ImageData img = [] then img
     else if rect_IsEmpty (Subframe img)
     then stats_of garbage (ImageData img)
       (Median3_rect (map fresh [0 ..< length (ImageData img)]) (ImageData img) (Width img) (size_rect img)) img
     else
       let sub = Subframe img;
           tmp = hood (ImageData img) (Width img) sub [0 .. rW sub - 1] [0 .. rH sub - 1]
       in stats_of garbage tmp
         (Median3_rect (map fresh [0 ..< length tmp]) tmp (rW sub) \<lparr>rX = 0, rY = 0, rW = rW sub, rH = rH sub\<rparr>) img)"

definition hb_of :: "u16 list \<Rightarrow> histogram_builder \<Rightarrow> bool" where
  "hb_of xs hb \<longleftrightarrow> xs \<noteq> [] \<and> hb_MinADU hb = Min (set xs) \<and> hb_MaxADU hb = Max (set xs) \<and>
    (\<forall>v. unat (Min (set xs)) \<le> v \<and> v \<le> unat (Max (set xs)) \<longrightarrow> hb_histo hb v = int (length (filter (\<lambda>x. unat x = v) xs)))"

lemma hb_pixel_of:
  assumes "hb_of xs hb"
  shows "hb_of (xs @ [v]) (hb_pixel hb v)"
proof -
  have ne: "xs \<noteq> []" using assms by (simp add: hb_of_def)
  have mm: "Min (set (xs @ [v])) = min v (Min (set xs))" "Max (set (xs @ [v])) = max v (Max (set xs))"
    using ne by simp_all
  have out: "filter (\<lambda>x. unat x = k) xs = []" if "k < unat (Min (set xs)) \<or> unat (Max (set xs)) < k" for k
    using that ne by (fastforce simp: filter_empty_conv word_le_nat_alt [symmetric] word_less_nat_alt [symmetric]
        not_le [symmetric] dest: word_le_nat_alt [THEN iffD1, OF Min_le [OF List.finite_set]]
        word_le_nat_alt [THEN iffD1, OF Max_ge [OF List.finite_set]])
  have mnmx: "unat (Min (set xs)) \<le> unat (Max (set xs))"
    using ne by (metis List.finite_set Max_ge Min_in set_empty word_le_nat_alt)
  consider "v < Min (set xs)" | "Max (set xs) < v" | "Min (set xs) \<le> v" "v \<le> Max (set xs)" by (meson not_le)
  then show ?thesis
  proof cases
    case 1
    moreover have "\<not> Max (set xs) < v" using 1 mnmx by (simp add: word_less_nat_alt)
    ultimately show ?thesis using assms out mnmx unfolding hb_of_def mm
      by (auto simp: hb_pixel_def Let_def clear_range_def min_def max_def word_less_nat_alt word_le_nat_alt)
  next
    case 2
    moreover have "\<not> v < Min (set xs)" using 2 mnmx by (simp add: word_less_nat_alt)
    ultimately show ?thesis using assms out mnmx unfolding hb_of_def mm
      by (auto simp: hb_pixel_def Let_def clear_range_def min_def max_def word_less_nat_alt word_le_nat_alt)
  next
    case 3
    then show ?thesis using assms unfolding hb_of_def mm
      by (auto simp: hb_pixel_def Let_def clear_range_def min_def max_def word_less_nat_alt word_le_nat_alt word_unat_eq_iff)
  qed
qed

lemma hb_scan_of:
  assumes "t \<noteq> []"
  shows "hb_of t (hb_scan t (hb_new g))" "hb_pixCount (hb_scan t (hb_new g)) = int (length t)"
proof -
  let ?hb = "(hb_new g)\<lparr>hb_MinADU := hd t, hb_MaxADU := hd t, hb_histo := g(unat (hd t) := 0)\<rparr>"
  have first: "hb_of [hd t] (hb_pixel ?hb (hd t))"
    by (auto simp: hb_of_def hb_pixel_def hb_new_def)
  have rest: "hb_of xs hb \<Longrightarrow> hb_of (xs @ ys) (foldl hb_pixel hb ys)" for xs hb ys
  proof (induction ys arbitrary: xs hb)
    case (Cons y ys)
    from Cons.IH [OF hb_pixel_of [OF Cons.prems]] show ?case by simp
  qed simp
  have cnt: "hb_pixCount (foldl hb_pixel hb ys) = hb_pixCount hb" for hb ys
    by (induction ys arbitrary: hb) (auto simp: hb_pixel_def Let_def)
  show "hb_of t (hb_scan t (hb_new g))"
    using rest [OF first, of "tl t"] assms by (cases t) (auto simp: hb_scan_def Let_def hb_new_def hb_of_def)
  show "hb_pixCount (hb_scan t (hb_new g)) = int (length t)" by (simp add: hb_scan_def Let_def cnt) (simp add: hb_new_def)
qed

text \<open>The median of a histogram is the pixel of middle rank, whatever the counters held before.\<close>

lemma hb_median_rank:
  assumes "t \<noteq> []"
  shows "hb_median (hb_scan t (hb_new g)) = sort t ! (length t div 2)"
proof -
  define hb where "hb = hb_scan t (hb_new g)"
  let ?lo = "unat (Min (set t))" and ?hi = "unat (Max (set t))" and ?k = "int (length t div 2)"
  have hb: "hb_MinADU hb = Min (set t)" "hb_MaxADU hb = Max (set t)" "hb_pixCount hb = int (length t)"
    "\<And>v. ?lo \<le> v \<Longrightarrow> v \<le> ?hi \<Longrightarrow> hb_histo hb v = int (below (Suc v) (mset t)) - int (below v (mset t))"
    using hb_scan_of [OF assms, of g] by (auto simp: hb_of_def hb_def below_step simp flip: mset_filter)
  have r: "?lo \<le> unat x" "unat x \<le> ?hi" if "x \<in> set t" for x
    using that by (simp_all flip: word_le_nat_alt)
  have lo: "below ?lo (mset t) = 0" using r by (fastforce simp: below_def)
  have all: "below (Suc ?hi) (mset t) = length t" using r by (simp add: below_def less_Suc_eq_le flip: mset_filter)
  have lt: "length t div 2 < length t" using assms by (cases t) auto
  have lh: "?lo \<le> ?hi" using r [of "hd t"] assms by simp
  have "unat (sort t ! (length t div 2)) = fst (histo_scan (hb_histo hb) ?hi ?lo ?k)"
  proof (cases "length t div 2 < below ?hi (mset t)")
    case True
    then obtain j n where "histo_scan (hb_histo hb) ?hi ?lo ?k = (j, n)" "int (below j (mset t)) \<le> ?k" "?k < int (below (Suc j) (mset t))"
      using histo_scan_rank [of ?lo ?hi "hb_histo hb" "\<lambda>v. below v (mset t)" ?k] hb(4) lo lh by auto
    then show ?thesis by (simp add: rank_between)
  next
    case False
    have "histo_scan (hb_histo hb) ?hi i (?k - int (below i (mset t))) = (?hi, ?k - int (below ?hi (mset t)))"
      if "?lo \<le> i" "i \<le> ?hi" for i using that
    proof (induction "?hi - i" arbitrary: i)
      case (Suc d)
      then have "hb_histo hb i = int (below (Suc i) (mset t)) - int (below i (mset t))" "below (Suc i) (mset t) \<le> below ?hi (mset t)"
        using hb(4) [of i] by (simp_all add: below_mono)
      then show ?case using Suc.hyps(1) [of "Suc i"] Suc.hyps(2) Suc.prems False by (simp add: histo_scan.simps [of _ _ i])
    qed (simp add: histo_scan.simps)
    from this [of ?lo] have "fst (histo_scan (hb_histo hb) ?hi ?lo ?k) = ?hi" using lo lh by simp
    moreover have "unat (sort t ! (length t div 2)) = ?hi" using False all lt by (intro rank_between) simp_all
    ultimately show ?thesis by simp
  qed
  then show ?thesis unfolding hb_median_def hb_def [symmetric] hb by (metis of_nat_unat ucast_id zdiv_int of_nat_numeral)
qed

end
