(* ===== verification/ImageRepair.thy ===== *)
theory ImageRepair
  imports ImageFilters Geometry
begin

text \<open>
  The rest of \<open>src/src/image/image_math.cpp\<close> and the buffers of \<open>usImage.cpp\<close>: luminance reconstruction, pixel squaring,
  binning, dark subtraction, the defect map and the repair of defective pixels. A fresh buffer holds arbitrary values,
  given as an argument.
\<close>

subsection \<open>Buffers\<close>

definition us_Init :: "int \<Rightarrow> int \<Rightarrow> (nat \<Rightarrow> u16) \<Rightarrow> us_image \<Rightarrow> us_image" where
  \<comment> \<open>the buffer is replaced only when the number of pixels changes\<close>
  "us_Init w h fresh img =
    (let n = nat (w * h)
     in img\<lparr>Width := w, Height := h, Subframe := \<lparr>rX = 0, rY = 0, rW = 0, rH = 0\<rparr>, MinADU := 0, MaxADU := 0, MedianADU := 0,
            ImageData := (if n \<noteq> length (ImageData img) then map fresh [0 ..< n] else ImageData img)\<rparr>)"

definition SwapImageData :: "us_image \<Rightarrow> us_image \<Rightarrow> us_image \<times> us_image" where
  "SwapImageData a b = (a\<lparr>ImageData := ImageData b\<rparr>, b\<lparr>ImageData := ImageData a\<rparr>)"

definition CopyFrom :: "(nat \<Rightarrow> u16) \<Rightarrow> us_image \<Rightarrow> us_image \<Rightarrow> us_image" where
  "CopyFrom fresh src img =
    (let img = us_Init (Width src) (Height src) fresh img
     in img\<lparr>ImageData := take (length (ImageData img)) (ImageData src)\<rparr>)"

subsection \<open>The display's lookup table\<close>

definition gamma_levels :: "int \<Rightarrow> int \<Rightarrow> int \<times> int" where
  \<comment> \<open>the last test guards \<open>wlevel\<close> but sets \<open>blevel\<close>\<close>
  "gamma_levels blevel wlevel =
    (let blevel = (if blevel < 0 then 0 else blevel); wlevel = (if wlevel < 0 then 0 else wlevel);
         blevel = (if blevel > 0xffff then 0xffff else blevel); blevel = (if wlevel > 0xffff then 0xffff else blevel)
     in (blevel, wlevel))"

definition buildGammaLookupTable :: "int \<Rightarrow> int \<Rightarrow> real \<Rightarrow> int \<Rightarrow> int" where
  \<comment> \<open>the entry \<open>i\<close> of the table, after its three loops\<close>
  "buildGammaLookupTable blevel wlevel expo i =
    (let (blevel, wlevel) = gamma_levels blevel wlevel
     in if wlevel \<le> i then 255 else if i \<le> blevel then 0
        else trunc ((of_int (i - blevel) / of_int (wlevel - blevel)) powr expo * 255))"

lemma gamma_table_monotone:
  assumes "0 \<le> i" "i \<le> j" "0 \<le> expo" "wlevel \<le> 0xffff"
  shows "buildGammaLookupTable blevel wlevel expo i \<le> buildGammaLookupTable blevel wlevel expo j"
    "0 \<le> buildGammaLookupTable blevel wlevel expo i" "buildGammaLookupTable blevel wlevel expo i \<le> 255"
proof -
  obtain b w where bw: "gamma_levels blevel wlevel = (b, w)" by fastforce
  have r: "0 \<le> (of_int (k - b) / of_int (w - b)) powr expo * (255::real) \<and>
      (of_int (k - b) / of_int (w - b)) powr expo * (255::real) \<le> 255" if "b < k" "k < w" for k
  proof -
    have "(of_int (k - b) / of_int (w - b)) powr expo \<le> (1::real) powr expo"
      using that assms(3) by (intro powr_mono2) (auto simp: divide_simps)
    then show ?thesis by simp
  qed
  have t: "0 \<le> trunc z \<and> trunc z \<le> 255" if "0 \<le> z" "z \<le> (255::real)" for z
    using that by (auto simp: trunc_def floor_le_iff)
  have m: "trunc y \<le> trunc z" if "0 \<le> y" "y \<le> (z::real)" for y z using that by (simp add: trunc_def floor_mono)
  have mono: "(of_int (i - b) / of_int (w - b)) powr expo * (255::real) \<le> (of_int (j - b) / of_int (w - b)) powr expo * 255"
    if "b < i" "j < w"
    using that assms(2,3) by (intro mult_right_mono powr_mono2) (auto simp: divide_simps)
  show "0 \<le> buildGammaLookupTable blevel wlevel expo i" "buildGammaLookupTable blevel wlevel expo i \<le> 255"
    using r [of i] t by (auto simp: buildGammaLookupTable_def bw)
  show "buildGammaLookupTable blevel wlevel expo i \<le> buildGammaLookupTable blevel wlevel expo j"
    using r [of i] r [of j] t m mono assms(2) by (auto simp: buildGammaLookupTable_def bw)
qed

text \<open>A white level above the range clamps the black level instead: every pixel value is then shown black.\<close>

lemma gamma_white_clamps_black: "0xffff < wlevel \<Longrightarrow> i \<le> 0xffff \<Longrightarrow> buildGammaLookupTable blevel wlevel expo i = 0"
  by (simp add: buildGammaLookupTable_def gamma_levels_def Let_def)

subsection \<open>Whole-image filters\<close>

definition avg_u16 :: "u16 list \<Rightarrow> nat \<Rightarrow> u16" where
  \<comment> \<open>the pixels added up as \<open>unsigned int\<close> and shifted right\<close>
  "avg_u16 ps k = ucast (drop_bit k (sum_list (map (ucast :: u16 \<Rightarrow> u32) ps)))"

definition lrecon_row :: "u16 list \<Rightarrow> int \<Rightarrow> rect \<Rightarrow> int \<Rightarrow> u16 list" where
  "lrecon_row src w r y =
    map (\<lambda>x. avg_u16 (hood src w r [x, x + 1] [y, y + 1]) 2) [0 .. rW r - 2] @ [avg_u16 (hood src w r [rW r - 1] [y, y + 1]) 1]"

definition lrecon_last :: "u16 list \<Rightarrow> int \<Rightarrow> rect \<Rightarrow> u16 list" where
  "lrecon_last src w r =
    map (\<lambda>x. avg_u16 (hood src w r [x, x + 1] [rH r - 1]) 1) [0 .. rW r - 2] @ hood src w r [rW r - 1] [rH r - 1]"

definition QuickLRecon :: "(nat \<Rightarrow> u16) \<Rightarrow> us_image \<Rightarrow> us_image" where
  "QuickLRecon fresh img =
    (let r = (if rect_IsEmpty (Subframe img) then size_rect img else Subframe img);
         tmp = (if rect_IsEmpty (Subframe img) then map fresh [0 ..< length (ImageData img)] else map (\<lambda>_. 0) (ImageData img));
         tmp = foldl (\<lambda>d y. put (IX (Width img) r y) (lrecon_row (ImageData img) (Width img) r y) d) tmp [0 .. rH r - 2]
     in img\<lparr>ImageData := put (IX (Width img) r (rH r - 1)) (lrecon_last (ImageData img) (Width img) r) tmp\<rparr>)"

definition square_pixel :: "us_image \<Rightarrow> real \<Rightarrow> int \<Rightarrow> int \<Rightarrow> u16" where
  "square_pixel src ratio x y =
    (let oldposition = of_int x * ratio; ind1 = \<lfloor>oldposition\<rfloor>; weight = of_int \<lceil>oldposition\<rceil> - oldposition;
         v = real (unat (px (ImageData src) (Width src) ind1 y))
     in word_of_int (trunc (v * weight + v * (1 - weight))))"

definition SquarePixels :: "us_image \<Rightarrow> real \<Rightarrow> real \<Rightarrow> us_image \<times> bool" where
  "SquarePixels img xsize ysize =
    (if ImageData img = [] then (img, True)
     else if xsize \<le> ysize then (img, False)
     else
       let ratio = ysize / xsize; newsize = ROUND (of_int (Width img) / ratio)
       in (img\<lparr>ImageData := concat (map (\<lambda>y. map (\<lambda>x. square_pixel img ratio x y) [0 .. newsize - 1]) [0 .. Height img - 1]),
               Width := newsize, Subframe := \<lparr>rX = 0, rY = 0, rW = 0, rH = 0\<rparr>, MinADU := 0, MaxADU := 0, MedianADU := 0\<rparr>, False))"

text \<open>The interpolation weights the same source pixel twice, so a squared pixel is just a copy of the one to its left.\<close>

lemma square_pixel_copies: "square_pixel src ratio x y = px (ImageData src) (Width src) \<lfloor>of_int x * ratio\<rfloor> y"
proof -
  have v: "v * w + v * (1 - w) = v" for v w :: real by (simp add: algebra_simps)
  have t: "trunc (real n) = int n" for n by (simp add: trunc_def)
  show ?thesis unfolding square_pixel_def Let_def v t by simp
qed

definition bin_at :: "'a::len word list \<Rightarrow> int \<Rightarrow> nat \<Rightarrow> int \<Rightarrow> int \<Rightarrow> 'a word" where
  \<comment> \<open>the mean of the \<open>k * k\<close> pixels from column \<open>x\<close> and row \<open>y\<close> on\<close>
  "bin_at src srcw k x y =
    ucast (sum_list (map (\<lambda>j. sum_list (map (\<lambda>i. ucast (src ! nat ((y + int j) * srcw + (x + int i))) :: u32) [0 ..< k])) [0 ..< k])
           div of_nat (k * k))"

definition steps :: "int \<Rightarrow> int \<Rightarrow> int list" where
  \<comment> \<open>\<open>for (v = 0; v < hi; v += k)\<close>\<close>
  "steps k hi = map (\<lambda>i. i * k) [0 .. (hi + k - 1) div k - 1]"

definition BinPixels :: "'a::len word list \<Rightarrow> int \<Rightarrow> int \<Rightarrow> nat \<Rightarrow> 'a word list" where
  \<comment> \<open>the values written to the destination; only a binning of 3 leaves out a rest that does not fill a block\<close>
  "BinPixels src srcw srch binning =
    (let block = (\<lambda>w h. concat (map (\<lambda>y. map (\<lambda>x. bin_at src srcw binning x y) (steps (int binning) w)) (steps (int binning) h)))
     in if binning = 2 \<or> binning = 4 then block srcw srch
        else if binning = 3 then block (srcw div 3 * 3) (srch div 3 * 3) else [])"

definition CalcSlope :: "real list \<Rightarrow> real" where
  "CalcSlope y =
    (let nn = int (length y)
     in if nn < 2 then 0
        else
          let s_xy = sum_list (map (\<lambda>x. real (x + 1) * y ! x) [0 ..< length y]); s_y = sum_list y;
              sx = (nn * (nn + 1)) div 2; sxx = sx * (2 * nn + 1) div 3; n = of_int nn
          in (n * s_xy - of_int sx * s_y) / (n * of_int sxx - of_int sx * of_int sx))"

subsection \<open>Dark subtraction\<close>

definition sub_pixel :: "u16 \<Rightarrow> u16 \<Rightarrow> u16 \<Rightarrow> u16" where
  "sub_pixel pedestal l d =
    (let newval = int (unat l) + int (unat pedestal) - int (unat d)
     in if newval < 0 then 0 else if newval > 65535 then 65535 else word_of_int newval)"

definition sub_rows :: "u16 list \<Rightarrow> u16 list \<Rightarrow> int \<Rightarrow> rect \<Rightarrow> u16 \<Rightarrow> u16 list" where
  "sub_rows light dark w r pedestal =
    foldl (\<lambda>d y. put (IX w r y) (map (\<lambda>x. sub_pixel pedestal (px light w (rX r + x) (rY r + y)) (px dark w (rX r + x) (rY r + y)))
        [0 .. rW r - 1]) d) light [0 .. rH r - 1]"

definition Subtract :: "us_image \<Rightarrow> us_image \<Rightarrow> us_image \<times> bool" where
  "Subtract light dark =
    (if ImageData light = [] \<or> ImageData dark = [] then (light, True)
     else if (Width light, Height light) \<noteq> (Width dark, Height dark) then (light, True)
     else
       let sub = Subframe light; w = Width light;
           (r, median_dark) = (if \<not> rect_IsEmpty sub
             then let tmp = hood (ImageData dark) w sub [0 .. rW sub - 1] [0 .. rH sub - 1] in (sub, sort tmp ! (length tmp div 2))
             else (size_rect light, MedianADU dark));
           light = (if median_dark > MedianADU light then light\<lparr>Pedestal := median_dark - MedianADU light\<rparr> else light)
       in (light\<lparr>ImageData := sub_rows (ImageData light) (ImageData dark) w r (Pedestal light)\<rparr>, False))"

text \<open>Every pixel of the frame or subframe becomes the difference raised by the pedestal, held within 16 bits.\<close>

lemma nth_sub_rows:
  assumes "inside r img" "image_ok img" "rect_Contains r (u, v)" "length (ImageData img) = length (ImageData dark)"
  shows "px (sub_rows (ImageData img) (ImageData dark) (Width img) r p) (Width img) u v =
    sub_pixel p (px (ImageData img) (Width img) u v) (px (ImageData dark) (Width img) u v)"
proof -
  define x y where "x = u - rX r" and "y = v - rY r"
  then have uv: "u = rX r + x" "v = rY r + y" by simp_all
  have xy: "0 \<le> x" "x < rW r" "0 \<le> y" "y < rH r" using assms(3) by (auto simp: rect_Contains_def uv)
  have w: "0 \<le> rX r" "0 \<le> rY r" "rX r + rW r \<le> Width img" "0 < rW r" using assms(1) by (auto simp: inside_def)
  show ?thesis
    unfolding uv px_idx sub_rows_def
    by (subst nth_put_rows [OF w(1-3) xy(1-3)]) (use w(4) xy idx_less [OF assms(1,2) xy] in simp_all)
qed

lemma sub_pixel_clamped: "int (unat (sub_pixel p l d)) = max 0 (min 65535 (int (unat l) + int (unat p) - int (unat d)))"
proof -
  have "int (unat (if n < 0 then 0 else if n > 65535 then 65535 else word_of_int n :: u16)) = max 0 (min 65535 n)" for n
    by (auto simp: max_def min_def unsigned_of_int take_bit_int_eq_self)
  then show ?thesis unfolding sub_pixel_def Let_def .
qed

subsection \<open>Defective pixels\<close>

record bad_px =
  bp_x :: int
  bp_y :: int
  bp_v :: int

definition bad_insert :: "bad_px \<Rightarrow> bad_px list \<Rightarrow> bad_px list" where
  \<comment> \<open>\<open>std::set::insert\<close> under the order of \<open>BadPx\<close>, which compares the values only\<close>
  "bad_insert b s = (if \<exists>b'\<in>set s. bp_v b' = bp_v b then s else insort_key bp_v b s)"

record image_stats =
  is_mean :: real
  is_stdev :: real
  is_median :: u16
  is_mad :: u16

fun welford :: "real \<Rightarrow> real \<Rightarrow> real \<Rightarrow> u16 list \<Rightarrow> real \<times> real \<times> real" where
  \<comment> \<open>\<open>a\<close>, \<open>q\<close> and \<open>km1\<close> after the loop; \<open>k\<close> is \<open>km1 + 1\<close>\<close>
  "welford a q km1 [] = (a, q, km1)"
| "welford a q km1 (p # ps) =
    (let x = real (unat p); a' = a + (x - a) / (km1 + 1) in welford a' (q + (x - a) * (x - a')) (km1 + 1) ps)"

definition abs_dev :: "u16 \<Rightarrow> u16 \<Rightarrow> u16" where
  "abs_dev med p = word_of_int \<bar>int (unat p) - int (unat med)\<bar>"

definition GetImageStats :: "us_image \<Rightarrow> rect \<Rightarrow> image_stats option" where
  \<comment> \<open>\<^term>\<open>None\<close>: an empty window\<close>
  "GetImageStats img win =
    (let tmp = hood (ImageData img) (Width img) win [0 .. rW win - 1] [0 .. rH win - 1];
         (a, q, km1) = welford 0 0 0 tmp; mid = length tmp div 2; med = sort tmp ! mid
     in case fdiv q km1 \<bind> fsqrt of None \<Rightarrow> None
        | Some sd \<Rightarrow> Some \<lparr>is_mean = a, is_stdev = sd, is_median = med, is_mad = sort (map (abs_dev med) tmp) ! mid\<rparr>)"

record defect_darks =
  masterDark :: us_image
  filteredDark :: us_image

definition BuildFilteredDark :: "defect_darks \<Rightarrow> defect_darks" where
  "BuildFilteredDark d =
    d\<lparr>filteredDark := (filteredDark d)\<lparr>ImageData := MedianFilter (masterDark d) 15, Width := Width (masterDark d), Height := Height (masterDark d),
        Subframe := \<lparr>rX = 0, rY = 0, rW = 0, rH = 0\<rparr>, MinADU := 0, MaxADU := 0, MedianADU := 0\<rparr>\<rparr>"

record defect_map_builder =
  dm_stats :: image_stats
  aggrCold :: int
  aggrHot :: int
  coldPx :: "bad_px list"
  hotPx :: "bad_px list"
  coldPxThresh :: "bad_px list" \<comment> \<open>an iterator: the rest of the set from it on\<close>
  hotPxThresh :: "bad_px list"
  threshValid :: bool

definition AggrToSigma :: "int \<Rightarrow> real" where
  "AggrToSigma val = 2 powr (3 - (6 / 100) * of_int val)"

definition potential_defect :: "int \<Rightarrow> us_image \<Rightarrow> us_image \<Rightarrow> int \<Rightarrow> int \<Rightarrow> bad_px list \<times> bad_px list \<Rightarrow> bad_px list \<times> bad_px list" where
  "potential_defect thresh dark medianFilt x y s =
    (let v = int (unat (px (ImageData dark) (Width dark) x y)) - int (unat (px (ImageData medianFilt) (Width medianFilt) x y))
     in if v > thresh then (fst s, bad_insert \<lparr>bp_x = x, bp_y = y, bp_v = v\<rparr> (snd s))
        else if - v > thresh then (bad_insert \<lparr>bp_x = x, bp_y = y, bp_v = - v\<rparr> (fst s), snd s) else s)"

definition dm_Init :: "defect_darks \<Rightarrow> defect_map_builder \<Rightarrow> defect_map_builder option" where
  "dm_Init darks b =
    (case GetImageStats (masterDark darks) (size_rect (masterDark darks)) of None \<Rightarrow> None
     | Some stats \<Rightarrow>
         let dark = masterDark darks; thresh = trunc (AggrToSigma 100 * is_stdev stats);
             s = foldl (\<lambda>s y. foldl (\<lambda>s x. potential_defect thresh dark (filteredDark darks) x y s) s [0 .. Width dark - 1])
                   ([], []) [0 .. Height dark - 1]
         in Some (b\<lparr>dm_stats := stats, coldPx := fst s, hotPx := snd s\<rparr>))"

definition SetAggressiveness :: "int \<Rightarrow> int \<Rightarrow> defect_map_builder \<Rightarrow> defect_map_builder" where
  "SetAggressiveness cold hot b =
    b\<lparr>aggrCold := max 0 (min 100 cold), aggrHot := max 0 (min 100 hot), threshValid := False\<rparr>"

definition FindThresh :: "defect_map_builder \<Rightarrow> defect_map_builder" where
  "FindThresh b =
    (if threshValid b then b
     else
       let coldThresh = trunc (AggrToSigma (aggrCold b) * is_stdev (dm_stats b));
           hotThresh = trunc (AggrToSigma (aggrHot b) * is_stdev (dm_stats b))
       in b\<lparr>coldPxThresh := dropWhile (\<lambda>p. bp_v p < coldThresh) (coldPx b),
            hotPxThresh := dropWhile (\<lambda>p. bp_v p < hotThresh) (hotPx b), threshValid := True\<rparr>)"

definition GetColdPixelCnt :: "defect_map_builder \<Rightarrow> defect_map_builder \<times> nat" where
  "GetColdPixelCnt b = (let b = FindThresh b in (b, length (coldPxThresh b)))"

definition GetHotPixelCnt :: "defect_map_builder \<Rightarrow> defect_map_builder \<times> nat" where
  "GetHotPixelCnt b = (let b = FindThresh b in (b, length (hotPxThresh b)))"

definition BuildDefectMap :: "defect_map_builder \<Rightarrow> defect_map_builder \<times> (int \<times> int) list" where
  "BuildDefectMap b =
    (let b = FindThresh b; emit = map (\<lambda>p. (bp_x p, bp_y p)) in (b, emit (coldPxThresh b) @ emit (hotPxThresh b)))"

definition MedianBorderingPixels :: "us_image \<Rightarrow> int \<Rightarrow> int \<Rightarrow> u16" where
  "MedianBorderingPixels img x y =
    (let w = Width img; h = Height img; pix = (\<lambda>(dx, dy). px (ImageData img) w (x + dx) (y + dy))
     in if x > 0 \<and> y > 0 \<and> x < w - 1 \<and> y < h - 1
        then median8 (map pix [(-1, -1), (0, -1), (1, -1), (-1, 0), (1, 0), (-1, 1), (0, 1), (1, 1)])
        else if x = 0 \<and> y > 0 \<and> y < h - 1 then median5 (map pix [(0, -1), (0, 1), (1, -1), (1, 0), (1, 1)])
        else if x = w - 1 \<and> y > 0 \<and> y < h - 1 then median5 (map pix [(0, -1), (0, 1), (-1, -1), (-1, 0), (-1, 1)])
        else if y = 0 \<and> x > 0 \<and> x < w - 1 then median5 (map pix [(-1, 0), (-1, 1), (0, 1), (1, 0), (1, 1)])
        else if y = h - 1 \<and> x > 0 \<and> x < w - 1 then median5 (map pix [(-1, 0), (-1, -1), (0, -1), (1, 0), (1, -1)])
        else if x = 0 \<and> y = 0 then median3 (map pix [(1, 0), (0, 1), (1, 1)])
        else if x = 0 \<and> y = h - 1 then median3 (map pix [(1, 0), (0, -1), (1, -1)])
        else if x = w - 1 \<and> y = h - 1 then median3 (map pix [(-1, 0), (0, -1), (-1, -1)])
        else if x = w - 1 \<and> y = 0 then median3 (map pix [(-1, 0), (0, 1), (-1, 1)])
        else 0)"

definition repair_pixel :: "us_image \<Rightarrow> int \<times> int \<Rightarrow> us_image" where
  "repair_pixel light p =
    light\<lparr>ImageData := (ImageData light)[nat (snd p * Width light + fst p) := MedianBorderingPixels light (fst p) (snd p)]\<rparr>"

definition RemoveDefects :: "(int \<times> int) list \<Rightarrow> us_image \<Rightarrow> us_image \<times> bool" where
  "RemoveDefects defectMap light =
    (if ImageData light = [] then (light, True)
     else (foldl (\<lambda>img p. if rect_Contains (if rect_IsEmpty (Subframe light) then size_rect light else Subframe light) p
              then repair_pixel img p else img) light defectMap, False))"

text \<open>Of several hot (or cold) pixels with the same excess over their neighbourhood only the first is recorded: the set
  orders pixels by their excess alone.\<close>

lemma equal_excess_lost:
  assumes "v = int (unat (px (ImageData dark) (Width dark) x y)) - int (unat (px (ImageData filt) (Width filt) x y))"
    and "thresh < v" "b \<in> set (snd s)" "bp_v b = v"
  shows "potential_defect thresh dark filt x y s = s"
  using assms by (auto simp: potential_defect_def bad_insert_def Let_def intro: prod_eqI)

lemma bad_insert_sorted:
  "sorted (map bp_v s) \<Longrightarrow> sorted (map bp_v (bad_insert b s))" "bp_v ` set (bad_insert b s) = insert (bp_v b) (bp_v ` set s)"
  "set (bad_insert b s) \<subseteq> insert b (set s)"
  by (auto simp: bad_insert_def sorted_insort_key set_insort_key intro: rev_image_eqI)

text \<open>The counts of the builder agree with the map it builds, and the map is the pixels from the threshold on.\<close>

lemma defect_counts:
  "length (snd (BuildDefectMap b)) = snd (GetColdPixelCnt b) + snd (GetHotPixelCnt b)"
  by (simp add: BuildDefectMap_def GetColdPixelCnt_def GetHotPixelCnt_def Let_def)

lemma sorted_dropWhile_filter: "sorted (map f s) \<Longrightarrow> dropWhile (\<lambda>p. f p < (c::int)) s = filter (\<lambda>p. c \<le> f p) s"
proof (induction s)
  case (Cons a s)
  then have "\<not> f a < c \<Longrightarrow> filter (\<lambda>p. c \<le> f p) s = s" by (intro filter_True) auto
  then show ?case using Cons by auto
qed simp

text \<open>The repair of a frame touches the pixels of the map only, and leaves its size alone.\<close>

lemma idx_inj:
  assumes "0 \<le> x" "x < w" "0 \<le> x'" "x' < w" "0 \<le> y" "0 \<le> y'" "nat (y * w + x) = nat (y' * w + x')"
  shows "x = x' \<and> y = y'"
proof -
  have "0 \<le> y * w + x" "0 \<le> y' * w + x'" using assms by simp_all
  then have e: "y * w + x = y' * w + x'" using assms(7) by simp
  then have "\<not> y < y'" "\<not> y' < y" using row_order [of x w x' y y'] row_order [of x' w x y' y] assms by linarith+
  then have "y = y'" by simp
  with e show ?thesis by simp
qed

lemma repair_fold:
  assumes "Width img = w" "\<And>p. p \<in> set ps \<Longrightarrow> P p \<Longrightarrow> nat (snd p * w + fst p) \<noteq> i"
  shows "ImageData (foldl (\<lambda>img p. if P p then repair_pixel img p else img) img ps) ! i = ImageData img ! i \<and>
    length (ImageData (foldl (\<lambda>img p. if P p then repair_pixel img p else img) img ps)) = length (ImageData img)"
  using assms
proof (induction ps arbitrary: img)
  case (Cons p ps)
  have "Width (if P p then repair_pixel img p else img) = w" using Cons.prems(1) by (simp add: repair_pixel_def)
  from Cons.IH [OF this] Cons.prems show ?case by (auto simp: repair_pixel_def)
qed simp

lemma repair_frame:
  assumes "image_ok light" "rect_IsEmpty (Subframe light) \<or> inside (Subframe light) light"
    and "0 \<le> x" "x < Width light" "0 \<le> y" "(x, y) \<notin> set defectMap"
  shows "px (ImageData (fst (RemoveDefects defectMap light))) (Width light) x y = px (ImageData light) (Width light) x y"
    "length (ImageData (fst (RemoveDefects defectMap light))) = length (ImageData light)"
proof -
  define P where "P = rect_Contains (if rect_IsEmpty (Subframe light) then size_rect light else Subframe light)"
  have "0 \<le> fst p \<and> fst p < Width light \<and> 0 \<le> snd p" if "P p" for p
    using that assms(2) by (auto simp: P_def rect_Contains_def size_rect_def inside_def split: if_splits)
  then have "nat (snd p * Width light + fst p) \<noteq> nat (y * Width light + x)" if "p \<in> set defectMap" "P p" for p
    using idx_inj [of "fst p" "Width light" x "snd p" y] that assms(3-6) by (metis prod.collapse)
  from repair_fold [OF refl this, where ps = defectMap] show
    "px (ImageData (fst (RemoveDefects defectMap light))) (Width light) x y = px (ImageData light) (Width light) x y"
    "length (ImageData (fst (RemoveDefects defectMap light))) = length (ImageData light)"
    by (simp_all add: RemoveDefects_def px_def P_def)
qed

end
