(* ===== verification/StarFind.thy ===== *)
theory StarFind
  imports StarTracking ImageRepair
begin

text \<open>
  \<open>Star::Find\<close> of \<open>src/src/guiding/star.cpp\<close>: the peak in the search region, the background around it, the pixels above
  the background, their centroid and half flux diameter, and the tests a star has to pass. One definition per stage.
\<close>

subsection \<open>The stages\<close>

datatype find_mode = FIND_CENTROID | FIND_PEAK

definition valid_area :: "us_image \<Rightarrow> int \<times> int \<times> int \<times> int" where
  \<comment> \<open>\<open>minx\<close>, \<open>miny\<close>, \<open>maxx\<close>, \<open>maxy\<close>\<close>
  "valid_area img =
    (if rect_IsEmpty (Subframe img) then (0, 0, Width img - 1, Height img - 1)
     else (rX (Subframe img), rY (Subframe img), rect_Right (Subframe img), rect_Bottom (Subframe img)))"

definition around :: "int \<Rightarrow> int \<Rightarrow> int \<Rightarrow> int \<times> int \<times> int \<times> int \<Rightarrow> int \<times> int \<times> int \<times> int" where
  \<comment> \<open>\<open>start_x\<close>, \<open>start_y\<close>, \<open>end_x\<close>, \<open>end_y\<close>: at most \<open>k\<close> pixels away and inside the valid area\<close>
  "around k x y = (\<lambda>(minx, miny, maxx, maxy). (max (x - k) minx, max (y - k) miny, min (x + k) maxx, min (y + k) maxy))"

definition pixels :: "int \<times> int \<times> int \<times> int \<Rightarrow> (int \<times> int) list" where
  \<comment> \<open>row by row\<close>
  "pixels = (\<lambda>(x0, y0, x1, y1). concat (map (\<lambda>y. map (\<lambda>x. (x, y)) [x0 .. x1]) [y0 .. y1]))"

type_synonym peak = "int \<times> int \<times> int" \<comment> \<open>\<open>peak_val\<close>, \<open>peak_x\<close>, \<open>peak_y\<close>\<close>

definition higher_peak :: "int \<Rightarrow> int \<times> int \<Rightarrow> peak \<Rightarrow> peak" where
  "higher_peak val p pk = (if val > fst pk then (val, p) else pk)"

definition raw_peak :: "us_image \<Rightarrow> int \<times> int \<times> int \<times> int \<Rightarrow> peak" where
  "raw_peak img r = foldl (\<lambda>pk p. higher_peak (int (unat (px (ImageData img) (Width img) (fst p) (snd p)))) p pk) (0, 0, 0) (pixels r)"

definition smoothed :: "us_image \<Rightarrow> int \<times> int \<Rightarrow> int" where
  "smoothed img p =
    (let v = (\<lambda>dx dy. int (unat (px (ImageData img) (Width img) (fst p + dx) (snd p + dy))))
     in 4 * v 0 0 + v (-1) (-1) + v 1 (-1) + v (-1) 1 + v 1 1 + 2 * v 0 (-1) + 2 * v (-1) 0 + 2 * v 1 0 + 2 * v 0 1)"

definition smooth_peak :: "us_image \<Rightarrow> int \<times> int \<times> int \<times> int \<Rightarrow> peak \<times> u16 list" where
  \<comment> \<open>the peak of the smoothed image, and the three largest raw pixels\<close>
  "smooth_peak img = (\<lambda>(x0, y0, x1, y1).
    foldl (\<lambda>(pk, max3) p. (higher_peak (smoothed img p) p pk, keep_largest (px (ImageData img) (Width img) (fst p) (snd p)) max3))
      ((0, 0, 0), [0, 0, 0]) (pixels (x0 + 1, y0 + 1, x1 - 1, y1 - 1)))"

definition r2_from :: "int \<times> int \<Rightarrow> int \<times> int \<Rightarrow> int" where
  "r2_from pk p = (fst p - fst pk) * (fst p - fst pk) + (snd p - snd pk) * (snd p - snd pk)"

definition A_RADIUS :: int where "A_RADIUS = 7"
definition B_RADIUS :: int where "B_RADIUS = 12"

definition annulus :: "us_image \<Rightarrow> int \<times> int \<Rightarrow> real list" where
  \<comment> \<open>the pixels in the annulus, inside the window around the peak\<close>
  "annulus img pk =
    map (\<lambda>p. real (unat (px (ImageData img) (Width img) (fst p) (snd p))))
      (filter (\<lambda>p. \<not> (r2_from pk p \<le> A_RADIUS * A_RADIUS \<or> r2_from pk p > B_RADIUS * B_RADIUS))
        (pixels (around B_RADIUS (fst pk) (snd pk) (valid_area img))))"

fun bg_pass :: "real list \<Rightarrow> real \<times> real \<times> real \<times> nat \<Rightarrow> real \<times> real \<times> real \<times> nat" where
  \<comment> \<open>\<open>sum\<close>, \<open>a\<close>, \<open>q\<close> and \<open>nbg\<close>\<close>
  "bg_pass [] s = s"
| "bg_pass (v # vs) (sm, a, q, nbg) =
    (let a' = a + (v - a) / real (nbg + 1) in bg_pass vs (sm + v, a', q + (v - a) * (v - a'), nbg + 1))"

record background =
  bg_mean :: real
  bg_sigma2 :: real
  bg_sigma :: real
  bg_n :: nat

fun bg_loop :: "nat \<Rightarrow> bool \<Rightarrow> real list \<Rightarrow> background \<Rightarrow> background" where
  \<comment> \<open>the passes left; whether this is the first, which takes every pixel\<close>
  "bg_loop 0 first vals b = b"
| "bg_loop (Suc k) first vals b =
    (let used = (if first then vals
                 else filter (\<lambda>v. \<not> (v < bg_mean b - 2 * bg_sigma b \<or> v > bg_mean b + 2 * bg_sigma b)) vals);
         (sm, a, q, nbg) = bg_pass used (0, 0, 0, 0)
     in if nbg < 10 then b\<lparr>bg_n := nbg\<rparr>
        else
          let m = sm / real nbg; s2 = q / (real nbg - 1);
              b' = \<lparr>bg_mean = m, bg_sigma2 = s2, bg_sigma = sqrt s2, bg_n = nbg\<rparr>
          in if \<not> first \<and> \<bar>m - bg_mean b\<bar> < 0.5 then b' else bg_loop k False vals b')"

definition measure_bg :: "us_image \<Rightarrow> int \<times> int \<Rightarrow> background" where
  "measure_bg img pk = bg_loop 9 True (annulus img pk) \<lparr>bg_mean = 0, bg_sigma2 = 0, bg_sigma = 0, bg_n = 0\<rparr>"

definition star_thresh :: "background \<Rightarrow> u16" where
  "star_thresh b = word_of_int (trunc (bg_mean b + 3 * bg_sigma b + 0.5))"

definition star_pixels :: "us_image \<Rightarrow> int \<times> int \<Rightarrow> background \<Rightarrow> ((int \<times> int) \<times> real) list" where
  \<comment> \<open>\<open>hfrvec\<close>: the pixels in the aperture that reach the threshold, with their excess over the background\<close>
  "star_pixels img pk b =
    map (\<lambda>p. (p, real (unat (px (ImageData img) (Width img) (fst p) (snd p))) - bg_mean b))
      (filter (\<lambda>p. \<not> r2_from pk p > A_RADIUS * A_RADIUS \<and> \<not> px (ImageData img) (Width img) (fst p) (snd p) < star_thresh b)
        (pixels (around A_RADIUS (fst pk) (snd pk) (valid_area img))))"

fun hfr_loop :: "real \<Rightarrow> real \<times> real \<times> real \<times> real \<Rightarrow> (real \<times> real) list \<Rightarrow> real \<times> real \<times> real \<times> real" where
  \<comment> \<open>\<open>r20\<close>, \<open>r21\<close>, \<open>m0\<close>, \<open>m1\<close>\<close>
  "hfr_loop halfm s [] = s"
| "hfr_loop halfm (r20, r21, m0, m1) ((r2, m) # rms) =
    (if m1 + m > halfm then (r21, r2, m1, m1 + m) else hfr_loop halfm (r21, r2, m1, m1 + m) rms)"

definition hfr :: "((int \<times> int) \<times> real) list \<Rightarrow> real \<Rightarrow> real \<Rightarrow> real \<Rightarrow> real" where
  \<comment> \<open>pixels at equal distance are taken in the order they were found; \<open>std::sort\<close> leaves their order open\<close>
  "hfr vec cx cy mass =
    (if length vec = 1 then 0.25
     else
       let r2 = (\<lambda>p. (of_int (fst p) - cx) * (of_int (fst p) - cx) + (of_int (snd p) - cy) * (of_int (snd p) - cy));
           vec = sort_key fst (map (\<lambda>(p, m). (r2 p, m)) vec);
           halfm = 0.5 * mass; (r20, r21, m0, m1) = hfr_loop halfm (0, 0, 0, 0) vec
       in if m1 > m0 then let r0 = sqrt r20; r1 = sqrt r21; s = (r1 - r0) / (m1 - m0) in r0 + s * (halfm - m0) else 0.25)"

record flux =
  fx_cx :: real
  fx_cy :: real
  fx_mass :: real
  fx_n :: nat
  fx_vec :: "((int \<times> int) \<times> real) list"
  fx_thresh :: u16

definition measure_flux :: "find_mode \<Rightarrow> us_image \<Rightarrow> peak \<Rightarrow> background \<Rightarrow> flux" where
  "measure_flux mode img pk b =
    (if mode = FIND_PEAK
     then \<lparr>fx_cx = 0, fx_cy = 0, fx_mass = of_int (fst pk), fx_n = 1, fx_vec = [], fx_thresh = 0\<rparr>
     else
       let vec = star_pixels img (snd pk) b
       in \<lparr>fx_cx = sum_list (map (\<lambda>(p, d). of_int (fst p - fst (snd pk)) * d) vec),
           fx_cy = sum_list (map (\<lambda>(p, d). of_int (snd p - snd (snd pk)) * d) vec),
           fx_mass = sum_list (map snd vec), fx_n = length vec, fx_vec = vec, fx_thresh = star_thresh b\<rparr>)"

definition LOW_SNR :: real where "LOW_SNR = 3"

definition star_snr :: "flux \<Rightarrow> background \<Rightarrow> real option" where
  \<comment> \<open>\<^term>\<open>None\<close>: not a number\<close>
  "star_snr f b =
    (if fx_n f > 0
     then do {
       w \<leftarrow> fdiv 1 (real (bg_n b));
       d \<leftarrow> fsqrt (fx_mass f / 0.5 + bg_sigma2 b * real (fx_n f) * (1 + w));
       fdiv (fx_mass f) d
     } else Some 0)"

definition is_saturated :: "us_image \<Rightarrow> u16 list \<Rightarrow> u16 \<Rightarrow> bool" where
  "is_saturated img max3 maxADU =
    (let mx = (if max3 ! 0 \<ge> Pedestal img then unat (max3 ! 0) - unat (Pedestal img) else 0)
     in if maxADU > 0 then mx \<ge> unat maxADU
        else let d = unat (max3 ! 0) - unat (max3 ! 2) in if BitsPerPixel img < 12 then d * 191 < mx else d * 65535 < 32 * mx)"

text \<open>The verdict: the result, where the star is, and its half flux diameter (\<^term>\<open>None\<close>: left as it was).\<close>

definition judge_star ::
    "find_mode \<Rightarrow> us_image \<Rightarrow> peak \<Rightarrow> u16 list \<Rightarrow> flux \<Rightarrow> real \<Rightarrow> real \<Rightarrow> real \<Rightarrow> u16 \<Rightarrow> real \<times> real \<Rightarrow> find_result \<times> real \<times> real \<times> real" where
  "judge_star mode img pk max3 f snr minHFD maxHFD maxADU base =
    (if fx_mass f < 10 then (STAR_LOWMASS, fst base, snd base, 0)
     else if snr < LOW_SNR then (STAR_LOWSNR, fst base, snd base, 0)
     else
       let x = of_int (fst (snd pk)) + fx_cx f / fx_mass f; y = of_int (snd (snd pk)) + fx_cy f / fx_mass f;
           hfd = 2 * hfr (fx_vec f) x y (fx_mass f)
       in if mode \<noteq> FIND_PEAK \<and> hfd < minHFD then (STAR_LOWHFD, x, y, hfd)
          else if mode \<noteq> FIND_PEAK \<and> hfd > maxHFD then (STAR_HIHFD, x, y, hfd)
          else (if is_saturated img max3 maxADU then STAR_SATURATED else STAR_OK, x, y, hfd))"

definition search_peak :: "find_mode \<Rightarrow> us_image \<Rightarrow> int \<times> int \<times> int \<times> int \<Rightarrow> peak \<times> u16 list" where
  \<comment> \<open>the peak, of the smoothed image divided by 16, and the three largest pixels\<close>
  "search_peak mode img r =
    (if mode = FIND_PEAK then (raw_peak img r, [0, 0, 0])
     else case smooth_peak img r of (pk, max3) \<Rightarrow> ((fst pk div 16, snd pk), max3))"

definition guard_snr :: "peak \<Rightarrow> flux \<Rightarrow> real \<Rightarrow> real" where
  \<comment> \<open>a smoothed peak not above the threshold is a false star\<close>
  "guard_snr pk f snr = (if fst pk \<le> int (unat (fx_thresh f)) \<and> snr \<ge> LOW_SNR then LOW_SNR - 0.1 else snr)"

definition star_Find ::
    "us_image \<Rightarrow> int \<Rightarrow> int \<Rightarrow> int \<Rightarrow> find_mode \<Rightarrow> real \<Rightarrow> real \<Rightarrow> u16 \<Rightarrow> 'a star_scheme \<Rightarrow> ('a star_scheme \<times> bool) option" where
  \<comment> \<open>the star updated and whether it was found; \<^term>\<open>None\<close>: the signal to noise ratio is not a number\<close>
  "star_Find img searchRegion base_x base_y mode minHFD maxHFD maxADU s =
    (case around searchRegion base_x base_y (valid_area img) of (x0, y0, x1, y1) \<Rightarrow>
      if x1 \<le> x0 \<or> y1 \<le> y0
      then Some (SetXY (of_int base_x) (of_int base_y) (s\<lparr>m_lastFindResult := STAR_ERROR, Mass := 0, SNR := 0, HFD := 0\<rparr>), False)
      else
        let (pk, max3) = search_peak mode img (x0, y0, x1, y1);
            peakval = (if mode = FIND_PEAK then word_of_int (fst pk) else max3 ! 0);
            b = measure_bg img (snd pk); f = measure_flux mode img pk b
        in case star_snr f b of None \<Rightarrow> None
           | Some snr \<Rightarrow>
               let snr = guard_snr pk f snr;
                   (res, x, y, hfd) = judge_star mode img pk max3 f snr minHFD maxHFD maxADU (of_int base_x, of_int base_y)
               in Some (SetXY x y (s\<lparr>PeakVal := peakval, Mass := fx_mass f, SNR := snr, HFD := hfd, m_lastFindResult := res\<rparr>),
                    find_WasFound res))"

definition star_FindAgain ::
    "us_image \<Rightarrow> int \<Rightarrow> find_mode \<Rightarrow> real \<Rightarrow> real \<Rightarrow> u16 \<Rightarrow> 'a star_scheme \<Rightarrow> ('a star_scheme \<times> bool) option" where
  \<comment> \<open>where it was last: the coordinates are converted to \<open>int\<close>\<close>
  "star_FindAgain img searchRegion mode minHFD maxHFD maxADU s =
    star_Find img searchRegion (trunc (X s)) (trunc (Y s)) mode minHFD maxHFD maxADU s"

subsection \<open>Where a star is found\<close>

lemma set_pixels [simp]: "(x, y) \<in> set (pixels (x0, y0, x1, y1)) \<longleftrightarrow> x0 \<le> x \<and> x \<le> x1 \<and> y0 \<le> y \<and> y \<le> y1"
  by (auto simp: pixels_def image_iff)

lemma peak_among:
  "0 \<le> fst pk \<Longrightarrow> fst pk = 0 \<or> snd pk \<in> A \<Longrightarrow> p \<in> A \<Longrightarrow>
   0 \<le> fst (higher_peak v p pk) \<and> (fst (higher_peak v p pk) = 0 \<or> snd (higher_peak v p pk) \<in> A)"
  by (auto simp: higher_peak_def)

lemma raw_peak_among:
  "0 \<le> fst (raw_peak img r)" "fst (raw_peak img r) = 0 \<or> snd (raw_peak img r) \<in> set (pixels r)"
proof -
  have "0 \<le> fst pk \<Longrightarrow> fst pk = 0 \<or> snd pk \<in> set (pixels r) \<Longrightarrow> set ps \<subseteq> set (pixels r) \<Longrightarrow>
      0 \<le> fst (foldl (\<lambda>pk p. higher_peak (f p) p pk) pk ps) \<and> (fst (foldl (\<lambda>pk p. higher_peak (f p) p pk) pk ps) = 0 \<or>
        snd (foldl (\<lambda>pk p. higher_peak (f p) p pk) pk ps) \<in> set (pixels r))" for pk ps f
  proof (induction ps arbitrary: pk)
    case (Cons p ps)
    show ?case using Cons.IH [of "higher_peak (f p) p pk"] peak_among [of pk "set (pixels r)" p "f p"] Cons.prems by simp
  qed simp
  from this [of "(0, 0, 0)" "pixels r"] show "0 \<le> fst (raw_peak img r)" "fst (raw_peak img r) = 0 \<or> snd (raw_peak img r) \<in> set (pixels r)"
    by (simp_all add: raw_peak_def)
qed

lemma smooth_peak_among:
  assumes "smooth_peak img (x0, y0, x1, y1) = (pk, max3)"
  shows "0 \<le> fst pk" "fst pk = 0 \<or> snd pk \<in> set (pixels (x0, y0, x1, y1))"
proof -
  let ?A = "set (pixels (x0, y0, x1, y1))"
  have "0 \<le> fst (fst s) \<Longrightarrow> fst (fst s) = 0 \<or> snd (fst s) \<in> ?A \<Longrightarrow> set ps \<subseteq> ?A \<Longrightarrow>
      foldl (\<lambda>(pk, max3) p. (higher_peak (f p) p pk, g p max3)) s ps = (pk, max3) \<Longrightarrow> 0 \<le> fst pk \<and> (fst pk = 0 \<or> snd pk \<in> ?A)"
    for s ps f and g :: "int \<times> int \<Rightarrow> u16 list \<Rightarrow> u16 list"
  proof (induction ps arbitrary: s)
    case (Cons p ps)
    obtain q m where s: "s = (q, m)" by fastforce
    show ?case
      using Cons.IH [of "(higher_peak (f p) p q, g p m)"] peak_among [of q ?A p "f p"] Cons.prems by (simp add: s)
  qed simp
  note gen = this [of "((0, 0, 0), [0, 0, 0])" "pixels (x0 + 1, y0 + 1, x1 - 1, y1 - 1)" "smoothed img"
      "\<lambda>p. keep_largest (px (ImageData img) (Width img) (fst p) (snd p))"]
  have sub: "set (pixels (x0 + 1, y0 + 1, x1 - 1, y1 - 1)) \<subseteq> ?A" by auto
  have "0 \<le> fst pk \<and> (fst pk = 0 \<or> snd pk \<in> ?A)"
    by (rule gen [OF _ _ sub]) (use assms in \<open>simp_all add: smooth_peak_def del: set_pixels\<close>)
  then show "0 \<le> fst pk" "fst pk = 0 \<or> snd pk \<in> ?A" by simp_all
qed

lemma search_peak_among:
  assumes "search_peak mode img (x0, y0, x1, y1) = (pk, max3)" "0 < fst pk"
  shows "x0 \<le> fst (snd pk) \<and> fst (snd pk) \<le> x1 \<and> y0 \<le> snd (snd pk) \<and> snd (snd pk) \<le> y1"
proof (cases "mode = FIND_PEAK")
  case True
  then show ?thesis using assms raw_peak_among(2) [of img "(x0, y0, x1, y1)"]
    by (cases "snd pk") (auto simp: search_peak_def)
next
  case False
  obtain pk' where pk': "smooth_peak img (x0, y0, x1, y1) = (pk', max3)" "pk = (fst pk' div 16, snd pk')"
    using assms(1) False by (auto simp: search_peak_def split: prod.splits)
  then have "fst pk' \<noteq> 0" using assms(2) by auto
  then show ?thesis using smooth_peak_among(2) [OF pk'(1)] pk'(2) by (cases "snd pk'") auto
qed

lemma bg_pass_sum: "(\<forall>v\<in>set vs. 0 \<le> v) \<Longrightarrow> 0 \<le> fst s \<Longrightarrow> 0 \<le> fst (bg_pass vs s)"
  by (induction vs s rule: bg_pass.induct) (auto simp: Let_def)

lemma bg_loop_mean:
  assumes "\<forall>v\<in>set vals. 0 \<le> v" "0 \<le> bg_mean b"
  shows "0 \<le> bg_mean (bg_loop k first vals b)"
  using assms(2)
proof (induction k arbitrary: first b)
  case (Suc k)
  define used where "used = (if first then vals else filter (\<lambda>v. \<not> (v < bg_mean b - 2 * bg_sigma b \<or> v > bg_mean b + 2 * bg_sigma b)) vals)"
  obtain sm a q nbg where bp: "bg_pass used (0, 0, 0, 0) = (sm, a, q, nbg)" by (metis prod.exhaust)
  have "0 \<le> sm" using bg_pass_sum [of used "(0, 0, 0, 0)"] assms(1) bp by (simp add: used_def)
  then show ?case using Suc by (simp add: Let_def bp flip: used_def)
qed simp

lemma mean_of_deviations:
  assumes "\<forall>(p, d)\<in>set vec. 0 \<le> d \<and> \<bar>f p\<bar> \<le> 7"
  shows "\<bar>sum_list (map (\<lambda>(p, d). of_int (f p) * d) vec)\<bar> \<le> 7 * (sum_list (map snd vec) :: real)"
  using assms
proof (induction vec)
  case (Cons e vec)
  obtain p d where e: "e = (p, d)" by fastforce
  have "\<bar>of_int (f p) * d\<bar> \<le> 7 * d"
    using Cons.prems e by (auto simp: abs_mult intro!: mult_right_mono)
  then show ?case using Cons by (simp add: e algebra_simps)
qed simp

lemma star_pixels_weights:
  assumes "1 / 6 \<le> bg_sigma b" "0 \<le> bg_mean b" "bg_mean b + 3 * bg_sigma b + 0.5 < 65536" "(p, d) \<in> set (star_pixels img pk b)"
  shows "0 \<le> d" "\<bar>fst p - fst pk\<bar> \<le> 7" "\<bar>snd p - snd pk\<bar> \<le> 7"
proof -
  let ?t = "bg_mean b + 3 * bg_sigma b + 0.5"
  have "0 \<le> \<lfloor>?t\<rfloor>" "\<lfloor>?t\<rfloor> < 65536" using assms(1-3) by (simp_all add: floor_less_iff)
  then have t: "int (unat (star_thresh b)) = \<lfloor>?t\<rfloor>"
    using assms(1,2) by (simp add: star_thresh_def trunc_def unsigned_of_int take_bit_int_eq_self)
  have m: "bg_mean b \<le> real (unat (star_thresh b))"
  proof -
    have "?t < of_int \<lfloor>?t\<rfloor> + 1" by linarith
    also have "of_int \<lfloor>?t\<rfloor> = real (unat (star_thresh b))" unfolding t [symmetric] by simp
    finally show ?thesis using assms(1) by linarith
  qed
  let ?v = "px (ImageData img) (Width img) (fst p) (snd p)"
  have pd: "d = real (unat ?v) - bg_mean b" "star_thresh b \<le> ?v" "r2_from pk p \<le> 49"
    using assms(4) by (auto simp: star_pixels_def A_RADIUS_def)
  have "real (unat (star_thresh b)) \<le> real (unat ?v)" using pd(2) by (simp only: word_le_nat_alt of_nat_le_iff)
  then show "0 \<le> d" using m pd(1) by linarith
  have "\<bar>z\<bar> \<le> 7" if "z * z \<le> 49" for z :: int
    using that abs_le_square_iff [of z 7] by (simp add: power2_eq_square)
  moreover have "0 \<le> (fst p - fst pk) * (fst p - fst pk)" "0 \<le> (snd p - snd pk) * (snd p - snd pk)" by simp_all
  then have "(fst p - fst pk) * (fst p - fst pk) \<le> 49" "(snd p - snd pk) * (snd p - snd pk) \<le> 49"
    using pd(3) unfolding r2_from_def by linarith+
  ultimately show "\<bar>fst p - fst pk\<bar> \<le> 7" "\<bar>snd p - snd pk\<bar> \<le> 7" by blast+
qed

lemma flux_centroid:
  assumes "mode \<noteq> FIND_PEAK \<Longrightarrow> 1 / 6 \<le> bg_sigma b \<and> 0 \<le> bg_mean b \<and> bg_mean b + 3 * bg_sigma b + 0.5 < 65536"
    and "10 \<le> fx_mass (measure_flux mode img pk b)"
  shows "\<bar>fx_cx (measure_flux mode img pk b) / fx_mass (measure_flux mode img pk b)\<bar> \<le> (if mode = FIND_PEAK then 0 else 7)"
    "\<bar>fx_cy (measure_flux mode img pk b) / fx_mass (measure_flux mode img pk b)\<bar> \<le> (if mode = FIND_PEAK then 0 else 7)"
proof -
  let ?f = "measure_flux mode img pk b"
  have "\<bar>fx_cx ?f\<bar> \<le> (if mode = FIND_PEAK then 0 else 7) * fx_mass ?f \<and> \<bar>fx_cy ?f\<bar> \<le> (if mode = FIND_PEAK then 0 else 7) * fx_mass ?f"
  proof (cases "mode = FIND_PEAK")
    case False
    have "\<forall>(p, d)\<in>set (star_pixels img (snd pk) b). 0 \<le> d \<and> \<bar>fst p - fst (snd pk)\<bar> \<le> 7"
      "\<forall>(p, d)\<in>set (star_pixels img (snd pk) b). 0 \<le> d \<and> \<bar>snd p - snd (snd pk)\<bar> \<le> 7"
      using star_pixels_weights [of b _ _ img "snd pk"] assms(1) False by blast+
    from this [THEN mean_of_deviations] show ?thesis using False by (simp add: measure_flux_def Let_def)
  qed (simp add: measure_flux_def)
  then show "\<bar>fx_cx ?f / fx_mass ?f\<bar> \<le> (if mode = FIND_PEAK then 0 else 7)" "\<bar>fx_cy ?f / fx_mass ?f\<bar> \<le> (if mode = FIND_PEAK then 0 else 7)"
    using assms(2) by (simp_all add: abs_divide divide_le_eq split: if_splits)
qed

lemma judge_star_found:
  assumes "judge_star mode img pk max3 f snr minHFD maxHFD maxADU base = (res, x, y, hfd)" "find_WasFound res"
  shows "10 \<le> fx_mass f" "3 \<le> snr" "x = of_int (fst (snd pk)) + fx_cx f / fx_mass f" "y = of_int (snd (snd pk)) + fx_cy f / fx_mass f"
    "mode \<noteq> FIND_PEAK \<Longrightarrow> minHFD \<le> hfd \<and> hfd \<le> maxHFD"
  using assms by (auto simp: judge_star_def LOW_SNR_def Let_def split: if_splits)

text \<open>C27: A star that is found is a star, and where it was looked for: its mass is at least 10 and its signal to noise ratio at
  least 3, a centroid's half flux diameter lies between the limits, and its position is at most 7 pixels outside the
  search region around the start (the radius of the aperture around a peak inside the region; in peak mode inside the
  region itself), provided the noise of the background is at least a sixth of an ADU and its level below saturation.\<close>
theorem found_star_is_near:
  assumes "star_Find img searchRegion base_x base_y mode minHFD maxHFD maxADU s = Some (s', True)"
    and "\<And>pk max3. mode \<noteq> FIND_PEAK \<Longrightarrow>
      search_peak mode img (around searchRegion base_x base_y (valid_area img)) = (pk, max3) \<Longrightarrow>
      1 / 6 \<le> bg_sigma (measure_bg img (snd pk)) \<and>
      bg_mean (measure_bg img (snd pk)) + 3 * bg_sigma (measure_bg img (snd pk)) + 0.5 < 65536"
  shows "10 \<le> Mass s' \<and> 3 \<le> SNR s' \<and> (mode \<noteq> FIND_PEAK \<longrightarrow> minHFD \<le> HFD s' \<and> HFD s' \<le> maxHFD) \<and>
    \<bar>X s' - of_int base_x\<bar> \<le> of_int searchRegion + (if mode = FIND_PEAK then 0 else 7) \<and>
    \<bar>Y s' - of_int base_y\<bar> \<le> of_int searchRegion + (if mode = FIND_PEAK then 0 else 7)"
proof -
  obtain x0 y0 x1 y1 where r: "around searchRegion base_x base_y (valid_area img) = (x0, y0, x1, y1)" by (metis prod.exhaust)
  then have box: "base_x - searchRegion \<le> x0" "x1 \<le> base_x + searchRegion" "base_y - searchRegion \<le> y0" "y1 \<le> base_y + searchRegion"
    by (auto simp: around_def split: prod.splits)
  obtain pk max3 where pk: "search_peak mode img (x0, y0, x1, y1) = (pk, max3)" by fastforce
  define b where "b = measure_bg img (snd pk)"
  define f where "f = measure_flux mode img pk b"
  have bnd: "\<not> (x1 \<le> x0 \<or> y1 \<le> y0)" using assms(1) r by (auto split: if_splits simp: star_Find_def)
  obtain snr0 where snr0: "star_snr f b = Some snr0"
    using assms(1) r bnd pk by (auto simp: star_Find_def Let_def b_def f_def split: option.splits)
  define snr where "snr = guard_snr pk f snr0"
  obtain res x y hfd where j: "judge_star mode img pk max3 f snr minHFD maxHFD maxADU (of_int base_x, of_int base_y) = (res, x, y, hfd)"
    by (metis prod.exhaust)
  have s': "Mass s' = fx_mass f" "SNR s' = snr" "HFD s' = hfd" "X s' = x" "Y s' = y" "find_WasFound res"
    using assms(1) snr0 j by (auto simp: star_Find_def r bnd pk Let_def SetXY_def simp flip: b_def f_def snr_def)
  note found = judge_star_found [OF j s'(6)]
  have "\<not> fst pk \<le> int (unat (fx_thresh f))" using found(2) by (auto simp: snr_def guard_snr_def LOW_SNR_def split: if_splits)
  then have "0 < fst pk" by linarith
  from search_peak_among [OF pk this] have near: "\<bar>fst (snd pk) - base_x\<bar> \<le> searchRegion" "\<bar>snd (snd pk) - base_y\<bar> \<le> searchRegion"
    using box by linarith+
  have "0 \<le> bg_mean b" unfolding b_def measure_bg_def by (rule bg_loop_mean) (auto simp: annulus_def simp del: of_nat_unat)
  then have c: "\<bar>fx_cx f / fx_mass f\<bar> \<le> (if mode = FIND_PEAK then 0 else 7)" "\<bar>fx_cy f / fx_mass f\<bar> \<le> (if mode = FIND_PEAK then 0 else 7)"
    using flux_centroid [of mode b img pk] assms(2) [of pk max3] pk r found(1) by (auto simp: f_def b_def)
  have "\<bar>real_of_int (fst (snd pk)) - of_int base_x\<bar> \<le> of_int searchRegion" "\<bar>real_of_int (snd (snd pk)) - of_int base_y\<bar> \<le> of_int searchRegion"
    using near by linarith+
  then have "\<bar>x - of_int base_x\<bar> \<le> of_int searchRegion + (if mode = FIND_PEAK then 0 else 7)"
    "\<bar>y - of_int base_y\<bar> \<le> of_int searchRegion + (if mode = FIND_PEAK then 0 else 7)"
    using c unfolding found(3,4) by linarith+
  then show ?thesis using found(1,2,5) unfolding s' by blast
qed

definition star_image :: us_image where
  \<comment> \<open>nine columns, two rows, one bright pixel\<close>
  "star_image = test_image\<lparr>ImageData := [18, 0, 0, 0, 0, 0, 0, 0, 0, 0, 0, 0, 0, 0, 0, 0, 0, 0], Width := 9, Height := 2\<rparr>"

definition blank_star :: star where
  "blank_star = \<lparr>m_valid = False, X = 0, Y = 0, Mass = 0, SNR = 0, HFD = 0, PeakVal = 0, m_lastFindResult = STAR_ERROR\<rparr>"

lemma star_image_area: "valid_area star_image = (0, 0, 8, 1)"
  by (simp add: valid_area_def star_image_def test_image_def rect_IsEmpty_def)

lemma star_image_pixels:
  "pixels (0, 0, 8, 1) = [(0, 0), (1, 0), (2, 0), (3, 0), (4, 0), (5, 0), (6, 0), (7, 0), (8, 0),
     (0, 1), (1, 1), (2, 1), (3, 1), (4, 1), (5, 1), (6, 1), (7, 1), (8, 1)]"
  by (simp add: pixels_def upto_rec1)

lemma star_image_peak: "raw_peak star_image (0, 0, 8, 1) = (18, 0, 0)"
  unfolding raw_peak_def star_image_pixels by (simp add: star_image_def test_image_def px_def higher_peak_def)

lemma star_image_bg: "measure_bg star_image (0, 0) = \<lparr>bg_mean = 0, bg_sigma2 = 0, bg_sigma = 0, bg_n = 3\<rparr>"
proof -
  have "around B_RADIUS 0 0 (valid_area star_image) = (0, 0, 8, 1)" by (simp add: around_def star_image_area B_RADIUS_def)
  then have "annulus star_image (0, 0) = [0, 0, 0]"
    by (simp add: annulus_def star_image_pixels r2_from_def A_RADIUS_def B_RADIUS_def) (simp add: star_image_def px_def)
  then show ?thesis by (simp add: measure_bg_def eval_nat_numeral Let_def)
qed

lemma star_image_found:
  "star_Find star_image 10 4 0 FIND_PEAK 1 10 100 blank_star =
    Some (blank_star\<lparr>m_valid := True, PeakVal := 18, Mass := 18, SNR := 3, HFD := 0.5, m_lastFindResult := STAR_OK\<rparr>, True)"
proof -
  have q: "sqrt 36 = 6" by (rule real_sqrt_unique) simp_all
  have sat: "\<not> is_saturated star_image [0, 0, 0] 100" by (simp add: is_saturated_def star_image_def test_image_def)
  show ?thesis
    by (simp add: star_Find_def around_def star_image_area star_image_peak search_peak_def star_image_bg measure_flux_def star_snr_def
        guard_snr_def LOW_SNR_def judge_star_def hfr_def sat SetXY_def blank_star_def Let_def q)
qed

theorem found_star_is_near_witness:
  "\<exists>s'. star_Find star_image 10 4 0 FIND_PEAK 1 10 100 blank_star = Some (s', True) \<and> \<bar>X s' - 4\<bar> \<le> 10"
proof -
  from found_star_is_near [OF star_image_found] show ?thesis using star_image_found by simp
qed

end
