(* ===== verification/StarSelect.thy ===== *)
theory StarSelect
  imports StarFind
begin

text \<open>
  \<open>GuideStar::AutoFind\<close> of \<open>src/src/guiding/star.cpp\<close>: candidate stars are the local maxima of the image convolved with a
  point spread function; those too close together or to the edge are dropped, and the brightest that passes the
  tests becomes the guide star, the others the secondary stars. \<open>float\<close> values are reals, as \<open>double\<close> values are.
\<close>

subsection \<open>Guide stars\<close>

record guide_star = star +
  referencePoint :: sodium_point
  missCount :: nat
  zeroCount :: nat
  offsetFromPrimary :: sodium_point
  wasLost :: bool

definition GuideStar_new :: guide_star where
  \<comment> \<open>\<open>PeakVal\<close> is indeterminate in the code until the star is looked for\<close>
  "GuideStar_new =
    \<lparr>m_valid = False, X = 0, Y = 0, Mass = 0, SNR = 0, HFD = 0, PeakVal = 0, m_lastFindResult = STAR_ERROR,
     referencePoint = SodiumPoint 0 0, missCount = 0, zeroCount = 0, offsetFromPrimary = SodiumPoint 0 0, wasLost = False\<rparr>"

definition set_reference :: "guide_star \<Rightarrow> guide_star" where
  "set_reference g = g\<lparr>referencePoint := (referencePoint g)\<lparr>X := X g, Y := Y g\<rparr>\<rparr>"

lemma set_reference_fields [simp]:
  "X (set_reference g) = X g" "Y (set_reference g) = Y g" "SNR (set_reference g) = SNR g"
  "m_valid (set_reference g) = m_valid g" "m_lastFindResult (set_reference g) = m_lastFindResult g"
  by (cases g; simp add: set_reference_def)+

subsection \<open>Floating point images\<close>

record float_img =
  fi_px :: "real list"
  fi_W :: int
  fi_H :: int

definition FloatImg :: "us_image \<Rightarrow> float_img" where
  "FloatImg img = \<lparr>fi_px = map (\<lambda>v. real (unat v)) (ImageData img), fi_W = Width img, fi_H = Height img\<rparr>"

definition fpx :: "float_img \<Rightarrow> int \<Rightarrow> int \<Rightarrow> real" where
  "fpx img x y = fi_px img ! nat (fi_W img * y + x)"

definition rect_pixels :: "rect \<Rightarrow> (int \<times> int) list" where
  "rect_pixels r = pixels (rX r, rY r, rect_Right r, rect_Bottom r)"

definition img_GetStats :: "float_img \<Rightarrow> rect \<Rightarrow> (real \<times> real) option" where
  \<comment> \<open>mean and deviation; \<^term>\<open>None\<close>: no pixel\<close>
  "img_GetStats img win =
    (case bg_pass (map (\<lambda>p. fpx img (fst p) (snd p)) (rect_pixels win)) (0, 0, 0, 0) of (sm, a, q, n) \<Rightarrow>
      do { m \<leftarrow> fdiv sm (real n); v \<leftarrow> fdiv q (real n); s \<leftarrow> fsqrt v; Some (m, s) })"

subsection \<open>The point spread function\<close>

definition psf_sum :: "float_img \<Rightarrow> int \<Rightarrow> int \<Rightarrow> (int \<times> int) list \<Rightarrow> real" where
  "psf_sum src x y ds = sum_list (map (\<lambda>d. fpx src (x + fst d) (y + snd d)) ds)"

definition psf_B1 :: "(int \<times> int) list" where "psf_B1 = [(0, -1), (0, 1), (1, 0), (-1, 0)]"
definition psf_B2 :: "(int \<times> int) list" where "psf_B2 = [(-1, -1), (1, -1), (-1, 1), (1, 1)]"
definition psf_C1 :: "(int \<times> int) list" where "psf_C1 = [(0, -2), (-2, 0), (2, 0), (0, 2)]"
definition psf_C2 :: "(int \<times> int) list" where
  "psf_C2 = [(-1, -2), (1, -2), (-2, -1), (2, -1), (-2, 1), (2, 1), (-1, 2), (1, 2)]"
definition psf_C3 :: "(int \<times> int) list" where "psf_C3 = [(-2, -2), (2, -2), (-2, 2), (2, 2)]"
definition psf_D1 :: "(int \<times> int) list" where "psf_D1 = [(0, -3), (-3, 0), (3, 0), (0, 3)]"
definition psf_D2 :: "(int \<times> int) list" where
  "psf_D2 = [(-1, -3), (1, -3), (-3, -1), (3, -1), (-3, 1), (3, 1), (-1, 3), (1, 3)]"
definition psf_D3 :: "(int \<times> int) list" where
  "psf_D3 = [(-4, -2), (-3, -2), (3, -2), (4, -2), (-4, -1), (4, -1), (-4, 0), (4, 0), (-4, 1), (4, 1), (-4, 2), (-3, 2), (3, 2), (4, 2)]
    @ map (\<lambda>i. (i, -4)) [-4 .. 4] @ map (\<lambda>i. (i, -3)) ([-4 .. -2] @ [2 .. 4])
    @ map (\<lambda>i. (i, 3)) ([-4 .. -2] @ [2 .. 4]) @ map (\<lambda>i. (i, 4)) [-4 .. 4]"

definition psf_fit :: "float_img \<Rightarrow> int \<Rightarrow> int \<Rightarrow> real" where
  "psf_fit src x y =
    (let A = fpx src x y; B1 = psf_sum src x y psf_B1; B2 = psf_sum src x y psf_B2; C1 = psf_sum src x y psf_C1;
         C2 = psf_sum src x y psf_C2; C3 = psf_sum src x y psf_C3; D1 = psf_sum src x y psf_D1;
         D2 = psf_sum src x y psf_D2; D3 = psf_sum src x y psf_D3; m = (A + B1 + B2 + C1 + C2 + C3 + D1 + D2 + D3) / 81
     in 0.906 * (A - m) + 0.584 * (B1 - 4 * m) + 0.365 * (B2 - 4 * m) + 0.117 * (C1 - 4 * m) + 0.049 * (C2 - 8 * m)
        + (-0.05) * (C3 - 4 * m) + (-0.064) * (D1 - 4 * m) + (-0.074) * (D2 - 8 * m) + (-0.094) * (D3 - 44 * m))"

definition psf_conv :: "float_img \<Rightarrow> float_img" where
  "psf_conv src = src\<lparr>fi_px :=
    map (\<lambda>(x, y). if 4 \<le> x \<and> x < fi_W src - 4 \<and> 4 \<le> y \<and> y < fi_H src - 4 then psf_fit src x y else 0)
      (pixels (0, 0, fi_W src - 1, fi_H src - 1))\<rparr>"

definition Downsample :: "float_img \<Rightarrow> int \<Rightarrow> float_img" where
  "Downsample src d =
    (let dw = fi_W src div d; dh = fi_H src div d
     in \<lparr>fi_px = map (\<lambda>(xx, yy). sum_list (map (\<lambda>(i, j). fpx src (xx * d + i) (yy * d + j)) (pixels (0, 0, d - 1, d - 1))) / of_int (d * d))
           (pixels (0, 0, dw - 1, dh - 1)), fi_W = dw, fi_H = dh\<rparr>)"

text \<open>The grid of the point spread function has 81 places, and each is counted once.\<close>

lemma psf_grid:
  "set ((0, 0) # psf_B1 @ psf_B2 @ psf_C1 @ psf_C2 @ psf_C3 @ psf_D1 @ psf_D2 @ psf_D3) = {-4 .. 4 :: int} \<times> {-4 .. 4 :: int}"
  "length ((0, 0) # psf_B1 @ psf_B2 @ psf_C1 @ psf_C2 @ psf_C3 @ psf_D1 @ psf_D2 @ psf_D3) = 81"
proof -
  let ?l = "(0, 0) # psf_B1 @ psf_B2 @ psf_C1 @ psf_C2 @ psf_C3 @ psf_D1 @ psf_D2 @ psf_D3"
  note grid = psf_B1_def psf_B2_def psf_C1_def psf_C2_def psf_C3_def psf_D1_def psf_D2_def psf_D3_def
  show l: "length ?l = 81" by (simp add: grid upto_rec1)
  have sub: "set ?l \<subseteq> {-4 .. 4 :: int} \<times> {-4 .. 4 :: int}" by (auto simp: grid)
  have "distinct ?l" by (simp add: grid upto_rec1)
  then have "card (set ?l) = 81" using l by (simp only: distinct_card)
  moreover have "card ({-4 .. 4 :: int} \<times> {-4 .. 4 :: int}) = 81" by (simp add: card_cartesian_product)
  ultimately show "set ?l = {-4 .. 4 :: int} \<times> {-4 .. 4 :: int}" using sub by (intro card_subset_eq) simp_all
qed

subsection \<open>Candidates\<close>

type_synonym star_peak = "int \<times> int \<times> real" \<comment> \<open>\<open>x\<close>, \<open>y\<close>, \<open>val\<close>\<close>

abbreviation pk_x :: "star_peak \<Rightarrow> int" where "pk_x p \<equiv> fst p"
abbreviation pk_y :: "star_peak \<Rightarrow> int" where "pk_y p \<equiv> fst (snd p)"
abbreviation pk_val :: "star_peak \<Rightarrow> real" where "pk_val p \<equiv> snd (snd p)"

definition TOP_N :: nat where "TOP_N = 100"

fun peak_insert :: "star_peak \<Rightarrow> star_peak list \<Rightarrow> star_peak list" where
  \<comment> \<open>\<open>std::set<Peak>::insert\<close>, by ascending intensity; a peak as intense as one in the set is not inserted\<close>
  "peak_insert p [] = [p]"
| "peak_insert p (q # qs) =
    (if pk_val p < pk_val q then p # q # qs else if pk_val q < pk_val p then q # peak_insert p qs else q # qs)"

definition keep_top :: "star_peak \<Rightarrow> star_peak list \<Rightarrow> star_peak list" where
  "keep_top p ps = (let ps = peak_insert p ps in if length ps > TOP_N then tl ps else ps)"

definition is_local_max :: "float_img \<Rightarrow> int \<Rightarrow> int \<Rightarrow> bool" where
  "is_local_max conv x y \<longleftrightarrow> fpx conv x y > 0 \<and>
    (\<forall>d\<in>set (pixels (-4, -4, 4, 4)). d = (0, 0) \<or> \<not> fpx conv (x + fst d) (y + snd d) > fpx conv x y)"

definition star_intensity :: "float_img \<Rightarrow> rect \<Rightarrow> (real \<times> real) option \<Rightarrow> int \<Rightarrow> int \<Rightarrow> real option" where
  \<comment> \<open>the height above the pixels around, in deviations of the whole\<close>
  "star_intensity conv convRect stats x y = do {
     (gm, gs) \<leftarrow> stats;
     (lm, ls) \<leftarrow> img_GetStats conv (rect_Intersect \<lparr>rX = x - 7, rY = y - 7, rW = 15, rH = 15\<rparr> convRect);
     fdiv (fpx conv x y - lm) gs }"

fun find_peaks :: "float_img \<Rightarrow> rect \<Rightarrow> (real \<times> real) option \<Rightarrow> int \<Rightarrow> (int \<times> int) list \<Rightarrow> star_peak list \<Rightarrow> star_peak list option" where
  "find_peaks conv convRect stats ds [] stars = Some stars"
| "find_peaks conv convRect stats ds ((x, y) # ps) stars =
    (if \<not> is_local_max conv x y then find_peaks conv convRect stats ds ps stars
     else case star_intensity conv convRect stats x y of None \<Rightarrow> None
        | Some h \<Rightarrow> find_peaks conv convRect stats ds ps
            (if h < 0.1 then stars else keep_top (x * ds + ds div 2, y * ds + ds div 2, h) stars))"

definition local_maxima :: "float_img \<Rightarrow> int \<Rightarrow> star_peak list option" where
  "local_maxima conv ds =
    (let convRect = \<lparr>rX = 4, rY = 4, rW = fi_W conv - 8, rH = fi_H conv - 8\<rparr>
     in find_peaks conv convRect (img_GetStats conv convRect) ds
          (pixels (rX convRect + 4, rY convRect + 4, rect_Right convRect - 4, rect_Bottom convRect - 4)) [])"

subsection \<open>Stars close to each other or to the edge\<close>

definition very_close :: "star_peak \<Rightarrow> star_peak \<Rightarrow> bool" where
  "very_close a b \<longleftrightarrow> (pk_x a - pk_x b) * (pk_x a - pk_x b) + (pk_y a - pk_y b) * (pk_y a - pk_y b) < 5 * 5"

fun merge_step :: "star_peak list \<Rightarrow> star_peak list option" where
  \<comment> \<open>the first star with a brighter one very close is erased; \<^term>\<open>None\<close>: there is none\<close>
  "merge_step [] = None"
| "merge_step (a # bs) = (if \<exists>b\<in>set bs. very_close a b then Some bs else map_option (\<lambda>bs. a # bs) (merge_step bs))"

lemma merge_step_length: "merge_step ps = Some qs \<Longrightarrow> length ps = Suc (length qs)"
  by (induction ps arbitrary: qs) (auto split: if_splits)

function merge_close :: "star_peak list \<Rightarrow> star_peak list" where
  "merge_close ps = (case merge_step ps of None \<Rightarrow> ps | Some qs \<Rightarrow> merge_close qs)"
  by pat_completeness auto
termination by (relation "measure length") (auto dest: merge_step_length)

declare merge_close.simps [simp del]

definition too_close :: "int \<Rightarrow> star_peak \<Rightarrow> star_peak \<Rightarrow> bool" where
  \<comment> \<open>in one search region, and the first, the dimmer one, not very dim\<close>
  "too_close searchRegion a b \<longleftrightarrow>
    (let fullw = searchRegion + 5
     in \<bar>pk_x a - pk_x b\<bar> \<le> fullw \<and> \<bar>pk_y a - pk_y b\<bar> \<le> fullw \<and> \<not> pk_val b / pk_val a \<ge> 5)"

definition to_erase :: "int \<Rightarrow> star_peak list \<Rightarrow> nat set" where
  "to_erase searchRegion ps =
    set (concat (map (\<lambda>i. concat (map (\<lambda>j. if too_close searchRegion (ps ! i) (ps ! j) then [i, j] else []) [Suc i ..< length ps]))
      [0 ..< length ps]))"

definition RemoveItems :: "star_peak list \<Rightarrow> nat set \<Rightarrow> star_peak list" where
  "RemoveItems stars erase = map fst (filter (\<lambda>(p, n). \<not> n \<in> erase) (zip stars [0 ..< length stars]))"

definition near_edge :: "us_image \<Rightarrow> int \<Rightarrow> star_peak \<Rightarrow> bool" where
  "near_edge img edgeDist p \<longleftrightarrow>
    pk_x p \<le> edgeDist \<or> pk_x p \<ge> Width img - edgeDist \<or> pk_y p \<le> edgeDist \<or> pk_y p \<ge> Height img - edgeDist"

definition exclude_stars :: "us_image \<Rightarrow> int \<Rightarrow> int \<Rightarrow> star_peak list \<Rightarrow> star_peak list" where
  "exclude_stars img extraEdgeAllowance searchRegion ps =
    (let ps = merge_close ps; ps = RemoveItems ps (to_erase searchRegion ps)
     in filter (\<lambda>p. \<not> near_edge img (searchRegion + extraEdgeAllowance) p) ps)"

subsection \<open>Saturation\<close>

record select_env =
  se_downsample :: nat \<comment> \<open>\<open>GetAutoSelDownsample\<close>, 0: automatic\<close>
  se_pixelScale :: real
  se_byADU :: bool
  se_satADU :: u16
  se_minHFD :: real
  se_maxHFD :: real
  se_minSNR :: real \<comment> \<open>\<open>GetAFMinStarSNR\<close>\<close>

type_synonym star_finder = "star_peak \<Rightarrow> (guide_star \<times> bool) option"

definition find_at_peak :: "us_image \<Rightarrow> int \<Rightarrow> select_env \<Rightarrow> star_finder" where
  "find_at_peak img searchRegion e p =
    star_Find img searchRegion (pk_x p) (pk_y p) FIND_CENTROID (se_minHFD e) (se_maxHFD e) (se_satADU e) GuideStar_new"

definition flat_top :: "u16 \<Rightarrow> guide_star \<Rightarrow> bool" where
  \<comment> \<open>saturated, and near the peak of the whole image\<close>
  "flat_top maxVal g \<longleftrightarrow> star_WasFound g \<and> m_lastFindResult g = STAR_SATURATED \<and>
    \<not> (ucast maxVal - ucast (PeakVal g)) * 255 > (ucast maxVal :: u32)"

fun found_saturated :: "star_finder \<Rightarrow> u16 \<Rightarrow> star_peak list \<Rightarrow> bool option" where
  "found_saturated fnd maxVal [] = Some False"
| "found_saturated fnd maxVal (p # ps) =
    (case fnd p of None \<Rightarrow> None | Some (g, f) \<Rightarrow> if flat_top maxVal g then Some True else found_saturated fnd maxVal ps)"

definition saturation_level :: "us_image \<Rightarrow> select_env \<Rightarrow> star_finder \<Rightarrow> star_peak list \<Rightarrow> u32 option" where
  "saturation_level img e fnd stars =
    (if se_byADU e then Some (ucast (se_satADU e) + ucast (Pedestal img))
     else
       let maxVal = foldl (\<lambda>m v. if v > m then v else m) 0 (ImageData img)
       in case found_saturated fnd maxVal (rev stars) of None \<Rightarrow> None
          | Some True \<Rightarrow> Some (ucast maxVal)
          | Some False \<Rightarrow> Some (push_bit (BitsPerPixel img) 1 - 1 + ucast (Pedestal img)))"

definition near_saturation :: "us_image \<Rightarrow> u32 \<Rightarrow> u16" where
  \<comment> \<open>90 percent of the range above the pedestal\<close>
  "near_saturation img sat_level =
    (let ped = ucast (Pedestal img); range = (if sat_level > ped then sat_level - ped else 0); tmp = ped + 9 * range div 10
     in ucast (if tmp > 65535 then 65535 else tmp))"

subsection \<open>The choice\<close>

definition CloseToReference :: "guide_star \<Rightarrow> guide_star \<Rightarrow> bool" where
  "CloseToReference ref other \<longleftrightarrow> Distance other ref < 25"

fun collect_stars :: "star_finder \<Rightarrow> real \<Rightarrow> star_peak list \<Rightarrow> guide_star list \<Rightarrow> guide_star list option" where
  "collect_stars fnd minSNR [] fs = Some fs"
| "collect_stars fnd minSNR (p # ps) fs =
    (case fnd p of None \<Rightarrow> None
     | Some (g, f) \<Rightarrow> collect_stars fnd minSNR ps
         (if star_WasFound g \<and> SNR g \<ge> minSNR \<and> \<not> (\<exists>other\<in>set fs. CloseToReference g other)
          then fs @ [set_reference g] else fs))"

definition passes :: "nat \<Rightarrow> u16 \<Rightarrow> real \<Rightarrow> guide_star \<Rightarrow> bool" where
  \<comment> \<open>pass 1: not near saturation; pass 2: not saturated; pass 3: any star\<close>
  "passes pass sat_thresh minSNR g \<longleftrightarrow> star_WasFound g \<and>
    (if pass = 1 then \<not> PeakVal g > sat_thresh \<and> \<not> (m_lastFindResult g = STAR_SATURATED \<or> SNR g < minSNR)
     else if pass = 2 then \<not> (m_lastFindResult g = STAR_SATURATED \<or> SNR g < minSNR) else True)"

fun first_passing :: "star_finder \<Rightarrow> (guide_star \<Rightarrow> bool) \<Rightarrow> star_peak list \<Rightarrow> (star_peak \<times> guide_star) option option" where
  "first_passing fnd ok [] = Some None"
| "first_passing fnd ok (p # ps) =
    (case fnd p of None \<Rightarrow> None | Some (g, f) \<Rightarrow> if ok g then Some (Some (p, g)) else first_passing fnd ok ps)"

fun first_pass :: "star_finder \<Rightarrow> (nat \<Rightarrow> guide_star \<Rightarrow> bool) \<Rightarrow> star_peak list \<Rightarrow> nat list \<Rightarrow> (star_peak \<times> guide_star) option option" where
  "first_pass fnd ok ps [] = Some None"
| "first_pass fnd ok ps (n # ns) =
    (case first_passing fnd (ok n) ps of None \<Rightarrow> None | Some None \<Rightarrow> first_pass fnd ok ps ns | Some (Some r) \<Rightarrow> Some (Some r))"

definition same_place :: "guide_star \<Rightarrow> guide_star \<Rightarrow> bool" where
  "same_place a b \<longleftrightarrow> X a = X b \<and> Y a = Y b"

definition with_offset :: "star_peak \<Rightarrow> guide_star \<Rightarrow> guide_star \<Rightarrow> guide_star" where
  "with_offset p g h =
    (if same_place h g then h
     else h\<lparr>offsetFromPrimary := point_sub (referencePoint h) (SodiumPoint (of_int (pk_x p)) (of_int (pk_y p)))\<rparr>)"

definition primary_first :: "nat \<Rightarrow> star_peak \<Rightarrow> guide_star \<Rightarrow> guide_star list \<Rightarrow> guide_star list" where
  \<comment> \<open>the list of stars once the primary is chosen\<close>
  "primary_first maxStars p g fs =
    (let locs = filter (\<lambda>n. same_place (fs ! n) g) [0 ..< length fs]
     in if locs \<noteq> [] then take maxStars (drop (last locs) (map (with_offset p g) fs)) else [set_reference g])"

definition select_star ::
    "star_finder \<Rightarrow> u16 \<Rightarrow> real \<Rightarrow> nat \<Rightarrow> star_peak list \<Rightarrow> ((star_peak \<times> guide_star) option \<times> guide_star list) option" where
  \<comment> \<open>the chosen peak and the star found there, and the list of stars\<close>
  "select_star fnd sat_thresh minSNR maxStars stars =
    (case collect_stars fnd minSNR (rev stars) [] of None \<Rightarrow> None
     | Some fs \<Rightarrow> (case first_pass fnd (\<lambda>n. passes n sat_thresh minSNR) (rev stars) [1, 2, 3] of
         None \<Rightarrow> None
       | Some None \<Rightarrow> Some (None, fs)
       | Some (Some (p, g)) \<Rightarrow> Some (Some (p, g), if maxStars > 1 then primary_first maxStars p g fs else fs)))"

subsection \<open>\<open>AutoFind\<close>\<close>

definition usImage_new :: us_image where
  "usImage_new = \<lparr>ImageData = [], Width = 0, Height = 0, Subframe = \<lparr>rX = 0, rY = 0, rW = 0, rH = 0\<rparr>, MinADU = 0, MaxADU = 0,
     MedianADU = 0, FiltMin = 0, FiltMax = 0, BitsPerPixel = 0, Pedestal = 0\<rparr>"

definition auto_downsample :: "select_env \<Rightarrow> int" where
  "auto_downsample e =
    (if se_downsample e = 0 then (if se_pixelScale e > 0.6 then 1 else 2) else int (se_downsample e))"

definition AutoFind ::
    "(nat \<Rightarrow> u16) \<Rightarrow> select_env \<Rightarrow> us_image \<Rightarrow> int \<Rightarrow> int \<Rightarrow> rect \<Rightarrow> nat \<Rightarrow> guide_star \<times> guide_star list \<Rightarrow>
     (guide_star \<times> guide_star list \<times> bool) option" where
  \<comment> \<open>the star, the list of stars, and whether one was found; \<open>fresh\<close>: the contents of new buffers\<close>
  "AutoFind fresh e img extraEdgeAllowance searchRegion roi maxStars = (\<lambda>(this, foundStars).
    let smoothed = CopyFrom fresh img usImage_new;
        smoothed = (if rect_IsEmpty roi then smoothed else smoothed\<lparr>Subframe := rect_Intersect roi (size_rect smoothed)\<rparr>)
    in if \<not> rect_IsEmpty (Subframe img) then Some (this, foundStars, False)
       else if \<not> rect_IsEmpty roi \<and> (rW (Subframe smoothed) < searchRegion \<or> rH (Subframe smoothed) < searchRegion)
       then Some (this, foundStars, False)
       else
         let conv = FloatImg (Median3 smoothed (map fresh [0 ..< length (ImageData smoothed)]));
             ds = auto_downsample e; conv = psf_conv (if ds > 1 then Downsample conv ds else conv);
             fnd = find_at_peak img searchRegion e
         in case local_maxima conv ds of None \<Rightarrow> None
            | Some stars \<Rightarrow>
                let stars = exclude_stars img extraEdgeAllowance searchRegion stars
                in case saturation_level img e fnd stars of None \<Rightarrow> None
                   | Some sat_level \<Rightarrow>
                       (case select_star fnd (near_saturation img sat_level) (se_minSNR e) maxStars stars of
                          None \<Rightarrow> None
                        | Some (None, fs) \<Rightarrow> Some (this, fs, False)
                        | Some (Some (p, g), fs) \<Rightarrow> Some (SetXY (of_int (pk_x p)) (of_int (pk_y p)) this, fs, True)))"

subsection \<open>The stars that are left\<close>

lemma merge_step_None: "merge_step ps = None \<longleftrightarrow> sorted_wrt (\<lambda>a b. \<not> very_close a b) ps"
  by (induction ps) auto

lemma merge_step_set: "merge_step ps = Some qs \<Longrightarrow> set qs \<subseteq> set ps"
proof (induction ps arbitrary: qs)
  case (Cons a bs)
  then show ?case by (fastforce split: if_splits)
qed simp

lemma merge_close_apart: "sorted_wrt (\<lambda>a b. \<not> very_close a b) (merge_close ps) \<and> set (merge_close ps) \<subseteq> set ps"
proof (induction ps rule: merge_close.induct)
  case (1 ps)
  then show ?case
    using merge_step_set [of ps] by (subst (1 2) merge_close.simps) (auto simp: merge_step_None split: option.split)
qed

lemma set_to_erase:
  "i \<in> to_erase r ps \<longleftrightarrow>
    (\<exists>a b. a < b \<and> b < length ps \<and> too_close r (ps ! a) (ps ! b) \<and> (i = a \<or> i = b))"
proof -
  have e: "i \<in> set (if c then [a, b] else []) \<longleftrightarrow> c \<and> (i = a \<or> i = b)" for c a b by simp
  have "i \<in> to_erase r ps \<longleftrightarrow> (\<exists>a\<in>{0 ..< length ps}. \<exists>b\<in>{Suc a ..< length ps}.
      i \<in> set (if too_close r (ps ! a) (ps ! b) then [a, b] else []))"
    by (simp only: to_erase_def set_concat set_map set_upt UN_iff bex_simps)
  also have "\<dots> \<longleftrightarrow> (\<exists>a\<in>{0 ..< length ps}. \<exists>b\<in>{Suc a ..< length ps}. too_close r (ps ! a) (ps ! b) \<and> (i = a \<or> i = b))"
    by (simp only: e)
  also have "\<dots> \<longleftrightarrow> (\<exists>a b. a < b \<and> b < length ps \<and> too_close r (ps ! a) (ps ! b) \<and> (i = a \<or> i = b))" (is "?l \<longleftrightarrow> ?r")
  proof
    assume ?l then show ?r by (elim bexE conjE, intro exI conjI) auto
  next
    assume ?r
    then obtain a b where "a < b" "b < length ps" "too_close r (ps ! a) (ps ! b) \<and> (i = a \<or> i = b)" by blast
    then show ?l by (intro bexI [of _ a] bexI [of _ b]) simp_all
  qed
  finally show ?thesis .
qed

lemma RemoveItems_apart:
  "sorted_wrt (\<lambda>a b. \<not> too_close r a b) (RemoveItems ps (to_erase r ps))" "set (RemoveItems ps E) \<subseteq> set ps"
  "sorted_wrt Q ps \<Longrightarrow> sorted_wrt Q (RemoveItems ps E)"
proof -
  let ?z = "zip ps [0 ..< length ps]"
  have "sorted_wrt (\<lambda>x y. snd x \<in> to_erase r ps \<or> \<not> too_close r (fst x) (fst y)) ?z"
    unfolding sorted_wrt_iff_nth_less set_to_erase by (simp, blast)
  from sorted_wrt_filter [OF this, of "\<lambda>x. \<not> snd x \<in> to_erase r ps"]
  have "sorted_wrt (\<lambda>x y. \<not> too_close r (fst x) (fst y)) (filter (\<lambda>x. \<not> snd x \<in> to_erase r ps) ?z)"
    by (rule sorted_wrt_mono_rel [rotated]) auto
  then show "sorted_wrt (\<lambda>a b. \<not> too_close r a b) (RemoveItems ps (to_erase r ps))"
    by (simp add: RemoveItems_def sorted_wrt_map case_prod_unfold)
  show "set (RemoveItems ps E) \<subseteq> set ps" by (auto simp: RemoveItems_def dest: set_zip_leftD)
  assume "sorted_wrt Q ps"
  then have "sorted_wrt (\<lambda>x y. Q (fst x) (fst y)) ?z" by (simp add: sorted_wrt_iff_nth_less)
  then show "sorted_wrt Q (RemoveItems ps E)" by (simp add: RemoveItems_def sorted_wrt_map sorted_wrt_filter)
qed

lemma exclude_stars_apart:
  "sorted_wrt (\<lambda>a b. \<not> very_close a b \<and> \<not> too_close searchRegion a b) (exclude_stars img extra searchRegion ps)"
  "p \<in> set (exclude_stars img extra searchRegion ps) \<Longrightarrow> p \<in> set ps \<and> \<not> near_edge img (searchRegion + extra) p"
proof -
  let ?m = "merge_close ps" let ?r = "RemoveItems ?m (to_erase searchRegion ?m)"
  have "sorted_wrt (\<lambda>a b. \<not> very_close a b) ?r" by (simp add: RemoveItems_apart(3) merge_close_apart)
  then have "sorted_wrt (\<lambda>a b. \<not> very_close a b \<and> \<not> too_close searchRegion a b) ?r"
    using RemoveItems_apart(1) [of searchRegion ?m] by (simp add: sorted_wrt_iff_nth_less)
  then show "sorted_wrt (\<lambda>a b. \<not> very_close a b \<and> \<not> too_close searchRegion a b) (exclude_stars img extra searchRegion ps)"
    by (simp add: exclude_stars_def Let_def sorted_wrt_filter)
  show "p \<in> set (exclude_stars img extra searchRegion ps) \<Longrightarrow> p \<in> set ps \<and> \<not> near_edge img (searchRegion + extra) p"
    using RemoveItems_apart(2) [of ?m] merge_close_apart [of ps] by (auto simp: exclude_stars_def Let_def)
qed

subsection \<open>The list of stars\<close>

definition listed :: "real \<Rightarrow> guide_star list \<Rightarrow> bool" where
  "listed minSNR fs \<longleftrightarrow> sorted_wrt (\<lambda>a b. 25 \<le> Distance a b) fs \<and>
    (\<forall>h\<in>set fs. star_WasFound h \<and> minSNR \<le> SNR h \<and> X (referencePoint h) = X h \<and> Y (referencePoint h) = Y h)"

lemma listed_add:
  assumes "listed minSNR fs" "star_WasFound g" "minSNR \<le> SNR g" "\<not> (\<exists>other\<in>set fs. CloseToReference g other)"
  shows "listed minSNR (fs @ [set_reference g])"
proof -
  have "Distance a (set_reference g) = Distance a g" for a :: guide_star by (simp add: Distance_def dX_def dY_def)
  moreover have "star_WasFound (set_reference g)" using assms(2) by (simp add: star_WasFound_def)
  moreover have "X (referencePoint (set_reference g)) = X g" "Y (referencePoint (set_reference g)) = Y g"
    by (simp_all add: set_reference_def)
  ultimately show ?thesis using assms by (auto simp: listed_def sorted_wrt_append CloseToReference_def not_less)
qed

lemma collect_stars_listed: "collect_stars fnd minSNR ps fs = Some gs \<Longrightarrow> listed minSNR fs \<Longrightarrow> listed minSNR gs"
proof (induction ps arbitrary: fs)
  case (Cons p ps)
  then obtain g f where "fnd p = Some (g, f)" by (auto split: option.splits)
  then show ?case using Cons listed_add [of minSNR fs g] by (simp split: if_splits)
qed simp

lemma first_passing_found:
  "first_passing fnd ok ps = Some (Some (p, g)) \<Longrightarrow> p \<in> set ps \<and> (\<exists>f. fnd p = Some (g, f)) \<and> ok g"
  by (induction ps) (auto split: option.splits if_splits)

lemma first_pass_found:
  "first_pass fnd ok ps ns = Some (Some (p, g)) \<Longrightarrow> p \<in> set ps \<and> (\<exists>f. fnd p = Some (g, f)) \<and> (\<exists>n\<in>set ns. ok n g)"
  by (induction ns) (auto split: option.splits dest: first_passing_found)

lemma sorted_le_last: "x \<in> set xs \<Longrightarrow> sorted xs \<Longrightarrow> x \<le> last xs" for x :: nat
  by (induction xs) auto

lemma with_offset_fields [simp]:
  "X (with_offset p g h) = X h" "Y (with_offset p g h) = Y h" "SNR (with_offset p g h) = SNR h"
  "star_WasFound (with_offset p g h) = star_WasFound h"
  by (cases h; simp add: with_offset_def star_WasFound_def)+

lemma listed_with_offset:
  "listed minSNR fs \<Longrightarrow> h \<in> set fs \<Longrightarrow> \<not> same_place h g \<Longrightarrow>
   offsetFromPrimary (with_offset p g h) = SodiumPoint (X h - of_int (pk_x p)) (Y h - of_int (pk_y p))"
  by (simp add: with_offset_def listed_def point_sub_def)

lemma last_location:
  assumes "locs = filter P [0 ..< n]" "locs \<noteq> []"
  shows "last locs < n" "P (last locs)" "last locs < m \<Longrightarrow> m < n \<Longrightarrow> \<not> P m"
proof -
  have "last locs \<in> set locs" using assms(2) by (rule last_in_set)
  then show "last locs < n" "P (last locs)" by (auto simp: assms(1))
  have s: "sorted locs" by (simp add: assms(1) sorted_wrt_filter)
  show "last locs < m \<Longrightarrow> m < n \<Longrightarrow> \<not> P m"
    using sorted_le_last [OF _ s, of m] by (auto simp: assms(1))
qed

lemma primary_first_list:
  assumes "listed minSNR fs" "1 < maxStars"
  shows "primary_first maxStars p g fs \<noteq> []" "length (primary_first maxStars p g fs) \<le> maxStars"
    "same_place (hd (primary_first maxStars p g fs)) g"
    "sorted_wrt (\<lambda>a b. 25 \<le> Distance a b) (primary_first maxStars p g fs)"
    "h \<in> set (tl (primary_first maxStars p g fs)) \<Longrightarrow> star_WasFound h \<and> minSNR \<le> SNR h \<and>
       offsetFromPrimary h = SodiumPoint (X h - of_int (pk_x p)) (Y h - of_int (pk_y p))"
proof -
  define locs where "locs = filter (\<lambda>n. same_place (fs ! n) g) [0 ..< length fs]"
  let ?r = "primary_first maxStars p g fs"
  have "?r \<noteq> [] \<and> length ?r \<le> maxStars \<and> same_place (hd ?r) g \<and> sorted_wrt (\<lambda>a b. 25 \<le> Distance a b) ?r \<and>
    (h \<in> set (tl ?r) \<longrightarrow> star_WasFound h \<and> minSNR \<le> SNR h \<and>
       offsetFromPrimary h = SodiumPoint (X h - of_int (pk_x p)) (Y h - of_int (pk_y p)))"
  proof (cases "locs = []")
    case True
    then have "?r = [set_reference g]" by (simp add: primary_first_def flip: locs_def)
    then show ?thesis using assms(2) by (simp add: same_place_def)
  next
    case False
    note k = last_location [OF locs_def False]
    have P: "?r = take maxStars (drop (last locs) (map (with_offset p g) fs))"
      using False by (simp add: primary_first_def flip: locs_def)
    have hd: "hd ?r = with_offset p g (fs ! last locs)" using k(1) assms(2) by (simp add: P hd_drop_conv_nth)
    have apart: "sorted_wrt (\<lambda>a b. 25 \<le> Distance a b) (map (with_offset p g) fs)"
      using assms(1) by (simp add: listed_def sorted_wrt_map Distance_def dX_def dY_def)
    have "star_WasFound h \<and> minSNR \<le> SNR h \<and> offsetFromPrimary h = SodiumPoint (X h - of_int (pk_x p)) (Y h - of_int (pk_y p))"
      if h: "h \<in> set (tl ?r)"
    proof -
      have "tl ?r = take (maxStars - 1) (drop (Suc (last locs)) (map (with_offset p g) fs))"
        by (simp add: P tl_take drop_Suc tl_drop)
      then have "h \<in> set (drop (Suc (last locs)) (map (with_offset p g) fs))" using h by (metis in_set_takeD)
      then obtain i where i: "h = with_offset p g (fs ! (Suc (last locs) + i))" "Suc (last locs) + i < length fs"
        by (fastforce simp: in_set_conv_nth)
      then have m: "fs ! (Suc (last locs) + i) \<in> set fs" "\<not> same_place (fs ! (Suc (last locs) + i)) g"
        using k(3) [of "Suc (last locs) + i"] by simp_all
      then show ?thesis using assms(1) listed_with_offset [OF assms(1) m] by (simp add: i(1) listed_def)
    qed
    moreover have "sorted_wrt (\<lambda>a b. 25 \<le> Distance a b) ?r"
      unfolding P by (intro sorted_wrt_take sorted_wrt_drop apart)
    moreover have "same_place (hd ?r) g" using k(2) by (simp add: hd same_place_def)
    ultimately show ?thesis using k(1) assms(2) by (simp add: P)
  qed
  then show "?r \<noteq> []" "length ?r \<le> maxStars" "same_place (hd ?r) g" "sorted_wrt (\<lambda>a b. 25 \<le> Distance a b) ?r"
    "h \<in> set (tl ?r) \<Longrightarrow> star_WasFound h \<and> minSNR \<le> SNR h \<and>
       offsetFromPrimary h = SodiumPoint (X h - of_int (pk_x p)) (Y h - of_int (pk_y p))" by blast+
qed

text \<open>C28: Whatever the finder finds, the star chosen after the exclusions was found at a peak that is further from the
  edge than the search region and the allowance, no other peak left shares its search region unless one is five times
  as bright, and the list begins with the chosen star, holds at most the stars asked for, keeps any two of them at
  least 25 pixels apart, and gives every secondary star its offset from the peak of the primary.\<close>
theorem chosen_stars_apart:
  assumes "select_star fnd sat_thresh minSNR maxStars (exclude_stars img extra searchRegion ps) = Some (Some (p, g), fs)"
    and "1 < maxStars"
  shows "(\<exists>f. fnd p = Some (g, f)) \<and> star_WasFound g \<and> p \<in> set ps \<and> \<not> near_edge img (searchRegion + extra) p \<and>
    sorted_wrt (\<lambda>a b. \<not> too_close searchRegion a b) (exclude_stars img extra searchRegion ps) \<and>
    fs \<noteq> [] \<and> length fs \<le> maxStars \<and> same_place (hd fs) g \<and> sorted_wrt (\<lambda>a b. 25 \<le> Distance a b) fs \<and>
    (\<forall>h\<in>set (tl fs). star_WasFound h \<and> minSNR \<le> SNR h \<and>
       offsetFromPrimary h = SodiumPoint (X h - of_int (pk_x p)) (Y h - of_int (pk_y p)))"
proof -
  let ?stars = "exclude_stars img extra searchRegion ps"
  obtain gs where gs: "collect_stars fnd minSNR (rev ?stars) [] = Some gs" "fs = primary_first maxStars p g gs"
    and c: "first_pass fnd (\<lambda>n. passes n sat_thresh minSNR) (rev ?stars) [1, 2, 3] = Some (Some (p, g))"
    using assms by (auto simp: select_star_def split: option.splits)
  have "listed minSNR gs" using collect_stars_listed [OF gs(1)] by (simp add: listed_def)
  note l = primary_first_list [OF this assms(2), where p = p and g = g, folded gs(2)]
  have s: "sorted_wrt (\<lambda>a b. \<not> too_close searchRegion a b) ?stars"
    using exclude_stars_apart(1) by (rule sorted_wrt_mono_rel [rotated]) simp
  show ?thesis
    using first_pass_found [OF c] exclude_stars_apart(2) [of p img extra searchRegion ps] l s by (auto simp: passes_def)
qed

definition two_stars :: star_finder where
  "two_stars p = Some (GuideStar_new\<lparr>X := of_int (pk_x p), Y := of_int (pk_y p), m_valid := True, m_lastFindResult := STAR_OK, SNR := 10\<rparr>, True)"

lemma hypot_x_zero [simp]: "hypot x 0 = \<bar>x\<bar>" by (simp add: hypot_def)

lemma two_stars_left:
  "exclude_stars (test_image\<lparr>Width := 200, Height := 100\<rparr>) 0 15 [(50, 50, 1), (100, 50, 2)] = [(50, 50, 1), (100, 50, 2)]"
proof -
  have m: "merge_close [(50, 50, 1), (100, 50, 2)] = [(50, 50, 1), (100, 50, 2)]"
    by (subst merge_close.simps) (simp add: very_close_def)
  have e: "to_erase 15 [(50, 50, 1), (100, 50, 2)] = {}"
    unfolding to_erase_def by (simp add: too_close_def upt_Suc)
  show ?thesis by (simp add: exclude_stars_def m e RemoveItems_def near_edge_def upt_Suc Let_def)
qed

lemma two_stars_chosen:
  "\<exists>g g1 h. select_star two_stars 60000 6 12 [(50, 50, 1), (100, 50, 2)] = Some (Some ((100, 50, 2), g), [g1, h]) \<and> X h = 50"
  by (simp add: select_star_def two_stars_def GuideStar_new_def star_WasFound_def CloseToReference_def Distance_def dX_def dY_def
      set_reference_def passes_def primary_first_def same_place_def with_offset_def SodiumPoint_def upt_Suc Let_def)

theorem chosen_stars_apart_witness:
  "\<exists>g g1 h. select_star two_stars 60000 6 12 [(50, 50, 1), (100, 50, 2)] = Some (Some ((100, 50, 2), g), [g1, h]) \<and>
     25 \<le> Distance g1 h \<and> 6 \<le> SNR h"
proof -
  obtain g g1 h where r: "select_star two_stars 60000 6 12 [(50, 50, 1), (100, 50, 2)] = Some (Some ((100, 50, 2), g), [g1, h])"
    using two_stars_chosen by blast
  from chosen_stars_apart [of two_stars 60000 6 12 "test_image\<lparr>Width := 200, Height := 100\<rparr>" 0 15 "[(50, 50, 1), (100, 50, 2)]"]
  show ?thesis using r by (simp add: two_stars_left)
qed

end
