(* ===== verification/MultiStar.thy ===== *)
theory MultiStar
  imports StarSelect Mount GuidingStats
begin

text \<open>
  \<open>GuiderMultiStar\<close> of \<open>src/src/guiding/guider_multistar.cpp\<close>: the guide stars, the refinement of the guide offset by the
  secondary stars, and the update of the current position from a frame. The environment holds the frame and what the
  rest of the program says of it. \<^term>\<open>None\<close> stands for a number that is not finite.
\<close>

subsection \<open>State\<close>

record multi_star =
  m_primaryStar :: star
  m_guideStars :: "guide_star list" \<comment> \<open>the primary star first\<close>
  m_primaryDistStats :: descriptive_stats
  m_massChecker :: mass_checker
  m_multiStarMode :: bool
  m_stabilizing :: bool
  m_lockPositionMoved :: bool
  m_starsUsed :: nat
  m_massChangeThresholdEnabled :: bool
  m_massChangeThreshold :: real
  m_tolerateJumpsEnabled :: bool
  m_tolerateJumpsThreshold :: real
  m_maxStars :: nat
  m_stabilitySigmaX :: real
  m_searchRegion :: int
  s_distanceChecker :: distance_checker

definition GuiderMultiStar_new :: "star \<Rightarrow> multi_star" where
  \<comment> \<open>the settings come from the profile afterwards\<close>
  "GuiderMultiStar_new s =
    \<lparr>m_primaryStar = s, m_guideStars = [], m_primaryDistStats = ds_ClearAll, m_massChecker = MassChecker_new, m_multiStarMode = True,
     m_stabilizing = False, m_lockPositionMoved = False, m_starsUsed = 0, m_massChangeThresholdEnabled = False,
     m_massChangeThreshold = 0.5, m_tolerateJumpsEnabled = False, m_tolerateJumpsThreshold = 4, m_maxStars = 9,
     m_stabilitySigmaX = 5, m_searchRegion = 15, s_distanceChecker = DistanceChecker_new\<rparr>"

subsection \<open>Settings\<close>

definition SetMassChangeThresholdEnabled :: "bool \<Rightarrow> multi_star \<Rightarrow> multi_star \<times> cfg_write list" where
  "SetMassChangeThresholdEnabled enable m =
    (m\<lparr>m_massChangeThresholdEnabled := enable\<rparr>, [SetBoolean ''/guider/onestar/MassChangeThresholdEnabled'' enable])"

definition SetMassChangeThreshold :: "real \<Rightarrow> multi_star \<Rightarrow> multi_star \<times> cfg_write list \<times> bool" where
  "SetMassChangeThreshold v m =
    (let m = m\<lparr>m_massChangeThreshold := (if v < 0 then 0.5 else v)\<rparr>
     in (m, [SetDouble ''/guider/onestar/MassChangeThreshold'' (m_massChangeThreshold m)], v < 0))"

definition SetTolerateJumps :: "bool \<Rightarrow> real \<Rightarrow> multi_star \<Rightarrow> multi_star \<times> cfg_write list" where
  "SetTolerateJumps enable threshold m =
    (m\<lparr>m_tolerateJumpsEnabled := enable, m_tolerateJumpsThreshold := threshold\<rparr>,
     [SetBoolean ''/guider/onestar/TolerateJumpsEnabled'' enable, SetDouble ''/guider/onestar/TolerateJumpsThreshold'' threshold])"

definition SetSearchRegion :: "int \<Rightarrow> multi_star \<Rightarrow> multi_star \<times> cfg_write list \<times> bool" where
  "SetSearchRegion r m =
    (let m = m\<lparr>m_searchRegion := (if r < 7 then 7 else if r > 50 then 50 else r)\<rparr>
     in (m, [SetInt ''/guider/onestar/SearchRegion'' (m_searchRegion m)], r < 7 \<or> r > 50))"

lemma search_region_in_range:
  "7 \<le> m_searchRegion (fst (SetSearchRegion r m))" "m_searchRegion (fst (SetSearchRegion r m)) \<le> 50"
  by (simp_all add: SetSearchRegion_def Let_def)

definition ClearSecondaryStars :: "multi_star \<Rightarrow> multi_star" where
  "ClearSecondaryStars m = (if length (m_guideStars m) > 1 then m\<lparr>m_guideStars := take 1 (m_guideStars m)\<rparr> else m)"

definition ms_InvalidateCurrentPosition :: "bool \<Rightarrow> multi_star \<Rightarrow> multi_star" where
  "ms_InvalidateCurrentPosition fullReset m =
    (let s = star_Invalidate (m_primaryStar m) in m\<lparr>m_primaryStar := (if fullReset then s\<lparr>X := 0, Y := 0\<rparr> else s)\<rparr>)"

subsection \<open>The frame\<close>

record frame_env =
  fe_image :: us_image
  fe_mode :: find_mode
  fe_minHFD :: real
  fe_maxHFD :: real
  fe_saturation :: u16
  fe_time :: int
  fe_exposure :: int
  fe_isAutoExp :: bool
  fe_lockPos :: sodium_point
  fe_raOnly :: bool \<comment> \<open>\<open>MyFrame::GuidingRAOnly()\<close>\<close>
  fe_stats :: error_stats
  fe_mount :: "mount option" \<comment> \<open>\<open>pMount\<close>, when it is calibrated\<close>
  fe_guidingEnabled :: bool \<comment> \<open>of the mount\<close>

definition env_Find :: "frame_env \<Rightarrow> int \<Rightarrow> real \<Rightarrow> real \<Rightarrow> 'a star_scheme \<Rightarrow> ('a star_scheme \<times> bool) option" where
  "env_Find e region x y s =
    star_Find (fe_image e) region (trunc x) (trunc y) (fe_mode e) (fe_minHFD e) (fe_maxHFD e) (fe_saturation e) s"

definition IsValidSecondaryStarPosition :: "us_image \<Rightarrow> 'a sodium_point_scheme \<Rightarrow> bool" where
  "IsValidSecondaryStarPosition img p \<longleftrightarrow> X p \<ge> 5 \<and> X p + 5 < of_int (Width img) \<and> Y p \<ge> 5 \<and> Y p + 5 < of_int (Height img)"

definition IsValidLockPosition :: "us_image \<Rightarrow> int \<Rightarrow> 'a sodium_point_scheme \<Rightarrow> bool" where
  "IsValidLockPosition img region p \<longleftrightarrow>
    X p \<ge> of_int (1 + region) \<and> X p + 1 + of_int region < of_int (Width img) \<and>
    Y p \<ge> of_int (1 + region) \<and> Y p + 1 + of_int region < of_int (Height img)"

definition ms_SetCurrentPosition :: "frame_env \<Rightarrow> sodium_point \<Rightarrow> multi_star \<Rightarrow> (multi_star \<times> bool) option" where
  "ms_SetCurrentPosition e p m =
    (if \<not> m_valid p then Some (m, True)
     else if X p \<le> 0 \<or> X p \<ge> of_int (Width (fe_image e)) then Some (m, True)
     else if Y p \<le> 0 \<or> Y p \<ge> of_int (Height (fe_image e)) then Some (m, True)
     else
       let m = m\<lparr>m_massChecker := mc_Reset (m_massChecker m)\<rparr>
       in case env_Find e (m_searchRegion m) (X p) (Y p) (m_primaryStar m) of None \<Rightarrow> None
          | Some (s, found) \<Rightarrow> Some (m\<lparr>m_primaryStar := s\<rparr>, \<not> found))"

definition ms_SetLockPosition :: "bool \<Rightarrow> multi_star \<Rightarrow> multi_star \<times> bool" where
  \<comment> \<open>the flag: \<open>Guider::SetLockPosition\<close> failed\<close>
  "ms_SetLockPosition failed m =
    (if \<not> failed then (if m_multiStarMode m then m\<lparr>m_lockPositionMoved := True, m_stabilizing := True\<rparr> else m, False) else (m, True))"

subsection \<open>Refining the offset\<close>

text \<open>What becomes of a secondary star in a frame.\<close>

datatype verdict =
    DropZero \<comment> \<open>erased for the fifth movement along one axis only\<close>
  | DropStill \<comment> \<open>erased for no movement at all, probably a hot pixel\<close>
  | Missed guide_star
  | NotFound guide_star
  | Used guide_star real real real \<comment> \<open>weight and displacement\<close>

definition expected_loc :: "star \<Rightarrow> guide_star \<Rightarrow> sodium_point" where
  "expected_loc prim g = SodiumPoint (X prim + X (offsetFromPrimary g)) (Y prim + Y (offsetFromPrimary g))"

definition count_zero :: "real \<Rightarrow> real \<Rightarrow> guide_star \<Rightarrow> guide_star" where
  "count_zero dx dy g =
    (if dx = 0 \<or> dy = 0 then g\<lparr>zeroCount := zeroCount g + 1\<rparr>
     else if zeroCount g > 0 then g\<lparr>zeroCount := zeroCount g - 1\<rparr> else g)"

definition judge_secondary :: "real \<Rightarrow> real \<Rightarrow> guide_star \<Rightarrow> verdict option" where
  "judge_secondary primSNR sigma g =
    (let dx = X g - X (referencePoint g); dy = Y g - Y (referencePoint g); g = g\<lparr>wasLost := False\<rparr>
     in if dx \<noteq> 0 \<or> dy \<noteq> 0
        then
          let g = count_zero dx dy g
          in if zeroCount g = 5 then Some DropZero
             else if hypot dx dy > 2.5 * sigma
             then
               let g = g\<lparr>missCount := missCount g + 1\<rparr>
               in Some (Missed (if missCount g > 10
                    then g\<lparr>referencePoint := (referencePoint g)\<lparr>X := X g, Y := Y g\<rparr>, missCount := 0\<rparr> else g))
             else
               let g = (if missCount g > 0 then g\<lparr>missCount := missCount g - 1\<rparr> else g)
               in map_option (\<lambda>wt. Used g wt dx dy) (fdiv (SNR g) primSNR)
        else Some DropStill)"

definition process_star :: "frame_env \<Rightarrow> int \<Rightarrow> star \<Rightarrow> real \<Rightarrow> guide_star \<Rightarrow> verdict option" where
  "process_star e region prim sigma g =
    (let loc = (if wasLost g then expected_loc prim g else SodiumPoint (X g) (Y g))
     in case env_Find e region (X loc) (Y loc) g of None \<Rightarrow> None
        | Some (g, found) \<Rightarrow> if found then judge_secondary (SNR prim) sigma g else Some (NotFound (g\<lparr>wasLost := True\<rparr>)))"

record ms_sums =
  sumWeights :: real
  sumX :: real
  sumY :: real
  averaged :: bool

text \<open>The loop over the secondary stars: those done, those to come, the flag \<open>erasures\<close>, the number of stars used and the sums.
  A star erased by the \<open>continue\<close> leaves the flag set, so the next one that is not missed is processed twice.\<close>

function secondary_loop ::
    "(guide_star \<Rightarrow> verdict option) \<Rightarrow> nat \<Rightarrow> guide_star list \<Rightarrow> guide_star list \<Rightarrow> bool \<Rightarrow> nat \<Rightarrow> ms_sums \<Rightarrow>
     (guide_star list \<times> nat \<times> ms_sums) option" where
  "secondary_loop proc maxStars before [] erasures used s = Some (before, used, s)"
| "secondary_loop proc maxStars before (g # gs) erasures used s =
    (if used \<ge> maxStars then Some (before @ g # gs, used, s)
     else case proc g of
       None \<Rightarrow> None
     | Some DropZero \<Rightarrow> secondary_loop proc maxStars before gs True (used + 1) s
     | Some DropStill \<Rightarrow> secondary_loop proc maxStars before gs False (used + 1) s
     | Some (Missed g') \<Rightarrow> secondary_loop proc maxStars (before @ [g']) gs erasures (used + 1) s
     | Some (NotFound g') \<Rightarrow>
         if \<not> erasures then secondary_loop proc maxStars (before @ [g']) gs False used s
         else secondary_loop proc maxStars before (g' # gs) False used s
     | Some (Used g' wt dx dy) \<Rightarrow>
         let s = s\<lparr>sumX := sumX s + wt * dx, sumY := sumY s + wt * dy, sumWeights := sumWeights s + wt, averaged := True\<rparr>
         in if \<not> erasures then secondary_loop proc maxStars (before @ [g']) gs False (used + 1) s
            else secondary_loop proc maxStars before (g' # gs) False (used + 1) s)"
  by pat_completeness auto
termination
  by (relation "measure (\<lambda>(proc, maxStars, before, gs, erasures, used, s). 2 * length gs + (if erasures then 1 else 0))") auto

definition relocate :: "frame_env \<Rightarrow> int \<Rightarrow> star \<Rightarrow> guide_star \<Rightarrow> guide_star option" where
  \<comment> \<open>after a move of the lock position\<close>
  "relocate e region prim g =
    (let loc = expected_loc prim g; loc = (if IsValidSecondaryStarPosition (fe_image e) loc then loc else SodiumPoint (X g) (Y g))
     in case env_Find e region (X loc) (Y loc) g of None \<Rightarrow> None
        | Some (g, found) \<Rightarrow> Some (if found
            then g\<lparr>referencePoint := (referencePoint g)\<lparr>X := X g, Y := Y g\<rparr>, wasLost := False\<rparr> else g\<lparr>wasLost := True\<rparr>))"

fun map_opt :: "('a \<Rightarrow> 'b option) \<Rightarrow> 'a list \<Rightarrow> 'b list option" where
  "map_opt f [] = Some []"
| "map_opt f (x # xs) = (case f x of None \<Rightarrow> None | Some y \<Rightarrow> map_option (\<lambda>ys. y # ys) (map_opt f xs))"

datatype stability = Stable | Unstable | Relocated

definition update_stability :: "frame_env \<Rightarrow> real \<Rightarrow> multi_star \<Rightarrow> (multi_star \<times> real \<times> stability) option" where
  \<comment> \<open>the primary distance goes into the statistics; \<open>Relocated\<close> is the early return; also \<open>primarySigma\<close>\<close>
  "update_stability e dst m =
    (let st = ds_AddValue (m_primaryDistStats m) dst; m = m\<lparr>m_primaryDistStats := st\<rparr>
     in if ds_count st > 5
        then
          case ds_GetSigma st of None \<Rightarrow> None
          | Some sigma \<Rightarrow>
              if \<not> m_stabilizing m \<and> dst > m_stabilitySigmaX m * sigma then Some (m\<lparr>m_stabilizing := True\<rparr>, sigma, Unstable)
              else if m_stabilizing m then
                (if dst \<le> 2 * sigma
                 then
                   let m = m\<lparr>m_stabilizing := False\<rparr>
                   in if m_lockPositionMoved m
                      then case map_opt (relocate e (m_searchRegion m) (m_primaryStar m)) (tl (m_guideStars m)) of None \<Rightarrow> None
                        | Some gs \<Rightarrow> Some (m\<lparr>m_lockPositionMoved := False, m_guideStars := hd (m_guideStars m) # gs\<rparr>, sigma, Relocated)
                      else Some (m, sigma, Stable)
                 else Some (m, sigma, Unstable))
              else Some (m, sigma, Stable)
        else Some (m\<lparr>m_stabilizing := True\<rparr>, 0, Unstable))"

definition average_offset :: "ms_sums \<Rightarrow> real \<Rightarrow> sodium_point \<Rightarrow> (sodium_point \<times> bool) option" where
  "average_offset s dst ofs =
    (if \<not> averaged s then Some (ofs, False)
     else case (fdiv (sumX s) (sumWeights s), fdiv (sumY s) (sumWeights s)) of
       (Some x, Some y) \<Rightarrow> Some (if hypot x y < dst then (ofs\<lparr>X := x, Y := y\<rparr>, True) else (ofs, False))
     | _ \<Rightarrow> None)"

definition use_secondaries :: "frame_env \<Rightarrow> sodium_point \<Rightarrow> real \<Rightarrow> multi_star \<Rightarrow> (multi_star \<times> sodium_point \<times> bool) option" where
  "use_secondaries e ofs sigma m =
    (case secondary_loop (process_star e (m_searchRegion m) (m_primaryStar m) sigma) (m_maxStars m) []
        (tl (m_guideStars m)) False (m_starsUsed m) \<lparr>sumWeights = 1, sumX = X ofs, sumY = Y ofs, averaged = False\<rparr> of None \<Rightarrow> None
     | Some (gs, used, s) \<Rightarrow>
         let m = m\<lparr>m_guideStars := hd (m_guideStars m) # gs, m_starsUsed := used\<rparr>
         in map_option (\<lambda>(ofs, refined). (m, ofs, refined)) (average_offset s (hypot (X ofs) (Y ofs)) ofs))"

definition RefineOffset :: "frame_env \<Rightarrow> sodium_point \<Rightarrow> multi_star \<Rightarrow> (multi_star \<times> sodium_point \<times> bool) option" where
  \<comment> \<open>the offset in camera coordinates, and whether it has been refined\<close>
  "RefineOffset e ofs m =
    (let m = m\<lparr>m_starsUsed := 1\<rparr>
     in if es_guiding (fe_stats e) \<and> length (m_guideStars m) > 1 \<and> fe_guidingEnabled e \<and> \<not> es_settling (fe_stats e)
        then
          case update_stability e (hypot (X ofs) (Y ofs)) m of None \<Rightarrow> None
          | Some (m, sigma, st) \<Rightarrow>
              if st = Stable \<and> (X ofs \<noteq> 0 \<or> Y ofs \<noteq> 0) then use_secondaries e ofs sigma m else Some (m, ofs, False)
        else Some (m, ofs, False))"

subsection \<open>The current position\<close>

definition IsLocked :: "multi_star \<Rightarrow> bool" where "IsLocked m \<longleftrightarrow> star_WasFound (m_primaryStar m)"
definition CurrentPosition :: "multi_star \<Rightarrow> sodium_point" where
  "CurrentPosition m = sodium_point.truncate (m_primaryStar m)"

definition StarStatusStr :: "'a star_scheme \<Rightarrow> string" where
  "StarStatusStr s =
    (if \<not> m_valid s then ''No star selected''
     else case m_lastFindResult s of
       STAR_LOWSNR \<Rightarrow> ''Star lost - low SNR''
     | STAR_LOWMASS \<Rightarrow> ''Star lost - low mass''
     | STAR_LOWHFD \<Rightarrow> ''Star lost - low HFD''
     | STAR_TOO_NEAR_EDGE \<Rightarrow> ''Star too near edge''
     | STAR_MASSCHANGE \<Rightarrow> ''Star lost - mass changed''
     | _ \<Rightarrow> ''No star found'')"

record frame_dropped =
  starError :: find_result
  starMass :: real
  starSNR :: real
  starHFD :: real
  fd_status :: string

definition dropped_star :: "find_result \<Rightarrow> 'a star_scheme \<Rightarrow> string \<Rightarrow> frame_dropped" where
  "dropped_star err s st = \<lparr>starError = err, starMass = Mass s, starSNR = SNR s, starHFD = HFD s, fd_status = st\<rparr>"

text \<open>A frame is rejected, with what is reported, or accepted, with the offset and, when there is a lock position, the distances
  \<open>UpdateCurrentDistance\<close> is called with.\<close>

datatype update_result = FrameRejected frame_dropped | FrameAccepted guider_offset "(real \<times> real) option"

definition check_star_mass :: "frame_env \<Rightarrow> star \<Rightarrow> multi_star \<Rightarrow> (multi_star \<times> bool) option" where
  \<comment> \<open>whether the mass is believed\<close>
  "check_star_mass e newStar m =
    (if \<not> m_massChangeThresholdEnabled m then Some (m, True)
     else case CheckMass (Mass newStar) (m_massChangeThreshold m) (SetExposure (fe_exposure e) (fe_isAutoExp e) (m_massChecker m)) of
       None \<Rightarrow> None
     | Some (c, reject, limits) \<Rightarrow> if \<not> reject then Some (m\<lparr>m_massChecker := c\<rparr>, True)
         else map_option (\<lambda>c. (m\<lparr>m_primaryStar := SetError STAR_MASSCHANGE (m_primaryStar m), m_massChecker := c,
             s_distanceChecker := Activate (fe_time e) (s_distanceChecker m)\<rparr>, False)) (AppendData (fe_time e) (Mass newStar) c))"

definition lock_distance :: "frame_env \<Rightarrow> star \<Rightarrow> real" where
  "lock_distance e s =
    (if m_valid (fe_lockPos e) then if fe_raOnly e then \<bar>X s - X (fe_lockPos e)\<bar> else Distance s (fe_lockPos e) else 0)"

definition jump_tolerance :: "multi_star \<Rightarrow> real" where
  "jump_tolerance m = (if m_tolerateJumpsEnabled m then m_tolerateJumpsThreshold m else 9 * 10 ^ 99)"

definition mount_offset :: "frame_env \<Rightarrow> sodium_point \<Rightarrow> sodium_point" where
  \<comment> \<open>\<open>mountOfs\<close>, invalid to begin with\<close>
  "mount_offset e ofs =
    (let none = Invalidate (SodiumPoint 0 0)
     in case fe_mount e of Some mnt \<Rightarrow> snd (TransformCameraCoordinatesToMountCoordinates mnt ofs none)
        | None \<Rightarrow> none)"

definition measure_offset :: "frame_env \<Rightarrow> real \<Rightarrow> multi_star \<Rightarrow> (multi_star \<times> update_result) option" where
  \<comment> \<open>the star is believed; its distance to the lock position\<close>
  "measure_offset e dst m =
    (if \<not> m_valid (fe_lockPos e)
     then Some (m, FrameAccepted \<lparr>cameraOfs = Invalidate (SodiumPoint 0 0), mountOfs = Invalidate (SodiumPoint 0 0)\<rparr> None)
     else
       let ofs = point_sub (CurrentPosition m) (fe_lockPos e)
       in case (if m_multiStarMode m \<and> length (m_guideStars m) > 1 then RefineOffset e ofs m
                else Some (m\<lparr>m_starsUsed := 1\<rparr>, ofs, False)) of
            None \<Rightarrow> None
          | Some (m, ofs, refined) \<Rightarrow>
              let dst = (if refined then hypot (X ofs) (Y ofs) else dst); mo = mount_offset e ofs
              in Some (m, FrameAccepted \<lparr>cameraOfs = ofs, mountOfs = mo\<rparr> (Some (dst, if m_valid mo then \<bar>X mo\<bar> else 0))))"

definition UpdateCurrentPosition :: "frame_env \<Rightarrow> multi_star \<Rightarrow> (multi_star \<times> update_result) option" where
  "UpdateCurrentPosition e m =
    (if \<not> m_valid (m_primaryStar m) \<and> X (m_primaryStar m) = 0 \<and> Y (m_primaryStar m) = 0
     then Some (m, FrameRejected \<lparr>starError = STAR_ERROR, starMass = 0, starSNR = 0, starHFD = 0, fd_status = ''No star selected''\<rparr>)
     else case env_Find e (m_searchRegion m) (X (m_primaryStar m)) (Y (m_primaryStar m)) (m_primaryStar m) of
       None \<Rightarrow> None
     | Some (newStar, found) \<Rightarrow>
         if \<not> found
         then Some (m\<lparr>m_primaryStar := SetError (m_lastFindResult newStar) (m_primaryStar m),
                      s_distanceChecker := Activate (fe_time e) (s_distanceChecker m)\<rparr>,
              FrameRejected \<lparr>starError = m_lastFindResult newStar, starMass = 0, starSNR = 0, starHFD = 0, fd_status = StarStatusStr newStar\<rparr>)
         else case check_star_mass e newStar m of
           None \<Rightarrow> None
         | Some (m, False) \<Rightarrow> Some (m, FrameRejected (dropped_star STAR_MASSCHANGE newStar (StarStatusStr (m_primaryStar m))))
         | Some (m, True) \<Rightarrow>
             (case CheckDistance (fe_time e) (fe_stats e) (lock_distance e newStar) (jump_tolerance m) (s_distanceChecker m) of (d, ok) \<Rightarrow>
               let m = m\<lparr>s_distanceChecker := d\<rparr>
               in if \<not> ok
                  then let m = m\<lparr>m_primaryStar := SetError STAR_ERROR (m_primaryStar m)\<rparr>
                       in Some (m, FrameRejected (dropped_star STAR_ERROR newStar (StarStatusStr (m_primaryStar m))))
                  else case AppendData (fe_time e) (Mass newStar) (m_massChecker m) of
                    None \<Rightarrow> None
                  | Some c \<Rightarrow> measure_offset e (lock_distance e newStar) (m\<lparr>m_primaryStar := newStar, m_massChecker := c\<rparr>)))"

subsection \<open>The subframe\<close>

definition SubframeRect :: "sodium_point \<Rightarrow> int \<Rightarrow> rect" where
  "SubframeRect pos halfwidth =
    \<lparr>rX = ROUND (X pos) - halfwidth, rY = ROUND (Y pos) - halfwidth, rW = 2 * halfwidth + 1, rH = 2 * halfwidth + 1\<rparr>"

definition follow_star :: "sodium_point \<Rightarrow> multi_star \<Rightarrow> sodium_point" where
  \<comment> \<open>the lock position while the star is close to it\<close>
  "follow_star lockPos m =
    (if trunc (Distance (CurrentPosition m) lockPos) > m_searchRegion m div 3 then CurrentPosition m else lockPos)"

subsection \<open>What the refinement does\<close>

type_synonym used_star = "real \<times> real \<times> real" \<comment> \<open>weight and displacement\<close>

definition is_used :: "(guide_star \<Rightarrow> verdict option) \<Rightarrow> used_star \<Rightarrow> bool" where
  "is_used proc u \<longleftrightarrow> (\<exists>g g'. proc g = Some (Used g' (fst u) (fst (snd u)) (snd (snd u))))"

definition add_used :: "used_star list \<Rightarrow> ms_sums \<Rightarrow> ms_sums" where
  "add_used us s =
    \<lparr>sumWeights = sumWeights s + sum_list (map fst us), sumX = sumX s + sum_list (map (\<lambda>u. fst u * fst (snd u)) us),
     sumY = sumY s + sum_list (map (\<lambda>u. fst u * snd (snd u)) us), averaged = (averaged s \<or> us \<noteq> [])\<rparr>"

lemma add_used_Nil [simp]: "add_used [] s = s" by (simp add: add_used_def)

lemma add_used_Cons:
  "add_used us (s\<lparr>sumX := sumX s + wt * dx, sumY := sumY s + wt * dy, sumWeights := sumWeights s + wt, averaged := True\<rparr>) =
    add_used ((wt, dx, dy) # us) s"
  by (simp add: add_used_def)

definition loop_result :: "(guide_star \<Rightarrow> verdict option) \<Rightarrow> nat \<Rightarrow> nat \<Rightarrow> nat \<Rightarrow> ms_sums \<Rightarrow> guide_star list \<times> nat \<times> ms_sums \<Rightarrow> bool" where
  "loop_result proc maxStars n used s = (\<lambda>(bs, used', s').
    length bs \<le> n \<and> used \<le> used' \<and> used' \<le> max used maxStars \<and>
    (\<exists>us. (\<forall>u\<in>set us. is_used proc u) \<and> s' = add_used us s))"

lemma loop_resultI: "length bs \<le> n \<Longrightarrow> loop_result proc maxStars n used s (bs, used, s)"
  unfolding loop_result_def by (auto intro: exI [of _ "[]"])

lemma loop_result_step:
  "used < maxStars \<Longrightarrow> loop_result proc maxStars n used' s r \<Longrightarrow> n \<le> n' \<Longrightarrow> used \<le> used' \<Longrightarrow> used' \<le> used + 1 \<Longrightarrow>
   loop_result proc maxStars n' used s r"
  unfolding loop_result_def by (auto split: prod.splits)

lemma loop_result_used:
  assumes "proc g = Some (Used g' wt dx dy)" "used < maxStars" "n \<le> n'"
    and "loop_result proc maxStars n (used + 1)
      (s\<lparr>sumX := sumX s + wt * dx, sumY := sumY s + wt * dy, sumWeights := sumWeights s + wt, averaged := True\<rparr>) r"
  shows "loop_result proc maxStars n' used s r"
proof -
  obtain bs u' s' where r: "r = (bs, u', s')" by (metis prod.exhaust)
  obtain us where us: "\<forall>u\<in>set us. is_used proc u" "s' = add_used ((wt, dx, dy) # us) s" and len: "length bs \<le> n"
    and u': "used + 1 \<le> u'" "u' \<le> max (used + 1) maxStars"
    using assms(4) by (auto simp: loop_result_def r add_used_Cons)
  have "is_used proc (wt, dx, dy)" using assms(1) by (auto simp: is_used_def)
  then have "\<exists>us. (\<forall>u\<in>set us. is_used proc u) \<and> s' = add_used us s"
    using us by (intro exI [of _ "(wt, dx, dy) # us"]) simp
  then show ?thesis using assms(2,3) len u' by (simp add: loop_result_def r)
qed

declare secondary_loop.simps(2) [simp del]

lemma secondary_loop_result:
  "secondary_loop proc maxStars before gs erasures used s = Some r \<Longrightarrow>
   loop_result proc maxStars (length before + length gs) used s r"
proof (induction proc maxStars before gs erasures used s rule: secondary_loop.induct)
  case (1 proc maxStars before erasures used s)
  then show ?case using loop_resultI [of before "length before"] by auto
next
  case (2 proc maxStars before g gs erasures used s)
  note st = secondary_loop.simps(2) [of proc maxStars before g gs erasures used s]
  show ?case
  proof (cases "used < maxStars")
    case False
    then have "r = (before @ g # gs, used, s)" using "2.prems" by (simp add: st)
    then show ?thesis by (auto intro: loop_resultI)
  next
    case True
    then obtain v where v: "proc g = Some v" using "2.prems" by (auto simp: st split: option.splits)
    show ?thesis
    proof (cases v)
      case DropZero
      have "loop_result proc maxStars (length before + length gs) (used + 1) s r"
        using "2.IH"(1) [OF _ v] DropZero True "2.prems" v by (simp add: st)
      then show ?thesis using True by (rule_tac loop_result_step) auto
    next
      case DropStill
      have "loop_result proc maxStars (length before + length gs) (used + 1) s r"
        using "2.IH"(2) [OF _ v] DropStill True "2.prems" v by (simp add: st)
      then show ?thesis using True by (rule_tac loop_result_step) auto
    next
      case (Missed g')
      have "loop_result proc maxStars (length (before @ [g']) + length gs) (used + 1) s r"
        using "2.IH"(3) [OF _ v Missed] True "2.prems" v Missed by (simp add: st)
      then show ?thesis using True by (rule_tac loop_result_step) auto
    next
      case (NotFound g')
      have "loop_result proc maxStars (length before + length (g # gs)) used s r"
        using "2.IH"(4,5) [OF _ v NotFound] True "2.prems" v NotFound by (simp add: st split: if_splits)
      then show ?thesis using True by (rule_tac loop_result_step) auto
    next
      case (Used g' wt dx dy)
      have "loop_result proc maxStars (length before + length (g # gs)) (used + 1)
        (s\<lparr>sumX := sumX s + wt * dx, sumY := sumY s + wt * dy, sumWeights := sumWeights s + wt, averaged := True\<rparr>) r"
        using "2.IH"(6,7) [OF _ v Used refl] True "2.prems" v Used by (simp add: st Let_def split: if_splits)
      from loop_result_used [OF _ True _ this] show ?thesis using v Used by simp
    qed
  qed
qed

lemma judged_used:
  assumes "judge_secondary primSNR sigma g = Some (Used g' wt dx dy)"
  shows "hypot dx dy \<le> 2.5 * sigma" "dx \<noteq> 0 \<or> dy \<noteq> 0"
proof -
  let ?dx = "X g - X (referencePoint g)" and ?dy = "Y g - Y (referencePoint g)"
  have moved: "?dx \<noteq> 0 \<or> ?dy \<noteq> 0" using assms unfolding judge_secondary_def Let_def by (auto split: if_split_asm)
  define h where "h = count_zero ?dx ?dy (g\<lparr>wasLost := False\<rparr>)"
  have "zeroCount h \<noteq> 5 \<and> \<not> hypot ?dx ?dy > 2.5 * sigma \<and> dx = ?dx \<and> dy = ?dy"
    using assms moved unfolding judge_secondary_def Let_def h_def [symmetric] by (simp split: if_split_asm)
  then show "hypot dx dy \<le> 2.5 * sigma" "dx \<noteq> 0 \<or> dy \<noteq> 0" using moved by simp_all
qed

lemma used_displacement:
  assumes "is_used (process_star e region prim sigma) (wt, dx, dy)"
  shows "hypot dx dy \<le> 2.5 * sigma" "dx \<noteq> 0 \<or> dy \<noteq> 0"
proof -
  obtain g g' where "process_star e region prim sigma g = Some (Used g' wt dx dy)" using assms by (auto simp: is_used_def)
  then obtain h where "judge_secondary (SNR prim) sigma h = Some (Used g' wt dx dy)"
    by (auto simp: process_star_def Let_def split: option.splits if_splits)
  from judged_used [OF this] show "hypot dx dy \<le> 2.5 * sigma" "dx \<noteq> 0 \<or> dy \<noteq> 0" .
qed

text \<open>A star erased for the fifth movement along one axis only leaves the flag set: the next star is counted twice.\<close>

lemma star_counted_twice:
  fixes a b :: guide_star
  assumes "proc a = Some DropZero" "proc b = Some (Used b 1 1 0)" "2 < maxStars"
  shows "secondary_loop proc maxStars [] [a, b] False 1 s =
    (if maxStars = 3 then Some ([b], 3, s\<lparr>sumX := sumX s + 1, sumWeights := sumWeights s + 1, averaged := True\<rparr>)
     else Some ([b], 4, s\<lparr>sumX := sumX s + 2, sumWeights := sumWeights s + 2, averaged := True\<rparr>))"
  using assms by (auto simp: Let_def secondary_loop.simps(2))

lemma map_opt_length: "map_opt f xs = Some ys \<Longrightarrow> length ys = length xs"
  by (induction xs arbitrary: ys) (auto split: option.splits)

lemma update_stability_frame:
  assumes "update_stability e dst m = Some (m', sigma, st)" "m_guideStars m \<noteq> []"
  shows "m_maxStars m' = m_maxStars m" "m_starsUsed m' = m_starsUsed m" "length (m_guideStars m') = length (m_guideStars m)"
    "hd (m_guideStars m') = hd (m_guideStars m)"
    "st = Stable \<Longrightarrow> \<not> m_stabilizing m' \<and> ds_GetSigma (m_primaryDistStats m') = Some sigma"
  using assms unfolding update_stability_def Let_def
  by (auto split: if_splits option.splits dest: map_opt_length)

lemma average_offset_shorter:
  assumes "average_offset s dst ofs = Some (ofs', refined)"
  shows "if refined then averaged s \<and> X ofs' = sumX s / sumWeights s \<and> Y ofs' = sumY s / sumWeights s \<and> hypot (X ofs') (Y ofs') < dst
    else ofs' = ofs"
  using assms by (auto simp: average_offset_def fdiv_def split: if_splits)

text \<open>C29: Refining never makes the correction larger: either the offset is left as it is, or, only while guiding, not settling
  and stable, it becomes the weighted mean of the primary's offset and the displacements of other stars, none of which
  exceeds 2.5 deviations of the primary's, and it is strictly shorter than before. The primary stays first in the list,
  no star is added, and at most the maximum number of stars is used.\<close>
theorem refined_offset_shorter:
  assumes "RefineOffset e ofs m = Some (m', ofs', refined)" "m_guideStars m \<noteq> []"
  shows "m_starsUsed m' \<le> max 1 (m_maxStars m) \<and> length (m_guideStars m') \<le> length (m_guideStars m) \<and>
    hd (m_guideStars m') = hd (m_guideStars m) \<and>
    (if refined
     then es_guiding (fe_stats e) \<and> \<not> es_settling (fe_stats e) \<and> \<not> m_stabilizing m' \<and>
       hypot (X ofs') (Y ofs') < hypot (X ofs) (Y ofs) \<and>
       (\<exists>sigma us. ds_GetSigma (m_primaryDistStats m') = Some sigma \<and> us \<noteq> [] \<and>
          (\<forall>u\<in>set us. hypot (fst (snd u)) (snd (snd u)) \<le> 2.5 * sigma) \<and>
          X ofs' = (X ofs + sum_list (map (\<lambda>u. fst u * fst (snd u)) us)) / (1 + sum_list (map fst us)) \<and>
          Y ofs' = (Y ofs + sum_list (map (\<lambda>u. fst u * snd (snd u)) us)) / (1 + sum_list (map fst us)))
     else ofs' = ofs)"
proof (cases "es_guiding (fe_stats e) \<and> length (m_guideStars m) > 1 \<and> fe_guidingEnabled e \<and> \<not> es_settling (fe_stats e)")
  case False
  then show ?thesis using assms by (auto simp: RefineOffset_def Let_def)
next
  case True
  define m1 where "m1 = m\<lparr>m_starsUsed := 1\<rparr>"
  have R: "RefineOffset e ofs m = (case update_stability e (hypot (X ofs) (Y ofs)) m1 of None \<Rightarrow> None
      | Some (m2, sigma, st) \<Rightarrow> if st = Stable \<and> (X ofs \<noteq> 0 \<or> Y ofs \<noteq> 0) then use_secondaries e ofs sigma m2 else Some (m2, ofs, False))"
    using True by (simp add: RefineOffset_def Let_def m1_def)
  obtain x where x: "update_stability e (hypot (X ofs) (Y ofs)) m1 = Some x"
    using assms(1) unfolding R by (cases "update_stability e (hypot (X ofs) (Y ofs)) m1") simp_all
  obtain m2 sigma st where xs: "x = (m2, sigma, st)" by (rule prod_cases3)
  note u = x [unfolded xs]
  have r: "(if st = Stable \<and> (X ofs \<noteq> 0 \<or> Y ofs \<noteq> 0) then use_secondaries e ofs sigma m2 else Some (m2, ofs, False)) =
      Some (m', ofs', refined)"
    using assms(1) unfolding R u by simp
  have m1: "m_guideStars m1 \<noteq> []" "m_guideStars m1 = m_guideStars m" "m_maxStars m1 = m_maxStars m" "m_starsUsed m1 = 1"
    using assms(2) by (simp_all add: m1_def)
  note f = update_stability_frame [OF u m1(1), unfolded m1(2-4)]
  show ?thesis
  proof (cases "st = Stable \<and> (X ofs \<noteq> 0 \<or> Y ofs \<noteq> 0)")
    case False
    then have "m' = m2" "ofs' = ofs" "\<not> refined" using r by (auto split: if_splits)
    then show ?thesis using f by simp
  next
    case stable: True
    let ?proc = "process_star e (m_searchRegion m2) (m_primaryStar m2) sigma"
    let ?s0 = "\<lparr>sumWeights = 1, sumX = X ofs, sumY = Y ofs, averaged = False\<rparr>"
    obtain gs used s where l: "secondary_loop ?proc (m_maxStars m2) [] (tl (m_guideStars m2)) False (m_starsUsed m2) ?s0 = Some (gs, used, s)"
      and a: "average_offset s (hypot (X ofs) (Y ofs)) ofs = Some (ofs', refined)"
      and m': "m' = m2\<lparr>m_guideStars := hd (m_guideStars m2) # gs, m_starsUsed := used\<rparr>"
      using r stable by (auto simp: use_secondaries_def Let_def split: option.splits)
    obtain us where us: "\<forall>u\<in>set us. is_used ?proc u" "s = add_used us ?s0"
      and n: "length gs \<le> length (tl (m_guideStars m2))" "used \<le> max (m_starsUsed m2) (m_maxStars m2)"
      using secondary_loop_result [OF l] by (auto simp: loop_result_def)
    have "\<forall>u\<in>set us. hypot (fst (snd u)) (snd (snd u)) \<le> 2.5 * sigma"
      using us(1) used_displacement(1) by (metis prod.collapse)
    then have "refined \<Longrightarrow> (\<exists>sigma us. ds_GetSigma (m_primaryDistStats m') = Some sigma \<and> us \<noteq> [] \<and>
          (\<forall>u\<in>set us. hypot (fst (snd u)) (snd (snd u)) \<le> 2.5 * sigma) \<and>
          X ofs' = (X ofs + sum_list (map (\<lambda>u. fst u * fst (snd u)) us)) / (1 + sum_list (map fst us)) \<and>
          Y ofs' = (Y ofs + sum_list (map (\<lambda>u. fst u * snd (snd u)) us)) / (1 + sum_list (map fst us)))"
      using average_offset_shorter [OF a] f(5) stable us(2)
      by (intro exI [of _ sigma] exI [of _ us]) (simp add: m' add_used_def)
    moreover have "\<not> m_stabilizing m'" using f(5) stable by (simp add: m')
    moreover have "if refined then hypot (X ofs') (Y ofs') < hypot (X ofs) (Y ofs) else ofs' = ofs"
      using average_offset_shorter [OF a] by metis
    moreover have "m_starsUsed m' \<le> max 1 (m_maxStars m)" "length (m_guideStars m') \<le> length (m_guideStars m)"
      "hd (m_guideStars m') = hd (m_guideStars m)"
      using n f(1-4) True by (auto simp: m')
    ultimately show ?thesis using True by (simp split: if_splits)
  qed
qed

definition near_star :: guide_star where
  "near_star = GuideStar_new\<lparr>m_valid := True, X := 4, Y := 0, referencePoint := SodiumPoint 0.3 0.4\<rparr>"

definition steady_frame :: frame_env where
  "steady_frame = \<lparr>fe_image = star_image, fe_mode = FIND_PEAK, fe_minHFD = 1, fe_maxHFD = 10, fe_saturation = 100, fe_time = 0,
     fe_exposure = 1000, fe_isAutoExp = False, fe_lockPos = SodiumPoint 0 0, fe_raOnly = False,
     fe_stats = \<lparr>es_guiding = True, es_paused = False, es_settling = False, es_frameCount = 20, es_smoothed = 1\<rparr>,
     fe_mount = None, fe_guidingEnabled = True\<rparr>"

definition steady_guider :: multi_star where
  "steady_guider = (GuiderMultiStar_new (blank_star\<lparr>m_valid := True, SNR := 3\<rparr>))\<lparr>m_searchRegion := 10,
     m_guideStars := [GuideStar_new, near_star],
     m_primaryDistStats := ds_ClearAll\<lparr>ds_count := 5, ds_runningMean := 5, ds_runningS := 5, ds_lastValue := 5\<rparr>\<rparr>"

lemma near_star_found:
  "env_Find steady_frame 10 4 0 near_star =
    Some (near_star\<lparr>X := 0, PeakVal := 18, Mass := 18, SNR := 3, HFD := 0.5, m_lastFindResult := STAR_OK\<rparr>, True)"
proof -
  have q: "sqrt 36 = 6" by (rule real_sqrt_unique) simp_all
  have sat: "\<not> is_saturated star_image [0, 0, 0] 100" by (simp add: is_saturated_def star_image_def test_image_def)
  show ?thesis
    by (simp add: env_Find_def steady_frame_def star_Find_def around_def star_image_area star_image_peak search_peak_def star_image_bg
        measure_flux_def star_snr_def guard_snr_def LOW_SNR_def judge_star_def hfr_def sat SetXY_def near_star_def GuideStar_new_def
        trunc_def Let_def q)
qed

lemma near_star_used:
  "\<exists>g. process_star steady_frame 10 (blank_star\<lparr>m_valid := True, SNR := 3\<rparr>) 1 near_star = Some (Used g 1 (- 0.3) (- 0.4))"
proof -
  have h: "hypot (3 / 10) (2 / 5) = 1 / 2" unfolding hypot_def by (rule real_sqrt_unique) (simp_all add: power2_eq_square)
  have p: "wasLost near_star = False" "X near_star = 4" "Y near_star = 0" by (simp_all add: near_star_def GuideStar_new_def)
  show ?thesis
    unfolding process_star_def p
    by (simp add: near_star_found)
      (simp add: judge_secondary_def near_star_def GuideStar_new_def SodiumPoint_def count_zero_def blank_star_def h Let_def)
qed

lemma steady_refined:
  "\<exists>m'. RefineOffset steady_frame (SodiumPoint 3 4) steady_guider = Some (m', SodiumPoint 1.35 1.8, True)"
proof -
  have h: "hypot 3 4 = 5" "hypot (27 / 20) (9 / 5) = 9 / 4" unfolding hypot_def by (rule real_sqrt_unique; simp add: power2_eq_square)+
  obtain g where g: "process_star steady_frame 10 (blank_star\<lparr>m_valid := True, SNR := 3\<rparr>) 1 near_star = Some (Used g 1 (- 3 / 10) (- 2 / 5))"
    using near_star_used by auto
  have st: "\<exists>m. update_stability steady_frame 5 (steady_guider\<lparr>m_starsUsed := 1\<rparr>) = Some (m, 1, Stable) \<and>
      m_maxStars m = 9 \<and> m_searchRegion m = 10 \<and> m_primaryStar m = blank_star\<lparr>m_valid := True, SNR := 3\<rparr> \<and>
      m_guideStars m = [GuideStar_new, near_star] \<and> m_starsUsed m = 1"
    by (simp add: update_stability_def steady_guider_def GuiderMultiStar_new_def ds_ClearAll_def ds_AddValue_def ds_GetSigma_def fsqrt_def Let_def)
  then obtain m where m: "update_stability steady_frame 5 (steady_guider\<lparr>m_starsUsed := 1\<rparr>) = Some (m, 1, Stable)" "m_maxStars m = 9"
    "m_searchRegion m = 10" "m_primaryStar m = blank_star\<lparr>m_valid := True, SNR := 3\<rparr>" "m_guideStars m = [GuideStar_new, near_star]"
    "m_starsUsed m = 1" by blast
  have "RefineOffset steady_frame (SodiumPoint 3 4) steady_guider = use_secondaries steady_frame (SodiumPoint 3 4) 1 m"
    using m(1) by (simp add: RefineOffset_def steady_frame_def Let_def h) (simp add: steady_guider_def)
  then show ?thesis
    by (simp add: use_secondaries_def m secondary_loop.simps(2) g average_offset_def Let_def h)
qed

theorem refined_offset_shorter_witness:
  "\<exists>m'. RefineOffset steady_frame (SodiumPoint 3 4) steady_guider = Some (m', SodiumPoint 1.35 1.8, True) \<and>
     hypot 1.35 1.8 < hypot 3 4 \<and> m_starsUsed m' \<le> 9"
proof -
  obtain m' where m': "RefineOffset steady_frame (SodiumPoint 3 4) steady_guider = Some (m', SodiumPoint 1.35 1.8, True)"
    using steady_refined by blast
  have "m_guideStars steady_guider \<noteq> []" "m_maxStars steady_guider = 9" by (simp_all add: steady_guider_def GuiderMultiStar_new_def)
  with refined_offset_shorter [OF m'] m' show ?thesis by simp
qed

end
