(* ===== verification/Guider.thy ===== *)
theory Guider
  imports MultiStar Controller
begin

text \<open>
  \<open>Guider\<close> of \<open>src/src/guiding/guider.cpp\<close>, with the overrides of \<open>GuiderMultiStar\<close>: the guiding state machine, the lock position
  and its moves by dithers and shifts, the average distances, and the handling of a frame. The two mounts are reached
  through a table of their virtual functions; moves and notifications are events.
\<close>

subsection \<open>State\<close>

datatype pause_type = PAUSE_NONE | PAUSE_GUIDING | PAUSE_FULL
datatype graph_units = UNIT_PIXELS | UNIT_ARCSEC

record lock_pos_shift =
  shiftEnabled :: bool
  shiftRate :: sodium_point
  shiftUnits :: graph_units
  shiftIsMountCoords :: bool

record 'm guider =
  g_star :: multi_star
  g_mount :: 'm \<comment> \<open>\<open>pMount\<close>, which the state machine uses without a test\<close>
  g_mount2 :: "'m option" \<comment> \<open>\<open>pSecondaryMount\<close>\<close>
  g_state :: guider_state
  g_paused :: pause_type
  g_image :: us_image
  g_lockPosition :: shift_point
  g_lockPosIsSticky :: bool
  g_lockPosShift :: lock_pos_shift
  g_ditherRemaining :: sodium_point
  g_ditherStep :: sodium_point
  g_ditherDir :: "int \<times> int"
  g_starFoundTimestamp :: int \<comment> \<open>seconds, 0: never\<close>
  g_avgDistance :: real
  g_avgDistanceRA :: real
  g_avgDistanceLong :: real
  g_avgDistanceLongRA :: real
  g_avgDistanceCnt :: nat
  g_avgDistanceNeedReset :: bool
  g_ignoreLostStarLooping :: bool
  g_fastRecenterEnabled :: bool
  g_forceFullFrame :: bool
  g_measurementMode :: bool
  g_minStarHFD :: real
  g_maxStarHFD :: real

record 'm mount_ops =
  op_IsConnected :: "'m \<Rightarrow> bool"
  op_IsCalibrated :: "'m \<Rightarrow> bool"
  op_IsBusy :: "'m \<Rightarrow> bool"
  op_IsStepGuider :: "'m \<Rightarrow> bool"
  op_CalibrationTotDistance :: "'m \<Rightarrow> int"
  op_BeginCalibration :: "sodium_point \<Rightarrow> 'm \<Rightarrow> 'm \<times> bool"
  op_UpdateCalibrationState :: "sodium_point \<Rightarrow> 'm \<Rightarrow> ('m \<times> bool) option"
  op_AdjustCalibration :: "'m \<Rightarrow> 'm \<times> bool" \<comment> \<open>whether the image scale had changed\<close>
  op_ImageScaleChange :: "'m \<Rightarrow> 'm" \<comment> \<open>what \<open>HandleImageScaleChange\<close> does to the other mount\<close>

datatype guider_event =
    EvLockPositionLost
  | EvSetLockPosition sodium_point
  | EvGuidingDithered real real \<comment> \<open>to the guide algorithms of \<open>pMount\<close>\<close>
  | EvStartCalibration bool \<comment> \<open>of the primary\<close>
  | EvCalibrationFailed bool
  | EvImageScaleChange
  | EvGuidingStarted
  | EvGuidingStopped
  | EvLooping
  | EvStarLost
  | EvStarSelected sodium_point
  | EvLockShiftLimitReached
  | EvMove guider_offset u32 \<comment> \<open>\<open>SchedulePrimaryMove\<close>\<close>
  | EvDirectMove sodium_point
  | EvBacklashStep sodium_point
  | EvBacklashError

definition IsPaused :: "'m guider \<Rightarrow> bool" where "IsPaused g \<longleftrightarrow> g_paused g \<noteq> PAUSE_NONE"

definition SetPaused :: "pause_type \<Rightarrow> 'm guider \<Rightarrow> 'm guider \<times> pause_type" where
  "SetPaused p g =
    (let prev = g_paused g; g = g\<lparr>g_paused := p\<rparr>
     in (if prev = PAUSE_FULL \<and> p \<noteq> prev then g\<lparr>g_avgDistanceNeedReset := True\<rparr> else g, prev))"

definition ForceFullFrame :: "'m guider \<Rightarrow> 'm guider" where
  "ForceFullFrame g = (if \<not> g_forceFullFrame g then g\<lparr>g_forceFullFrame := True\<rparr> else g)"

definition SetIgnoreLostStarLooping :: "bool \<Rightarrow> 'm guider \<Rightarrow> 'm guider" where
  "SetIgnoreLostStarLooping ignore g =
    (if g_ignoreLostStarLooping g \<noteq> ignore then g\<lparr>g_ignoreLostStarLooping := ignore\<rparr> else g)"

definition EnableMeasurementMode :: "bool \<Rightarrow> 'm guider \<Rightarrow> 'm guider" where
  "EnableMeasurementMode enable g =
    (if enable then if g_state g = GS_GUIDING then g\<lparr>g_measurementMode := True\<rparr> else g else g\<lparr>g_measurementMode := False\<rparr>)"

definition EnableFastRecenter :: "bool \<Rightarrow> 'm guider \<Rightarrow> 'm guider \<times> cfg_write list" where
  "EnableFastRecenter enable g =
    (g\<lparr>g_fastRecenterEnabled := enable\<rparr>, [SetInt ''/guider/FastRecenter'' (if enable then 1 else 0)])"

subsection \<open>The lock position\<close>

definition InvalidateLockPosition :: "'m guider \<Rightarrow> 'm guider \<times> guider_event list" where
  "InvalidateLockPosition g =
    (g\<lparr>g_lockPosition := Invalidate (g_lockPosition g)\<rparr>, if m_valid (g_lockPosition g) then [EvLockPositionLost] else [])"

definition base_SetLockPosition :: "int \<Rightarrow> sodium_point \<Rightarrow> 'm guider \<Rightarrow> 'm guider \<times> guider_event list \<times> bool" where
  \<comment> \<open>\<open>Guider::SetLockPosition\<close>; \<open>t\<close>: the time in milliseconds\<close>
  "base_SetLockPosition t p g =
    (if \<not> m_valid p then (g, [], True)
     else if X p < 0 \<or> X p \<ge> of_int (Width (g_image g)) then (g, [], True)
     else if Y p < 0 \<or> Y p \<ge> of_int (Height (g_image g)) then (g, [], True)
     else
       let lock = g_lockPosition g;
           evs = (if \<not> m_valid lock \<or> X p \<noteq> X lock \<or> Y p \<noteq> Y lock
                  then EvSetLockPosition p # (if g_state g = GS_GUIDING then [EvGuidingDithered (X p - X lock) (Y p - Y lock)] else [])
                  else [])
       in (g\<lparr>g_lockPosition := ShiftSetXY t (X p) (Y p) lock\<rparr>, evs, False))"

definition SetLockPosition :: "int \<Rightarrow> sodium_point \<Rightarrow> 'm guider \<Rightarrow> 'm guider \<times> guider_event list \<times> bool" where
  "SetLockPosition t p g =
    (case base_SetLockPosition t p g of (g, evs, err) \<Rightarrow>
       case ms_SetLockPosition err (g_star g) of (m, err) \<Rightarrow> (g\<lparr>g_star := m\<rparr>, evs, err))"

definition lock_valid :: "'m guider \<Rightarrow> 'a sodium_point_scheme \<Rightarrow> bool" where
  \<comment> \<open>the virtual \<open>IsValidLockPosition\<close>\<close>
  "lock_valid g p = IsValidLockPosition (g_image g) (m_searchRegion (g_star g)) p"

definition edgeDist :: "sodium_point \<Rightarrow> us_image \<Rightarrow> real" where
  "edgeDist p img = min (X p) (min (of_int (Width img) - X p) (min (Y p) (of_int (Height img) - Y p)))"

definition reflect :: "nat \<Rightarrow> sodium_point \<Rightarrow> sodium_point" where
  "reflect q p = SodiumPoint (X p * (1 - 2 * of_bool (odd q))) (Y p * (1 - 2 * of_bool (odd (q div 2))))"

text \<open>The direction of a dither: the first of four reflections with a valid lock position, or else the one farthest from the edge.\<close>

fun choose_dither ::
    "(nat \<Rightarrow> sodium_point \<times> sodium_point) \<Rightarrow> (sodium_point \<Rightarrow> bool) \<Rightarrow> (sodium_point \<Rightarrow> real) \<Rightarrow> nat list \<Rightarrow>
     real \<times> sodium_point \<times> sodium_point \<Rightarrow> sodium_point \<times> sodium_point" where
  \<comment> \<open>camera and mount vector of a reflection; the distance is \<open>dbest\<close>, of the best one so far\<close>
  "choose_dither move ok edge [] best = snd best"
| "choose_dither move ok edge (q # qs) best =
    (case move q of (cam, mnt) \<Rightarrow>
       if ok cam then (cam, mnt)
       else choose_dither move ok edge qs (if q = 0 \<or> edge cam > fst best then (edge cam, cam, mnt) else best))"

definition dither_move :: "'a mount_scheme \<Rightarrow> sodium_point \<Rightarrow> nat \<Rightarrow> sodium_point \<times> sodium_point" where
  \<comment> \<open>the transform does not fail, as the vector is valid\<close>
  "dither_move mnt delta q =
    (let tmpMount = reflect q delta
     in (snd (TransformMountCoordinatesToCameraCoordinates mnt tmpMount (Invalidate (SodiumPoint 0 0))), tmpMount))"

definition dither_direction :: "'a mount_scheme guider \<Rightarrow> sodium_point \<Rightarrow> sodium_point \<times> sodium_point" where
  "dither_direction g delta =
    (let target = (\<lambda>cam. SodiumPoint (X (g_lockPosition g) + X cam) (Y (g_lockPosition g) + Y cam))
     in choose_dither (dither_move (g_mount g) delta) (\<lambda>cam. lock_valid g (target cam)) (\<lambda>cam. edgeDist (target cam) (g_image g))
          [0, 1, 2, 3] (0, Invalidate (SodiumPoint 0 0), Invalidate (SodiumPoint 0 0)))"

definition add_distance :: "real \<Rightarrow> real \<Rightarrow> 'm guider \<Rightarrow> 'm guider" where
  "add_distance d dRA g =
    g\<lparr>g_avgDistance := g_avgDistance g + d, g_avgDistanceLong := g_avgDistanceLong g + d,
      g_avgDistanceRA := g_avgDistanceRA g + dRA, g_avgDistanceLongRA := g_avgDistanceLongRA g + dRA\<rparr>"

definition begin_recenter :: "sodium_point \<Rightarrow> 'm guider \<Rightarrow> 'm guider" where
  "begin_recenter mountDelta g =
    (let rem = SetXY \<bar>X mountDelta\<bar> \<bar>Y mountDelta\<bar> (g_ditherRemaining g);
         f = of_int (m_searchRegion (g_star g)) * 0.7 / Distance0 rem
     in g\<lparr>g_ditherRemaining := rem,
          g_ditherDir := (if X mountDelta < 0 then 1 else -1, if Y mountDelta < 0 then 1 else -1),
          g_ditherStep := SetXY (f * X rem) (f * Y rem) (g_ditherStep g)\<rparr>)"

definition MoveLockPosition ::
    "'a mount_scheme mount_ops \<Rightarrow> int \<Rightarrow> sodium_point \<Rightarrow> 'a mount_scheme guider \<Rightarrow> 'a mount_scheme guider \<times> guider_event list \<times> bool" where
  "MoveLockPosition ops t mountDeltaArg g =
    (if \<not> m_valid mountDeltaArg then (g, [], True)
     else if \<not> op_IsCalibrated ops (g_mount g) then (g, [], True)
     else
       let (cameraDelta, mountDelta) = dither_direction g mountDeltaArg
       in case SetLockPosition t (SodiumPoint (X (g_lockPosition g) + X cameraDelta) (Y (g_lockPosition g) + Y cameraDelta)) g of
            (g, evs, err) \<Rightarrow>
              if err then (g, evs, True)
              else
                let d = Distance0 cameraDelta; g = add_distance d \<bar>X mountDelta\<bar> g
                in (if g_fastRecenterEnabled g \<and> d \<noteq> 0 then begin_recenter mountDelta g else g, evs, False))"

subsection \<open>The state machine\<close>

fun gs_rank :: "guider_state \<Rightarrow> nat" where
  \<comment> \<open>the numbers of the enumeration\<close>
  "gs_rank GS_UNINITIALIZED = 0" | "gs_rank GS_SELECTING = 1" | "gs_rank GS_SELECTED = 2" | "gs_rank GS_CALIBRATING_PRIMARY = 3"
| "gs_rank GS_CALIBRATING_SECONDARY = 4" | "gs_rank GS_CALIBRATED = 5" | "gs_rank GS_GUIDING = 6" | "gs_rank GS_STOP = 7"

fun stop_state :: "guider_state \<Rightarrow> guider_state" where
  \<comment> \<open>what a request to stop means in each state\<close>
  "stop_state GS_CALIBRATING_PRIMARY = GS_UNINITIALIZED"
| "stop_state GS_CALIBRATING_SECONDARY = GS_UNINITIALIZED"
| "stop_state GS_CALIBRATED = GS_SELECTED"
| "stop_state GS_GUIDING = GS_SELECTED"
| "stop_state s = s"

definition begin_secondary :: "'m mount_ops \<Rightarrow> guider_state \<Rightarrow> 'm guider \<Rightarrow> 'm guider \<times> guider_event list \<times> guider_state" where
  \<comment> \<open>the case \<open>STATE_CALIBRATING_SECONDARY\<close>, entered for the requested state\<close>
  "begin_secondary ops requested g =
    (case g_mount2 g of
       None \<Rightarrow> (g, [], GS_CALIBRATED)
     | Some s \<Rightarrow>
         if \<not> op_IsConnected ops s then (g, [], GS_CALIBRATED)
         else if \<not> op_IsCalibrated ops s then
           (case op_BeginCalibration ops (CurrentPosition (g_star g)) s of (s, err) \<Rightarrow>
              (g\<lparr>g_mount2 := Some s\<rparr>, if err then [] else [EvStartCalibration False], if err then GS_UNINITIALIZED else requested))
         else (g, [], requested))"

definition adjust_mounts :: "'m mount_ops \<Rightarrow> 'm guider \<Rightarrow> 'm guider \<times> guider_event list" where
  "adjust_mounts ops g =
    (case op_AdjustCalibration ops (g_mount g) of (p, c1) \<Rightarrow>
       case map_option (\<lambda>s. op_AdjustCalibration ops (if c1 then op_ImageScaleChange ops s else s)) (g_mount2 g) of
         None \<Rightarrow> (g\<lparr>g_mount := p\<rparr>, if c1 then [EvImageScaleChange] else [])
       | Some (s, c2) \<Rightarrow>
           (g\<lparr>g_mount := (if c2 then op_ImageScaleChange ops p else p), g_mount2 := Some s\<rparr>,
            if c1 \<or> c2 then [EvImageScaleChange] else []))"

definition begin_guiding :: "'m mount_ops \<Rightarrow> int \<Rightarrow> 'm guider \<Rightarrow> 'm guider \<times> guider_event list" where
  \<comment> \<open>the case \<open>STATE_GUIDING\<close>\<close>
  "begin_guiding ops t g =
    (case adjust_mounts ops (g\<lparr>g_ditherRemaining := Invalidate (g_ditherRemaining g)\<rparr>) of (g, evs) \<Rightarrow>
       if m_valid (g_lockPosition g) \<and> g_lockPosIsSticky g then (g, evs)
       else case SetLockPosition t (CurrentPosition (g_star g)) g of (g, evs', err) \<Rightarrow> (g, evs @ evs'))"

definition enter_state :: "'m mount_ops \<Rightarrow> int \<Rightarrow> guider_state \<Rightarrow> 'm guider \<Rightarrow> 'm guider \<times> guider_event list \<times> guider_state" where
  \<comment> \<open>the requested state, and the new state\<close>
  "enter_state ops t requested g =
    (case requested of
       GS_UNINITIALIZED \<Rightarrow>
         (case InvalidateLockPosition g of (g, evs) \<Rightarrow>
            (g\<lparr>g_star := ms_InvalidateCurrentPosition False (g_star g)\<rparr>, evs, GS_SELECTING))
     | GS_CALIBRATING_PRIMARY \<Rightarrow>
         if \<not> op_IsCalibrated ops (g_mount g) then
           (case op_BeginCalibration ops (CurrentPosition (g_star g)) (g_mount g) of (p, err) \<Rightarrow>
              (g\<lparr>g_mount := p\<rparr>, if err then [] else [EvStartCalibration True], if err then GS_UNINITIALIZED else requested))
         else begin_secondary ops requested g
     | GS_CALIBRATING_SECONDARY \<Rightarrow> begin_secondary ops requested g
     | GS_GUIDING \<Rightarrow> (case begin_guiding ops t g of (g, evs) \<Rightarrow> (g, evs, requested))
     | _ \<Rightarrow> (g, [], requested))"

function SetState :: "'m mount_ops \<Rightarrow> int \<Rightarrow> guider_state \<Rightarrow> 'm guider \<Rightarrow> 'm guider \<times> guider_event list" where
  "SetState ops t newState g =
    (let requested = (if newState = GS_STOP then stop_state (g_state g) else newState)
     in if gs_rank requested > gs_rank (g_state g) + 1 then (g, [])
        else case enter_state ops t requested g of (g, evs, new) \<Rightarrow>
          if gs_rank new \<ge> gs_rank requested then (g\<lparr>g_state := new\<rparr>, evs)
          else case SetState ops t new g of (g, evs') \<Rightarrow> (g, evs @ evs'))"
  by pat_completeness auto


lemma gs_rank_le_STOP: "gs_rank s \<le> gs_rank GS_STOP" by (cases s) simp_all

termination SetState
proof (relation "measure (\<lambda>(ops, t, s, g). gs_rank s)")
  fix ops :: "'m mount_ops" and t newState and g g' :: "'m guider" and requested evs new and x y
  assume a: "requested = (if newState = GS_STOP then stop_state (g_state g) else newState)" "\<not> gs_rank new \<ge> gs_rank requested"
  have "gs_rank requested \<le> gs_rank newState" using a(1) gs_rank_le_STOP by (auto split: if_splits)
  then show "((ops, t, new, g'), ops, t, newState, g) \<in> measure (\<lambda>(ops, t, s, g). gs_rank s)" using a(2) by simp
qed simp

declare SetState.simps [simp del]

definition guider_StartGuiding :: "'m mount_ops \<Rightarrow> int \<Rightarrow> 'm guider \<Rightarrow> 'm guider \<times> guider_event list" where
  "guider_StartGuiding ops t g = SetState ops t GS_CALIBRATING_PRIMARY g"

definition guider_busy :: "'m mount_ops \<Rightarrow> 'm guider \<Rightarrow> bool" where
  "guider_busy ops g \<longleftrightarrow> op_IsBusy ops (g_mount g) \<or> (case g_mount2 g of None \<Rightarrow> False | Some s \<Rightarrow> op_IsBusy ops s)"

definition StopGuiding :: "'m mount_ops \<Rightarrow> int \<Rightarrow> 'm guider \<Rightarrow> 'm guider \<times> guider_event list" where
  "StopGuiding ops t g =
    (let stopped = (if guider_busy ops g then [] else [EvGuidingStopped]);
         evs = (case g_state g of
             GS_CALIBRATING_PRIMARY \<Rightarrow> EvCalibrationFailed True # stopped
           | GS_CALIBRATING_SECONDARY \<Rightarrow> EvCalibrationFailed False # stopped
           | GS_CALIBRATED \<Rightarrow> EvCalibrationFailed True # stopped
           | GS_GUIDING \<Rightarrow> stopped
           | _ \<Rightarrow> [])
     in case SetState ops t GS_STOP g of (g, evs') \<Rightarrow> (g, evs @ evs'))"

definition guider_Reset :: "'m mount_ops \<Rightarrow> int \<Rightarrow> bool \<Rightarrow> 'm guider \<Rightarrow> 'm guider \<times> guider_event list" where
  "guider_Reset ops t fullReset g =
    (case SetState ops t GS_UNINITIALIZED g of (g, evs) \<Rightarrow>
       (if fullReset then g\<lparr>g_star := ms_InvalidateCurrentPosition True (g_star g)\<rparr> else g, evs))"

subsection \<open>Average distances\<close>

definition restart_distance :: "real \<Rightarrow> real \<Rightarrow> 'm guider \<Rightarrow> 'm guider" where
  "restart_distance d dRA g =
    g\<lparr>g_avgDistance := d, g_avgDistanceLong := d, g_avgDistanceRA := dRA, g_avgDistanceLongRA := dRA, g_avgDistanceCnt := 1\<rparr>"

definition average_distance :: "real \<Rightarrow> real \<Rightarrow> 'm guider \<Rightarrow> 'm guider" where
  "average_distance d dRA g =
    (let cnt = g_avgDistanceCnt g + 1; a = (if cnt < 10 then 1 / real cnt else 0.045)
     in g\<lparr>g_avgDistance := g_avgDistance g + 0.3 * (d - g_avgDistance g),
          g_avgDistanceRA := g_avgDistanceRA g + 0.3 * (dRA - g_avgDistanceRA g),
          g_avgDistanceCnt := cnt,
          g_avgDistanceLong := g_avgDistanceLong g + a * (d - g_avgDistanceLong g),
          g_avgDistanceLongRA := g_avgDistanceLongRA g + a * (dRA - g_avgDistanceLongRA g)\<rparr>)"

definition UpdateCurrentDistance :: "int \<Rightarrow> real \<Rightarrow> real \<Rightarrow> 'm guider \<Rightarrow> 'm guider" where
  \<comment> \<open>the time in seconds\<close>
  "UpdateCurrentDistance sec d dRA g =
    (let g = g\<lparr>g_starFoundTimestamp := sec\<rparr>;
         g = (if g_state g = GS_GUIDING then average_distance d dRA g else restart_distance d dRA g)
     in if g_avgDistanceNeedReset g then (restart_distance d dRA g)\<lparr>g_avgDistanceNeedReset := False\<rparr> else g)"

definition current_error :: "int \<Rightarrow> int \<Rightarrow> real \<Rightarrow> real" where
  \<comment> \<open>the static \<open>CurrentError\<close>\<close>
  "current_error sec starFound avgDist = (if starFound = 0 then 100 else if sec - starFound > 20 then 100 else avgDist)"

definition CurrentError :: "int \<Rightarrow> bool \<Rightarrow> 'm guider \<Rightarrow> real" where
  "CurrentError sec raOnly g = current_error sec (g_starFoundTimestamp g) (if raOnly then g_avgDistanceRA g else g_avgDistance g)"

definition CurrentErrorSmoothed :: "int \<Rightarrow> bool \<Rightarrow> 'm guider \<Rightarrow> real" where
  "CurrentErrorSmoothed sec raOnly g =
    current_error sec (g_starFoundTimestamp g) (if raOnly then g_avgDistanceLongRA g else g_avgDistanceLong g)"

subsection \<open>Shifting the lock position\<close>

definition ShiftLockPosition :: "int \<Rightarrow> 'm guider \<Rightarrow> 'm guider \<times> bool" where
  "ShiftLockPosition t g = (let g = g\<lparr>g_lockPosition := UpdateShift t (g_lockPosition g)\<rparr> in (g, \<not> lock_valid g (g_lockPosition g)))"

definition EnableLockPosShift :: "int \<Rightarrow> bool \<Rightarrow> 'm guider \<Rightarrow> 'm guider" where
  "EnableLockPosShift t enable g =
    (if enable \<noteq> shiftEnabled (g_lockPosShift g)
     then let g = g\<lparr>g_lockPosShift := (g_lockPosShift g)\<lparr>shiftEnabled := enable\<rparr>\<rparr>
          in if enable then g\<lparr>g_lockPosition := BeginShift t (g_lockPosition g)\<rparr> else g
     else g)"

record sky_env =
  sk_declination :: "real option" \<comment> \<open>\<open>pPointingSource->GetDeclinationRadians()\<close>, when there is a source\<close>
  sk_pixelScale :: real \<comment> \<open>\<open>GetCameraPixelScale\<close>, never 0\<close>

definition the_scope :: "'m mount_ops \<Rightarrow> 'm guider \<Rightarrow> 'm option" where
  \<comment> \<open>\<open>TheScope()\<close>\<close>
  "the_scope ops g = (if op_IsStepGuider ops (g_mount g) then g_mount2 g else Some (g_mount g))"

definition sky_rate :: "sky_env \<Rightarrow> 'a mount_scheme \<Rightarrow> sodium_point \<Rightarrow> sodium_point" where
  \<comment> \<open>ephemeris rates: parity and declination\<close>
  "sky_rate sky m r =
    (let r = (if RAParity m \<noteq> GUIDE_PARITY_UNKNOWN \<or> DecParity m \<noteq> GUIDE_PARITY_UNKNOWN
              then r\<lparr>X := (if RAParity m = GUIDE_PARITY_ODD then - X r else X r), Y := (if DecParity m = GUIDE_PARITY_ODD then - Y r else Y r)\<rparr>
              else r)
     in case sk_declination sky of None \<Rightarrow> r
        | Some d \<Rightarrow> if d \<noteq> UNKNOWN_DECLINATION then r\<lparr>X := X r * cos d\<rparr> else r)"

definition camera_rate :: "'a mount_scheme mount_ops \<Rightarrow> sky_env \<Rightarrow> 'a mount_scheme guider \<Rightarrow> sodium_point" where
  "camera_rate ops sky g =
    (let sh = g_lockPosShift g
     in if shiftIsMountCoords sh
        then case the_scope ops g of None \<Rightarrow> SodiumPoint 0 0
             | Some m \<Rightarrow> snd (TransformMountCoordinatesToCameraCoordinates m
                 (if shiftUnits sh = UNIT_ARCSEC then sky_rate sky m (shiftRate sh) else shiftRate sh) (SodiumPoint 0 0))
        else shiftRate sh)"

definition UpdateLockPosShiftCameraCoords :: "'a mount_scheme mount_ops \<Rightarrow> int \<Rightarrow> sky_env \<Rightarrow> 'a mount_scheme guider \<Rightarrow> 'a mount_scheme guider" where
  "UpdateLockPosShiftCameraCoords ops t sky g =
    (if \<not> m_valid (shiftRate (g_lockPosShift g)) then g\<lparr>g_lockPosition := DisableShift (g_lockPosition g)\<rparr>
     else
       let r = camera_rate ops sky g; k = (if shiftUnits (g_lockPosShift g) = UNIT_ARCSEC then sk_pixelScale sky else 1)
       in g\<lparr>g_lockPosition := SetShiftRate t (X r / k / 3600) (Y r / k / 3600) (g_lockPosition g)\<rparr>)"

definition SetLockPosShiftRate ::
    "'a mount_scheme mount_ops \<Rightarrow> int \<Rightarrow> sky_env \<Rightarrow> sodium_point \<Rightarrow> graph_units \<Rightarrow> bool \<Rightarrow> 'a mount_scheme guider \<Rightarrow> 'a mount_scheme guider" where
  "SetLockPosShiftRate ops t sky rate units isMountCoords g =
    (let g = g\<lparr>g_lockPosShift := (g_lockPosShift g)\<lparr>shiftRate := rate, shiftUnits := units, shiftIsMountCoords := isMountCoords\<rparr>\<rparr>
     in if g_state g = GS_CALIBRATED \<or> g_state g = GS_GUIDING then UpdateLockPosShiftCameraCoords ops t sky g else g)"

subsection \<open>A frame\<close>

record frame_input =
  fr_image :: "us_image option"
  fr_time :: int \<comment> \<open>milliseconds\<close>
  fr_sec :: int \<comment> \<open>seconds\<close>
  fr_settling :: bool
  fr_raOnly :: bool
  fr_mode :: find_mode
  fr_saturation :: u16
  fr_exposure :: int
  fr_isAutoExp :: bool
  fr_guidingEnabled :: bool
  fr_staticPA :: bool \<comment> \<open>\<open>StaticPaTool::UpdateState()\<close>\<close>
  fr_polarDrift :: bool \<comment> \<open>\<open>PolarDriftTool::UpdateState()\<close>\<close>
  fr_sky :: sky_env

definition guide_env :: "'a mount_scheme mount_ops \<Rightarrow> frame_input \<Rightarrow> 'a mount_scheme guider \<Rightarrow> frame_env" where
  "guide_env ops i g =
    \<lparr>fe_image = g_image g, fe_mode = fr_mode i, fe_minHFD = g_minStarHFD g, fe_maxHFD = g_maxStarHFD g,
     fe_saturation = fr_saturation i, fe_time = fr_time i, fe_exposure = fr_exposure i, fe_isAutoExp = fr_isAutoExp i,
     fe_lockPos = sodium_point.truncate (g_lockPosition g), fe_raOnly = fr_raOnly i,
     fe_stats = \<lparr>es_guiding = (g_state g = GS_GUIDING), es_paused = IsPaused g, es_settling = fr_settling i,
       es_frameCount = g_avgDistanceCnt g, es_smoothed = CurrentErrorSmoothed (fr_sec i) (fr_raOnly i) g\<rparr>,
     fe_mount = (if op_IsCalibrated ops (g_mount g) then Some (mount.truncate (g_mount g)) else None),
     fe_guidingEnabled = fr_guidingEnabled i\<rparr>"

definition update_position ::
    "'a mount_scheme mount_ops \<Rightarrow> frame_input \<Rightarrow> 'a mount_scheme guider \<Rightarrow> ('a mount_scheme guider \<times> guider_offset option) option" where
  \<comment> \<open>the offset of an accepted frame\<close>
  "update_position ops i g =
    (case UpdateCurrentPosition (guide_env ops i g) (g_star g) of
       None \<Rightarrow> None
     | Some (m, FrameRejected d) \<Rightarrow> Some (g\<lparr>g_star := m\<rparr>, None)
     | Some (m, FrameAccepted ofs dst) \<Rightarrow>
         let g = g\<lparr>g_star := m\<rparr>
         in Some (case dst of None \<Rightarrow> g | Some (d, dRA) \<Rightarrow> UpdateCurrentDistance (fr_sec i) d dRA g, Some ofs))"

definition ZERO_OFS :: guider_offset where
  "ZERO_OFS = \<lparr>cameraOfs = Invalidate (SodiumPoint 0 0), mountOfs = Invalidate (SodiumPoint 0 0)\<rparr>"

definition frame_lost :: "'m mount_ops \<Rightarrow> int \<Rightarrow> 'm guider \<Rightarrow> 'm guider \<times> guider_event list" where
  "frame_lost ops t g =
    (case g_state g of
       GS_UNINITIALIZED \<Rightarrow> (g, [EvLooping])
     | GS_SELECTING \<Rightarrow> (g, [EvLooping])
     | GS_SELECTED \<Rightarrow>
         if \<not> g_ignoreLostStarLooping g
         then case SetState ops t GS_UNINITIALIZED g of (g, evs) \<Rightarrow> (g, EvLooping # evs @ [EvStarLost]) else (g, [EvLooping])
     | GS_CALIBRATING_PRIMARY \<Rightarrow> (g, [EvStarLost])
     | GS_CALIBRATING_SECONDARY \<Rightarrow> (g, [EvStarLost])
     | GS_GUIDING \<Rightarrow> (g, [EvStarLost, EvMove ZERO_OFS MOVEOPTS_DEDUCED_MOVE])
     | _ \<Rightarrow> (g, []))"

definition recenter_step :: "'m guider \<Rightarrow> 'm guider \<times> sodium_point" where
  \<comment> \<open>one large step of a fast recenter: the mount vector\<close>
  "recenter_step g =
    (let rem = g_ditherRemaining g; step = SodiumPoint (min (X rem) (X (g_ditherStep g))) (min (Y rem) (Y (g_ditherStep g)));
         rem = rem\<lparr>X := X rem - X step, Y := Y rem - Y step\<rparr>; finished = (X rem < 0.5 \<and> Y rem < 0.5)
     in (g\<lparr>g_ditherRemaining := (if finished then Invalidate rem else rem),
           g_avgDistanceNeedReset := (finished \<or> g_avgDistanceNeedReset g)\<rparr>,
         SodiumPoint (X step * of_int (fst (g_ditherDir g))) (Y step * of_int (snd (g_ditherDir g)))))"

definition guide_frame :: "guider_offset \<Rightarrow> 'a mount_scheme guider \<Rightarrow> 'a mount_scheme guider \<times> guider_event list" where
  \<comment> \<open>the case \<open>STATE_GUIDING\<close> of a frame\<close>
  "guide_frame ofs g =
    (if m_valid (g_ditherRemaining g)
     then
       case recenter_step g of (g, mo) \<Rightarrow>
         (g, [EvMove (ofs\<lparr>mountOfs := mo, cameraOfs := snd (TransformMountCoordinatesToCameraCoordinates (g_mount g) mo (cameraOfs ofs))\<rparr>)
                MOVEOPTS_RECOVERY_MOVE, EvDirectMove mo])
     else if g_measurementMode g then (g, [EvBacklashStep (CurrentPosition (g_star g))])
     else (g, [EvMove ofs MOVEOPTS_GUIDE_STEP]))"

definition start_guide_steps ::
    "'a mount_scheme mount_ops \<Rightarrow> frame_input \<Rightarrow> 'a mount_scheme guider \<Rightarrow> 'a mount_scheme guider \<times> guider_event list" where
  \<comment> \<open>the case \<open>STATE_CALIBRATED\<close>\<close>
  "start_guide_steps ops i g =
    (case SetState ops (fr_time i) GS_GUIDING g of (g, evs) \<Rightarrow>
       (UpdateLockPosShiftCameraCoords ops (fr_time i) (fr_sky i) g, evs @ [EvGuidingStarted]))"

definition calibrated_frame ::
    "'a mount_scheme mount_ops \<Rightarrow> frame_input \<Rightarrow> 'a mount_scheme guider \<Rightarrow> 'a mount_scheme guider \<times> guider_event list" where
  \<comment> \<open>both mounts are calibrated\<close>
  "calibrated_frame ops i g =
    (case SetState ops (fr_time i) GS_CALIBRATED g of (g, evs) \<Rightarrow>
       case start_guide_steps ops i g of (g, evs') \<Rightarrow> (g, evs @ evs'))"

definition secondary_frame ::
    "'a mount_scheme mount_ops \<Rightarrow> frame_input \<Rightarrow> 'a mount_scheme guider \<Rightarrow> ('a mount_scheme guider \<times> guider_event list) option" where
  \<comment> \<open>the case \<open>STATE_CALIBRATING_SECONDARY\<close>\<close>
  "secondary_frame ops i g =
    (case g_mount2 g of
       None \<Rightarrow> Some (calibrated_frame ops i g)
     | Some s \<Rightarrow>
         if \<not> op_IsConnected ops s \<or> op_IsCalibrated ops s then Some (calibrated_frame ops i g)
         else case op_UpdateCalibrationState ops (CurrentPosition (g_star g)) s of
           None \<Rightarrow> None
         | Some (s, err) \<Rightarrow>
             let g = g\<lparr>g_mount2 := Some s\<rparr>
             in Some (if err then SetState ops (fr_time i) GS_UNINITIALIZED g
                      else if \<not> op_IsCalibrated ops s then (g, []) else calibrated_frame ops i g))"

definition after_primary ::
    "'a mount_scheme mount_ops \<Rightarrow> frame_input \<Rightarrow> 'a mount_scheme guider \<Rightarrow> ('a mount_scheme guider \<times> guider_event list) option" where
  \<comment> \<open>the primary is calibrated; the cases fall through unless the secondary has to be calibrated\<close>
  "after_primary ops i g =
    (case SetState ops (fr_time i) GS_CALIBRATING_SECONDARY g of (g, evs) \<Rightarrow>
       if g_state g = GS_CALIBRATING_SECONDARY then Some (g, evs)
       else map_option (\<lambda>(g, evs'). (g, evs @ evs')) (secondary_frame ops i g))"

definition primary_frame ::
    "'a mount_scheme mount_ops \<Rightarrow> frame_input \<Rightarrow> 'a mount_scheme guider \<Rightarrow> ('a mount_scheme guider \<times> guider_event list) option" where
  \<comment> \<open>the case \<open>STATE_CALIBRATING_PRIMARY\<close>\<close>
  "primary_frame ops i g =
    (if op_IsCalibrated ops (g_mount g) then after_primary ops i g
     else case op_UpdateCalibrationState ops (CurrentPosition (g_star g)) (g_mount g) of
       None \<Rightarrow> None
     | Some (p, err) \<Rightarrow>
         let g = g\<lparr>g_mount := p\<rparr>
         in if err then Some (SetState ops (fr_time i) GS_UNINITIALIZED g)
            else if \<not> op_IsCalibrated ops p then Some (g, []) else after_primary ops i g)"

definition selecting_frame :: "'m mount_ops \<Rightarrow> int \<Rightarrow> 'm guider \<Rightarrow> 'm guider \<times> guider_event list" where
  "selecting_frame ops t g =
    (case SetLockPosition t (CurrentPosition (g_star g)) g of (g, evs, err) \<Rightarrow>
       case SetState ops t GS_SELECTED g of (g, evs') \<Rightarrow> (g, evs @ EvStarSelected (CurrentPosition (g_star g)) # evs'))"

definition accepted_frame ::
    "'a mount_scheme mount_ops \<Rightarrow> frame_input \<Rightarrow> guider_offset \<Rightarrow> 'a mount_scheme guider \<Rightarrow>
     ('a mount_scheme guider \<times> guider_event list) option" where
  "accepted_frame ops i ofs g =
    (if IsPaused g then Some (g, if g_state g = GS_GUIDING then [EvMove ZERO_OFS MOVEOPTS_DEDUCED_MOVE] else [])
     else case g_state g of
       GS_SELECTING \<Rightarrow> Some (selecting_frame ops (fr_time i) g)
     | GS_SELECTED \<Rightarrow> Some (if \<not> fr_staticPA i \<or> \<not> fr_polarDrift i then SetState ops (fr_time i) GS_UNINITIALIZED g else (g, []))
     | GS_CALIBRATING_PRIMARY \<Rightarrow> primary_frame ops i g
     | GS_CALIBRATING_SECONDARY \<Rightarrow> secondary_frame ops i g
     | GS_CALIBRATED \<Rightarrow> Some (start_guide_steps ops i g)
     | GS_GUIDING \<Rightarrow> Some (guide_frame ofs g)
     | _ \<Rightarrow> Some (g, []))"

definition shift_lock :: "int \<Rightarrow> 'm guider \<Rightarrow> 'm guider \<times> guider_event list" where
  "shift_lock t g =
    (if shiftEnabled (g_lockPosShift g) \<and> g_state g = GS_GUIDING
     then case ShiftLockPosition t g of (g, bad) \<Rightarrow> if bad then (EnableLockPosShift t False g, [EvLockShiftLimitReached]) else (g, [])
     else (g, []))"

definition end_measurement :: "'m guider \<times> guider_event list \<Rightarrow> 'm guider \<times> guider_event list" where
  "end_measurement = (\<lambda>(g, evs).
    if g_measurementMode g \<and> g_state g \<noteq> GS_GUIDING then (g\<lparr>g_measurementMode := False\<rparr>, evs @ [EvBacklashError]) else (g, evs))"

definition looping_state :: "guider_state \<Rightarrow> bool" where
  "looping_state s \<longleftrightarrow> s \<in> {GS_UNINITIALIZED, GS_SELECTING, GS_SELECTED}"

definition position_frame ::
    "'a mount_scheme mount_ops \<Rightarrow> frame_input \<Rightarrow> 'a mount_scheme guider \<Rightarrow> ('a mount_scheme guider \<times> guider_event list) option" where
  \<comment> \<open>from the update of the current position on\<close>
  "position_frame ops i g =
    (case update_position ops i g of
       None \<Rightarrow> None
     | Some (g, None) \<Rightarrow> Some (frame_lost ops (fr_time i) g)
     | Some (g, Some ofs) \<Rightarrow>
         map_option (\<lambda>(g', evs). (g', (if looping_state (g_state g) then [EvLooping] else []) @ evs))
           (accepted_frame ops i ofs (g\<lparr>g_forceFullFrame := False\<rparr>)))"

definition UpdateGuideState ::
    "'a mount_scheme mount_ops \<Rightarrow> frame_input \<Rightarrow> bool \<Rightarrow> 'a mount_scheme guider \<Rightarrow> ('a mount_scheme guider \<times> guider_event list) option" where
  "UpdateGuideState ops i stopping g =
    (let g = (case fr_image i of None \<Rightarrow> g | Some img \<Rightarrow> g\<lparr>g_image := img\<rparr>)
     in map_option end_measurement
          (if stopping then Some (StopGuiding ops (fr_time i) g)
           else case shift_lock (fr_time i) g of (g, evs) \<Rightarrow>
             map_option (\<lambda>(g, evs'). (g, evs @ evs')) (position_frame ops i g)))"

definition DisplayImage :: "us_image \<Rightarrow> 'm guider \<Rightarrow> 'm guider" where
  "DisplayImage img g = (if IsCalibratingOrGuiding (g_state g) then g else g\<lparr>g_image := img\<rparr>)"

definition SetLockPosToStarAtPosition :: "frame_env \<Rightarrow> int \<Rightarrow> sodium_point \<Rightarrow> 'm guider \<Rightarrow> ('m guider \<times> guider_event list \<times> bool) option" where
  "SetLockPosToStarAtPosition e t hint g =
    (case ms_SetCurrentPosition e hint (g_star g) of
       None \<Rightarrow> None
     | Some (m, err) \<Rightarrow>
         let g = g\<lparr>g_star := m\<rparr>
         in Some (if \<not> err \<and> m_valid (CurrentPosition m)
                  then case SetLockPosition t (CurrentPosition m) g of (g, evs, _) \<Rightarrow> (g, evs, err) else (g, [], err)))"

definition edge_allowance :: "'m mount_ops \<Rightarrow> 'm guider \<Rightarrow> int" where
  \<comment> \<open>room for the motion of the star during a calibration\<close>
  "edge_allowance ops g =
    (let need = (\<lambda>m. if op_IsConnected ops m \<and> \<not> op_IsCalibrated ops m then op_CalibrationTotDistance ops m else 0)
     in max (max 0 (need (g_mount g))) (case g_mount2 g of None \<Rightarrow> 0 | Some s \<Rightarrow> need s))"

definition select_found ::
    "'a mount_scheme mount_ops \<Rightarrow> frame_input \<Rightarrow> 'a mount_scheme guider \<Rightarrow> ('a mount_scheme guider \<times> guider_event list \<times> bool) option" where
  \<comment> \<open>the primary star has been found\<close>
  "select_found ops i g =
    (case SetLockPosition (fr_time i) (CurrentPosition (g_star g))
        (g\<lparr>g_star := (g_star g)\<lparr>m_primaryDistStats := ds_ClearAll\<rparr>\<rparr>) of (g, evs, err) \<Rightarrow>
       if err then Some (g, evs, True)
       else if g_state g = GS_SELECTING
       then map_option (\<lambda>(g, evs'). (g, evs @ evs', False)) (UpdateGuideState ops (i\<lparr>fr_image := None\<rparr>) False g)
       else Some (g, evs, False))"

definition AutoSelect ::
    "'a mount_scheme mount_ops \<Rightarrow> (nat \<Rightarrow> u16) \<Rightarrow> select_env \<Rightarrow> frame_input \<Rightarrow> rect \<Rightarrow> 'a mount_scheme guider \<Rightarrow>
     ('a mount_scheme guider \<times> guider_event list \<times> bool) option" where
  \<comment> \<open>the flag: an error; the settings of the search and of the frame are given\<close>
  "AutoSelect ops fresh se i roi g =
    (if ImageData (g_image g) = [] then Some (g, [], True)
     else
       let m = g_star g
       in case AutoFind fresh se (g_image g) (edge_allowance ops g) (m_searchRegion m) roi 12 (GuideStar_new, m_guideStars m) of
            None \<Rightarrow> None
          | Some (newStar, fs, found) \<Rightarrow>
              let m = m\<lparr>m_guideStars := fs\<rparr>
              in if \<not> found then Some (g\<lparr>g_star := m\<rparr>, [], True)
                 else
                   let m = m\<lparr>m_massChecker := mc_Reset (m_massChecker m)\<rparr>
                   in case star_Find (g_image g) (m_searchRegion m) (trunc (X newStar)) (trunc (Y newStar)) FIND_CENTROID
                        (g_minStarHFD g) (g_maxStarHFD g) (fr_saturation i) (m_primaryStar m) of
                        None \<Rightarrow> None
                      | Some (s, ok) \<Rightarrow>
                          let g = g\<lparr>g_star := m\<lparr>m_primaryStar := s\<rparr>\<rparr>
                          in if \<not> ok then Some (g, [], True) else select_found ops i g)"

definition multi_star_on ::
    "'a mount_scheme mount_ops \<Rightarrow> (nat \<Rightarrow> u16) \<Rightarrow> select_env \<Rightarrow> frame_input \<Rightarrow> 'a mount_scheme guider \<Rightarrow>
     ('a mount_scheme guider \<times> guider_event list) option" where
  \<comment> \<open>with a single star selected, the secondary stars have to be found\<close>
  "multi_star_on ops fresh se i g =
    (if gs_rank (g_state g) \<ge> gs_rank GS_SELECTED
     then case StopGuiding ops (fr_time i) g of (g, ev1) \<Rightarrow>
       (case AutoSelect ops fresh se i \<lparr>rX = 0, rY = 0, rW = 0, rH = 0\<rparr>
            (g\<lparr>g_star := ms_InvalidateCurrentPosition True (g_star g)\<rparr>) of
          None \<Rightarrow> None
        | Some (g, ev2, err) \<Rightarrow>
            Some (if err then (g, ev1 @ ev2)
                  else case guider_StartGuiding ops (fr_time i) g of (g, ev3) \<Rightarrow> (g, ev1 @ ev2 @ ev3)))
     else Some (g, []))"

definition SetMultiStarMode ::
    "'a mount_scheme mount_ops \<Rightarrow> (nat \<Rightarrow> u16) \<Rightarrow> select_env \<Rightarrow> frame_input \<Rightarrow> bool \<Rightarrow> 'a mount_scheme guider \<Rightarrow>
     ('a mount_scheme guider \<times> guider_event list \<times> cfg_write list) option" where
  "SetMultiStarMode ops fresh se i val g =
    (let oldVal = m_multiStarMode (g_star g); g = g\<lparr>g_star := (g_star g)\<lparr>m_multiStarMode := val\<rparr>\<rparr>
     in map_option (\<lambda>(g, evs). (if val then g else g\<lparr>g_star := (g_star g)\<lparr>m_stabilizing := False\<rparr>\<rparr>, evs,
           [SetBoolean ''/guider/multistar/enabled'' val]))
          (if val \<and> \<not> oldVal
           then multi_star_on ops fresh se i (g\<lparr>g_star := (g_star g)\<lparr>m_primaryDistStats := ds_ClearAll\<rparr>\<rparr>) else Some (g, [])))"

subsection \<open>What clients see\<close>

datatype exposed_state = EXPOSED_STATE_NONE | EXPOSED_STATE_SELECTED | EXPOSED_STATE_CALIBRATING | EXPOSED_STATE_GUIDING_LOCKED
  | EXPOSED_STATE_GUIDING_LOST | EXPOSED_STATE_PAUSED | EXPOSED_STATE_LOOPING

definition GetExposedState :: "bool \<Rightarrow> 'm guider option \<Rightarrow> exposed_state" where
  \<comment> \<open>\<open>CaptureActive\<close>\<close>
  "GetExposedState capture guider =
    (case guider of None \<Rightarrow> EXPOSED_STATE_NONE
     | Some g \<Rightarrow>
         if IsPaused g then EXPOSED_STATE_PAUSED
         else if \<not> capture then EXPOSED_STATE_NONE
         else case g_state g of
             GS_SELECTING \<Rightarrow> if m_valid (CurrentPosition (g_star g)) then EXPOSED_STATE_SELECTED else EXPOSED_STATE_LOOPING
           | GS_SELECTED \<Rightarrow> EXPOSED_STATE_SELECTED
           | GS_CALIBRATED \<Rightarrow> EXPOSED_STATE_SELECTED
           | GS_CALIBRATING_PRIMARY \<Rightarrow> EXPOSED_STATE_CALIBRATING
           | GS_CALIBRATING_SECONDARY \<Rightarrow> EXPOSED_STATE_CALIBRATING
           | GS_GUIDING \<Rightarrow> if IsLocked (g_star g) then EXPOSED_STATE_GUIDING_LOCKED else EXPOSED_STATE_GUIDING_LOST
           | _ \<Rightarrow> EXPOSED_STATE_NONE)"

definition GetBoundingBox :: "int \<Rightarrow> int \<Rightarrow> 'm guider \<Rightarrow> rect" where
  \<comment> \<open>the size of the camera's frame\<close>
  "GetBoundingBox w h g =
    (let m = g_star g; pos = CurrentPosition m; lock = sodium_point.truncate (g_lockPosition g);
         (subframe, pos) = (case g_state g of
             GS_SELECTED \<Rightarrow> (star_WasFound (m_primaryStar m), pos)
           | GS_CALIBRATING_PRIMARY \<Rightarrow> (star_WasFound (m_primaryStar m), pos)
           | GS_CALIBRATING_SECONDARY \<Rightarrow> (star_WasFound (m_primaryStar m), pos)
           | GS_GUIDING \<Rightarrow> (star_WasFound (m_primaryStar m), follow_star lock m)
           | _ \<Rightarrow> (False, pos))
     in if subframe \<and> \<not> g_forceFullFrame g
        then rect_Intersect (SubframeRect pos (m_searchRegion m)) \<lparr>rX = 0, rY = 0, rW = w, rH = h\<rparr>
        else \<lparr>rX = 0, rY = 0, rW = 0, rH = 0\<rparr>)"

end
