(* ===== verification/GuiderRun.thy ===== *)
theory GuiderRun
  imports Guider Scope
begin

text \<open>
  Runs of the guider: any sequence of requests and frames. The contract the guider needs of a mount is a locale, with an
  interpretation on the scope. Moves are sent only while guiding, with a calibrated mount as long as nothing takes the calibration
  away after the guider has looked at it.
\<close>

subsection \<open>What the guider needs of a mount\<close>

definition cal_ok :: "bool \<Rightarrow> 'a mount_scheme \<Rightarrow> bool" where
  \<comment> \<open>calibrated, unless the calibration may have been lost\<close>
  "cal_ok lost m \<longleftrightarrow> lost \<or> MountIsCalibrated m"

definition past_calibration :: "guider_state set" where
  "past_calibration = {GS_CALIBRATING_SECONDARY, GS_CALIBRATED, GS_GUIDING}"

definition guiding_ok :: "bool \<Rightarrow> 'a mount_scheme guider \<Rightarrow> bool" where
  "guiding_ok lost g \<longleftrightarrow> g_state g \<noteq> GS_STOP \<and>
    (g_state g \<in> {GS_CALIBRATING_SECONDARY, GS_CALIBRATED, GS_GUIDING} \<longrightarrow> cal_ok lost (g_mount g))"

lemma cal_ok_lost [simp]: "cal_ok True m"
  by (simp add: cal_ok_def)

lemma guiding_ok_cong:
  "g_state g' = g_state g \<Longrightarrow> g_mount g' = g_mount g \<Longrightarrow> guiding_ok lost g' = guiding_ok lost g"
  by (simp add: guiding_ok_def)

lemma SetLockPosition_frame:
  assumes "SetLockPosition t p g = (g', evs, err)"
  shows "g_state g' = g_state g" "g_mount g' = g_mount g" "g_mount2 g' = g_mount2 g" "g_paused g' = g_paused g"
    "EvMove ofs opts \<notin> set evs" "EvImageScaleChange \<notin> set evs"
  using assms by (auto simp: SetLockPosition_def base_SetLockPosition_def Let_def split: if_splits prod.splits)

lemma MoveLockPosition_frame:
  assumes "MoveLockPosition ops t p g = (g', evs, err)"
  shows "g_state g' = g_state g" "g_mount g' = g_mount g" "EvMove ofs opts \<notin> set evs" "EvImageScaleChange \<notin> set evs"
proof -
  obtain camera mount where d: "dither_direction g p = (camera, mount)" by fastforce
  obtain h ev e where h: "SetLockPosition t (SodiumPoint (X (g_lockPosition g) + X camera) (Y (g_lockPosition g) + Y camera)) g = (h, ev, e)"
    by (metis prod_cases3)
  have a: "g_state (add_distance x y k) = g_state k" "g_mount (add_distance x y k) = g_mount k" for x y and k :: "'a mount_scheme guider"
    by (simp_all add: add_distance_def)
  have b: "g_state (begin_recenter x k) = g_state k" "g_mount (begin_recenter x k) = g_mount k" for x and k :: "'a mount_scheme guider"
    by (simp_all add: begin_recenter_def Let_def)
  note r = assms [unfolded MoveLockPosition_def d Let_def prod.case h]
  show "g_state g' = g_state g" "g_mount g' = g_mount g" using r SetLockPosition_frame(1,2) [OF h] a b by (auto split: if_splits)
  show "EvMove ofs opts \<notin> set evs" "EvImageScaleChange \<notin> set evs"
    using r SetLockPosition_frame(5,6) [OF h] by (auto split: if_splits)
qed

lemma SetState_uninit:
  "SetState ops t GS_UNINITIALIZED g =
    (g\<lparr>g_lockPosition := Invalidate (g_lockPosition g), g_star := ms_InvalidateCurrentPosition False (g_star g), g_state := GS_SELECTING\<rparr>,
     if m_valid (g_lockPosition g) then [EvLockPositionLost] else [])"
  by (simp add: SetState.simps [of ops t GS_UNINITIALIZED] enter_state_def InvalidateLockPosition_def)

lemma SetState_uninit_ok:
  assumes "SetState ops t GS_UNINITIALIZED g = (g', evs)"
  shows "guiding_ok lost g'" "EvMove ofs opts \<notin> set evs"
  using assms by (auto simp: SetState_uninit guiding_ok_def split: if_splits)

lemma stop_state_not_STOP [simp]: "stop_state s = GS_STOP \<longleftrightarrow> s = GS_STOP"
  by (cases s) simp_all

definition plain_guiding :: "'m guider \<Rightarrow> bool" where
  \<comment> \<open>guiding, and neither paused, nor in a fast recenter, nor in a measurement\<close>
  "plain_guiding g \<longleftrightarrow> g_state g = GS_GUIDING \<and> \<not> IsPaused g \<and> \<not> m_valid (g_ditherRemaining g) \<and> \<not> g_measurementMode g"

lemma moveopts_distinct:
  "MOVEOPTS_DEDUCED_MOVE \<noteq> MOVEOPTS_GUIDE_STEP" "MOVEOPTS_RECOVERY_MOVE \<noteq> MOVEOPTS_GUIDE_STEP"
  "MOVEOPTS_GUIDE_STEP \<noteq> MOVEOPTS_DEDUCED_MOVE" "MOVEOPTS_GUIDE_STEP \<noteq> MOVEOPTS_RECOVERY_MOVE"
  by (simp_all add: moveopt_defs push_bit_eq_mult)

lemma update_position_frame:
  assumes "update_position ops i g = Some (g', r)"
  shows "g_state g' = g_state g" "g_mount g' = g_mount g" "g_paused g' = g_paused g" "g_ditherRemaining g' = g_ditherRemaining g"
    "g_measurementMode g' = g_measurementMode g"
  using assms
  by (auto simp: update_position_def UpdateCurrentDistance_def average_distance_def restart_distance_def Let_def
      split: option.splits update_result.splits if_splits)

lemma shift_lock_frame:
  assumes "shift_lock t g = (g', evs)"
  shows "g_state g' = g_state g" "g_mount g' = g_mount g" "plain_guiding g' = plain_guiding g" "EvMove ofs opts \<notin> set evs"
    "EvImageScaleChange \<notin> set evs"
  using assms
  by (auto simp: shift_lock_def ShiftLockPosition_def EnableLockPosShift_def plain_guiding_def IsPaused_def Let_def split: if_splits)

locale guider_mount =
  fixes ops :: "'a mount_scheme mount_ops"
  assumes calibrated_flag: "op_IsCalibrated ops m \<Longrightarrow> MountIsCalibrated m"
    and adjust_keeps: "op_AdjustCalibration ops m = (m', False) \<Longrightarrow> MountIsCalibrated m \<Longrightarrow> MountIsCalibrated m'"
begin

lemma flag_ok: "op_IsCalibrated ops m \<Longrightarrow> cal_ok lost m"
  by (simp add: cal_ok_def calibrated_flag)

lemma adjust_ok: "op_AdjustCalibration ops m = (m', False) \<Longrightarrow> cal_ok lost m \<Longrightarrow> cal_ok lost m'"
  using adjust_keeps by (auto simp: cal_ok_def)

lemma begin_secondary_ok:
  assumes "begin_secondary ops requested g = (g', evs, new)"
  shows "g_mount g' = g_mount g \<and> g_state g' = g_state g \<and> new \<in> {GS_CALIBRATED, requested, GS_UNINITIALIZED} \<and>
    EvMove ofs opts \<notin> set evs"
  using assms by (auto simp: begin_secondary_def split: option.splits if_splits prod.splits)

lemma begin_guiding_ok:
  assumes "begin_guiding ops t g = (g', evs)" "cal_ok lost (g_mount g)"
  shows "g_state g' = g_state g \<and> EvMove ofs opts \<notin> set evs \<and> (lost \<or> EvImageScaleChange \<notin> set evs \<longrightarrow> cal_ok lost (g_mount g'))"
proof -
  obtain h ev1 where h: "adjust_mounts ops (g\<lparr>g_ditherRemaining := Invalidate (g_ditherRemaining g)\<rparr>) = (h, ev1)" by fastforce
  have 1: "g_state h = g_state g \<and> EvMove ofs opts \<notin> set ev1 \<and> (lost \<or> EvImageScaleChange \<notin> set ev1 \<longrightarrow> cal_ok lost (g_mount h))"
    using h assms(2) adjust_ok [of "g_mount g"] by (auto simp: adjust_mounts_def split: prod.splits option.splits if_splits)
  show ?thesis
  proof (cases "m_valid (g_lockPosition h) \<and> g_lockPosIsSticky h")
    case True
    then show ?thesis using assms(1) 1 h by (simp add: begin_guiding_def)
  next
    case False
    obtain k ev2 err where k: "SetLockPosition t (CurrentPosition (g_star h)) h = (k, ev2, err)" by (metis prod_cases3)
    then have "g' = k" "evs = ev1 @ ev2" using assms(1) h False by (auto simp: begin_guiding_def)
    then show ?thesis using 1 SetLockPosition_frame [OF k] by simp
  qed
qed

lemma SetState_ok:
  assumes "SetState ops t s g = (g', evs)" "guiding_ok lost g"
    and "s \<in> {GS_CALIBRATING_SECONDARY, GS_CALIBRATED} \<Longrightarrow> cal_ok lost (g_mount g)"
  shows "EvMove ofs opts \<notin> set evs" "lost \<or> EvImageScaleChange \<notin> set evs \<Longrightarrow> guiding_ok lost g'"
proof -
  define r where "r = (if s = GS_STOP then stop_state (g_state g) else s)"
  obtain h ev1 new where h: "enter_state ops t r g = (h, ev1, new)" by (metis prod_cases3)
  have st: "SetState ops t s g = (if gs_rank r > gs_rank (g_state g) + 1 then (g, [])
      else if gs_rank new \<ge> gs_rank r then (h\<lparr>g_state := new\<rparr>, ev1)
      else case SetState ops t new h of (g, evs') \<Rightarrow> (g, ev1 @ evs'))"
    by (subst SetState.simps) (simp add: Let_def h flip: r_def)
  have r: "r \<noteq> GS_STOP" using assms(2) by (auto simp: r_def guiding_ok_def)
  have m: "r \<in> {GS_CALIBRATING_SECONDARY, GS_CALIBRATED} \<Longrightarrow> cal_ok lost (g_mount g)"
    using assms(2,3) by (cases "g_state g") (auto simp: r_def split: if_splits)
  have "EvMove ofs opts \<notin> set evs \<and> (lost \<or> EvImageScaleChange \<notin> set evs \<longrightarrow> guiding_ok lost g')"
  proof (cases "gs_rank r > gs_rank (g_state g) + 1")
    case True
    then show ?thesis using assms(1,2) st by simp
  next
    case False
    have fin: ?thesis
      if "EvMove ofs opts \<notin> set ev1" "new \<noteq> GS_STOP" "gs_rank new < gs_rank r \<Longrightarrow> new = GS_UNINITIALIZED"
        "lost \<or> EvImageScaleChange \<notin> set ev1 \<Longrightarrow> new \<in> {GS_CALIBRATING_SECONDARY, GS_CALIBRATED, GS_GUIDING} \<Longrightarrow> cal_ok lost (g_mount h)"
    proof (cases "gs_rank new \<ge> gs_rank r")
      case True
      then have "g' = h\<lparr>g_state := new\<rparr>" "evs = ev1" using assms(1) st False by auto
      then show ?thesis using that by (auto simp: guiding_ok_def)
    next
      case less: False
      obtain k ev2 where k: "SetState ops t GS_UNINITIALIZED h = (k, ev2)" by fastforce
      then have "g' = k" "evs = ev1 @ ev2" using assms(1) st False less that(3) by auto
      then show ?thesis using that(1) SetState_uninit_ok [OF k] by simp
    qed
    show ?thesis
    proof (cases r)
      case GS_UNINITIALIZED
      then show ?thesis using h by (intro fin) (auto simp: enter_state_def InvalidateLockPosition_def split: if_splits)
    next
      case GS_CALIBRATING_PRIMARY
      show ?thesis
      proof (cases "op_IsCalibrated ops (g_mount g)")
        case True
        then have "begin_secondary ops r g = (h, ev1, new)" using h GS_CALIBRATING_PRIMARY by (simp add: enter_state_def)
        from begin_secondary_ok [OF this, of ofs opts] show ?thesis
          using flag_ok [OF True] GS_CALIBRATING_PRIMARY by (intro fin) auto
      next
        case False
        then show ?thesis using h GS_CALIBRATING_PRIMARY by (intro fin) (auto simp: enter_state_def split: prod.splits if_splits)
      qed
    next
      case GS_CALIBRATING_SECONDARY
      then have "begin_secondary ops r g = (h, ev1, new)" using h by (simp add: enter_state_def)
      from begin_secondary_ok [OF this, of ofs opts] show ?thesis
        using m GS_CALIBRATING_SECONDARY by (intro fin) auto
    next
      case GS_GUIDING
      then have "cal_ok lost (g_mount g)"
        using False assms(2) by (cases "g_state g") (auto simp: guiding_ok_def)
      then show ?thesis
        using h GS_GUIDING begin_guiding_ok [of t g] by (intro fin) (auto simp: enter_state_def split: prod.splits)
    next
      case GS_STOP
      then show ?thesis using r by simp
    qed (use h m in \<open>(intro fin; auto simp: enter_state_def)+\<close>)
  qed
  then show "EvMove ofs opts \<notin> set evs" "lost \<or> EvImageScaleChange \<notin> set evs \<Longrightarrow> guiding_ok lost g'" by simp_all
qed

lemma frame_lost_ok:
  assumes "frame_lost ops t g = (g', evs)" "guiding_ok lost g"
  shows "guiding_ok lost g' \<and> (EvMove ofs opts \<in> set evs \<longrightarrow> g_state g = GS_GUIDING \<and> opts = MOVEOPTS_DEDUCED_MOVE)"
proof (cases "g_state g")
  case GS_SELECTED
  obtain h ev1 where h: "SetState ops t GS_UNINITIALIZED g = (h, ev1)" by fastforce
  then show ?thesis using assms GS_SELECTED SetState_uninit_ok [OF h] by (auto simp: frame_lost_def split: if_splits)
qed (use assms in \<open>auto simp: frame_lost_def\<close>)

lemma start_guide_steps_ok:
  assumes "start_guide_steps ops i g = (g', evs)" "guiding_ok lost g"
  shows "EvMove ofs opts \<notin> set evs" "lost \<or> EvImageScaleChange \<notin> set evs \<Longrightarrow> guiding_ok lost g'"
proof -
  obtain h ev1 where h: "SetState ops (fr_time i) GS_GUIDING g = (h, ev1)" by fastforce
  have "guiding_ok lost (UpdateLockPosShiftCameraCoords ops (fr_time i) (fr_sky i) h) = guiding_ok lost h"
    by (intro guiding_ok_cong) (simp_all add: UpdateLockPosShiftCameraCoords_def Let_def)
  then show "EvMove ofs opts \<notin> set evs" "lost \<or> EvImageScaleChange \<notin> set evs \<Longrightarrow> guiding_ok lost g'"
    using assms(1) SetState_ok [OF h assms(2)] h by (auto simp: start_guide_steps_def)
qed

lemma calibrated_frame_ok:
  assumes "calibrated_frame ops i g = (g', evs)" "guiding_ok lost g" "cal_ok lost (g_mount g)"
  shows "EvMove ofs opts \<notin> set evs" "lost \<or> EvImageScaleChange \<notin> set evs \<Longrightarrow> guiding_ok lost g'"
proof -
  obtain h ev1 where h: "SetState ops (fr_time i) GS_CALIBRATED g = (h, ev1)" by fastforce
  obtain k ev2 where k: "start_guide_steps ops i h = (k, ev2)" by fastforce
  have e: "g' = k" "evs = ev1 @ ev2" using assms(1) h k by (simp_all add: calibrated_frame_def)
  have "EvImageScaleChange \<notin> set ev1 \<and> EvMove ofs opts \<notin> set ev1 \<and> guiding_ok lost h"
    using h assms(2,3) by (auto simp: SetState.simps [of ops "fr_time i" GS_CALIBRATED] enter_state_def guiding_ok_def Let_def split: if_splits)
  then show "EvMove ofs opts \<notin> set evs" "lost \<or> EvImageScaleChange \<notin> set evs \<Longrightarrow> guiding_ok lost g'"
    using start_guide_steps_ok [OF k] by (auto simp: e)
qed

lemma secondary_frame_ok:
  assumes "secondary_frame ops i g = Some (g', evs)" "guiding_ok lost g" "cal_ok lost (g_mount g)"
  shows "EvMove ofs opts \<notin> set evs \<and> (lost \<or> EvImageScaleChange \<notin> set evs \<longrightarrow> guiding_ok lost g')"
proof -
  have cal: ?thesis if "calibrated_frame ops i h = (g', evs)" "g_state h = g_state g" "g_mount h = g_mount g" for h
    using calibrated_frame_ok [OF that(1)] assms(2,3) guiding_ok_cong [OF that(2,3)] that(3) by simp
  have un: ?thesis if "SetState ops (fr_time i) GS_UNINITIALIZED h = (g', evs)" for h
    using SetState_uninit_ok [OF that] by simp
  show ?thesis
  proof (cases "g_mount2 g")
    case None
    then show ?thesis using assms(1) cal [of g] by (simp add: secondary_frame_def)
  next
    case (Some s)
    show ?thesis
    proof (cases "\<not> op_IsConnected ops s \<or> op_IsCalibrated ops s")
      case True
      then show ?thesis using assms(1) Some cal [of g] by (simp add: secondary_frame_def)
    next
      case False
      then obtain s' err where u: "op_UpdateCalibrationState ops (CurrentPosition (g_star g)) s = Some (s', err)"
        using assms(1) Some by (auto simp: secondary_frame_def split: option.splits)
      define h where "h = g\<lparr>g_mount2 := Some s'\<rparr>"
      have h: "g_state h = g_state g" "g_mount h = g_mount g" by (simp_all add: h_def)
      have "Some (g', evs) = Some (if err then SetState ops (fr_time i) GS_UNINITIALIZED h
          else if \<not> op_IsCalibrated ops s' then (h, []) else calibrated_frame ops i h)"
        using assms(1) Some False u by (simp add: secondary_frame_def h_def Let_def split: if_splits)
      then show ?thesis using cal [OF _ h] un [of h] assms(2) guiding_ok_cong [OF h] by (auto split: if_splits)
    qed
  qed
qed

lemma after_primary_ok:
  assumes "after_primary ops i g = Some (g', evs)" "guiding_ok lost g" "cal_ok lost (g_mount g)" "g_state g = GS_CALIBRATING_PRIMARY"
  shows "EvMove ofs opts \<notin> set evs \<and> (lost \<or> EvImageScaleChange \<notin> set evs \<longrightarrow> guiding_ok lost g')"
proof -
  obtain h ev1 where h: "SetState ops (fr_time i) GS_CALIBRATING_SECONDARY g = (h, ev1)" by fastforce
  have m: "g_mount h = g_mount g \<and> EvImageScaleChange \<notin> set ev1"
    using h assms(4) by (auto simp: SetState.simps [of ops "fr_time i" GS_CALIBRATING_SECONDARY] enter_state_def begin_secondary_def
        SetState_uninit Let_def split: if_splits option.splits prod.splits)
  then have ok: "EvMove ofs opts \<notin> set ev1" "guiding_ok lost h" using SetState_ok [OF h assms(2)] assms(3) by simp_all
  show ?thesis
  proof (cases "g_state h = GS_CALIBRATING_SECONDARY")
    case True
    then show ?thesis using assms(1) h ok by (simp add: after_primary_def)
  next
    case False
    then obtain ev2 where k: "secondary_frame ops i h = Some (g', ev2)" "evs = ev1 @ ev2"
      using assms(1) h by (auto simp: after_primary_def)
    show ?thesis using secondary_frame_ok [OF k(1) ok(2)] m assms(3) ok(1) by (auto simp: k(2))
  qed
qed

lemma primary_frame_ok:
  assumes "primary_frame ops i g = Some (g', evs)" "guiding_ok lost g" "g_state g = GS_CALIBRATING_PRIMARY"
  shows "EvMove ofs opts \<notin> set evs \<and> (lost \<or> EvImageScaleChange \<notin> set evs \<longrightarrow> guiding_ok lost g')"
proof (cases "op_IsCalibrated ops (g_mount g)")
  case True
  then show ?thesis using assms after_primary_ok [of i g] flag_ok [OF True] by (simp add: primary_frame_def)
next
  case False
  then obtain p err where u: "op_UpdateCalibrationState ops (CurrentPosition (g_star g)) (g_mount g) = Some (p, err)"
    using assms(1) by (auto simp: primary_frame_def split: option.splits)
  define h where "h = g\<lparr>g_mount := p\<rparr>"
  have ok: "guiding_ok lost h" "g_state h = GS_CALIBRATING_PRIMARY" "g_mount h = p" using assms(2,3) by (simp_all add: h_def guiding_ok_def)
  have r: "(if err then Some (SetState ops (fr_time i) GS_UNINITIALIZED h)
      else if \<not> op_IsCalibrated ops p then Some (h, []) else after_primary ops i h) = Some (g', evs)"
    using assms(1) False u by (simp add: primary_frame_def h_def Let_def split: if_splits)
  show ?thesis
  proof (cases err)
    case True
    then show ?thesis using r SetState_uninit_ok [of ops "fr_time i" h] by simp
  next
    case False
    then show ?thesis using r ok after_primary_ok [of i h g' evs, where ofs = ofs and opts = opts] flag_ok [of p] by (cases "op_IsCalibrated ops p") auto
  qed
qed

lemma accepted_frame_ok:
  assumes "accepted_frame ops i o0 g = Some (g', evs)" "guiding_ok lost g"
  shows "(EvMove ofs opts \<in> set evs \<longrightarrow> g_state g = GS_GUIDING \<and> (opts = MOVEOPTS_GUIDE_STEP \<longrightarrow> plain_guiding g)) \<and>
    (lost \<or> EvImageScaleChange \<notin> set evs \<longrightarrow> guiding_ok lost g')"
proof (cases "IsPaused g")
  case True
  then show ?thesis using assms by (auto simp: accepted_frame_def moveopts_distinct)
next
  case False
  show ?thesis
  proof (cases "g_state g")
    case GS_SELECTING
    obtain h ev1 err where h: "SetLockPosition (fr_time i) (CurrentPosition (g_star g)) g = (h, ev1, err)" by (metis prod_cases3)
    obtain k ev2 where k: "SetState ops (fr_time i) GS_SELECTED h = (k, ev2)" by fastforce
    have "guiding_ok lost h" using assms(2) guiding_ok_cong [of h g] SetLockPosition_frame [OF h] by simp
    from SetState_ok [OF k this] show ?thesis
      using assms(1) False GS_SELECTING h k SetLockPosition_frame [OF h]
      by (auto simp: accepted_frame_def selecting_frame_def)
  next
    case GS_SELECTED
    then show ?thesis using assms False SetState_uninit_ok [of ops "fr_time i" g]
      by (auto simp: accepted_frame_def split: if_splits)
  next
    case GS_CALIBRATING_PRIMARY
    then show ?thesis using assms False primary_frame_ok [of i g] by (simp add: accepted_frame_def)
  next
    case GS_CALIBRATING_SECONDARY
    then show ?thesis using assms False secondary_frame_ok [of i g] by (simp add: accepted_frame_def guiding_ok_def)
  next
    case GS_CALIBRATED
    then show ?thesis using assms False start_guide_steps_ok [of i g] by (simp add: accepted_frame_def)
  next
    case GS_GUIDING
    have "guide_frame o0 g = (g', evs)" using assms(1) False GS_GUIDING by (simp add: accepted_frame_def)
    moreover have "guiding_ok lost (fst (recenter_step g)) = guiding_ok lost g"
      by (intro guiding_ok_cong) (simp_all add: recenter_step_def Let_def)
    ultimately show ?thesis
      using assms(2) False GS_GUIDING by (auto simp: guide_frame_def plain_guiding_def moveopts_distinct split: if_splits prod.splits)
  qed (use assms False in \<open>auto simp: accepted_frame_def\<close>)
qed

lemma position_frame_ok:
  assumes "position_frame ops i g = Some (g', evs)" "guiding_ok lost g"
  shows "(EvMove ofs opts \<in> set evs \<longrightarrow> g_state g = GS_GUIDING \<and> (opts = MOVEOPTS_GUIDE_STEP \<longrightarrow> plain_guiding g)) \<and>
    (lost \<or> EvImageScaleChange \<notin> set evs \<longrightarrow> guiding_ok lost g')"
proof -
  obtain h r where u: "update_position ops i g = Some (h, r)" using assms(1) by (auto simp: position_frame_def split: option.splits)
  note f = update_position_frame [OF u]
  have ok: "guiding_ok lost h" using assms(2) guiding_ok_cong [OF f(1,2)] by simp
  have p: "plain_guiding h = plain_guiding g" using f by (simp add: plain_guiding_def IsPaused_def)
  show ?thesis
  proof (cases r)
    case None
    then have "frame_lost ops (fr_time i) h = (g', evs)" using assms(1) u by (simp add: position_frame_def)
    from frame_lost_ok [OF this ok, where ofs = ofs and opts = opts] show ?thesis using f by (auto simp: moveopts_distinct)
  next
    case (Some o0)
    define k where "k = h\<lparr>g_forceFullFrame := False\<rparr>"
    obtain ev1 where k: "accepted_frame ops i o0 k = Some (g', ev1)" "evs = (if looping_state (g_state h) then [EvLooping] else []) @ ev1"
      using assms(1) u Some by (auto simp: position_frame_def k_def)
    have kf: "g_state k = g_state h" "g_mount k = g_mount h" "plain_guiding k = plain_guiding h"
      by (simp_all add: k_def plain_guiding_def IsPaused_def)
    show ?thesis
      using accepted_frame_ok [OF k(1), where ofs = ofs and opts = opts] ok guiding_ok_cong [OF kf(1,2)] kf p f by (auto simp: k(2))
  qed
qed

lemma UpdateGuideState_ok:
  assumes "UpdateGuideState ops i stopping g = Some (g', evs)" "guiding_ok lost g"
  shows "(EvMove ofs opts \<in> set evs \<longrightarrow> g_state g = GS_GUIDING \<and> (opts = MOVEOPTS_GUIDE_STEP \<longrightarrow> plain_guiding g)) \<and>
    (lost \<or> EvImageScaleChange \<notin> set evs \<longrightarrow> guiding_ok lost g')"
proof -
  define h where "h = (case fr_image i of None \<Rightarrow> g | Some img \<Rightarrow> g\<lparr>g_image := img\<rparr>)"
  have hf: "g_state h = g_state g" "g_mount h = g_mount g" "plain_guiding h = plain_guiding g"
    by (simp_all add: h_def plain_guiding_def IsPaused_def split: option.split)
  then have ok: "guiding_ok lost h" using assms(2) guiding_ok_cong by metis
  obtain k ev where k: "end_measurement (k, ev) = (g', evs)"
    and r: "(if stopping then Some (StopGuiding ops (fr_time i) h)
       else case shift_lock (fr_time i) h of (g, evs) \<Rightarrow> map_option (\<lambda>(g, evs'). (g, evs @ evs')) (position_frame ops i g)) = Some (k, ev)"
    using assms(1) by (auto simp: UpdateGuideState_def Let_def simp flip: h_def)
  have e: "guiding_ok lost g' = guiding_ok lost k" "\<And>ofs opts. EvMove ofs opts \<in> set evs \<longleftrightarrow> EvMove ofs opts \<in> set ev"
    "EvImageScaleChange \<in> set evs \<longleftrightarrow> EvImageScaleChange \<in> set ev"
    using k by (auto simp: end_measurement_def guiding_ok_def split: if_splits)
  show ?thesis
  proof (cases stopping)
    case True
    obtain ev2 where s: "SetState ops (fr_time i) GS_STOP h = (k, ev2)"
      "EvMove ofs opts \<in> set ev \<Longrightarrow> EvMove ofs opts \<in> set ev2" "EvImageScaleChange \<in> set ev2 \<Longrightarrow> EvImageScaleChange \<in> set ev"
      using r True by (auto simp: StopGuiding_def Let_def split: prod.splits guider_state.splits if_splits)
    from SetState_ok [OF s(1) ok] s(2,3) show ?thesis by (auto simp: e)
  next
    case False
    obtain j ev1 where j: "shift_lock (fr_time i) h = (j, ev1)" by fastforce
    then obtain ev2 where p: "position_frame ops i j = Some (k, ev2)" "ev = ev1 @ ev2" using r False by auto
    note jf = shift_lock_frame [OF j]
    have "guiding_ok lost j" using ok guiding_ok_cong [OF jf(1,2)] by simp
    from position_frame_ok [OF p(1) this, where ofs = ofs and opts = opts] show ?thesis using jf hf by (auto simp: e p(2))
  qed
qed

end

subsection \<open>Runs\<close>

datatype 'm guider_request =
    ReqStart int
  | ReqStop int
  | ReqFrame frame_input bool
  | ReqMoveLock int sodium_point
  | ReqSetLock int sodium_point
  | ReqReset int bool
  | ReqPause pause_type
  | ReqMeasure bool
  | ReqShift int bool
  | ReqShiftRate int sky_env sodium_point graph_units bool
  | ReqAutoSelect "nat \<Rightarrow> u16" select_env frame_input rect
  | ReqMultiStar "nat \<Rightarrow> u16" select_env frame_input bool
  | ReqMount "'m \<Rightarrow> 'm" \<comment> \<open>what happens to the primary mount outside the guider\<close>

fun guider_do :: "'a mount_scheme mount_ops \<Rightarrow> 'a mount_scheme guider_request \<Rightarrow> 'a mount_scheme guider \<Rightarrow>
    ('a mount_scheme guider \<times> guider_event list) option" where
  "guider_do ops (ReqStart t) g = Some (guider_StartGuiding ops t g)"
| "guider_do ops (ReqStop t) g = Some (StopGuiding ops t g)"
| "guider_do ops (ReqFrame i stopping) g = UpdateGuideState ops i stopping g"
| "guider_do ops (ReqMoveLock t p) g = (case MoveLockPosition ops t p g of (g, evs, err) \<Rightarrow> Some (g, evs))"
| "guider_do ops (ReqSetLock t p) g = (case SetLockPosition t p g of (g, evs, err) \<Rightarrow> Some (g, evs))"
| "guider_do ops (ReqReset t full) g = Some (guider_Reset ops t full g)"
| "guider_do ops (ReqPause p) g = Some (fst (SetPaused p g), [])"
| "guider_do ops (ReqMeasure b) g = Some (EnableMeasurementMode b g, [])"
| "guider_do ops (ReqShift t b) g = Some (EnableLockPosShift t b g, [])"
| "guider_do ops (ReqShiftRate t sky r u mc) g = Some (SetLockPosShiftRate ops t sky r u mc g, [])"
| "guider_do ops (ReqAutoSelect fresh se i r) g = map_option (\<lambda>(g, evs, err). (g, evs)) (AutoSelect ops fresh se i r g)"
| "guider_do ops (ReqMultiStar fresh se i b) g = map_option (\<lambda>(g, evs, ws). (g, evs)) (SetMultiStarMode ops fresh se i b g)"
| "guider_do ops (ReqMount f) g = Some (g\<lparr>g_mount := f (g_mount g)\<rparr>, [])"

fun guider_run :: "('a mount_scheme mount_ops \<times> 'a mount_scheme guider_request) list \<Rightarrow> 'a mount_scheme guider \<Rightarrow>
    ('a mount_scheme guider \<times> ('a mount_scheme guider \<times> guider_event list) list) option" where
  \<comment> \<open>the last state, and the state before each request with its events\<close>
  "guider_run [] g = Some (g, [])"
| "guider_run ((ops, r) # rs) g =
    (case guider_do ops r g of None \<Rightarrow> None
     | Some (h, evs) \<Rightarrow> map_option (\<lambda>(k, tr). (k, (g, evs) # tr)) (guider_run rs h))"

definition clears_calibration :: "'a mount_scheme guider_request \<Rightarrow> 'a mount_scheme \<Rightarrow> bool" where
  \<comment> \<open>something outside the guider, as the request \<open>clear_calibration\<close> of a client or a driver that disconnects\<close>
  "clears_calibration r m \<longleftrightarrow>
    (case r of ReqMount f \<Rightarrow> MountIsCalibrated m \<and> \<not> MountIsCalibrated (f m) | _ \<Rightarrow> False)"

context guider_mount
begin

lemma StopGuiding_ok:
  assumes "StopGuiding ops t g = (g', evs)" "guiding_ok lost g"
  shows "EvMove ofs opts \<notin> set evs \<and> (lost \<or> EvImageScaleChange \<notin> set evs \<longrightarrow> guiding_ok lost g')"
proof -
  obtain ev2 where s: "SetState ops t GS_STOP g = (g', ev2)"
    "EvMove ofs opts \<in> set evs \<Longrightarrow> EvMove ofs opts \<in> set ev2" "EvImageScaleChange \<in> set ev2 \<Longrightarrow> EvImageScaleChange \<in> set evs"
    using assms(1) by (auto simp: StopGuiding_def Let_def split: prod.splits guider_state.splits if_splits)
  from SetState_ok [OF s(1) assms(2)] s(2,3) show ?thesis by auto
qed

lemma select_found_ok:
  assumes "select_found ops i g = Some (g', evs, err)" "guiding_ok lost g"
  shows "EvMove ofs opts \<notin> set evs \<and> (lost \<or> EvImageScaleChange \<notin> set evs \<longrightarrow> guiding_ok lost g')"
proof -
  define h where "h = g\<lparr>g_star := (g_star g)\<lparr>m_primaryDistStats := ds_ClearAll\<rparr>\<rparr>"
  have hf: "g_state h = g_state g" "g_mount h = g_mount g" by (simp_all add: h_def)
  obtain k ev1 e where k: "SetLockPosition (fr_time i) (CurrentPosition (g_star g)) h = (k, ev1, e)" by (metis prod_cases3)
  note f = SetLockPosition_frame [OF k]
  have ok: "guiding_ok lost k" using assms(2) guiding_ok_cong [of k g] f hf by simp
  show ?thesis
  proof (cases "\<not> e \<and> g_state k = GS_SELECTING")
    case True
    then obtain ev2 where u: "UpdateGuideState ops (i\<lparr>fr_image := None\<rparr>) False k = Some (g', ev2)" "evs = ev1 @ ev2"
      using assms(1) k by (auto simp: select_found_def simp flip: h_def)
    from UpdateGuideState_ok [OF u(1) ok, where ofs = ofs and opts = opts] show ?thesis using True f by (auto simp: u(2))
  next
    case False
    then show ?thesis using assms(1) k f ok by (auto simp: select_found_def simp flip: h_def split: if_splits)
  qed
qed

lemma AutoSelect_ok:
  assumes "AutoSelect ops fresh se i r g = Some (g', evs, err)" "guiding_ok lost g"
  shows "EvMove ofs opts \<notin> set evs \<and> (lost \<or> EvImageScaleChange \<notin> set evs \<longrightarrow> guiding_ok lost g')"
proof -
  have same: "guiding_ok lost (h\<lparr>g_star := m\<rparr>) = guiding_ok lost h" for h :: "'a mount_scheme guider" and m by (simp add: guiding_ok_def)
  have "guiding_ok lost g' \<and> evs = [] \<or> (\<exists>m. select_found ops i (g\<lparr>g_star := m\<rparr>) = Some (g', evs, err))"
    using assms by (auto simp: AutoSelect_def Let_def same split: if_splits option.splits)
  then show ?thesis using same assms(2) select_found_ok [of i _ g' evs err lost ofs opts] by fastforce
qed

lemma multi_star_on_ok:
  assumes "multi_star_on ops fresh se i g = Some (g', evs)" "guiding_ok lost g"
  shows "lost \<or> EvImageScaleChange \<notin> set evs \<longrightarrow> EvMove ofs opts \<notin> set evs \<and> guiding_ok lost g'"
proof (cases "gs_rank (g_state g) \<ge> gs_rank GS_SELECTED")
  case False
  then show ?thesis using assms by (simp add: multi_star_on_def)
next
  case True
  obtain g3 ev1 where 3: "StopGuiding ops (fr_time i) g = (g3, ev1)" by fastforce
  define h where "h = g3\<lparr>g_star := ms_InvalidateCurrentPosition True (g_star g3)\<rparr>"
  have h: "guiding_ok lost h = guiding_ok lost g3" by (simp add: h_def guiding_ok_def)
  obtain g4 ev2 err where 4: "AutoSelect ops fresh se i \<lparr>rX = 0, rY = 0, rW = 0, rH = 0\<rparr> h = Some (g4, ev2, err)"
    using assms(1) True 3 by (auto simp: multi_star_on_def h_def split: option.splits)
  obtain g5 ev3 where 5: "SetState ops (fr_time i) GS_CALIBRATING_PRIMARY g4 = (g5, ev3)" by fastforce
  have "(g', evs) = (if err then (g4, ev1 @ ev2) else (g5, ev1 @ ev2 @ ev3))"
    using assms(1) True 3 4 5 by (simp add: multi_star_on_def guider_StartGuiding_def h_def split: if_splits)
  then show ?thesis
    using StopGuiding_ok [OF 3 assms(2), where ofs = ofs and opts = opts] AutoSelect_ok [OF 4, where ofs = ofs and opts = opts] SetState_ok [OF 5] h
    by (auto split: if_splits)
qed

lemma SetMultiStarMode_ok:
  assumes "SetMultiStarMode ops fresh se i val g = Some (g', evs, ws)" "guiding_ok lost g"
  shows "lost \<or> EvImageScaleChange \<notin> set evs \<longrightarrow> EvMove ofs opts \<notin> set evs \<and> guiding_ok lost g'"
proof -
  have same: "guiding_ok l (h\<lparr>g_star := m\<rparr>) = guiding_ok l h" for l and h :: "'a mount_scheme guider" and m by (simp add: guiding_ok_def)
  show ?thesis
  proof (cases "val \<and> \<not> m_multiStarMode (g_star g)")
    case True
    define j where "j = g\<lparr>g_star := (g_star g)\<lparr>m_multiStarMode := val, m_primaryDistStats := ds_ClearAll\<rparr>\<rparr>"
    have "multi_star_on ops fresh se i j = Some (g', evs)" "guiding_ok lost j"
      using assms True by (auto simp: SetMultiStarMode_def j_def same Let_def)
    then show ?thesis by (rule multi_star_on_ok)
  next
    case False
    then show ?thesis using assms by (auto simp: SetMultiStarMode_def same Let_def)
  qed
qed

lemma request_ok:
  assumes "guider_do ops r g = Some (g', evs)" "guiding_ok lost g" "lost \<or> \<not> clears_calibration r (g_mount g)" "lost \<or> EvImageScaleChange \<notin> set evs"
  shows "EvMove ofs opts \<in> set evs \<Longrightarrow> g_state g = GS_GUIDING \<and> (opts = MOVEOPTS_GUIDE_STEP \<longrightarrow> plain_guiding g)" "guiding_ok lost g'"
proof -
  have frame: "g_state g' = g_state g \<Longrightarrow> g_mount g' = g_mount g \<Longrightarrow> guiding_ok lost g'"
    using assms(2) guiding_ok_cong by metis
  have "(EvMove ofs opts \<in> set evs \<longrightarrow> g_state g = GS_GUIDING \<and> (opts = MOVEOPTS_GUIDE_STEP \<longrightarrow> plain_guiding g)) \<and> guiding_ok lost g'"
  proof (cases r)
    case (ReqStart t)
    have "SetState ops t GS_CALIBRATING_PRIMARY g = (g', evs)" using assms(1) ReqStart by (simp add: guider_StartGuiding_def)
    from SetState_ok [OF this assms(2)] show ?thesis using assms(4) by simp
  next
    case (ReqStop t)
    then show ?thesis using assms(1,2,4) StopGuiding_ok [of t g g' evs lost ofs opts] by auto
  next
    case (ReqFrame i stopping)
    then show ?thesis using assms(1,2,4) UpdateGuideState_ok [of i stopping g g' evs lost ofs opts] by auto
  next
    case (ReqMoveLock t p)
    then obtain err where "MoveLockPosition ops t p g = (g', evs, err)" using assms(1) by (auto split: prod.splits)
    from MoveLockPosition_frame [OF this] show ?thesis using frame by simp
  next
    case (ReqSetLock t p)
    then show ?thesis using assms(1) frame SetLockPosition_frame [of t p g] by (auto split: prod.splits)
  next
    case (ReqReset t full)
    then show ?thesis using assms(1) by (auto simp: guider_Reset_def SetState_uninit guiding_ok_def split: if_splits)
  next
    case (ReqPause p)
    then show ?thesis using assms(1) frame by (auto simp: SetPaused_def Let_def split: if_splits)
  next
    case (ReqMeasure b)
    then show ?thesis using assms(1) frame by (auto simp: EnableMeasurementMode_def split: if_splits)
  next
    case (ReqShift t b)
    then show ?thesis using assms(1) frame by (auto simp: EnableLockPosShift_def Let_def split: if_splits)
  next
    case (ReqShiftRate t sky rate u mc)
    then show ?thesis using assms(1) frame
      by (auto simp: SetLockPosShiftRate_def UpdateLockPosShiftCameraCoords_def Let_def split: if_splits)
  next
    case (ReqAutoSelect fresh se i r)
    then show ?thesis using assms(1,2,4) AutoSelect_ok [of fresh se i r g] by auto
  next
    case (ReqMultiStar fresh se i b)
    then show ?thesis using assms(1,2,4) SetMultiStarMode_ok [of fresh se i b g] by auto
  next
    case (ReqMount f)
    then show ?thesis using assms by (auto simp: guiding_ok_def cal_ok_def clears_calibration_def)
  qed
  then show "EvMove ofs opts \<in> set evs \<Longrightarrow> g_state g = GS_GUIDING \<and> (opts = MOVEOPTS_GUIDE_STEP \<longrightarrow> plain_guiding g)" "guiding_ok lost g'"
    by simp_all
qed

lemmas request_moves = request_ok [where lost = True, OF _ _ disjI1 [OF TrueI] disjI1 [OF TrueI]]

end

text \<open>Where the calibration went: an uncalibrated mount in one of the states past the calibration means that, since the guider
  entered these states, the image scale has changed or something outside has cleared the calibration.\<close>

definition loses_calibration :: "'a mount_scheme guider_request \<Rightarrow> 'a mount_scheme guider \<times> guider_event list \<Rightarrow> bool" where
  "loses_calibration r st \<longleftrightarrow> EvImageScaleChange \<in> set (snd st) \<or> clears_calibration r (g_mount (fst st))"

lemma guider_run_Cons:
  assumes "guider_run ((ops, r) # rs) g = Some (g', tr)"
  obtains h evs tr' where "guider_do ops r g = Some (h, evs)" "guider_run rs h = Some (g', tr')" "tr = (g, evs) # tr'"
  using assms by (auto split: option.splits)

lemma guider_run_moves:
  assumes "guider_run rs g = Some (g', tr)" "guiding_ok True g" "\<forall>(ops, r)\<in>set rs. guider_mount ops" "(s, evs) \<in> set tr"
    "EvMove ofs opts \<in> set evs" 
  shows "g_state s = GS_GUIDING \<and> (opts = MOVEOPTS_GUIDE_STEP \<longrightarrow> plain_guiding s)"
  using assms
proof (induction rs arbitrary: g tr)
  case (Cons x rs)
  obtain ops r where x: "x = (ops, r)" by fastforce
  obtain h ev tr' where h: "guider_do ops r g = Some (h, ev)" "guider_run rs h = Some (g', tr')" "tr = (g, ev) # tr'"
    using guider_run_Cons [OF Cons.prems(1) [unfolded x]] .
  have m: "guider_mount ops" using Cons.prems(3) x by simp
  note step = guider_mount.request_moves [OF m h(1) Cons.prems(2)]
  show ?case using Cons.IH [OF h(2) step(2)] Cons.prems(3-5) step(1) h(3) by auto
qed simp

lemma guider_run_lost:
  assumes "guider_run rs g = Some (g', tr)" "guiding_ok True g" "\<forall>(ops, r)\<in>set rs. guider_mount ops" "i < length tr"
    "g_state (fst (tr ! i)) \<in> past_calibration" "\<not> MountIsCalibrated (g_mount (fst (tr ! i)))"
  shows "(\<exists>j<i. loses_calibration (snd (rs ! j)) (tr ! j) \<and> (\<forall>k. j < k \<and> k \<le> i \<longrightarrow> g_state (fst (tr ! k)) \<in> past_calibration)) \<or>
    \<not> guiding_ok False g \<and> (\<forall>k\<le>i. g_state (fst (tr ! k)) \<in> past_calibration)"
  using assms
proof (induction rs arbitrary: g tr i)
  case (Cons x rs)
  obtain ops r where x: "x = (ops, r)" by fastforce
  obtain h ev tr' where h: "guider_do ops r g = Some (h, ev)" "guider_run rs h = Some (g', tr')" "tr = (g, ev) # tr'"
    using guider_run_Cons [OF Cons.prems(1) [unfolded x]] .
  have m: "guider_mount ops" using Cons.prems(3) x by simp
  have "guiding_ok True h" by (rule guider_mount.request_moves(2) [OF m h(1) Cons.prems(2)])
  note IH = Cons.IH [OF h(2) this]
  have not_ok: "\<not> guiding_ok False k \<longleftrightarrow> g_state k \<in> past_calibration \<and> \<not> MountIsCalibrated (g_mount k)"
    if "guiding_ok True k" for k using that by (auto simp: guiding_ok_def cal_ok_def past_calibration_def)
  show ?case
  proof (cases i)
    case 0
    then show ?thesis using Cons.prems(5,6) not_ok [OF Cons.prems(2)] by (simp add: h(3))
  next
    case (Suc i')
    then have "(\<exists>j<i'. loses_calibration (snd (rs ! j)) (tr' ! j) \<and> (\<forall>k. j < k \<and> k \<le> i' \<longrightarrow> g_state (fst (tr' ! k)) \<in> past_calibration)) \<or>
      \<not> guiding_ok False h \<and> (\<forall>k\<le>i'. g_state (fst (tr' ! k)) \<in> past_calibration)"
      using IH [of i'] Cons.prems(3-6) by (simp add: h(3))
    then show ?thesis
    proof (elim disjE exE conjE)
      fix j assume j: "j < i'" "loses_calibration (snd (rs ! j)) (tr' ! j)" 
        "\<forall>k. j < k \<and> k \<le> i' \<longrightarrow> g_state (fst (tr' ! k)) \<in> past_calibration"
      have "g_state (fst (tr ! k)) \<in> past_calibration" if "Suc j < k" "k \<le> i" for k
        using that j(3) Suc by (cases k) (auto simp: h(3))
      then show ?thesis using j Suc by (intro disjI1 exI [of _ "Suc j"]) (simp add: h(3))
    next
      assume l: "\<not> guiding_ok False h" "\<forall>k\<le>i'. g_state (fst (tr' ! k)) \<in> past_calibration"
      have all: "g_state (fst (tr ! k)) \<in> past_calibration" if "0 < k" "k \<le> i" for k
        using that l(2) Suc by (cases k) (auto simp: h(3))
      show ?thesis
      proof (cases "guiding_ok False g")
        case True
        have "loses_calibration r (g, ev)"
          using guider_mount.request_ok(2) [OF m h(1) True] l(1) by (auto simp: loses_calibration_def)
        then show ?thesis using all Suc by (intro disjI1 exI [of _ 0]) (simp add: h(3) x)
      next
        case False
        have "g_state (fst (tr ! k)) \<in> past_calibration" if "k \<le> i" for k
          using that all [of k] False not_ok [OF Cons.prems(2)] by (cases k) (simp_all add: h(3))
        then show ?thesis using False by blast
      qed
    qed
  qed
qed simp

text \<open>C30: Over any sequence of requests, frames, and events outside the guider (among them the requests of clients that clear the
  calibration, and mounts that connect or disconnect), moves are sent to the mount only in frames of the state guiding, and
  ordinary guide steps only when the guider is neither paused nor in a fast recenter nor in a backlash measurement. The mount is
  connected and calibrated when a move is sent, unless its calibration was taken away behind the guider's back: by an event outside
  that disconnects it or clears its calibration, or by a change of the image scale, and in either case after the guider had
  gone past the primary calibration, which it has not left since.\<close>
theorem moves_only_when_calibrated:
  assumes "guider_run rs g = Some (g', tr)" "guiding_ok False g" "\<forall>(ops, r)\<in>set rs. guider_mount ops"
    and "i < length tr" "EvMove ofs opts \<in> set (snd (tr ! i))"
  shows "g_state (fst (tr ! i)) = GS_GUIDING \<and> (opts = MOVEOPTS_GUIDE_STEP \<longrightarrow> plain_guiding (fst (tr ! i))) \<and>
    (MountIsCalibrated (g_mount (fst (tr ! i))) \<or>
      (\<exists>j<i. loses_calibration (snd (rs ! j)) (tr ! j) \<and>
        (\<forall>k. j < k \<and> k \<le> i \<longrightarrow> g_state (fst (tr ! k)) \<in> past_calibration)))"
proof -
  have ok: "guiding_ok True g" using assms(2) by (simp add: guiding_ok_def cal_ok_def)
  have move: "g_state (fst (tr ! i)) = GS_GUIDING" "opts = MOVEOPTS_GUIDE_STEP \<longrightarrow> plain_guiding (fst (tr ! i))"
    using guider_run_moves [OF assms(1) ok assms(3) _ assms(5), of "fst (tr ! i)"] nth_mem [OF assms(4)] by simp_all
  then have "g_state (fst (tr ! i)) \<in> past_calibration" by (simp add: past_calibration_def)
  from guider_run_lost [OF assms(1) ok assms(3,4) this] show ?thesis using assms(2) move by auto
qed

subsection \<open>The scope as the guider's mount\<close>

definition scope_ops ::
    "(int \<Rightarrow> scope \<Rightarrow> scope) \<Rightarrow> (real \<Rightarrow> real) \<Rightarrow> (calibration_details \<Rightarrow> calibration_details) \<Rightarrow> cal_env \<Rightarrow> string \<Rightarrow> bool \<Rightarrow>
     (scope \<Rightarrow> scope) \<Rightarrow> pointing_env \<Rightarrow> scope mount_ops" where
  \<comment> \<open>with the arguments of \<open>BeginCalibration\<close>, \<open>UpdateCalibrationState\<close> and \<open>AdjustCalibrationForScopePointing\<close>\<close>
  "scope_ops checkDuration rd reload ce stamp decFlip duration pe =
    \<lparr>op_IsConnected = m_connected, op_IsCalibrated = scope_IsCalibrated, op_IsBusy = (\<lambda>s. m_requestCount s > 0),
     op_IsStepGuider = (\<lambda>s. False), op_CalibrationTotDistance = m_calibrationDistance,
     op_BeginCalibration = (\<lambda>p s. BeginCalibration checkDuration p (s\<lparr>m_errorCount := 0\<rparr>)),
     op_UpdateCalibrationState = UpdateCalibrationState rd reload ce,
     op_AdjustCalibration = (\<lambda>s.
       case AdjustCalibrationForScopePointing (scope_SetCalibration stamp) scope_IsCalibrated decFlip
         (scope_ClearCalibration \<circ> duration) pe s of (s', ws, evs) \<Rightarrow> (s', HandleImageScaleChange \<in> set evs)),
     op_ImageScaleChange = scope_ClearCalibration \<circ> duration\<rparr>"

lemma MountIsCalibrated_iff: "MountIsCalibrated m \<longleftrightarrow> m_connected m \<and> m_calibrated m"
  by (simp add: MountIsCalibrated_def)

lemma scope_SetCalibration_calibrated:
  "scope_SetCalibration stamp c s = (s', w) \<Longrightarrow> MountIsCalibrated s \<Longrightarrow> MountIsCalibrated s'"
  by (auto simp: scope_SetCalibration_def mount_SetCalibration_def MountIsCalibrated_iff Let_def)

lemma scope_adjust_calibrated:
  assumes "AdjustCalibrationForScopePointing (scope_SetCalibration stamp) scope_IsCalibrated decFlip isc pe s = (s', ws, evs)"
    and "HandleImageScaleChange \<notin> set evs" "MountIsCalibrated s"
  shows "MountIsCalibrated s'"
proof -
  let ?set = "scope_SetCalibration stamp"
  obtain sc ev3 where 0: "pixel_scale pe = (sc, ev3)" by fastforce
  obtain s1 sc1 w1 where 1: "adjust_binning ?set (pe_binning pe) sc s = (s1, sc1, w1)" by (metis prod_cases3)
  obtain s2 ev4 where 2: "adjust_scale isc sc1 s1 = (s2, ev4)" by fastforce
  obtain s3 w3 where 3: "adjust_side ?set scope_IsCalibrated decFlip (pe_pierSide pe) s2 = (s3, w3)" by fastforce
  obtain s4 w4 ev5 where 4: "adjust_rotator ?set (pe_rotator pe) s3 = (s4, w4, ev5)" by (metis prod_cases3)
  obtain s5 ev6 where 5: "dec_compensated (pe_decCompEnabled pe) (pe_declination pe) s4 = (s5, ev6)" by fastforce
  have r: "s' = s5" "set ev4 \<subseteq> set evs" using assms(1) 0 1 2 3 4 5 by (auto simp: AdjustCalibrationForScopePointing_def Let_def)
  have "MountIsCalibrated s1"
    using 1 assms(3) scope_SetCalibration_calibrated by (auto simp: adjust_binning_def split: if_splits prod.splits)
  then have "MountIsCalibrated s2" using 2 assms(2) r(2) by (auto simp: adjust_scale_def split: if_splits)
  then have "MountIsCalibrated s3"
    using 3 scope_SetCalibration_calibrated by (auto simp: adjust_side_def FlipCalibration_def split: if_splits prod.splits)
  then have "MountIsCalibrated s4"
    using 4 scope_SetCalibration_calibrated
    by (auto simp: adjust_rotator_def MountIsCalibrated_iff split: if_splits prod.splits)
  then show ?thesis using 5 by (auto simp: r(1) dec_compensated_def MountIsCalibrated_iff Let_def split: if_splits)
qed

interpretation scope_mount: guider_mount "scope_ops checkDuration rd reload ce stamp decFlip duration pe"
  for checkDuration rd reload ce stamp decFlip duration pe
proof
  show "op_IsCalibrated (scope_ops checkDuration rd reload ce stamp decFlip duration pe) m \<Longrightarrow> MountIsCalibrated m" for m
    by (simp add: scope_ops_def scope_IsCalibrated_def split: if_splits)
  show "op_AdjustCalibration (scope_ops checkDuration rd reload ce stamp decFlip duration pe) m = (m', False) \<Longrightarrow>
      MountIsCalibrated m \<Longrightarrow> MountIsCalibrated m'" for m m'
    using scope_adjust_calibrated by (auto simp: scope_ops_def split: prod.splits)
qed

text \<open>Starting to guide after the binning was changed from 2 to 1: the calibration is cleared, and the guider guides all the same.\<close>

lemma guiding_after_scale_change:
  assumes "op_AdjustCalibration ops (g_mount g) = (p, True)" "\<not> MountIsCalibrated p" "g_mount2 g = None" "g_state g = GS_CALIBRATED"
    "SetState ops t GS_GUIDING g = (g', evs)"
  shows "g_state g' = GS_GUIDING \<and> \<not> MountIsCalibrated (g_mount g') \<and> EvImageScaleChange \<in> set evs"
proof -
  obtain h ev where h: "begin_guiding ops t g = (h, ev)" by fastforce
  then have "g' = h\<lparr>g_state := GS_GUIDING\<rparr>" "evs = ev" using assms(4,5)
    by (simp_all add: SetState.simps [of ops t GS_GUIDING] enter_state_def)
  moreover have "g_mount h = p" "EvImageScaleChange \<in> set ev"
    using h assms(1,3) SetLockPosition_frame(2)
    by (fastforce simp: begin_guiding_def adjust_mounts_def split: prod.splits if_splits)+
  ultimately show ?thesis using assms(2) by simp
qed

lemma binning_change_clears:
  fixes s :: scope
  defines "pe \<equiv> sample_pointing\<lparr>pe_rotator := POSITION_UNKNOWN\<rparr>"
  assumes "binning (m_cal s) = 2" "isValid (m_cal s)"
    and "op_AdjustCalibration (scope_ops checkDuration rd reload ce stamp decFlip duration pe) s = (s', c)"
  shows "c \<and> \<not> MountIsCalibrated s'"
proof -
  let ?set = "scope_SetCalibration stamp" and ?isc = "scope_ClearCalibration \<circ> duration"
  obtain ws evs where adj: "AdjustCalibrationForScopePointing ?set scope_IsCalibrated decFlip ?isc pe s = (s', ws, evs)"
    "c = (HandleImageScaleChange \<in> set evs)"
    using assms(4) by (auto simp: scope_ops_def split: prod.splits)
  obtain s1 w1 where c: "?set (rebinned_cal 1 (m_cal s)) s = (s1, w1)" by fastforce
  have pe: "pe_binning pe = 1" "pe_rotator pe = POSITION_UNKNOWN" "pixel_scale pe = (1, [])"
    by (simp_all add: pe_def sample_pointing_def pixel_scale_def)
  have 1: "adjust_binning ?set (pe_binning pe) 1 s = (s1, 0, w1)"
    using assms(2,3) c pe(1) by (simp add: adjust_binning_def bin_scale_def)
  define s2 where "s2 = ?isc s1"
  have 2: "adjust_scale ?isc 0 s1 = (s2, [HandleImageScaleChange])" by (simp add: adjust_scale_def s2_def)
  have clear: "\<not> m_calibrated s2" by (simp add: s2_def scope_ClearCalibration_def mount_ClearCalibration_def)
  then have 3: "adjust_side ?set scope_IsCalibrated decFlip (pe_pierSide pe) s2 = (s2, [])"
    by (simp add: adjust_side_def FlipCalibration_def scope_IsCalibrated_def MountIsCalibrated_iff)
  have 4: "adjust_rotator ?set (pe_rotator pe) s2 = (s2, [], [])" by (simp add: adjust_rotator_def pe(2))
  obtain s5 ev6 where 5: "dec_compensated (pe_decCompEnabled pe) (pe_declination pe) s2 = (s5, ev6)" by fastforce
  then have "\<not> m_calibrated s5" using clear by (auto simp: dec_compensated_def Let_def split: if_splits)
  moreover have "s' = s5" "HandleImageScaleChange \<in> set evs"
    using adj(1) 1 2 3 4 5 pe(3) by (auto simp: AdjustCalibrationForScopePointing_def Let_def)
  ultimately show ?thesis using adj(2) by (simp add: MountIsCalibrated_iff)
qed

subsection \<open>A frame\<close>

definition calibrated_scope :: scope where
  "calibrated_scope = sample_scope\<lparr>m_calibrated := True\<rparr>"

definition guiding_star :: multi_star where
  "guiding_star = (GuiderMultiStar_new (blank_star\<lparr>m_valid := True, X := 4, SNR := 3\<rparr>))\<lparr>m_searchRegion := 10\<rparr>"

definition guiding_scope :: "scope guider" where
  "guiding_scope = \<lparr>g_star = guiding_star, g_mount = calibrated_scope, g_mount2 = None, g_state = GS_GUIDING, g_paused = PAUSE_NONE,
     g_image = star_image, g_lockPosition = \<lparr>m_valid = True, X = 1, Y = 0, m_rate = SodiumPoint 0 0, m_x0 = 1, m_y0 = 0, m_t0 = 0\<rparr>,
     g_lockPosIsSticky = False,
     g_lockPosShift = \<lparr>shiftEnabled = False, shiftRate = SodiumPoint 0 0, shiftUnits = UNIT_PIXELS, shiftIsMountCoords = False\<rparr>,
     g_ditherRemaining = Invalidate (SodiumPoint 0 0), g_ditherStep = SodiumPoint 0 0, g_ditherDir = (1, 1),
     g_starFoundTimestamp = 0, g_avgDistance = 0, g_avgDistanceRA = 0, g_avgDistanceLong = 0, g_avgDistanceLongRA = 0,
     g_avgDistanceCnt = 0, g_avgDistanceNeedReset = False, g_ignoreLostStarLooping = False, g_fastRecenterEnabled = True,
     g_forceFullFrame = False, g_measurementMode = False, g_minStarHFD = 1, g_maxStarHFD = 10\<rparr>"

definition star_frame :: frame_input where
  "star_frame = \<lparr>fr_image = None, fr_time = 1000, fr_sec = 1, fr_settling = False, fr_raOnly = False, fr_mode = FIND_PEAK,
     fr_saturation = 100, fr_exposure = 1000, fr_isAutoExp = False, fr_guidingEnabled = True, fr_staticPA = True,
     fr_polarDrift = True, fr_sky = \<lparr>sk_declination = None, sk_pixelScale = 1\<rparr>\<rparr>"

lemma guiding_star_found:
  "env_Find (guide_env ops star_frame guiding_scope) 10 4 0 (blank_star\<lparr>m_valid := True, X := 4, SNR := 3\<rparr>) =
    Some (blank_star\<lparr>m_valid := True, PeakVal := 18, Mass := 18, SNR := 3, HFD := 0.5, m_lastFindResult := STAR_OK\<rparr>, True)"
proof -
  have q: "sqrt 36 = 6" by (rule real_sqrt_unique) simp_all
  have sat: "\<not> is_saturated star_image [0, 0, 0] 100" by (simp add: is_saturated_def star_image_def test_image_def)
  have e: "fe_image (guide_env ops star_frame guiding_scope) = star_image" "fe_mode (guide_env ops star_frame guiding_scope) = FIND_PEAK"
    "fe_minHFD (guide_env ops star_frame guiding_scope) = 1" "fe_maxHFD (guide_env ops star_frame guiding_scope) = 10"
    "fe_saturation (guide_env ops star_frame guiding_scope) = 100"
    by (simp_all add: guide_env_def star_frame_def guiding_scope_def)
  show ?thesis
    by (simp add: env_Find_def e star_Find_def around_def star_image_area star_image_peak search_peak_def star_image_bg
        measure_flux_def star_snr_def guard_snr_def LOW_SNR_def judge_star_def hfr_def sat SetXY_def blank_star_def trunc_def Let_def q)
qed

lemma guiding_star_accepted:
  "\<exists>m ofs d. UpdateCurrentPosition (guide_env ops star_frame guiding_scope) guiding_star = Some (m, FrameAccepted ofs d)"
proof -
  let ?e = "guide_env ops star_frame guiding_scope"
  have st: "es_frameCount (fe_stats ?e) = 0" by (simp add: guide_env_def guiding_scope_def)
  have "CheckDistance (fe_time ?e) (fe_stats ?e) d tol DistanceChecker_new = (DistanceChecker_new, True)" for d tol
    by (simp add: CheckDistance_def check_distance_def DistanceChecker_new_def st Let_def)
  moreover have "AppendData (fe_time ?e) 18 MassChecker_new \<noteq> None" by (simp add: AppendData_def AdjustedMass_def MassChecker_new_def Let_def)
  moreover have "m_primaryStar guiding_star = blank_star\<lparr>m_valid := True, X := 4, SNR := 3\<rparr>" "m_searchRegion guiding_star = 10"
    "m_massChangeThresholdEnabled guiding_star = False" "s_distanceChecker guiding_star = DistanceChecker_new"
    "m_massChecker guiding_star = MassChecker_new" "m_guideStars guiding_star = []"
    by (simp_all add: guiding_star_def GuiderMultiStar_new_def)
  moreover have "Y blank_star = 0" by (simp add: blank_star_def)
  ultimately show ?thesis
    by (auto simp: UpdateCurrentPosition_def guiding_star_found check_star_mass_def measure_offset_def Let_def)
qed

lemma guiding_frame:
  "\<exists>g' ofs. UpdateGuideState ops star_frame False guiding_scope = Some (g', [EvMove ofs MOVEOPTS_GUIDE_STEP])"
proof -
  obtain m ofs d where u: "UpdateCurrentPosition (guide_env ops star_frame guiding_scope) guiding_star = Some (m, FrameAccepted ofs d)"
    using guiding_star_accepted by blast
  have gs: "g_star guiding_scope = guiding_star" by (simp add: guiding_scope_def)
  obtain h where h: "update_position ops star_frame guiding_scope = Some (h, Some ofs)"
    by (simp add: update_position_def gs u Let_def)
  have pg: "plain_guiding guiding_scope" by (simp add: plain_guiding_def guiding_scope_def IsPaused_def)
  note f = update_position_frame [OF h]
  define k where "k = h\<lparr>g_forceFullFrame := False\<rparr>"
  have pk: "plain_guiding k" using f pg by (simp add: k_def plain_guiding_def IsPaused_def)
  then have "accepted_frame ops star_frame ofs k = Some (k, [EvMove ofs MOVEOPTS_GUIDE_STEP])"
    by (simp add: accepted_frame_def guide_frame_def plain_guiding_def)
  moreover have "\<not> looping_state (g_state h)" using f pg by (simp add: looping_state_def plain_guiding_def)
  ultimately have p: "position_frame ops star_frame guiding_scope = Some (k, [EvMove ofs MOVEOPTS_GUIDE_STEP])"
    by (simp add: position_frame_def h k_def)
  have "fr_image star_frame = None" "shift_lock (fr_time star_frame) guiding_scope = (guiding_scope, [])"
    by (simp_all add: star_frame_def shift_lock_def guiding_scope_def)
  then show ?thesis using p pk by (simp add: UpdateGuideState_def end_measurement_def plain_guiding_def)
qed

theorem moves_only_when_calibrated_witness:
  "\<forall>ce pe. \<exists>g' ofs. guider_run [(scope_ops (\<lambda>n s. s) id id ce [] False id pe, ReqFrame star_frame False)] guiding_scope =
      Some (g', [(guiding_scope, [EvMove ofs MOVEOPTS_GUIDE_STEP])]) \<and>
      MountIsCalibrated (g_mount guiding_scope) \<and> plain_guiding guiding_scope"
proof (intro allI)
  fix ce pe
  let ?ops = "scope_ops (\<lambda>n s. s) id id ce [] False id pe"
  obtain g' ofs where u: "UpdateGuideState ?ops star_frame False guiding_scope = Some (g', [EvMove ofs MOVEOPTS_GUIDE_STEP])"
    using guiding_frame by blast
  have r: "guider_run [(?ops, ReqFrame star_frame False)] guiding_scope = Some (g', [(guiding_scope, [EvMove ofs MOVEOPTS_GUIDE_STEP])])"
    by (simp add: u)
  have "guiding_ok False guiding_scope"
    by (simp add: guiding_ok_def cal_ok_def guiding_scope_def calibrated_scope_def sample_scope_def MountIsCalibrated_def)
  from moves_only_when_calibrated [OF r this, of 0 ofs MOVEOPTS_GUIDE_STEP]
  have "MountIsCalibrated (g_mount guiding_scope) \<and> plain_guiding guiding_scope"
    using scope_mount.guider_mount_axioms by simp
  then show "\<exists>g' ofs. guider_run [(?ops, ReqFrame star_frame False)] guiding_scope =
      Some (g', [(guiding_scope, [EvMove ofs MOVEOPTS_GUIDE_STEP])]) \<and>
      MountIsCalibrated (g_mount guiding_scope) \<and> plain_guiding guiding_scope" using r by blast
qed

end
