(* ===== verification/GuiderDither.thy ===== *)
theory GuiderDither
  imports GuiderRun
begin

text \<open>
  What a dither does: the lock position moves by one of the four reflections of the vector asked for, to a valid position
  if there is one, and the fast recenter that follows ends and moves the mount by the dither.
\<close>

subsection \<open>The lock position\<close>

definition dither_target :: "'a mount_scheme guider \<Rightarrow> sodium_point \<Rightarrow> nat \<Rightarrow> sodium_point" where
  "dither_target g delta q =
    (let cam = fst (dither_move (g_mount g) delta q) in SodiumPoint (X (g_lockPosition g) + X cam) (Y (g_lockPosition g) + Y cam))"

lemma choose_dither_rest:
  "choose_dither move ok edge qs best = snd best \<or> (\<exists>q\<in>set qs. choose_dither move ok edge qs best = move q)"
proof (induction qs arbitrary: best)
  case (Cons q qs)
  obtain cam mnt where m: "move q = (cam, mnt)" by fastforce
  show ?case
    using Cons [of "(edge cam, cam, mnt)"] Cons [of best] by (auto simp: m)
qed simp

lemma choose_dither_valid:
  "\<exists>q\<in>set qs. ok (fst (move q)) \<Longrightarrow> ok (fst (choose_dither move ok edge qs best))"
  by (induction qs arbitrary: best) (auto split: prod.splits)

lemma dither_direction_cases:
  obtains q where "q < 4" "dither_direction g delta = dither_move (g_mount g) delta q"
    "(\<exists>q<4. lock_valid g (dither_target g delta q)) \<Longrightarrow> lock_valid g (dither_target g delta q)"
proof -
  let ?move = "dither_move (g_mount g) delta"
  let ?target = "\<lambda>cam. SodiumPoint (X (g_lockPosition g) + X cam) (Y (g_lockPosition g) + Y cam)"
  let ?ok = "\<lambda>cam. lock_valid g (?target cam)" and ?edge = "\<lambda>cam. edgeDist (?target cam) (g_image g)"
  let ?r = "choose_dither ?move ?ok ?edge [0, 1, 2, 3] (0, Invalidate (SodiumPoint 0 0), Invalidate (SodiumPoint 0 0))"
  have d: "dither_direction g delta = ?r" by (simp add: dither_direction_def Let_def)
  obtain cam mnt where m: "?move 0 = (cam, mnt)" by fastforce
  have "\<exists>q\<in>{0, 1, 2, 3}. ?r = ?move q"
    using choose_dither_rest [of ?move ?ok ?edge "[1, 2, 3]" "(?edge cam, cam, mnt)"] by (auto simp: m)
  then obtain q where q': "q \<in> {0, 1, 2, 3}" and r: "?r = ?move q" by blast
  have q4: "q < 4" using q' by auto
  have "lock_valid g (dither_target g delta q)" if "\<exists>q<4. lock_valid g (dither_target g delta q)"
  proof -
    obtain p where p: "p < 4" "lock_valid g (dither_target g delta p)" using \<open>\<exists>q<4. lock_valid g (dither_target g delta q)\<close> by blast
    have "p \<in> set [0, 1, 2, 3]" using p(1) by auto
    then have "\<exists>q\<in>set [0, 1, 2, 3]. ?ok (fst (?move q))"
      using p(2) unfolding dither_target_def Let_def by (rule_tac bexI)
    then have "?ok (fst ?r)" by (rule choose_dither_valid [where ok = ?ok and move = ?move])
    then show ?thesis by (simp only: r dither_target_def Let_def)
  qed
  then show ?thesis by (intro that [OF q4]) (simp_all only: d r)
qed

lemma SetLockPosition_spec:
  assumes "SetLockPosition t p g = (g', evs, err)"
  shows "err \<Longrightarrow> g' = g \<and> evs = []"
    "\<not> err \<Longrightarrow> m_valid (g_lockPosition g') \<and> X (g_lockPosition g') = X p \<and> Y (g_lockPosition g') = Y p"
    "g_image g' = g_image g" "m_searchRegion (g_star g') = m_searchRegion (g_star g)" "g_avgDistance g' = g_avgDistance g"
    "m_valid p \<Longrightarrow> 0 \<le> m_searchRegion (g_star g) \<Longrightarrow> lock_valid g p \<Longrightarrow> \<not> err"
proof -
  have sh: "m_valid (ShiftSetXY t x y l)" "X (ShiftSetXY t x y l) = x" "Y (ShiftSetXY t x y l) = y" for x y l
    by (cases l; simp add: ShiftSetXY_def BeginShift_def SetXY_def)+
  show "err \<Longrightarrow> g' = g \<and> evs = []"
    "\<not> err \<Longrightarrow> m_valid (g_lockPosition g') \<and> X (g_lockPosition g') = X p \<and> Y (g_lockPosition g') = Y p"
    "g_image g' = g_image g" "m_searchRegion (g_star g') = m_searchRegion (g_star g)" "g_avgDistance g' = g_avgDistance g"
    using assms by (auto simp: SetLockPosition_def base_SetLockPosition_def ms_SetLockPosition_def sh Let_def split: if_splits prod.splits)
  assume a: "m_valid p" "0 \<le> m_searchRegion (g_star g)" "lock_valid g p"
  then have "0 \<le> X p" "X p < of_int (Width (g_image g))" "0 \<le> Y p" "Y p < of_int (Height (g_image g))"
    by (auto simp: lock_valid_def IsValidLockPosition_def)
  then show "\<not> err" using assms a(1)
    by (auto simp: SetLockPosition_def base_SetLockPosition_def ms_SetLockPosition_def Let_def split: if_splits)
qed

lemma lock_valid_cong:
  "g_image g' = g_image g \<Longrightarrow> m_searchRegion (g_star g') = m_searchRegion (g_star g) \<Longrightarrow> X p = X q \<Longrightarrow> Y p = Y q \<Longrightarrow>
   lock_valid g' p = lock_valid g q"
  by (simp add: lock_valid_def IsValidLockPosition_def)

text \<open>C31: A dither that fails changes nothing; one that succeeds moves the lock position by the camera vector of one of the four
  reflections of the vector asked for, and raises the average distance by its length; and whenever some reflection leads
  to a position with room for the search region, the dither of a calibrated mount succeeds and leads to such a position.\<close>
theorem dither_finds_valid_lock:
  assumes "MoveLockPosition ops t delta g = (g', evs, err)" "0 \<le> m_searchRegion (g_star g)"
  shows "(err \<longrightarrow> g' = g \<and> evs = []) \<and>
    (\<not> err \<longrightarrow> (\<exists>q<4. X (g_lockPosition g') = X (dither_target g delta q) \<and> Y (g_lockPosition g') = Y (dither_target g delta q) \<and>
       g_avgDistance g' = g_avgDistance g + Distance0 (fst (dither_move (g_mount g) delta q)))) \<and>
    (m_valid delta \<and> op_IsCalibrated ops (g_mount g) \<and> (\<exists>q<4. lock_valid g (dither_target g delta q)) \<longrightarrow>
       \<not> err \<and> lock_valid g' (g_lockPosition g'))"
proof (cases "m_valid delta \<and> op_IsCalibrated ops (g_mount g)")
  case False
  then show ?thesis using assms(1) by (auto simp: MoveLockPosition_def split: if_splits)
next
  case True
  from dither_direction_cases [of g delta] obtain q
    where q: "q < 4" "dither_direction g delta = dither_move (g_mount g) delta q"
      "(\<exists>q<4. lock_valid g (dither_target g delta q)) \<longrightarrow> lock_valid g (dither_target g delta q)" by (metis (no_types))
  obtain cam mnt where cm: "dither_move (g_mount g) delta q = (cam, mnt)" by fastforce
  obtain h ev e where h: "SetLockPosition t (dither_target g delta q) g = (h, ev, e)" by (metis prod_cases3)
  note spec = SetLockPosition_spec [OF h]
  define k where "k = add_distance (Distance0 cam) \<bar>X mnt\<bar> h"
  have "MoveLockPosition ops t delta g = (if e then (h, ev, True)
      else (if g_fastRecenterEnabled k \<and> Distance0 cam \<noteq> 0 then begin_recenter mnt k else k, ev, False))"
    using True q(2) cm h by (simp add: MoveLockPosition_def dither_target_def k_def Let_def)
  then have r: "(if e then (h, ev, True)
      else (if g_fastRecenterEnabled k \<and> Distance0 cam \<noteq> 0 then begin_recenter mnt k else k, ev, False)) = (g', evs, err)"
    using assms(1) by simp
  show ?thesis
  proof (cases e)
    case True
    then show ?thesis using r spec(1,6) q(3) assms(2) by (auto simp: dither_target_def Let_def)
  next
    case False
    have b: "g_lockPosition (begin_recenter mnt j) = g_lockPosition j" "g_image (begin_recenter mnt j) = g_image j"
      "g_star (begin_recenter mnt j) = g_star j" "g_avgDistance (begin_recenter mnt j) = g_avgDistance j" for j :: "'a mount_scheme guider"
      by (simp_all add: begin_recenter_def Let_def)
    have "g_lockPosition g' = g_lockPosition h" "g_image g' = g_image h" "g_star g' = g_star h" "\<not> err"
      "g_avgDistance g' = g_avgDistance g + Distance0 cam"
      using r False spec(5) by (auto simp: b k_def add_distance_def split: if_splits)
    moreover from this have "lock_valid g' (g_lockPosition g') = lock_valid g (dither_target g delta q)"
      using spec(2-4) False by (intro lock_valid_cong) simp_all
    ultimately show ?thesis using spec(2) False q cm by auto
  qed
qed

subsection \<open>The fast recenter\<close>

fun recenter :: "nat \<Rightarrow> 'm guider \<Rightarrow> 'm guider \<times> sodium_point list" where
  \<comment> \<open>the mount vectors of at most so many frames\<close>
  "recenter 0 g = (g, [])"
| "recenter (Suc n) g =
    (if m_valid (g_ditherRemaining g)
     then case recenter_step g of (h, v) \<Rightarrow> case recenter n h of (k, vs) \<Rightarrow> (k, v # vs)
     else (g, []))"

definition recentering :: "real \<Rightarrow> real \<Rightarrow> real \<Rightarrow> real \<Rightarrow> int \<times> int \<Rightarrow> 'm guider \<Rightarrow> bool" where
  \<comment> \<open>the part \<open>r\<close> of the way is left, the part \<open>f\<close> of it is a step\<close>
  "recentering a b f r dir g \<longleftrightarrow>
    X (g_ditherRemaining g) = r * a \<and> Y (g_ditherRemaining g) = r * b \<and> X (g_ditherStep g) = f * a \<and> Y (g_ditherStep g) = f * b \<and>
    g_ditherDir g = dir"

lemma recenter_step_spec:
  assumes "recentering a b f r dir g" "recenter_step g = (h, v)" "0 \<le> a" "0 \<le> b" "m_valid (g_ditherRemaining g)"
  shows "recentering a b f (r - min r f) dir h" "X v = min r f * a * of_int (fst dir)" "Y v = min r f * b * of_int (snd dir)"
    "m_valid (g_ditherRemaining h) \<longleftrightarrow> \<not> ((r - min r f) * a < 0.5 \<and> (r - min r f) * b < 0.5)"
proof -
  have m: "min (r * a) (f * a) = min r f * a" "min (r * b) (f * b) = min r f * b"
    using assms(3,4) by (simp_all add: min_mult_distrib_right)
  have inv: "X (Invalidate p) = X p" "Y (Invalidate p) = Y p" for p :: sodium_point by (simp_all add: Invalidate_def)
  show "recentering a b f (r - min r f) dir h" "X v = min r f * a * of_int (fst dir)" "Y v = min r f * b * of_int (snd dir)"
    "m_valid (g_ditherRemaining h) \<longleftrightarrow> \<not> ((r - min r f) * a < 0.5 \<and> (r - min r f) * b < 0.5)"
    using assms by (auto simp: recentering_def recenter_step_def Let_def m inv left_diff_distrib)
qed

lemma recenter_ends:
  assumes "recentering a b f r dir g" "m_valid (g_ditherRemaining g)" "0 \<le> a" "0 \<le> b" "0 < f" "0 \<le> r" "r \<le> real n * f" "0 < n"
    and "recenter n g = (k, vs)"
  shows "\<not> m_valid (g_ditherRemaining k) \<and> length vs \<le> n \<and>
    (\<exists>r'. 0 \<le> r' \<and> r' * a < 0.5 \<and> r' * b < 0.5 \<and> sum_list (map X vs) = (r - r') * a * of_int (fst dir) \<and>
       sum_list (map Y vs) = (r - r') * b * of_int (snd dir)) \<and>
    (\<forall>v\<in>set vs. \<exists>s. 0 \<le> s \<and> s \<le> f \<and> X v = s * a * of_int (fst dir) \<and> Y v = s * b * of_int (snd dir))"
  using assms(1,2,6-9)
proof (induction n arbitrary: g r k vs)
  case (Suc n)
  obtain h v where s: "recenter_step g = (h, v)" by fastforce
  obtain k' vs' where rest: "recenter n h = (k', vs')" by fastforce
  have kv: "k = k'" "vs = v # vs'" using Suc.prems(2,6) s rest by auto
  note sp = recenter_step_spec [OF Suc.prems(1) s assms(3,4) Suc.prems(2)]
  let ?r = "r - min r f"
  have r: "0 \<le> ?r" "?r \<le> real n * f" using Suc.prems(3,4) assms(5) by (auto simp: min_def algebra_simps)
  have v: "\<exists>s. 0 \<le> s \<and> s \<le> f \<and> X v = s * a * of_int (fst dir) \<and> Y v = s * b * of_int (snd dir)"
    using sp(2,3) Suc.prems(3) assms(5) by (intro exI [of _ "min r f"]) simp
  show ?case
  proof (cases "m_valid (g_ditherRemaining h)")
    case False
    then have "k' = h" "vs' = []" using rest by (cases n; simp)+
    moreover have "?r * a < 0.5" "?r * b < 0.5" using sp(4) False by simp_all
    ultimately show ?thesis using False v r(1) sp(2,3) by (auto simp: kv intro!: exI [of _ ?r])
  next
    case True
    have "?r \<noteq> 0" using sp(4) True by auto
    then have "0 < n" using r by (cases n) auto
    from Suc.IH [OF sp(1) True r this rest] obtain r' where r': "0 \<le> r'" "r' * a < 0.5" "r' * b < 0.5"
      "sum_list (map X vs') = (?r - r') * a * of_int (fst dir)" "sum_list (map Y vs') = (?r - r') * b * of_int (snd dir)"
      and "\<not> m_valid (g_ditherRemaining k')" "length vs' \<le> n"
      "\<forall>v\<in>set vs'. \<exists>s. 0 \<le> s \<and> s \<le> f \<and> X v = s * a * of_int (fst dir) \<and> Y v = s * b * of_int (snd dir)" by blast
    moreover have "sum_list (map X vs) = (r - r') * a * of_int (fst dir)" "sum_list (map Y vs) = (r - r') * b * of_int (snd dir)"
      using r'(4,5) sp(2,3) by (simp_all add: kv algebra_simps)
    ultimately show ?thesis using v by (auto simp: kv)
  qed
qed simp

text \<open>C32: The fast recenter after a dither ends, within as many frames as steps of seven tenths of the search region make up its
  length; no step is longer than that; and together they move the mount by the dither, reversed, to within half a pixel
  along each axis.\<close>
theorem recenter_covers_dither:
  assumes "0 < m_searchRegion (g_star g)" "X delta \<noteq> 0 \<or> Y delta \<noteq> 0"
    and "Distance0 delta \<le> real n * (0.7 * of_int (m_searchRegion (g_star g)))"
    and "recenter n (begin_recenter delta g) = (k, vs)"
  shows "\<not> m_valid (g_ditherRemaining k) \<and> length vs \<le> n \<and>
    \<bar>sum_list (map X vs) + X delta\<bar> < 0.5 \<and> \<bar>sum_list (map Y vs) + Y delta\<bar> < 0.5 \<and>
    (\<forall>v\<in>set vs. Distance0 v \<le> 0.7 * of_int (m_searchRegion (g_star g)))"
proof -
  let ?R = "0.7 * of_int (m_searchRegion (g_star g)) :: real" and ?h = "hypot (X delta) (Y delta)"
  let ?a = "\<bar>X delta\<bar>" and ?b = "\<bar>Y delta\<bar>" and ?g = "begin_recenter delta g"
  define f where "f = ?R / ?h"
  define dir :: "int \<times> int" where "dir = (if X delta < 0 then 1 else -1, if Y delta < 0 then 1 else -1)"
  have h: "0 < ?h" using assms(2) by (rule hypot_pos)
  have R: "0 < ?R" using assms(1) by simp
  have f: "0 < f" "f * ?h = ?R" using h R by (simp_all add: f_def)
  have n: "1 \<le> real n * f" using assms(3) h by (simp add: f_def Distance0_def le_divide_eq)
  then have "0 < n" by (cases n) simp_all
  have abs_h: "hypot ?a ?b = ?h" by (simp add: hypot_def)
  have rec: "recentering ?a ?b f 1 dir ?g" "m_valid (g_ditherRemaining ?g)"
    by (simp_all add: recentering_def begin_recenter_def dir_def f_def Distance0_def abs_h Let_def mult.commute)
  obtain r' where r': "0 \<le> r'" "r' * ?a < 0.5" "r' * ?b < 0.5" "sum_list (map X vs) = (1 - r') * ?a * of_int (fst dir)"
      "sum_list (map Y vs) = (1 - r') * ?b * of_int (snd dir)"
    and ends: "\<not> m_valid (g_ditherRemaining k)" "length vs \<le> n"
    and steps: "\<forall>v\<in>set vs. \<exists>s. 0 \<le> s \<and> s \<le> f \<and> X v = s * ?a * of_int (fst dir) \<and> Y v = s * ?b * of_int (snd dir)"
    using recenter_ends [OF rec _ _ f(1) _ _ \<open>0 < n\<close> assms(4)] n by auto
  have dx: "?a * of_int (fst dir) = - X delta" "?b * of_int (snd dir) = - Y delta" by (simp_all add: dir_def)
  have "sum_list (map X vs) + X delta = r' * X delta" "sum_list (map Y vs) + Y delta = r' * Y delta"
    using r'(4,5) dx by (simp_all add: mult.assoc left_diff_distrib)
  then have "\<bar>sum_list (map X vs) + X delta\<bar> < 0.5" "\<bar>sum_list (map Y vs) + Y delta\<bar> < 0.5"
    using r'(1-3) by (simp_all add: abs_mult)
  moreover have "Distance0 v \<le> ?R" if v: "v \<in> set vs" for v
  proof -
    obtain s where s: "0 \<le> s" "s \<le> f" "X v = s * (- X delta)" "Y v = s * (- Y delta)"
      using steps v dx by (metis mult.assoc)
    have "Distance0 v = s * ?h" using s(1) by (simp only: Distance0_def s(3,4) hypot_scale) simp
    also have "\<dots> \<le> f * ?h" using s(2) by (intro mult_right_mono) simp_all
    finally show ?thesis by (simp only: f(2))
  qed
  ultimately show ?thesis using ends by blast
qed

theorem recenter_covers_dither_witness:
  "\<exists>k vs. recenter 8 (begin_recenter (SodiumPoint 30 40) guiding_scope) = (k, vs) \<and> \<bar>sum_list (map X vs) + 30\<bar> < 0.5"
proof -
  obtain k vs where r: "recenter 8 (begin_recenter (SodiumPoint 30 40) guiding_scope) = (k, vs)" by fastforce
  have h: "hypot 30 40 = 50" unfolding hypot_def by (rule real_sqrt_unique) simp_all
  have g: "m_searchRegion (g_star guiding_scope) = 10" by (simp add: guiding_scope_def guiding_star_def)
  from recenter_covers_dither [OF _ _ _ r] show ?thesis using r by (simp add: g h Distance0_def)
qed

definition wide_scope :: "scope guider" where
  "wide_scope = guiding_scope\<lparr>g_image := star_image\<lparr>Width := 100, Height := 100\<rparr>,
     g_lockPosition := (g_lockPosition guiding_scope)\<lparr>X := 50, Y := 50\<rparr>\<rparr>"

theorem dither_finds_valid_lock_witness:
  "\<forall>ce pe. \<exists>g' evs. MoveLockPosition (scope_ops (\<lambda>n s. s) id id ce [] False id pe) 0 (SodiumPoint 3 4) wide_scope = (g', evs, False) \<and>
     lock_valid g' (g_lockPosition g')"
proof (intro allI)
  fix ce pe
  let ?ops = "scope_ops (\<lambda>n s. s) id id ce [] False id pe"
  obtain g' evs err where r: "MoveLockPosition ?ops 0 (SodiumPoint 3 4) wide_scope = (g', evs, err)" by (metis prod_cases3)
  have w: "m_searchRegion (g_star wide_scope) = 10" "g_mount wide_scope = calibrated_scope" "Width (g_image wide_scope) = 100"
    "Height (g_image wide_scope) = 100" "X (g_lockPosition wide_scope) = 50" "Y (g_lockPosition wide_scope) = 50"
    by (simp_all add: wide_scope_def guiding_scope_def guiding_star_def)
  have cal: "op_IsCalibrated ?ops (g_mount wide_scope)"
    by (simp add: w scope_ops_def scope_IsCalibrated_def calibrated_scope_def sample_scope_def MountIsCalibrated_def sample_cal_def
        CALIBRATION_RATE_UNCALIBRATED_def)
  let ?cam = "fst (dither_move calibrated_scope (SodiumPoint 3 4) 0)"
  have "\<bar>X ?cam\<bar> \<le> 7 \<and> \<bar>Y ?cam\<bar> \<le> 7"
  proof -
    have b: "\<bar>3 * cos z - s * sin z\<bar> \<le> 7 \<and> \<bar>3 * sin z + s * cos z\<bar> \<le> 7" if "\<bar>s\<bar> = 4" for z s :: real
    proof -
      have "\<bar>3 * cos z\<bar> \<le> 3" "\<bar>3 * sin z\<bar> \<le> 3" by (simp_all add: abs_mult)
      moreover have "\<bar>s * sin z\<bar> \<le> 4" "\<bar>s * cos z\<bar> \<le> 4" using that by (simp_all add: abs_mult)
      ultimately show ?thesis by linarith
    qed
    show ?thesis by (simp add: dither_move_def reflect_def mount_to_camera Let_def b)
  qed
  then have "lock_valid wide_scope (dither_target wide_scope (SodiumPoint 3 4) 0)"
    by (simp add: lock_valid_def IsValidLockPosition_def dither_target_def w Let_def abs_le_iff)
  then have "\<exists>q<4. lock_valid wide_scope (dither_target wide_scope (SodiumPoint 3 4) q)" by (intro exI [of _ 0]) simp
  then have "\<not> err \<and> lock_valid g' (g_lockPosition g')" using dither_finds_valid_lock [OF r] cal by (simp add: w)
  then show "\<exists>g' evs. MoveLockPosition ?ops 0 (SodiumPoint 3 4) wide_scope = (g', evs, False) \<and> lock_valid g' (g_lockPosition g')"
    using r by auto
qed

end
