(* ===== verification/Json.thy ===== *)
theory Json
  imports Prelude
begin

text \<open>
  \<open>src/src/server/json_parser.cpp\<close>, the parser of the requests the event server receives, and \<open>json_escape\<close> and
  \<open>json_format\<close> of \<open>event_server.cpp\<close>, which print JSON values. A text is the list of its bytes without the terminating
  NUL, so the end of the list is the NUL; what is read beyond it is the outcome \<open>Overrun\<close>. The parser decodes strings
  in place, always behind the position it reads, so a decoded string is a value here. The tree under construction is the
  stack of open objects and arrays from \<open>top\<close> to the root. \<open>error_line\<close> is not modelled.
\<close>

subsection \<open>Values\<close>

datatype json_value = JValue (jname: "string option") (jbody: json_body)
and json_body = JSON_NULL | JSON_OBJECT "json_value list" | JSON_ARRAY "json_value list" | JSON_STRING string
  | JSON_INT int | JSON_FLOAT real | JSON_BOOL bool

record json_frame =
  f_name :: "string option"
  f_object :: bool
  f_children :: "json_value list"

record json_state =
  it :: string
  pending :: "string option" \<comment> \<open>\<open>name\<close>\<close>
  stack :: "json_frame list"
  root :: "json_value option" \<comment> \<open>the root once it is closed\<close>

datatype json_step = Next json_state | Error string string | ReadsPastEnd
datatype json_result = Parsed json_value | ParseError string string | Overrun

subsection \<open>Memory\<close>

text \<open>\<open>block_allocator\<close>: blocks, the newest first. An address is the number of blocks below with an offset into the block.
  Sizes stay far below the range of \<open>size_t\<close>.\<close>

record ba_block =
  b_size :: nat
  b_used :: nat

record block_allocator =
  m_blocks :: "ba_block list"
  m_blocksize :: nat

definition BLOCK_HEADER :: nat where "BLOCK_HEADER = 24" \<comment> \<open>\<open>sizeof(block)\<close>\<close>

definition ba_room :: "nat \<Rightarrow> block_allocator \<Rightarrow> ba_block list" where
  \<comment> \<open>the blocks, with a new one in front when the newest has no room\<close>
  "ba_room n a =
    (let bs = m_blocks a
     in if bs = [] \<or> b_used (hd bs) + n > b_size (hd bs)
        then \<lparr>b_size = max (BLOCK_HEADER + n) (m_blocksize a), b_used = BLOCK_HEADER\<rparr> # bs else bs)"

definition ba_malloc :: "nat \<Rightarrow> block_allocator \<Rightarrow> block_allocator \<times> nat \<times> nat" where
  "ba_malloc n a =
    (let bs = ba_room n a
     in (a\<lparr>m_blocks := (hd bs)\<lparr>b_used := b_used (hd bs) + n\<rparr> # tl bs\<rparr>, length (tl bs), b_used (hd bs)))"

definition ba_reset :: "block_allocator \<Rightarrow> block_allocator" where
  "ba_reset a = (case m_blocks a of [] \<Rightarrow> a | b # _ \<Rightarrow> a\<lparr>m_blocks := [b\<lparr>b_used := BLOCK_HEADER\<rparr>]\<rparr>)"

definition ba_free :: "block_allocator \<Rightarrow> block_allocator" where
  "ba_free a = (if m_blocks a = [] then a else \<lparr>m_blocks = [], m_blocksize = 0\<rparr>)"

definition ba_ok :: "block_allocator \<Rightarrow> bool" where
  "ba_ok a \<longleftrightarrow> (\<forall>b\<in>set (m_blocks a). BLOCK_HEADER \<le> b_used b \<and> b_used b \<le> b_size b)"

text \<open>What is handed out lies behind the header and within its block, and beyond everything handed out of it before.\<close>

lemma ba_malloc_fits:
  assumes "ba_ok a" "ba_malloc n a = (a', blk, off)"
  shows "ba_ok a'" "BLOCK_HEADER \<le> off" "off + n \<le> b_size (hd (m_blocks a'))" "blk = length (tl (m_blocks a'))"
    "b_used (hd (m_blocks a')) = off + n" "length (m_blocks a') = length (m_blocks a) \<Longrightarrow> off = b_used (hd (m_blocks a))"
proof -
  have "ba_room n a \<noteq> []" by (simp add: ba_room_def Let_def)
  then obtain b bs where bs: "ba_room n a = b # bs" by (cases "ba_room n a") auto
  have ok: "BLOCK_HEADER \<le> b_used b" "b_used b + n \<le> b_size b" "\<forall>b\<in>set bs. BLOCK_HEADER \<le> b_used b \<and> b_used b \<le> b_size b"
    and same: "length (b # bs) = length (m_blocks a) \<Longrightarrow> b = hd (m_blocks a)"
    using assms(1) bs by (auto simp: ba_room_def ba_ok_def Let_def split: if_splits)
  have a': "m_blocks a' = b\<lparr>b_used := b_used b + n\<rparr> # bs" "blk = length bs" "off = b_used b"
    using assms(2) bs by (auto simp: ba_malloc_def Let_def)
  show "ba_ok a'" "BLOCK_HEADER \<le> off" "off + n \<le> b_size (hd (m_blocks a'))" "blk = length (tl (m_blocks a'))"
    "b_used (hd (m_blocks a')) = off + n" "length (m_blocks a') = length (m_blocks a) \<Longrightarrow> off = b_used (hd (m_blocks a))"
    using ok same by (auto simp: a' ba_ok_def)
qed

lemma ba_reset_free_ok: "ba_ok a \<Longrightarrow> ba_ok (ba_reset a)" "ba_ok (ba_free a)"
  by (auto simp: ba_reset_def ba_free_def ba_ok_def split: list.splits)

subsection \<open>Numbers\<close>

definition IS_DIGIT :: "char \<Rightarrow> bool" where "IS_DIGIT c \<longleftrightarrow> 48 \<le> (of_char c :: nat) \<and> (of_char c :: nat) \<le> 57"

definition digit_val :: "char \<Rightarrow> int" where "digit_val c = int (of_char c) - 48"

definition wrap32 :: "int \<Rightarrow> int" where
  \<comment> \<open>an \<open>int\<close>, where a signed overflow wraps around\<close>
  "wrap32 n = signed_take_bit 31 n"

definition read_sign :: "string \<Rightarrow> int \<times> string" where
  "read_sign s = (case s of c # r \<Rightarrow> if c = CHR ''-'' then (-1, r) else if c = CHR ''+'' then (1, r) else (1, s) | [] \<Rightarrow> (1, s))"

fun int_digits :: "int \<Rightarrow> string \<Rightarrow> int \<times> string" where
  "int_digits n [] = (n, [])"
| "int_digits n (c # s) = (if IS_DIGIT c then int_digits (wrap32 (10 * n + digit_val c)) s else (n, c # s))"

definition atoi :: "string \<Rightarrow> int \<times> string" where
  "atoi s = (let (sign, s) = read_sign s; (n, s) = int_digits 0 s in (wrap32 (n * sign), s))"

fun real_digits :: "real \<Rightarrow> string \<Rightarrow> real \<times> string" where
  "real_digits x [] = (x, [])"
| "real_digits x (c # s) = (if IS_DIGIT c then real_digits (10 * x + of_int (digit_val c)) s else (x, c # s))"

fun fraction_digits :: "real \<Rightarrow> real \<Rightarrow> string \<Rightarrow> real \<times> string" where
  "fraction_digits base x [] = (x, [])"
| "fraction_digits base x (c # s) =
    (if IS_DIGIT c then fraction_digits (base * 0.1) (x + of_int (digit_val c) * base) s else (x, c # s))"

definition scale10 :: "bool \<Rightarrow> int \<Rightarrow> real \<Rightarrow> real" where
  \<comment> \<open>\<open>power_of_ten\<close> is 10 at least, even for a negative \<open>exponent\<close>\<close>
  "scale10 negative exponent x =
    (if exponent = 0 then x else let p = 10 ^ nat (max 1 exponent) in if negative then x / p else x * p)"

definition atof :: "string \<Rightarrow> real \<times> string" where
  "atof s =
    (let (sign, s) = read_sign s; (x, s) = real_digits 0 s;
         (x, s) = (case s of c # r \<Rightarrow> if c = CHR ''.'' then fraction_digits 0.1 x r else (x, s) | [] \<Rightarrow> (x, s));
         x = x * of_int sign
     in case s of [] \<Rightarrow> (x, s)
        | c # r \<Rightarrow>
            if c = CHR ''e'' \<or> c = CHR ''E''
            then let (esign, r) = read_sign r; (n, r) = int_digits 0 r in (scale10 (esign = -1) n x, r)
            else (x, s))"

definition hex_val :: "char \<Rightarrow> nat option" where
  "hex_val c =
    (let v = of_char c :: nat in if 48 \<le> v \<and> v \<le> 57 then Some (v - 48) else if 97 \<le> v \<and> v \<le> 102 then Some (v - 87)
     else if 65 \<le> v \<and> v \<le> 70 then Some (v - 55) else None)"

fun hatoui :: "nat \<Rightarrow> nat \<Rightarrow> string \<Rightarrow> nat \<times> nat" where
  \<comment> \<open>at most \<open>k\<close> characters; the value and how many of them were left unread\<close>
  "hatoui 0 n s = (n, 0)"
| "hatoui (Suc k) n [] = (n, Suc k)"
| "hatoui (Suc k) n (c # s) = (case hex_val c of None \<Rightarrow> (n, Suc k) | Some d \<Rightarrow> hatoui k (16 * n + d) s)"

subsection \<open>Tokens\<close>

definition is_ws :: "char \<Rightarrow> bool" where
  "is_ws c \<longleftrightarrow> (of_char c :: nat) \<in> {32, 9, 13, 10}"

definition ends_number :: "char \<Rightarrow> bool" where
  "ends_number c \<longleftrightarrow> is_ws c \<or> c = CHR '','' \<or> c = CHR '']'' \<or> c = CHR ''}''"

definition utf8 :: "nat \<Rightarrow> string" where
  "utf8 p =
    (if p \<le> 0x7F then [char_of p]
     else if p \<le> 0x7FF then [char_of (0xC0 + p div 64), char_of (0x80 + p mod 64)]
     else [char_of (0xE0 + p div 4096), char_of (0x80 + (p div 64) mod 64), char_of (0x80 + p mod 64)])"

definition escape_char :: "char \<Rightarrow> char option" where
  "escape_char e =
    (if e = CHR 0x22 \<or> e = CHR 0x5C \<or> e = CHR ''/'' then Some e
     else if e = CHR ''b'' then Some (CHR 0x08) else if e = CHR ''f'' then Some (CHR 0x0C)
     else if e = CHR ''n'' then Some (CHR 0x0A) else if e = CHR ''r'' then Some (CHR 0x0D)
     else if e = CHR ''t'' then Some (CHR 0x09) else None)"

text \<open>The loop over a string: an error with where it is reported, or the decoded bytes and the rest. \<open>first\<close> is the text from the
  opening quote on; at the end of the text the loop ends without an error.\<close>

function scan_string :: "string \<Rightarrow> string \<Rightarrow> string \<Rightarrow> (string \<times> string) + (string \<times> string)" where
  "scan_string first out [] = Inr (out, [])"
| "scan_string first out (c # s) =
    (if (of_char c :: nat) < 32 then Inl (''Control characters not allowed in strings'', first)
     else if c = CHR 0x5C then
       (case s of [] \<Rightarrow> Inl (''Unrecognized escape sequence'', first)
        | e # r \<Rightarrow>
            if e = CHR ''u'' then
              (case hatoui 4 0 r of (p, missing) \<Rightarrow>
                if missing \<noteq> 0 then Inl (''Bad unicode codepoint'', c # s) else scan_string first (out @ utf8 p) (drop 4 r))
            else (case escape_char e of None \<Rightarrow> Inl (''Unrecognized escape sequence'', first)
                  | Some x \<Rightarrow> scan_string first (out @ [x]) r))
     else if c = CHR 0x22 then Inr (out, s)
     else scan_string first (out @ [c]) s)"
  by pat_completeness auto
termination by (relation "measure (\<lambda>(first, out, s). length s)") auto

declare scan_string.simps(2) [simp del]

definition cstr :: "string \<Rightarrow> string" where
  \<comment> \<open>a C string ends at its first NUL\<close>
  "cstr s = takeWhile (\<lambda>c. c \<noteq> CHR 0x00) s"

definition append_child :: "json_value \<Rightarrow> json_frame list \<Rightarrow> json_frame list" where
  \<comment> \<open>\<open>json_append(top, object)\<close>\<close>
  "append_child v fs = (case fs of [] \<Rightarrow> [] | f # fs \<Rightarrow> f\<lparr>f_children := f_children f @ [v]\<rparr> # fs)"

definition add_value :: "json_body \<Rightarrow> string \<Rightarrow> json_state \<Rightarrow> json_step" where
  \<comment> \<open>the new value takes the pending name; the text goes on after it\<close>
  "add_value b rest S = Next (S\<lparr>it := rest, stack := append_child (JValue (pending S) b) (stack S), pending := None\<rparr>)"

definition open_token :: "char \<Rightarrow> string \<Rightarrow> json_state \<Rightarrow> json_step" where
  "open_token c s S =
    (if stack S = [] \<and> root S \<noteq> None then Error ''Second root. Only one root allowed'' s
     else Next (S\<lparr>it := s, pending := None,
            stack := \<lparr>f_name = pending S, f_object = (c = CHR ''{''), f_children = []\<rparr> # stack S\<rparr>))"

definition close_token :: "char \<Rightarrow> string \<Rightarrow> json_state \<Rightarrow> json_step" where
  "close_token c s S =
    (case stack S of [] \<Rightarrow> Error ''Mismatch closing brace/bracket'' (c # s)
     | f # fs \<Rightarrow>
         if f_object f \<noteq> (c = CHR ''}'') then Error ''Mismatch closing brace/bracket'' (c # s)
         else
           let v = JValue (f_name f) (if f_object f then JSON_OBJECT (f_children f) else JSON_ARRAY (f_children f))
           in Next (if fs = [] then S\<lparr>it := s, stack := [], root := Some v\<rparr> else S\<lparr>it := s, stack := append_child v fs\<rparr>))"

definition string_token :: "string \<Rightarrow> json_state \<Rightarrow> json_step" where
  "string_token s S =
    (case scan_string s [] s of Inl (desc, pos) \<Rightarrow> Error desc pos
     | Inr (str, rest) \<Rightarrow>
         if pending S = None \<and> f_object (hd (stack S)) then Next (S\<lparr>it := rest, pending := Some (cstr str)\<rparr>)
         else add_value (JSON_STRING (cstr str)) rest S)"

definition literal_token :: "string \<Rightarrow> json_state \<Rightarrow> json_step" where
  "literal_token s S =
    (if f_object (hd (stack S)) \<and> pending S = None then Error ''Missing name'' s
     else if take 4 s = ''null'' then add_value JSON_NULL (drop 4 s) S
     else if take 4 s = ''true'' then add_value (JSON_BOOL True) (drop 4 s) S
     else if take 5 s = ''false'' then add_value (JSON_BOOL False) (drop 5 s) S
     else Error ''Unknown identifier'' s)"

definition number_token :: "string \<Rightarrow> json_state \<Rightarrow> json_step" where
  "number_token s S =
    (if f_object (hd (stack S)) \<and> pending S = None then Error ''Missing name'' s
     else
       let num = takeWhile (\<lambda>c. \<not> ends_number c) s; rest = dropWhile (\<lambda>c. \<not> ends_number c) s
       in if rest = [] then ReadsPastEnd \<comment> \<open>nothing stops the scan at the NUL\<close>
          else if CHR ''.'' \<in> set num \<or> CHR ''e'' \<in> set num \<or> CHR ''E'' \<in> set num
          then case atof num of (x, left) \<Rightarrow> if left \<noteq> [] then Error ''Bad float number'' s else add_value (JSON_FLOAT x) rest S
          else case atoi num of (n, left) \<Rightarrow> if left \<noteq> [] then Error ''Bad integer number'' s else add_value (JSON_INT n) rest S)"

definition json_token :: "json_state \<Rightarrow> json_step" where
  "json_token S =
    (let c = hd (it S); s = tl (it S)
     in if c = CHR ''{'' \<or> c = CHR ''['' then open_token c s S
        else if c = CHR ''}'' \<or> c = CHR '']'' then close_token c s S
        else if c = CHR '':'' then
          (if stack S = [] \<or> \<not> f_object (hd (stack S)) \<or> pending S = None then Error ''Unexpected character'' (it S)
           else Next (S\<lparr>it := s\<rparr>))
        else if stack S = [] then Error ''Unexpected character'' (it S)
        else if c = CHR '','' then Next (S\<lparr>it := s\<rparr>)
        else if c = CHR 0x22 then string_token s S
        else if c = CHR ''n'' \<or> c = CHR ''t'' \<or> c = CHR ''f'' then literal_token (it S) S
        else if c = CHR ''-'' \<or> IS_DIGIT c then number_token (it S) S
        else Error ''Unexpected character'' (it S))"

subsection \<open>The parser\<close>

lemma length_hatoui: "hatoui k n s = (p, 0) \<Longrightarrow> k \<le> length s"
  by (induction k n s arbitrary: p rule: hatoui.induct) (auto split: option.splits)

lemma scan_string_shorter: "scan_string first out s = Inr (str, rest) \<Longrightarrow> length rest \<le> length s"
proof (induction first out s arbitrary: str rest rule: scan_string.induct)
  case (2 first out c s)
  show ?case
    using 2 by (auto simp: scan_string.simps(2) split: if_splits list.splits option.splits prod.splits) fastforce+
qed simp

definition shorter :: "string \<Rightarrow> json_step \<Rightarrow> bool" where
  "shorter t r \<longleftrightarrow> (\<forall>S'. r = Next S' \<longrightarrow> length (it S') < length t)"

lemma shorter_simps [simp]:
  "shorter t (Error d p)" "shorter t ReadsPastEnd" "shorter t (Next S) \<longleftrightarrow> length (it S) < length t"
  "shorter t (add_value b rest S) \<longleftrightarrow> length rest < length t"
  by (simp_all add: shorter_def add_value_def)

lemma open_close_shorter: "shorter (c # s) (open_token c' s S)" "shorter (c # s) (close_token c' s S)"
  by (simp_all add: open_token_def close_token_def Let_def split: list.split)

lemma string_token_shorter: "shorter (c # s) (string_token s S)"
  by (auto simp: string_token_def dest: scan_string_shorter split: sum.split)

lemma literal_token_shorter: "shorter (c # s) (literal_token (c # s) S)"
  by (auto simp: literal_token_def less_Suc_eq_le)

lemma number_token_shorter:
  assumes "\<not> ends_number c"
  shows "shorter (c # s) (number_token (c # s) S)"
proof -
  define num rest where "num = takeWhile (\<lambda>c. \<not> ends_number c) (c # s)" and "rest = dropWhile (\<lambda>c. \<not> ends_number c) (c # s)"
  have "length rest < length (c # s)"
    using assms by (simp add: rest_def length_dropWhile_le less_Suc_eq_le)
  then show ?thesis unfolding number_token_def Let_def num_def [symmetric] rest_def [symmetric] by (simp split: prod.split)
qed

lemma number_char: "c = CHR ''-'' \<or> IS_DIGIT c \<Longrightarrow> \<not> ends_number c"
  by (auto simp: ends_number_def is_ws_def IS_DIGIT_def)

lemma json_token_shorter:
  assumes "json_token S = Next S'" "it S \<noteq> []"
  shows "length (it S') < length (it S)"
proof -
  obtain c s where it: "it S = c # s" using assms(2) by (cases "it S") auto
  have "shorter (c # s) (json_token S)"
    unfolding json_token_def it Let_def list.sel
    using open_close_shorter string_token_shorter literal_token_shorter number_token_shorter [OF number_char] by simp
  then show ?thesis using assms(1) by (simp add: it)
qed

definition skip_ws :: "json_state \<Rightarrow> json_state" where
  "skip_ws S = S\<lparr>it := dropWhile is_ws (it S)\<rparr>"

lemma length_skip_ws: "length (it (skip_ws S)) \<le> length (it S)"
  by (simp add: skip_ws_def length_dropWhile_le)

function json_loop :: "json_state \<Rightarrow> json_result" where
  "json_loop S =
    (if it S = [] then
       (if stack S \<noteq> [] then ParseError ''Not all objects/arrays have been properly closed'' []
        else case root S of None \<Rightarrow> ParseError ''empty string'' [] | Some v \<Rightarrow> Parsed v)
     else case json_token S of Next S' \<Rightarrow> json_loop (skip_ws S') | Error desc pos \<Rightarrow> ParseError desc pos | ReadsPastEnd \<Rightarrow> Overrun)"
  by pat_completeness auto
termination
proof (relation "measure (\<lambda>S. length (it S))", goal_cases)
  case (2 S S')
  then show ?case using json_token_shorter [of S S'] length_skip_ws [of S'] by simp
qed simp

declare json_loop.simps [simp del]

definition json_parse :: "string \<Rightarrow> json_result" where
  "json_parse source = json_loop (skip_ws \<lparr>it = source, pending = None, stack = [], root = None\<rparr>)"

subsection \<open>\<open>json_escape\<close> and \<open>json_format\<close>\<close>

definition Replace :: "char \<Rightarrow> string \<Rightarrow> string \<Rightarrow> string" where
  \<comment> \<open>\<open>wxString::Replace\<close> of every occurrence of a character\<close>
  "Replace c r s = concat (map (\<lambda>x. if x = c then r else [x]) s)"

definition json_escape :: "string \<Rightarrow> string" where
  "json_escape s =
    (let t = Replace (CHR 0x5C) [CHR 0x5C, CHR 0x5C] s; t = Replace (CHR 0x22) [CHR 0x5C, CHR 0x22] t;
         t = Replace (CHR 0x0D) [CHR 0x5C, CHR ''r''] t in Replace (CHR 0x0A) [CHR 0x5C, CHR ''n''] t)"

fun format_nat :: "nat \<Rightarrow> string" where
  "format_nat n = (if n < 10 then [char_of (48 + n)] else format_nat (n div 10) @ [char_of (48 + n mod 10)])"

definition format_d :: "int \<Rightarrow> string" where
  \<comment> \<open>\<open>"%d"\<close>\<close>
  "format_d n = (if n < 0 then ''-'' @ format_nat (nat (- n)) else format_nat (nat n))"

fun commas :: "string list \<Rightarrow> string" where
  "commas [] = []" | "commas [s] = s" | "commas (s # ss) = s @ '','' @ commas ss"

text \<open>\<open>fmt_g\<close> is the conversion \<open>"%g"\<close>. A member without a name would be printed from a null pointer: \<^term>\<open>None\<close>.\<close>

fun json_format :: "(real \<Rightarrow> string) \<Rightarrow> json_body \<Rightarrow> string option"
  and format_elems :: "(real \<Rightarrow> string) \<Rightarrow> json_value list \<Rightarrow> string list option"
  and format_members :: "(real \<Rightarrow> string) \<Rightarrow> json_value list \<Rightarrow> string list option" where
  "json_format fmt_g JSON_NULL = Some ''null''"
| "json_format fmt_g (JSON_OBJECT vs) = map_option (\<lambda>ss. ''{'' @ commas ss @ ''}'') (format_members fmt_g vs)"
| "json_format fmt_g (JSON_ARRAY vs) = map_option (\<lambda>ss. ''['' @ commas ss @ '']'') (format_elems fmt_g vs)"
| "json_format fmt_g (JSON_STRING s) = Some ([CHR 0x22] @ json_escape s @ [CHR 0x22])"
| "json_format fmt_g (JSON_INT n) = Some (format_d n)"
| "json_format fmt_g (JSON_FLOAT x) = Some (fmt_g x)"
| "json_format fmt_g (JSON_BOOL b) = Some (if b then ''true'' else ''false'')"
| "format_elems fmt_g [] = Some []"
| "format_elems fmt_g (JValue _ b # vs) =
    (case json_format fmt_g b of None \<Rightarrow> None | Some s \<Rightarrow> map_option (\<lambda>ss. s # ss) (format_elems fmt_g vs))"
| "format_members fmt_g [] = Some []"
| "format_members fmt_g (JValue None b # vs) = None"
| "format_members fmt_g (JValue (Some n) b # vs) =
    (case json_format fmt_g b of None \<Rightarrow> None
     | Some s \<Rightarrow> map_option (\<lambda>ss. ([CHR 0x22] @ n @ [CHR 0x22, CHR '':''] @ s) # ss) (format_members fmt_g vs))"

declare format_nat.simps [simp del]

subsection \<open>What the parser returns\<close>

definition c_string :: "string \<Rightarrow> bool" where "c_string s \<longleftrightarrow> CHR 0x00 \<notin> set s"
definition is_int32 :: "int \<Rightarrow> bool" where "is_int32 n \<longleftrightarrow> - (2 ^ 31) \<le> n \<and> n < 2 ^ 31"

fun is_container :: "json_body \<Rightarrow> bool" where
  "is_container (JSON_OBJECT vs) = True" | "is_container (JSON_ARRAY vs) = True" | "is_container _ = False"

fun typed_body :: "json_body \<Rightarrow> bool" and typed_value :: "bool \<Rightarrow> json_value \<Rightarrow> bool" where
  \<comment> \<open>the flag: a member of an object\<close>
  "typed_body (JSON_OBJECT vs) = (\<forall>v\<in>set vs. typed_value True v)"
| "typed_body (JSON_ARRAY vs) = (\<forall>v\<in>set vs. typed_value False v)"
| "typed_body (JSON_STRING s) = c_string s"
| "typed_body (JSON_INT n) = is_int32 n"
| "typed_body _ = True"
| "typed_value obj (JValue n b) =
    ((case n of None \<Rightarrow> obj \<longrightarrow> is_container b | Some s \<Rightarrow> c_string s) \<and> typed_body b)"

definition name_ok :: "string option \<Rightarrow> bool" where "name_ok n \<longleftrightarrow> (case n of None \<Rightarrow> True | Some s \<Rightarrow> c_string s)"

definition root_ok :: "json_value \<Rightarrow> bool" where
  "root_ok v \<longleftrightarrow> jname v = None \<and> is_container (jbody v) \<and> typed_body (jbody v)"

definition frame_ok :: "json_frame \<Rightarrow> bool" where
  "frame_ok f \<longleftrightarrow> name_ok (f_name f) \<and> (\<forall>v\<in>set (f_children f). typed_value (f_object f) v)"

definition state_ok :: "json_state \<Rightarrow> bool" where
  "state_ok S \<longleftrightarrow> name_ok (pending S) \<and> (\<forall>f\<in>set (stack S). frame_ok f) \<and>
    (if stack S = [] then (case root S of None \<Rightarrow> pending S = None | Some v \<Rightarrow> root_ok v) else f_name (last (stack S)) = None)"

definition keeps_ok :: "json_step \<Rightarrow> bool" where
  "keeps_ok r \<longleftrightarrow> (\<forall>S'. r = Next S' \<longrightarrow> state_ok S')"

lemma keeps_ok_simps [simp]: "keeps_ok (Error d p)" "keeps_ok ReadsPastEnd" "keeps_ok (Next S) = state_ok S"
  by (simp_all add: keeps_ok_def)

lemma c_string_cstr [simp]: "c_string (cstr s)"
  by (auto simp: c_string_def cstr_def dest: set_takeWhileD)

lemma wrap32_range [simp]: "is_int32 (wrap32 n)"
  using signed_take_bit_int_greater_eq_minus_exp [of 31 n] signed_take_bit_int_less_exp [of 31 n]
  by (simp add: is_int32_def wrap32_def)

lemma add_value_ok:
  assumes "state_ok S" "stack S \<noteq> []" "f_object (hd (stack S)) \<Longrightarrow> pending S \<noteq> None \<or> is_container b" "typed_body b"
  shows "keeps_ok (add_value b rest S)"
  using assms
  by (cases "stack S") (auto simp: add_value_def append_child_def state_ok_def frame_ok_def name_ok_def split: option.splits if_splits)

lemma open_token_ok: "state_ok S \<Longrightarrow> keeps_ok (open_token c s S)"
  by (auto simp: open_token_def state_ok_def frame_ok_def name_ok_def split: option.splits if_splits)

lemma close_token_ok:
  assumes "state_ok S"
  shows "keeps_ok (close_token c s S)"
proof (cases "stack S")
  case (Cons f fs)
  define v where "v = JValue (f_name f) (if f_object f then JSON_OBJECT (f_children f) else JSON_ARRAY (f_children f))"
  have f: "frame_ok f" and n: "name_ok (pending S)" using assms Cons by (simp_all add: state_ok_def)
  have v: "typed_value obj v" "is_container (jbody v)" "jname v = f_name f" for obj
    using f by (cases "f_object f"; simp add: v_def frame_ok_def name_ok_def split: option.splits)+
  have t: "typed_body (jbody v)" using f by (cases "f_object f") (simp_all add: v_def frame_ok_def)
  have tok: "close_token c s S = (if f_object f \<noteq> (c = CHR ''}'') then Error ''Mismatch closing brace/bracket'' (c # s)
      else Next (if fs = [] then S\<lparr>it := s, stack := [], root := Some v\<rparr> else S\<lparr>it := s, stack := append_child v fs\<rparr>))"
    by (simp add: close_token_def Cons v_def Let_def)
  show ?thesis
  proof (cases fs)
    case Nil
    then show ?thesis using assms Cons v t n by (simp add: tok state_ok_def root_ok_def)
  next
    case (Cons g gs)
    then show ?thesis using assms \<open>stack S = f # fs\<close> v n
      by (auto simp: tok state_ok_def frame_ok_def append_child_def)
  qed
qed (simp add: close_token_def)

lemma string_token_ok: "state_ok S \<Longrightarrow> stack S \<noteq> [] \<Longrightarrow> keeps_ok (string_token s S)"
  by (auto simp: string_token_def state_ok_def name_ok_def intro!: add_value_ok split: sum.split)

lemma literal_token_ok: "state_ok S \<Longrightarrow> stack S \<noteq> [] \<Longrightarrow> keeps_ok (literal_token s S)"
  by (auto simp: literal_token_def intro!: add_value_ok)

lemma number_token_ok: "state_ok S \<Longrightarrow> stack S \<noteq> [] \<Longrightarrow> keeps_ok (number_token s S)"
proof -
  assume a: "state_ok S" "stack S \<noteq> []"
  have i: "is_int32 (fst (atoi t))" for t by (simp add: atoi_def Let_def split: prod.split)
  define num rest where "num = takeWhile (\<lambda>c. \<not> ends_number c) s" and "rest = dropWhile (\<lambda>c. \<not> ends_number c) s"
  show ?thesis unfolding number_token_def Let_def num_def [symmetric] rest_def [symmetric]
    using i [of num] by (auto intro!: add_value_ok a split: prod.split)
qed

lemma json_token_ok: "state_ok S \<Longrightarrow> keeps_ok (json_token S)"
  unfolding json_token_def Let_def
  using open_token_ok close_token_ok string_token_ok literal_token_ok number_token_ok
  by (simp add: state_ok_def)

lemma state_ok_skip_ws: "state_ok (skip_ws S) = state_ok S"
  by (simp add: skip_ws_def state_ok_def cong: option.case_cong)

lemma json_loop_ok: "state_ok S \<Longrightarrow> json_loop S = Parsed v \<Longrightarrow> root_ok v"
proof (induction S rule: json_loop.induct)
  case (1 S)
  show ?case
  proof (cases "it S = []")
    case True
    then show ?thesis using 1 by (auto simp: json_loop.simps [of S] state_ok_def split: if_splits option.splits)
  next
    case False
    then obtain S' where S': "json_token S = Next S'" "json_loop (skip_ws S') = Parsed v"
      using 1(3) by (auto simp: json_loop.simps [of S] split: json_step.splits)
    then have "state_ok S'" using json_token_ok [OF 1(2)] by simp
    then show ?thesis using 1(1) [OF False S'(1)] S'(2) by (simp add: state_ok_skip_ws)
  qed
qed

text \<open>C26: What the parser accepts is well typed, for every text: the root is an unnamed object or array, every number,
  string, boolean and null directly in an object has a name, every integer fits in 32 bits, and no name or string
  contains a NUL.\<close>
theorem parsed_well_typed:
  assumes "json_parse source = Parsed v"
  shows "jname v = None \<and> is_container (jbody v) \<and> typed_body (jbody v)"
proof -
  have "state_ok (skip_ws \<lparr>it = source, pending = None, stack = [], root = None\<rparr>)"
    by (simp add: state_ok_def skip_ws_def name_ok_def)
  from json_loop_ok [OF this] show ?thesis using assms by (simp add: json_parse_def root_ok_def)
qed

theorem parsed_well_typed_witness:
  "typed_body (JSON_ARRAY [JValue None (JSON_INT 12), JValue None (JSON_BOOL True)])"
proof -
  have "json_parse ''[12, true]'' = Parsed (JValue None (JSON_ARRAY [JValue None (JSON_INT 12), JValue None (JSON_BOOL True)]))"
    by code_simp
  from parsed_well_typed [OF this] show ?thesis by simp
qed

subsection \<open>Printing and parsing back\<close>

definition plain :: "char \<Rightarrow> bool" where "plain c \<longleftrightarrow> 32 \<le> (of_char c :: nat)"

definition printable_string :: "string \<Rightarrow> bool" where
  "printable_string s \<longleftrightarrow> (\<forall>c\<in>set s. plain c \<or> c = CHR 0x0A \<or> c = CHR 0x0D)"

definition printable_name :: "string \<Rightarrow> bool" where
  "printable_name s \<longleftrightarrow> (\<forall>c\<in>set s. plain c \<and> c \<noteq> CHR 0x22 \<and> c \<noteq> CHR 0x5C)"

fun printable :: "json_body \<Rightarrow> bool" and printable_value :: "bool \<Rightarrow> json_value \<Rightarrow> bool" where
  \<comment> \<open>named members, unnamed elements, no floats, and strings without control characters other than line ends\<close>
  "printable (JSON_OBJECT vs) = (\<forall>v\<in>set vs. printable_value True v)"
| "printable (JSON_ARRAY vs) = (\<forall>v\<in>set vs. printable_value False v)"
| "printable (JSON_STRING s) = printable_string s"
| "printable (JSON_INT n) = is_int32 n"
| "printable (JSON_FLOAT x) = False"
| "printable _ = True"
| "printable_value obj (JValue n b) =
    ((case n of None \<Rightarrow> \<not> obj | Some s \<Rightarrow> obj \<and> printable_name s) \<and> printable b)"

definition esc :: "char \<Rightarrow> string" where
  "esc c = (if c = CHR 0x5C \<or> c = CHR 0x22 then [CHR 0x5C, c] else if c = CHR 0x0D then [CHR 0x5C, CHR ''r'']
    else if c = CHR 0x0A then [CHR 0x5C, CHR ''n''] else [c])"

lemma json_escape_Cons: "json_escape (c # s) = esc c @ json_escape s" "json_escape [] = []"
  by (auto simp: json_escape_def Replace_def esc_def Let_def)

lemma scan_escaped:
  "printable_string s \<Longrightarrow> scan_string first out (json_escape s @ CHR 0x22 # rest) = Inr (out @ s, rest)"
proof (induction s arbitrary: out)
  case Nil
  show ?case by (simp add: json_escape_Cons scan_string.simps(2))
next
  case (Cons c s)
  then have IH: "scan_string first out (json_escape s @ CHR 0x22 # rest) = Inr (out @ s, rest)" for out
    by (simp add: printable_string_def)
  have "c = CHR 0x0A \<or> c = CHR 0x0D \<or> 32 \<le> (of_char c :: nat)" using Cons.prems by (auto simp: printable_string_def plain_def)
  then show ?case by (auto simp: json_escape_Cons esc_def scan_string.simps(2) escape_char_def IH)
qed

lemma scan_name:
  "printable_name s \<Longrightarrow> scan_string first out (s @ CHR 0x22 # rest) = Inr (out @ s, rest)"
  by (induction s arbitrary: out) (auto simp: scan_string.simps(2) printable_name_def plain_def)

lemma cstr_id: "printable_string s \<or> printable_name s \<Longrightarrow> cstr s = s"
proof -
  have nul: "plain c \<or> c = CHR 0x0A \<or> c = CHR 0x0D \<Longrightarrow> c \<noteq> CHR 0x00" for c by (auto simp: plain_def)
  assume "printable_string s \<or> printable_name s"
  then have "\<forall>c\<in>set s. plain c \<or> c = CHR 0x0A \<or> c = CHR 0x0D" unfolding printable_string_def printable_name_def by blast
  then have "\<forall>c\<in>set s. c \<noteq> CHR 0x00" using nul by blast
  then show ?thesis unfolding cstr_def by (simp only: takeWhile_eq_all_conv)
qed

lemma wrap32_id: "is_int32 n \<Longrightarrow> wrap32 n = n"
  by (simp add: is_int32_def wrap32_def signed_take_bit_int_eq_self)

lemma wrap32_arith:
  "wrap32 (10 * wrap32 a + d) = wrap32 (10 * a + d)" "wrap32 (wrap32 a * d) = wrap32 (a * d)"
proof -
  have w: "wrap32 a = wrap32 b \<longleftrightarrow> a mod 2 ^ 32 = b mod 2 ^ 32" for a b
    unfolding wrap32_def signed_take_bit_eq_iff_take_bit_eq by (simp add: take_bit_eq_mod)
  have i: "wrap32 a mod 2 ^ 32 = a mod 2 ^ 32" for a
    using w [of "wrap32 a" a] wrap32_id [OF wrap32_range] by simp
  show "wrap32 (10 * wrap32 a + d) = wrap32 (10 * a + d)" "wrap32 (wrap32 a * d) = wrap32 (a * d)"
    unfolding w by (metis i mod_add_left_eq mod_mult_right_eq, metis i mod_mult_left_eq)
qed

lemma digit_char [simp]: "d < 10 \<Longrightarrow> IS_DIGIT (char_of (48 + d :: nat))" "d < 10 \<Longrightarrow> digit_val (char_of (48 + d :: nat)) = int d"
  by (simp_all add: IS_DIGIT_def digit_val_def)

lemma digits_format_nat: "c \<in> set (format_nat n) \<Longrightarrow> IS_DIGIT c"
proof (induction n rule: format_nat.induct)
  case (1 n)
  then show ?case by (auto simp: format_nat.simps [of n] split: if_splits)
qed

lemma int_digits_fold:
  "(\<And>c. c \<in> set s \<Longrightarrow> IS_DIGIT c) \<Longrightarrow> int_digits (wrap32 m) s = (wrap32 (foldl (\<lambda>a c. 10 * a + digit_val c) m s), [])"
  by (induction s arbitrary: m) (simp_all add: wrap32_arith)

lemma fold_format_nat: "foldl (\<lambda>a c. 10 * a + digit_val c) 0 (format_nat n) = int n"
proof (induction n rule: format_nat.induct)
  case (1 n)
  show ?case
  proof (cases "n < 10")
    case False
    then have "foldl (\<lambda>a c. 10 * a + digit_val c) 0 (format_nat n) = 10 * int (n div 10) + int (n mod 10)"
      using 1 by (simp add: format_nat.simps [of n])
    then show ?thesis by presburger
  qed (simp add: format_nat.simps [of n])
qed

lemma format_nat_first: "\<exists>c s. format_nat n = c # s \<and> IS_DIGIT c"
  using digits_format_nat [of _ n] by (cases "format_nat n") (auto simp: format_nat.simps [of n] split: if_splits)

lemma digit_not_sign: "IS_DIGIT c \<Longrightarrow> c \<noteq> CHR ''-'' \<and> c \<noteq> CHR ''+''"
  by (auto simp: IS_DIGIT_def)

lemma atoi_format_d:
  assumes "is_int32 n"
  shows "atoi (format_d n) = (n, [])"
proof -
  have d: "int_digits 0 (format_nat m) = (wrap32 (int m), [])" for m
    using int_digits_fold [of "format_nat m" 0] digits_format_nat fold_format_nat [of m] by (simp add: wrap32_id is_int32_def)
  obtain c s where "format_nat (nat n) = c # s" "IS_DIGIT c" using format_nat_first by blast
  then have "read_sign (format_nat (nat n)) = (1, format_nat (nat n))" by (simp add: read_sign_def digit_not_sign)
  moreover have "read_sign (CHR ''-'' # s) = (-1, s)" for s by (simp add: read_sign_def)
  ultimately show ?thesis
    using assms d wrap32_arith(2) [of "- n" "-1"] by (simp add: atoi_def format_d_def wrap32_id split: prod.split)
qed

lemma format_d_chars:
  "c \<in> set (format_d n) \<Longrightarrow> \<not> ends_number c \<and> c \<noteq> CHR ''.'' \<and> c \<noteq> CHR ''e'' \<and> c \<noteq> CHR ''E''"
  "\<exists>c s. format_d n = c # s \<and> (c = CHR ''-'' \<or> IS_DIGIT c)"
proof -
  have "IS_DIGIT c \<Longrightarrow> \<not> ends_number c \<and> c \<noteq> CHR ''.'' \<and> c \<noteq> CHR ''e'' \<and> c \<noteq> CHR ''E''" for c
    by (auto simp: IS_DIGIT_def ends_number_def is_ws_def)
  moreover have "\<not> ends_number (CHR ''-'')" by (simp add: ends_number_def is_ws_def)
  ultimately show "c \<in> set (format_d n) \<Longrightarrow> \<not> ends_number c \<and> c \<noteq> CHR ''.'' \<and> c \<noteq> CHR ''e'' \<and> c \<noteq> CHR ''E''"
    by (auto simp: format_d_def dest: digits_format_nat split: if_splits)
  show "\<exists>c s. format_d n = c # s \<and> (c = CHR ''-'' \<or> IS_DIGIT c)"
    using format_nat_first [of "nat n"] by (auto simp: format_d_def)
qed

text \<open>Each token of a printed value takes the loop one step on. \<open>after\<close> is the state behind a complete value.\<close>

definition after :: "json_body \<Rightarrow> string \<Rightarrow> json_state \<Rightarrow> json_state" where
  "after b rest S = S\<lparr>it := rest, stack := append_child (JValue (pending S) b) (stack S), pending := None\<rparr>"

definition stops :: "string \<Rightarrow> bool" where
  \<comment> \<open>the text after a value in printed text\<close>
  "stops s \<longleftrightarrow> (\<exists>c r. s = c # r \<and> c \<in> {CHR '','', CHR '']'', CHR ''}''})"

lemma loop_step:
  assumes "it S \<noteq> []" "json_token S = Next S'" "it S' = [] \<or> \<not> is_ws (hd (it S'))"
  shows "json_loop S = json_loop S'"
proof -
  have "skip_ws S' = S'" using assms(3) by (cases "it S'") (auto simp: skip_ws_def)
  then show ?thesis using assms(1,2) by (simp add: json_loop.simps [of S])
qed

lemma stops_not_ws: "stops s \<Longrightarrow> s \<noteq> [] \<and> \<not> is_ws (hd s) \<and> ends_number (hd s)"
  by (auto simp: stops_def is_ws_def ends_number_def)

lemma loop_value:
  assumes "json_token S = add_value b rest S" "it S \<noteq> []" "stops rest"
  shows "json_loop S = json_loop (after b rest S)"
  using loop_step [of S "after b rest S"] assms stops_not_ws [of rest] by (simp add: add_value_def after_def)

lemma token_string:
  assumes "it S = CHR 0x22 # s" "stack S \<noteq> []"
  shows "json_token S = string_token s S"
  using assms by (simp add: json_token_def)

lemma token_literal:
  assumes "it S = c # s" "c \<in> {CHR ''n'', CHR ''t'', CHR ''f''}" "stack S \<noteq> []"
  shows "json_token S = literal_token (c # s) S"
  using assms by (auto simp: json_token_def)

lemma number_start:
  assumes "c = CHR ''-'' \<or> IS_DIGIT c"
  shows "c \<noteq> CHR ''{''" "c \<noteq> CHR ''[''" "c \<noteq> CHR ''}''" "c \<noteq> CHR '']''" "c \<noteq> CHR '':''" "c \<noteq> CHR '',''"
    "c \<noteq> CHR 0x22" "c \<noteq> CHR ''n''" "c \<noteq> CHR ''t''" "c \<noteq> CHR ''f''"
  using assms by (auto simp: IS_DIGIT_def)

lemma token_number:
  assumes "it S = c # s" "c = CHR ''-'' \<or> IS_DIGIT c" "stack S \<noteq> []"
  shows "json_token S = number_token (c # s) S"
  unfolding json_token_def assms(1) Let_def list.sel using number_start [OF assms(2)] assms(2,3) by simp

lemma loop_scalars:
  assumes "stack S = f # fs" "f_object f \<longrightarrow> pending S \<noteq> None" "stops rest"
  shows "it S = ''null'' @ rest \<Longrightarrow> json_loop S = json_loop (after JSON_NULL rest S)"
    "it S = ''true'' @ rest \<Longrightarrow> json_loop S = json_loop (after (JSON_BOOL True) rest S)"
    "it S = ''false'' @ rest \<Longrightarrow> json_loop S = json_loop (after (JSON_BOOL False) rest S)"
    "printable_string s \<Longrightarrow> it S = CHR 0x22 # json_escape s @ CHR 0x22 # rest \<Longrightarrow> json_loop S = json_loop (after (JSON_STRING s) rest S)"
    "is_int32 n \<Longrightarrow> it S = format_d n @ rest \<Longrightarrow> json_loop S = json_loop (after (JSON_INT n) rest S)"
proof -
  show "it S = ''null'' @ rest \<Longrightarrow> json_loop S = json_loop (after JSON_NULL rest S)"
    "it S = ''true'' @ rest \<Longrightarrow> json_loop S = json_loop (after (JSON_BOOL True) rest S)"
    "it S = ''false'' @ rest \<Longrightarrow> json_loop S = json_loop (after (JSON_BOOL False) rest S)"
    using assms by (auto intro!: loop_value simp: token_literal literal_token_def)
  show "json_loop S = json_loop (after (JSON_STRING s) rest S)"
    if "printable_string s" "it S = CHR 0x22 # json_escape s @ CHR 0x22 # rest"
    using assms that by (intro loop_value) (auto simp: token_string string_token_def scan_escaped cstr_id)
  show "json_loop S = json_loop (after (JSON_INT n) rest S)" if n: "is_int32 n" "it S = format_d n @ rest"
  proof (rule loop_value)
    obtain c t where ct: "format_d n = c # t" "c = CHR ''-'' \<or> IS_DIGIT c" using format_d_chars(2) by blast
    have tok: "json_token S = number_token (format_d n @ rest) S" using token_number [of S c "t @ rest"] assms(1) n(2) ct by simp
    obtain r rs where r: "rest = r # rs" "ends_number r" using stops_not_ws [OF assms(3)] by (cases rest) auto
    have e: "CHR ''.'' \<notin> set (format_d n)" "CHR ''e'' \<notin> set (format_d n)" "CHR ''E'' \<notin> set (format_d n)"
      using format_d_chars(1) by blast+
    have sp: "takeWhile (\<lambda>c. \<not> ends_number c) (format_d n @ rest) = format_d n"
      "dropWhile (\<lambda>c. \<not> ends_number c) (format_d n @ rest) = rest"
      using format_d_chars(1) r by (simp_all add: takeWhile_append dropWhile_append3)
    show "json_token S = add_value (JSON_INT n) rest S"
      unfolding tok number_token_def Let_def sp using assms(1,2) e r(1) atoi_format_d [OF n(1)] by auto
  qed (use assms n format_d_chars(2) [of n] in auto)
qed

lemma not_ws [simp]:
  "\<not> is_ws (CHR ''n'')" "\<not> is_ws (CHR ''t'')" "\<not> is_ws (CHR ''f'')" "\<not> is_ws (CHR ''{'')" "\<not> is_ws (CHR ''['')"
  "\<not> is_ws (CHR ''}'')" "\<not> is_ws (CHR '']'')" "\<not> is_ws (CHR 0x22)" "\<not> is_ws (CHR '','')" "\<not> is_ws (CHR '':'')"
  by (simp_all add: is_ws_def)

lemma formatted_start:
  assumes "printable b" "json_format g b = Some t"
  shows "\<exists>c r. t = c # r \<and> \<not> is_ws c"
proof -
  have "t \<noteq> [] \<and> \<not> is_ws (hd t)"
  proof (cases b)
    case (JSON_INT n)
    obtain c r where c: "format_d n = c # r" using format_d_chars(2) by blast
    then have "\<not> ends_number c" using format_d_chars(1) [of c n] by simp
    then show ?thesis using assms(2) JSON_INT c by (auto simp: ends_number_def)
  next
    case (JSON_BOOL x)
    then show ?thesis using assms(2) by (cases x) auto
  qed (use assms in auto)
  then show ?thesis by (cases t) simp_all
qed

lemma formatted_lists_start:
  "(\<forall>v\<in>set vs. printable_value False v) \<Longrightarrow> format_elems g vs = Some ss \<Longrightarrow> ss \<noteq> [] \<Longrightarrow> \<exists>c r. hd ss = c # r \<and> \<not> is_ws c"
  "format_members g vs = Some ss \<Longrightarrow> ss \<noteq> [] \<Longrightarrow> \<exists>c r. hd ss = c # r \<and> \<not> is_ws c"
proof -
  show "\<exists>c r. hd ss = c # r \<and> \<not> is_ws c"
    if "\<forall>v\<in>set vs. printable_value False v" "format_elems g vs = Some ss" "ss \<noteq> []"
  proof (cases vs)
    case (Cons v ws)
    obtain n b where v: "v = JValue n b" by (cases v)
    have "printable b" using that(1) by (simp add: Cons v)
    then show ?thesis using that(2) formatted_start by (auto simp: Cons v split: option.splits)
  qed (use that in auto)
  show "\<exists>c r. hd ss = c # r \<and> \<not> is_ws c" if "format_members g vs = Some ss" "ss \<noteq> []"
  proof (cases vs)
    case (Cons v ws)
    obtain n b where "v = JValue n b" by (cases v)
    then show ?thesis using that by (cases n) (auto simp: Cons split: option.splits)
  qed (use that in auto)
qed

lemma format_lengths:
  "format_elems g vs = Some ss \<Longrightarrow> length ss = length vs" "format_members g vs = Some ss \<Longrightarrow> length ss = length vs"
proof -
  show "format_elems g vs = Some ss \<Longrightarrow> length ss = length vs"
  proof (induction vs arbitrary: ss)
    case (Cons v vs)
    then show ?case by (cases v) (auto split: option.splits)
  qed simp
  show "format_members g vs = Some ss \<Longrightarrow> length ss = length vs"
  proof (induction vs arbitrary: ss)
    case (Cons v vs)
    obtain n b where "v = JValue n b" by (cases v)
    then show ?case using Cons by (cases n) (auto split: option.splits)
  qed simp
qed

lemma commas_Cons: "commas (s # ss) = s @ (if ss = [] then [] else CHR '','' # commas ss)"
  by (cases ss) simp_all

lemma commas_start:
  assumes "ss \<noteq> [] \<Longrightarrow> \<exists>c r. hd ss = c # r \<and> \<not> is_ws c" "\<not> is_ws c"
  shows "\<exists>d r. commas ss @ c # rest = d # r \<and> \<not> is_ws d"
  using assms by (cases ss) (auto simp: commas_Cons)

definition with_children :: "json_value list \<Rightarrow> string \<Rightarrow> json_state \<Rightarrow> json_state" where
  \<comment> \<open>the state once the children have been added to the innermost open value\<close>
  "with_children vs text S =
    S\<lparr>it := text, stack := (hd (stack S))\<lparr>f_children := f_children (hd (stack S)) @ vs\<rparr> # tl (stack S), pending := None\<rparr>"

lemma loop_comma:
  assumes "it S = CHR '','' # s" "stack S \<noteq> []" "\<exists>d r. s = d # r \<and> \<not> is_ws d"
  shows "json_loop S = json_loop (S\<lparr>it := s\<rparr>)"
  using assms by (intro loop_step) (auto simp: json_token_def)

lemma loop_name:
  assumes "it S = CHR 0x22 # n @ CHR 0x22 # CHR '':'' # s" "stack S \<noteq> []" "f_object (hd (stack S))" "pending S = None"
    "printable_name n" "\<exists>d r. s = d # r \<and> \<not> is_ws d"
  shows "json_loop S = json_loop (S\<lparr>it := s, pending := Some n\<rparr>)"
proof -
  have "json_token S = Next (S\<lparr>it := CHR '':'' # s, pending := Some n\<rparr>)"
    using assms(1-5) by (simp add: token_string string_token_def scan_name cstr_id)
  then have "json_loop S = json_loop (S\<lparr>it := CHR '':'' # s, pending := Some n\<rparr>)" using assms(1) by (intro loop_step) auto
  moreover have "json_token (S\<lparr>it := CHR '':'' # s, pending := Some n\<rparr>) = Next (S\<lparr>it := s, pending := Some n\<rparr>)"
    using assms(2,3) by (simp add: json_token_def)
  then have "json_loop (S\<lparr>it := CHR '':'' # s, pending := Some n\<rparr>) = json_loop (S\<lparr>it := s, pending := Some n\<rparr>)"
    using assms(6) by (intro loop_step) auto
  ultimately show ?thesis by simp
qed

lemma loop_container:
  assumes "it S = (if obj then CHR ''{'' else CHR ''['') # inner @ (if obj then CHR ''}'' else CHR '']'') # rest"
    and "stack S \<noteq> []" "stops rest" "\<exists>d r. inner @ (if obj then CHR ''}'' else CHR '']'') # rest = d # r \<and> \<not> is_ws d"
    and inner: "\<And>S. it S = inner @ (if obj then CHR ''}'' else CHR '']'') # rest \<Longrightarrow> stack S \<noteq> [] \<Longrightarrow> f_object (hd (stack S)) = obj \<Longrightarrow>
      pending S = None \<Longrightarrow> json_loop S = json_loop (with_children vs ((if obj then CHR ''}'' else CHR '']'') # rest) S)"
  shows "json_loop S = json_loop (after (if obj then JSON_OBJECT vs else JSON_ARRAY vs) rest S)"
proof -
  let ?close = "if obj then CHR ''}'' else CHR '']''"
  let ?f = "\<lparr>f_name = pending S, f_object = obj, f_children = []\<rparr>"
  let ?S1 = "S\<lparr>it := inner @ ?close # rest, pending := None, stack := ?f # stack S\<rparr>"
  have "json_token S = Next ?S1" using assms(1,2) by (cases obj) (simp_all add: json_token_def open_token_def)
  then have "json_loop S = json_loop ?S1" using assms(1,4) by (intro loop_step) auto
  also have "\<dots> = json_loop (with_children vs (?close # rest) ?S1)" by (rule inner) simp_all
  also have "\<dots> = json_loop (after (if obj then JSON_OBJECT vs else JSON_ARRAY vs) rest S)"
  proof (rule loop_step)
    show "json_token (with_children vs (?close # rest) ?S1) = Next (after (if obj then JSON_OBJECT vs else JSON_ARRAY vs) rest S)"
      using assms(2) by (cases obj) (simp_all add: with_children_def json_token_def close_token_def after_def)
  qed (use stops_not_ws [OF assms(3)] in \<open>simp_all add: with_children_def after_def\<close>)
  finally show ?thesis .
qed

lemma loop_printed:
  "\<lbrakk>json_format g b = Some t; printable b; stack S = f # fs; f_object f \<longrightarrow> pending S \<noteq> None; stops rest; it S = t @ rest\<rbrakk> \<Longrightarrow>
    json_loop S = json_loop (after b rest S)"
  "\<lbrakk>format_elems g vs = Some ss; \<forall>v\<in>set vs. printable_value False v; stack S = f # fs; \<not> f_object f; pending S = None;
    it S = commas ss @ CHR '']'' # rest\<rbrakk> \<Longrightarrow> json_loop S = json_loop (with_children vs (CHR '']'' # rest) S)"
  "\<lbrakk>format_members g vs = Some ss; \<forall>v\<in>set vs. printable_value True v; stack S = f # fs; f_object f; pending S = None;
    it S = commas ss @ CHR ''}'' # rest\<rbrakk> \<Longrightarrow> json_loop S = json_loop (with_children vs (CHR ''}'' # rest) S)"
proof (induction g b and g vs and g vs arbitrary: t S f fs rest and ss S f fs rest and ss S f fs rest
    rule: json_format_format_elems_format_members.induct)
  case (1 g)
  then show ?case using loop_scalars(1) [of S f fs rest] by simp
next
  case (2 g vs)
  then obtain ss where ss: "format_members g vs = Some ss" "t = ''{'' @ commas ss @ ''}''" by auto
  have "json_loop S = json_loop (after (if True then JSON_OBJECT vs else JSON_ARRAY vs) rest S)"
  proof (rule loop_container)
    fix S' :: json_state assume "it S' = commas ss @ (if True then CHR ''}'' else CHR '']'') # rest" "stack S' \<noteq> []"
      "f_object (hd (stack S')) = True" "pending S' = None"
    then show "json_loop S' = json_loop (with_children vs ((if True then CHR ''}'' else CHR '']'') # rest) S')"
      using "2.IH" [OF ss(1)] "2.prems"(2) by (cases "stack S'") auto
  qed (use 2 ss commas_start [of ss "CHR ''}''" rest] formatted_lists_start(2) [OF ss(1)] in auto)
  then show ?case by simp
next
  case (3 g vs)
  then obtain ss where ss: "format_elems g vs = Some ss" "t = ''['' @ commas ss @ '']''" by auto
  have "json_loop S = json_loop (after (if False then JSON_OBJECT vs else JSON_ARRAY vs) rest S)"
  proof (rule loop_container)
    fix S' :: json_state assume "it S' = commas ss @ (if False then CHR ''}'' else CHR '']'') # rest" "stack S' \<noteq> []"
      "f_object (hd (stack S')) = False" "pending S' = None"
    then show "json_loop S' = json_loop (with_children vs ((if False then CHR ''}'' else CHR '']'') # rest) S')"
      using "3.IH" [OF ss(1)] "3.prems"(2) by (cases "stack S'") auto
  qed (use 3 ss commas_start [of ss "CHR '']''" rest] formatted_lists_start(1) [OF _ ss(1)] in auto)
  then show ?case by simp
next
  case (4 g s)
  then show ?case using loop_scalars(4) [of S f fs rest s] by auto
next
  case (5 g n)
  then show ?case using loop_scalars(5) [of S f fs rest n] by simp
next
  case (6 g x)
  then show ?case by simp
next
  case (7 g b)
  then show ?case using loop_scalars(2,3) [of S f fs rest] by (cases b) simp_all
next
  case (8 g)
  then have "with_children [] (CHR '']'' # rest) S = S" by (auto simp: with_children_def)
  then show ?case by simp
next
  case (9 g n b vs)
  then obtain s ss' where s: "json_format g b = Some s" "format_elems g vs = Some ss'" "ss = s # ss'" by (auto split: option.splits)
  let ?rest = "if ss' = [] then CHR '']'' # rest else CHR '','' # commas ss' @ CHR '']'' # rest"
  have n: "n = None" using "9.prems"(2) by (auto split: option.splits)
  have vs: "ss' = [] \<longleftrightarrow> vs = []" using format_lengths(1) [OF s(2)] by auto
  have "json_loop S = json_loop (after b ?rest S)"
    using "9.prems" s by (intro "9.IH"(1) [of s S f fs]) (auto simp: commas_Cons stops_def)
  also have "\<dots> = json_loop (with_children (JValue n b # vs) (CHR '']'' # rest) S)"
  proof (cases "vs = []")
    case True
    then show ?thesis using "9.prems" vs n by (simp add: after_def with_children_def append_child_def)
  next
    case False
    let ?S' = "(after b ?rest S)\<lparr>it := commas ss' @ CHR '']'' # rest\<rparr>"
    have "json_loop (after b ?rest S) = json_loop ?S'"
      using False vs "9.prems"(2,3) commas_start [of ss' "CHR '']''" rest] formatted_lists_start(1) [OF _ s(2)]
      by (intro loop_comma) (auto simp: after_def append_child_def)
    also have "\<dots> = json_loop (with_children vs (CHR '']'' # rest) ?S')"
      using "9.prems"(2-5) n
      by (intro "9.IH"(2) [OF s(1,2), where f = "f\<lparr>f_children := f_children f @ [JValue None b]\<rparr>" and fs = fs])
        (auto simp: after_def append_child_def)
    finally show ?thesis using "9.prems"(3,5) n by (simp add: after_def with_children_def append_child_def)
  qed
  finally show ?case .
next
  case (10 g)
  then have "with_children [] (CHR ''}'' # rest) S = S" by (auto simp: with_children_def)
  then show ?case by simp
next
  case (11 g b vs)
  then show ?case by simp
next
  case (12 g n b vs)
  then obtain s ss' where s: "json_format g b = Some s" "format_members g vs = Some ss'"
      "ss = ([CHR 0x22] @ n @ [CHR 0x22, CHR '':''] @ s) # ss'" by (auto split: option.splits)
  let ?rest = "if ss' = [] then CHR ''}'' # rest else CHR '','' # commas ss' @ CHR ''}'' # rest"
  have nb: "printable_name n" "printable b" using "12.prems"(2) by auto
  have vs: "ss' = [] \<longleftrightarrow> vs = []" using format_lengths(2) [OF s(2)] by auto
  let ?S1 = "S\<lparr>it := s @ ?rest, pending := Some n\<rparr>"
  have "json_loop S = json_loop ?S1"
    using "12.prems" s nb formatted_start [OF nb(2) s(1)] by (intro loop_name) (auto simp: commas_Cons)
  also have "\<dots> = json_loop (after b ?rest ?S1)"
    using "12.prems" s nb by (intro "12.IH"(1) [of s ?S1 f fs]) (auto simp: stops_def)
  also have "\<dots> = json_loop (with_children (JValue (Some n) b # vs) (CHR ''}'' # rest) S)"
  proof (cases "vs = []")
    case True
    then show ?thesis using "12.prems" vs by (simp add: after_def with_children_def append_child_def)
  next
    case False
    let ?S' = "(after b ?rest ?S1)\<lparr>it := commas ss' @ CHR ''}'' # rest\<rparr>"
    have "json_loop (after b ?rest ?S1) = json_loop ?S'"
      using False vs "12.prems"(2,3) commas_start [of ss' "CHR ''}''" rest] formatted_lists_start(2) [OF s(2)]
      by (intro loop_comma) (auto simp: after_def append_child_def)
    also have "\<dots> = json_loop (with_children vs (CHR ''}'' # rest) ?S')"
      using "12.prems"(2-5)
      by (intro "12.IH"(2) [OF s(1,2), where f = "f\<lparr>f_children := f_children f @ [JValue (Some n) b]\<rparr>" and fs = fs])
        (auto simp: after_def append_child_def)
    finally show ?thesis using "12.prems"(3,5) by (simp add: after_def with_children_def append_child_def)
  qed
  finally show ?case .
qed

lemma printable_formats:
  "printable b \<Longrightarrow> \<exists>t. json_format g b = Some t" "\<forall>v\<in>set vs. printable_value False v \<Longrightarrow> \<exists>ss. format_elems g vs = Some ss"
  "\<forall>v\<in>set vs. printable_value True v \<Longrightarrow> \<exists>ss. format_members g vs = Some ss"
  by (induction g b and g vs and g vs rule: json_format_format_elems_format_members.induct) auto

text \<open>C25: Printing an object or array with \<open>json_format\<close> and parsing the text gives the value back, whatever the
  nesting: for unnamed elements, named members whose names need no escapes, 32-bit integers, and strings of characters
  from the blank upwards and line ends. Floats are left out, as six digits do not determine them.\<close>
theorem json_roundtrip:
  assumes "is_container b" "printable b"
  shows "\<exists>t. json_format fmt_g b = Some t \<and> json_parse t = Parsed (JValue None b)"
proof -
  obtain t where t: "json_format fmt_g b = Some t" using printable_formats(1) [OF assms(2)] by blast
  obtain obj vs ss where b: "b = (if obj then JSON_OBJECT vs else JSON_ARRAY vs)"
      "(if obj then format_members fmt_g vs else format_elems fmt_g vs) = Some ss"
      "t = (if obj then CHR ''{'' else CHR ''['') # commas ss @ [if obj then CHR ''}'' else CHR '']'']"
  proof (cases b)
    case (JSON_OBJECT vs)
    then show ?thesis using t that [of True vs] by auto
  next
    case (JSON_ARRAY vs)
    then show ?thesis using t that [of False vs] by auto
  qed (use assms(1) in simp_all)
  have vs: "\<forall>v\<in>set vs. printable_value obj v" using assms(2) b(1) by (cases obj) simp_all
  let ?close = "if obj then CHR ''}'' else CHR '']''"
  let ?S = "\<lparr>it = t, pending = None, stack = [], root = None\<rparr>"
  let ?S1 = "\<lparr>it = commas ss @ [?close], pending = None, stack = [\<lparr>f_name = None, f_object = obj, f_children = []\<rparr>], root = None\<rparr>"
  have start: "\<exists>d r. commas ss @ [?close] = d # r \<and> \<not> is_ws d"
    using commas_start [of ss ?close "[]"] formatted_lists_start(1) [of vs fmt_g ss] formatted_lists_start(2) [of fmt_g vs ss] vs b(2) by (cases obj) auto
  have "skip_ws ?S = ?S" using b(3) by (cases obj) (simp_all add: skip_ws_def)
  then have "json_parse t = json_loop ?S" by (simp add: json_parse_def)
  also have "\<dots> = json_loop ?S1"
    using start b(3) by (intro loop_step) (cases obj; auto simp: json_token_def open_token_def)+
  also have "\<dots> = json_loop (with_children vs [?close] ?S1)"
    using loop_printed(2) [of fmt_g vs ss ?S1 _ "[]" "[]"] loop_printed(3) [of fmt_g vs ss ?S1 _ "[]" "[]"] vs b(2) by (cases obj) simp_all
  also have "\<dots> = json_loop \<lparr>it = [], pending = None, stack = [], root = Some (JValue None b)\<rparr>"
    using b(1) by (intro loop_step) (cases obj; simp add: with_children_def json_token_def close_token_def)+
  also have "\<dots> = Parsed (JValue None b)" by (simp add: json_loop.simps)
  finally show ?thesis using t by blast
qed

theorem json_roundtrip_witness:
  "\<exists>t. json_format (\<lambda>_. []) (JSON_OBJECT [JValue (Some ''id'') (JSON_INT (-7)), JValue (Some ''params'') (JSON_ARRAY [JValue None (JSON_STRING [CHR 0x22, CHR 0x0A])])])
      = Some t \<and> json_parse t = Parsed (JValue None
      (JSON_OBJECT [JValue (Some ''id'') (JSON_INT (-7)), JValue (Some ''params'') (JSON_ARRAY [JValue None (JSON_STRING [CHR 0x22, CHR 0x0A])])]))"
  by (rule json_roundtrip) (auto simp: printable_name_def printable_string_def plain_def is_int32_def)

text \<open>Three findings. A number that ends the text sends the scan beyond the NUL; a member that is an object needs no name,
  and printing it dereferences a null pointer; a name is printed without escapes, so that of the second text is lost.\<close>

lemma number_at_end_overruns: "json_parse ''[1'' = Overrun"
  by code_simp

lemma nameless_member:
  "json_parse ''{{}}'' = Parsed (JValue None (JSON_OBJECT [JValue None (JSON_OBJECT [])]))"
  "json_format g (JSON_OBJECT [JValue None (JSON_OBJECT [])]) = None"
  by code_simp simp

lemma name_not_escaped:
  "json_format g (JSON_OBJECT [JValue (Some [CHR 0x22]) (JSON_BOOL True)]) = Some ([CHR ''{'', CHR 0x22, CHR 0x22, CHR 0x22] @ '':true}'')"
  "\<exists>d p. json_parse ([CHR ''{'', CHR 0x22, CHR 0x22, CHR 0x22] @ '':true}'') = ParseError d p"
proof -
  have "json_parse ([CHR ''{'', CHR 0x22, CHR 0x22, CHR 0x22] @ '':true}'') =
      ParseError ''Not all objects/arrays have been properly closed'' []"
    by code_simp
  then show "\<exists>d p. json_parse ([CHR ''{'', CHR 0x22, CHR 0x22, CHR 0x22] @ '':true}'') = ParseError d p" by blast
qed simp

end
