(* ===== verification/StepGuider.thy ===== *)
theory StepGuider
  imports Scope
begin

unbundle bit_operations_syntax

text \<open>
  \<open>StepGuider\<close> of \<open>src/src/ao/stepguider.cpp\<close>: an adaptive optics unit as a mount that moves by steps. Its position and travel
  limits, the calibration over the full travel, one definition per case of the switch, and the bumps that make the
  telescope's mount follow when the unit leaves the middle of its travel. The device is a table of the virtual functions.
\<close>

subsection \<open>State\<close>

datatype ao_cal_state = AO_CLEARED | AO_GOTO_LOWER_RIGHT_CORNER | AO_AVERAGE_STARTING_LOCATION | AO_GO_LEFT
  | AO_AVERAGE_CENTER_LOCATION | AO_GO_UP | AO_AVERAGE_ENDING_LOCATION | AO_RECENTER | AO_COMPLETE

datatype step_result = STEP_OK | STEP_LIMIT_REACHED | STEP_ERROR

datatype ao_event =
    AoStep guide_direction int \<comment> \<open>a step the device has done\<close>
  | AoScheduleMove guide_direction int u32
  | AoCalibrationStep string int real real sodium_point real
  | AoDirectComplete string real real
  | AoSaveDetails calibration_details
  | AoProfileWrite cfg_write
  | AoCalibrationComplete
  | AoAlertNotMoving
  | AoAlertSlowBump
  | AoBump sodium_point \<comment> \<open>\<open>ScheduleSecondaryMove\<close>, in camera coordinates\<close>

record stepguider = mount +
  ao_samplesToAverage :: int
  ao_bumpPercentage :: int
  ao_bumpMaxStepsPerCycle :: real
  ao_bumpOnDither :: bool
  ao_xBumpPos1 :: int
  ao_xBumpPos2 :: int
  ao_yBumpPos1 :: int
  ao_yBumpPos2 :: int
  ao_bumpCenterTolerance :: int
  ao_xOffset :: int
  ao_yOffset :: int
  ao_avgOffset :: sodium_point
  ao_forceStartBump :: bool
  ao_bumpInProgress :: bool
  ao_bumpTimeoutAlertSent :: bool
  ao_bumpStartTime :: int
  ao_bumpStepWeight :: real
  ao_failedStep :: "int \<times> int \<times> int \<times> int"
  ao_calibrationStepsPerIteration :: int
  ao_calibrationIterations :: int
  ao_calibrationStartingLocation :: sodium_point
  ao_calibrationAverageSamples :: int
  ao_calibrationAveragedLocation :: sodium_point
  ao_calibration :: calibration
  ao_calibrationDetails :: calibration_details
  ao_calibrationState :: ao_cal_state
  ao_lastLimited :: bool \<comment> \<open>\<open>raLimited\<close> or \<open>decLimited\<close> of \<open>m_lastStep\<close>\<close>
  ao_trace :: "ao_event list" \<comment> \<open>what was sent out, oldest first\<close>

record ao_device =
  MaxPosition :: "guide_direction \<Rightarrow> int"
  Step :: "guide_direction \<Rightarrow> int \<Rightarrow> step_result"
  Center :: "stepguider \<Rightarrow> stepguider \<times> bool"

definition ao_emit :: "ao_event list \<Rightarrow> stepguider \<Rightarrow> stepguider" where
  "ao_emit evs a = a\<lparr>ao_trace := ao_trace a @ evs\<rparr>"

subsection \<open>Settings\<close>

definition IntegerPercent :: "int \<Rightarrow> int \<Rightarrow> int" where
  "IntegerPercent percentage number = (percentage * number) sdiv 100"

definition InitBumpPositions :: "ao_device \<Rightarrow> stepguider \<Rightarrow> stepguider" where
  "InitBumpPositions dev a =
    (let limit2Pct = (100 + ao_bumpPercentage a) sdiv 2
     in a\<lparr>ao_xBumpPos1 := IntegerPercent (ao_bumpPercentage a) (MaxPosition dev WEST),
          ao_xBumpPos2 := IntegerPercent limit2Pct (MaxPosition dev WEST),
          ao_yBumpPos1 := IntegerPercent (ao_bumpPercentage a) (MaxPosition dev NORTH),
          ao_yBumpPos2 := IntegerPercent limit2Pct (MaxPosition dev NORTH),
          ao_bumpCenterTolerance := IntegerPercent 10 (2 * MaxPosition dev NORTH)\<rparr>)"

definition SetSamplesToAverage :: "int \<Rightarrow> stepguider \<Rightarrow> stepguider \<times> bool" where
  "SetSamplesToAverage n a =
    (let a = a\<lparr>ao_samplesToAverage := (if n \<le> 0 then 3 else n)\<rparr>
     in (ao_emit [AoProfileWrite (SetInt ''/stepguider/SamplesToAverage'' (ao_samplesToAverage a))] a, n \<le> 0))"

definition SetBumpPercentage :: "ao_device \<Rightarrow> int \<Rightarrow> bool \<Rightarrow> stepguider \<Rightarrow> stepguider \<times> bool" where
  "SetBumpPercentage dev n updateGraph a =
    (let a = a\<lparr>ao_bumpPercentage := (if n \<le> 0 then 80 else n)\<rparr>;
         a = ao_emit [AoProfileWrite (SetInt ''/stepguider/BumpPercentage'' (ao_bumpPercentage a))] a
     in (if updateGraph then InitBumpPositions dev a else a, n \<le> 0))"

definition SetBumpMaxStepsPerCycle :: "real \<Rightarrow> stepguider \<Rightarrow> stepguider \<times> bool" where
  "SetBumpMaxStepsPerCycle v a =
    (let a = a\<lparr>ao_bumpMaxStepsPerCycle := (if v \<le> 0 then 1 else v)\<rparr>
     in (ao_emit [AoProfileWrite (SetDouble ''/stepguider/BumpMaxStepsPerCycle'' (ao_bumpMaxStepsPerCycle a))] a, v \<le> 0))"

definition SetBumpOnDither :: "bool \<Rightarrow> stepguider \<Rightarrow> stepguider" where
  "SetBumpOnDither val a = ao_emit [AoProfileWrite (SetBoolean ''/stepguider/BumpOnDither'' val)] (a\<lparr>ao_bumpOnDither := val\<rparr>)"

definition SetCalibrationStepsPerIteration :: "int \<Rightarrow> stepguider \<Rightarrow> stepguider \<times> bool" where
  "SetCalibrationStepsPerIteration n a =
    (let a = a\<lparr>ao_calibrationStepsPerIteration := (if n \<le> 0 then 4 else n)\<rparr>
     in (ao_emit [AoProfileWrite (SetInt ''/stepguider/CalibrationStepsPerIteration'' (ao_calibrationStepsPerIteration a))] a, n \<le> 0))"

definition StepGuider_new :: "ao_device \<Rightarrow> profile \<Rightarrow> stepguider \<Rightarrow> stepguider" where
  \<comment> \<open>the constructor, over the fields \<open>Mount\<close> has set; the guide algorithms are set by \<open>Mount\<close>\<close>
  "StepGuider_new dev p a =
    (let a = a\<lparr>ao_xOffset := 0, ao_yOffset := 0, ao_forceStartBump := False, ao_bumpInProgress := False,
               ao_bumpTimeoutAlertSent := False, ao_bumpStepWeight := 1\<rparr>;
         a = fst (SetSamplesToAverage (GetInt p ''/stepguider/SamplesToAverage'' 3) a);
         a = fst (SetBumpPercentage dev (GetInt p ''/stepguider/BumpPercentage'' 80) False a);
         a = fst (SetBumpMaxStepsPerCycle (GetDouble p ''/stepguider/BumpMaxStepsPerCycle'' 1) a);
         a = fst (SetCalibrationStepsPerIteration (GetInt p ''/stepguider/CalibrationStepsPerIteration'' 4) a)
     in a\<lparr>ao_bumpOnDither := GetBoolean p ''/stepguider/BumpOnDither'' True\<rparr>)"

definition ForceStartBump :: "stepguider \<Rightarrow> stepguider" where "ForceStartBump a = a\<lparr>ao_forceStartBump := True\<rparr>"

definition ao_Connect :: "ao_device \<Rightarrow> stepguider \<Rightarrow> stepguider" where
  \<comment> \<open>\<open>Mount::Connect\<close> does not fail\<close>
  "ao_Connect dev a = InitBumpPositions dev (a\<lparr>m_connected := True, m_errorCount := 0\<rparr>)"

definition ao_Disconnect :: "stepguider \<Rightarrow> stepguider" where "ao_Disconnect a = a\<lparr>m_connected := False\<rparr>"

subsection \<open>Position and moves\<close>

definition ZeroCurrentPosition :: "stepguider \<Rightarrow> stepguider" where
  "ZeroCurrentPosition a = a\<lparr>ao_xOffset := 0, ao_yOffset := 0\<rparr>"

fun ao_Position :: "guide_direction \<Rightarrow> stepguider \<Rightarrow> int" where
  \<comment> \<open>\<open>StepGuider::CurrentPosition\<close>\<close>
  "ao_Position NORTH a = ao_yOffset a" | "ao_Position SOUTH a = - ao_yOffset a"
| "ao_Position EAST a = ao_xOffset a" | "ao_Position WEST a = - ao_xOffset a"
| "ao_Position NONE a = 0"

definition IsAtLimit :: "ao_device \<Rightarrow> guide_direction \<Rightarrow> stepguider \<Rightarrow> bool" where
  "IsAtLimit dev d a \<longleftrightarrow> ao_Position d a = MaxPosition dev d - 1"

definition WouldHitLimit :: "ao_device \<Rightarrow> guide_direction \<Rightarrow> int \<Rightarrow> stepguider \<Rightarrow> bool" where
  "WouldHitLimit dev d steps a \<longleftrightarrow> ao_Position d a + steps \<ge> MaxPosition dev d"

fun axis_delta :: "guide_direction \<Rightarrow> (int \<times> int) option" where
  \<comment> \<open>\<open>xDirection\<close> and \<open>yDirection\<close>\<close>
  "axis_delta NORTH = Some (0, 1)" | "axis_delta SOUTH = Some (0, -1)"
| "axis_delta EAST = Some (1, 0)" | "axis_delta WEST = Some (-1, 0)" | "axis_delta NONE = None"

definition do_step :: "ao_device \<Rightarrow> guide_direction \<Rightarrow> int \<times> int \<Rightarrow> int \<Rightarrow> stepguider \<Rightarrow> stepguider \<times> move_result \<times> int" where
  \<comment> \<open>the step on the device, and how many steps were taken\<close>
  "do_step dev d dir steps a =
    (if steps > 0 then
       (case Step dev d steps of
          STEP_OK \<Rightarrow> (ao_emit [AoStep d steps] (a\<lparr>ao_xOffset := ao_xOffset a + fst dir * steps, ao_yOffset := ao_yOffset a + snd dir * steps\<rparr>),
                      MOVE_OK, steps)
        | STEP_LIMIT_REACHED \<Rightarrow>
            (fst (Center dev (a\<lparr>ao_failedStep := (ao_xOffset a, ao_yOffset a, fst dir * steps, snd dir * steps)\<rparr>)),
             MOVE_ERROR_AO_LIMIT_REACHED, 0)
        | STEP_ERROR \<Rightarrow> (a, MOVE_ERROR, 0))
     else (a, MOVE_OK, steps))"

definition ao_MoveAxis :: "ao_device \<Rightarrow> guide_direction \<Rightarrow> int \<Rightarrow> u32 \<Rightarrow> stepguider \<Rightarrow> stepguider \<times> move_result \<times> move_result_info" where
  "ao_MoveAxis dev d steps opts a =
    (if \<not> m_guidingEnabled a \<and> opts AND MOVEOPT_MANUAL = 0 then (a, MOVE_ERROR, \<lparr>amountMoved = 0, limited = False\<rparr>)
     else if steps > 0 then
       (case axis_delta d of
          None \<Rightarrow> (a, MOVE_ERROR, \<lparr>amountMoved = 0, limited = False\<rparr>)
        | Some dir \<Rightarrow>
            let limitReached = WouldHitLimit dev d steps a;
                steps = (if limitReached then MaxPosition dev d - 1 - ao_Position d a else steps)
            in case do_step dev d dir steps a of (a, r, n) \<Rightarrow> (a, r, \<lparr>amountMoved = n, limited = limitReached\<rparr>))
     else (a, MOVE_OK, \<lparr>amountMoved = steps, limited = False\<rparr>))"

definition ao_MoveAxis3 :: "ao_device \<Rightarrow> guide_direction \<Rightarrow> int \<Rightarrow> u32 \<Rightarrow> stepguider \<Rightarrow> stepguider \<times> move_result" where
  \<comment> \<open>the overload without a result record: a move cut short is an error\<close>
  "ao_MoveAxis3 dev d steps opts a =
    (case ao_MoveAxis dev d steps opts a of (a, r, i) \<Rightarrow> (a, if amountMoved i \<noteq> steps \<and> r = MOVE_OK then MOVE_ERROR else r))"

definition center_axis :: "ao_device \<Rightarrow> guide_direction \<Rightarrow> guide_direction \<Rightarrow> stepguider \<Rightarrow> stepguider \<times> bool" where
  \<comment> \<open>one axis back to 0: its positive and its negative direction\<close>
  "center_axis dev pos neg a =
    (let p = ao_Position pos a
     in if p > 0 then case ao_MoveAxis dev neg p MOVEOPTS_CALIBRATION_MOVE a of (a, r, i) \<Rightarrow> (a, amountMoved i \<noteq> p)
        else if p < 0 then case ao_MoveAxis dev pos (- p) MOVEOPTS_CALIBRATION_MOVE a of (a, r, i) \<Rightarrow> (a, amountMoved i \<noteq> - p)
        else (a, False))"

definition MoveToCenter :: "ao_device \<Rightarrow> stepguider \<Rightarrow> stepguider \<times> bool" where
  "MoveToCenter dev a =
    (case center_axis dev NORTH SOUTH a of (a, err) \<Rightarrow> if err then (a, True) else center_axis dev WEST EAST a)"

subsection \<open>Calibration\<close>

record ao_env =
  ae_rotator :: real
  ae_binning :: "16 word"
  ae_focalLength :: int
  ae_pixelScale :: real
  ae_stamp :: string \<comment> \<open>the formatted current time\<close>

definition ao_ClearCalibration :: "stepguider \<Rightarrow> stepguider" where
  "ao_ClearCalibration a = (mount_ClearCalibration a)\<lparr>ao_calibrationState := AO_CLEARED\<rparr>"

definition ao_BeginCalibration :: "sodium_point \<Rightarrow> stepguider \<Rightarrow> stepguider \<times> bool" where
  "ao_BeginCalibration loc a =
    (if \<not> m_connected a then (a, True)
     else if \<not> m_valid loc then (a, True)
     else ((ao_ClearCalibration a)\<lparr>ao_calibrationState := AO_GOTO_LOWER_RIGHT_CORNER,
             ao_calibrationStartingLocation := Invalidate (ao_calibrationStartingLocation a),
             ao_calibrationDetails := (ao_calibrationDetails a)\<lparr>raSteps := [], decSteps := [], lastIssue := CI_None\<rparr>\<rparr>, False))"

definition ao_SetCalibration :: "string \<Rightarrow> calibration \<Rightarrow> stepguider \<Rightarrow> stepguider" where
  "ao_SetCalibration stamp cal a =
    (case mount_SetCalibration ''stepguider'' stamp cal (a\<lparr>ao_calibration := cal\<rparr>) of (a, ws) \<Rightarrow> ao_emit (map AoProfileWrite ws) a)"

definition ao_SetCalibrationDetails :: "ao_env \<Rightarrow> calibration_details \<Rightarrow> real \<Rightarrow> real \<Rightarrow> real \<Rightarrow> stepguider \<Rightarrow> stepguider" where
  "ao_SetCalibrationDetails e det xA yA bin a =
    (let det = det\<lparr>raGuideSpeed := -1, decGuideSpeed := -1, focalLength := ae_focalLength e, imageScale := ae_pixelScale e,
                   orthoError := degrees \<bar>\<bar>norm_angle (xA - yA)\<bar> - pi / 2\<bar>,
                   raStepCount := int (length (raSteps det)), decStepCount := int (length (decSteps det)),
                   origBinning := bin, origTimestamp := ae_stamp e\<rparr>
     in ao_emit [AoSaveDetails det] (a\<lparr>ao_calibrationDetails := det\<rparr>))"

definition steps_remaining :: "ao_device \<Rightarrow> guide_direction \<Rightarrow> stepguider \<Rightarrow> int" where
  "steps_remaining dev d a = MaxPosition dev d - 1 - ao_Position d a"

definition iter_remaining :: "ao_device \<Rightarrow> guide_direction \<Rightarrow> stepguider \<Rightarrow> int" where
  "iter_remaining dev d a = DIV_ROUND_UP (steps_remaining dev d a) (ao_calibrationStepsPerIteration a)"

text \<open>The cases of the switch, the last one first: each falls through to the one before it. The result is the new state and the
  directions to move in; \<^term>\<open>None\<close>: a rate is not a number, the unit having no room to move.\<close>

definition ao_complete :: "ao_env \<Rightarrow> stepguider \<Rightarrow> (stepguider \<times> guide_direction list) option" where
  "ao_complete e a =
    (let cal = (ao_calibration a)\<lparr>declination := UNKNOWN_DECLINATION, pierSide := PIER_SIDE_UNKNOWN,
                  raGuideParity := GUIDE_PARITY_UNKNOWN, decGuideParity := GUIDE_PARITY_UNKNOWN,
                  rotatorAngle := ae_rotator e, binning := ae_binning e\<rparr>;
         a = ao_SetCalibration (ae_stamp e) cal a;
         a = ao_SetCalibrationDetails e (ao_calibrationDetails a) (xAngle cal) (yAngle cal) (of_nat (unat (ae_binning e))) a
     in Some (ao_emit [AoCalibrationComplete] a, []))"

definition ao_recenter :: "ao_env \<Rightarrow> stepguider \<Rightarrow> (stepguider \<times> guide_direction list) option" where
  "ao_recenter e a =
    (let moveRight = ao_Position WEST a \<ge> ao_calibrationStepsPerIteration a;
         moveDown = ao_Position NORTH a \<ge> ao_calibrationStepsPerIteration a
     in if moveRight \<or> moveDown then Some (a, (if moveDown then [SOUTH] else []) @ (if moveRight then [EAST] else []))
        else ao_complete e (a\<lparr>ao_calibrationState := AO_COMPLETE\<rparr>))"

definition ao_sample :: "sodium_point \<Rightarrow> stepguider \<Rightarrow> stepguider" where
  \<comment> \<open>one more sample of the star's position\<close>
  "ao_sample loc a =
    a\<lparr>ao_calibrationAverageSamples := ao_calibrationAverageSamples a + 1,
      ao_calibrationAveragedLocation := (ao_calibrationAveragedLocation a)
        \<lparr>X := X (ao_calibrationAveragedLocation a) + X loc, Y := Y (ao_calibrationAveragedLocation a) + Y loc\<rparr>\<rparr>"

definition ao_average :: "stepguider \<Rightarrow> sodium_point" where
  "ao_average a = (ao_calibrationAveragedLocation a)
     \<lparr>X := X (ao_calibrationAveragedLocation a) / of_int (ao_calibrationAverageSamples a),
      Y := Y (ao_calibrationAveragedLocation a) / of_int (ao_calibrationAverageSamples a)\<rparr>"

definition start_average :: "ao_cal_state \<Rightarrow> stepguider \<Rightarrow> stepguider" where
  "start_average st a = a\<lparr>ao_calibrationAverageSamples := 0,
     ao_calibrationAveragedLocation := SetXY 0 0 (ao_calibrationAveragedLocation a), ao_calibrationState := st\<rparr>"

definition ao_average_ending :: "ao_device \<Rightarrow> ao_env \<Rightarrow> sodium_point \<Rightarrow> stepguider \<Rightarrow> (stepguider \<times> guide_direction list) option" where
  "ao_average_ending dev e loc a =
    (let a = ao_sample loc a
     in if ao_calibrationAverageSamples a < ao_samplesToAverage a then Some (a, [])
        else
          let p = ao_average a; start = ao_calibrationStartingLocation a
          in case fdiv (Distance start p) (of_int (MaxPosition dev NORTH - 1 + (MaxPosition dev SOUTH - 1))) of None \<Rightarrow> None
             | Some rate \<Rightarrow>
                 let a = a\<lparr>ao_calibrationAveragedLocation := p, ao_calibration := (ao_calibration a)\<lparr>yAngle := Angle p start, yRate := rate\<rparr>\<rparr>;
                     a = ao_emit [AoDirectComplete ''Up'' (Angle p start) rate] a
                 in ao_recenter e (a\<lparr>ao_calibrationStartingLocation := p, ao_calibrationState := AO_RECENTER\<rparr>))"

definition add_upStep :: "real \<Rightarrow> real \<Rightarrow> stepguider \<Rightarrow> stepguider" where
  "add_upStep dx dy a = a\<lparr>ao_calibrationDetails := (ao_calibrationDetails a)\<lparr>decSteps := decSteps (ao_calibrationDetails a) @ [(dx, dy)]\<rparr>\<rparr>"

definition add_leftStep :: "real \<Rightarrow> real \<Rightarrow> stepguider \<Rightarrow> stepguider" where
  "add_leftStep dx dy a = a\<lparr>ao_calibrationDetails := (ao_calibrationDetails a)\<lparr>raSteps := raSteps (ao_calibrationDetails a) @ [(dx, dy)]\<rparr>\<rparr>"

definition ao_go_up :: "ao_device \<Rightarrow> ao_env \<Rightarrow> sodium_point \<Rightarrow> stepguider \<Rightarrow> (stepguider \<times> guide_direction list) option" where
  "ao_go_up dev e loc a =
    (if steps_remaining dev NORTH a > 0
     then
       let dx = dX (ao_calibrationStartingLocation a) loc; dy = dY (ao_calibrationStartingLocation a) loc;
           a = a\<lparr>ao_calibrationIterations := ao_calibrationIterations a + 1\<rparr>;
           a = ao_emit [AoCalibrationStep ''Up'' (iter_remaining dev NORTH a) dx dy loc (Distance (ao_calibrationStartingLocation a) loc)] a
       in Some (add_upStep dx dy a, [NORTH])
     else ao_average_ending dev e loc (start_average AO_AVERAGE_ENDING_LOCATION a))"

definition ao_average_center :: "ao_device \<Rightarrow> ao_env \<Rightarrow> sodium_point \<Rightarrow> stepguider \<Rightarrow> (stepguider \<times> guide_direction list) option" where
  "ao_average_center dev e loc a =
    (let a = ao_sample loc a
     in if ao_calibrationAverageSamples a < ao_samplesToAverage a then Some (a, [])
        else
          let p = ao_average a; start = ao_calibrationStartingLocation a
          in case fdiv (Distance start p) (of_int (MaxPosition dev WEST - 1 + (MaxPosition dev EAST - 1))) of None \<Rightarrow> None
             | Some rate \<Rightarrow>
                 let a = a\<lparr>ao_calibrationAveragedLocation := p, ao_calibration := (ao_calibration a)\<lparr>xAngle := Angle start p, xRate := rate\<rparr>\<rparr>;
                     a = ao_emit [AoDirectComplete ''Left'' (Angle start p) rate] a
                 in ao_go_up dev e loc (a\<lparr>ao_calibrationStartingLocation := p, ao_calibrationIterations := 0, ao_calibrationState := AO_GO_UP\<rparr>))"

definition ao_go_left :: "ao_device \<Rightarrow> ao_env \<Rightarrow> sodium_point \<Rightarrow> stepguider \<Rightarrow> (stepguider \<times> guide_direction list) option" where
  "ao_go_left dev e loc a =
    (if steps_remaining dev WEST a > 0
     then
       let dx = dX (ao_calibrationStartingLocation a) loc; dy = dY (ao_calibrationStartingLocation a) loc;
           a = a\<lparr>ao_calibrationIterations := ao_calibrationIterations a + 1\<rparr>;
           a = ao_emit [AoCalibrationStep ''Left'' (iter_remaining dev WEST a) dx dy loc (Distance (ao_calibrationStartingLocation a) loc)] a
       in Some (add_leftStep dx dy a, [WEST])
     else ao_average_center dev e loc (start_average AO_AVERAGE_CENTER_LOCATION a))"

definition ao_average_starting :: "ao_device \<Rightarrow> ao_env \<Rightarrow> sodium_point \<Rightarrow> stepguider \<Rightarrow> (stepguider \<times> guide_direction list) option" where
  "ao_average_starting dev e loc a =
    (let a = ao_sample loc a
     in if ao_calibrationAverageSamples a < ao_samplesToAverage a then Some (a, [])
        else
          let p = ao_average a
          in ao_go_left dev e loc (a\<lparr>ao_calibrationAveragedLocation := p, ao_calibrationStartingLocation := p,
               ao_calibrationIterations := 0, ao_calibrationState := AO_GO_LEFT\<rparr>))"

definition ao_goto_corner :: "ao_device \<Rightarrow> ao_env \<Rightarrow> sodium_point \<Rightarrow> stepguider \<Rightarrow> (stepguider \<times> guide_direction list) option" where
  "ao_goto_corner dev e loc a =
    (if max (iter_remaining dev SOUTH a) (iter_remaining dev EAST a) > 0
     then Some (a, (if steps_remaining dev SOUTH a > 0 then [SOUTH] else []) @ (if steps_remaining dev EAST a > 0 then [EAST] else []))
     else ao_average_starting dev e loc (start_average AO_AVERAGE_STARTING_LOCATION a))"

definition ao_switch :: "ao_device \<Rightarrow> ao_env \<Rightarrow> sodium_point \<Rightarrow> stepguider \<Rightarrow> (stepguider \<times> guide_direction list) option" where
  "ao_switch dev e loc a =
    (case ao_calibrationState a of
       AO_GOTO_LOWER_RIGHT_CORNER \<Rightarrow> ao_goto_corner dev e loc a
     | AO_AVERAGE_STARTING_LOCATION \<Rightarrow> ao_average_starting dev e loc a
     | AO_GO_LEFT \<Rightarrow> ao_go_left dev e loc a
     | AO_AVERAGE_CENTER_LOCATION \<Rightarrow> ao_average_center dev e loc a
     | AO_GO_UP \<Rightarrow> ao_go_up dev e loc a
     | AO_AVERAGE_ENDING_LOCATION \<Rightarrow> ao_average_ending dev e loc a
     | AO_RECENTER \<Rightarrow> ao_recenter e a
     | AO_COMPLETE \<Rightarrow> ao_complete e a
     | AO_CLEARED \<Rightarrow> Some (a, []))"

definition schedule_moves :: "ao_device \<Rightarrow> guide_direction list \<Rightarrow> stepguider \<Rightarrow> (guide_direction \<times> int) list" where
  \<comment> \<open>the sizes are from before the switch, which does not move the unit\<close>
  "schedule_moves dev ds a = map (\<lambda>d. (d, min (steps_remaining dev d a) (ao_calibrationStepsPerIteration a))) ds"

definition ao_UpdateCalibrationState ::
    "ao_device \<Rightarrow> ao_env \<Rightarrow> sodium_point \<Rightarrow> stepguider \<Rightarrow> (stepguider \<times> (guide_direction \<times> int) list \<times> bool) option" where
  \<comment> \<open>the scheduled moves, and the error flag\<close>
  "ao_UpdateCalibrationState dev e loc a =
    (if m_errorCount a > 12 then Some (ao_ClearCalibration (ao_emit [AoAlertNotMoving] a), [], True)
     else
       let a = (if \<not> m_valid (ao_calibrationStartingLocation a) then a\<lparr>ao_calibrationStartingLocation := loc\<rparr> else a)
       in case ao_switch dev e loc a of None \<Rightarrow> None
          | Some (a', ds) \<Rightarrow>
              let moves = schedule_moves dev ds a
              in Some (ao_emit (map (\<lambda>(d, n). AoScheduleMove d n MOVEOPTS_CALIBRATION_MOVE) moves) a', moves, False))"

definition ao_AdjustCalibration :: "ao_env \<Rightarrow> stepguider \<Rightarrow> stepguider" where
  \<comment> \<open>\<open>AdjustCalibrationForScopePointing\<close>: only the binning matters\<close>
  "ao_AdjustCalibration e a =
    (let c = ao_calibration a; bin = ae_binning e
     in if bin = binning c then a
        else let adj = of_nat (unat (binning c)) / of_nat (unat bin)
             in ao_SetCalibration (ae_stamp e) (c\<lparr>xRate := xRate c * adj, yRate := yRate c * adj, binning := bin\<rparr>) a)"

subsection \<open>Bumps\<close>

record bump_env =
  be_secondary :: bool \<comment> \<open>there is a secondary mount, and it is connected\<close>
  be_busy :: bool \<comment> \<open>there is a secondary mount, and it is moving\<close>
  be_now :: int \<comment> \<open>seconds\<close>
  be_maxMovePixels :: int
  be_settling :: bool
  be_settlingBoost :: real

definition update_avgOffset :: "stepguider \<Rightarrow> stepguider" where
  "update_avgOffset a =
    (let av = ao_avgOffset a
     in a\<lparr>ao_avgOffset :=
       (if m_valid av then av\<lparr>X := X av + 0.33 * (of_int (ao_xOffset a) - X av), Y := Y av + 0.33 * (of_int (ao_yOffset a) - Y av)\<rparr>
        else SetXY (of_int (ao_xOffset a)) (of_int (ao_yOffset a)) av)\<rparr>)"

definition outside_bump :: "stepguider \<Rightarrow> bool" where
  "outside_bump a \<longleftrightarrow> \<bar>ao_Position EAST a\<bar> > ao_xBumpPos1 a \<or> \<bar>ao_Position NORTH a\<bar> > ao_yBumpPos1 a"

definition raise_weight :: "int \<Rightarrow> stepguider \<Rightarrow> stepguider" where
  \<comment> \<open>at most half of the search region in one bump\<close>
  "raise_weight maxMovePixels a =
    (let far = \<bar>ao_Position EAST a\<bar> > ao_xBumpPos2 a \<or> \<bar>ao_Position NORTH a\<bar> > ao_yBumpPos2 a;
         w = ao_bumpStepWeight a + (if far then 1 else 1 / 6);
         movePx = max (xRate (ao_calibration a)) (yRate (ao_calibration a)) * ao_bumpMaxStepsPerCycle a
     in a\<lparr>ao_bumpStepWeight :=
       (case fdiv (of_int maxMovePixels * 0.5) movePx of None \<Rightarrow> w | Some maxWeight \<Rightarrow> if w > maxWeight then maxWeight else w)\<rparr>)"

definition lower_weight :: "stepguider \<Rightarrow> stepguider" where
  "lower_weight a = a\<lparr>ao_bumpStepWeight := (let w = ao_bumpStepWeight a * 0.5 in if w < 1 then 1 else w)\<rparr>"

definition adjust_weight :: "bump_env \<Rightarrow> stepguider \<Rightarrow> stepguider" where
  "adjust_weight e a =
    (let a = (if outside_bump a \<and> ao_bumpInProgress a \<and> \<not> be_busy e then raise_weight (be_maxMovePixels e) a else a)
     in if \<not> outside_bump a \<and> ao_bumpStepWeight a > 1 then lower_weight a else a)"

definition warn_slow_bump :: "bump_env \<Rightarrow> stepguider \<Rightarrow> stepguider" where
  "warn_slow_bump e a =
    (if ao_bumpInProgress a \<and> \<not> ao_bumpTimeoutAlertSent a \<and> be_now e - ao_bumpStartTime a > 240
     then ao_emit [AoAlertSlowBump] (a\<lparr>ao_bumpTimeoutAlertSent := True\<rparr>) else a)"

definition start_bump :: "bump_env \<Rightarrow> bool \<Rightarrow> stepguider \<Rightarrow> stepguider" where
  "start_bump e force a =
    (if (outside_bump a \<or> force) \<and> \<not> ao_bumpInProgress a
     then a\<lparr>ao_bumpInProgress := True, ao_bumpStartTime := be_now e, ao_bumpTimeoutAlertSent := False\<rparr> else a)"

definition stop_bump :: "bool \<Rightarrow> stepguider \<Rightarrow> stepguider" where
  \<comment> \<open>close enough to the center\<close>
  "stop_bump force a =
    (let av = ao_avgOffset a; minDist = of_int (ao_bumpCenterTolerance a)
     in if (\<not> outside_bump a \<or> force) \<and> ao_bumpInProgress a \<and> X av * X av + Y av * Y av \<le> minDist * minDist
        then a\<lparr>ao_bumpInProgress := False\<rparr> else a)"

definition consider_bump :: "bump_env \<Rightarrow> stepguider \<Rightarrow> stepguider" where
  "consider_bump e a =
    (let force = ao_forceStartBump a; a = a\<lparr>ao_forceStartBump := False\<rparr>;
         a = warn_slow_bump e (adjust_weight e a)
     in stop_bump force (start_bump e force a))"

definition large_bump :: "int \<Rightarrow> sodium_point \<Rightarrow> sodium_point" where
  \<comment> \<open>the unit ran into a limit: 70 percent of the offset, at most half of the search region\<close>
  "large_bump maxMovePixels camOfs =
    (let b = point_scale camOfs 0.7; maxDist = of_int maxMovePixels * 0.5; d2 = X b * X b + Y b * Y b
     in if d2 > maxDist * maxDist then point_scale b (maxDist / sqrt d2) else b)"

definition bump_weight :: "bump_env \<Rightarrow> stepguider \<Rightarrow> real" where
  "bump_weight e a = (if be_settling e \<and> ao_bumpStepWeight a < be_settlingBoost e then be_settlingBoost e else ao_bumpStepWeight a)"

definition small_bump :: "real \<Rightarrow> sodium_point \<Rightarrow> stepguider \<Rightarrow> sodium_point option" where
  \<comment> \<open>towards the average position, at most as long as the offset; \<^term>\<open>None\<close>: not a number\<close>
  "small_bump weight camOfs a =
    (let v = SodiumPoint (m_xRate a * - X (ao_avgOffset a)) (yRate (m_cal a) * - Y (ao_avgOffset a));
         bumpVec = snd (TransformMountCoordinatesToCameraCoordinates a v (Invalidate (SodiumPoint 0 0)));
         sizeX = xRate (ao_calibration a) * ao_bumpMaxStepsPerCycle a * weight;
         sizeY = yRate (ao_calibration a) * ao_bumpMaxStepsPerCycle a * weight; len = Distance0 bumpVec
     in case (fdiv (X bumpVec * sizeX) len, fdiv (Y bumpVec * sizeY) len) of
          (Some bx, Some by) \<Rightarrow>
            let b = SodiumPoint bx by; pixels2 = bx * bx + by * by; maxDist2 = X camOfs * X camOfs + Y camOfs * Y camOfs
            in Some (if pixels2 > maxDist2 then point_scale b (sqrt (maxDist2 / pixels2)) else b)
        | _ \<Rightarrow> None)"

definition this_bump :: "bump_env \<Rightarrow> sodium_point \<Rightarrow> stepguider \<Rightarrow> sodium_point option" where
  "this_bump e camOfs a =
    (if ao_lastLimited a then Some (large_bump (be_maxMovePixels e) camOfs) else small_bump (bump_weight e a) camOfs a)"

definition after_move :: "bump_env \<Rightarrow> sodium_point \<Rightarrow> u32 \<Rightarrow> stepguider \<Rightarrow> stepguider option" where
  \<comment> \<open>the part of \<open>MoveOffset\<close> after the move itself\<close>
  "after_move e camOfs opts a =
    (let a = update_avgOffset a;
         a = (if opts AND MOVEOPT_ALGO_RESULT \<noteq> 0 \<and> be_secondary e then consider_bump e a else a)
     in if ao_bumpInProgress a \<and> \<not> be_busy e
        then case this_bump e camOfs a of None \<Rightarrow> None | Some b \<Rightarrow> Some (ao_emit [AoBump b] a)
        else Some a)"

definition ao_MoveOffset ::
    "ao_device \<Rightarrow> ('g \<Rightarrow> real \<Rightarrow> 'g \<times> real option) \<Rightarrow> ('g \<Rightarrow> 'g \<times> real) \<Rightarrow> bump_env \<Rightarrow> 'i \<Rightarrow> guider_offset \<Rightarrow> u32 \<Rightarrow>
     (stepguider, 'g, 'i) move_state \<Rightarrow> ((stepguider, 'g, 'i) move_state \<times> move_result) option" where
  \<comment> \<open>an AO has no backlash compensation\<close>
  "ao_MoveOffset dev res ded e info ofs opts s =
    (case MoveOffset (ao_MoveAxis dev) (\<lambda>o' y n a. (a, n)) (\<lambda>o' y a. Some a) res ded info ofs opts s of
       None \<Rightarrow> None
     | Some (s, ofs, r) \<Rightarrow>
         let a = (ms_mount s)\<lparr>ao_lastLimited := (case ms_lastStep s of None \<Rightarrow> ao_lastLimited (ms_mount s)
                   | Some st \<Rightarrow> gs_decLimited st \<or> gs_raLimited st)\<rparr>; s = s\<lparr>ms_mount := a\<rparr>
         in if \<not> m_guidingEnabled a then Some (s, if r = MOVE_OK then MOVE_ERROR else r)
            else if opts AND MOVEOPT_ALGO_DEDUCE \<noteq> 0 then Some (s, r)
            else map_option (\<lambda>a. (s\<lparr>ms_mount := a\<rparr>, r)) (after_move e (cameraOfs ofs) opts a))"

subsection \<open>Notifications\<close>

definition ao_NotifyGuidingStopped :: "ao_device \<Rightarrow> stepguider \<Rightarrow> stepguider" where
  \<comment> \<open>a failure to center is ignored\<close>
  "ao_NotifyGuidingStopped dev a =
    fst (MoveToCenter dev (a\<lparr>ao_avgOffset := Invalidate (ao_avgOffset a), ao_forceStartBump := False, ao_bumpInProgress := False,
           ao_bumpStepWeight := 1, ao_bumpTimeoutAlertSent := False\<rparr>))"

definition forget_average :: "stepguider \<Rightarrow> stepguider" where
  \<comment> \<open>\<open>NotifyGuidingResumed\<close> and \<open>NotifyGuidingDithered\<close>, apart from the guide algorithms\<close>
  "forget_average a = a\<lparr>ao_avgOffset := Invalidate (ao_avgOffset a)\<rparr>"

end
