(* ===== verification/StepGuiderBump.thy ===== *)
theory StepGuiderBump
  imports StepGuider
begin

text \<open>
  The bumps of the adaptive optics unit: how long they are, when a bump starts and when it ends.
\<close>

subsection \<open>Bumps\<close>

lemma point_scale_Distance0: "Distance0 (point_scale p c) = \<bar>c\<bar> * Distance0 p"
proof -
  have "(X p * c)\<^sup>2 + (Y p * c)\<^sup>2 = c\<^sup>2 * ((X p)\<^sup>2 + (Y p)\<^sup>2)" by (simp add: power_mult_distrib algebra_simps)
  then show ?thesis by (simp add: point_scale_def Distance0_def hypot_def real_sqrt_mult)
qed

lemma Distance0_sq: "X p * X p + Y p * Y p = (Distance0 p)\<^sup>2"
  by (simp add: Distance0_def hypot_def power2_eq_square)

lemma Distance0_nonneg [simp]: "0 \<le> Distance0 p"
  by (simp add: Distance0_def)

lemma large_bump_length:
  "Distance0 (large_bump w ofs) \<le> Distance0 ofs" "0 \<le> w \<Longrightarrow> Distance0 (large_bump w ofs) \<le> of_int w / 2"
proof -
  define p where "p = point_scale ofs 0.7"
  have p: "Distance0 p = 7 / 10 * Distance0 ofs" by (simp add: p_def point_scale_Distance0)
  define m :: real where "m = of_int w * 0.5"
  have b: "large_bump w ofs = (if m\<^sup>2 < (Distance0 p)\<^sup>2 then point_scale p (m / Distance0 p) else p)"
    unfolding large_bump_def Let_def Distance0_sq p_def [symmetric] m_def [symmetric]
    by (simp flip: power2_eq_square)
  have len: "Distance0 (large_bump w ofs) = (if m\<^sup>2 < (Distance0 p)\<^sup>2 then \<bar>m\<bar> else Distance0 p)"
    and le: "m\<^sup>2 < (Distance0 p)\<^sup>2 \<Longrightarrow> \<bar>m\<bar> \<le> Distance0 p"
  proof -
    have *: "\<bar>m\<bar> < Distance0 p" if "m\<^sup>2 < (Distance0 p)\<^sup>2"
      using that power2_less_imp_less [of "\<bar>m\<bar>" "Distance0 p"] by simp
    then show "m\<^sup>2 < (Distance0 p)\<^sup>2 \<Longrightarrow> \<bar>m\<bar> \<le> Distance0 p" by fastforce
    show "Distance0 (large_bump w ofs) = (if m\<^sup>2 < (Distance0 p)\<^sup>2 then \<bar>m\<bar> else Distance0 p)"
      using * by (auto simp: b point_scale_Distance0 abs_divide)
  qed
  have "Distance0 p \<le> Distance0 ofs" using p Distance0_nonneg [of ofs] by linarith
  then show "Distance0 (large_bump w ofs) \<le> Distance0 ofs" using le order_trans by (auto simp: len split: if_splits)
  assume "0 \<le> w"
  then have m: "0 \<le> m" by (simp add: m_def)
  have "Distance0 p \<le> m" if "\<not> m\<^sup>2 < (Distance0 p)\<^sup>2" using that by (intro power2_le_imp_le [OF _ m]) (simp only: not_less)
  then show "Distance0 (large_bump w ofs) \<le> of_int w / 2" using m unfolding len by (simp add: m_def)
qed

lemma small_bump_length:
  assumes "small_bump w ofs a = Some b"
  shows "Distance0 b \<le> Distance0 ofs"
proof -
  obtain bx by' where b: "b = (if bx * bx + by' * by' > (Distance0 ofs)\<^sup>2
      then point_scale (SodiumPoint bx by') (sqrt ((Distance0 ofs)\<^sup>2 / (bx * bx + by' * by'))) else SodiumPoint bx by')"
    using assms by (auto simp: small_bump_def Let_def Distance0_sq split: option.splits)
  define p where "p = SodiumPoint bx by'"
  have p: "bx * bx + by' * by' = (Distance0 p)\<^sup>2" using Distance0_sq [of p] by (simp add: p_def)
  show ?thesis
  proof (cases "(Distance0 p)\<^sup>2 > (Distance0 ofs)\<^sup>2")
    case True
    then have "Distance0 p > 0" by (metis Distance0_nonneg less_eq_real_def not_less power2_less_imp_less zero_le_power2 zero_power2)
    then have "Distance0 b = Distance0 ofs"
      using True by (simp add: b p flip: p_def) (simp add: point_scale_Distance0 real_sqrt_divide)
    then show ?thesis by simp
  next
    case False
    then have "b = p" by (simp add: b p flip: p_def)
    moreover have "Distance0 p \<le> Distance0 ofs" using False by (intro power2_le_imp_le [OF _ Distance0_nonneg]) (simp only: not_less)
    ultimately show ?thesis by simp
  qed
qed

text \<open>What one call of \<open>MoveOffset\<close> sends to the telescope's mount.\<close>

fun bumps_of :: "ao_event list \<Rightarrow> sodium_point list" where
  "bumps_of [] = []"
| "bumps_of (ev # tr) = (case ev of AoBump b \<Rightarrow> b # bumps_of tr | _ \<Rightarrow> bumps_of tr)"

lemma bumps_of_append [simp]: "bumps_of (xs @ ys) = bumps_of xs @ bumps_of ys"
  by (induction xs) (simp_all split: ao_event.split)

lemma this_bump_length:
  "this_bump e ofs a = Some b \<Longrightarrow> Distance0 b \<le> Distance0 ofs"
  "this_bump e ofs a = Some b \<Longrightarrow> ao_lastLimited a \<Longrightarrow> 0 \<le> be_maxMovePixels e \<Longrightarrow> Distance0 b \<le> of_int (be_maxMovePixels e) / 2"
  using large_bump_length small_bump_length by (auto simp: this_bump_def split: if_splits)

lemma weights_eq:
  "\<exists>w. lower_weight c = c\<lparr>ao_bumpStepWeight := w\<rparr>" "\<exists>w. raise_weight k c = c\<lparr>ao_bumpStepWeight := w\<rparr>"
  unfolding lower_weight_def raise_weight_def Let_def by (rule exI, rule refl)+

lemma adjust_weight_eq: "\<exists>w. adjust_weight e c = c\<lparr>ao_bumpStepWeight := w\<rparr>"
proof -
  have lower: "\<exists>w. lower_weight b = c\<lparr>ao_bumpStepWeight := w\<rparr>" if b: "b = c\<lparr>ao_bumpStepWeight := w\<rparr>" for b w
  proof -
    obtain v where v: "lower_weight b = b\<lparr>ao_bumpStepWeight := v\<rparr>" using weights_eq(1) by blast
    show ?thesis by (rule exI [of _ v]) (simp add: v, simp add: b)
  qed
  have raise: "\<exists>w. (if P then raise_weight k c else c) = c\<lparr>ao_bumpStepWeight := w\<rparr>" for P k
  proof (cases P)
    case False
    then show ?thesis by (intro exI [of _ "ao_bumpStepWeight c"]) simp
  qed (simp add: weights_eq(2))
  obtain w where w: "(if outside_bump c \<and> ao_bumpInProgress c \<and> \<not> be_busy e then raise_weight (be_maxMovePixels e) c else c) =
      c\<lparr>ao_bumpStepWeight := w\<rparr>"
    using raise by blast
  show ?thesis unfolding adjust_weight_def Let_def w using lower [OF refl, of w] by (cases "\<not> outside_bump (c\<lparr>ao_bumpStepWeight := w\<rparr>) \<and>
    ao_bumpStepWeight (c\<lparr>ao_bumpStepWeight := w\<rparr>) > 1") (simp_all only: if_True if_False simp_thms, blast)
qed

lemma warn_slow_bump_eq:
  "\<exists>sent evs. warn_slow_bump e c = c\<lparr>ao_bumpTimeoutAlertSent := sent, ao_trace := ao_trace c @ evs\<rparr> \<and> set evs \<subseteq> {AoAlertSlowBump}"
proof (cases "ao_bumpInProgress c \<and> \<not> ao_bumpTimeoutAlertSent c \<and> be_now e - ao_bumpStartTime c > 240")
  case True
  then show ?thesis by (intro exI [of _ True] exI [of _ "[AoAlertSlowBump]"]) (simp add: warn_slow_bump_def ao_emit_def)
next
  case False
  then have "warn_slow_bump e c = c" by (auto simp: warn_slow_bump_def)
  then show ?thesis by (intro exI [of _ "ao_bumpTimeoutAlertSent c"] exI [of _ "[]"]) simp
qed

lemma considered_bump:
  obtains w sent evs where "set evs \<subseteq> {AoAlertSlowBump}"
    and "consider_bump e a = stop_bump (ao_forceStartBump a) (start_bump e (ao_forceStartBump a)
      (a\<lparr>ao_forceStartBump := False, ao_bumpStepWeight := w, ao_bumpTimeoutAlertSent := sent, ao_trace := ao_trace a @ evs\<rparr>))"
proof -
  obtain w where 1: "adjust_weight e (a\<lparr>ao_forceStartBump := False\<rparr>) = a\<lparr>ao_forceStartBump := False\<rparr>\<lparr>ao_bumpStepWeight := w\<rparr>"
    using adjust_weight_eq by blast
  obtain sent evs where 2: "warn_slow_bump e (a\<lparr>ao_forceStartBump := False\<rparr>\<lparr>ao_bumpStepWeight := w\<rparr>) =
      a\<lparr>ao_forceStartBump := False\<rparr>\<lparr>ao_bumpStepWeight := w\<rparr>\<lparr>ao_bumpTimeoutAlertSent := sent, ao_trace := ao_trace a @ evs\<rparr>"
    and evs: "set evs \<subseteq> {AoAlertSlowBump}"
    using warn_slow_bump_eq [of e "a\<lparr>ao_forceStartBump := False\<rparr>\<lparr>ao_bumpStepWeight := w\<rparr>"] by auto
  show ?thesis by (rule that [OF evs]) (simp only: consider_bump_def Let_def 1 2)
qed

lemma no_bumps: "set evs \<subseteq> {AoAlertSlowBump} \<Longrightarrow> bumps_of evs = []"
  by (induction evs) auto

lemma start_bump_fields [simp]:
  "ao_trace (start_bump e f a) = ao_trace a" "ao_lastLimited (start_bump e f a) = ao_lastLimited a"
  "ao_avgOffset (start_bump e f a) = ao_avgOffset a" "outside_bump (start_bump e f a) = outside_bump a"
  "ao_bumpCenterTolerance (start_bump e f a) = ao_bumpCenterTolerance a"
  "ao_bumpInProgress (start_bump e f a) \<longleftrightarrow> ao_bumpInProgress a \<or> outside_bump a \<or> f"
  by (auto simp: start_bump_def outside_bump_def)

lemma stop_bump_fields [simp]:
  "ao_trace (stop_bump f a) = ao_trace a" "ao_lastLimited (stop_bump f a) = ao_lastLimited a"
  "ao_avgOffset (stop_bump f a) = ao_avgOffset a"
  "ao_bumpInProgress (stop_bump f a) \<longleftrightarrow> ao_bumpInProgress a \<and>
    \<not> ((\<not> outside_bump a \<or> f) \<and> (Distance0 (ao_avgOffset a))\<^sup>2 \<le> (of_int (ao_bumpCenterTolerance a))\<^sup>2)"
  unfolding stop_bump_def Let_def Distance0_sq power2_eq_square [of "of_int (ao_bumpCenterTolerance a)"] by simp_all blast

lemma start_stop:
  "ao_trace (stop_bump f (start_bump e f' a)) = ao_trace a" "ao_lastLimited (stop_bump f (start_bump e f' a)) = ao_lastLimited a"
  "ao_avgOffset (stop_bump f (start_bump e f' a)) = ao_avgOffset a"
  "ao_bumpInProgress (stop_bump f (start_bump e f a)) \<Longrightarrow> ao_bumpInProgress a \<or> outside_bump a \<or> f"
  "\<not> ao_bumpInProgress (stop_bump f (start_bump e f a)) \<Longrightarrow> ao_bumpInProgress a \<Longrightarrow>
    (\<not> outside_bump a \<or> f) \<and> Distance0 (ao_avgOffset a) \<le> \<bar>of_int (ao_bumpCenterTolerance a)\<bar>"
proof -
  have le: "Distance0 p \<le> \<bar>t\<bar>" if "(Distance0 p)\<^sup>2 \<le> t\<^sup>2" for p t
    by (rule power2_le_imp_le) (use that in simp_all)
  show "\<not> ao_bumpInProgress (stop_bump f (start_bump e f a)) \<Longrightarrow> ao_bumpInProgress a \<Longrightarrow>
    (\<not> outside_bump a \<or> f) \<and> Distance0 (ao_avgOffset a) \<le> \<bar>of_int (ao_bumpCenterTolerance a)\<bar>"
    using le [of "ao_avgOffset a" "of_int (ao_bumpCenterTolerance a)"] by simp
qed simp_all

lemma consider_bump_states:
  "bumps_of (ao_trace (consider_bump e a)) = bumps_of (ao_trace a)" "ao_lastLimited (consider_bump e a) = ao_lastLimited a"
  "ao_avgOffset (consider_bump e a) = ao_avgOffset a"
  "ao_bumpInProgress (consider_bump e a) \<Longrightarrow> ao_bumpInProgress a \<or> outside_bump a \<or> ao_forceStartBump a"
  "\<not> ao_bumpInProgress (consider_bump e a) \<Longrightarrow> ao_bumpInProgress a \<Longrightarrow>
    (\<not> outside_bump a \<or> ao_forceStartBump a) \<and> Distance0 (ao_avgOffset a) \<le> \<bar>of_int (ao_bumpCenterTolerance a)\<bar>"
proof -
  obtain w sent evs where evs: "set evs \<subseteq> {AoAlertSlowBump}"
    and c: "consider_bump e a = stop_bump (ao_forceStartBump a) (start_bump e (ao_forceStartBump a)
      (a\<lparr>ao_forceStartBump := False, ao_bumpStepWeight := w, ao_bumpTimeoutAlertSent := sent, ao_trace := ao_trace a @ evs\<rparr>))"
    by (rule considered_bump)
  let ?b = "a\<lparr>ao_forceStartBump := False, ao_bumpStepWeight := w, ao_bumpTimeoutAlertSent := sent, ao_trace := ao_trace a @ evs\<rparr>"
  have o: "outside_bump ?b = outside_bump a" by (simp add: outside_bump_def)
  note st = start_stop(4,5) [of "ao_forceStartBump a" e ?b]
  show "bumps_of (ao_trace (consider_bump e a)) = bumps_of (ao_trace a)" "ao_lastLimited (consider_bump e a) = ao_lastLimited a"
    "ao_avgOffset (consider_bump e a) = ao_avgOffset a"
    by (simp_all only: c start_stop(1-3)) (simp_all add: no_bumps [OF evs])
  show "ao_bumpInProgress (consider_bump e a) \<Longrightarrow> ao_bumpInProgress a \<or> outside_bump a \<or> ao_forceStartBump a"
    using st(1) unfolding c o by simp
  show "\<not> ao_bumpInProgress (consider_bump e a) \<Longrightarrow> ao_bumpInProgress a \<Longrightarrow>
    (\<not> outside_bump a \<or> ao_forceStartBump a) \<and> Distance0 (ao_avgOffset a) \<le> \<bar>of_int (ao_bumpCenterTolerance a)\<bar>"
    using st(2) unfolding c o by simp
qed

lemma consider_bump_outside:
  assumes "outside_bump a" "\<not> ao_forceStartBump a"
  shows "ao_bumpInProgress (consider_bump e a)"
proof -
  obtain w sent evs where c: "consider_bump e a = stop_bump (ao_forceStartBump a) (start_bump e (ao_forceStartBump a)
      (a\<lparr>ao_forceStartBump := False, ao_bumpStepWeight := w, ao_bumpTimeoutAlertSent := sent, ao_trace := ao_trace a @ evs\<rparr>))"
    by (rule considered_bump)
  have "outside_bump (a\<lparr>ao_forceStartBump := False, ao_bumpStepWeight := w, ao_bumpTimeoutAlertSent := sent, ao_trace := ao_trace a @ evs\<rparr>)"
    using assms(1) by (simp add: outside_bump_def)
  then show ?thesis unfolding c stop_bump_fields start_bump_fields using assms(2) by blast
qed

text \<open>C35: After each move of the unit at most one bump is sent to the telescope's mount: exactly when a bump is in progress and that
  mount is not moving. The bump is never longer than the star's offset that the move corrects, and after a move cut at a limit
  it is at most half of the search region. A bump starts only after a guide step, when the unit is outside its bump limits or
  a bump was forced; it ends only when the unit is back inside (or a bump was forced) and its average position is within the tolerance.\<close>
theorem bump_never_overshoots:
  assumes "after_move e ofs opts a = Some a'"
  shows "\<exists>bs. bumps_of (ao_trace a') = bumps_of (ao_trace a) @ bs \<and> length bs \<le> 1 \<and>
    (bs \<noteq> [] \<longleftrightarrow> ao_bumpInProgress a' \<and> \<not> be_busy e) \<and>
    (\<forall>b \<in> set bs. Distance0 b \<le> Distance0 ofs \<and>
       (ao_lastLimited a \<and> 0 \<le> be_maxMovePixels e \<longrightarrow> Distance0 b \<le> of_int (be_maxMovePixels e) / 2)) \<and>
    (ao_bumpInProgress a' \<and> \<not> ao_bumpInProgress a \<longrightarrow>
       be_secondary e \<and> opts AND MOVEOPT_ALGO_RESULT \<noteq> 0 \<and> (outside_bump a \<or> ao_forceStartBump a)) \<and>
    (\<not> ao_bumpInProgress a' \<and> ao_bumpInProgress a \<longrightarrow>
       (\<not> outside_bump a \<or> ao_forceStartBump a) \<and> Distance0 (ao_avgOffset a') \<le> \<bar>of_int (ao_bumpCenterTolerance a)\<bar>)"
proof -
  define b where "b = update_avgOffset a"
  define c where "c = (if opts AND MOVEOPT_ALGO_RESULT \<noteq> 0 \<and> be_secondary e then consider_bump e b else b)"
  have b: "ao_trace b = ao_trace a" "ao_lastLimited b = ao_lastLimited a" "outside_bump b = outside_bump a"
    "ao_forceStartBump b = ao_forceStartBump a" "ao_bumpInProgress b = ao_bumpInProgress a"
    "ao_bumpCenterTolerance b = ao_bumpCenterTolerance a"
    by (simp_all add: b_def update_avgOffset_def outside_bump_def Let_def)
  note st = consider_bump_states [of e b, unfolded b]
  have c: "bumps_of (ao_trace c) = bumps_of (ao_trace a)" "ao_lastLimited c = ao_lastLimited a"
    by (simp_all add: c_def st b)
  have states: "ao_bumpInProgress c \<and> \<not> ao_bumpInProgress a \<longrightarrow>
       be_secondary e \<and> opts AND MOVEOPT_ALGO_RESULT \<noteq> 0 \<and> (outside_bump a \<or> ao_forceStartBump a)"
    "\<not> ao_bumpInProgress c \<and> ao_bumpInProgress a \<longrightarrow>
       (\<not> outside_bump a \<or> ao_forceStartBump a) \<and> Distance0 (ao_avgOffset c) \<le> \<bar>of_int (ao_bumpCenterTolerance a)\<bar>"
    using st(4,5) b(5) st(3) by (auto simp: c_def)
  show ?thesis
  proof (cases "ao_bumpInProgress c \<and> \<not> be_busy e")
    case True
    then obtain p where p: "this_bump e ofs c = Some p" "a' = ao_emit [AoBump p] c"
      using assms by (auto simp: after_move_def Let_def simp flip: b_def c_def split: option.splits)
    then show ?thesis using True c states this_bump_length [OF p(1)] by (intro exI [of _ "[p]"]) (simp add: ao_emit_def)
  next
    case False
    then have "a' = c" using assms by (auto simp: after_move_def Let_def simp flip: b_def c_def)
    then show ?thesis using False c states by (intro exI [of _ "[]"]) simp
  qed
qed

definition sample_ao :: stepguider where
  "sample_ao = \<lparr>m_connected = True, m_requestCount = 0, m_errorCount = 0, m_calibrated = False, m_cal = sample_cal, m_xRate = 1,
     m_yAngleError = 0, m_guidingEnabled = True, m_backlashComp = None,
     ao_samplesToAverage = 3, ao_bumpPercentage = 80, ao_bumpMaxStepsPerCycle = 1, ao_bumpOnDither = True,
     ao_xBumpPos1 = 8, ao_xBumpPos2 = 9, ao_yBumpPos1 = 8, ao_yBumpPos2 = 9, ao_bumpCenterTolerance = 2,
     ao_xOffset = 0, ao_yOffset = 0, ao_avgOffset = Invalidate (SodiumPoint 0 0), ao_forceStartBump = False,
     ao_bumpInProgress = False, ao_bumpTimeoutAlertSent = False, ao_bumpStartTime = 0, ao_bumpStepWeight = 1,
     ao_failedStep = (0, 0, 0, 0), ao_calibrationStepsPerIteration = 4, ao_calibrationIterations = 0,
     ao_calibrationStartingLocation = Invalidate (SodiumPoint 0 0), ao_calibrationAverageSamples = 0,
     ao_calibrationAveragedLocation = Invalidate (SodiumPoint 0 0), ao_calibration = sample_cal,
     ao_calibrationDetails = sample_details, ao_calibrationState = AO_CLEARED, ao_lastLimited = False, ao_trace = []\<rparr>"

definition limited_ao :: stepguider where
  \<comment> \<open>outside its bump limits, after a move cut at the limit\<close>
  "limited_ao = sample_ao\<lparr>ao_xOffset := 9, ao_lastLimited := True\<rparr>"

definition guiding_bump_env :: bump_env where
  "guiding_bump_env = \<lparr>be_secondary = True, be_busy = False, be_now = 10, be_maxMovePixels = 15, be_settling = False, be_settlingBoost = 1\<rparr>"

theorem bump_never_overshoots_witness:
  "\<exists>a' b. after_move guiding_bump_env (SodiumPoint 3 4) MOVEOPTS_GUIDE_STEP limited_ao = Some a' \<and> bumps_of (ao_trace a') = [b] \<and>
    Distance0 b \<le> 5 \<and> ao_bumpInProgress a' \<and> \<not> ao_bumpInProgress limited_ao"
proof -
  let ?e = "guiding_bump_env" and ?o = "SodiumPoint 3 4" and ?m = "MOVEOPTS_GUIDE_STEP"
  define c where "c = consider_bump ?e (update_avgOffset limited_ao)"
  have e: "be_secondary ?e" "\<not> be_busy ?e" by (simp_all add: guiding_bump_env_def)
  have m: "?m AND MOVEOPT_ALGO_RESULT \<noteq> 0" by (simp add: moveopt_defs push_bit_eq_mult)
  have l: "ao_lastLimited c" by (simp add: c_def consider_bump_states) (simp add: limited_ao_def update_avgOffset_def Let_def)
  have "outside_bump (update_avgOffset limited_ao)" "\<not> ao_forceStartBump (update_avgOffset limited_ao)"
    by (simp_all add: update_avgOffset_def outside_bump_def limited_ao_def sample_ao_def Let_def)
  then have ip: "ao_bumpInProgress c" unfolding c_def by (rule consider_bump_outside)
  obtain a' where a': "after_move ?e ?o ?m limited_ao = Some a'" "ao_bumpInProgress a'"
    using e m l ip by (simp add: after_move_def this_bump_def Let_def ao_emit_def flip: c_def)
  note p = a'(2) and a' = a'(1)
  obtain bs where bs: "bumps_of (ao_trace a') = bumps_of (ao_trace limited_ao) @ bs" "length bs \<le> 1" "bs \<noteq> []"
    "\<forall>b \<in> set bs. Distance0 b \<le> Distance0 ?o"
    using bump_never_overshoots [OF a'] p e by blast
  then obtain b where "bs = [b]" by (cases bs) auto
  moreover have "Distance0 ?o = 5" by (simp add: Distance0_def hypot_def)
  ultimately show ?thesis using bs a' p by (auto simp: limited_ao_def sample_ao_def)
qed

end
