(* ===== verification/StepGuiderRun.thy ===== *)
theory StepGuiderRun
  imports StepGuiderBump GuiderRun
begin

text \<open>
  What holds of an adaptive optics unit over any sequence of operations: it stays inside the largest travel it was
  given. The contract of a device driver is a locale, with the
  simulator of \<open>src/src/ao/gear_simulator.cpp\<close> and the INDI drivers as interpretations; the unit is a mount of the guider.
\<close>

subsection \<open>Drivers\<close>

definition sim_device :: "int \<Rightarrow> ao_device" where
  \<comment> \<open>\<open>StepGuiderSimulator\<close>\<close>
  "sim_device max_position =
    \<lparr>MaxPosition = (\<lambda>d. max_position), Step = (\<lambda>d n. STEP_OK), Center = (\<lambda>a. (ZeroCurrentPosition a, False))\<rparr>"

definition indi_device :: "bool \<Rightarrow> bool \<Rightarrow> int \<Rightarrow> ao_device" where
  \<comment> \<open>the INDI drivers: whether the properties for stepping and for centering are defined\<close>
  "indi_device hasStep hasCenter maxSteps =
    \<lparr>MaxPosition = (\<lambda>d. maxSteps),
     Step = (\<lambda>d n. if \<not> hasStep then STEP_ERROR else if d = NONE then STEP_ERROR else STEP_OK),
     Center = (\<lambda>a. if hasCenter then (ZeroCurrentPosition a, False) else (a, True))\<rparr>"

definition SetMaxPosition :: "int \<Rightarrow> ao_device \<Rightarrow> ao_device" where
  \<comment> \<open>the same in all drivers\<close>
  "SetMaxPosition max_steps dev = dev\<lparr>MaxPosition := (\<lambda>d. max_steps)\<rparr>"

definition within_travel :: "int \<Rightarrow> stepguider \<Rightarrow> bool" where
  "within_travel M a \<longleftrightarrow> \<bar>ao_xOffset a\<bar> < M \<and> \<bar>ao_yOffset a\<bar> < M"

fun steps_of :: "ao_event list \<Rightarrow> (guide_direction \<times> int) list" where
  \<comment> \<open>the steps on the device, in a trace\<close>
  "steps_of [] = []"
| "steps_of (ev # tr) = (case ev of AoStep d n \<Rightarrow> (d, n) # steps_of tr | _ \<Rightarrow> steps_of tr)"

lemma steps_of_append [simp]: "steps_of (xs @ ys) = steps_of xs @ steps_of ys"
  by (induction xs) (simp_all split: ao_event.split)

definition steps_within :: "int \<Rightarrow> (guide_direction \<times> int) list \<Rightarrow> bool" where
  \<comment> \<open>every step is positive and no longer than the travel\<close>
  "steps_within M ps \<longleftrightarrow> (\<forall>(d, n) \<in> set ps. 0 < n \<and> n \<le> 2 * (M - 1))"

lemma steps_within_simps [simp]:
  "steps_within M []" "steps_within M ((d, n) # ps) \<longleftrightarrow> 0 < n \<and> n \<le> 2 * (M - 1) \<and> steps_within M ps"
  "steps_within M (ps @ qs) \<longleftrightarrow> steps_within M ps \<and> steps_within M qs"
  by (auto simp: steps_within_def)

definition ao_ok :: "int \<Rightarrow> stepguider \<Rightarrow> bool" where
  "ao_ok M a \<longleftrightarrow> within_travel M a \<and> steps_within M (steps_of (ao_trace a))"

locale ao_driver =
  fixes dev :: ao_device and M :: int
  assumes max_position: "MaxPosition dev d = M" and travel: "1 \<le> M"
    and center: "Center dev a = (a', err) \<Longrightarrow> a' = (if err then a else ZeroCurrentPosition a)"
begin

lemma do_step_ok:
  assumes "do_step dev d dir n a = (a', r, k)" "axis_delta d = Some dir" "ao_ok L a" "n < M - ao_Position d a" "M \<le> L"
  shows "ao_ok L a' \<and> k \<le> max 0 n \<and> (0 \<le> n \<longrightarrow> 0 \<le> k) \<and> m_cal a' = m_cal a \<and> m_xRate a' = m_xRate a"
proof (cases "n > 0")
  case False
  then show ?thesis using assms by (simp add: do_step_def)
next
  case True
  show ?thesis
  proof (cases "Step dev d n")
    case STEP_OK
    have "a' = ao_emit [AoStep d n] (a\<lparr>ao_xOffset := ao_xOffset a + fst dir * n, ao_yOffset := ao_yOffset a + snd dir * n\<rparr>)" "k = n"
      using assms(1) True STEP_OK by (auto simp: do_step_def)
    then show ?thesis using assms(2-5) True by (cases d) (auto simp: ao_ok_def within_travel_def ao_emit_def)
  next
    case STEP_LIMIT_REACHED
    let ?f = "a\<lparr>ao_failedStep := (ao_xOffset a, ao_yOffset a, fst dir * n, snd dir * n)\<rparr>"
    obtain b err where b: "Center dev ?f = (b, err)" by fastforce
    have "a' = b" "k = 0" using assms(1) True STEP_LIMIT_REACHED b by (simp_all add: do_step_def)
    then show ?thesis using center [OF b] assms(3,5) travel by (simp add: ao_ok_def within_travel_def ZeroCurrentPosition_def)
  next
    case STEP_ERROR
    then show ?thesis using assms True by (simp add: do_step_def)
  qed
qed

lemma ao_MoveAxis_kept:
  assumes "ao_MoveAxis dev d n opts a = (a', r, i)" "ao_ok L a" "M \<le> L"
  shows "ao_ok L a'"
proof (cases "(\<not> m_guidingEnabled a \<and> opts AND MOVEOPT_MANUAL = 0) \<or> n \<le> 0 \<or> d = NONE")
  case True
  then show ?thesis using assms by (auto simp: ao_MoveAxis_def split: if_splits)
next
  case False
  then obtain dir where dir: "axis_delta d = Some dir" by (cases d) auto
  let ?n = "if WouldHitLimit dev d n a then MaxPosition dev d - 1 - ao_Position d a else n"
  obtain b s k where b: "do_step dev d dir ?n a = (b, s, k)" by (metis prod_cases3)
  have "?n < M - ao_Position d a" by (auto simp: WouldHitLimit_def max_position)
  moreover have "a' = b" using assms(1) False dir b by (auto simp: ao_MoveAxis_def Let_def)
  ultimately show ?thesis using do_step_ok [OF b dir assms(2) _ assms(3)] by simp
qed

lemma ao_MoveAxis_ok:
  assumes "ao_MoveAxis dev d n opts a = (a', r, i)" "ao_ok M a"
  shows "ao_ok M a'" "m_cal a' = m_cal a" "m_xRate a' = m_xRate a" "0 \<le> n \<Longrightarrow> 0 \<le> amountMoved i \<and> amountMoved i \<le> n"
proof -
  show "ao_ok M a'" using ao_MoveAxis_kept [OF assms] by simp
  have "m_cal a' = m_cal a \<and> m_xRate a' = m_xRate a \<and> (0 \<le> n \<longrightarrow> 0 \<le> amountMoved i \<and> amountMoved i \<le> n)"
  proof (cases "(\<not> m_guidingEnabled a \<and> opts AND MOVEOPT_MANUAL = 0) \<or> n \<le> 0 \<or> d = NONE")
    case True
    then show ?thesis using assms by (auto simp: ao_MoveAxis_def split: if_splits)
  next
    case False
    then obtain dir where dir: "axis_delta d = Some dir" by (cases d) auto
    let ?n = "if WouldHitLimit dev d n a then MaxPosition dev d - 1 - ao_Position d a else n"
    obtain b s k where b: "do_step dev d dir ?n a = (b, s, k)" by (metis prod_cases3)
    have "\<bar>ao_Position d a\<bar> < M" using assms(2) by (cases d) (auto simp: ao_ok_def within_travel_def)
    then have n: "?n < M - ao_Position d a" "0 \<le> ?n" "?n \<le> n" using False by (auto simp: WouldHitLimit_def max_position)
    have "a' = b" "amountMoved i = k" using assms(1) False dir b by (auto simp: ao_MoveAxis_def Let_def)
    then show ?thesis using do_step_ok [OF b dir assms(2) n(1)] n by auto
  qed
  then show "m_cal a' = m_cal a" "m_xRate a' = m_xRate a" "0 \<le> n \<Longrightarrow> 0 \<le> amountMoved i \<and> amountMoved i \<le> n" by simp_all
qed

lemma ao_MoveAxis_cal:
  assumes "ao_MoveAxis dev d n opts a = (a', r, i)"
  shows "m_cal a' = m_cal a \<and> m_xRate a' = m_xRate a"
proof -
  have c: "m_cal b = m_cal f \<and> m_xRate b = m_xRate f" if "Center dev f = (b, err)" for f b err
    using center [OF that] by (simp add: ZeroCurrentPosition_def)
  have "m_cal b = m_cal a \<and> m_xRate b = m_xRate a" if "do_step dev d dir n a = (b, r, k)" for dir n b r k
  proof (cases "n > 0 \<and> Step dev d n = STEP_LIMIT_REACHED")
    case True
    then have "b = fst (Center dev (a\<lparr>ao_failedStep := (ao_xOffset a, ao_yOffset a, fst dir * n, snd dir * n)\<rparr>))"
      using that by (auto simp: do_step_def)
    then show ?thesis using c [OF prod.collapse [symmetric]] by simp
  next
    case False
    then show ?thesis using that by (auto simp: do_step_def ao_emit_def split: step_result.splits if_splits)
  qed
  then show ?thesis using assms by (auto simp: ao_MoveAxis_def Let_def split: if_splits option.splits prod.splits)
qed

end

text \<open>The travel may have been larger before: \<open>L\<close> bounds every travel there was.\<close>

locale ao_bounded = ao_driver +
  fixes L :: int
  assumes bound: "M \<le> L"
begin

lemma MoveAxis_kept: "ao_MoveAxis dev d n opts a = (a', r, i) \<Longrightarrow> ao_ok L a \<Longrightarrow> ao_ok L a'"
  by (rule ao_MoveAxis_kept [OF _ _ bound])

lemma center_axis_ok:
  assumes "center_axis dev p q a = (a', err)" "ao_ok L a"
  shows "ao_ok L a'"
  using assms MoveAxis_kept by (auto simp: center_axis_def Let_def split: if_splits prod.splits)

lemma MoveToCenter_ok:
  assumes "MoveToCenter dev a = (a', err)" "ao_ok L a"
  shows "ao_ok L a'"
  using assms center_axis_ok by (auto simp: MoveToCenter_def split: if_splits prod.splits)

end

lemma ao_driver_travel:
  assumes "ao_driver dev N" "1 \<le> M"
  shows "ao_driver (SetMaxPosition M dev) M"
  using assms by (auto simp: ao_driver_def SetMaxPosition_def)

interpretation sim: ao_driver "sim_device (max 1 n)" "max 1 n" for n
  by unfold_locales (auto simp: sim_device_def)

interpretation indi: ao_driver "indi_device hasStep hasCenter (max 1 n)" "max 1 n" for hasStep hasCenter n
  by unfold_locales (auto simp: indi_device_def split: if_splits)

interpretation sim_lowered: ao_bounded "sim_device (max 1 n)" "max 1 n" "max (max 1 n) k" for n k
  by unfold_locales simp

interpretation indi_lowered: ao_bounded "indi_device hasStep hasCenter (max 1 n)" "max 1 n" "max (max 1 n) k" for hasStep hasCenter n k
  by unfold_locales simp


subsection \<open>What \<open>MoveOffset\<close> keeps\<close>

locale axis_keeper =
  fixes moveAxis :: "guide_direction \<Rightarrow> int \<Rightarrow> u32 \<Rightarrow> 'a mount_scheme \<Rightarrow> 'a mount_scheme \<times> move_result \<times> move_result_info"
    and inv :: "'a mount_scheme \<Rightarrow> bool"
  assumes moved_inv: "moveAxis d n opts m = (m', r, i) \<Longrightarrow> inv m \<Longrightarrow> inv m'"
begin

lemma move_axes_inv:
  assumes "move_axes moveAxis applyBLC opts ofs info xd yd m = Some (m', step, r)" "inv m"
    and blc: "\<And>o' y n m. inv m \<Longrightarrow> inv (fst (applyBLC o' y n m))"
  shows "inv m'"
proof -
  obtain m1 r1 i1 where 1: "moveAxis (if xd > 0 then WEST else EAST) (ROUND \<bar>xd / m_xRate m\<bar>) opts m = (m1, r1, i1)"
    by (metis prod_cases3)
  obtain m2 n where 2: "applyBLC opts yd (ROUND \<bar>yd / yRate (m_cal m1)\<bar>) m1 = (m2, n)" by fastforce
  obtain m3 r3 i3 where 3: "moveAxis (if yd > 0 then SOUTH else NORTH) n opts m2 = (m3, r3, i3)" by (metis prod_cases3)
  have "inv m1" "inv m3" using moved_inv [OF 1 assms(2)] moved_inv [OF 3] blc [of m1 opts yd "ROUND \<bar>yd / yRate (m_cal m1)\<bar>"] 2
    by simp_all
  moreover have "m' = m1 \<or> m' = m3"
    using assms(1) 1 2 3 by (auto simp: move_axes_def Let_def fdiv_def split: if_splits)
  ultimately show ?thesis by auto
qed

lemma MoveOffset_inv:
  assumes "MoveOffset moveAxis applyBLC trackBLC res ded info ofs opts s = Some (s', ofs', r)" "inv (ms_mount s)"
    and "\<And>o' y n m. inv m \<Longrightarrow> inv (fst (applyBLC o' y n m))"
    and "\<And>o' y m m'. trackBLC o' y m = Some m' \<Longrightarrow> inv m \<Longrightarrow> inv m'"
  shows "inv (ms_mount s')"
proof -
  have *: "inv m'" if "move_axes moveAxis applyBLC opts ofs info xd yd m = Some (m', step, r)" "inv m" for opts ofs xd yd m m' step r
    using move_axes_inv [OF that assms(3)] .
  show ?thesis using assms(1,2) assms(4)
    by (auto simp: MoveOffset_def Let_def split: if_splits option.splits prod.splits dest!: *)
qed

end

sublocale ao_driver \<subseteq> mover: axis_mover "ao_MoveAxis dev" "ao_ok M"
proof
  fix d n opts a a' r i
  assume a: "ao_MoveAxis dev d n opts a = (a', r, i)"
  show "m_cal a' = m_cal a \<and> m_xRate a' = m_xRate a" by (rule ao_MoveAxis_cal [OF a])
  assume "ao_ok M a"
  from ao_MoveAxis_ok [OF a this] show "ao_ok M a'" "0 \<le> n \<Longrightarrow> 0 \<le> amountMoved i \<and> amountMoved i \<le> n" by simp_all
qed

sublocale axis_mover \<subseteq> keeper: axis_keeper moveAxis inv
  by unfold_locales (rule moved_inv)

sublocale ao_bounded \<subseteq> keeper: axis_keeper "ao_MoveAxis dev" "ao_ok L"
  by unfold_locales (rule MoveAxis_kept)

subsection \<open>What stays in place\<close>

text \<open>The position, the steps on the device and the settings of a calibration: what the calibration and the bumps leave alone.\<close>

definition ao_view :: "stepguider \<Rightarrow> (int \<times> int) \<times> (guide_direction \<times> int) list \<times> (bool \<times> bool \<times> int) \<times> int \<times> int" where
  "ao_view a = ((ao_xOffset a, ao_yOffset a), steps_of (ao_trace a), (m_connected a, m_guidingEnabled a, m_errorCount a),
     ao_samplesToAverage a, ao_calibrationStepsPerIteration a)"

lemma ao_view_ok: "ao_view a' = ao_view a \<Longrightarrow> ao_ok M a' = ao_ok M a"
  by (simp add: ao_view_def ao_ok_def within_travel_def)

lemma ao_view_emit [simp]: "steps_of evs = [] \<Longrightarrow> ao_view (ao_emit evs a) = ao_view a"
  by (simp add: ao_view_def ao_emit_def)

lemma ao_view_update [simp]:
  "ao_view (a\<lparr>ao_calibrationState := st\<rparr>) = ao_view a" "ao_view (a\<lparr>ao_calibrationStartingLocation := p\<rparr>) = ao_view a"
  "ao_view (a\<lparr>ao_calibrationAveragedLocation := p\<rparr>) = ao_view a" "ao_view (a\<lparr>ao_calibrationAverageSamples := k\<rparr>) = ao_view a"
  "ao_view (a\<lparr>ao_calibrationIterations := k\<rparr>) = ao_view a" "ao_view (a\<lparr>ao_calibration := c\<rparr>) = ao_view a"
  "ao_view (a\<lparr>ao_calibrationDetails := det\<rparr>) = ao_view a" "ao_view (a\<lparr>ao_avgOffset := p\<rparr>) = ao_view a"
  "ao_view (a\<lparr>ao_forceStartBump := b\<rparr>) = ao_view a" "ao_view (a\<lparr>ao_bumpInProgress := b\<rparr>) = ao_view a"
  "ao_view (a\<lparr>ao_bumpTimeoutAlertSent := b\<rparr>) = ao_view a" "ao_view (a\<lparr>ao_bumpStartTime := k\<rparr>) = ao_view a"
  "ao_view (a\<lparr>ao_bumpStepWeight := w\<rparr>) = ao_view a" "ao_view (a\<lparr>ao_lastLimited := b\<rparr>) = ao_view a"
  "ao_view (a\<lparr>ao_bumpMaxStepsPerCycle := w\<rparr>) = ao_view a" "ao_view (a\<lparr>ao_bumpOnDither := b\<rparr>) = ao_view a"
  "ao_view (a\<lparr>m_calibrated := b\<rparr>) = ao_view a"
  by (simp_all add: ao_view_def)

lemma steps_of_writes [simp]: "steps_of (map AoProfileWrite ws) = []"
  by (induction ws) simp_all

lemma steps_of_moves [simp]: "steps_of (map (\<lambda>(d, n). AoScheduleMove d n opts) moves) = []"
  by (induction moves) auto

lemma ao_view_SetCalibration [simp]: "ao_view (ao_SetCalibration stamp cal a) = ao_view a"
proof -
  obtain b ws where b: "mount_SetCalibration ''stepguider'' stamp cal (a\<lparr>ao_calibration := cal\<rparr>) = (b, ws)" by fastforce
  then have "ao_view b = ao_view a" by (auto simp: mount_SetCalibration_def ao_view_def Let_def)
  then show ?thesis using b by (simp add: ao_SetCalibration_def)
qed

lemma ao_view_calibrating [simp]:
  "ao_view (ao_SetCalibrationDetails e det xA yA bin a) = ao_view a" "ao_view (ao_sample loc a) = ao_view a"
  "ao_view (start_average st a) = ao_view a" "ao_view (add_upStep dx dy a) = ao_view a" "ao_view (add_leftStep dx dy a) = ao_view a"
  "ao_view (ao_ClearCalibration a) = ao_view a" "ao_view (ao_AdjustCalibration e a) = ao_view a"
  by (simp_all add: ao_SetCalibrationDetails_def ao_sample_def start_average_def add_upStep_def add_leftStep_def
      ao_ClearCalibration_def mount_ClearCalibration_def ao_AdjustCalibration_def Let_def)

lemma ao_complete_view: "ao_complete e a = Some (a', ds) \<Longrightarrow> ao_view a' = ao_view a"
  by (auto simp: ao_complete_def Let_def)

lemma ao_recenter_view: "ao_recenter e a = Some (a', ds) \<Longrightarrow> ao_view a' = ao_view a"
  by (auto simp: ao_recenter_def Let_def split: if_splits dest: ao_complete_view)

lemma ao_average_ending_view: "ao_average_ending dev e loc a = Some (a', ds) \<Longrightarrow> ao_view a' = ao_view a"
  by (auto simp: ao_average_ending_def Let_def split: if_splits option.splits dest!: ao_recenter_view)

lemma ao_go_up_view: "ao_go_up dev e loc a = Some (a', ds) \<Longrightarrow> ao_view a' = ao_view a"
  by (auto simp: ao_go_up_def Let_def split: if_splits dest!: ao_average_ending_view)

lemma ao_average_center_view: "ao_average_center dev e loc a = Some (a', ds) \<Longrightarrow> ao_view a' = ao_view a"
  by (auto simp: ao_average_center_def Let_def split: if_splits option.splits dest!: ao_go_up_view)

lemma ao_go_left_view: "ao_go_left dev e loc a = Some (a', ds) \<Longrightarrow> ao_view a' = ao_view a"
  by (auto simp: ao_go_left_def Let_def split: if_splits dest!: ao_average_center_view)

lemma ao_average_starting_view: "ao_average_starting dev e loc a = Some (a', ds) \<Longrightarrow> ao_view a' = ao_view a"
  by (auto simp: ao_average_starting_def Let_def split: if_splits dest!: ao_go_left_view)

lemma ao_switch_view: "ao_switch dev e loc a = Some (a', ds) \<Longrightarrow> ao_view a' = ao_view a"
  by (auto simp: ao_switch_def ao_goto_corner_def split: ao_cal_state.splits if_splits
      dest!: ao_complete_view ao_recenter_view ao_average_ending_view ao_go_up_view ao_average_center_view ao_go_left_view
        ao_average_starting_view)

lemma ao_UpdateCalibrationState_view:
  "ao_UpdateCalibrationState dev e loc a = Some (a', moves, err) \<Longrightarrow> ao_view a' = ao_view a"
  by (auto simp: ao_UpdateCalibrationState_def Let_def split: if_splits option.splits dest!: ao_switch_view)

lemma ao_BeginCalibration_view [simp]: "ao_view (fst (ao_BeginCalibration loc a)) = ao_view a"
  by (simp add: ao_BeginCalibration_def)

lemma consider_bump_view [simp]: "ao_view (consider_bump e a) = ao_view a"
proof -
  obtain w sent evs where evs: "set evs \<subseteq> {AoAlertSlowBump}"
    and c: "consider_bump e a = stop_bump (ao_forceStartBump a) (start_bump e (ao_forceStartBump a)
      (a\<lparr>ao_forceStartBump := False, ao_bumpStepWeight := w, ao_bumpTimeoutAlertSent := sent, ao_trace := ao_trace a @ evs\<rparr>))"
    by (rule considered_bump)
  have "steps_of evs = []" using evs by (induction evs) auto
  moreover have "ao_view (stop_bump f b) = ao_view b" "ao_view (start_bump e f b) = ao_view b" for f b
    by (simp_all add: stop_bump_def start_bump_def Let_def)
  ultimately show ?thesis by (simp add: c) (simp add: ao_view_def)
qed

lemma after_move_view: "after_move e camOfs opts a = Some a' \<Longrightarrow> ao_view a' = ao_view a"
  by (auto simp: after_move_def update_avgOffset_def Let_def split: if_splits option.splits)

subsection \<open>Requests\<close>

definition ao_ScheduleAxisMove :: "u32 \<Rightarrow> stepguider \<Rightarrow> stepguider" where
  \<comment> \<open>\<open>MyFrame::ScheduleAxisMove\<close>, as far as the mount is concerned\<close>
  "ao_ScheduleAxisMove opts a = (if opts AND MOVEOPT_MANUAL = 0 then a\<lparr>m_requestCount := m_requestCount a + 1\<rparr> else a)"

definition OnMoveComplete :: "u32 \<Rightarrow> move_result \<Rightarrow> stepguider \<Rightarrow> stepguider" where
  \<comment> \<open>\<open>MyFrame::OnMoveComplete\<close>, as far as the mount is concerned\<close>
  "OnMoveComplete opts r a =
    (if opts AND MOVEOPT_MANUAL \<noteq> 0 then a
     else let a = a\<lparr>m_requestCount := m_requestCount a - 1\<rparr>
          in if r \<noteq> MOVE_OK then a\<lparr>m_errorCount := m_errorCount a + 1\<rparr> else a)"

definition HandleAxisMove :: "ao_device \<Rightarrow> u32 \<Rightarrow> guide_direction \<times> int \<Rightarrow> stepguider \<Rightarrow> stepguider" where
  \<comment> \<open>\<open>WorkerThread::HandleMove\<close> of an axis move, and its completion\<close>
  "HandleAxisMove dev opts mv a = (case ao_MoveAxis3 dev (fst mv) (snd mv) opts a of (a, r) \<Rightarrow> OnMoveComplete opts r a)"

definition ao_do_moves :: "ao_device \<Rightarrow> u32 \<Rightarrow> (guide_direction \<times> int) list \<Rightarrow> stepguider \<Rightarrow> stepguider" where
  \<comment> \<open>all moves are scheduled, then the worker thread does them in their order\<close>
  "ao_do_moves dev opts moves a = fold (HandleAxisMove dev opts) moves (fold (\<lambda>mv. ao_ScheduleAxisMove opts) moves a)"

definition ao_frame :: "ao_device \<Rightarrow> ao_env \<Rightarrow> sodium_point \<Rightarrow> stepguider \<Rightarrow> (stepguider \<times> bool) option" where
  \<comment> \<open>a calibration frame and its moves: the next exposure waits for them in the same queue\<close>
  "ao_frame dev e loc a =
    (case ao_UpdateCalibrationState dev e loc a of None \<Rightarrow> None
     | Some (a, moves, err) \<Rightarrow> Some (ao_do_moves dev MOVEOPTS_CALIBRATION_MOVE moves a, err))"

datatype 'i ao_request =
    AoAxis guide_direction int u32
  | AoOffset bump_env 'i guider_offset u32
  | AoBegin sodium_point
  | AoFrame ao_env sodium_point
  | AoAdjust ao_env
  | AoStopped
  | AoResumed
  | AoForceBump
  | AoRecenter
  | AoEnableGuiding bool
  | AoSettings int int real bool int

fun ao_unit :: "ao_device \<Rightarrow> 'i ao_request \<Rightarrow> stepguider \<Rightarrow> stepguider option" where
  \<comment> \<open>the requests that do not involve the guide algorithms\<close>
  "ao_unit dev (AoAxis d n opts) a = Some (ao_do_moves dev opts [(d, n)] a)"
| "ao_unit dev (AoBegin loc) a = Some (fst (ao_BeginCalibration loc (a\<lparr>m_errorCount := 0\<rparr>)))"
| "ao_unit dev (AoFrame e loc) a = map_option fst (ao_frame dev e loc a)"
| "ao_unit dev (AoAdjust e) a = Some (ao_AdjustCalibration e a)"
| "ao_unit dev AoStopped a = Some (ao_NotifyGuidingStopped dev a)"
| "ao_unit dev AoResumed a = Some (forget_average a)"
| "ao_unit dev AoForceBump a = Some (ForceStartBump a)"
| "ao_unit dev AoRecenter a = Some (fst (Center dev a))"
| "ao_unit dev (AoEnableGuiding b) a = Some (a\<lparr>m_guidingEnabled := b\<rparr>)"
| "ao_unit dev (AoSettings samples bump maxSteps onDither perIter) a =
    Some (fst (SetCalibrationStepsPerIteration perIter (SetBumpOnDither onDither (fst (SetBumpMaxStepsPerCycle maxSteps
      (fst (SetBumpPercentage dev bump True (fst (SetSamplesToAverage samples a)))))))))"
| "ao_unit dev (AoOffset e info ofs opts) a = Some a"

fun ao_serve :: "('g \<Rightarrow> real \<Rightarrow> 'g \<times> real option) \<Rightarrow> ('g \<Rightarrow> 'g \<times> real) \<Rightarrow> ao_device \<Rightarrow> 'i ao_request \<Rightarrow>
    (stepguider, 'g, 'i) move_state \<Rightarrow> (stepguider, 'g, 'i) move_state option" where
  "ao_serve res ded dev (AoOffset e info ofs opts) s =
    (case ao_MoveOffset dev res ded e info ofs opts (s\<lparr>ms_mount := ao_ScheduleAxisMove opts (ms_mount s)\<rparr>) of
       None \<Rightarrow> None | Some (s, r) \<Rightarrow> Some (s\<lparr>ms_mount := OnMoveComplete opts r (ms_mount s)\<rparr>))"
| "ao_serve res ded dev req s = map_option (\<lambda>a. s\<lparr>ms_mount := a\<rparr>) (ao_unit dev req (ms_mount s))"

datatype 'i ao_call = AoSetMaxPosition int | AoRequest "'i ao_request"

fun ao_run :: "('g \<Rightarrow> real \<Rightarrow> 'g \<times> real option) \<Rightarrow> ('g \<Rightarrow> 'g \<times> real) \<Rightarrow> (ao_device \<times> 'i ao_call) list \<Rightarrow> int \<Rightarrow>
    (stepguider, 'g, 'i) move_state \<Rightarrow> (int \<times> (stepguider, 'g, 'i) move_state) option" where
  \<comment> \<open>the travel, and each request with the answers the device gives to it; \<^term>\<open>None\<close>: a number that is not finite. The settings
    dialog calls \<open>SetMaxPosition\<close> before it sets the rest\<close>
  "ao_run res ded [] M s = Some (M, s)"
| "ao_run res ded ((dev, AoSetMaxPosition max_steps) # calls) M s = ao_run res ded calls max_steps s"
| "ao_run res ded ((dev, AoRequest req) # calls) M s =
    (case ao_serve res ded (SetMaxPosition M dev) req s of None \<Rightarrow> None | Some s \<Rightarrow> ao_run res ded calls M s)"

lemma completion_ok [simp]:
  "ao_ok M (ao_ScheduleAxisMove opts a) = ao_ok M a" "ao_ok M (OnMoveComplete opts r a) = ao_ok M a"
  by (simp_all add: ao_ScheduleAxisMove_def OnMoveComplete_def ao_ok_def within_travel_def Let_def)

lemma settings_ok [simp]:
  "ao_ok M (fst (SetSamplesToAverage n a)) = ao_ok M a" "ao_ok M (fst (SetBumpPercentage dev n u a)) = ao_ok M a"
  "ao_ok M (fst (SetBumpMaxStepsPerCycle w a)) = ao_ok M a" "ao_ok M (SetBumpOnDither b a) = ao_ok M a"
  "ao_ok M (fst (SetCalibrationStepsPerIteration n a)) = ao_ok M a" "ao_ok M (a\<lparr>m_guidingEnabled := b\<rparr>) = ao_ok M a"
  "ao_ok M (a\<lparr>m_errorCount := n\<rparr>) = ao_ok M a" "ao_ok M (ForceStartBump a) = ao_ok M a" "ao_ok M (forget_average a) = ao_ok M a"
  by (simp_all add: SetSamplesToAverage_def SetBumpPercentage_def SetBumpMaxStepsPerCycle_def SetBumpOnDither_def InitBumpPositions_def
      SetCalibrationStepsPerIteration_def ForceStartBump_def forget_average_def ao_emit_def ao_ok_def within_travel_def Let_def)

context ao_bounded
begin

lemma HandleAxisMove_ok: "ao_ok L a \<Longrightarrow> ao_ok L (HandleAxisMove dev opts mv a)"
  by (auto simp: HandleAxisMove_def ao_MoveAxis3_def split: prod.splits dest: MoveAxis_kept)

lemma ao_do_moves_ok: "ao_ok L a \<Longrightarrow> ao_ok L (ao_do_moves dev opts moves a)"
proof -
  have 1: "ao_ok L (fold (\<lambda>mv. ao_ScheduleAxisMove opts) moves a) = ao_ok L a" for a
    by (induction moves arbitrary: a) simp_all
  have 2: "ao_ok L b \<Longrightarrow> ao_ok L (fold (HandleAxisMove dev opts) moves b)" for b
    by (induction moves arbitrary: b) (simp_all add: HandleAxisMove_ok)
  show "ao_ok L a \<Longrightarrow> ao_ok L (ao_do_moves dev opts moves a)" by (simp add: ao_do_moves_def 1 2)
qed

lemma Center_ok: "ao_ok L a \<Longrightarrow> ao_ok L (fst (Center dev a))"
  using center [OF prod.collapse [symmetric], of a] travel bound by (simp add: ao_ok_def within_travel_def ZeroCurrentPosition_def)

lemma ao_unit_ok:
  assumes "ao_unit dev req a = Some a'" "ao_ok L a"
  shows "ao_ok L a'"
proof (cases req)
  case (AoFrame e loc)
  then obtain b moves err where b: "ao_UpdateCalibrationState dev e loc a = Some (b, moves, err)"
    "a' = ao_do_moves dev MOVEOPTS_CALIBRATION_MOVE moves b"
    using assms(1) by (auto simp: ao_frame_def split: option.splits)
  then show ?thesis using assms(2) ao_do_moves_ok ao_view_ok [OF ao_UpdateCalibrationState_view [OF b(1)], of L] by simp
next
  case (AoBegin loc)
  then show ?thesis using assms ao_view_ok [OF ao_BeginCalibration_view, of L loc "a\<lparr>m_errorCount := 0\<rparr>"] by auto
next
  case (AoAdjust e)
  then show ?thesis using assms ao_view_ok [OF ao_view_calibrating(7), of L e a] by auto
next
  case AoStopped
  let ?a = "a\<lparr>ao_avgOffset := Invalidate (ao_avgOffset a), ao_forceStartBump := False, ao_bumpInProgress := False,
           ao_bumpStepWeight := 1, ao_bumpTimeoutAlertSent := False\<rparr>"
  have "a' = fst (MoveToCenter dev ?a)" using assms(1) AoStopped by (simp add: ao_NotifyGuidingStopped_def)
  moreover have "ao_ok L ?a" using assms(2) by (simp add: ao_ok_def within_travel_def)
  ultimately show ?thesis using MoveToCenter_ok [OF prod.collapse [symmetric]] by simp
qed (use assms ao_do_moves_ok Center_ok in auto)

lemma ao_serve_ok:
  assumes "ao_serve res ded dev req s = Some s'" "ao_ok L (ms_mount s)"
  shows "ao_ok L (ms_mount s')"
proof (cases "\<exists>e info ofs opts. req = AoOffset e info ofs opts")
  case False
  then have "ao_serve res ded dev req s = map_option (\<lambda>a. s\<lparr>ms_mount := a\<rparr>) (ao_unit dev req (ms_mount s))" by (cases req) simp_all
  with assms(1) obtain a where "ao_unit dev req (ms_mount s) = Some a" "s' = s\<lparr>ms_mount := a\<rparr>" by (auto simp: map_option_case split: option.splits)
  then show ?thesis using ao_unit_ok assms(2) by simp
next
  case True
  then obtain e info ofs opts where req: "req = AoOffset e info ofs opts" by blast
  define t where "t = s\<lparr>ms_mount := ao_ScheduleAxisMove opts (ms_mount s)\<rparr>"
  obtain s1 ofs1 r1 where m: "MoveOffset (ao_MoveAxis dev) (\<lambda>o' y n a. (a, n)) (\<lambda>o' y a. Some a) res ded info ofs opts t = Some (s1, ofs1, r1)"
    using assms(1) req by (auto simp: ao_MoveOffset_def t_def split: option.splits)
  define a where "a = (ms_mount s1)\<lparr>ao_lastLimited := (case ms_lastStep s1 of None \<Rightarrow> ao_lastLimited (ms_mount s1)
                   | Some st \<Rightarrow> gs_decLimited st \<or> gs_raLimited st)\<rparr>"
  have "ao_ok L (ms_mount s1)" by (rule keeper.MoveOffset_inv [OF m]) (use assms(2) in \<open>auto simp: t_def\<close>)
  then have a: "ao_ok L a" using ao_view_ok [OF ao_view_update(14), of L _ "ms_mount s1"] by (simp add: a_def)
  obtain s2 r2 where 2: "ao_MoveOffset dev res ded e info ofs opts t = Some (s2, r2)"
    and s': "s' = s2\<lparr>ms_mount := OnMoveComplete opts r2 (ms_mount s2)\<rparr>"
    using assms(1) req by (auto simp: t_def split: option.splits)
  have "ms_mount s2 = a \<or> after_move e (cameraOfs ofs1) opts a = Some (ms_mount s2)"
    using 2 by (auto simp: ao_MoveOffset_def m Let_def simp flip: a_def split: if_splits)
  then have "ao_ok L (ms_mount s2)" using a ao_view_ok [OF after_move_view] by blast
  then show ?thesis by (simp add: s')
qed

end

text \<open>C33: Over any sequence of requests (axis moves, guide offsets, calibration frames with their moves, changes of the
  settings and of the travel itself, stops and re-centers), whatever the device answers to each step, the unit stays strictly inside the
  largest travel that was set so far, in both axes, and every step sent to the device is positive and no longer than that travel
  between its two limits. While the travel is not changed that is the travel that is set. When it is lowered while the unit
  stands farther out, the unit stays outside the new travel until it is moved back, but is never moved farther out than the old one.\<close>
theorem ao_stays_in_travel:
  assumes "ao_run res ded calls M s = Some (M', s')" and "\<forall>(dev, call) \<in> set calls. \<exists>N. ao_driver dev N"
    and "1 \<le> M" "M \<le> L" "\<forall>(dev, call) \<in> set calls. \<forall>n. call = AoSetMaxPosition n \<longrightarrow> 1 \<le> n \<and> n \<le> L"
    and "within_travel L (ms_mount s)" "ao_trace (ms_mount s) = []"
  shows "within_travel L (ms_mount s') \<and> steps_within L (steps_of (ao_trace (ms_mount s')))"
proof -
  have "ao_ok L (ms_mount s')" if "ao_ok L (ms_mount s)"
    using assms(1-5) that
  proof (induction res ded calls M s rule: ao_run.induct)
    case (3 res ded dev req calls M s)
    obtain t where t: "ao_serve res ded (SetMaxPosition M dev) req s = Some t" "ao_run res ded calls M t = Some (M', s')"
      using "3.prems"(1) by (auto split: option.splits)
    have "ao_bounded (SetMaxPosition M dev) M L"
      using ao_driver_travel "3.prems"(2-4) by (auto simp: ao_bounded_def ao_bounded_axioms_def)
    then have "ao_ok L (ms_mount t)" by (rule ao_bounded.ao_serve_ok [OF _ t(1) "3.prems"(6)])
    then show ?case using "3.IH" [OF t] "3.prems"(2-5) by simp
  qed auto
  then show ?thesis using assms(6,7) by (simp add: ao_ok_def)
qed

theorem ao_stays_in_travel_witness:
  "\<exists>s'. ao_run (\<lambda>g x. (g, Some x)) (\<lambda>g. (g, 0)) [(sim_device 10, AoRequest (AoAxis EAST 30 0)), (sim_device 10, AoSetMaxPosition 8),
        (indi_device True True 10, AoRequest (AoAxis SOUTH 9 0))] 10
      \<lparr>ms_mount = sample_ao, ms_xAlgo = None :: unit option, ms_yAlgo = None, ms_lastStep = None :: unit guide_step_info option\<rparr> = Some (8, s') \<and>
    within_travel 10 (ms_mount s') \<and> steps_of (ao_trace (ms_mount s')) = [(EAST, 9), (SOUTH, 7)]"
proof -
  let ?s = "\<lparr>ms_mount = sample_ao, ms_xAlgo = None :: unit option, ms_yAlgo = None, ms_lastStep = None :: unit guide_step_info option\<rparr>"
  let ?calls = "[(sim_device 10, AoRequest (AoAxis EAST 30 0)), (sim_device 10, AoSetMaxPosition 8),
        (indi_device True True 10, AoRequest (AoAxis SOUTH 9 0))]"
  obtain s' where s': "ao_run (\<lambda>g x. (g, Some x)) (\<lambda>g. (g, 0)) ?calls 10 ?s = Some (8, s')"
    "steps_of (ao_trace (ms_mount s')) = [(EAST, 9), (SOUTH, 7)]"
    by (simp add: ao_do_moves_def ao_ScheduleAxisMove_def HandleAxisMove_def ao_MoveAxis3_def ao_MoveAxis_def do_step_def
        OnMoveComplete_def WouldHitLimit_def sim_device_def indi_device_def sample_ao_def ao_emit_def SetMaxPosition_def)
  moreover have "\<forall>(dev, call) \<in> set ?calls. \<exists>N. ao_driver dev N"
    using sim.ao_driver_axioms [of 10] indi.ao_driver_axioms [of True True 10] by auto
  ultimately show ?thesis
    using ao_stays_in_travel [OF s'(1), of 10] by (auto simp: within_travel_def sample_ao_def)
qed

text \<open>The travel was lowered from more than 20 to 10 while the unit stood at 20: a move is reported as done, by minus 11 steps.\<close>

lemma travel_lowered_off_center:
  "ao_MoveAxis (sim_device 10) EAST 1 0 (sample_ao\<lparr>ao_xOffset := 20\<rparr>) =
    (sample_ao\<lparr>ao_xOffset := 20\<rparr>, MOVE_OK, \<lparr>amountMoved = -11, limited = True\<rparr>)"
  by (simp add: ao_MoveAxis_def do_step_def WouldHitLimit_def sim_device_def sample_ao_def)

text \<open>The calibration says it is complete without having returned to the center.\<close>

lemma recenter_stops_early:
  assumes "ao_xOffset a = -3" "ao_yOffset a = 3" "ao_calibrationStepsPerIteration a = 4"
  shows "ao_recenter e a = ao_complete e (a\<lparr>ao_calibrationState := AO_COMPLETE\<rparr>)"
  using assms by (simp add: ao_recenter_def)

subsection \<open>The unit as the guider's mount\<close>

definition AO_CalibrationTotDistance :: int where "AO_CalibrationTotDistance = 25"

definition ao_ops :: "ao_device \<Rightarrow> ao_env \<Rightarrow> stepguider mount_ops" where
  \<comment> \<open>a change of the image scale only touches the telescope's mount\<close>
  "ao_ops dev e =
    \<lparr>op_IsConnected = m_connected, op_IsCalibrated = MountIsCalibrated, op_IsBusy = (\<lambda>a. m_requestCount a > 0),
     op_IsStepGuider = (\<lambda>a. True), op_CalibrationTotDistance = (\<lambda>a. AO_CalibrationTotDistance),
     op_BeginCalibration = (\<lambda>p a. ao_BeginCalibration p (a\<lparr>m_errorCount := 0\<rparr>)),
     op_UpdateCalibrationState = ao_frame dev e, op_AdjustCalibration = (\<lambda>a. (ao_AdjustCalibration e a, False)),
     op_ImageScaleChange = (\<lambda>a. a)\<rparr>"

interpretation ao_mount: guider_mount "ao_ops dev e" for dev e
proof
  fix a a' :: stepguider
  show "op_IsCalibrated (ao_ops dev e) a \<Longrightarrow> MountIsCalibrated a" by (simp add: ao_ops_def)
  have set: "MountIsCalibrated (ao_SetCalibration stamp cal b)" if "MountIsCalibrated b" for stamp cal and b :: stepguider
    using that by (auto simp: ao_SetCalibration_def mount_SetCalibration_def MountIsCalibrated_iff ao_emit_def Let_def split: prod.splits)
  show "op_AdjustCalibration (ao_ops dev e) a = (a', False) \<Longrightarrow> MountIsCalibrated a \<Longrightarrow> MountIsCalibrated a'"
    using set by (auto simp: ao_ops_def ao_AdjustCalibration_def Let_def split: if_splits)
qed

end
