(* ===== verification/StepGuiderCal.thy ===== *)
theory StepGuiderCal
  imports StepGuiderRun
begin

text \<open>
  The calibration of an adaptive optics unit that does every step: it ends, it measures the rates and angles of the unit
  exactly, and it leaves the unit near the center. The proof follows the cases of the switch from the last one to the first;
  a measure over the phases bounds the number of frames.
\<close>

subsection \<open>An ideal unit\<close>

definition loc_at :: "real \<times> real \<Rightarrow> real \<times> real \<Rightarrow> real \<times> real \<Rightarrow> int \<Rightarrow> int \<Rightarrow> sodium_point" where
  \<comment> \<open>the star, when the unit stands at \<open>(x, y)\<close>: one step right moves it by \<open>u\<close>, one step up by \<open>v\<close>\<close>
  "loc_at p u v x y = SodiumPoint (fst p + of_int x * fst u + of_int y * fst v) (snd p + of_int x * snd u + of_int y * snd v)"

definition ideal_star :: "real \<times> real \<Rightarrow> real \<times> real \<Rightarrow> real \<times> real \<Rightarrow> stepguider \<Rightarrow> sodium_point" where
  "ideal_star p u v a = loc_at p u v (ao_xOffset a) (ao_yOffset a)"

definition ideal_device :: "ao_device \<Rightarrow> int \<Rightarrow> bool" where
  "ideal_device dev M \<longleftrightarrow> 2 \<le> M \<and> (\<forall>d. MaxPosition dev d = M) \<and> (\<forall>d n. d \<noteq> NONE \<longrightarrow> Step dev d n = STEP_OK)"

fun ao_calibrate :: "nat \<Rightarrow> ao_device \<Rightarrow> ao_env \<Rightarrow> (stepguider \<Rightarrow> sodium_point) \<Rightarrow> stepguider \<Rightarrow> (stepguider \<times> bool) option" where
  \<comment> \<open>the frames of a calibration, until it is complete or has failed; \<^term>\<open>None\<close>: not after that many frames\<close>
  "ao_calibrate 0 dev e star a = None"
| "ao_calibrate (Suc k) dev e star a =
    (case ao_frame dev e (star a) a of None \<Rightarrow> None
     | Some (a, err) \<Rightarrow> if err then Some (a, True) else if MountIsCalibrated a then Some (a, False) else ao_calibrate k dev e star a)"

subsection \<open>Phases\<close>

definition same_loc :: "sodium_point \<Rightarrow> sodium_point \<Rightarrow> bool" where
  "same_loc q s \<longleftrightarrow> m_valid s \<and> X s = X q \<and> Y s = Y q"

definition sampling :: "sodium_point \<Rightarrow> stepguider \<Rightarrow> bool" where
  "sampling q a \<longleftrightarrow> (let n = ao_calibrationAverageSamples a; av = ao_calibrationAveragedLocation a
     in 0 \<le> n \<and> n < ao_samplesToAverage a \<and> m_valid av \<and> X av = of_int n * X q \<and> Y av = of_int n * Y q)"

definition x_measured :: "real \<times> real \<Rightarrow> calibration \<Rightarrow> bool" where
  "x_measured u c \<longleftrightarrow> xRate c = hypot (fst u) (snd u) \<and> xAngle c = atan2 (snd u) (fst u)"

definition y_measured :: "real \<times> real \<Rightarrow> calibration \<Rightarrow> bool" where
  "y_measured v c \<longleftrightarrow> yRate c = hypot (fst v) (snd v) \<and> yAngle c = atan2 (snd v) (fst v)"

definition phase_at :: "int \<Rightarrow> real \<times> real \<Rightarrow> real \<times> real \<Rightarrow> real \<times> real \<Rightarrow> stepguider \<Rightarrow> int \<Rightarrow> int \<Rightarrow> ao_cal_state \<Rightarrow> bool" where
  \<comment> \<open>what holds of the unit between two frames, in each state, when it stands at \<open>(x, y)\<close>\<close>
  "phase_at M p u v a x y st \<longleftrightarrow> \<bar>x\<bar> < M \<and> \<bar>y\<bar> < M \<and> \<not> m_calibrated a \<and> 1 \<le> ao_samplesToAverage a \<and> 1 \<le> ao_calibrationStepsPerIteration a \<and>
    (let R = M - 1; start = ao_calibrationStartingLocation a; c = ao_calibration a; q = loc_at p u v x y
     in case st of
        AO_GOTO_LOWER_RIGHT_CORNER \<Rightarrow> True
      | AO_AVERAGE_STARTING_LOCATION \<Rightarrow> x = R \<and> y = - R \<and> sampling q a
      | AO_GO_LEFT \<Rightarrow> y = - R \<and> same_loc (loc_at p u v R (- R)) start
      | AO_AVERAGE_CENTER_LOCATION \<Rightarrow> x = - R \<and> y = - R \<and> same_loc (loc_at p u v R (- R)) start \<and> sampling q a
      | AO_GO_UP \<Rightarrow> x = - R \<and> same_loc (loc_at p u v (- R) (- R)) start \<and> x_measured u c
      | AO_AVERAGE_ENDING_LOCATION \<Rightarrow> x = - R \<and> y = R \<and> same_loc (loc_at p u v (- R) (- R)) start \<and> sampling q a \<and> x_measured u c
      | AO_RECENTER \<Rightarrow> x \<le> 0 \<and> 0 \<le> y \<and> x_measured u c \<and> y_measured v c
      | _ \<Rightarrow> False)"

definition phase :: "int \<Rightarrow> real \<times> real \<Rightarrow> real \<times> real \<Rightarrow> real \<times> real \<Rightarrow> stepguider \<Rightarrow> int \<Rightarrow> int \<Rightarrow> bool" where
  "phase M p u v a x y \<longleftrightarrow> phase_at M p u v a x y (ao_calibrationState a)"

definition frames_left :: "int \<Rightarrow> stepguider \<Rightarrow> int \<Rightarrow> int \<Rightarrow> int" where
  \<comment> \<open>a bound on the frames a calibration still takes\<close>
  "frames_left M a x y =
    (let R = M - 1; T = 2 * R; S = ao_samplesToAverage a; n = ao_calibrationAverageSamples a
     in case ao_calibrationState a of
        AO_GOTO_LOWER_RIGHT_CORNER \<Rightarrow> 3 * T + 3 * S + max (R + y) (R - x)
      | AO_AVERAGE_STARTING_LOCATION \<Rightarrow> 3 * T + 2 * S + (S - n)
      | AO_GO_LEFT \<Rightarrow> 2 * T + 2 * S + (R + x)
      | AO_AVERAGE_CENTER_LOCATION \<Rightarrow> 2 * T + S + (S - n)
      | AO_GO_UP \<Rightarrow> T + S + (R - y)
      | AO_AVERAGE_ENDING_LOCATION \<Rightarrow> T + (S - n)
      | AO_RECENTER \<Rightarrow> max (- x) y
      | _ \<Rightarrow> 0)"

fun moved_x :: "int \<Rightarrow> int \<Rightarrow> guide_direction \<Rightarrow> int \<Rightarrow> int" where
  "moved_x M P EAST x = x + min (M - 1 - x) P" | "moved_x M P WEST x = x - min (M - 1 + x) P" | "moved_x M P _ x = x"

fun moved_y :: "int \<Rightarrow> int \<Rightarrow> guide_direction \<Rightarrow> int \<Rightarrow> int" where
  "moved_y M P NORTH y = y + min (M - 1 - y) P" | "moved_y M P SOUTH y = y - min (M - 1 + y) P" | "moved_y M P _ y = y"

definition outcome ::
    "int \<Rightarrow> real \<times> real \<Rightarrow> real \<times> real \<Rightarrow> real \<times> real \<Rightarrow> int \<Rightarrow> int \<Rightarrow> int \<Rightarrow> (stepguider \<times> guide_direction list) option \<Rightarrow> bool" where
  \<comment> \<open>of a frame of the switch: the calibration is complete, or the moves lead to a phase with fewer frames left\<close>
  "outcome M p u v k x y res \<longleftrightarrow> (\<exists>a ds. res = Some (a, ds) \<and> ds \<in> {[], [NORTH], [WEST], [SOUTH], [EAST], [SOUTH, EAST]} \<and>
    (let P = ao_calibrationStepsPerIteration a
     in if m_calibrated a then ds = [] \<and> x_measured u (ao_calibration a) \<and> y_measured v (ao_calibration a) \<and> \<bar>x\<bar> < P \<and> \<bar>y\<bar> < P
        else let x' = fold (moved_x M P) ds x; y' = fold (moved_y M P) ds y in phase M p u v a x' y' \<and> frames_left M a x' y' < k))"

lemma outcome_mono: "outcome M p u v k x y res \<Longrightarrow> k \<le> k' \<Longrightarrow> outcome M p u v k' x y res"
  by (fastforce simp: outcome_def Let_def split: if_splits)

subsection \<open>The cases of the switch\<close>

lemma SetCalibration_fields [simp]:
  "m_calibrated (ao_SetCalibration st cal a)" "ao_calibration (ao_SetCalibration st cal a) = cal"
proof -
  obtain b ws where b: "mount_SetCalibration ''stepguider'' st cal (a\<lparr>ao_calibration := cal\<rparr>) = (b, ws)" by fastforce
  have "m_calibrated b" "ao_calibration b = cal" using b by (auto simp: mount_SetCalibration_def Let_def)
  then show "m_calibrated (ao_SetCalibration st cal a)" "ao_calibration (ao_SetCalibration st cal a) = cal"
    using b by (simp_all add: ao_SetCalibration_def ao_emit_def)
qed

lemma ao_view_perIter: "ao_view a' = ao_view a \<Longrightarrow> ao_calibrationStepsPerIteration a' = ao_calibrationStepsPerIteration a"
  by (simp add: ao_view_def)

lemma complete_outcome:
  assumes "x_measured u (ao_calibration a)" "y_measured v (ao_calibration a)"
    and "\<bar>x\<bar> < ao_calibrationStepsPerIteration a" "\<bar>y\<bar> < ao_calibrationStepsPerIteration a"
  shows "outcome M p u v k x y (ao_complete e a)"
proof -
  obtain a' where a': "ao_complete e a = Some (a', [])" by (simp add: ao_complete_def Let_def)
  have "m_calibrated a'" "x_measured u (ao_calibration a')" "y_measured v (ao_calibration a')"
    using a' assms(1,2) by (auto simp: ao_complete_def Let_def ao_emit_def ao_SetCalibrationDetails_def x_measured_def y_measured_def)
  then show ?thesis using a' ao_view_perIter [OF ao_complete_view [OF a']] assms(3,4) by (simp add: outcome_def Let_def)
qed

lemma recenter_outcome:
  assumes ph: "phase M p u v a x y" "ao_calibrationState a = AO_RECENTER" and pos: "ao_xOffset a = x" "ao_yOffset a = y"
    and k: "max (- x) y \<le> k"
  shows "outcome M p u v k x y (ao_recenter e a)"
proof -
  let ?P = "ao_calibrationStepsPerIteration a"
  have P: "1 \<le> ?P" "\<bar>x\<bar> < M" "\<bar>y\<bar> < M" "x \<le> 0" "0 \<le> y" "x_measured u (ao_calibration a)" "y_measured v (ao_calibration a)" "\<not> m_calibrated a"
    using ph by (auto simp: phase_def phase_at_def Let_def)
  show ?thesis
  proof (cases "- x \<ge> ?P \<or> y \<ge> ?P")
    case True
    define ds where "ds = (if y \<ge> ?P then [SOUTH] else []) @ (if - x \<ge> ?P then [EAST] else [])"
    have r: "ao_recenter e a = Some (a, ds)" using True pos by (simp add: ao_recenter_def ds_def Let_def)
    define x' y' where "x' = fold (moved_x M ?P) ds x" and "y' = fold (moved_y M ?P) ds y"
    have x': "x' = (if - x \<ge> ?P then x + ?P else x)" and y': "y' = (if y \<ge> ?P then y - ?P else y)"
      using P by (auto simp: x'_def y'_def ds_def)
    have "phase M p u v a x' y'" "frames_left M a x' y' < k"
      using P ph True k by (auto simp: phase_def phase_at_def frames_left_def Let_def x' y')
    moreover have "ds \<in> {[], [NORTH], [WEST], [SOUTH], [EAST], [SOUTH, EAST]}" by (simp add: ds_def)
    ultimately show ?thesis using P(8) by (simp add: outcome_def r Let_def flip: x'_def y'_def)
  next
    case False
    then have "ao_recenter e a = ao_complete e (a\<lparr>ao_calibrationState := AO_COMPLETE\<rparr>)"
      using pos by (simp add: ao_recenter_def Let_def)
    then show ?thesis using complete_outcome [of u "a\<lparr>ao_calibrationState := AO_COMPLETE\<rparr>" v x y M p k e] P False by auto
  qed
qed

lemma sample_next:
  assumes "sampling q a"
  shows "ao_calibrationAverageSamples (ao_sample q a) < ao_samplesToAverage (ao_sample q a) \<Longrightarrow> sampling q (ao_sample q a)"
    "same_loc q (ao_average (ao_sample q a))"
proof -
  define n where "n = ao_calibrationAverageSamples a"
  have n: "0 \<le> n" "m_valid (ao_calibrationAveragedLocation a)" "X (ao_calibrationAveragedLocation a) = of_int n * X q"
    "Y (ao_calibrationAveragedLocation a) = of_int n * Y q"
    using assms by (simp_all add: sampling_def Let_def n_def)
  have sumX: "X (ao_calibrationAveragedLocation (ao_sample q a)) = of_int (n + 1) * X q"
    "Y (ao_calibrationAveragedLocation (ao_sample q a)) = of_int (n + 1) * Y q"
    by (simp_all add: ao_sample_def n algebra_simps)
  have "(of_int (n + 1) :: real) \<noteq> 0" using n(1) by linarith
  then show "same_loc q (ao_average (ao_sample q a))"
    using n sumX by (simp add: same_loc_def ao_average_def) (simp add: ao_sample_def flip: n_def)
  assume "ao_calibrationAverageSamples (ao_sample q a) < ao_samplesToAverage (ao_sample q a)"
  then show "sampling q (ao_sample q a)" using n sumX by (simp add: sampling_def Let_def) (simp add: ao_sample_def flip: n_def)
qed

lemma start_sampling: "1 \<le> ao_samplesToAverage a \<Longrightarrow> sampling q (start_average st a)"
  by (simp add: sampling_def start_average_def SetXY_def)

lemma atan2_scale: "0 < k \<Longrightarrow> atan2 (k * y) (k * x) = atan2 y x"
  by (auto simp: atan2_def zero_less_mult_iff mult_less_0_iff zero_le_mult_iff)

lemma measured_distance:
  \<comment> \<open>two places a travel \<open>k\<close> apart along \<open>w\<close>\<close>
  assumes "X s = X r + k * fst w" "Y s = Y r + k * snd w" "0 < k"
  shows "Distance s r = k * hypot (fst w) (snd w)" "Distance r s = k * hypot (fst w) (snd w)" "Angle s r = atan2 (snd w) (fst w)"
proof -
  have d: "dX s r = k * fst w" "dY s r = k * snd w" "dX r s = - (k * fst w)" "dY r s = - (k * snd w)"
    using assms by (simp_all add: dX_def dY_def)
  show "Distance s r = k * hypot (fst w) (snd w)" "Distance r s = k * hypot (fst w) (snd w)"
    using assms(3) by (simp_all add: Distance_def d hypot_scale)
  show "Angle s r = atan2 (snd w) (fst w)"
    using assms(3) atan2_scale [of k "snd w" "fst w"] by (simp add: Angle_def d Let_def) (simp add: atan2_def)
qed

text \<open>In each case \<open>loc\<close> is the star at \<open>(x, y)\<close>, where the unit stands.\<close>

definition here :: "int \<Rightarrow> real \<times> real \<Rightarrow> real \<times> real \<Rightarrow> real \<times> real \<Rightarrow> stepguider \<Rightarrow> int \<Rightarrow> int \<Rightarrow> ao_cal_state \<Rightarrow> bool" where
  "here M p u v a x y st \<longleftrightarrow> phase_at M p u v a x y st \<and> ao_calibrationState a = st \<and> ao_xOffset a = x \<and> ao_yOffset a = y"

lemma ao_sample_fields [simp]:
  "ao_calibrationState (ao_sample q a) = ao_calibrationState a" "ao_calibration (ao_sample q a) = ao_calibration a"
  "ao_calibrationStartingLocation (ao_sample q a) = ao_calibrationStartingLocation a" "m_calibrated (ao_sample q a) = m_calibrated a"
  "ao_samplesToAverage (ao_sample q a) = ao_samplesToAverage a"
  "ao_calibrationStepsPerIteration (ao_sample q a) = ao_calibrationStepsPerIteration a"
  "ao_calibrationAverageSamples (ao_sample q a) = ao_calibrationAverageSamples a + 1"
  "ao_xOffset (ao_sample q a) = ao_xOffset a" "ao_yOffset (ao_sample q a) = ao_yOffset a"
  by (simp_all add: ao_sample_def)

definition averaging :: "ao_cal_state \<Rightarrow> bool" where
  "averaging st \<longleftrightarrow> st \<in> {AO_AVERAGE_STARTING_LOCATION, AO_AVERAGE_CENTER_LOCATION, AO_AVERAGE_ENDING_LOCATION}"

lemma averaging_sampling: "phase_at M p u v a x y st \<Longrightarrow> averaging st \<Longrightarrow> sampling (loc_at p u v x y) a"
  unfolding phase_at_def Let_def averaging_def by (cases st) auto

lemma keep_sampling:
  assumes h: "here M p u v a x y st" "averaging st" and k: "frames_left M a x y \<le> k"
    and more: "ao_calibrationAverageSamples a + 1 < ao_samplesToAverage a"
  shows "outcome M p u v k x y (Some (ao_sample (loc_at p u v x y) a, []))"
proof -
  let ?q = "loc_at p u v x y"
  have ph: "phase_at M p u v a x y st" "ao_calibrationState a = st" using h(1) by (simp_all add: here_def)
  have s: "sampling ?q (ao_sample ?q a)" using sample_next(1) [OF averaging_sampling [OF ph(1) h(2)]] more by simp
  have "phase M p u v (ao_sample ?q a) x y"
    using ph h(2) s by (auto simp: phase_def phase_at_def averaging_def Let_def)
  moreover have "frames_left M (ao_sample ?q a) x y < k"
    using ph(2) h(2) k by (auto simp: frames_left_def averaging_def Let_def)
  moreover have "\<not> m_calibrated a" using ph(1) by (simp add: phase_at_def)
  ultimately show ?thesis by (simp add: outcome_def Let_def)
qed

lemma travelled:
  \<comment> \<open>the rate that two averaged positions a whole travel apart give\<close>
  assumes "same_loc (loc_at p u v x1 y1) s" "same_loc (loc_at p u v x2 y2) r"
    and "of_int x1 * fst u + of_int y1 * fst v = of_int x2 * fst u + of_int y2 * fst v + of_int T * fst w"
    and "of_int x1 * snd u + of_int y1 * snd v = of_int x2 * snd u + of_int y2 * snd v + of_int T * snd w" and "0 < T"
  shows "fdiv (Distance s r) (of_int T) = Some (hypot (fst w) (snd w))" "fdiv (Distance r s) (of_int T) = Some (hypot (fst w) (snd w))"
    "Angle s r = atan2 (snd w) (fst w)"
proof -
  have d: "X s = X r + of_int T * fst w" "Y s = Y r + of_int T * snd w" "0 < (of_int T :: real)"
    using assms by (simp_all add: same_loc_def loc_at_def)
  note md = measured_distance [OF d]
  show "fdiv (Distance s r) (of_int T) = Some (hypot (fst w) (snd w))" "fdiv (Distance r s) (of_int T) = Some (hypot (fst w) (snd w))"
    "Angle s r = atan2 (snd w) (fst w)"
    using md d(3) by (simp_all add: fdiv_def)
qed

lemma average_ending_outcome:
  assumes h: "here M p u v a x y AO_AVERAGE_ENDING_LOCATION" and dev: "ideal_device dev M" and k: "frames_left M a x y \<le> k"
  shows "outcome M p u v k x y (ao_average_ending dev e (loc_at p u v x y) a)"
proof -
  let ?q = "loc_at p u v x y" let ?b = "ao_sample ?q a" and ?R = "M - 1"
  have ph: "phase_at M p u v a x y AO_AVERAGE_ENDING_LOCATION" "ao_calibrationState a = AO_AVERAGE_ENDING_LOCATION"
    "ao_xOffset a = x" "ao_yOffset a = y"
    using h by (simp_all add: here_def)
  from ph(1) have s: "sampling ?q a" "x = - ?R" "y = ?R" "same_loc (loc_at p u v (- ?R) (- ?R)) (ao_calibrationStartingLocation a)"
    "x_measured u (ao_calibration a)"
    unfolding phase_at_def Let_def ao_cal_state.case by blast+
  have M: "2 \<le> M" "\<And>d. MaxPosition dev d = M" using dev by (simp_all add: ideal_device_def)
  show ?thesis
  proof (cases "ao_calibrationAverageSamples a + 1 < ao_samplesToAverage a")
    case True
    then show ?thesis using keep_sampling [OF h _ k] by (simp add: ao_average_ending_def averaging_def)
  next
    case False
    let ?start = "ao_calibrationStartingLocation a"
    define r where "r = ao_average ?b"
    have r: "same_loc ?q r" using sample_next(2) [OF s(1)] by (simp add: r_def)
    have T: "MaxPosition dev NORTH - 1 + (MaxPosition dev SOUTH - 1) = 2 * ?R" by (simp add: M(2))
    have t: "fdiv (Distance ?start r) (of_int (2 * ?R)) = Some (hypot (fst v) (snd v))" "Angle r ?start = atan2 (snd v) (fst v)"
      using travelled [OF r s(4), of "2 * ?R" v] M(1) s(2,3) by (simp_all add: algebra_simps)
    define c where "c = (ao_calibration a)\<lparr>yAngle := Angle r ?start, yRate := hypot (fst v) (snd v)\<rparr>"
    define a2 where "a2 = (ao_emit [AoDirectComplete ''Up'' (Angle r ?start) (hypot (fst v) (snd v))]
      (?b\<lparr>ao_calibrationAveragedLocation := r, ao_calibration := c\<rparr>))\<lparr>ao_calibrationStartingLocation := r, ao_calibrationState := AO_RECENTER\<rparr>"
    have e: "ao_average_ending dev e ?q a = ao_recenter e a2"
      unfolding ao_average_ending_def Let_def T ao_sample_fields t(1) option.case r_def [symmetric] using False
      by (simp add: c_def a2_def)
    have "x_measured u c" "y_measured v c" using s(5) t(2) by (simp_all add: c_def x_measured_def y_measured_def)
    then have "phase M p u v a2 x y" using ph(1) s(2,3) M(1)
      by (simp add: phase_def phase_at_def Let_def a2_def ao_emit_def)
    moreover have "max (- x) y \<le> k"
      using k s(1-3) M(1) ph(2) by (simp add: frames_left_def sampling_def Let_def)
    moreover have "ao_calibrationState a2 = AO_RECENTER" "ao_xOffset a2 = x" "ao_yOffset a2 = y"
      using ph(3,4) by (simp_all add: a2_def ao_emit_def)
    ultimately show ?thesis unfolding e by (intro recenter_outcome)
  qed
qed

lemma start_average_fields [simp]:
  "ao_calibrationState (start_average st a) = st" "ao_calibration (start_average st a) = ao_calibration a"
  "ao_calibrationStartingLocation (start_average st a) = ao_calibrationStartingLocation a" "m_calibrated (start_average st a) = m_calibrated a"
  "ao_samplesToAverage (start_average st a) = ao_samplesToAverage a"
  "ao_calibrationStepsPerIteration (start_average st a) = ao_calibrationStepsPerIteration a"
  "ao_calibrationAverageSamples (start_average st a) = 0"
  "ao_xOffset (start_average st a) = ao_xOffset a" "ao_yOffset (start_average st a) = ao_yOffset a"
  by (simp_all add: start_average_def)

lemma record_step_fields [simp]:
  "ao_calibrationState (add_upStep dx dy a) = ao_calibrationState a" "ao_calibration (add_upStep dx dy a) = ao_calibration a"
  "ao_calibrationStartingLocation (add_upStep dx dy a) = ao_calibrationStartingLocation a" "m_calibrated (add_upStep dx dy a) = m_calibrated a"
  "ao_samplesToAverage (add_upStep dx dy a) = ao_samplesToAverage a"
  "ao_calibrationStepsPerIteration (add_upStep dx dy a) = ao_calibrationStepsPerIteration a"
  "ao_calibrationAverageSamples (add_upStep dx dy a) = ao_calibrationAverageSamples a"
  "ao_xOffset (add_upStep dx dy a) = ao_xOffset a" "ao_yOffset (add_upStep dx dy a) = ao_yOffset a"
  "ao_calibrationState (add_leftStep dx dy a) = ao_calibrationState a" "ao_calibration (add_leftStep dx dy a) = ao_calibration a"
  "ao_calibrationStartingLocation (add_leftStep dx dy a) = ao_calibrationStartingLocation a" "m_calibrated (add_leftStep dx dy a) = m_calibrated a"
  "ao_samplesToAverage (add_leftStep dx dy a) = ao_samplesToAverage a"
  "ao_calibrationStepsPerIteration (add_leftStep dx dy a) = ao_calibrationStepsPerIteration a"
  "ao_calibrationAverageSamples (add_leftStep dx dy a) = ao_calibrationAverageSamples a"
  "ao_xOffset (add_leftStep dx dy a) = ao_xOffset a" "ao_yOffset (add_leftStep dx dy a) = ao_yOffset a"
  "ao_calibrationState (ao_emit evs a) = ao_calibrationState a" "ao_calibration (ao_emit evs a) = ao_calibration a"
  "ao_calibrationStartingLocation (ao_emit evs a) = ao_calibrationStartingLocation a" "m_calibrated (ao_emit evs a) = m_calibrated a"
  "ao_samplesToAverage (ao_emit evs a) = ao_samplesToAverage a"
  "ao_calibrationStepsPerIteration (ao_emit evs a) = ao_calibrationStepsPerIteration a"
  "ao_calibrationAverageSamples (ao_emit evs a) = ao_calibrationAverageSamples a"
  "ao_xOffset (ao_emit evs a) = ao_xOffset a" "ao_yOffset (ao_emit evs a) = ao_yOffset a"
  by (simp_all add: add_upStep_def add_leftStep_def ao_emit_def)

lemma go_up_outcome:
  assumes h: "here M p u v a x y AO_GO_UP" and dev: "ideal_device dev M" and k: "frames_left M a x y \<le> k"
  shows "outcome M p u v k x y (ao_go_up dev e (loc_at p u v x y) a)"
proof -
  let ?q = "loc_at p u v x y" and ?R = "M - 1" and ?P = "ao_calibrationStepsPerIteration a"
  have ph: "phase_at M p u v a x y AO_GO_UP" "ao_calibrationState a = AO_GO_UP" "ao_xOffset a = x" "ao_yOffset a = y"
    using h by (simp_all add: here_def)
  from ph(1) have s: "x = - ?R" "same_loc (loc_at p u v (- ?R) (- ?R)) (ao_calibrationStartingLocation a)"
    "x_measured u (ao_calibration a)" "\<not> m_calibrated a" "1 \<le> ?P" "\<bar>x\<bar> < M" "\<bar>y\<bar> < M" "1 \<le> ao_samplesToAverage a"
    unfolding phase_at_def Let_def ao_cal_state.case by blast+
  have rem: "steps_remaining dev NORTH a = ?R - y" using dev ph(4) by (simp add: steps_remaining_def ideal_device_def)
  show ?thesis
  proof (cases "?R - y > 0")
    case True
    let ?start = "ao_calibrationStartingLocation a" and ?a = "a\<lparr>ao_calibrationIterations := ao_calibrationIterations a + 1\<rparr>"
    define b where "b = add_upStep (dX ?start ?q) (dY ?start ?q)
      (ao_emit [AoCalibrationStep ''Up'' (iter_remaining dev NORTH ?a) (dX ?start ?q) (dY ?start ?q) ?q (Distance ?start ?q)] ?a)"
    have e: "ao_go_up dev e ?q a = Some (b, [NORTH])" using True rem by (simp add: ao_go_up_def b_def Let_def)
    define y' where "y' = y + min (?R - y) ?P"
    have y': "\<bar>y'\<bar> < M" "y' > y" using True s(5,7) by (auto simp: y'_def)
    have "phase M p u v b x y'" using ph(1,2) y' s by (simp add: phase_def phase_at_def Let_def b_def)
    moreover have "frames_left M b x y' < k" using k ph(2) y' by (simp add: frames_left_def Let_def b_def)
    ultimately show ?thesis unfolding e using s(4) by (simp add: outcome_def Let_def) (simp add: b_def y'_def)
  next
    case False
    let ?b = "start_average AO_AVERAGE_ENDING_LOCATION a"
    have y: "y = ?R" using False s(7) by simp
    have e: "ao_go_up dev e ?q a = ao_average_ending dev e ?q ?b" using False rem by (simp add: ao_go_up_def)
    have "here M p u v ?b x y AO_AVERAGE_ENDING_LOCATION"
      using ph s y start_sampling [OF s(8)] by (simp add: here_def phase_at_def Let_def)
    moreover have "frames_left M ?b x y \<le> k" using k ph(2) y by (simp add: frames_left_def Let_def)
    ultimately show ?thesis unfolding e by (intro average_ending_outcome [OF _ dev])
  qed
qed

lemma average_center_outcome:
  assumes h: "here M p u v a x y AO_AVERAGE_CENTER_LOCATION" and dev: "ideal_device dev M" and k: "frames_left M a x y \<le> k"
  shows "outcome M p u v k x y (ao_average_center dev e (loc_at p u v x y) a)"
proof -
  let ?q = "loc_at p u v x y" let ?b = "ao_sample ?q a" and ?R = "M - 1"
  have ph: "phase_at M p u v a x y AO_AVERAGE_CENTER_LOCATION" "ao_calibrationState a = AO_AVERAGE_CENTER_LOCATION"
    "ao_xOffset a = x" "ao_yOffset a = y"
    using h by (simp_all add: here_def)
  from ph(1) have s: "sampling ?q a" "x = - ?R" "y = - ?R" "same_loc (loc_at p u v ?R (- ?R)) (ao_calibrationStartingLocation a)"
    unfolding phase_at_def Let_def ao_cal_state.case by blast+
  have M: "2 \<le> M" "\<And>d. MaxPosition dev d = M" using dev by (simp_all add: ideal_device_def)
  show ?thesis
  proof (cases "ao_calibrationAverageSamples a + 1 < ao_samplesToAverage a")
    case True
    then show ?thesis using keep_sampling [OF h _ k] by (simp add: ao_average_center_def averaging_def)
  next
    case False
    let ?start = "ao_calibrationStartingLocation a"
    define r where "r = ao_average ?b"
    have r: "same_loc ?q r" using sample_next(2) [OF s(1)] by (simp add: r_def)
    have T: "MaxPosition dev WEST - 1 + (MaxPosition dev EAST - 1) = 2 * ?R" by (simp add: M(2))
    have t: "fdiv (Distance ?start r) (of_int (2 * ?R)) = Some (hypot (fst u) (snd u))" "Angle ?start r = atan2 (snd u) (fst u)"
      using travelled [OF s(4) r, of "2 * ?R" u] M(1) s(2,3) by (simp_all add: algebra_simps)
    define c where "c = (ao_calibration a)\<lparr>xAngle := Angle ?start r, xRate := hypot (fst u) (snd u)\<rparr>"
    define a2 where "a2 = (ao_emit [AoDirectComplete ''Left'' (Angle ?start r) (hypot (fst u) (snd u))]
      (?b\<lparr>ao_calibrationAveragedLocation := r, ao_calibration := c\<rparr>))
      \<lparr>ao_calibrationStartingLocation := r, ao_calibrationIterations := 0, ao_calibrationState := AO_GO_UP\<rparr>"
    have e: "ao_average_center dev e ?q a = ao_go_up dev e ?q a2"
      unfolding ao_average_center_def Let_def T ao_sample_fields t(1) option.case r_def [symmetric] using False
      by (simp add: c_def a2_def)
    have "x_measured u c" using t(2) by (simp add: c_def x_measured_def)
    then have "here M p u v a2 x y AO_GO_UP" using ph r s(2,3) M(1)
      by (simp add: here_def phase_at_def Let_def a2_def)
    moreover have "frames_left M a2 x y \<le> k"
      using k s(1-3) M(1) ph(2) by (simp add: frames_left_def sampling_def Let_def a2_def)
    ultimately show ?thesis unfolding e by (intro go_up_outcome [OF _ dev])
  qed
qed

lemma go_left_outcome:
  assumes h: "here M p u v a x y AO_GO_LEFT" and dev: "ideal_device dev M" and k: "frames_left M a x y \<le> k"
  shows "outcome M p u v k x y (ao_go_left dev e (loc_at p u v x y) a)"
proof -
  let ?q = "loc_at p u v x y" and ?R = "M - 1" and ?P = "ao_calibrationStepsPerIteration a"
  have ph: "phase_at M p u v a x y AO_GO_LEFT" "ao_calibrationState a = AO_GO_LEFT" "ao_xOffset a = x" "ao_yOffset a = y"
    using h by (simp_all add: here_def)
  from ph(1) have s: "y = - ?R" "same_loc (loc_at p u v ?R (- ?R)) (ao_calibrationStartingLocation a)"
    "\<not> m_calibrated a" "1 \<le> ?P" "\<bar>x\<bar> < M" "\<bar>y\<bar> < M" "1 \<le> ao_samplesToAverage a"
    unfolding phase_at_def Let_def ao_cal_state.case by blast+
  have rem: "steps_remaining dev WEST a = ?R + x" using dev ph(3) by (simp add: steps_remaining_def ideal_device_def)
  show ?thesis
  proof (cases "?R + x > 0")
    case True
    let ?start = "ao_calibrationStartingLocation a" and ?a = "a\<lparr>ao_calibrationIterations := ao_calibrationIterations a + 1\<rparr>"
    define b where "b = add_leftStep (dX ?start ?q) (dY ?start ?q)
      (ao_emit [AoCalibrationStep ''Left'' (iter_remaining dev WEST ?a) (dX ?start ?q) (dY ?start ?q) ?q (Distance ?start ?q)] ?a)"
    have e: "ao_go_left dev e ?q a = Some (b, [WEST])" using True rem by (simp add: ao_go_left_def b_def Let_def)
    define x' where "x' = x - min (?R + x) ?P"
    have x': "\<bar>x'\<bar> < M" "x' < x" using True s(4,5) by (auto simp: x'_def)
    have "phase M p u v b x' y" using ph(1,2) x' s by (simp add: phase_def phase_at_def Let_def b_def)
    moreover have "frames_left M b x' y < k" using k ph(2) x' by (simp add: frames_left_def Let_def b_def)
    ultimately show ?thesis unfolding e using s(3) by (simp add: outcome_def Let_def) (simp add: b_def x'_def)
  next
    case False
    let ?b = "start_average AO_AVERAGE_CENTER_LOCATION a"
    have x: "x = - ?R" using False s(5) by simp
    have e: "ao_go_left dev e ?q a = ao_average_center dev e ?q ?b" using False rem by (simp add: ao_go_left_def)
    have "here M p u v ?b x y AO_AVERAGE_CENTER_LOCATION"
      using ph s x start_sampling [OF s(7)] by (simp add: here_def phase_at_def Let_def)
    moreover have "frames_left M ?b x y \<le> k" using k ph(2) x by (simp add: frames_left_def Let_def)
    ultimately show ?thesis unfolding e by (intro average_center_outcome [OF _ dev])
  qed
qed

lemma average_starting_outcome:
  assumes h: "here M p u v a x y AO_AVERAGE_STARTING_LOCATION" and dev: "ideal_device dev M" and k: "frames_left M a x y \<le> k"
  shows "outcome M p u v k x y (ao_average_starting dev e (loc_at p u v x y) a)"
proof -
  let ?q = "loc_at p u v x y" let ?b = "ao_sample ?q a" and ?R = "M - 1"
  have ph: "phase_at M p u v a x y AO_AVERAGE_STARTING_LOCATION" "ao_calibrationState a = AO_AVERAGE_STARTING_LOCATION"
    "ao_xOffset a = x" "ao_yOffset a = y"
    using h by (simp_all add: here_def)
  from ph(1) have s: "sampling ?q a" "x = ?R" "y = - ?R" unfolding phase_at_def Let_def ao_cal_state.case by blast+
  have M: "2 \<le> M" using dev by (simp add: ideal_device_def)
  show ?thesis
  proof (cases "ao_calibrationAverageSamples a + 1 < ao_samplesToAverage a")
    case True
    then show ?thesis using keep_sampling [OF h _ k] by (simp add: ao_average_starting_def averaging_def)
  next
    case False
    define r where "r = ao_average ?b"
    have r: "same_loc ?q r" using sample_next(2) [OF s(1)] by (simp add: r_def)
    define a2 where "a2 = ?b\<lparr>ao_calibrationAveragedLocation := r, ao_calibrationStartingLocation := r,
               ao_calibrationIterations := 0, ao_calibrationState := AO_GO_LEFT\<rparr>"
    have e: "ao_average_starting dev e ?q a = ao_go_left dev e ?q a2"
      using False by (simp add: ao_average_starting_def Let_def a2_def r_def)
    have "here M p u v a2 x y AO_GO_LEFT" using ph r s(2,3) M
      by (simp add: here_def phase_at_def Let_def a2_def)
    moreover have "frames_left M a2 x y \<le> k"
      using k s(1-3) M ph(2) by (simp add: frames_left_def sampling_def Let_def a2_def)
    ultimately show ?thesis unfolding e by (intro go_left_outcome [OF _ dev])
  qed
qed

lemma DIV_ROUND_UP_pos: "0 \<le> n \<Longrightarrow> 1 \<le> k \<Longrightarrow> 0 < DIV_ROUND_UP n k \<longleftrightarrow> 0 < n"
  by (auto simp: DIV_ROUND_UP_def signed_divide_int_def sgn_if abs_if pos_imp_zdiv_pos_iff div_pos_pos_trivial)

lemma goto_corner_outcome:
  assumes h: "here M p u v a x y AO_GOTO_LOWER_RIGHT_CORNER" and dev: "ideal_device dev M" and k: "frames_left M a x y \<le> k"
  shows "outcome M p u v k x y (ao_goto_corner dev e (loc_at p u v x y) a)"
proof -
  let ?q = "loc_at p u v x y" and ?R = "M - 1" and ?P = "ao_calibrationStepsPerIteration a"
  have ph: "phase_at M p u v a x y AO_GOTO_LOWER_RIGHT_CORNER" "ao_calibrationState a = AO_GOTO_LOWER_RIGHT_CORNER"
    "ao_xOffset a = x" "ao_yOffset a = y"
    using h by (simp_all add: here_def)
  from ph(1) have s: "\<not> m_calibrated a" "1 \<le> ?P" "\<bar>x\<bar> < M" "\<bar>y\<bar> < M" "1 \<le> ao_samplesToAverage a"
    by (simp_all add: phase_at_def)
  have rem: "steps_remaining dev SOUTH a = ?R + y" "steps_remaining dev EAST a = ?R - x"
    using dev ph(3,4) by (simp_all add: steps_remaining_def ideal_device_def)
  have g: "max (iter_remaining dev SOUTH a) (iter_remaining dev EAST a) > 0 \<longleftrightarrow> ?R + y > 0 \<or> ?R - x > 0"
    using DIV_ROUND_UP_pos [of "?R + y" ?P] DIV_ROUND_UP_pos [of "?R - x" ?P] s(2-4)
    by (auto simp: iter_remaining_def rem less_max_iff_disj)
  show ?thesis
  proof (cases "?R + y > 0 \<or> ?R - x > 0")
    case True
    define ds where "ds = (if ?R + y > 0 then [SOUTH] else []) @ (if ?R - x > 0 then [EAST] else [])"
    have e: "ao_goto_corner dev e ?q a = Some (a, ds)" using True by (simp add: ao_goto_corner_def g rem ds_def)
    define x' y' where "x' = fold (moved_x M ?P) ds x" and "y' = fold (moved_y M ?P) ds y"
    have x': "x' = x + min (?R - x) ?P" and y': "y' = y - min (?R + y) ?P" using s by (auto simp: x'_def y'_def ds_def)
    have "phase M p u v a x' y'" using ph(1,2) s(2-4) by (auto simp: phase_def phase_at_def Let_def x' y')
    moreover have "frames_left M a x' y' < k"
    proof -
      have less: "max (?R + y') (?R - x') < max (?R + y) (?R - x)" using True s(2-4) by (auto simp: x' y')
      have fl: "frames_left M a i j = 3 * (2 * ?R) + 3 * ao_samplesToAverage a + max (?R + j) (?R - i)" for i j
        using ph(2) by (simp add: frames_left_def Let_def)
      show ?thesis using k less fl [of x y] fl [of x' y'] by linarith
    qed
    moreover have "ds \<in> {[], [NORTH], [WEST], [SOUTH], [EAST], [SOUTH, EAST]}" by (simp add: ds_def)
    ultimately show ?thesis unfolding e using s(1) by (simp add: outcome_def Let_def flip: x'_def y'_def)
  next
    case False
    let ?b = "start_average AO_AVERAGE_STARTING_LOCATION a"
    have xy: "x = ?R" "y = - ?R" using False s(3,4) by linarith+
    have e: "ao_goto_corner dev e ?q a = ao_average_starting dev e ?q ?b" using False g by (simp add: ao_goto_corner_def)
    have "here M p u v ?b x y AO_AVERAGE_STARTING_LOCATION"
      using ph s xy start_sampling [OF s(5)] by (simp add: here_def phase_at_def Let_def)
    moreover have "frames_left M ?b x y \<le> k" using k ph(2) xy by (simp add: frames_left_def Let_def)
    ultimately show ?thesis unfolding e by (intro average_starting_outcome [OF _ dev])
  qed
qed

lemma switch_outcome:
  assumes ph: "phase M p u v a x y" and pos: "ao_xOffset a = x" "ao_yOffset a = y" and dev: "ideal_device dev M"
  shows "outcome M p u v (frames_left M a x y) x y (ao_switch dev e (loc_at p u v x y) a)"
proof -
  have h: "here M p u v a x y (ao_calibrationState a)" using ph pos by (simp add: here_def phase_def)
  show ?thesis
  proof (cases "ao_calibrationState a")
    case AO_RECENTER
    then show ?thesis using recenter_outcome [OF ph AO_RECENTER pos] by (simp add: ao_switch_def frames_left_def Let_def)
  qed (use h goto_corner_outcome [OF _ dev order_refl] average_starting_outcome [OF _ dev order_refl] go_left_outcome [OF _ dev order_refl]
      average_center_outcome [OF _ dev order_refl] go_up_outcome [OF _ dev order_refl] average_ending_outcome [OF _ dev order_refl]
      in \<open>simp_all add: ao_switch_def\<close>, simp_all add: here_def phase_at_def)
qed

subsection \<open>The moves of a frame\<close>

definition cal_view :: "stepguider \<Rightarrow> (ao_cal_state \<times> sodium_point \<times> sodium_point \<times> int \<times> calibration) \<times> (bool \<times> bool \<times> bool \<times> int) \<times> int \<times> int" where
  "cal_view a = ((ao_calibrationState a, ao_calibrationStartingLocation a, ao_calibrationAveragedLocation a,
     ao_calibrationAverageSamples a, ao_calibration a), (m_calibrated a, m_connected a, m_guidingEnabled a, m_errorCount a),
     ao_samplesToAverage a, ao_calibrationStepsPerIteration a)"

lemma cal_view_phase:
  assumes "cal_view a' = cal_view a"
  shows "phase M p u v a' x y = phase M p u v a x y" "frames_left M a' x y = frames_left M a x y"
proof -
  have *: "ao_calibrationState a' = ao_calibrationState a" "ao_calibrationStartingLocation a' = ao_calibrationStartingLocation a"
    "ao_calibrationAveragedLocation a' = ao_calibrationAveragedLocation a" "ao_calibrationAverageSamples a' = ao_calibrationAverageSamples a"
    "ao_calibration a' = ao_calibration a" "m_calibrated a' = m_calibrated a" "ao_samplesToAverage a' = ao_samplesToAverage a"
    "ao_calibrationStepsPerIteration a' = ao_calibrationStepsPerIteration a"
    using assms by (simp_all add: cal_view_def)
  show "phase M p u v a' x y = phase M p u v a x y" "frames_left M a' x y = frames_left M a x y"
    by (simp_all only: phase_def phase_at_def frames_left_def sampling_def *)
qed

lemma ideal_move:
  assumes dev: "ideal_device dev M" and en: "m_guidingEnabled a" and d: "axis_delta d = Some (i, j)"
    and n: "0 \<le> n" "n \<le> M - 1 - ao_Position d a"
  shows "cal_view (HandleAxisMove dev MOVEOPTS_CALIBRATION_MOVE (d, n) a) = cal_view a \<and>
    ao_xOffset (HandleAxisMove dev MOVEOPTS_CALIBRATION_MOVE (d, n) a) = ao_xOffset a + i * n \<and>
    ao_yOffset (HandleAxisMove dev MOVEOPTS_CALIBRATION_MOVE (d, n) a) = ao_yOffset a + j * n"
proof (cases "n = 0")
  case True
  then have "ao_MoveAxis3 dev d n MOVEOPTS_CALIBRATION_MOVE a = (a, MOVE_OK)"
    using en by (simp add: ao_MoveAxis3_def ao_MoveAxis_def)
  then show ?thesis using True by (simp add: HandleAxisMove_def OnMoveComplete_def cal_view_def Let_def)
next
  case False
  have "Step dev d n = STEP_OK" using dev d by (cases d) (simp_all add: ideal_device_def)
  moreover have "\<not> WouldHitLimit dev d n a" using dev n by (simp add: WouldHitLimit_def ideal_device_def)
  ultimately have "ao_MoveAxis3 dev d n MOVEOPTS_CALIBRATION_MOVE a =
      (ao_emit [AoStep d n] (a\<lparr>ao_xOffset := ao_xOffset a + i * n, ao_yOffset := ao_yOffset a + j * n\<rparr>), MOVE_OK)"
    using en d n(1) False by (simp add: ao_MoveAxis3_def ao_MoveAxis_def do_step_def)
  then show ?thesis by (simp add: HandleAxisMove_def OnMoveComplete_def cal_view_def Let_def) (simp add: ao_emit_def)
qed

lemma directed_move:
  fixes a :: stepguider
  defines "P \<equiv> ao_calibrationStepsPerIteration a"
  assumes dev: "ideal_device dev M" and en: "m_guidingEnabled a" and d: "d \<noteq> NONE" and t: "\<bar>ao_xOffset a\<bar> < M" "\<bar>ao_yOffset a\<bar> < M" "1 \<le> P"
    and n: "n = min (M - 1 - ao_Position d a) P"
  shows "cal_view (HandleAxisMove dev MOVEOPTS_CALIBRATION_MOVE (d, n) a) = cal_view a"
    "ao_xOffset (HandleAxisMove dev MOVEOPTS_CALIBRATION_MOVE (d, n) a) = moved_x M P d (ao_xOffset a)"
    "ao_yOffset (HandleAxisMove dev MOVEOPTS_CALIBRATION_MOVE (d, n) a) = moved_y M P d (ao_yOffset a)"
proof -
  obtain i j where ij: "axis_delta d = Some (i, j)" using d by (cases d) auto
  have n0: "0 \<le> n" "n \<le> M - 1 - ao_Position d a" using t n by (cases d; simp)+
  note m = ideal_move [OF dev en ij n0]
  show "cal_view (HandleAxisMove dev MOVEOPTS_CALIBRATION_MOVE (d, n) a) = cal_view a" using m by simp
  show "ao_xOffset (HandleAxisMove dev MOVEOPTS_CALIBRATION_MOVE (d, n) a) = moved_x M P d (ao_xOffset a)"
    "ao_yOffset (HandleAxisMove dev MOVEOPTS_CALIBRATION_MOVE (d, n) a) = moved_y M P d (ao_yOffset a)"
    using m ij n d by (cases d; auto)+
qed

lemma scheduled_view: "cal_view (fold (\<lambda>mv. ao_ScheduleAxisMove opts) moves a) = cal_view a"
  "ao_xOffset (fold (\<lambda>mv. ao_ScheduleAxisMove opts) moves a) = ao_xOffset a"
  "ao_yOffset (fold (\<lambda>mv. ao_ScheduleAxisMove opts) moves a) = ao_yOffset a"
proof -
  have "cal_view (ao_ScheduleAxisMove opts b) = cal_view b" "ao_xOffset (ao_ScheduleAxisMove opts b) = ao_xOffset b"
    "ao_yOffset (ao_ScheduleAxisMove opts b) = ao_yOffset b" for b
    by (simp_all add: ao_ScheduleAxisMove_def cal_view_def)
  then show "cal_view (fold (\<lambda>mv. ao_ScheduleAxisMove opts) moves a) = cal_view a"
    "ao_xOffset (fold (\<lambda>mv. ao_ScheduleAxisMove opts) moves a) = ao_xOffset a"
    "ao_yOffset (fold (\<lambda>mv. ao_ScheduleAxisMove opts) moves a) = ao_yOffset a"
    by (induction moves arbitrary: a) simp_all
qed

lemma frame_moves:
  assumes dev: "ideal_device dev M" and en: "m_guidingEnabled a" and t: "\<bar>x\<bar> < M" "\<bar>y\<bar> < M" "1 \<le> P"
    and ds: "ds \<in> {[], [NORTH], [WEST], [SOUTH], [EAST], [SOUTH, EAST]}"
    and pos: "ao_xOffset a = x" "ao_yOffset a = y" "ao_xOffset a0 = x" "ao_yOffset a0 = y"
    and P: "ao_calibrationStepsPerIteration a = P" "ao_calibrationStepsPerIteration a0 = P"
    and b: "b = ao_do_moves dev MOVEOPTS_CALIBRATION_MOVE (schedule_moves dev ds a0) a"
  shows "cal_view b = cal_view a \<and> ao_xOffset b = fold (moved_x M P) ds x \<and> ao_yOffset b = fold (moved_y M P) ds y"
proof -
  let ?H = "HandleAxisMove dev MOVEOPTS_CALIBRATION_MOVE"
  define c where "c = fold (\<lambda>mv. ao_ScheduleAxisMove MOVEOPTS_CALIBRATION_MOVE) (schedule_moves dev ds a0) a"
  have c: "cal_view c = cal_view a" "ao_xOffset c = x" "ao_yOffset c = y" by (simp_all only: c_def scheduled_view pos)
  have en': "m_guidingEnabled c" and P': "ao_calibrationStepsPerIteration c = P" using c(1) en P by (simp_all add: cal_view_def)
  have bc: "b = fold ?H (schedule_moves dev ds a0) c" by (simp add: b ao_do_moves_def c_def)
  have n: "steps_remaining dev d a0 = M - 1 - ao_Position d c" if "d \<noteq> NONE" for d
    using dev pos c that by (cases d) (simp_all add: steps_remaining_def ideal_device_def)
  have one: "cal_view (?H (d, min (steps_remaining dev d a0) P) c) = cal_view a"
    "ao_xOffset (?H (d, min (steps_remaining dev d a0) P) c) = moved_x M P d x"
    "ao_yOffset (?H (d, min (steps_remaining dev d a0) P) c) = moved_y M P d y" if "d \<noteq> NONE" for d
    using directed_move [OF dev en' that] t c P' n [OF that] by simp_all
  show ?thesis
  proof (cases "ds = [SOUTH, EAST]")
    case True
    define c1 where "c1 = ?H (SOUTH, min (steps_remaining dev SOUTH a0) P) c"
    have c1: "cal_view c1 = cal_view a" "ao_xOffset c1 = x" "ao_yOffset c1 = moved_y M P SOUTH y"
      using one [of SOUTH] by (simp_all add: c1_def)
    have en1: "m_guidingEnabled c1" and P1: "ao_calibrationStepsPerIteration c1 = P" using c1(1) en P by (simp_all add: cal_view_def)
    have "\<bar>moved_y M P SOUTH y\<bar> < M" using t by auto
    then have "cal_view (?H (EAST, min (steps_remaining dev EAST a0) P) c1) = cal_view a \<and>
      ao_xOffset (?H (EAST, min (steps_remaining dev EAST a0) P) c1) = moved_x M P EAST x \<and>
      ao_yOffset (?H (EAST, min (steps_remaining dev EAST a0) P) c1) = moved_y M P EAST (moved_y M P SOUTH y)"
      using directed_move [OF dev en1, of EAST] t(1,3) c1 P1 n [of EAST] c(2) by simp
    then show ?thesis using True P by (simp add: bc schedule_moves_def flip: c1_def)
  next
    case False
    then show ?thesis using ds one c P by (auto simp: bc schedule_moves_def)
  qed
qed

lemma set_start:
  fixes loc :: sodium_point
  assumes "phase M p u v a x y"
  defines "a' \<equiv> (if \<not> m_valid (ao_calibrationStartingLocation a) then a\<lparr>ao_calibrationStartingLocation := loc\<rparr> else a)"
  shows "phase M p u v a' x y" "frames_left M a' x y = frames_left M a x y" "ao_view a' = ao_view a"
  using assms(1) by (auto simp: a'_def phase_def phase_at_def frames_left_def same_loc_def sampling_def Let_def split: ao_cal_state.splits)

definition calibrating :: "int \<Rightarrow> real \<times> real \<Rightarrow> real \<times> real \<Rightarrow> real \<times> real \<Rightarrow> stepguider \<Rightarrow> bool" where
  "calibrating M p u v a \<longleftrightarrow> m_connected a \<and> m_guidingEnabled a \<and> m_errorCount a \<le> 12 \<and> phase M p u v a (ao_xOffset a) (ao_yOffset a)"

definition measured :: "real \<times> real \<Rightarrow> real \<times> real \<Rightarrow> stepguider \<Rightarrow> bool" where
  "measured u v a \<longleftrightarrow> MountIsCalibrated a \<and> x_measured u (ao_calibration a) \<and> y_measured v (ao_calibration a) \<and>
     \<bar>ao_xOffset a\<bar> < ao_calibrationStepsPerIteration a \<and> \<bar>ao_yOffset a\<bar> < ao_calibrationStepsPerIteration a"

definition frames_left_of :: "int \<Rightarrow> stepguider \<Rightarrow> int" where "frames_left_of M a = frames_left M a (ao_xOffset a) (ao_yOffset a)"

lemma calibration_frame:
  assumes c: "calibrating M p u v a" and dev: "ideal_device dev M"
  shows "\<exists>b. ao_frame dev e (ideal_star p u v a) a = Some (b, False) \<and>
    (if MountIsCalibrated b then measured u v b else calibrating M p u v b \<and> frames_left_of M b < frames_left_of M a)"
proof -
  define x y where "x = ao_xOffset a" and "y = ao_yOffset a"
  define a0 where "a0 = (if \<not> m_valid (ao_calibrationStartingLocation a) then a\<lparr>ao_calibrationStartingLocation := loc_at p u v x y\<rparr> else a)"
  have ph: "phase M p u v a x y" using c by (simp add: calibrating_def x_def y_def)
  note s = set_start [OF ph, of "loc_at p u v x y", folded a0_def]
  have pos0: "ao_xOffset a0 = x" "ao_yOffset a0 = y" using s(3) by (simp_all add: ao_view_def x_def y_def)
  have "outcome M p u v (frames_left M a x y) x y (ao_switch dev e (loc_at p u v x y) a0)"
    using switch_outcome [OF s(1) pos0 dev] by (simp add: s(2))
  then obtain a1 ds where sw: "ao_switch dev e (loc_at p u v x y) a0 = Some (a1, ds)"
    and ds: "ds \<in> {[], [NORTH], [WEST], [SOUTH], [EAST], [SOUTH, EAST]}"
    and out: "if m_calibrated a1 then ds = [] \<and> x_measured u (ao_calibration a1) \<and> y_measured v (ao_calibration a1) \<and>
        \<bar>x\<bar> < ao_calibrationStepsPerIteration a1 \<and> \<bar>y\<bar> < ao_calibrationStepsPerIteration a1
      else phase M p u v a1 (fold (moved_x M (ao_calibrationStepsPerIteration a1)) ds x) (fold (moved_y M (ao_calibrationStepsPerIteration a1)) ds y) \<and>
        frames_left M a1 (fold (moved_x M (ao_calibrationStepsPerIteration a1)) ds x)
          (fold (moved_y M (ao_calibrationStepsPerIteration a1)) ds y) < frames_left M a x y"
    unfolding outcome_def Let_def by blast
  have v1: "ao_view a1 = ao_view a" using ao_switch_view [OF sw] s(3) by simp
  let ?P = "ao_calibrationStepsPerIteration a" and ?moves = "schedule_moves dev ds a0"
  define a2 where "a2 = ao_emit (map (\<lambda>(d, n). AoScheduleMove d n MOVEOPTS_CALIBRATION_MOVE) ?moves) a1"
  define b where "b = ao_do_moves dev MOVEOPTS_CALIBRATION_MOVE ?moves a2"
  have fr: "ao_frame dev e (ideal_star p u v a) a = Some (b, False)"
    using c sw by (simp add: ao_frame_def ao_UpdateCalibrationState_def calibrating_def ideal_star_def Let_def b_def a2_def
        flip: x_def y_def a0_def)
  have P: "ao_calibrationStepsPerIteration a1 = ?P" "ao_calibrationStepsPerIteration a0 = ?P"
    using ao_view_perIter [OF v1] ao_view_perIter [OF s(3)] by simp_all
  have v2: "cal_view a2 = cal_view a1" "m_guidingEnabled a2" "ao_xOffset a2 = x" "ao_yOffset a2 = y"
    "ao_calibrationStepsPerIteration a2 = ?P"
    using v1 c P by (simp_all add: a2_def cal_view_def ao_view_def calibrating_def x_def y_def) (simp_all add: ao_emit_def)
  have t: "\<bar>x\<bar> < M" "\<bar>y\<bar> < M" "1 \<le> ?P" using ph by (simp_all add: phase_def phase_at_def)
  have m: "cal_view b = cal_view a1" "ao_xOffset b = fold (moved_x M ?P) ds x" "ao_yOffset b = fold (moved_y M ?P) ds y"
    using frame_moves [OF dev v2(2) t ds v2(3,4) pos0 v2(5) P(2) b_def] v2(1) by simp_all
  have f: "m_connected b" "m_guidingEnabled b" "m_errorCount b \<le> 12" "m_calibrated b = m_calibrated a1" "ao_calibration b = ao_calibration a1"
    "ao_calibrationStepsPerIteration b = ?P"
    using m(1) v1 c P(1) by (simp_all add: cal_view_def ao_view_def calibrating_def)
  show ?thesis
  proof (cases "m_calibrated a1")
    case True
    then have "measured u v b" using out f m P(1) by (simp add: measured_def MountIsCalibrated_def)
    then show ?thesis using fr by (simp add: measured_def)
  next
    case False
    then have "calibrating M p u v b \<and> frames_left_of M b < frames_left_of M a"
      using out f m P(1) cal_view_phase [OF m(1)] by (simp add: calibrating_def frames_left_of_def flip: x_def y_def)
    then show ?thesis using fr False f by (simp add: MountIsCalibrated_def)
  qed
qed

subsection \<open>The whole calibration\<close>

lemma ao_calibrate_ends:
  assumes "calibrating M p u v a" "ideal_device dev M" "frames_left_of M a < int n"
  shows "\<exists>c. ao_calibrate n dev e (ideal_star p u v) a = Some (c, False) \<and> measured u v c"
  using assms
proof (induction n arbitrary: a)
  case 0
  then have "frames_left_of M a < 0" by simp
  moreover have "0 \<le> frames_left_of M a"
    using 0(1,2) by (auto simp: calibrating_def phase_def phase_at_def frames_left_of_def frames_left_def sampling_def ideal_device_def Let_def
        split: ao_cal_state.splits)
  ultimately show ?case by simp
next
  case (Suc n)
  obtain b where b: "ao_frame dev e (ideal_star p u v a) a = Some (b, False)"
    "if MountIsCalibrated b then measured u v b else calibrating M p u v b \<and> frames_left_of M b < frames_left_of M a"
    using calibration_frame [OF Suc.prems(1,2)] by blast
  show ?case
  proof (cases "MountIsCalibrated b")
    case True
    then show ?thesis using b by simp
  next
    case False
    then have "\<exists>c. ao_calibrate n dev e (ideal_star p u v) b = Some (c, False) \<and> measured u v c"
      using b(2) Suc.prems by (intro Suc.IH) simp_all
    then show ?thesis using b(1) False by simp
  qed
qed

text \<open>C34: The calibration of a unit that does every step ends: from any position inside the travel \<open>-(M-1) .. M-1\<close> it is complete after at
  most \<open>8 (M-1) + 3 samples + 1\<close> frames. Where one step right moves the star by the vector \<open>u\<close> and one step up by \<open>v\<close>,
  it measures the rates \<open>|u|\<close> and \<open>|v|\<close> and the directions of \<open>u\<close> and \<open>v\<close> exactly, and it leaves the unit less
  than one iteration of steps away from the center in both axes.\<close>
theorem ao_calibration_measures:
  assumes dev: "ideal_device dev M" and "m_connected a" "m_guidingEnabled a" "within_travel M a"
    and "1 \<le> ao_samplesToAverage a" "1 \<le> ao_calibrationStepsPerIteration a"
    and b: "ao_BeginCalibration (ideal_star p u v a) (a\<lparr>m_errorCount := 0\<rparr>) = (b, err)"
    and n: "8 * (M - 1) + 3 * ao_samplesToAverage a < int n"
  shows "\<not> err \<and> (\<exists>c. ao_calibrate n dev e (ideal_star p u v) b = Some (c, False) \<and> MountIsCalibrated c \<and>
    xRate (ao_calibration c) = hypot (fst u) (snd u) \<and> xAngle (ao_calibration c) = atan2 (snd u) (fst u) \<and>
    yRate (ao_calibration c) = hypot (fst v) (snd v) \<and> yAngle (ao_calibration c) = atan2 (snd v) (fst v) \<and>
    \<bar>ao_xOffset c\<bar> < ao_calibrationStepsPerIteration c \<and> \<bar>ao_yOffset c\<bar> < ao_calibrationStepsPerIteration c)"
proof -
  have v: "m_valid (ideal_star p u v a)" by (simp add: ideal_star_def loc_at_def)
  have b': "\<not> err" "ao_calibrationState b = AO_GOTO_LOWER_RIGHT_CORNER" "\<not> m_calibrated b" "ao_view b = ao_view (a\<lparr>m_errorCount := 0\<rparr>)"
    using b v assms(2) ao_BeginCalibration_view [of "ideal_star p u v a" "a\<lparr>m_errorCount := 0\<rparr>"]
    by (auto simp: ao_BeginCalibration_def ao_ClearCalibration_def mount_ClearCalibration_def)
  have pos: "\<bar>ao_xOffset b\<bar> < M" "\<bar>ao_yOffset b\<bar> < M" "ao_samplesToAverage b = ao_samplesToAverage a"
    using b'(4) assms(4) by (simp_all add: ao_view_def within_travel_def)
  have "calibrating M p u v b"
    using b' assms(2-6) by (simp add: calibrating_def phase_def phase_at_def ao_view_def within_travel_def)
  moreover have "frames_left_of M b < int n" using pos b'(2) n by (auto simp: frames_left_of_def frames_left_def Let_def)
  ultimately obtain c where "ao_calibrate n dev e (ideal_star p u v) b = Some (c, False)" "measured u v c"
    using ao_calibrate_ends [OF _ dev] by blast
  then show ?thesis using b'(1) by (auto simp: measured_def x_measured_def y_measured_def)
qed

theorem ao_calibration_measures_witness:
  "\<forall>e. \<exists>c. ao_calibrate 100 (sim_device 10) e (ideal_star (100, 100) (3, 4) (0, 2))
      (fst (ao_BeginCalibration (ideal_star (100, 100) (3, 4) (0, 2) sample_ao) (sample_ao\<lparr>m_errorCount := 0\<rparr>))) = Some (c, False) \<and>
    xRate (ao_calibration c) = 5 \<and> yRate (ao_calibration c) = 2"
proof
  fix e
  let ?s = "ideal_star (100, 100) (3, 4) (0, 2)"
  obtain b err where b: "ao_BeginCalibration (?s sample_ao) (sample_ao\<lparr>m_errorCount := 0\<rparr>) = (b, err)" by fastforce
  have dev: "ideal_device (sim_device 10) 10" by (simp add: ideal_device_def sim_device_def)
  have s: "m_connected sample_ao" "m_guidingEnabled sample_ao" "within_travel 10 sample_ao" "1 \<le> ao_samplesToAverage sample_ao"
    "1 \<le> ao_calibrationStepsPerIteration sample_ao" "8 * (10 - 1) + 3 * ao_samplesToAverage sample_ao < int 100"
    by (simp_all add: sample_ao_def within_travel_def)
  have h: "hypot 3 4 = 5" "hypot 0 2 = 2" by (simp_all add: hypot_def)
  from ao_calibration_measures [OF dev s(1-5) b s(6), of e]
  show "\<exists>c. ao_calibrate 100 (sim_device 10) e ?s (fst (ao_BeginCalibration (?s sample_ao) (sample_ao\<lparr>m_errorCount := 0\<rparr>))) = Some (c, False) \<and>
      xRate (ao_calibration c) = 5 \<and> yRate (ao_calibration c) = 2"
    by (auto simp: b h)
qed

end
