(* ===== verification/ServerParams.thy ===== *)
theory ServerParams
  imports Json Guider ScopeSettings
begin

text \<open>
  \<open>event_server.cpp\<close>, first part: the sequences and name/value pairs responses and events are printed with
  (\<open>JSeq\<close>, \<open>NV\<close>), the JSON-RPC replies, and the readers of request parameters. A null pointer that is
  followed, and a union member that is not the one stored and holds a pointer, make a reader undefined: \<^term>\<open>None\<close>.
\<close>

subsection \<open>Sequences and name/value pairs\<close>

record jseq =
  m_s :: string
  m_first :: bool
  m_closed :: bool

definition jseq_new :: "char \<Rightarrow> jseq" where
  "jseq_new ldelim = \<lparr>m_s = [ldelim], m_first = True, m_closed = False\<rparr>"

definition jseq_close :: "char \<Rightarrow> jseq \<Rightarrow> jseq" where
  "jseq_close rdelim a = a\<lparr>m_s := m_s a @ [rdelim], m_closed := True\<rparr>"

definition jseq_str :: "char \<Rightarrow> jseq \<Rightarrow> jseq \<times> string" where
  "jseq_str rdelim a = (let a' = if m_closed a then a else jseq_close rdelim a in (a', m_s a'))"

definition jseq_add :: "string \<Rightarrow> jseq \<Rightarrow> jseq" where
  \<comment> \<open>\<open>JAry << str\<close>\<close>
  "jseq_add str a =
    (let a = if m_first a then a\<lparr>m_first := False\<rparr> else a\<lparr>m_s := m_s a @ '',''\<rparr> in a\<lparr>m_s := m_s a @ str\<rparr>)"

type_synonym nv = "string \<times> string" \<comment> \<open>\<open>NV\<close>: the name and the printed value\<close>

definition nv_text :: "nv \<Rightarrow> string" where
  "nv_text nv = [CHR 0x22] @ fst nv @ [CHR 0x22, CHR '':''] @ snd nv"

definition jobj_add :: "nv \<Rightarrow> jseq \<Rightarrow> jseq" where
  \<comment> \<open>\<open>JObj << NV\<close>\<close>
  "jobj_add nv j = jseq_add (nv_text nv) j"

definition obj_text :: "nv list \<Rightarrow> string" where "obj_text nvs = ''{'' @ commas (map nv_text nvs) @ ''}''"
definition ary_text :: "string list \<Rightarrow> string" where "ary_text ss = ''['' @ commas ss @ '']''"

lemma commas_snoc: "commas (ss @ [s]) = (if ss = [] then s else commas ss @ '','' @ s)"
  by (induction ss rule: commas.induct) auto

lemma fold_jseq_add:
  "fold jseq_add ss (jseq_new l) = \<lparr>m_s = l # commas ss, m_first = (ss = []), m_closed = False\<rparr>"
  by (induction ss rule: rev_induct) (simp_all add: jseq_new_def jseq_add_def Let_def commas_snoc)

text \<open>What is printed for a sequence filled element by element, however often it is asked for.\<close>

lemma jseq_prints:
  assumes "jseq_str r (fold jseq_add ss (jseq_new l)) = (a, t)"
  shows "t = l # commas ss @ [r]" "jseq_str r a = (a, t)"
  using assms by (auto simp: fold_jseq_add jseq_str_def jseq_close_def Let_def)

lemma jobj_prints: "snd (jseq_str (CHR ''}'') (fold jobj_add nvs (jseq_new (CHR ''{'')))) = obj_text nvs"
proof -
  have "fold jobj_add nvs = fold jseq_add (map nv_text nvs)" by (simp add: fold_map jobj_add_def [abs_def] comp_def)
  then show ?thesis by (simp add: fold_jseq_add jseq_str_def jseq_close_def Let_def obj_text_def)
qed

text \<open>The conversions of \<open>printf\<close> for floating point numbers: \<open>"%g"\<close>, and \<open>"%.*f"\<close> with its precision.\<close>

record fmts =
  pct_g :: "real \<Rightarrow> string"
  pct_f :: "nat \<Rightarrow> real \<Rightarrow> string"

definition nv_str :: "string \<Rightarrow> string" where "nv_str s = [CHR 0x22] @ json_escape s @ [CHR 0x22]"
definition nv_bool :: "bool \<Rightarrow> string" where "nv_bool b = (if b then ''true'' else ''false'')"
definition nv_null :: string where "nv_null = ''null''"
definition nv_ints :: "int list \<Rightarrow> string" where "nv_ints ns = ''['' @ commas (map format_d ns) @ '']''"

definition nv_point :: "fmts \<Rightarrow> 'a sodium_point_scheme \<Rightarrow> string" where
  \<comment> \<open>\<open>JAry << double\<close> prints two decimals\<close>
  "nv_point F p = ary_text [pct_f F 2 (X p), pct_f F 2 (Y p)]"

definition nv_size :: "int \<Rightarrow> int \<Rightarrow> string" where "nv_size x y = ary_text [format_d x, format_d y]"

definition point_nvs :: "fmts \<Rightarrow> 'a sodium_point_scheme \<Rightarrow> nv list" where
  \<comment> \<open>\<open>JObj << SodiumPoint\<close>\<close>
  "point_nvs F p = [(''X'', pct_f F 3 (X p)), (''Y'', pct_f F 3 (Y p))]"

subsection \<open>Replies\<close>

definition JSONRPC_PARSE_ERROR :: int where "JSONRPC_PARSE_ERROR = -32700"
definition JSONRPC_INVALID_REQUEST :: int where "JSONRPC_INVALID_REQUEST = -32600"
definition JSONRPC_METHOD_NOT_FOUND :: int where "JSONRPC_METHOD_NOT_FOUND = -32601"
definition JSONRPC_INVALID_PARAMS :: int where "JSONRPC_INVALID_PARAMS = -32602"
definition JSONRPC_INTERNAL_ERROR :: int where "JSONRPC_INTERNAL_ERROR = -32603"

definition jrpc_error :: "int \<Rightarrow> string \<Rightarrow> nv" where
  "jrpc_error code msg = (''error'', obj_text [(''code'', format_d code), (''message'', nv_str msg)])"

definition jrpc_result :: "string \<Rightarrow> nv" where "jrpc_result v = (''result'', v)"

definition jrpc_id :: "fmts \<Rightarrow> json_body option \<Rightarrow> nv option" where
  "jrpc_id F i = map_option (Pair ''id'') (case i of None \<Rightarrow> Some nv_null | Some j \<Rightarrow> json_format (pct_g F) j)"

definition JRpcResponse :: "nv list" where "JRpcResponse = [(''jsonrpc'', nv_str ''2.0'')]"

definition parser_error :: "int \<Rightarrow> string \<Rightarrow> string \<Rightarrow> string" where
  "parser_error line desc pos =
    ''invalid JSON request: '' @ desc @ '' on line '' @ format_d line @ '' at '' @ [CHR 0x22] @ take 12 pos @ ''...'' @ [CHR 0x22]"

subsection \<open>Requests\<close>

definition children :: "json_body \<Rightarrow> json_value list" where
  \<comment> \<open>what \<open>json_for_each\<close> visits\<close>
  "children j = (case j of JSON_OBJECT vs \<Rightarrow> vs | JSON_ARRAY vs \<Rightarrow> vs | _ \<Rightarrow> [])"

fun is_string :: "json_body \<Rightarrow> bool" where "is_string (JSON_STRING s) = True" | "is_string _ = False"

definition string_value :: "json_body \<Rightarrow> string option" where
  \<comment> \<open>\<^term>\<open>None\<close>: null, or the bytes of a number\<close>
  "string_value j = (case j of JSON_STRING s \<Rightarrow> Some s | _ \<Rightarrow> None)"

record request =
  rq_method :: "json_body option"
  rq_params :: "json_body option"
  rq_id :: "json_body option"

definition parse_member :: "json_value \<Rightarrow> request \<Rightarrow> request" where
  "parse_member t r =
    (case jname t of None \<Rightarrow> r
     | Some n \<Rightarrow>
         if is_string (jbody t) \<and> n = ''method'' then r\<lparr>rq_method := Some (jbody t)\<rparr>
         else if n = ''params'' then r\<lparr>rq_params := Some (jbody t)\<rparr>
         else if n = ''id'' then r\<lparr>rq_id := Some (jbody t)\<rparr> else r)"

definition parse_request :: "json_body \<Rightarrow> request" where
  "parse_request req = fold parse_member (children req) \<lparr>rq_method = None, rq_params = None, rq_id = None\<rparr>"

subsection \<open>Parameters\<close>

definition nameless :: "json_value list \<Rightarrow> bool" where "nameless vs \<longleftrightarrow> (\<exists>v\<in>set vs. jname v = None)"

definition Params :: "string list \<Rightarrow> json_body option \<Rightarrow> (string \<rightharpoonup> json_body) option" where
  \<comment> \<open>\<open>insert\<close> keeps the first of equal names; a name that is null makes no \<open>std::string\<close>\<close>
  "Params names params =
    (case params of None \<Rightarrow> Some Map.empty
     | Some (JSON_ARRAY vs) \<Rightarrow> Some (map_of (zip names (map jbody vs)))
     | Some (JSON_OBJECT vs) \<Rightarrow>
         if nameless vs then None else Some (map_of (map (\<lambda>v. (the (jname v), jbody v)) vs))
     | Some _ \<Rightarrow> Some Map.empty)"

definition float_param :: "json_body \<Rightarrow> real option" where
  \<comment> \<open>\<open>float_param\<close> and \<open>get_double\<close>\<close>
  "float_param j = (case j of JSON_INT n \<Rightarrow> Some (of_int n) | JSON_FLOAT x \<Rightarrow> Some x | _ \<Rightarrow> None)"

definition bool_param :: "json_body \<Rightarrow> bool option" where
  "bool_param j = (case j of JSON_BOOL b \<Rightarrow> Some b | JSON_INT n \<Rightarrow> Some (n \<noteq> 0) | _ \<Rightarrow> None)"

definition parse_rect :: "json_body \<Rightarrow> rect option" where
  "parse_rect j =
    (case j of JSON_ARRAY vs \<Rightarrow>
       (case map jbody vs of
          [JSON_INT x, JSON_INT y, JSON_INT w, JSON_INT h] \<Rightarrow> Some \<lparr>rX = x, rY = y, rW = w, rH = h\<rparr> | _ \<Rightarrow> None)
     | _ \<Rightarrow> None)"

definition parse_point :: "json_body \<Rightarrow> sodium_point option" where
  "parse_point j =
    (case j of JSON_ARRAY vs \<Rightarrow>
       (case map (float_param \<circ> jbody) vs of [Some x, Some y] \<Rightarrow> Some (SodiumPoint x y) | _ \<Rightarrow> None)
     | _ \<Rightarrow> None)"

definition string_val :: "json_body \<Rightarrow> string" where
  "string_val j = (case j of JSON_STRING s \<Rightarrow> s | _ \<Rightarrow> [])"

definition to_lower :: "char \<Rightarrow> char" where
  "to_lower c = (let n = of_char c :: nat in if 65 \<le> n \<and> n \<le> 90 then char_of (n + 32) else c)"

definition stricmp_eq :: "string \<Rightarrow> string \<Rightarrow> bool" where
  \<comment> \<open>\<open>wxStricmp\<close> returns 0\<close>
  "stricmp_eq s t \<longleftrightarrow> map to_lower s = map to_lower t"

datatype WHICH_MOUNT = MOUNT | AO | WHICH_MOUNT_BOTH | WHICH_MOUNT_ERR

definition which_mount :: "json_body option \<Rightarrow> WHICH_MOUNT" where
  "which_mount p =
    (case p of None \<Rightarrow> MOUNT
     | Some (JSON_STRING s) \<Rightarrow>
         if stricmp_eq s ''ao'' then AO else if stricmp_eq s ''mount'' then MOUNT
         else if stricmp_eq s ''both'' then WHICH_MOUNT_BOTH else WHICH_MOUNT_ERR
     | Some _ \<Rightarrow> WHICH_MOUNT_ERR)"

definition axis_param :: "(string \<rightharpoonup> json_body) \<Rightarrow> guide_axis option" where
  "axis_param p =
    (case p ''axis'' of Some (JSON_STRING s) \<Rightarrow>
       if stricmp_eq s ''ra'' \<or> stricmp_eq s ''x'' then Some GUIDE_RA
       else if stricmp_eq s ''dec'' \<or> stricmp_eq s ''y'' then Some GUIDE_DEC else None
     | _ \<Rightarrow> None)"

definition dirs :: "(string \<times> guide_direction) list" where
  "dirs = [(''n'', NORTH), (''s'', SOUTH), (''e'', EAST), (''w'', WEST),
     (''north'', NORTH), (''south'', SOUTH), (''east'', EAST), (''west'', WEST),
     (''up'', NORTH), (''down'', SOUTH), (''left'', WEST), (''right'', EAST)]"

definition dir_param :: "json_body option \<Rightarrow> guide_direction" where
  "dir_param p =
    (case p of Some (JSON_STRING s) \<Rightarrow> (case List.find (\<lambda>d. stricmp_eq s (fst d)) dirs of Some d \<Rightarrow> snd d | None \<Rightarrow> NONE)
     | _ \<Rightarrow> NONE)"

definition opposite :: "guide_direction \<Rightarrow> guide_direction" where
  \<comment> \<open>\<open>UP\<close>, \<open>DOWN\<close>, \<open>RIGHT\<close> and \<open>LEFT\<close> are north, south, east and west\<close>
  "opposite d = (case d of NORTH \<Rightarrow> SOUTH | SOUTH \<Rightarrow> NORTH | WEST \<Rightarrow> EAST | EAST \<Rightarrow> WEST | NONE \<Rightarrow> NONE)"

definition parity_str :: "guide_parity \<Rightarrow> string" where
  "parity_str p = (case p of GUIDE_PARITY_EVEN \<Rightarrow> ''+'' | GUIDE_PARITY_ODD \<Rightarrow> ''-'' | _ \<Rightarrow> ''?'')"

definition state_name :: "exposed_state \<Rightarrow> string" where
  "state_name st =
    (case st of EXPOSED_STATE_NONE \<Rightarrow> ''Stopped'' | EXPOSED_STATE_SELECTED \<Rightarrow> ''Selected''
     | EXPOSED_STATE_CALIBRATING \<Rightarrow> ''Calibrating'' | EXPOSED_STATE_GUIDING_LOCKED \<Rightarrow> ''Guiding''
     | EXPOSED_STATE_GUIDING_LOST \<Rightarrow> ''LostLock'' | EXPOSED_STATE_PAUSED \<Rightarrow> ''Paused''
     | EXPOSED_STATE_LOOPING \<Rightarrow> ''Looping'')"

subsection \<open>Settle parameters and lock position shifts\<close>

definition int_of_double :: "real \<Rightarrow> int option" where
  \<comment> \<open>a conversion of a whole \<open>double\<close> to \<open>int\<close>, undefined out of range\<close>
  "int_of_double x = (if is_int32 (trunc x) then Some (trunc x) else None)"

record settle_found =
  sf_settle :: settle_params
  found_pixels :: bool
  found_time :: bool
  found_timeout :: bool

definition settle_member :: "json_value \<Rightarrow> settle_found \<Rightarrow> settle_found option" where
  "settle_member t f =
    (case jname t of None \<Rightarrow> None
     | Some n \<Rightarrow>
         (case float_param (jbody t) of None \<Rightarrow> Some f
          | Some d \<Rightarrow>
              if n = ''pixels'' then Some (f\<lparr>sf_settle := (sf_settle f)\<lparr>tolerancePx := d\<rparr>, found_pixels := True\<rparr>)
              else if n = ''time'' then
                map_option (\<lambda>s. f\<lparr>sf_settle := (sf_settle f)\<lparr>settleTimeSec := s\<rparr>, found_time := True\<rparr>)
                  (int_of_double (of_int \<lfloor>d\<rfloor>))
              else if n = ''timeout'' then
                map_option (\<lambda>s. f\<lparr>sf_settle := (sf_settle f)\<lparr>timeoutSec := s\<rparr>, found_timeout := True\<rparr>)
                  (int_of_double (of_int \<lfloor>d\<rfloor>))
              else Some f))"

fun settle_members :: "json_value list \<Rightarrow> settle_found \<Rightarrow> settle_found option" where
  "settle_members [] f = Some f"
| "settle_members (t # ts) f = Option.bind (settle_member t f) (settle_members ts)"

definition settle_found0 :: settle_found where
  "settle_found0 = \<lparr>sf_settle = \<lparr>tolerancePx = 0, settleTimeSec = 0, timeoutSec = 0, frames = 0\<rparr>,
     found_pixels = False, found_time = False, found_timeout = False\<rparr>"

definition parse_settle :: "json_body \<Rightarrow> (string + settle_params) option" where
  \<comment> \<open>the error, or the parameters; the fields start out uninitialised and count only when all three were found\<close>
  "parse_settle j =
    map_option (\<lambda>f. if found_pixels f \<and> found_time f \<and> found_timeout f then Inr ((sf_settle f)\<lparr>frames := 99999\<rparr>)
                     else Inl ''invalid settle params'')
      (settle_members (children j) settle_found0)"

definition is_camera_shift_req :: "json_body option \<Rightarrow> bool option" where
  "is_camera_shift_req params =
    map_option (\<lambda>p. case p ''axes'' of None \<Rightarrow> False
                    | Some j \<Rightarrow> stricmp_eq (string_val j) ''x/y'' \<or> stricmp_eq (string_val j) ''camera'')
      (Params [''axes''] params)"

definition lock_shift_nvs :: "fmts \<Rightarrow> lock_pos_shift \<Rightarrow> nv list" where
  \<comment> \<open>\<open>JObj << LockPosShiftParams\<close>\<close>
  "lock_shift_nvs F l =
    (''enabled'', nv_bool (shiftEnabled l)) #
    (if m_valid (shiftRate l)
     then [(''rate'', nv_point F (shiftRate l)),
           (''units'', nv_str (if shiftUnits l = UNIT_ARCSEC then ''arcsec/hr'' else ''pixels/hr'')),
           (''axes'', nv_str (if shiftIsMountCoords l then ''RA/Dec'' else ''X/Y''))]
     else [])"

definition quoted :: "string \<Rightarrow> string" where "quoted s = [CHR 0x27] @ s @ [CHR 0x27]"

definition parse_lock_shift_params :: "json_body option \<Rightarrow> (string + lock_pos_shift) option" where
  \<comment> \<open>\<open>shiftEnabled\<close> is not set\<close>
  "parse_lock_shift_params params =
    (let params = (case params of Some (JSON_ARRAY vs) \<Rightarrow> (case vs of [] \<Rightarrow> None | v # _ \<Rightarrow> Some (jbody v)) | _ \<Rightarrow> params)
     in map_option (\<lambda>p.
          let text = (\<lambda>n. case p n of None \<Rightarrow> [] | Some j \<Rightarrow> string_val j)
          in case Option.bind (p ''rate'') parse_point of None \<Rightarrow> Inl ''expected rate value array''
             | Some rate \<Rightarrow>
                 (case (if stricmp_eq (text ''units'') ''arcsec/hr'' \<or> stricmp_eq (text ''units'') ''arc-sec/hr''
                        then Some UNIT_ARCSEC
                        else if stricmp_eq (text ''units'') ''pixels/hr'' then Some UNIT_PIXELS else None) of
                    None \<Rightarrow> Inl (''expected units '' @ quoted ''arcsec/hr'' @ '' or '' @ quoted ''pixels/hr'')
                  | Some units \<Rightarrow>
                      if stricmp_eq (text ''axes'') ''RA/Dec''
                      then Inr \<lparr>shiftEnabled = False, shiftRate = rate, shiftUnits = units, shiftIsMountCoords = True\<rparr>
                      else if stricmp_eq (text ''axes'') ''X/Y''
                      then Inr \<lparr>shiftEnabled = False, shiftRate = rate, shiftUnits = units, shiftIsMountCoords = False\<rparr>
                      else Inl (''expected axes '' @ quoted ''RA/Dec'' @ '' or '' @ quoted ''X/Y'')))
        (Params [''rate'', ''units'', ''axes''] params))"

end
