(* ===== verification/EventServer.thy ===== *)
theory EventServer
  imports ServerParams "HOL-Library.Monad_Syntax"
begin

text \<open>
  \<open>event_server.cpp\<close>, second part: the handlers of the requests. What the handlers read of the application is \<open>app_view\<close>,
  with the guider as theory Guider models it; what they make the application do is \<open>server_call\<close>. How a call changes the
  application's state \<open>'w\<close> is the argument \<open>exec\<close>, for which theory ServerRun takes the guide and dither controller. A
  handler ends with the state and the pairs it added to the response, or it does not return to the dispatcher:
  \<^term>\<open>None\<close> stands for a null or wild pointer that is followed, a conversion out of range, or an exception nobody catches.
\<close>

unbundle bit_operations_syntax

subsection \<open>The application\<close>

record camera_view =
  cv_name :: string
  cv_connected :: bool
  cv_has_shutter :: bool
  cv_binning :: int
  cv_width :: int \<comment> \<open>\<open>FullSize\<close>\<close>
  cv_height :: int
  cv_use_subframes :: bool
  cv_cooler :: "(bool \<times> real \<times> real \<times> real) option" \<comment> \<open>on, setpoint, power, temperature; \<^term>\<open>None\<close>: an error\<close>
  cv_temperature :: "real option"

record algo_view =
  av_class :: string
  av_names :: "string list"
  av_param :: "string \<Rightarrow> real option"

record mount_view =
  mv_name :: string
  mv_connected :: bool
  mv_calibrated :: bool
  mv_step_guider :: bool
  mv_busy :: bool
  mv_guiding_enabled :: bool
  mv_xAngle :: real
  mv_xRate :: real
  mv_yAngle :: real
  mv_yRate :: real
  mv_ra_parity :: guide_parity
  mv_dec_parity :: guide_parity
  mv_declination :: real
  mv_ao_max_x :: int
  mv_ao_max_y :: int
  mv_algorithm :: "guide_axis \<Rightarrow> algo_view"

record 'm app_view =
  v_guider :: "'m guider option" \<comment> \<open>\<open>pFrame->pGuider\<close>; \<open>pFrame\<close> is there while the server runs\<close>
  v_capture_active :: bool
  v_exposure :: int \<comment> \<open>\<open>RequestedExposureDuration\<close>\<close>
  v_exposures :: "int list"
  v_profile_names :: "string list"
  v_profile_id :: "string \<Rightarrow> int"
  v_current_profile :: int
  v_current_profile_name :: string
  v_camera :: "camera_view option"
  v_mount :: "mount_view option" \<comment> \<open>\<open>pMount\<close>\<close>
  v_mount2 :: "mount_view option" \<comment> \<open>\<open>pSecondaryMount\<close>\<close>
  v_aux_scope :: "(string \<times> bool) option"
  v_rotator :: "(string \<times> bool) option"
  v_pixel_scale :: real
  v_dec_guide_mode :: dec_guide_mode \<comment> \<open>of \<open>TheScope()\<close>\<close>
  v_settling :: bool
  v_can_guide :: "string option" \<comment> \<open>the error of \<open>CanGuide\<close>\<close>
  v_allow_recalibrate :: bool
  v_gear_dialog_shown :: bool
  v_graph_log :: bool
  v_frame_num :: int
  v_temp_file :: string \<comment> \<open>the name \<open>CreateTempFileName\<close> gives\<close>
  v_file_dir :: string
  v_darks_dir :: string
  v_darklib_name :: "int \<Rightarrow> string"

definition TheScope :: "'m app_view \<Rightarrow> mount_view option" where
  "TheScope v = (case v_mount v of None \<Rightarrow> None | Some m \<Rightarrow> if mv_step_guider m then v_mount2 v else Some m)"

definition TheAO :: "'m app_view \<Rightarrow> mount_view option" where
  "TheAO v = (case v_mount v of None \<Rightarrow> None | Some m \<Rightarrow> if mv_step_guider m then Some m else None)"

datatype server_call =
    CallReset
  | CallSetExposureDuration int
  | CallSetProfile int
  | CallCloseGearDialog
  | CallConnectAll
  | CallDisconnectAll
  | CallSetPaused pause_type
  | CallStartLooping
  | CallStopCapturing
  | CallAutoSelectStar rect
  | CallSetLockPosition sodium_point
  | CallSetLockPosToStar sodium_point
  | CallClearScopeCalibration
  | CallClearAoCalibration
  | CallFlipCalibrationData
  | CallEnableLockPosShift bool
  | CallSetLockPosShiftRate sodium_point graph_units bool bool
  | CallCreateTempFile
  | CallSaveCurrentImage string
  | CallRemoveFile string
  | CallStartSingleExposure int rect
  | CallGuide u32 settle_params rect
  | CallDither real bool settle_params
  | CallTerminateApp
  | CallSetGuidingEnabled bool
  | CallSetParam guide_axis string real
  | CallSetDecGuideMode dec_guide_mode
  | CallUpdateGraphControls
  | CallManualMove bool guide_direction int \<comment> \<open>of the AO?\<close>
  | CallSaveAll string
  | CallLoadDarkLibrary
  | CallSetShutterClosed bool
  | CallBuildDarks real real int "string option"
  | CallDeleteDarkLibraryFiles int
  | CallCreateProfile string
  | CallInitializeProfile
  | CallNotifyConfigurationChange
  | CallProfileSetInt string int
  | CallRenameProfile string string
  | CallCloneProfile string string
  | CallDeleteProfile string
  | CallDeleteAll

datatype thrown = StdException string | WxString string

datatype call_result = Done | Failed string | Thrown thrown

text \<open>\<open>punned\<close> is the \<open>int\<close> or \<open>float\<close> found where another member of the union was stored.\<close>

record ('w, 'm) app =
  conv :: fmts
  error_line :: "string \<Rightarrow> int" \<comment> \<open>\<open>JsonParser::ErrorLine\<close>\<close>
  punned_int :: "json_body \<Rightarrow> int"
  punned_float :: "json_body \<Rightarrow> real"
  view :: "'w \<Rightarrow> 'm app_view"
  exec :: "server_call \<Rightarrow> 'w \<Rightarrow> 'w \<times> call_result"

definition int_value :: "('w, 'm) app \<Rightarrow> json_body \<Rightarrow> int" where
  \<comment> \<open>a fresh value is filled with zeros\<close>
  "int_value A j =
    (case j of JSON_INT n \<Rightarrow> n | JSON_BOOL b \<Rightarrow> (if b then 1 else 0) | JSON_STRING _ \<Rightarrow> punned_int A j | JSON_FLOAT _ \<Rightarrow> punned_int A j
     | _ \<Rightarrow> 0)"

definition float_value :: "('w, 'm) app \<Rightarrow> json_body \<Rightarrow> real" where
  "float_value A j =
    (case j of JSON_FLOAT x \<Rightarrow> x | JSON_INT _ \<Rightarrow> punned_float A j | JSON_BOOL _ \<Rightarrow> punned_float A j
     | JSON_STRING _ \<Rightarrow> punned_float A j | _ \<Rightarrow> 0)"

subsection \<open>Handlers\<close>

type_synonym 'w handled = "('w \<times> nv list) option"

definition answers :: "nv \<Rightarrow> 'w \<Rightarrow> 'w handled" where "answers nv w = Some (w, [nv])"

definition call ::
  "('w, 'm) app \<Rightarrow> server_call \<Rightarrow> (thrown \<Rightarrow> 'w \<Rightarrow> 'w handled) \<Rightarrow> (string option \<Rightarrow> 'w \<Rightarrow> 'w handled) \<Rightarrow> 'w \<Rightarrow> 'w handled" where
  \<comment> \<open>the call, what catches its exceptions, and what follows it; an error has its message\<close>
  "call A c catch k w =
    (case exec A c w of (w', Done) \<Rightarrow> k None w' | (w', Failed msg) \<Rightarrow> k (Some msg) w' | (w', Thrown t) \<Rightarrow> catch t w')"

definition nothing_caught :: "thrown \<Rightarrow> 'w \<Rightarrow> 'w handled" where "nothing_caught t w = None"

definition catch_std :: "thrown \<Rightarrow> 'w \<Rightarrow> 'w handled" where
  \<comment> \<open>\<open>catch (std::exception &e)\<close>\<close>
  "catch_std t w =
    (case t of StdException what \<Rightarrow> answers (jrpc_error JSONRPC_INTERNAL_ERROR what) w | WxString _ \<Rightarrow> None)"

definition catch_message :: "int \<Rightarrow> string \<Rightarrow> thrown \<Rightarrow> 'w \<Rightarrow> 'w handled" where
  \<comment> \<open>\<open>catch (std::exception &)\<close> with a fixed message\<close>
  "catch_message code msg t w =
    (case t of StdException what \<Rightarrow> answers (jrpc_error code msg) w | WxString _ \<Rightarrow> None)"

definition catch_wx :: "thrown \<Rightarrow> 'w \<Rightarrow> 'w handled" where
  \<comment> \<open>\<open>catch (const wxString &msg)\<close>\<close>
  "catch_wx t w = (case t of StdException what \<Rightarrow> None | WxString msg \<Rightarrow> answers (jrpc_error 1 msg) w)"

definition ok0 :: nv where "ok0 = jrpc_result (format_d 0)" \<comment> \<open>\<open>jrpc_result(0)\<close>\<close>

definition verify_guider :: "('w, 'm) app \<Rightarrow> ('m guider \<Rightarrow> 'w \<Rightarrow> 'w handled) \<Rightarrow> 'w \<Rightarrow> 'w handled" where
  "verify_guider A k w =
    (case v_guider (view A w) of None \<Rightarrow> answers (jrpc_error 1 ''internal error'') w | Some g \<Rightarrow> k g w)"

definition succeeds :: "string \<Rightarrow> string option \<Rightarrow> 'w \<Rightarrow> 'w handled" where
  \<comment> \<open>0, or error 1 with the message\<close>
  "succeeds msg err w = answers (if err = None then ok0 else jrpc_error 1 msg) w"

definition succeeds_or :: "string option \<Rightarrow> 'w \<Rightarrow> 'w handled" where
  "succeeds_or err w = answers (case err of None \<Rightarrow> ok0 | Some msg \<Rightarrow> jrpc_error 1 msg) w"

subsubsection \<open>Camera, profiles and equipment\<close>

definition srv_deselect_star :: "('w, 'm) app \<Rightarrow> json_body option \<Rightarrow> 'w \<Rightarrow> 'w handled" where
  "srv_deselect_star A params w = verify_guider A (\<lambda>_. call A CallReset
     (\<lambda>t w. case t of StdException what \<Rightarrow> answers (jrpc_error 1 what) w | WxString _ \<Rightarrow> None) (\<lambda>_. answers ok0)) w"

definition srv_get_exposure :: "('w, 'm) app \<Rightarrow> json_body option \<Rightarrow> 'w \<Rightarrow> 'w handled" where
  "srv_get_exposure A params w = answers (jrpc_result (format_d (v_exposure (view A w)))) w"

definition srv_get_exposure_durations :: "('w, 'm) app \<Rightarrow> json_body option \<Rightarrow> 'w \<Rightarrow> 'w handled" where
  "srv_get_exposure_durations A params w = answers (jrpc_result (nv_ints (v_exposures (view A w)))) w"

definition profile_nvs :: "'m app_view \<Rightarrow> string \<Rightarrow> nv list list" where
  "profile_nvs v name =
    (let i = v_profile_id v name
     in if i = 0 then []
        else [[(''id'', format_d i), (''name'', nv_str name)] @
              (if i = v_current_profile v then [(''selected'', nv_bool True)] else [])])"

definition srv_get_profiles :: "('w, 'm) app \<Rightarrow> json_body option \<Rightarrow> 'w \<Rightarrow> 'w handled" where
  "srv_get_profiles A params w =
    (let v = view A w
     in answers (jrpc_result (ary_text (map obj_text (concat (map (profile_nvs v) (v_profile_names v)))))) w)"

definition srv_set_exposure :: "('w, 'm) app \<Rightarrow> json_body option \<Rightarrow> 'w \<Rightarrow> 'w handled" where
  \<comment> \<open>the value is logged before it is looked for: a missing one is the null pointer\<close>
  "srv_set_exposure A params w =
    do { p \<leftarrow> Params [''exposure''] params;
         exp \<leftarrow> p ''exposure'';
         case exp of JSON_INT n \<Rightarrow>
           call A (CallSetExposureDuration n)
             (\<lambda>t. case t of StdException _ \<Rightarrow> answers (jrpc_error 1 ''exception caught while setting exposure time'')
                   | WxString _ \<Rightarrow> answers (jrpc_error 1 ''unknown exception caught while setting exposure time''))
             (succeeds ''could not set exposure duration'') w
         | _ \<Rightarrow> answers (jrpc_error JSONRPC_INVALID_PARAMS ''expected exposure param'') w }"

definition srv_get_profile :: "('w, 'm) app \<Rightarrow> json_body option \<Rightarrow> 'w \<Rightarrow> 'w handled" where
  "srv_get_profile A params w =
    answers (jrpc_result (obj_text [(''id'', format_d (v_current_profile (view A w))),
                                    (''name'', nv_str (v_current_profile_name (view A w)))])) w"

definition devstat :: "string \<Rightarrow> (string \<times> bool) option \<Rightarrow> nv list" where
  "devstat dev d =
    (case d of None \<Rightarrow> []
     | Some (name, conn) \<Rightarrow> [(dev, obj_text [(''name'', nv_str name), (''connected'', nv_bool conn)])])"

definition mount_stat :: "mount_view option \<Rightarrow> (string \<times> bool) option" where
  "mount_stat m = map_option (\<lambda>m. (mv_name m, mv_connected m)) m"

definition srv_get_current_equipment :: "('w, 'm) app \<Rightarrow> json_body option \<Rightarrow> 'w \<Rightarrow> 'w handled" where
  \<comment> \<open>the names of \<open>pCamera\<close> and \<open>pMount\<close> are logged whether they are there or not\<close>
  "srv_get_current_equipment A params w =
    (let v = view A w
     in if v_camera v = None \<or> v_mount v = None then None
        else answers (jrpc_result (obj_text (
               devstat ''camera'' (map_option (\<lambda>c. (cv_name c, cv_connected c)) (v_camera v)) @
               devstat ''mount'' (mount_stat (TheScope v)) @ devstat ''aux_mount'' (v_aux_scope v) @
               devstat ''AO'' (mount_stat (TheAO v)) @ devstat ''rotator'' (v_rotator v)))) w)"

definition all_equipment_connected :: "'m app_view \<Rightarrow> bool" where
  "all_equipment_connected v \<longleftrightarrow>
    (case v_camera v of None \<Rightarrow> False | Some c \<Rightarrow> cv_connected c) \<and>
    (case v_mount v of None \<Rightarrow> True | Some m \<Rightarrow> mv_connected m) \<and>
    (case v_mount2 v of None \<Rightarrow> True | Some m \<Rightarrow> mv_connected m)"

definition srv_set_profile :: "('w, 'm) app \<Rightarrow> json_body option \<Rightarrow> 'w \<Rightarrow> 'w handled" where
  "srv_set_profile A params w =
    do { p \<leftarrow> Params [''id''] params;
         case p ''id'' of Some (JSON_INT n) \<Rightarrow> verify_guider A (\<lambda>_. call A (CallSetProfile n) catch_std succeeds_or) w
         | _ \<Rightarrow> answers (jrpc_error JSONRPC_INVALID_PARAMS ''expected profile id param'') w }"

definition srv_get_connected :: "('w, 'm) app \<Rightarrow> json_body option \<Rightarrow> 'w \<Rightarrow> 'w handled" where
  "srv_get_connected A params w = answers (jrpc_result (nv_bool (all_equipment_connected (view A w)))) w"

definition srv_set_connected :: "('w, 'm) app \<Rightarrow> json_body option \<Rightarrow> 'w \<Rightarrow> 'w handled" where
  "srv_set_connected A params w =
    do { p \<leftarrow> Params [''connected''] params;
         case p ''connected'' of Some (JSON_BOOL connect) \<Rightarrow>
           verify_guider A (\<lambda>_ w.
             let act = call A (if connect then CallConnectAll else CallDisconnectAll) catch_std succeeds_or
             in if v_gear_dialog_shown (view A w)
                then call A CallCloseGearDialog catch_std
                       (\<lambda>err. if err = None then act else answers (jrpc_error 1 ''Failed to kill device dialog'')) w
                else act w) w
         | _ \<Rightarrow> answers (jrpc_error JSONRPC_INVALID_PARAMS ''expected connected boolean param'') w }"

definition srv_get_calibrated :: "('w, 'm) app \<Rightarrow> json_body option \<Rightarrow> 'w \<Rightarrow> 'w handled" where
  "srv_get_calibrated A params w =
    (let v = view A w
     in answers (jrpc_result (nv_bool (
          (case v_mount v of None \<Rightarrow> False | Some m \<Rightarrow> mv_calibrated m) \<and>
          (case v_mount2 v of None \<Rightarrow> True | Some m \<Rightarrow> mv_calibrated m)))) w)"

subsubsection \<open>Pausing, looping and star selection\<close>

definition srv_get_paused :: "('w, 'm) app \<Rightarrow> json_body option \<Rightarrow> 'w \<Rightarrow> 'w handled" where
  "srv_get_paused A params w = verify_guider A (\<lambda>g. answers (jrpc_result (nv_bool (IsPaused g)))) w"

definition srv_set_paused :: "('w, 'm) app \<Rightarrow> json_body option \<Rightarrow> 'w \<Rightarrow> 'w handled" where
  "srv_set_paused A params w =
    do { p \<leftarrow> Params [''paused'', ''type''] params;
         case Option.bind (p ''paused'') bool_param of
           None \<Rightarrow> answers (jrpc_error JSONRPC_INVALID_PARAMS ''expected bool param at index 0'') w
         | Some val \<Rightarrow>
             let pause = (\<lambda>pause. call A (CallSetPaused pause) catch_std (\<lambda>_. answers ok0) w)
             in if \<not> val then pause PAUSE_NONE
                else case p ''type'' of None \<Rightarrow> pause PAUSE_GUIDING
                  | Some (JSON_STRING s) \<Rightarrow> pause (if s = ''full'' then PAUSE_FULL else PAUSE_GUIDING)
                  | Some _ \<Rightarrow> answers (jrpc_error JSONRPC_INVALID_PARAMS ''expected string param at index 1'') w }"

definition srv_loop :: "('w, 'm) app \<Rightarrow> json_body option \<Rightarrow> 'w \<Rightarrow> 'w handled" where
  "srv_loop A params w = call A CallStartLooping catch_std (succeeds ''could not start looping'') w"

definition srv_stop_capture :: "('w, 'm) app \<Rightarrow> json_body option \<Rightarrow> 'w \<Rightarrow> 'w handled" where
  "srv_stop_capture A params w = call A CallStopCapturing catch_std (\<lambda>_. answers ok0) w"

definition optional_rect :: "json_body option \<Rightarrow> rect option" where
  \<comment> \<open>an empty rectangle where there is no parameter, \<^term>\<open>None\<close> where it is bad\<close>
  "optional_rect j = (case j of None \<Rightarrow> Some \<lparr>rX = 0, rY = 0, rW = 0, rH = 0\<rparr> | Some j \<Rightarrow> parse_rect j)"

definition srv_find_star :: "('w, 'm) app \<Rightarrow> json_body option \<Rightarrow> 'w \<Rightarrow> 'w handled" where
  "srv_find_star A params w = verify_guider A (\<lambda>_ w.
    do { p \<leftarrow> Params [''roi''] params;
         case optional_rect (p ''roi'') of
           None \<Rightarrow> answers (jrpc_error JSONRPC_INVALID_PARAMS ''invalid ROI param'') w
         | Some roi \<Rightarrow>
             call A (CallAutoSelectStar roi) catch_std (\<lambda>err w.
               if err = None
               then do { g \<leftarrow> v_guider (view A w);
                         answers (if m_valid (g_lockPosition g) then jrpc_result (nv_point (conv A) (g_lockPosition g))
                                  else jrpc_error 1 ''could not find star'') w }
               else answers (jrpc_error 1 ''could not find star'') w) w }) w"

definition srv_get_pixel_scale :: "('w, 'm) app \<Rightarrow> json_body option \<Rightarrow> 'w \<Rightarrow> 'w handled" where
  "srv_get_pixel_scale A params w =
    (let scale = v_pixel_scale (view A w)
     in answers (jrpc_result (if scale = 1 then nv_null else pct_g (conv A) scale)) w)"

definition exposed :: "'m app_view \<Rightarrow> exposed_state" where
  \<comment> \<open>\<open>Guider::GetExposedState\<close>\<close>
  "exposed v = GetExposedState (v_capture_active v) (v_guider v)"

definition srv_get_app_state :: "('w, 'm) app \<Rightarrow> json_body option \<Rightarrow> 'w \<Rightarrow> 'w handled" where
  "srv_get_app_state A params w = answers (jrpc_result (nv_str (state_name (exposed (view A w))))) w"

subsubsection \<open>Lock position and calibration\<close>

definition srv_get_lock_position :: "('w, 'm) app \<Rightarrow> json_body option \<Rightarrow> 'w \<Rightarrow> 'w handled" where
  "srv_get_lock_position A params w = verify_guider A (\<lambda>g.
     answers (jrpc_result (if m_valid (g_lockPosition g) then nv_point (conv A) (g_lockPosition g) else nv_null))) w"

definition srv_set_lock_position :: "('w, 'm) app \<Rightarrow> json_body option \<Rightarrow> 'w \<Rightarrow> 'w handled" where
  "srv_set_lock_position A params w =
    do { p \<leftarrow> Params [''x'', ''y'', ''exact''] params;
         case (Option.bind (p ''x'') float_param, Option.bind (p ''y'') float_param) of
           (Some x, Some y) \<Rightarrow>
             (case (case p ''exact'' of None \<Rightarrow> Some True | Some j \<Rightarrow> bool_param j) of
                None \<Rightarrow> answers (jrpc_error JSONRPC_INVALID_PARAMS ''expected boolean param at index 2'') w
              | Some exact \<Rightarrow>
                  verify_guider A (\<lambda>_. call A
                    (if exact then CallSetLockPosition (SodiumPoint x y) else CallSetLockPosToStar (SodiumPoint x y)) catch_std
                    (\<lambda>err. answers (if err = None then ok0
                                    else jrpc_error JSONRPC_INVALID_REQUEST ''could not set lock position''))) w)
         | _ \<Rightarrow> answers (jrpc_error JSONRPC_INVALID_PARAMS ''expected lock position x, y params'') w }"

definition clear_which :: "json_body option \<Rightarrow> WHICH_MOUNT option" where
  \<comment> \<open>all without parameters\<close>
  "clear_which params =
    (if params = None then Some WHICH_MOUNT_BOTH else map_option (\<lambda>p. which_mount (p ''which'')) (Params [''which''] params))"

definition dquoted :: "string \<Rightarrow> string" where "dquoted s = [CHR 0x22] @ s @ [CHR 0x22]"

definition srv_clear_calibration :: "('w, 'm) app \<Rightarrow> json_body option \<Rightarrow> 'w \<Rightarrow> 'w handled" where
  "srv_clear_calibration A params w =
    do { which \<leftarrow> clear_which params;
         if which = WHICH_MOUNT_ERR
         then answers (jrpc_error JSONRPC_INVALID_PARAMS
                (''expected param '' @ dquoted ''mount'' @ '', '' @ dquoted ''ao'' @ '', or '' @ dquoted ''both'')) w
         else
           let v = view A w;
               clear_ao = (if TheAO v \<noteq> None \<and> which \<in> {AO, WHICH_MOUNT_BOTH}
                           then call A CallClearAoCalibration catch_std (\<lambda>_. answers ok0) else answers ok0)
           in if TheScope v \<noteq> None \<and> which \<in> {MOUNT, WHICH_MOUNT_BOTH}
              then call A CallClearScopeCalibration catch_std (\<lambda>_. clear_ao) w else clear_ao w }"

definition srv_flip_calibration :: "('w, 'm) app \<Rightarrow> json_body option \<Rightarrow> 'w \<Rightarrow> 'w handled" where
  "srv_flip_calibration A params w = call A CallFlipCalibrationData catch_std (succeeds ''could not flip calibration'') w"

definition srv_get_lock_shift_enabled :: "('w, 'm) app \<Rightarrow> json_body option \<Rightarrow> 'w \<Rightarrow> 'w handled" where
  "srv_get_lock_shift_enabled A params w =
    verify_guider A (\<lambda>g. answers (jrpc_result (nv_bool (shiftEnabled (g_lockPosShift g))))) w"

definition srv_set_lock_shift_enabled :: "('w, 'm) app \<Rightarrow> json_body option \<Rightarrow> 'w \<Rightarrow> 'w handled" where
  "srv_set_lock_shift_enabled A params w =
    do { p \<leftarrow> Params [''enabled''] params;
         case Option.bind (p ''enabled'') bool_param of
           None \<Rightarrow> answers (jrpc_error JSONRPC_INVALID_PARAMS ''expected enabled boolean param'') w
         | Some enable \<Rightarrow> verify_guider A (\<lambda>_. call A (CallEnableLockPosShift enable) catch_std (\<lambda>_. answers ok0)) w }"

definition srv_get_lock_shift_params :: "('w, 'm) app \<Rightarrow> json_body option \<Rightarrow> 'w \<Rightarrow> 'w handled" where
  \<comment> \<open>pixels per second, shown per hour\<close>
  "srv_get_lock_shift_params A params w = verify_guider A (\<lambda>g w.
    do { camera \<leftarrow> is_camera_shift_req params;
         let shift = g_lockPosShift g;
             shown = (if camera
                      then \<lparr>shiftEnabled = shiftEnabled shift, shiftRate = point_scale (m_rate (g_lockPosition g)) 3600,
                            shiftUnits = UNIT_PIXELS, shiftIsMountCoords = False\<rparr>
                      else shift)
         in answers (jrpc_result (obj_text (lock_shift_nvs (conv A) shown))) w }) w"

definition srv_set_lock_shift_params :: "('w, 'm) app \<Rightarrow> json_body option \<Rightarrow> 'w \<Rightarrow> 'w handled" where
  "srv_set_lock_shift_params A params w =
    do { r \<leftarrow> parse_lock_shift_params params;
         case r of Inl err \<Rightarrow> answers (jrpc_error JSONRPC_INVALID_PARAMS err) w
         | Inr shift \<Rightarrow> verify_guider A (\<lambda>_. call A
             (CallSetLockPosShiftRate (shiftRate shift) (shiftUnits shift) (shiftIsMountCoords shift) True) catch_wx
             (\<lambda>_. answers ok0)) w }"

subsubsection \<open>Images\<close>

definition srv_save_image :: "('w, 'm) app \<Rightarrow> json_body option \<Rightarrow> 'w \<Rightarrow> 'w handled" where
  "srv_save_image A params w = verify_guider A (\<lambda>g w.
    if ImageData (g_image g) = [] then answers (jrpc_error 2 ''no image available'') w
    else let fname = v_temp_file (view A w)
      in call A CallCreateTempFile nothing_caught (\<lambda>_.
           call A (CallSaveCurrentImage fname) catch_wx (\<lambda>err.
             if err \<noteq> None then call A (CallRemoveFile fname) catch_wx (\<lambda>_. answers (jrpc_error 3 ''error saving image''))
             else answers (jrpc_result (obj_text [(''filename'', nv_str fname)])))) w) w"

definition srv_capture_single_frame :: "('w, 'm) app \<Rightarrow> json_body option \<Rightarrow> 'w \<Rightarrow> 'w handled" where
  \<comment> \<open>without a subframe the size of the camera is read through \<open>pCamera\<close>\<close>
  "srv_capture_single_frame A params w =
    (let v = view A w
     in if v_capture_active v
        then answers (jrpc_error 1 ''Cannot capture single frame when capture is currently active'') w
        else do { p \<leftarrow> Params [''exposure'', ''subframe''] params;
          case (case p ''exposure'' of None \<Rightarrow> Some (v_exposure v)
                | Some (JSON_INT n) \<Rightarrow> if n < 1 \<or> n > 10 * 60000 then None else Some n | Some _ \<Rightarrow> None) of
            None \<Rightarrow> answers (jrpc_error JSONRPC_INVALID_PARAMS
                      ''Expected exposure parameter to be an integer between 1 and 600000'') w
          | Some exposure \<Rightarrow> do {
              subframe \<leftarrow> (case p ''subframe'' of
                  None \<Rightarrow> map_option (\<lambda>c. Some \<lparr>rX = 0, rY = 0, rW = cv_width c, rH = cv_height c\<rparr>) (v_camera v)
                | Some j \<Rightarrow> Some (parse_rect j));
              case subframe of None \<Rightarrow> answers (jrpc_error JSONRPC_INVALID_PARAMS ''Invalid subframe parameter'') w
              | Some r \<Rightarrow> call A (CallStartSingleExposure exposure r)
                  (catch_message JSONRPC_INTERNAL_ERROR ''Internal error occurred in capture_single_frame'')
                  (\<lambda>err. answers (if err = None then ok0 else jrpc_error 2 ''Failed to start exposure'')) w } })"

definition srv_get_use_subframes :: "('w, 'm) app \<Rightarrow> json_body option \<Rightarrow> 'w \<Rightarrow> 'w handled" where
  "srv_get_use_subframes A params w =
    answers (jrpc_result (nv_bool (case v_camera (view A w) of None \<Rightarrow> False | Some c \<Rightarrow> cv_use_subframes c))) w"

definition srv_get_search_region :: "('w, 'm) app \<Rightarrow> json_body option \<Rightarrow> 'w \<Rightarrow> 'w handled" where
  "srv_get_search_region A params w =
    verify_guider A (\<lambda>g. answers (jrpc_result (format_d (m_searchRegion (g_star g))))) w"

text \<open>\<open>B64Encode\<close>: \<open>t\<close> holds at most three bytes, so it stays below \<open>2 ^ 24\<close>.\<close>

record b64 =
  b64_os :: string
  b64_t :: nat
  b64_nread :: nat

definition E64 :: string where
  "E64 = ''ABCDEFGHIJKLMNOPQRSTUVWXYZabcdefghijklmnopqrstuvwxyz0123456789+/''"

definition B64Encode_new :: b64 where "B64Encode_new = \<lparr>b64_os = [], b64_t = 0, b64_nread = 0\<rparr>"

definition append1 :: "nat \<Rightarrow> b64 \<Rightarrow> b64" where
  "append1 ch b =
    (let t = b64_t b * 256 + ch; n = b64_nread b + 1
     in if n mod 3 = 0
        then \<lparr>b64_os = b64_os b @ [E64 ! (t div 2 ^ 18), E64 ! (t div 2 ^ 12 mod 64), E64 ! (t div 2 ^ 6 mod 64), E64 ! (t mod 64)],
              b64_t = 0, b64_nread = n\<rparr>
        else b\<lparr>b64_t := t, b64_nread := n\<rparr>)"

definition b64_append :: "nat list \<Rightarrow> b64 \<Rightarrow> b64" where "b64_append src b = fold append1 src b"

definition b64_finish :: "b64 \<Rightarrow> string" where
  \<comment> \<open>\<open>std::ends\<close> is a NUL\<close>
  "b64_finish b =
    (let t = b64_t b
     in b64_os b @
        (if b64_nread b mod 3 = 1 then [E64 ! (t div 2 ^ 2), E64 ! (t mod 4 * 2 ^ 4), CHR ''='', CHR ''='']
         else if b64_nread b mod 3 = 2 then [E64 ! (t div 2 ^ 10), E64 ! (t div 2 ^ 4 mod 64), E64 ! (t mod 16 * 2 ^ 2), CHR ''='']
         else []) @ [CHR 0x00])"

definition rint :: "real \<Rightarrow> int" where
  \<comment> \<open>to the nearest, halves to the even neighbour\<close>
  "rint x =
    (let n = \<lfloor>x\<rfloor>; d = x - of_int n
     in if d < 1 / 2 then n else if d > 1 / 2 then n + 1 else if even n then n else n + 1)"

definition u16_bytes :: "u16 \<Rightarrow> nat list" where
  \<comment> \<open>the bytes of an \<open>unsigned short\<close>, the low one first\<close>
  "u16_bytes p = [unat p mod 256, unat p div 256]"

definition star_rect :: "us_image \<Rightarrow> int \<Rightarrow> int \<Rightarrow> int \<Rightarrow> rect" where
  "star_rect img reqsize sx sy =
    (let halfw = min ((reqsize - 1) div 2) 31; fullw = 2 * halfw + 1;
         r = \<lparr>rX = sx - halfw, rY = sy - halfw, rW = fullw, rH = fullw\<rparr>
     in rect_Intersect r (if rect_IsEmpty (Subframe img) then size_rect img else Subframe img))"

definition sent_pixels :: "us_image \<Rightarrow> rect \<Rightarrow> u16 list" where
  "sent_pixels img r =
    concat (map (\<lambda>y. map (\<lambda>x. px (ImageData img) (Width img) x y) [rX r..rect_Right r]) [rY r..rect_Bottom r])"

definition encode_pixels :: "us_image \<Rightarrow> rect \<Rightarrow> string" where
  "encode_pixels img r = b64_finish (b64_append (concat (map u16_bytes (sent_pixels img r))) B64Encode_new)"

definition srv_get_star_image :: "('w, 'm) app \<Rightarrow> json_body option \<Rightarrow> 'w \<Rightarrow> 'w handled" where
  "srv_get_star_image A params w =
    do { p \<leftarrow> Params [''size''] params;
         case (case p ''size'' of None \<Rightarrow> Some 15 | Some (JSON_INT n) \<Rightarrow> if n < 15 then None else Some n | Some _ \<Rightarrow> None) of
           None \<Rightarrow> answers (jrpc_error JSONRPC_INVALID_PARAMS ''invalid image size param'') w
         | Some reqsize \<Rightarrow> verify_guider A (\<lambda>g w.
             let img = g_image g; star = CurrentPosition (g_star g)
             in if g_state g \<in> {GS_UNINITIALIZED, GS_SELECTING} \<or> ImageData img = [] \<or> \<not> m_valid star
                then answers (jrpc_error 2 ''no star selected'') w
                else do {
                  sx \<leftarrow> int_of_double (of_int (rint (X star)));
                  sy \<leftarrow> int_of_double (of_int (rint (Y star)));
                  let r = star_rect img reqsize sx sy
                  in answers (jrpc_result (obj_text
                       [(''frame'', format_d (v_frame_num (view A w))), (''width'', format_d (rW r)), (''height'', format_d (rH r)),
                        (''star_pos'', nv_point (conv A) (SodiumPoint (X star - of_int (rX r)) (Y star - of_int (rY r)))),
                        (''pixels'', nv_str (encode_pixels img r))])) w }) w }"

subsubsection \<open>Guiding\<close>

definition srv_guide :: "('w, 'm) app \<Rightarrow> json_body option \<Rightarrow> 'w \<Rightarrow> 'w handled" where
  "srv_guide A params w =
    do { p \<leftarrow> Params [''settle'', ''recalibrate'', ''roi''] params;
         case p ''settle'' of Some (JSON_OBJECT vs) \<Rightarrow> do {
           r \<leftarrow> parse_settle (JSON_OBJECT vs);
           case r of Inl err \<Rightarrow> answers (jrpc_error JSONRPC_INVALID_PARAMS err) w
           | Inr settle_p \<Rightarrow>
               (case (case p ''recalibrate'' of None \<Rightarrow> Some False | Some j \<Rightarrow> bool_param j) of
                  None \<Rightarrow> answers (jrpc_error JSONRPC_INVALID_PARAMS ''expected bool value for recalibrate'') w
                | Some recalibrate \<Rightarrow>
                    (case optional_rect (p ''roi'') of
                       None \<Rightarrow> answers (jrpc_error JSONRPC_INVALID_PARAMS ''invalid ROI param'') w
                     | Some roi \<Rightarrow>
                         let v = view A w;
                             recalibrate = (recalibrate \<and> v_allow_recalibrate v);
                             options = (if recalibrate then GUIDEOPT_USE_STICKY_LOCK OR GUIDEOPT_FORCE_RECAL
                                        else GUIDEOPT_USE_STICKY_LOCK)
                         in case v_can_guide v of Some err \<Rightarrow> answers (jrpc_error 1 err) w
                            | None \<Rightarrow> call A (CallGuide options settle_p roi) catch_std succeeds_or w)) }
         | _ \<Rightarrow> answers (jrpc_error JSONRPC_INVALID_PARAMS ''expected settle object param'') w }"

definition srv_dither :: "('w, 'm) app \<Rightarrow> json_body option \<Rightarrow> 'w \<Rightarrow> 'w handled" where
  "srv_dither A params w =
    do { p \<leftarrow> Params [''amount'', ''raOnly'', ''settle''] params;
         case Option.bind (p ''amount'') float_param of
           None \<Rightarrow> answers (jrpc_error JSONRPC_INVALID_PARAMS ''expected dither amount param'') w
         | Some ditherAmt \<Rightarrow>
             (case (case p ''raOnly'' of None \<Rightarrow> Some False | Some j \<Rightarrow> bool_param j) of
                None \<Rightarrow> answers (jrpc_error JSONRPC_INVALID_PARAMS ''expected dither raOnly param'') w
              | Some raOnly \<Rightarrow>
                  (case p ''settle'' of Some (JSON_OBJECT vs) \<Rightarrow> do {
                     r \<leftarrow> parse_settle (JSON_OBJECT vs);
                     case r of Inl err \<Rightarrow> answers (jrpc_error JSONRPC_INVALID_PARAMS err) w
                     | Inr settle_p \<Rightarrow> call A (CallDither \<bar>ditherAmt\<bar> raOnly settle_p) catch_std succeeds_or w }
                   | _ \<Rightarrow> answers (jrpc_error JSONRPC_INVALID_PARAMS ''expected settle object param'') w)) }"

definition srv_shutdown :: "('w, 'm) app \<Rightarrow> json_body option \<Rightarrow> 'w \<Rightarrow> 'w handled" where
  "srv_shutdown A params w = call A CallTerminateApp nothing_caught (\<lambda>_. answers ok0) w"

definition connected_camera :: "'m app_view \<Rightarrow> camera_view option" where
  "connected_camera v = (case v_camera v of Some c \<Rightarrow> if cv_connected c then Some c else None | None \<Rightarrow> None)"

definition srv_get_camera_binning :: "('w, 'm) app \<Rightarrow> json_body option \<Rightarrow> 'w \<Rightarrow> 'w handled" where
  "srv_get_camera_binning A params w =
    answers (case connected_camera (view A w) of None \<Rightarrow> jrpc_error 1 ''camera not connected''
             | Some c \<Rightarrow> jrpc_result (format_d (cv_binning c))) w"

definition srv_get_camera_frame_size :: "('w, 'm) app \<Rightarrow> json_body option \<Rightarrow> 'w \<Rightarrow> 'w handled" where
  "srv_get_camera_frame_size A params w =
    answers (case connected_camera (view A w) of None \<Rightarrow> jrpc_error 1 ''camera not connected''
             | Some c \<Rightarrow> jrpc_result (nv_size (cv_width c) (cv_height c))) w"

definition srv_get_guide_output_enabled :: "('w, 'm) app \<Rightarrow> json_body option \<Rightarrow> 'w \<Rightarrow> 'w handled" where
  "srv_get_guide_output_enabled A params w =
    answers (case v_mount (view A w) of None \<Rightarrow> jrpc_error 1 ''mount not defined''
             | Some m \<Rightarrow> jrpc_result (nv_bool (mv_guiding_enabled m))) w"

definition srv_set_guide_output_enabled :: "('w, 'm) app \<Rightarrow> json_body option \<Rightarrow> 'w \<Rightarrow> 'w handled" where
  "srv_set_guide_output_enabled A params w =
    do { p \<leftarrow> Params [''enabled''] params;
         case Option.bind (p ''enabled'') bool_param of
           None \<Rightarrow> answers (jrpc_error JSONRPC_INVALID_PARAMS ''expected enabled boolean param'') w
         | Some enable \<Rightarrow>
             if v_mount (view A w) = None then answers (jrpc_error 1 ''mount not defined'') w
             else call A (CallSetGuidingEnabled enable) catch_std (\<lambda>_. answers ok0) w }"

subsubsection \<open>Guide algorithms, Dec guide mode and pulses\<close>

definition srv_get_algo_param_names :: "('w, 'm) app \<Rightarrow> json_body option \<Rightarrow> 'w \<Rightarrow> 'w handled" where
  "srv_get_algo_param_names A params w =
    do { p \<leftarrow> Params [''axis''] params;
         case axis_param p of None \<Rightarrow> answers (jrpc_error 1 ''expected axis name param'') w
         | Some a \<Rightarrow>
             let names = ''algorithmName'' # (case v_mount (view A w) of None \<Rightarrow> [] | Some m \<Rightarrow> av_names (mv_algorithm m a))
             in answers (jrpc_result (ary_text (map nv_str names))) w }"

definition srv_get_algo_param :: "('w, 'm) app \<Rightarrow> json_body option \<Rightarrow> 'w \<Rightarrow> 'w handled" where
  "srv_get_algo_param A params w =
    do { p \<leftarrow> Params [''axis'', ''name''] params;
         case axis_param p of None \<Rightarrow> answers (jrpc_error 1 ''expected axis name param'') w
         | Some a \<Rightarrow>
             (case p ''name'' of Some (JSON_STRING name) \<Rightarrow>
                answers (case v_mount (view A w) of None \<Rightarrow> jrpc_error 1 ''could not get param''
                         | Some m \<Rightarrow>
                             if name = ''algorithmName'' then jrpc_result (nv_str (av_class (mv_algorithm m a)))
                             else (case av_param (mv_algorithm m a) name of None \<Rightarrow> jrpc_error 1 ''could not get param''
                                   | Some val \<Rightarrow> jrpc_result (pct_g (conv A) val))) w
              | _ \<Rightarrow> answers (jrpc_error 1 ''expected param name param'') w) }"

definition algo_exception :: "thrown \<Rightarrow> 'w \<Rightarrow> 'w handled" where
  "algo_exception t =
    (case t of StdException _ \<Rightarrow> answers (jrpc_error 1 ''exception caught while setting algorithm parameter'')
     | WxString _ \<Rightarrow> answers (jrpc_error 1 ''unknown exception caught while setting algorithm parameter''))"

definition srv_set_algo_param :: "('w, 'm) app \<Rightarrow> json_body option \<Rightarrow> 'w \<Rightarrow> 'w handled" where
  \<comment> \<open>a missing value is followed; an exception after the success adds an error to it\<close>
  "srv_set_algo_param A params w =
    do { p \<leftarrow> Params [''axis'', ''name'', ''value''] params;
         case axis_param p of None \<Rightarrow> answers (jrpc_error 1 ''expected axis name param'') w
         | Some a \<Rightarrow>
             (case p ''name'' of Some (JSON_STRING name) \<Rightarrow> do {
                val \<leftarrow> p ''value'';
                case float_param val of None \<Rightarrow> answers (jrpc_error 1 ''expected param value param'') w
                | Some v \<Rightarrow>
                    if v_mount (view A w) = None then answers (jrpc_error 1 ''could not set param'') w
                    else call A (CallSetParam a name v) algo_exception (\<lambda>err w.
                      if err \<noteq> None then answers (jrpc_error 1 ''could not set param'') w
                      else if \<not> v_graph_log (view A w) then answers ok0 w
                      else call A CallUpdateGraphControls
                             (\<lambda>t w. map_option (\<lambda>(w, nvs). (w, ok0 # nvs)) (algo_exception t w)) (\<lambda>_. answers ok0) w) w }
              | _ \<Rightarrow> answers (jrpc_error 1 ''expected param name param'') w) }"

definition srv_get_dec_guide_mode :: "('w, 'm) app \<Rightarrow> json_body option \<Rightarrow> 'w \<Rightarrow> 'w handled" where
  "srv_get_dec_guide_mode A params w =
    (let v = view A w
     in answers (jrpc_result (nv_str (DecGuideModeStr (if TheScope v = None then DEC_NONE else v_dec_guide_mode v)))) w)"

definition dec_mode_named :: "string \<Rightarrow> dec_guide_mode option" where
  "dec_mode_named s = List.find (\<lambda>m. stricmp_eq s (DecGuideModeStr m)) [DEC_NONE, DEC_AUTO, DEC_NORTH, DEC_SOUTH]"

definition srv_set_dec_guide_mode :: "('w, 'm) app \<Rightarrow> json_body option \<Rightarrow> 'w \<Rightarrow> 'w handled" where
  "srv_set_dec_guide_mode A params w =
    do { p \<leftarrow> Params [''mode''] params;
         case p ''mode'' of Some (JSON_STRING s) \<Rightarrow>
           (case dec_mode_named s of None \<Rightarrow> answers (jrpc_error 1 ''invalid dec guide mode param'') w
            | Some m \<Rightarrow>
                let update = (\<lambda>w. if v_graph_log (view A w) then call A CallUpdateGraphControls catch_std (\<lambda>_. answers ok0) w
                                  else answers ok0 w)
                in if TheScope (view A w) = None then update w else call A (CallSetDecGuideMode m) catch_std (\<lambda>_. update) w)
         | _ \<Rightarrow> answers (jrpc_error 1 ''expected mode param'') w }"

definition srv_get_settling :: "('w, 'm) app \<Rightarrow> json_body option \<Rightarrow> 'w \<Rightarrow> 'w handled" where
  "srv_get_settling A params w = answers (jrpc_result (nv_bool (v_settling (view A w)))) w"

definition which_device :: "'m app_view \<Rightarrow> WHICH_MOUNT \<Rightarrow> mount_view option option" where
  \<comment> \<open>\<^term>\<open>None\<close>: no single device\<close>
  "which_device v which = (case which of MOUNT \<Rightarrow> Some (TheScope v) | AO \<Rightarrow> Some (TheAO v) | _ \<Rightarrow> None)"

definition srv_guide_pulse :: "('w, 'm) app \<Rightarrow> json_body option \<Rightarrow> 'w \<Rightarrow> 'w handled" where
  "srv_guide_pulse A params w =
    do { p \<leftarrow> Params [''amount'', ''direction'', ''which''] params;
         case p ''amount'' of Some (JSON_INT amount) \<Rightarrow>
           let dir = dir_param (p ''direction''); which = which_mount (p ''which''); v = view A w
           in if dir = NONE then answers (jrpc_error 1 ''expected direction param'') w
              else (case which_device v which of
                  None \<Rightarrow> answers (jrpc_error 1 (''invalid '' @ quoted ''which'' @ '' param'')) w
                | Some None \<Rightarrow> answers (jrpc_error 1 ''device not connected'') w
                | Some (Some m) \<Rightarrow>
                    if \<not> mv_connected m then answers (jrpc_error 1 ''device not connected'') w
                    else do { g \<leftarrow> v_guider v;
                      if IsCalibratingOrGuiding (g_state g) \<or> mv_busy m
                      then answers (jrpc_error 1 ''cannot issue guide pulse while calibrating or guiding'') w
                      else call A (if amount < 0 then CallManualMove (which = AO) (opposite dir) (wrap32 (- amount))
                                   else CallManualMove (which = AO) dir amount) catch_std (\<lambda>_. answers ok0) w })
         | _ \<Rightarrow> answers (jrpc_error 1 ''expected amount param'') w }"

definition srv_get_calibration_data :: "('w, 'm) app \<Rightarrow> json_body option \<Rightarrow> 'w \<Rightarrow> 'w handled" where
  "srv_get_calibration_data A params w =
    do { p \<leftarrow> Params [''which''] params;
         let F = conv A
         in case which_device (view A w) (which_mount (p ''which'')) of
              None \<Rightarrow> answers (jrpc_error 1 (''invalid '' @ quoted ''which'' @ '' param'')) w
            | Some None \<Rightarrow> answers (jrpc_error 1 ''device not connected'') w
            | Some (Some m) \<Rightarrow>
                if \<not> mv_connected m then answers (jrpc_error 1 ''device not connected'') w
                else answers (jrpc_result (obj_text ((''calibrated'', nv_bool (mv_calibrated m)) #
                       (if mv_calibrated m
                        then [(''xAngle'', pct_f F 1 (degrees (mv_xAngle m))), (''xRate'', pct_f F 3 (mv_xRate m * 1000)),
                              (''xParity'', nv_str (parity_str (mv_ra_parity m))),
                              (''yAngle'', pct_f F 1 (degrees (mv_yAngle m))), (''yRate'', pct_f F 3 (mv_yRate m * 1000)),
                              (''yParity'', nv_str (parity_str (mv_dec_parity m))),
                              (''declination'', pct_g F (degrees (mv_declination m)))]
                        else [])))) w }"

subsubsection \<open>Cooler, temperature and settings\<close>

definition srv_get_cooler_status :: "('w, 'm) app \<Rightarrow> json_body option \<Rightarrow> 'w \<Rightarrow> 'w handled" where
  "srv_get_cooler_status A params w =
    answers (case connected_camera (view A w) of None \<Rightarrow> jrpc_error 1 ''camera not connected''
      | Some c \<Rightarrow>
          (case cv_cooler c of None \<Rightarrow> jrpc_error 1 ''failed to get cooler status''
           | Some (cooler_on, setpoint, cooler_power, temperature) \<Rightarrow>
               jrpc_result (obj_text ([(''coolerOn'', nv_bool cooler_on), (''temperature'', pct_f (conv A) 1 temperature)] @
                 (if cooler_on then [(''setpoint'', pct_f (conv A) 1 setpoint), (''power'', pct_f (conv A) 1 cooler_power)]
                  else []))))) w"

definition srv_get_sensor_temperature :: "('w, 'm) app \<Rightarrow> json_body option \<Rightarrow> 'w \<Rightarrow> 'w handled" where
  "srv_get_sensor_temperature A params w =
    answers (case connected_camera (view A w) of None \<Rightarrow> jrpc_error 1 ''camera not connected''
      | Some c \<Rightarrow>
          (case cv_temperature c of None \<Rightarrow> jrpc_error 1 ''failed to get sensor temperature''
           | Some temperature \<Rightarrow> jrpc_result (obj_text [(''temperature'', pct_f (conv A) 1 temperature)]))) w"

definition srv_export_config_settings :: "('w, 'm) app \<Rightarrow> json_body option \<Rightarrow> 'w \<Rightarrow> 'w handled" where
  "srv_export_config_settings A params w =
    (let filename = v_file_dir (view A w) @ ''/lightguider_settings.txt''
     in call A (CallSaveAll filename) nothing_caught
          (\<lambda>err. answers (if err \<noteq> None then jrpc_error 1 ''export settings failed''
                          else jrpc_result (obj_text [(''filename'', nv_str filename)]))) w)"

definition srv_lightapt_modify_response :: "('w, 'm) app \<Rightarrow> json_body option \<Rightarrow> 'w \<Rightarrow> 'w handled" where
  "srv_lightapt_modify_response A params w =
    answers (jrpc_result (obj_text [(''version'', nv_str ''2.6.11-patch1''), (''modified'', nv_bool True)])) w"

subsubsection \<open>Dark libraries\<close>

definition status_result :: "bool \<Rightarrow> nv list \<Rightarrow> nv" where
  \<comment> \<open>\<open>rslt\<close>, which starts with its status\<close>
  "status_result status nvs = jrpc_result (obj_text ((''status'', nv_bool status) # nvs))"

definition server_error :: "thrown \<Rightarrow> 'w \<Rightarrow> 'w handled" where
  "server_error = catch_message (-1) ''Internal server error''"

definition srv_is_darklib_loaded :: "('w, 'm) app \<Rightarrow> json_body option \<Rightarrow> 'w \<Rightarrow> 'w handled" where
  "srv_is_darklib_loaded A params w =
    call A CallLoadDarkLibrary server_error (\<lambda>err. answers (status_result True [(''loaded'', nv_bool (err = None))])) w"

definition srv_get_darklib_path :: "('w, 'm) app \<Rightarrow> json_body option \<Rightarrow> 'w \<Rightarrow> 'w handled" where
  "srv_get_darklib_path A params w =
    answers (status_result True [(''path'', nv_str (v_darks_dir (view A w)))]) w"

definition srv_get_darklib_name :: "('w, 'm) app \<Rightarrow> json_body option \<Rightarrow> 'w \<Rightarrow> 'w handled" where
  \<comment> \<open>the type of the id is not looked at\<close>
  "srv_get_darklib_name A params w =
    do { p \<leftarrow> Params [''profile_id''] params;
         answers (case p ''profile_id'' of None \<Rightarrow> status_result False [(''error'', nv_str ''The file id must be provided.'')]
                  | Some i \<Rightarrow> status_result True [(''name'', nv_str (v_darklib_name (view A w) (int_value A i)))]) w }"

definition srv_set_darklib :: "('w, 'm) app \<Rightarrow> json_body option \<Rightarrow> 'w \<Rightarrow> 'w handled" where
  \<comment> \<open>nothing is set\<close>
  "srv_set_darklib A params w =
    do { p \<leftarrow> Params [''library_path''] params;
         case p ''library_path'' of
           None \<Rightarrow> answers (status_result False [(''error'', nv_str ''The library path must be provided.'')]) w
         | Some j \<Rightarrow> do {
             path \<leftarrow> string_value j;
             answers (status_result True [(''message'', nv_str ''Successfully set the current darkfield library.'')]) w } }"

definition error_result :: "string \<Rightarrow> nv" where "error_result msg = jrpc_result (obj_text [(''error'', nv_str msg)])"

definition srv_start_darklib_capture :: "('w, 'm) app \<Rightarrow> json_body option \<Rightarrow> 'w \<Rightarrow> 'w handled" where
  \<comment> \<open>the shutter is closed before the parameters are looked at\<close>
  "srv_start_darklib_capture A params w =
    do { g \<leftarrow> v_guider (view A w);
         if IsCalibratingOrGuiding (g_state g) \<or> g_state g = GS_GUIDING
         then answers (jrpc_error 1 ''Cannot issue guide pulse while calibrating or guiding'') w
         else do {
           cam \<leftarrow> v_camera (view A w);
           let failed = catch_message 1 ''Exception in start_darklib_capture''
           in call A (CallSetShutterClosed True) failed (\<lambda>_ w. do {
             p \<leftarrow> Params [''name'', ''max_exposure'', ''min_exposure'', ''count'', ''tip''] params;
             case (p ''max_exposure'', p ''min_exposure'', p ''count'') of
               (None, _, _) \<Rightarrow> answers (error_result ''Max exposure time should be given'') w
             | (_, None, _) \<Rightarrow> answers (error_result ''Min exposure time should be given'') w
             | (_, _, None) \<Rightarrow> answers (error_result ''Number of the dark frames should be given'') w
             | (Some mx, Some mn, Some cnt) \<Rightarrow>
                 if connected_camera (view A w) = None
                 then answers (jrpc_result (obj_text [(''error'', nv_bool False), (''message'', nv_str ''Camera is not connected'')])) w
                 else do {
                   tip \<leftarrow> (case p ''tip'' of None \<Rightarrow> Some None | Some j \<Rightarrow> map_option Some (string_value j));
                   call A (CallBuildDarks (float_value A mn) (float_value A mx) (int_value A cnt) tip) failed (\<lambda>err.
                     if err \<noteq> None
                     then answers (status_result True [(''message'', nv_str ''Failed to create dark image library'')])
                     else call A (CallSetShutterClosed False) failed (\<lambda>_. answers (jrpc_result (obj_text [])))) w } }) w } }"

definition srv_stop_darklib_capture :: "('w, 'm) app \<Rightarrow> json_body option \<Rightarrow> 'w \<Rightarrow> 'w handled" where
  \<comment> \<open>nothing but a message in the log\<close>
  "srv_stop_darklib_capture A params w = Some (w, [])"

definition srv_delete_darklib_by_profile :: "('w, 'm) app \<Rightarrow> json_body option \<Rightarrow> 'w \<Rightarrow> 'w handled" where
  \<comment> \<open>not in the table of methods\<close>
  "srv_delete_darklib_by_profile A params w =
    do { p \<leftarrow> Params [''id''] params;
         case p ''id'' of None \<Rightarrow> answers (status_result False [(''error'', nv_str ''A profile id must be given'')]) w
         | Some i \<Rightarrow> call A (CallDeleteDarkLibraryFiles (int_value A i))
             (\<lambda>t w. case t of
                StdException _ \<Rightarrow> answers (status_result False [(''error'', nv_str ''Failed to delete the dark lib by profile id'')]) w
              | WxString _ \<Rightarrow> None) (\<lambda>_. answers (status_result True [])) w }"

subsubsection \<open>Profiles\<close>

text \<open>The operations of \<open>PhdConfig\<close> return true when they fail, so here \<open>status\<close> is true exactly then.\<close>

definition create_failed :: "thrown \<Rightarrow> 'w \<Rightarrow> 'w handled" where
  "create_failed t w =
    (case t of StdException _ \<Rightarrow> answers (status_result False [(''error'', nv_str ''Failed to create a new profile'')]) w
     | WxString _ \<Rightarrow> None)"

definition srv_create_profile :: "('w, 'm) app \<Rightarrow> json_body option \<Rightarrow> 'w \<Rightarrow> 'w handled" where
  "srv_create_profile A params w =
    do { p \<leftarrow> Params [''name''] params;
         case p ''name'' of
           None \<Rightarrow> answers (status_result False [(''error'', nv_str '' the name of the file want to create must be provide'')]) w
         | Some j \<Rightarrow> do {
             name \<leftarrow> string_value j;
             call A (CallCreateProfile name) create_failed (\<lambda>err.
               let status = (err \<noteq> None);
                   reply = status_result status (if status then [] else [(''error'', nv_str ''Failed to create a new profile'')])
               in call A CallInitializeProfile create_failed (\<lambda>_.
                    call A CallNotifyConfigurationChange
                      (\<lambda>t w. map_option (\<lambda>(w, nvs). (w, reply # nvs)) (create_failed t w)) (\<lambda>_. answers reply))) w } }"

definition FNV_prime :: "64 word" where "FNV_prime = 0x100000001B3"
definition FNV_basis :: "64 word" where "FNV_basis = 0xCBF29CE484222325"

definition char_u64 :: "char \<Rightarrow> 64 word" where
  \<comment> \<open>a \<open>char\<close>, signed, widened to \<open>hash_t\<close>\<close>
  "char_u64 c = (let n = of_char c :: int in word_of_int (if n < 128 then n else n - 256))"

fun hashCompileTime :: "string \<Rightarrow> 64 word \<Rightarrow> 64 word" where
  "hashCompileTime [] last_value = last_value"
| "hashCompileTime (c # str) last_value = hashCompileTime str ((char_u64 c XOR last_value) * FNV_prime)"

definition hash_cstr :: "string \<Rightarrow> 64 word" where
  "hash_cstr str = foldl (\<lambda>ret c. (ret XOR char_u64 c) * FNV_prime) FNV_basis str"

definition srv_update_profile :: "('w, 'm) app \<Rightarrow> json_body option \<Rightarrow> 'w \<Rightarrow> 'w handled" where
  \<comment> \<open>the hash of the type selects between branches that do nothing; no result is sent\<close>
  "srv_update_profile A params w =
    do { p \<leftarrow> Params [''type'', ''name'', ''value''] params;
         case (p ''type'', p ''name'', p ''value'') of
           (None, _, _) \<Rightarrow> answers (status_result False [(''error'', nv_str '' the type of the parameter must be provide'')]) w
         | (_, None, _) \<Rightarrow> answers (status_result False [(''error'', nv_str '' the name of the parameter must be provide'')]) w
         | (_, _, None) \<Rightarrow> answers (status_result False [(''error'', nv_str '' the value of the parameter must be provide'')]) w
         | (Some type, Some name, Some value) \<Rightarrow> do {
             ty \<leftarrow> string_value type;
             nm \<leftarrow> string_value name;
             call A (CallProfileSetInt (''/'' @ ty @ ''/'' @ nm) (int_value A value)) nothing_caught (\<lambda>_ w. Some (w, [])) w } }"

definition srv_rename_profile :: "('w, 'm) app \<Rightarrow> json_body option \<Rightarrow> 'w \<Rightarrow> 'w handled" where
  "srv_rename_profile A params w =
    do { p \<leftarrow> Params [''oldname'', ''newname''] params;
         case (p ''oldname'', p ''newname'') of
           (Some j, Some k) \<Rightarrow> do {
             oldname \<leftarrow> string_value j;
             newname \<leftarrow> string_value k;
             call A (CallRenameProfile oldname newname) nothing_caught (\<lambda>err.
               let status = (err \<noteq> None)
               in answers (status_result status (if status then [] else [(''error'', nv_str ''Failed to rename the profile'')]))) w }
         | _ \<Rightarrow> answers (status_result False [(''error'',
                  nv_str ''The original name and new name of the file to be modified must be provided'')]) w }"

definition srv_copy_profile :: "('w, 'm) app \<Rightarrow> json_body option \<Rightarrow> 'w \<Rightarrow> 'w handled" where
  \<comment> \<open>the arguments of \<open>CloneProfile\<close>, which are the destination and the source, in the order they are passed\<close>
  "srv_copy_profile A params w =
    do { p \<leftarrow> Params [''dest'', ''source''] params;
         case (p ''source'', p ''dest'') of
           (Some j, Some k) \<Rightarrow> do {
             source \<leftarrow> string_value j;
             dest \<leftarrow> string_value k;
             call A (CallCloneProfile source dest) nothing_caught (\<lambda>err.
               let status = (err \<noteq> None)
               in answers (status_result status (if status then [] else [(''error'', nv_str ''Failed to copy the profile'')]))) w }
         | _ \<Rightarrow> answers (status_result False [(''error'',
                  nv_str ''The source file and address of the replication profile must be provided'')]) w }"

definition delete_failed :: "thrown \<Rightarrow> 'w \<Rightarrow> 'w handled" where
  "delete_failed t w =
    (case t of StdException what \<Rightarrow> answers (status_result False [(''error'', nv_str what)]) w | WxString _ \<Rightarrow> None)"

definition srv_delete_profile :: "('w, 'm) app \<Rightarrow> json_body option \<Rightarrow> 'w \<Rightarrow> 'w handled" where
  "srv_delete_profile A params w =
    do { p \<leftarrow> Params [''name''] params;
         case p ''name'' of
           None \<Rightarrow> answers (status_result False [(''error'', nv_str ''The profile ID to be deleted must be provided'')]) w
         | Some j \<Rightarrow> do {
             name \<leftarrow> string_value j;
             call A (CallDeleteProfile name) delete_failed (\<lambda>_. answers (status_result True [])) w } }"

definition srv_delete_all_profiles :: "('w, 'm) app \<Rightarrow> json_body option \<Rightarrow> 'w \<Rightarrow> 'w handled" where
  "srv_delete_all_profiles A params w =
    call A CallDeleteAll delete_failed (\<lambda>_. answers (status_result True [])) w"

subsubsection \<open>The definitions, by group\<close>

lemmas equipment_handlers =
  srv_deselect_star_def srv_get_exposure_def srv_get_exposure_durations_def srv_get_profiles_def srv_set_exposure_def
  srv_get_profile_def srv_get_current_equipment_def srv_set_profile_def srv_get_connected_def srv_set_connected_def
  srv_get_calibrated_def

lemmas star_handlers =
  srv_get_paused_def srv_set_paused_def srv_loop_def srv_stop_capture_def srv_find_star_def srv_get_pixel_scale_def
  srv_get_app_state_def

lemmas lock_handlers =
  srv_get_lock_position_def srv_set_lock_position_def srv_clear_calibration_def srv_flip_calibration_def
  srv_get_lock_shift_enabled_def srv_set_lock_shift_enabled_def srv_get_lock_shift_params_def
  srv_set_lock_shift_params_def

lemmas image_handlers =
  srv_save_image_def srv_capture_single_frame_def srv_get_use_subframes_def srv_get_search_region_def
  srv_get_star_image_def

lemmas guiding_handlers =
  srv_guide_def srv_dither_def srv_shutdown_def srv_get_camera_binning_def srv_get_camera_frame_size_def
  srv_get_guide_output_enabled_def srv_set_guide_output_enabled_def

lemmas algorithm_handlers =
  srv_get_algo_param_names_def srv_get_algo_param_def srv_set_algo_param_def srv_get_dec_guide_mode_def
  srv_set_dec_guide_mode_def srv_get_settling_def srv_guide_pulse_def srv_get_calibration_data_def

lemmas status_handlers =
  srv_get_cooler_status_def srv_get_sensor_temperature_def srv_export_config_settings_def
  srv_lightapt_modify_response_def

lemmas dark_handlers =
  srv_is_darklib_loaded_def srv_get_darklib_path_def srv_get_darklib_name_def srv_set_darklib_def
  srv_start_darklib_capture_def srv_stop_darklib_capture_def srv_delete_darklib_by_profile_def

lemmas profile_handlers =
  srv_create_profile_def srv_update_profile_def srv_rename_profile_def srv_copy_profile_def srv_delete_profile_def
  srv_delete_all_profiles_def

text \<open>The hash the compiler computes for a case label is the one computed for a string that comes in.\<close>

lemma hash_agrees: "hash_cstr str = hashCompileTime str FNV_basis"
proof -
  have "foldl (\<lambda>ret c. (ret XOR char_u64 c) * FNV_prime) h str = hashCompileTime str h" for h
    by (induction str arbitrary: h) (simp_all add: xor.commute)
  then show ?thesis by (simp add: hash_cstr_def)
qed

end
