(* ===== verification/ServerRun.thy ===== *)
theory ServerRun
  imports EventServer
begin

text \<open>
  \<open>event_server.cpp\<close>, third part: the table of methods, \<open>handle_request\<close>, single requests and batches, and the line buffer
  of a client, with what is read while a request runs the event loop. A reply is sent with CR LF behind it; what is sent is a list of texts.
\<close>

subsection \<open>Dispatch\<close>

definition methods :: "(string \<times> (('w, 'm) app \<Rightarrow> json_body option \<Rightarrow> 'w \<Rightarrow> 'w handled)) list" where
  "methods =
    [(''clear_calibration'', srv_clear_calibration), (''deselect_star'', srv_deselect_star),
     (''get_exposure'', srv_get_exposure), (''set_exposure'', srv_set_exposure),
     (''get_exposure_durations'', srv_get_exposure_durations), (''get_profiles'', srv_get_profiles),
     (''get_profile'', srv_get_profile), (''set_profile'', srv_set_profile), (''get_connected'', srv_get_connected),
     (''set_connected'', srv_set_connected), (''get_calibrated'', srv_get_calibrated), (''get_paused'', srv_get_paused),
     (''set_paused'', srv_set_paused), (''get_lock_position'', srv_get_lock_position),
     (''set_lock_position'', srv_set_lock_position), (''loop'', srv_loop), (''stop_capture'', srv_stop_capture),
     (''guide'', srv_guide), (''dither'', srv_dither), (''find_star'', srv_find_star),
     (''get_pixel_scale'', srv_get_pixel_scale), (''get_app_state'', srv_get_app_state),
     (''flip_calibration'', srv_flip_calibration), (''get_lock_shift_enabled'', srv_get_lock_shift_enabled),
     (''set_lock_shift_enabled'', srv_set_lock_shift_enabled), (''get_lock_shift_params'', srv_get_lock_shift_params),
     (''set_lock_shift_params'', srv_set_lock_shift_params), (''save_image'', srv_save_image),
     (''get_star_image'', srv_get_star_image), (''get_use_subframes'', srv_get_use_subframes),
     (''get_search_region'', srv_get_search_region), (''shutdown'', srv_shutdown),
     (''get_camera_binning'', srv_get_camera_binning), (''get_camera_frame_size'', srv_get_camera_frame_size),
     (''get_current_equipment'', srv_get_current_equipment), (''get_guide_output_enabled'', srv_get_guide_output_enabled),
     (''set_guide_output_enabled'', srv_set_guide_output_enabled), (''get_algo_param_names'', srv_get_algo_param_names),
     (''get_algo_param'', srv_get_algo_param), (''set_algo_param'', srv_set_algo_param),
     (''get_dec_guide_mode'', srv_get_dec_guide_mode), (''set_dec_guide_mode'', srv_set_dec_guide_mode),
     (''get_settling'', srv_get_settling), (''guide_pulse'', srv_guide_pulse),
     (''get_calibration_data'', srv_get_calibration_data), (''capture_single_frame'', srv_capture_single_frame),
     (''get_cooler_status'', srv_get_cooler_status), (''get_ccd_temperature'', srv_get_sensor_temperature),
     (''export_config_settings'', srv_export_config_settings), (''lightapt_modify_response'', srv_lightapt_modify_response),
     (''get_darklib_path'', srv_get_darklib_path), (''set_darklib'', srv_set_darklib),
     (''get_darklib_name'', srv_get_darklib_name), (''is_darklib_loaded'', srv_is_darklib_loaded),
     (''create_darklib'', srv_start_darklib_capture), (''stop_darklib_capture'', srv_stop_darklib_capture),
     (''create_profile'', srv_create_profile), (''rename_profile'', srv_rename_profile), (''copy_profile'', srv_copy_profile),
     (''update_profile'', srv_update_profile), (''delete_profile'', srv_delete_profile),
     (''delete_all_profiles'', srv_delete_all_profiles)]"

definition params_ok :: "json_body option \<Rightarrow> bool" where
  "params_ok params \<longleftrightarrow> (case params of None \<Rightarrow> True | Some j \<Rightarrow> is_container j)"

definition handle_request :: "('w, 'm) app \<Rightarrow> json_body \<Rightarrow> 'w \<Rightarrow> ('w \<times> nv list option) option" where
  \<comment> \<open>the response to send, if any; the request is printed to the log first\<close>
  "handle_request A req w =
    do { logged \<leftarrow> json_format (pct_g (conv A)) req;
         let r = parse_request req; null_id = (''id'', nv_null)
         in case rq_method r of
              None \<Rightarrow> Some (w, Some (JRpcResponse @ [jrpc_error JSONRPC_INVALID_REQUEST ''invalid request - missing method'', null_id]))
            | Some m \<Rightarrow>
                if \<not> params_ok (rq_params r)
                then Some (w, Some (JRpcResponse @
                       [jrpc_error JSONRPC_INVALID_REQUEST ''invalid request - params must be an array or object'', null_id]))
                else do { name \<leftarrow> string_value m;
                  case map_of methods name of
                    Some fn \<Rightarrow> do { (w, nvs) \<leftarrow> fn A (rq_params r) w;
                      if rq_id r = None then Some (w, None)
                      else do { i \<leftarrow> jrpc_id (conv A) (rq_id r); Some (w, Some (JRpcResponse @ nvs @ [i])) } }
                  | None \<Rightarrow>
                      if rq_id r = None then Some (w, None)
                      else do { i \<leftarrow> jrpc_id (conv A) (rq_id r);
                        Some (w, Some (JRpcResponse @ [jrpc_error JSONRPC_METHOD_NOT_FOUND ''method not found'', i])) } } }"

definition crlf :: string where "crlf = [CHR 0x0D, CHR 0x0A]"

fun handle_batch :: "('w, 'm) app \<Rightarrow> json_value list \<Rightarrow> 'w \<Rightarrow> ('w \<times> string list) option" where
  \<comment> \<open>the responses put into \<open>ary\<close>\<close>
  "handle_batch A [] w = Some (w, [])"
| "handle_batch A (req # reqs) w =
    do { (w, response) \<leftarrow> handle_request A (jbody req) w;
         (w, ary) \<leftarrow> handle_batch A reqs w;
         Some (w, (case response of None \<Rightarrow> [] | Some nvs \<Rightarrow> [obj_text nvs]) @ ary) }"

definition parse_failure :: "int \<Rightarrow> string \<Rightarrow> string \<Rightarrow> nv list" where
  "parse_failure line desc pos = JRpcResponse @ [jrpc_error JSONRPC_PARSE_ERROR (parser_error line desc pos), (''id'', nv_null)]"

definition handle_cli_input_complete :: "('w, 'm) app \<Rightarrow> string \<Rightarrow> 'w \<Rightarrow> ('w \<times> string list) option" where
  "handle_cli_input_complete A input w =
    (case json_parse (cstr input) of
       Overrun \<Rightarrow> None
     | ParseError desc pos \<Rightarrow> Some (w, [obj_text (parse_failure (error_line A (cstr input)) desc pos) @ crlf])
     | Parsed v \<Rightarrow>
         (case jbody v of
            JSON_ARRAY reqs \<Rightarrow>
              do { (w, ary) \<leftarrow> handle_batch A reqs w; Some (w, if ary = [] then [] else [ary_text ary @ crlf]) }
          | req \<Rightarrow>
              do { (w, response) \<leftarrow> handle_request A req w;
                   Some (w, case response of None \<Rightarrow> [] | Some nvs \<Rightarrow> [obj_text nvs @ crlf]) }))"

subsection \<open>Lines\<close>

definition LF :: char where "LF = CHR 0x0A"
definition READ_SIZE :: nat where "READ_SIZE = 1024" \<comment> \<open>\<open>ClientReadBuf::SIZE\<close>\<close>

definition too_big :: "nv list" where
  "too_big = JRpcResponse @ [jrpc_error JSONRPC_INTERNAL_ERROR ''too big'', (''id'', nv_null)]"

text \<open>
  Connecting and disconnecting equipment runs the event loop (\<open>wxYield\<close> in \<open>RunInBg::Run\<close>), and what arrives in that time makes it
  call \<open>handle_cli_input\<close> again, for the same buffer, before the request has been answered. That call reads; if it finds a line
  complete it parses it, with the parser of the server, which frees the values the outer request is still reading (its id, and
  in a batch the requests that follow): \<^term>\<open>None\<close>. That a request without an id would survive this is not modelled.
\<close>

definition asks_for :: "request \<Rightarrow> string option" where "asks_for r = Option.bind (rq_method r) string_value"

definition runs_event_loop :: "string \<Rightarrow> bool" where
  "runs_event_loop line \<longleftrightarrow>
    (case json_parse (cstr line) of
       Parsed v \<Rightarrow> list_ex (\<lambda>req. asks_for (parse_request req) = Some ''set_connected'')
                     (case jbody v of JSON_ARRAY reqs \<Rightarrow> map jbody reqs | req \<Rightarrow> [req])
     | _ \<Rightarrow> False)"

fun reads_in_loop :: "nat \<Rightarrow> string list \<Rightarrow> string \<Rightarrow> (string list \<times> string \<times> string list) option" where
  \<comment> \<open>that many pieces are read while the event loop runs; what is left unread, the buffer, and what is sent\<close>
  "reads_in_loop 0 pieces buf = Some (pieces, buf, [])"
| "reads_in_loop (Suc k) [] buf = Some ([], buf, [])"
| "reads_in_loop (Suc k) (p # ps) buf =
    (if READ_SIZE \<le> length buf then Some ([], [], [obj_text too_big @ crlf])
     else let n = min (READ_SIZE - length buf) (length p)
       in if n = 0 then Some (ps, buf, [])
          else if LF \<in> set (buf @ take n p) then None
          else reads_in_loop k (if n < length p then drop n p # ps else ps) (buf @ take n p))"

lemma reads_in_loop_length:
  "reads_in_loop k pieces buf = Some (ps, buf', sent) \<Longrightarrow>
    length (concat ps) \<le> length (concat pieces) \<and> length buf' + length (concat ps) \<le> length buf + length (concat pieces)"
  by (induction k pieces buf rule: reads_in_loop.induct) (fastforce simp: Let_def split: if_splits)+

definition while_served ::
  "nat list \<Rightarrow> string list \<Rightarrow> string \<Rightarrow> string \<Rightarrow> (nat list \<times> string list \<times> string \<times> string list) option" where
  \<comment> \<open>what happens to the rest of the buffer while a line is served; \<open>loops\<close>: how many pieces are read in each run of the event loop\<close>
  "while_served loops pieces line rest =
    (if runs_event_loop line
     then (case loops of [] \<Rightarrow> Some ([], pieces, rest, [])
           | k # loops \<Rightarrow> map_option (\<lambda>(ps, buf, sent). (loops, ps, buf, sent)) (reads_in_loop k pieces rest))
     else Some (loops, pieces, rest, []))"

lemma while_served_length:
  "while_served loops pieces line rest = Some (loops', ps, buf, sent) \<Longrightarrow>
    length (concat ps) \<le> length (concat pieces) \<and> length buf + length (concat ps) \<le> length rest + length (concat pieces)"
  by (auto simp: while_served_def split: if_splits list.splits dest: reads_in_loop_length)

lemma line_rest_length: "LF \<in> set buf \<Longrightarrow> length (tl (dropWhile (\<lambda>c. c \<noteq> LF) buf)) < length buf"
proof -
  assume "LF \<in> set buf"
  then have "dropWhile (\<lambda>c. c \<noteq> LF) buf \<noteq> []" by (auto simp: dropWhile_eq_Nil_conv)
  then have "length (tl (dropWhile (\<lambda>c. c \<noteq> LF) buf)) < length (dropWhile (\<lambda>c. c \<noteq> LF) buf)" by simp
  then show ?thesis using length_dropWhile_le [of "\<lambda>c. c \<noteq> LF" buf] by simp
qed

function serve_lines ::
  "('w, 'm) app \<Rightarrow> nat list \<Rightarrow> string list \<Rightarrow> string \<Rightarrow> 'w \<Rightarrow> (nat list \<times> string list \<times> string \<times> 'w \<times> string list) option" where
  \<comment> \<open>the inner loop: every complete line of the buffer; what is left of it, and what is still to be read\<close>
  "serve_lines A loops pieces buf w =
    (if LF \<notin> set buf then Some (loops, pieces, buf, w, [])
     else let line = takeWhile (\<lambda>c. c \<noteq> LF) buf; rest = tl (dropWhile (\<lambda>c. c \<noteq> LF) buf)
       in do { (loops, pieces, buf, sent) \<leftarrow> while_served loops pieces line rest;
               (w, out) \<leftarrow> handle_cli_input_complete A line w;
               (loops, pieces, buf, w, out') \<leftarrow> serve_lines A loops pieces buf w;
               Some (loops, pieces, buf, w, sent @ out @ out') })"
  by pat_completeness auto
termination
proof (relation "measure (\<lambda>(A, loops, pieces, buf, w). length buf + length (concat pieces))", goal_cases)
  case (2 A loops pieces buf w)
  then show ?case using line_rest_length [of buf] by (fastforce dest: while_served_length)
qed simp

declare serve_lines.simps [simp del]

lemma serve_lines_length:
  "serve_lines A loops pieces buf w = Some (loops', ps, buf', w', out) \<Longrightarrow> length (concat ps) \<le> length (concat pieces)"
proof (induction A loops pieces buf w arbitrary: out rule: serve_lines.induct)
  case (1 A loops pieces buf w)
  define line where "line = takeWhile (\<lambda>c. c \<noteq> LF) buf"
  define rest where "rest = tl (dropWhile (\<lambda>c. c \<noteq> LF) buf)"
  note step = serve_lines.simps [of A loops pieces buf w, folded line_def rest_def, unfolded Let_def]
  show ?case
  proof (cases "LF \<in> set buf")
    case False
    then show ?thesis using "1.prems" by (simp add: step)
  next
    case True
    then obtain l p b s w1 o1 o2 where
      u: "while_served loops pieces line rest = Some (l, p, b, s)" "handle_cli_input_complete A line w = Some (w1, o1)"
        "serve_lines A l p b w1 = Some (loops', ps, buf', w', o2)"
      using "1.prems" by (auto simp: step split: bind_splits)
    have "length (concat ps) \<le> length (concat p)"
      using "1.IH" [OF _ line_def rest_def u(1) refl refl refl u(2) refl u(3)] True by simp
    then show ?thesis using while_served_length [OF u(1)] by simp
  qed
qed

function handle_cli_input ::
  "('w, 'm) app \<Rightarrow> nat list \<Rightarrow> string list \<Rightarrow> string \<Rightarrow> 'w \<Rightarrow> (string \<times> 'w \<times> string list) option" where
  \<comment> \<open>what arrives, piece by piece, while there is something to read; a full buffer drops all of it\<close>
  "handle_cli_input A loops pieces buf w =
    (case pieces of [] \<Rightarrow> Some (buf, w, [])
     | p # ps \<Rightarrow>
         if READ_SIZE \<le> length buf then Some ([], w, [obj_text too_big @ crlf])
         else let n = min (READ_SIZE - length buf) (length p)
           in if n = 0 then Some (buf, w, [])
              else do { (loops, pieces, buf, w, out) \<leftarrow>
                          serve_lines A loops (if n < length p then drop n p # ps else ps) (buf @ take n p) w;
                        (buf, w, out') \<leftarrow> handle_cli_input A loops pieces buf w;
                        Some (buf, w, out @ out') })"
  by pat_completeness auto
termination
proof (relation "measure (\<lambda>(A, loops, pieces, buf, w). length (concat pieces))", goal_cases)
  case (2 A loops pieces buf w p ps n a l ra q rb b rc w' out)
  then have "serve_lines A loops (if n < length p then drop n p # ps else ps) (buf @ take n p) w = Some (l, q, b, w', out)" by simp
  from serve_lines_length [OF this] have "length (concat q) \<le> length p - n + length (concat ps)" by (simp split: if_splits)
  moreover have "0 < length p" "0 < n" using 2(3,4) by auto
  ultimately have "length (concat q) < length p + length (concat ps)" by linarith
  then show ?case using 2(1) by simp
qed simp

declare handle_cli_input.simps [simp del]

end
