(* ===== verification/ServerReplies.thy ===== *)
theory ServerReplies
  imports ServerRun
begin

text \<open>
  What a client can rely on: every request with an id is answered once, a refused request has changed nothing (but for the shutter
  that \<open>create_darklib\<close> closes first), and which
  requests cannot bring the server down. Partial correctness of a handler is \<open>after\<close>, with a rule for each way handlers
  are put together.
\<close>

subsection \<open>Rules for handlers\<close>

named_theorems handler_rules

definition ensures :: "('w \<Rightarrow> nv list \<Rightarrow> bool) \<Rightarrow> 'w handled \<Rightarrow> bool" where
  \<comment> \<open>what holds of the state and the response of a handler that returns\<close>
  "ensures Q h \<longleftrightarrow> (case h of None \<Rightarrow> True | Some (w, nvs) \<Rightarrow> Q w nvs)"

lemma ensures_simps [simp]:
  "ensures Q None" "ensures Q (Some (w, nvs)) = Q w nvs" "ensures Q (answers nv w) = Q w [nv]"
  "ensures Q (nothing_caught t w)"
  by (simp_all add: ensures_def answers_def nothing_caught_def)

lemma ensures_bind [handler_rules]: "(\<And>y. x = Some y \<Longrightarrow> ensures Q (f y)) \<Longrightarrow> ensures Q (Option.bind x f)"
  by (cases x) simp_all

lemma ensures_call [handler_rules]:
  "(\<And>t w. ensures Q (catch t w)) \<Longrightarrow> (\<And>err w. ensures Q (k err w)) \<Longrightarrow> ensures Q (call A c catch k w)"
  by (simp add: call_def split: prod.split call_result.split)

lemma ensures_verify [handler_rules]:
  "Q w [jrpc_error 1 ''internal error''] \<Longrightarrow> (\<And>g. ensures Q (k g w)) \<Longrightarrow> ensures Q (verify_guider A k w)"
  by (simp add: verify_guider_def split: option.split)

lemma ensures_map: "ensures Q (map_option (\<lambda>(w, nvs). (w, f nvs)) h) = ensures (\<lambda>w nvs. Q w (f nvs)) h"
  by (simp add: ensures_def split: option.split)

text \<open>Errors with different codes are different.\<close>

lemma jrpc_error_code:
  assumes "is_int32 c" "is_int32 d" "jrpc_error c m = jrpc_error d n"
  shows "c = d"
proof -
  define comma where "comma = CHR '',''"
  have comma: "comma \<notin> set (format_d k)" for k
    using format_d_chars(1) [of comma k] by (auto simp: ends_number_def comma_def)
  define tail where "tail m = comma # nv_text (''message'', nv_str m) @ ''}''" for m
  have eq: "format_d c @ tail m = format_d d @ tail n"
    using assms(3) by (simp add: jrpc_error_def obj_text_def nv_text_def tail_def comma_def)
  have first: "takeWhile (\<lambda>x. x \<noteq> comma) (format_d k @ tail j) = format_d k" for k j
    using comma [of k] by (subst takeWhile_append2) (auto simp: tail_def)
  have "format_d c = takeWhile (\<lambda>x. x \<noteq> comma) (format_d c @ tail m)" by (rule first [symmetric])
  also have "\<dots> = format_d d" unfolding eq by (rule first)
  finally show ?thesis using atoi_format_d [OF assms(1)] atoi_format_d [OF assms(2)] by (metis prod.inject)
qed

definition is_reply :: "nv list \<Rightarrow> bool" where
  "is_reply nvs \<longleftrightarrow> (\<exists>v. nvs = [jrpc_result v]) \<or> (\<exists>code msg. nvs = [jrpc_error code msg])"

definition refused :: "nv list \<Rightarrow> bool" where
  \<comment> \<open>an \<open>INVALID_PARAMS\<close> or \<open>METHOD_NOT_FOUND\<close> error is among the replies\<close>
  "refused nvs \<longleftrightarrow>
    (\<exists>msg. jrpc_error JSONRPC_INVALID_PARAMS msg \<in> set nvs \<or> jrpc_error JSONRPC_METHOD_NOT_FOUND msg \<in> set nvs)"

lemma is_reply_simps [simp]: "is_reply [jrpc_result v]" "is_reply [jrpc_error c m]"
  unfolding is_reply_def by blast+

lemma result_not_error [simp]: "jrpc_result v \<noteq> jrpc_error c m" "jrpc_error c m \<noteq> jrpc_result v"
  by (simp_all add: jrpc_result_def jrpc_error_def)

definition fair_reply :: "'w \<Rightarrow> 'w \<Rightarrow> nv list \<Rightarrow> bool" where
  \<comment> \<open>one reply, and no change where it refuses the parameters\<close>
  "fair_reply w w' nvs \<longleftrightarrow> is_reply nvs \<and> (refused nvs \<longrightarrow> w' = w)"

lemma refused_code:
  "is_int32 c \<Longrightarrow> c \<noteq> JSONRPC_INVALID_PARAMS \<Longrightarrow> c \<noteq> JSONRPC_METHOD_NOT_FOUND \<Longrightarrow> \<not> refused [jrpc_error c m]"
  using jrpc_error_code [of JSONRPC_INVALID_PARAMS c] jrpc_error_code [of JSONRPC_METHOD_NOT_FOUND c]
  by (auto simp: refused_def JSONRPC_INVALID_PARAMS_def JSONRPC_METHOD_NOT_FOUND_def is_int32_def)

lemma fair_simps [simp]:
  "fair_reply w w' [jrpc_result v]" "fair_reply w w [jrpc_error c m]"
  "fair_reply w w' [jrpc_error 1 m]" "fair_reply w w' [jrpc_error 2 m]" "fair_reply w w' [jrpc_error 3 m]"
  "fair_reply w w' [jrpc_error (-1) m]" "fair_reply w w' [jrpc_error JSONRPC_INVALID_REQUEST m]"
  "fair_reply w w' [jrpc_error JSONRPC_INTERNAL_ERROR m]" "fair_reply w w' [ok0]"
  "fair_reply w w' [status_result b nvs]" "fair_reply w w' [error_result m]"
  by (simp_all add: fair_reply_def is_reply_def refused_code is_int32_def JSONRPC_INVALID_REQUEST_def
      JSONRPC_INTERNAL_ERROR_def JSONRPC_INVALID_PARAMS_def JSONRPC_METHOD_NOT_FOUND_def ok0_def status_result_def error_result_def)
    (auto simp: refused_def)

lemma fair_catches [simp]:
  "ensures (fair_reply w0) (catch_std t w)" "ensures (fair_reply w0) (catch_wx t w)"
  "c \<in> {1, -1, JSONRPC_INTERNAL_ERROR} \<Longrightarrow> ensures (fair_reply w0) (catch_message c m t w)"
  "ensures (fair_reply w0) (server_error t w)" "ensures (fair_reply w0) (algo_exception t w)"
  "ensures (fair_reply w0) (create_failed t w)" "ensures (fair_reply w0) (delete_failed t w)"
  "ensures (fair_reply w0) (succeeds m err w)" "ensures (fair_reply w0) (succeeds_or err w)"
  by (auto simp: catch_std_def catch_wx_def catch_message_def server_error_def algo_exception_def create_failed_def
      delete_failed_def succeeds_def succeeds_or_def split: thrown.split option.split)

subsection \<open>Every handler\<close>

lemma fair_equipment_handlers:
  "ensures (fair_reply w) (srv_deselect_star A params w)"
  "ensures (fair_reply w) (srv_get_exposure A params w)"
  "ensures (fair_reply w) (srv_get_exposure_durations A params w)"
  "ensures (fair_reply w) (srv_get_profiles A params w)"
  "ensures (fair_reply w) (srv_set_exposure A params w)"
  "ensures (fair_reply w) (srv_get_profile A params w)"
  "ensures (fair_reply w) (srv_get_current_equipment A params w)"
  "ensures (fair_reply w) (srv_set_profile A params w)"
  "ensures (fair_reply w) (srv_get_connected A params w)"
  "ensures (fair_reply w) (srv_set_connected A params w)"
  "ensures (fair_reply w) (srv_get_calibrated A params w)"
  by (auto simp: equipment_handlers Let_def intro!: handler_rules
      split: option.split json_body.split sum.split prod.split thrown.split WHICH_MOUNT.split if_split)

lemma fair_star_handlers:
  "ensures (fair_reply w) (srv_get_paused A params w)"
  "ensures (fair_reply w) (srv_set_paused A params w)"
  "ensures (fair_reply w) (srv_loop A params w)"
  "ensures (fair_reply w) (srv_stop_capture A params w)"
  "ensures (fair_reply w) (srv_find_star A params w)"
  "ensures (fair_reply w) (srv_get_pixel_scale A params w)"
  "ensures (fair_reply w) (srv_get_app_state A params w)"
  by (auto simp: star_handlers Let_def intro!: handler_rules
      split: option.split json_body.split sum.split prod.split thrown.split WHICH_MOUNT.split if_split)

lemma fair_lock_handlers:
  "ensures (fair_reply w) (srv_get_lock_position A params w)"
  "ensures (fair_reply w) (srv_set_lock_position A params w)"
  "ensures (fair_reply w) (srv_clear_calibration A params w)"
  "ensures (fair_reply w) (srv_flip_calibration A params w)"
  "ensures (fair_reply w) (srv_get_lock_shift_enabled A params w)"
  "ensures (fair_reply w) (srv_set_lock_shift_enabled A params w)"
  "ensures (fair_reply w) (srv_get_lock_shift_params A params w)"
  "ensures (fair_reply w) (srv_set_lock_shift_params A params w)"
  by (auto simp: lock_handlers Let_def intro!: handler_rules
      split: option.split json_body.split sum.split prod.split thrown.split WHICH_MOUNT.split if_split)

lemma fair_image_handlers:
  "ensures (fair_reply w) (srv_save_image A params w)"
  "ensures (fair_reply w) (srv_capture_single_frame A params w)"
  "ensures (fair_reply w) (srv_get_use_subframes A params w)"
  "ensures (fair_reply w) (srv_get_search_region A params w)"
  "ensures (fair_reply w) (srv_get_star_image A params w)"
  by (auto simp: image_handlers Let_def intro!: handler_rules
      split: option.split json_body.split sum.split prod.split thrown.split WHICH_MOUNT.split if_split)

lemma fair_guiding_handlers:
  "ensures (fair_reply w) (srv_guide A params w)"
  "ensures (fair_reply w) (srv_dither A params w)"
  "ensures (fair_reply w) (srv_shutdown A params w)"
  "ensures (fair_reply w) (srv_get_camera_binning A params w)"
  "ensures (fair_reply w) (srv_get_camera_frame_size A params w)"
  "ensures (fair_reply w) (srv_get_guide_output_enabled A params w)"
  "ensures (fair_reply w) (srv_set_guide_output_enabled A params w)"
  by (auto simp: guiding_handlers Let_def intro!: handler_rules
      split: option.split json_body.split sum.split prod.split thrown.split WHICH_MOUNT.split if_split)

lemma fair_algorithm_handlers:
  "ensures (fair_reply w) (srv_get_algo_param_names A params w)"
  "ensures (fair_reply w) (srv_get_algo_param A params w)"
  "ensures (fair_reply w) (srv_get_dec_guide_mode A params w)"
  "ensures (fair_reply w) (srv_set_dec_guide_mode A params w)"
  "ensures (fair_reply w) (srv_get_settling A params w)"
  "ensures (fair_reply w) (srv_guide_pulse A params w)"
  "ensures (fair_reply w) (srv_get_calibration_data A params w)"
  by (auto simp: algorithm_handlers Let_def intro!: handler_rules
      split: option.split json_body.split sum.split prod.split thrown.split WHICH_MOUNT.split if_split)

lemma fair_status_handlers:
  "ensures (fair_reply w) (srv_get_cooler_status A params w)"
  "ensures (fair_reply w) (srv_get_sensor_temperature A params w)"
  "ensures (fair_reply w) (srv_export_config_settings A params w)"
  "ensures (fair_reply w) (srv_lightapt_modify_response A params w)"
  by (auto simp: status_handlers Let_def intro!: handler_rules
      split: option.split json_body.split sum.split prod.split thrown.split WHICH_MOUNT.split if_split)

lemma fair_dark_handlers:
  "ensures (fair_reply w) (srv_is_darklib_loaded A params w)"
  "ensures (fair_reply w) (srv_get_darklib_path A params w)"
  "ensures (fair_reply w) (srv_get_darklib_name A params w)"
  "ensures (fair_reply w) (srv_set_darklib A params w)"
  "ensures (fair_reply w) (srv_start_darklib_capture A params w)"
  "ensures (fair_reply w) (srv_delete_darklib_by_profile A params w)"
  by (auto simp: dark_handlers Let_def intro!: handler_rules
      split: option.split json_body.split sum.split prod.split thrown.split WHICH_MOUNT.split if_split)

lemma fair_profile_handlers:
  "ensures (fair_reply w) (srv_rename_profile A params w)"
  "ensures (fair_reply w) (srv_copy_profile A params w)"
  "ensures (fair_reply w) (srv_delete_profile A params w)"
  "ensures (fair_reply w) (srv_delete_all_profiles A params w)"
  by (auto simp: profile_handlers Let_def intro!: handler_rules
      split: option.split json_body.split sum.split prod.split thrown.split WHICH_MOUNT.split if_split)

text \<open>Four handlers stand apart: one never adds a reply, one adds none when it succeeds, and two go on after their reply,
  where an exception would add another.\<close>

definition throws :: "'w \<times> call_result \<Rightarrow> bool" where
  "throws r \<longleftrightarrow> (case snd r of Thrown _ \<Rightarrow> True | _ \<Rightarrow> False)"

definition calm :: "('w, 'm) app \<Rightarrow> bool" where
  \<comment> \<open>what follows a reply throws nothing\<close>
  "calm A \<longleftrightarrow> (\<forall>w. \<not> throws (exec A CallUpdateGraphControls w) \<and> \<not> throws (exec A CallNotifyConfigurationChange w))"

definition silent_methods :: "string list" where "silent_methods = [''stop_darklib_capture'', ''update_profile'']"

lemma ensures_call_throws:
  "(\<And>t w'. throws (exec A c w) \<Longrightarrow> ensures Q (catch t w')) \<Longrightarrow> (\<And>err w. ensures Q (k err w)) \<Longrightarrow> ensures Q (call A c catch k w)"
  by (auto simp: call_def throws_def split: prod.split call_result.splits)

lemma fair_set_algo_param: "calm A \<Longrightarrow> ensures (fair_reply w) (srv_set_algo_param A params w)"
  by (auto simp: srv_set_algo_param_def calm_def intro!: ensures_bind ensures_call_throws split: option.split json_body.split)

lemma fair_create_profile: "calm A \<Longrightarrow> ensures (fair_reply w) (srv_create_profile A params w)"
  by (auto simp: srv_create_profile_def calm_def Let_def intro!: ensures_bind ensures_call_throws split: option.split)

lemma silent_handlers:
  "ensures (\<lambda>w' nvs. nvs = [] \<or> fair_reply w w' nvs) (srv_stop_darklib_capture A params w)"
  "ensures (\<lambda>w' nvs. nvs = [] \<or> fair_reply w w' nvs) (srv_update_profile A params w)"
  by (auto simp: srv_stop_darklib_capture_def srv_update_profile_def intro!: handler_rules split: option.split)

lemmas fair_handlers =
  fair_equipment_handlers fair_star_handlers fair_lock_handlers fair_image_handlers fair_guiding_handlers
  fair_algorithm_handlers fair_status_handlers fair_dark_handlers fair_profile_handlers fair_set_algo_param fair_create_profile

lemma fair_methods:
  assumes "calm A" "map_of methods name = Some fn"
  shows "ensures (\<lambda>w' nvs. (name \<in> set silent_methods \<and> nvs = []) \<or> fair_reply w w' nvs) (fn A params w)"
proof (cases "name \<in> set silent_methods")
  case True
  then have "fn = srv_stop_darklib_capture \<or> fn = srv_update_profile"
    using assms(2) by (auto simp: silent_methods_def methods_def)
  then show ?thesis using silent_handlers [of w A params] True by auto
next
  case False
  have "\<forall>(n, f)\<in>set methods. n \<in> set silent_methods \<or> ensures (fair_reply w) (f A params w)"
    using assms(1) by (simp add: methods_def fair_handlers silent_methods_def)
  then show ?thesis using map_of_SomeD [OF assms(2)] False by auto
qed

subsection \<open>Requests\<close>

definition well_formed :: "request \<Rightarrow> bool" where
  "well_formed r \<longleftrightarrow> rq_method r \<noteq> None \<and> params_ok (rq_params r)"

lemma bind_Some: "Option.bind x f = Some y \<longleftrightarrow> (\<exists>z. x = Some z \<and> f z = Some y)"
  by (cases x) simp_all

text \<open>The cases of \<open>handle_request\<close>.\<close>

definition malformed :: "request \<Rightarrow> nv list" where
  "malformed r = JRpcResponse @
     [jrpc_error JSONRPC_INVALID_REQUEST (if rq_method r = None then ''invalid request - missing method''
        else ''invalid request - params must be an array or object''), (''id'', nv_null)]"

lemma request_cases:
  fixes A :: "('w, 'm) app"
  assumes "handle_request A req w = Some (w', response)"
  obtains (malformed) "\<not> well_formed (parse_request req)" "w' = w" "response = Some (malformed (parse_request req))"
  | (unknown) name where "well_formed (parse_request req)" "asks_for (parse_request req) = Some name"
      "map_of (methods :: (string \<times> (('w, 'm) app \<Rightarrow> json_body option \<Rightarrow> 'w \<Rightarrow> 'w handled)) list) name = None" "w' = w"
      "case rq_id (parse_request req) of None \<Rightarrow> response = None
       | Some j \<Rightarrow> \<exists>i. json_format (pct_g (conv A)) j = Some i \<and>
           response = Some (JRpcResponse @ [jrpc_error JSONRPC_METHOD_NOT_FOUND ''method not found'', (''id'', i)])"
  | (handled) name fn nvs where "well_formed (parse_request req)" "asks_for (parse_request req) = Some name"
      "map_of methods name = Some fn" "fn A (rq_params (parse_request req)) w = Some (w', nvs)"
      "case rq_id (parse_request req) of None \<Rightarrow> response = None
       | Some j \<Rightarrow> \<exists>i. json_format (pct_g (conv A)) j = Some i \<and> response = Some (JRpcResponse @ nvs @ [(''id'', i)])"
proof -
  define r where "r = parse_request req"
  note h = assms [unfolded handle_request_def Let_def r_def [symmetric]]
  show ?thesis
  proof (cases "well_formed r")
    case False
    then have "w' = w \<and> response = Some (malformed r)"
      using h by (auto simp: well_formed_def malformed_def bind_Some split: option.splits if_splits)
    then show ?thesis using malformed False by (simp add: r_def)
  next
    case True
    then obtain m where m: "rq_method r = Some m" "params_ok (rq_params r)" by (auto simp: well_formed_def)
    then obtain name where name: "string_value m = Some name" using h by (auto simp: bind_Some)
    have asks: "asks_for r = Some name" using m name by (simp add: asks_for_def)
    show ?thesis
    proof (cases "map_of (methods :: (string \<times> (('w, 'm) app \<Rightarrow> json_body option \<Rightarrow> 'w \<Rightarrow> 'w handled)) list) name")
      case None
      then show ?thesis using unknown [of name] True asks h m name
        by (auto simp: r_def bind_Some jrpc_id_def split: option.splits if_splits)
    next
      case (Some fn)
      then obtain w1 nvs where fn: "fn A (rq_params r) w = Some (w1, nvs)"
        using h m name by (auto simp: bind_Some)
      then show ?thesis using handled [of name fn nvs] True asks Some h m name
        by (auto simp: r_def bind_Some jrpc_id_def split: option.splits if_splits)
    qed
  qed
qed

lemma refused_response: "refused (JRpcResponse @ rs @ [(''id'', i)]) = refused rs"
  by (simp add: refused_def JRpcResponse_def jrpc_error_def)

lemma method_replies:
  assumes "calm A" "map_of methods name = Some fn" "fn A params w = Some (w', rs)"
  shows "is_reply rs \<or> rs = [] \<and> name \<in> set silent_methods" "refused rs \<Longrightarrow> w' = w"
  using fair_methods [OF assms(1,2), of w params] assms(3) by (auto simp: fair_reply_def refused_def)

subsection \<open>Refusals without an error code of their own\<close>

text \<open>
  Some methods refuse parameters with error 1, which they also use for other failures, or with a result. What they ask of the
  parameters, under the names they read them by.
\<close>

definition missing :: "(string \<rightharpoonup> json_body) \<Rightarrow> string list \<Rightarrow> bool" where
  "missing p ks \<longleftrightarrow> (\<exists>k\<in>set ks. p k = None)"

definition text_param :: "(string \<rightharpoonup> json_body) \<Rightarrow> string \<Rightarrow> bool" where
  "text_param p k \<longleftrightarrow> (case p k of Some (JSON_STRING s) \<Rightarrow> True | _ \<Rightarrow> False)"

definition one_device :: "(string \<rightharpoonup> json_body) \<Rightarrow> bool" where
  "one_device p \<longleftrightarrow> which_mount (p ''which'') \<in> {MOUNT, AO}"

definition refusal_checks :: "(string \<times> string list \<times> ((string \<rightharpoonup> json_body) \<Rightarrow> bool)) list" where
  "refusal_checks =
    [(''get_algo_param_names'', [''axis''], \<lambda>p. axis_param p \<noteq> None),
     (''get_algo_param'', [''axis'', ''name''], \<lambda>p. axis_param p \<noteq> None \<and> text_param p ''name''),
     (''set_algo_param'', [''axis'', ''name'', ''value''], \<lambda>p. axis_param p \<noteq> None \<and> text_param p ''name'' \<and>
        (case p ''value'' of None \<Rightarrow> False | Some j \<Rightarrow> float_param j \<noteq> None)),
     (''set_dec_guide_mode'', [''mode''], \<lambda>p. case p ''mode'' of Some (JSON_STRING s) \<Rightarrow> dec_mode_named s \<noteq> None | _ \<Rightarrow> False),
     (''guide_pulse'', [''amount'', ''direction'', ''which''], \<lambda>p. (case p ''amount'' of Some (JSON_INT n) \<Rightarrow> True | _ \<Rightarrow> False) \<and>
        dir_param (p ''direction'') \<noteq> NONE \<and> one_device p),
     (''get_calibration_data'', [''which''], one_device),
     (''get_darklib_name'', [''profile_id''], \<lambda>p. \<not> missing p [''profile_id'']),
     (''set_darklib'', [''library_path''], \<lambda>p. \<not> missing p [''library_path'']),
     (''create_darklib'', [''name'', ''max_exposure'', ''min_exposure'', ''count'', ''tip''],
        \<lambda>p. \<not> missing p [''max_exposure'', ''min_exposure'', ''count'']),
     (''create_profile'', [''name''], \<lambda>p. \<not> missing p [''name'']),
     (''rename_profile'', [''oldname'', ''newname''], \<lambda>p. \<not> missing p [''oldname'', ''newname'']),
     (''copy_profile'', [''dest'', ''source''], \<lambda>p. \<not> missing p [''dest'', ''source'']),
     (''update_profile'', [''type'', ''name'', ''value''], \<lambda>p. \<not> missing p [''type'', ''name'', ''value'']),
     (''delete_profile'', [''name''], \<lambda>p. \<not> missing p [''name''])]"

definition acceptable :: "string \<Rightarrow> json_body option \<Rightarrow> bool" where
  "acceptable name params \<longleftrightarrow>
    (case map_of refusal_checks name of None \<Rightarrow> True
     | Some (names, check) \<Rightarrow> (case Params names params of None \<Rightarrow> True | Some p \<Rightarrow> check p))"

definition shutter_closed :: "('w, 'm) app \<Rightarrow> 'w \<Rightarrow> 'w" where
  \<comment> \<open>what \<open>create_darklib\<close> does before it looks at its parameters\<close>
  "shutter_closed A w =
    (case v_guider (view A w) of None \<Rightarrow> w
     | Some g \<Rightarrow> if IsCalibratingOrGuiding (g_state g) \<or> g_state g = GS_GUIDING then w else fst (exec A (CallSetShutterClosed True) w))"

abbreviation unchanged :: "'w \<Rightarrow> 'w handled \<Rightarrow> bool" where
  "unchanged w \<equiv> ensures (\<lambda>w' nvs. w' = w)"

lemmas check_defs = missing_def text_param_def one_device_def which_device_def

lemma refusing_algorithm_handlers:
  assumes "Params names params = Some p"
  shows "names = [''axis''] \<Longrightarrow> unchanged w (srv_get_algo_param_names A params w)"
    "names = [''axis'', ''name''] \<Longrightarrow> unchanged w (srv_get_algo_param A params w)"
    "names = [''axis'', ''name'', ''value''] \<Longrightarrow> \<not> (axis_param p \<noteq> None \<and> text_param p ''name'' \<and>
        (case p ''value'' of None \<Rightarrow> False | Some j \<Rightarrow> float_param j \<noteq> None)) \<Longrightarrow> unchanged w (srv_set_algo_param A params w)"
    "names = [''mode''] \<Longrightarrow> \<not> (case p ''mode'' of Some (JSON_STRING s) \<Rightarrow> dec_mode_named s \<noteq> None | _ \<Rightarrow> False) \<Longrightarrow>
      unchanged w (srv_set_dec_guide_mode A params w)"
    "names = [''amount'', ''direction'', ''which''] \<Longrightarrow> \<not> ((case p ''amount'' of Some (JSON_INT n) \<Rightarrow> True | _ \<Rightarrow> False) \<and>
        dir_param (p ''direction'') \<noteq> NONE \<and> one_device p) \<Longrightarrow> unchanged w (srv_guide_pulse A params w)"
    "names = [''which''] \<Longrightarrow> unchanged w (srv_get_calibration_data A params w)"
  using assms
  by (auto simp: srv_get_algo_param_names_def srv_get_algo_param_def srv_set_algo_param_def srv_set_dec_guide_mode_def
      srv_guide_pulse_def srv_get_calibration_data_def check_defs Let_def
      split: option.splits json_body.splits WHICH_MOUNT.splits if_splits)

lemma refusing_result_handlers:
  assumes "Params names params = Some p"
  shows "names = [''profile_id''] \<Longrightarrow> unchanged w (srv_get_darklib_name A params w)"
    "names = [''library_path''] \<Longrightarrow> missing p [''library_path''] \<Longrightarrow> unchanged w (srv_set_darklib A params w)"
    "names = [''name''] \<Longrightarrow> missing p [''name''] \<Longrightarrow> unchanged w (srv_create_profile A params w)"
    "names = [''oldname'', ''newname''] \<Longrightarrow> missing p [''oldname'', ''newname''] \<Longrightarrow> unchanged w (srv_rename_profile A params w)"
    "names = [''dest'', ''source''] \<Longrightarrow> missing p [''dest'', ''source''] \<Longrightarrow> unchanged w (srv_copy_profile A params w)"
    "names = [''type'', ''name'', ''value''] \<Longrightarrow> missing p [''type'', ''name'', ''value''] \<Longrightarrow> unchanged w (srv_update_profile A params w)"
    "names = [''name''] \<Longrightarrow> missing p [''name''] \<Longrightarrow> unchanged w (srv_delete_profile A params w)"
  using assms
  by (auto simp: srv_get_darklib_name_def srv_set_darklib_def srv_create_profile_def srv_rename_profile_def srv_copy_profile_def
      srv_update_profile_def srv_delete_profile_def check_defs split: option.splits)

lemma refusing_darklib:
  assumes "Params [''name'', ''max_exposure'', ''min_exposure'', ''count'', ''tip''] params = Some p"
    "missing p [''max_exposure'', ''min_exposure'', ''count'']"
  shows "ensures (\<lambda>w' nvs. w' = shutter_closed A w) (srv_start_darklib_capture A params w)"
proof -
  obtain w1 r where e: "exec A (CallSetShutterClosed True) w = (w1, r)" by fastforce
  show ?thesis
    using assms
    by (auto simp: srv_start_darklib_capture_def shutter_closed_def e call_def catch_message_def missing_def Let_def
        intro!: ensures_bind split: option.splits call_result.splits thrown.splits)
qed

lemma refusing_methods:
  "map_of methods ''get_algo_param_names'' = Some srv_get_algo_param_names"
  "map_of methods ''get_algo_param'' = Some srv_get_algo_param"
  "map_of methods ''set_algo_param'' = Some srv_set_algo_param"
  "map_of methods ''set_dec_guide_mode'' = Some srv_set_dec_guide_mode"
  "map_of methods ''guide_pulse'' = Some srv_guide_pulse"
  "map_of methods ''get_calibration_data'' = Some srv_get_calibration_data"
  "map_of methods ''get_darklib_name'' = Some srv_get_darklib_name"
  "map_of methods ''set_darklib'' = Some srv_set_darklib"
  "map_of methods ''create_darklib'' = Some srv_start_darklib_capture"
  "map_of methods ''create_profile'' = Some srv_create_profile"
  "map_of methods ''rename_profile'' = Some srv_rename_profile"
  "map_of methods ''copy_profile'' = Some srv_copy_profile"
  "map_of methods ''update_profile'' = Some srv_update_profile"
  "map_of methods ''delete_profile'' = Some srv_delete_profile"
  by (simp_all add: methods_def)

lemma unacceptable:
  assumes "map_of methods name = Some fn" "\<not> acceptable name params"
  shows "ensures (\<lambda>w' nvs. w' = (if name = ''create_darklib'' then shutter_closed A w else w)) (fn A params w)"
proof -
  obtain names check p where c: "map_of refusal_checks name = Some (names, check)" "Params names params = Some p" "\<not> check p"
    using assms(2) by (auto simp: acceptable_def split: option.splits)
  note rules = refusing_algorithm_handlers [OF c(2)] refusing_result_handlers [OF c(2)]
  have "(name, names, check) \<in> set refusal_checks" by (rule map_of_SomeD [OF c(1)])
  then show ?thesis
    unfolding refusal_checks_def list.set insert_iff empty_iff prod.inject
    by (elim disjE conjE FalseE; hypsubst)
      (use c(2,3) assms(1) rules refusing_darklib [of params p A w] in \<open>simp_all add: refusing_methods\<close>)
qed

end
