(* ===== verification/ServerSafety.thy ===== *)
theory ServerSafety
  imports ServerReplies GuiderRun
begin

text \<open>
  Which requests of a client can bring the application down. \<open>harmless\<close> lists, method by method, what its parameters must
  satisfy; every other request returns to the dispatcher as long as the equipment is there and nothing throws.
\<close>

subsection \<open>Names\<close>

text \<open>A request that could be printed to the log has names all over.\<close>

definition prints :: "(real \<Rightarrow> string) \<Rightarrow> json_body \<Rightarrow> bool" where "prints f j \<longleftrightarrow> json_format f j \<noteq> None"

lemma format_members_named: "format_members f vs \<noteq> None \<Longrightarrow> \<not> nameless vs \<and> (\<forall>v\<in>set vs. prints f (jbody v))"
proof (induction vs)
  case (Cons v vs)
  obtain n b where v: "v = JValue n b" by (cases v) auto
  then show ?case using Cons by (cases n) (auto simp: nameless_def prints_def split: option.splits)
qed (simp add: nameless_def)

lemma format_elems_print: "format_elems f vs \<noteq> None \<Longrightarrow> \<forall>v\<in>set vs. prints f (jbody v)"
proof (induction vs)
  case (Cons v vs)
  obtain n b where v: "v = JValue n b" by (cases v) auto
  then show ?case using Cons by (auto simp: prints_def split: option.splits)
qed simp

lemma prints_named: "prints f (JSON_OBJECT vs) \<Longrightarrow> \<not> nameless vs"
  using format_members_named [of f vs] by (simp add: prints_def)

lemma prints_children: "prints f j \<Longrightarrow> v \<in> set (children j) \<Longrightarrow> prints f (jbody v)"
  using format_members_named [of f] format_elems_print [of f] by (cases j) (auto simp: children_def prints_def)

definition opt_prints :: "(real \<Rightarrow> string) \<Rightarrow> json_body option \<Rightarrow> bool" where
  "opt_prints f j \<longleftrightarrow> (case j of None \<Rightarrow> True | Some j \<Rightarrow> prints f j)"

lemma Params_defined: "opt_prints f params \<Longrightarrow> Params names params \<noteq> None"
  by (auto simp: opt_prints_def Params_def prints_named split: option.split json_body.split)

lemma Params_print:
  assumes "opt_prints f params" "Params names params = Some p" "p k = Some j"
  shows "prints f j"
proof -
  have "\<exists>v. j = jbody v \<and> (\<exists>q. params = Some q \<and> v \<in> set (children q))"
    using assms(2,3) by (auto simp: Params_def children_def split: option.splits json_body.splits if_splits
        dest!: map_of_SomeD set_zip_rightD)
  then show ?thesis using assms(1) prints_children by (auto simp: opt_prints_def)
qed

lemma request_prints:
  assumes "prints f req"
  shows "opt_prints f (rq_params (parse_request req))"
proof -
  have member: "opt_prints f (rq_params (parse_member v r))" if "prints f (jbody v)" "opt_prints f (rq_params r)" for v r
    using that by (cases "jname v") (auto simp: parse_member_def opt_prints_def)
  have "opt_prints f (rq_params (fold parse_member vs r))"
    if "\<forall>v\<in>set vs. prints f (jbody v)" "opt_prints f (rq_params r)" for vs r
    using that by (induction vs arbitrary: r) (simp_all add: member)
  then show ?thesis using prints_children [OF assms] by (simp add: parse_request_def opt_prints_def)
qed

subsection \<open>What the parameters must satisfy\<close>

definition text_or_missing :: "(string \<rightharpoonup> json_body) \<Rightarrow> string \<Rightarrow> bool" where
  "text_or_missing p k \<longleftrightarrow> (case p k of None \<Rightarrow> True | Some j \<Rightarrow> is_string j)"

definition settle_in_range :: "(string \<rightharpoonup> json_body) \<Rightarrow> bool" where
  \<comment> \<open>the times of the settle object fit an \<open>int\<close>\<close>
  "settle_in_range p \<longleftrightarrow>
    (case p ''settle'' of None \<Rightarrow> True
     | Some j \<Rightarrow> (\<forall>v\<in>set (children j). case float_param (jbody v) of None \<Rightarrow> True
         | Some d \<Rightarrow> jname v \<in> {Some ''time'', Some ''timeout''} \<longrightarrow> is_int32 \<lfloor>d\<rfloor>))"

definition parameter_checks :: "(string \<times> string list \<times> ((string \<rightharpoonup> json_body) \<Rightarrow> bool)) list" where
  "parameter_checks =
    [(''set_exposure'', [''exposure''], \<lambda>p. p ''exposure'' \<noteq> None),
     (''set_algo_param'', [''axis'', ''name'', ''value''], \<lambda>p. p ''value'' \<noteq> None),
     (''guide'', [''settle'', ''recalibrate'', ''roi''], settle_in_range),
     (''dither'', [''amount'', ''raOnly'', ''settle''], settle_in_range),
     (''set_darklib'', [''library_path''], \<lambda>p. text_or_missing p ''library_path''),
     (''create_darklib'', [''name'', ''max_exposure'', ''min_exposure'', ''count'', ''tip''], \<lambda>p. text_or_missing p ''tip''),
     (''create_profile'', [''name''], \<lambda>p. text_or_missing p ''name''),
     (''rename_profile'', [''oldname'', ''newname''], \<lambda>p. text_or_missing p ''oldname'' \<and> text_or_missing p ''newname''),
     (''copy_profile'', [''dest'', ''source''], \<lambda>p. text_or_missing p ''dest'' \<and> text_or_missing p ''source''),
     (''update_profile'', [''type'', ''name'', ''value''], \<lambda>p. text_or_missing p ''type'' \<and> text_or_missing p ''name''),
     (''delete_profile'', [''name''], \<lambda>p. text_or_missing p ''name'')]"

definition harmless :: "string \<Rightarrow> json_body option \<Rightarrow> bool" where
  "harmless name params \<longleftrightarrow>
    (case map_of parameter_checks name of None \<Rightarrow> True
     | Some (names, check) \<Rightarrow> (case Params names params of None \<Rightarrow> False | Some p \<Rightarrow> check p))"

definition alive :: "('w, 'm) app \<Rightarrow> bool" where
  \<comment> \<open>nothing throws, camera, mount and guider are there in every state, and the star is on some image\<close>
  "alive A \<longleftrightarrow> (\<forall>c w. \<not> throws (exec A c w)) \<and>
    (\<forall>w. v_camera (view A w) \<noteq> None \<and> v_mount (view A w) \<noteq> None \<and>
      (case v_guider (view A w) of None \<Rightarrow> False
       | Some g \<Rightarrow> is_int32 (rint (X (CurrentPosition (g_star g)))) \<and> is_int32 (rint (Y (CurrentPosition (g_star g))))))"

subsection \<open>Handlers that return\<close>

definition returns :: "'w handled \<Rightarrow> bool" where "returns h \<longleftrightarrow> h \<noteq> None"

lemma returns_simps [simp]: "returns (answers nv w)" "returns (Some r)" "\<not> returns None"
  by (simp_all add: returns_def answers_def)

lemma returns_bind: "x \<noteq> None \<Longrightarrow> (\<And>y. x = Some y \<Longrightarrow> returns (f y)) \<Longrightarrow> returns (Option.bind x f)"
  by (cases x) simp_all

lemma returns_call: "alive A \<Longrightarrow> (\<And>err w. returns (k err w)) \<Longrightarrow> returns (call A c catch k w)"
  unfolding alive_def by (drule conjunct1, drule spec [of _ c], drule spec [of _ w])
    (auto simp: throws_def call_def split: prod.split call_result.split)

lemma returns_verify:
  "(\<And>g. v_guider (view A w) = Some g \<Longrightarrow> returns (k g w)) \<Longrightarrow> returns (verify_guider A k w)"
  by (simp add: verify_guider_def split: option.split)

lemma returns_succeeds [simp]: "returns (succeeds m err w)" "returns (succeeds_or err w)"
  by (simp_all add: succeeds_def succeeds_or_def)

lemma alive_view:
  assumes "alive A"
  shows "v_camera (view A w) \<noteq> None" "v_mount (view A w) \<noteq> None" "v_guider (view A w) \<noteq> None"
    "v_guider (view A w) = Some g \<Longrightarrow> int_of_double (of_int (rint (X (CurrentPosition (g_star g))))) \<noteq> None"
    "v_guider (view A w) = Some g \<Longrightarrow> int_of_double (of_int (rint (Y (CurrentPosition (g_star g))))) \<noteq> None"
proof -
  have a: "v_camera (view A w) \<noteq> None \<and> v_mount (view A w) \<noteq> None \<and>
      (case v_guider (view A w) of None \<Rightarrow> False
       | Some g \<Rightarrow> is_int32 (rint (X (CurrentPosition (g_star g)))) \<and> is_int32 (rint (Y (CurrentPosition (g_star g)))))"
    using assms unfolding alive_def by blast
  have "trunc (of_int n) = n" for n by (simp add: trunc_def)
  then show "v_camera (view A w) \<noteq> None" "v_mount (view A w) \<noteq> None" "v_guider (view A w) \<noteq> None"
    "v_guider (view A w) = Some g \<Longrightarrow> int_of_double (of_int (rint (X (CurrentPosition (g_star g))))) \<noteq> None"
    "v_guider (view A w) = Some g \<Longrightarrow> int_of_double (of_int (rint (Y (CurrentPosition (g_star g))))) \<noteq> None"
    using a by (auto simp: int_of_double_def split: option.splits)
qed

lemma other_readers_defined:
  assumes "opt_prints f params"
  shows "is_camera_shift_req params \<noteq> None" "parse_lock_shift_params params \<noteq> None" "clear_which params \<noteq> None"
proof -
  have first: "opt_prints f (case params of Some (JSON_ARRAY vs) \<Rightarrow> (case vs of [] \<Rightarrow> None | v # _ \<Rightarrow> Some (jbody v)) | _ \<Rightarrow> params)"
    using assms prints_children [of f "JSON_ARRAY vs" for vs]
    by (auto simp: opt_prints_def children_def split: option.splits json_body.splits list.splits)
  show "is_camera_shift_req params \<noteq> None" "parse_lock_shift_params params \<noteq> None" "clear_which params \<noteq> None"
    using Params_defined [OF assms] Params_defined [OF first]
    by (simp_all add: is_camera_shift_req_def parse_lock_shift_params_def clear_which_def Let_def)
qed

lemma parse_settle_defined:
  assumes "\<not> nameless vs"
    "\<forall>v\<in>set vs. case float_param (jbody v) of None \<Rightarrow> True
       | Some d \<Rightarrow> jname v \<in> {Some ''time'', Some ''timeout''} \<longrightarrow> is_int32 \<lfloor>d\<rfloor>"
  shows "parse_settle (JSON_OBJECT vs) \<noteq> None"
proof -
  have t: "trunc (of_int n) = n" for n by (simp add: trunc_def)
  have "settle_members vs f \<noteq> None" for f
    using assms
  proof (induction vs arbitrary: f)
    case (Cons v vs)
    then have "settle_member v f \<noteq> None"
      by (auto simp: settle_member_def nameless_def int_of_double_def t split: option.splits)
    then show ?case using Cons by (auto simp: nameless_def)
  qed simp
  then show ?thesis by (simp add: parse_settle_def children_def)
qed

lemmas returns_rules = returns_bind returns_call returns_verify

lemma returns_reading:
  assumes "alive A" "opt_prints f params"
  shows "returns (srv_get_lock_shift_params A params w)" "returns (srv_set_lock_shift_params A params w)"
    "returns (srv_clear_calibration A params w)"
  using alive_view [OF assms(1)] other_readers_defined [OF assms(2)] assms(1)
  by (auto simp: srv_get_lock_shift_params_def srv_set_lock_shift_params_def srv_clear_calibration_def Let_def
      intro!: returns_rules split: sum.split if_split)

lemma returns_equipment_handlers:
  assumes "alive A" "opt_prints f params"
  shows "returns (srv_deselect_star A params w)"
    "returns (srv_get_exposure A params w)"
    "returns (srv_get_exposure_durations A params w)"
    "returns (srv_get_profiles A params w)"
    "returns (srv_get_profile A params w)"
    "returns (srv_get_current_equipment A params w)"
    "returns (srv_set_profile A params w)"
    "returns (srv_get_connected A params w)"
    "returns (srv_set_connected A params w)"
    "returns (srv_get_calibrated A params w)"
  using alive_view [OF assms(1)] assms(1) Params_defined [OF assms(2)]
  by (auto simp: equipment_handlers Let_def intro!: returns_rules split: option.split json_body.split if_split)

lemma returns_star_handlers:
  assumes "alive A" "opt_prints f params"
  shows "returns (srv_get_paused A params w)"
    "returns (srv_set_paused A params w)"
    "returns (srv_loop A params w)"
    "returns (srv_stop_capture A params w)"
    "returns (srv_find_star A params w)"
    "returns (srv_get_pixel_scale A params w)"
    "returns (srv_get_app_state A params w)"
  using alive_view [OF assms(1)] assms(1) Params_defined [OF assms(2)]
  by (auto simp: star_handlers Let_def intro!: returns_rules split: option.split json_body.split if_split)

lemma returns_lock_handlers:
  assumes "alive A" "opt_prints f params"
  shows "returns (srv_get_lock_position A params w)"
    "returns (srv_set_lock_position A params w)"
    "returns (srv_flip_calibration A params w)"
    "returns (srv_get_lock_shift_enabled A params w)"
    "returns (srv_set_lock_shift_enabled A params w)"
  using alive_view [OF assms(1)] assms(1) Params_defined [OF assms(2)]
  by (auto simp: lock_handlers Let_def intro!: returns_rules split: option.split json_body.split if_split)

lemma returns_image_handlers:
  assumes "alive A" "opt_prints f params"
  shows "returns (srv_save_image A params w)"
    "returns (srv_capture_single_frame A params w)"
    "returns (srv_get_use_subframes A params w)"
    "returns (srv_get_search_region A params w)"
    "returns (srv_get_star_image A params w)"
  using alive_view [OF assms(1)] assms(1) Params_defined [OF assms(2)]
  by (auto simp: image_handlers Let_def intro!: returns_rules split: option.split json_body.split if_split)

lemma returns_guiding_handlers:
  assumes "alive A" "opt_prints f params"
  shows "returns (srv_shutdown A params w)"
    "returns (srv_get_camera_binning A params w)"
    "returns (srv_get_camera_frame_size A params w)"
    "returns (srv_get_guide_output_enabled A params w)"
    "returns (srv_set_guide_output_enabled A params w)"
  using alive_view [OF assms(1)] assms(1) Params_defined [OF assms(2)]
  by (auto simp: guiding_handlers Let_def intro!: returns_rules split: option.split json_body.split if_split)

lemma returns_algorithm_handlers:
  assumes "alive A" "opt_prints f params"
  shows "returns (srv_get_algo_param_names A params w)"
    "returns (srv_get_algo_param A params w)"
    "returns (srv_get_dec_guide_mode A params w)"
    "returns (srv_set_dec_guide_mode A params w)"
    "returns (srv_get_settling A params w)"
    "returns (srv_guide_pulse A params w)"
    "returns (srv_get_calibration_data A params w)"
  using alive_view [OF assms(1)] assms(1) Params_defined [OF assms(2)]
  by (auto simp: algorithm_handlers Let_def intro!: returns_rules split: option.split json_body.split if_split)

lemma returns_status_handlers:
  assumes "alive A" "opt_prints f params"
  shows "returns (srv_get_cooler_status A params w)"
    "returns (srv_get_sensor_temperature A params w)"
    "returns (srv_export_config_settings A params w)"
    "returns (srv_lightapt_modify_response A params w)"
  using alive_view [OF assms(1)] assms(1) Params_defined [OF assms(2)]
  by (auto simp: status_handlers Let_def intro!: returns_rules split: option.split json_body.split if_split)

lemma returns_dark_handlers:
  assumes "alive A" "opt_prints f params"
  shows "returns (srv_is_darklib_loaded A params w)"
    "returns (srv_get_darklib_path A params w)"
    "returns (srv_get_darklib_name A params w)"
    "returns (srv_stop_darklib_capture A params w)"
    "returns (srv_delete_darklib_by_profile A params w)"
  using alive_view [OF assms(1)] assms(1) Params_defined [OF assms(2)]
  by (auto simp: dark_handlers Let_def intro!: returns_rules split: option.split json_body.split if_split)

lemma returns_profile_handlers:
  assumes "alive A" "opt_prints f params"
  shows "returns (srv_delete_all_profiles A params w)"
  using alive_view [OF assms(1)] assms(1) Params_defined [OF assms(2)]
  by (auto simp: profile_handlers Let_def intro!: returns_rules split: option.split json_body.split if_split)

lemmas returns_unchecked =
  returns_equipment_handlers returns_star_handlers returns_lock_handlers returns_image_handlers returns_guiding_handlers
  returns_algorithm_handlers returns_status_handlers returns_dark_handlers returns_profile_handlers returns_reading

lemma text_value: "text_or_missing p k \<Longrightarrow> p k = Some j \<Longrightarrow> string_value j \<noteq> None"
  by (cases j) (auto simp: text_or_missing_def string_value_def)

lemma harmless_check:
  assumes "harmless name params" "map_of parameter_checks name = Some (names, check)"
  obtains p where "Params names params = Some p" "check p"
  using assms by (auto simp: harmless_def split: option.splits)

lemma returns_setters:
  assumes "alive A" "Params names params = Some p"
  shows "names = [''exposure''] \<Longrightarrow> p ''exposure'' \<noteq> None \<Longrightarrow> returns (srv_set_exposure A params w)"
    "names = [''axis'', ''name'', ''value''] \<Longrightarrow> p ''value'' \<noteq> None \<Longrightarrow> returns (srv_set_algo_param A params w)"
  using assms
  by (auto simp: srv_set_exposure_def srv_set_algo_param_def intro!: returns_rules split: option.split json_body.split)

lemma returns_settling:
  assumes "alive A" "opt_prints f params" "Params names params = Some p" "settle_in_range p"
  shows "names = [''settle'', ''recalibrate'', ''roi''] \<Longrightarrow> returns (srv_guide A params w)"
    "names = [''amount'', ''raOnly'', ''settle''] \<Longrightarrow> returns (srv_dither A params w)"
proof -
  have settle: "parse_settle (JSON_OBJECT vs) \<noteq> None" if "p ''settle'' = Some (JSON_OBJECT vs)" for vs
    using prints_named [OF Params_print [OF assms(2,3) that]] assms(4) that
    by (intro parse_settle_defined) (auto simp: settle_in_range_def children_def)
  show "names = [''settle'', ''recalibrate'', ''roi''] \<Longrightarrow> returns (srv_guide A params w)"
    using assms(1,3) settle
    by (auto simp: srv_guide_def Let_def intro!: returns_rules split: option.split json_body.split sum.split)
  show "names = [''amount'', ''raOnly'', ''settle''] \<Longrightarrow> returns (srv_dither A params w)"
    using assms(1,3) settle
    by (auto simp: srv_dither_def intro!: returns_rules split: option.split json_body.split sum.split)
qed

lemma returns_dark_checked:
  assumes "alive A" "Params names params = Some p"
  shows "names = [''library_path''] \<Longrightarrow> text_or_missing p ''library_path'' \<Longrightarrow> returns (srv_set_darklib A params w)"
    "names = [''name'', ''max_exposure'', ''min_exposure'', ''count'', ''tip''] \<Longrightarrow> text_or_missing p ''tip'' \<Longrightarrow>
      returns (srv_start_darklib_capture A params w)"
  using assms alive_view [OF assms(1)] text_value [of p]
  by (auto simp: srv_set_darklib_def srv_start_darklib_capture_def Let_def intro!: returns_rules split: option.split)

lemma returns_profile_checked:
  assumes "alive A" "Params names params = Some p"
  shows "names = [''name''] \<Longrightarrow> text_or_missing p ''name'' \<Longrightarrow> returns (srv_create_profile A params w)"
    "names = [''name''] \<Longrightarrow> text_or_missing p ''name'' \<Longrightarrow> returns (srv_delete_profile A params w)"
    "names = [''oldname'', ''newname''] \<Longrightarrow> text_or_missing p ''oldname'' \<Longrightarrow> text_or_missing p ''newname'' \<Longrightarrow>
      returns (srv_rename_profile A params w)"
    "names = [''dest'', ''source''] \<Longrightarrow> text_or_missing p ''dest'' \<Longrightarrow> text_or_missing p ''source'' \<Longrightarrow>
      returns (srv_copy_profile A params w)"
    "names = [''type'', ''name'', ''value''] \<Longrightarrow> text_or_missing p ''type'' \<Longrightarrow> text_or_missing p ''name'' \<Longrightarrow>
      returns (srv_update_profile A params w)"
  using assms text_value [of p]
  by (auto simp: srv_create_profile_def srv_delete_profile_def srv_rename_profile_def srv_copy_profile_def srv_update_profile_def
      Let_def intro!: returns_rules split: option.split)

lemma harmless_methods:
  assumes "alive A" "opt_prints f params"
  shows "\<forall>(name, fn)\<in>set methods. harmless name params \<longrightarrow> returns (fn A params w)"
  unfolding methods_def list.set ball_simps prod.case
  by (intro conjI TrueI impI returns_unchecked [OF assms])
    (auto simp: harmless_def parameter_checks_def split: option.splits
      intro: returns_setters [OF assms(1)] returns_settling [OF assms] returns_dark_checked [OF assms(1)]
        returns_profile_checked [OF assms(1)])

lemma request_fields:
  assumes "prints f req"
  shows "rq_method (parse_request req) = Some m \<Longrightarrow> string_value m \<noteq> None" "opt_prints f (rq_id (parse_request req))"
proof -
  have "(\<forall>m. rq_method (fold parse_member vs r) = Some m \<longrightarrow> string_value m \<noteq> None) \<and> opt_prints f (rq_id (fold parse_member vs r))"
    if "\<forall>v\<in>set vs. prints f (jbody v)" "\<forall>m. rq_method r = Some m \<longrightarrow> string_value m \<noteq> None" "opt_prints f (rq_id r)" for vs r
    using that
  proof (induction vs arbitrary: r)
    case (Cons v vs)
    have "is_string j \<Longrightarrow> string_value j \<noteq> None" for j by (cases j) (simp_all add: string_value_def)
    then have "(\<forall>m. rq_method (parse_member v r) = Some m \<longrightarrow> string_value m \<noteq> None) \<and> opt_prints f (rq_id (parse_member v r))"
      using Cons.prems by (cases "jname v") (auto simp: parse_member_def opt_prints_def)
    then show ?case using Cons.IH [of "parse_member v r"] Cons.prems(1) by simp
  qed simp
  from this [of "children req" "\<lparr>rq_method = None, rq_params = None, rq_id = None\<rparr>"]
  show "rq_method (parse_request req) = Some m \<Longrightarrow> string_value m \<noteq> None" "opt_prints f (rq_id (parse_request req))"
    using prints_children [OF assms] by (simp_all add: parse_request_def opt_prints_def)
qed

text \<open>C38: A request without nameless members is always handled to the end, whatever its method and the types and number of its
  parameters, except for the listed ones: a missing \<open>exposure\<close> or \<open>value\<close>, settle times beyond an \<open>int\<close>, and names
  of profiles and dark libraries that are not strings. The equipment has to be there and no call may throw.\<close>

theorem harmless_request_returns:
  fixes A :: "('w, 'm) app"
  assumes "alive A" "prints (pct_g (conv A)) req"
    "\<And>name. asks_for (parse_request req) = Some name \<Longrightarrow> harmless name (rq_params (parse_request req))"
  shows "handle_request A req w \<noteq> None"
proof -
  define r where "r = parse_request req"
  note fields = request_fields [OF assms(2), folded r_def] request_prints [OF assms(2), folded r_def]
  have i: "jrpc_id (conv A) (rq_id r) \<noteq> None"
    using fields(2) by (auto simp: jrpc_id_def opt_prints_def prints_def split: option.split)
  have fn: "fn A (rq_params r) w \<noteq> None"
    if "rq_method r = Some m" "string_value m = Some name" "map_of methods name = Some fn" for m name and fn :: "('w, 'm) app \<Rightarrow> _"
    using bspec [OF harmless_methods [OF assms(1) fields(3)] map_of_SomeD [OF that(3)]] assms(3) that(1,2)
    by (simp add: r_def asks_for_def returns_def)
  note step = handle_request_def [of A req w, folded r_def] Let_def
  show ?thesis
  proof (cases "well_formed r")
    case False
    then show ?thesis using assms(2) by (auto simp: step prints_def well_formed_def split: option.split)
  next
    case True
    then obtain m name where m: "rq_method r = Some m" "params_ok (rq_params r)" "string_value m = Some name"
      using fields(1) by (auto simp: well_formed_def)
    show ?thesis
    proof (cases "map_of (methods :: (string \<times> (('w, 'm) app \<Rightarrow> _)) list) name")
      case None
      then show ?thesis using assms(2) i m by (auto simp: step prints_def)
    next
      case (Some f)
      then obtain w1 nvs where "f A (rq_params r) w = Some (w1, nvs)" using fn [OF m(1,3) Some] by auto
      then show ?thesis using assms(2) i m Some by (auto simp: step prints_def)
    qed
  qed
qed

subsection \<open>An application that logs its calls\<close>

definition sample_scope_view :: mount_view where
  "sample_scope_view =
    \<lparr>mv_name = ''Simulator'', mv_connected = True, mv_calibrated = True, mv_step_guider = False, mv_busy = False,
     mv_guiding_enabled = True, mv_xAngle = 0, mv_xRate = 0.01, mv_yAngle = 0, mv_yRate = 0.01,
     mv_ra_parity = GUIDE_PARITY_EVEN, mv_dec_parity = GUIDE_PARITY_ODD, mv_declination = 0, mv_ao_max_x = 0, mv_ao_max_y = 0,
     mv_algorithm = (\<lambda>a. \<lparr>av_class = ''Hysteresis'', av_names = [''minMove''], av_param = (\<lambda>k. None)\<rparr>)\<rparr>"

definition sample_view :: "scope app_view" where
  "sample_view =
    \<lparr>v_guider = Some guiding_scope, v_capture_active = False, v_exposure = 1000, v_exposures = [500, 1000],
     v_profile_names = [''My Equipment''], v_profile_id = (\<lambda>n. 1), v_current_profile = 1, v_current_profile_name = ''My Equipment'',
     v_camera = Some \<lparr>cv_name = ''Camera'', cv_connected = True, cv_has_shutter = False, cv_binning = 1, cv_width = 640,
       cv_height = 480, cv_use_subframes = False, cv_cooler = None, cv_temperature = None\<rparr>,
     v_mount = Some sample_scope_view, v_mount2 = None, v_aux_scope = None, v_rotator = None, v_pixel_scale = 1,
     v_dec_guide_mode = DEC_AUTO, v_settling = False, v_can_guide = None, v_allow_recalibrate = True,
     v_gear_dialog_shown = False, v_graph_log = False, v_frame_num = 1, v_temp_file = ''save_image_1'', v_file_dir = ''/data'',
     v_darks_dir = ''/darks'', v_darklib_name = (\<lambda>i. ''dark.fit'')\<rparr>"

definition sample_app :: "(server_call list, scope) app" where
  "sample_app =
    \<lparr>conv = \<lparr>pct_g = (\<lambda>x. format_d \<lfloor>x\<rfloor>), pct_f = (\<lambda>k x. format_d \<lfloor>x\<rfloor>)\<rparr>, error_line = (\<lambda>s. 1), punned_int = (\<lambda>j. 0),
     punned_float = (\<lambda>j. 0), view = (\<lambda>w. sample_view), exec = (\<lambda>c w. (w @ [c], Done))\<rparr>"

definition pause_request :: "json_value list \<Rightarrow> json_body" where
  "pause_request params = JSON_OBJECT
    [JValue (Some ''method'') (JSON_STRING ''set_paused''), JValue (Some ''params'') (JSON_ARRAY params),
     JValue (Some ''id'') (JSON_INT 7)]"

lemma sample_app_calm: "calm sample_app" "alive sample_app"
proof -
  have "CurrentPosition (g_star guiding_scope) = SodiumPoint 4 0"
    by (simp add: guiding_scope_def guiding_star_def GuiderMultiStar_new_def blank_star_def CurrentPosition_def
        sodium_point.defs SodiumPoint_def)
  moreover have "rint 4 = 4" "rint 0 = 0" by (simp_all add: rint_def Let_def)
  ultimately show "calm sample_app" "alive sample_app"
    by (simp_all add: calm_def alive_def throws_def sample_app_def sample_view_def is_int32_def)
qed

lemma parse_pause_request:
  "parse_request (pause_request vs) =
    \<lparr>rq_method = Some (JSON_STRING ''set_paused''), rq_params = Some (JSON_ARRAY vs), rq_id = Some (JSON_INT 7)\<rparr>"
  by (simp add: parse_request_def pause_request_def children_def parse_member_def)

lemma format_7: "format_d 7 = ''7''"
  by code_simp

lemma method_set_paused: "map_of methods ''set_paused'' = Some srv_set_paused"
  by (simp add: methods_def)

lemma handle_pause_request:
  assumes "prints (pct_g (conv sample_app)) (pause_request vs)" "srv_set_paused sample_app (Some (JSON_ARRAY vs)) w = Some (w', rs)"
  shows "handle_request sample_app (pause_request vs) w = Some (w', Some (JRpcResponse @ rs @ [(''id'', ''7'')]))"
proof -
  show ?thesis using assms
    by (auto simp: method_set_paused handle_request_def parse_pause_request params_ok_def string_value_def jrpc_id_def format_7 prints_def Let_def)
qed

text \<open>C36: A request that asks for a response, by its id or by being malformed, gets exactly one, which repeats the id (null for a
  malformed request) and holds either one result or one error; only the two methods that answer nothing leave both
  out. A well-formed request without an id gets no response. The calls that follow a reply must not throw.\<close>

theorem request_answered_once:
  assumes "calm A" "handle_request A req w = Some (w', response)"
  shows "case response of
      None \<Rightarrow> well_formed (parse_request req) \<and> rq_id (parse_request req) = None
    | Some nvs \<Rightarrow> \<exists>rs i. nvs = JRpcResponse @ rs @ [(''id'', i)] \<and>
        (is_reply rs \<or> rs = [] \<and> asks_for (parse_request req) \<in> Some ` set silent_methods) \<and>
        (if well_formed (parse_request req)
         then Option.bind (rq_id (parse_request req)) (json_format (pct_g (conv A))) = Some i else i = nv_null)"
proof (cases rule: request_cases [OF assms(2)])
  case 1
  then show ?thesis by (auto simp: malformed_def)
next
  case (2 name)
  then show ?thesis by (auto split: option.splits)
next
  case (3 name fn nvs)
  then show ?thesis
    using method_replies(1) [OF assms(1) 3(3,4)] by (cases "rq_id (parse_request req)") auto
qed

theorem request_answered_once_witness:
  "calm sample_app \<and>
   handle_request sample_app (pause_request [JValue None (JSON_BOOL True), JValue None (JSON_STRING ''full'')]) [] =
     Some ([CallSetPaused PAUSE_FULL], Some (JRpcResponse @ [ok0] @ [(''id'', ''7'')])) \<and>
   (\<exists>rs i. JRpcResponse @ [ok0] @ [(''id'', ''7'')] = JRpcResponse @ rs @ [(''id'', i)] \<and> (is_reply rs \<or> rs = []))"
proof -
  let ?req = "pause_request [JValue None (JSON_BOOL True), JValue None (JSON_STRING ''full'')]"
  have h: "handle_request sample_app ?req [] = Some ([CallSetPaused PAUSE_FULL], Some (JRpcResponse @ [ok0] @ [(''id'', ''7'')]))"
    by (intro handle_pause_request)
      (simp_all add: prints_def pause_request_def srv_set_paused_def Params_def bool_param_def call_def sample_app_def answers_def)
  show ?thesis
    using sample_app_calm(1) h request_answered_once [OF sample_app_calm(1) h] by (simp only: option.case) blast
qed


text \<open>The exception.\<close>

lemma shutter_left_closed:
  assumes "v_guider (view A w) = Some g" "g_state g = GS_SELECTED" "v_camera (view A w) = Some cam"
    "exec A (CallSetShutterClosed True) w = (w1, Done)"
  shows "srv_start_darklib_capture A None w = answers (error_result ''Max exposure time should be given'') w1"
  using assms by (simp add: srv_start_darklib_capture_def Params_def call_def IsCalibratingOrGuiding_def)


theorem harmless_request_returns_witness:
  "handle_request sample_app (pause_request [JValue None (JSON_BOOL True)]) [] \<noteq> None"
proof (rule harmless_request_returns [OF sample_app_calm(2)])
  show "prints (pct_g (conv sample_app)) (pause_request [JValue None (JSON_BOOL True)])"
    by (simp add: prints_def pause_request_def)
  show "harmless name (rq_params (parse_request (pause_request [JValue None (JSON_BOOL True)])))"
    if "asks_for (parse_request (pause_request [JValue None (JSON_BOOL True)])) = Some name" for name
  proof -
    have "name = ''set_paused''" using that by (simp add: parse_pause_request asks_for_def string_value_def)
    then show ?thesis by (simp add: harmless_def parameter_checks_def)
  qed
qed

text \<open>What is excluded does end the application: the exposure is looked at before it is checked.\<close>

lemma set_exposure_without_parameter:
  "harmless ''set_exposure'' (Some (JSON_ARRAY [])) \<longleftrightarrow> False" "srv_set_exposure A (Some (JSON_ARRAY [])) w = None"
  by (simp_all add: harmless_def parameter_checks_def Params_def srv_set_exposure_def)

end
