(* ===== verification/ServerLines.thy ===== *)
theory ServerLines
  imports ServerSafety
begin

text \<open>
  The line buffer of a client: how a request arrives, in how many pieces and how long each, does not matter as long as every
  line fits the buffer; a longer one is dropped with everything that has arrived.
\<close>

fun short_lines :: "nat \<Rightarrow> string \<Rightarrow> bool" where
  \<comment> \<open>every run without a line feed, the first one counted from \<open>k\<close> on, is shorter than the buffer\<close>
  "short_lines k [] = (k < READ_SIZE)"
| "short_lines k (c # s) = (if c = LF then k < READ_SIZE \<and> short_lines 0 s else short_lines (Suc k) s)"

lemma short_lines_less: "short_lines k s \<Longrightarrow> k < READ_SIZE"
  by (induction s arbitrary: k) (auto split: if_splits dest: Suc_lessD)

lemma short_lines_append:
  "short_lines k (s @ t) \<Longrightarrow> short_lines k s"
  by (induction s arbitrary: k) (auto split: if_splits dest: short_lines_less)

lemma short_lines_run: "LF \<notin> set s \<Longrightarrow> short_lines k (s @ t) = short_lines (k + length s) t"
  by (induction s arbitrary: k) auto

lemma short_lines_line: "LF \<notin> set s \<Longrightarrow> short_lines k (s @ LF # t) \<Longrightarrow> short_lines 0 t"
  by (simp add: short_lines_run)

text \<open>Splitting at the first line feed.\<close>

lemma first_line:
  assumes "LF \<in> set s"
  obtains line rest where "s = line @ LF # rest" "LF \<notin> set line"
    "takeWhile (\<lambda>c. c \<noteq> LF) s = line" "tl (dropWhile (\<lambda>c. c \<noteq> LF) s) = rest"
proof -
  obtain line rest where s: "s = line @ LF # rest" "LF \<notin> set line" using split_list_first [OF assms] by blast
  have "takeWhile (\<lambda>c. c \<noteq> LF) s = line" "dropWhile (\<lambda>c. c \<noteq> LF) s = LF # rest"
    using s by (auto simp: takeWhile_append dropWhile_append)
  then show ?thesis using that [OF s] by simp
qed

text \<open>The reference: a text that is all there at once, line by line.\<close>

function serve_text :: "('w, 'm) app \<Rightarrow> string \<Rightarrow> 'w \<Rightarrow> (string \<times> 'w \<times> string list) option" where
  \<comment> \<open>the unfinished line, the state and the replies\<close>
  "serve_text A s w =
    (if LF \<notin> set s then Some (s, w, [])
     else do { (w, out) \<leftarrow> handle_cli_input_complete A (takeWhile (\<lambda>c. c \<noteq> LF) s) w;
               (rest, w, out') \<leftarrow> serve_text A (tl (dropWhile (\<lambda>c. c \<noteq> LF) s)) w;
               Some (rest, w, out @ out') })"
  by pat_completeness auto
termination
  by (relation "measure (\<lambda>(A, s, w). length s)") (auto dest: line_rest_length)

declare serve_text.simps [simp del]

text \<open>Some complete line of a text holds a request that runs the event loop.\<close>

function connects :: "string \<Rightarrow> bool" where
  "connects s =
    (if LF \<notin> set s then False
     else runs_event_loop (takeWhile (\<lambda>c. c \<noteq> LF) s) \<or> connects (tl (dropWhile (\<lambda>c. c \<noteq> LF) s)))"
  by pat_completeness auto
termination
  by (relation "measure length") (auto dest: line_rest_length)

declare connects.simps [simp del]

lemma connects_line:
  assumes "LF \<notin> set line"
  shows "connects (line @ LF # rest) \<longleftrightarrow> runs_event_loop line \<or> connects rest"
proof -
  have "takeWhile (\<lambda>c. c \<noteq> LF) (line @ LF # rest) = line" "dropWhile (\<lambda>c. c \<noteq> LF) (line @ LF # rest) = LF # rest"
    using assms by (auto simp: takeWhile_append dropWhile_append)
  then show ?thesis by (subst connects.simps) simp
qed

lemma connects_none: "LF \<notin> set s \<Longrightarrow> \<not> connects s"
  by (simp add: connects.simps)

lemma connects_append: "connects s \<Longrightarrow> connects (s @ t)"
proof (induction "length s" arbitrary: s rule: less_induct)
  case less
  then have "LF \<in> set s" using connects_none by blast
  then obtain line rest where s: "s = line @ LF # rest" "LF \<notin> set line" by (rule first_line)
  then show ?case using less.prems less.hyps [of rest] by (auto simp: connects_line)
qed

lemma serve_text_none: "LF \<notin> set buf \<Longrightarrow> serve_text A buf w = Some (buf, w, [])"
  by (simp add: serve_text.simps)

lemma serve_text_line:
  assumes "LF \<notin> set line"
  shows "serve_text A (line @ LF # rest) w =
    do { (w, out) \<leftarrow> handle_cli_input_complete A line w;
         (buf, w, out') \<leftarrow> serve_text A rest w;
         Some (buf, w, out @ out') }"
proof -
  have "takeWhile (\<lambda>c. c \<noteq> LF) (line @ LF # rest) = line" "dropWhile (\<lambda>c. c \<noteq> LF) (line @ LF # rest) = LF # rest"
    using assms by (auto simp: takeWhile_append dropWhile_append)
  then show ?thesis by (subst serve_text.simps) simp
qed

text \<open>Serving a text is serving its first part and then the rest with what was left over.\<close>

lemma serve_text_append:
  "serve_text A (s @ t) w =
    do { (buf, w, out) \<leftarrow> serve_text A s w;
         (buf, w, out') \<leftarrow> serve_text A (buf @ t) w;
         Some (buf, w, out @ out') }"
proof (induction "length s" arbitrary: s w rule: less_induct)
  case less
  show ?case
  proof (cases "LF \<in> set s")
    case False
    then show ?thesis by (simp add: serve_text_none split: bind_splits)
  next
    case True
    then obtain line rest where s: "s = line @ LF # rest" "LF \<notin> set line" by (rule first_line)
    have "serve_text A (rest @ t) w' =
        do { (buf, w, out) \<leftarrow> serve_text A rest w'; (buf, w, out') \<leftarrow> serve_text A (buf @ t) w; Some (buf, w, out @ out') }" for w'
      by (rule less) (simp add: s)
    then show ?thesis
      by (simp add: s serve_text_line [OF s(2)] split: bind_splits prod.splits)
  qed
qed

lemma serve_text_rest: "serve_text A s w = Some (buf, w', out) \<Longrightarrow> LF \<notin> set buf"
proof (induction "length s" arbitrary: s w out rule: less_induct)
  case less
  show ?case
  proof (cases "LF \<in> set s")
    case False
    then show ?thesis using less.prems by (auto simp: serve_text_none)
  next
    case True
    then obtain line rest where s: "s = line @ LF # rest" "LF \<notin> set line" by (rule first_line)
    then show ?thesis using less.prems less.hyps [of rest]
      by (auto simp: serve_text_line [OF s(2)] bind_Some)
  qed
qed

lemma serve_text_short:
  "serve_text A s w = Some (buf, w', out) \<Longrightarrow> short_lines 0 (s @ t) \<Longrightarrow> short_lines 0 (buf @ t)"
proof (induction "length s" arbitrary: s w out rule: less_induct)
  case less
  show ?case
  proof (cases "LF \<in> set s")
    case False
    then show ?thesis using less.prems by (auto simp: serve_text_none)
  next
    case True
    then obtain line rest where s: "s = line @ LF # rest" "LF \<notin> set line" by (rule first_line)
    then obtain w1 out1 where "serve_text A rest w1 = Some (buf, w', out1)"
      using less.prems(1) by (auto simp: serve_text_line [OF s(2)] bind_Some)
    moreover have "short_lines 0 (rest @ t)" using less.prems(2) s short_lines_line [OF s(2)] by simp
    ultimately show ?thesis using less.hyps [of rest] by (simp add: s(1))
  qed
qed

subsection \<open>Reading\<close>

text \<open>What is read while the event loop of a request runs is only appended to the buffer.\<close>

lemma reads_in_loop_keep:
  assumes "reads_in_loop k pieces buf = Some (ps, buf', sent)" "[] \<notin> set pieces" "length buf < READ_SIZE"
    "short_lines 0 (buf @ concat pieces)"
  shows "sent = [] \<and> buf' @ concat ps = buf @ concat pieces \<and> [] \<notin> set ps \<and> length buf' \<le> READ_SIZE"
  using assms
proof (induction k pieces buf rule: reads_in_loop.induct)
  case (3 k p ps0 buf)
  define n where "n = min (READ_SIZE - length buf) (length p)"
  define qs where "qs = (if n < length p then drop n p # ps0 else ps0)"
  have n: "0 < n" using "3.prems"(2,3) by (auto simp: n_def)
  have q: "(buf @ take n p) @ concat qs = buf @ concat (p # ps0)" "[] \<notin> set qs"
    using "3.prems"(2) by (auto simp: qs_def)
  have lf: "LF \<notin> set (buf @ take n p)" and r: "reads_in_loop k qs (buf @ take n p) = Some (ps, buf', sent)"
    using "3.prems"(1,3) n by (auto simp: Let_def simp flip: n_def qs_def split: if_splits)
  have s: "short_lines 0 ((buf @ take n p) @ concat qs)" using "3.prems"(4) q(1) by simp
  then have "length (buf @ take n p) < READ_SIZE" using short_lines_run [OF lf] short_lines_less by fastforce
  moreover have "\<not> READ_SIZE \<le> length buf" "n \<noteq> 0" using "3.prems"(3) n by simp_all
  ultimately show ?case
    using "3.IH" [OF _ n_def, folded qs_def] lf r q s by simp
qed auto

lemma while_served_keep:
  assumes "while_served loops pieces line rest = Some (loops', ps, buf, sent)" "[] \<notin> set pieces" "length rest < READ_SIZE"
    "short_lines 0 (rest @ concat pieces)"
  shows "sent = [] \<and> buf @ concat ps = rest @ concat pieces \<and> [] \<notin> set ps \<and> length buf \<le> READ_SIZE"
  using assms reads_in_loop_keep [of _ pieces rest]
  by (auto simp: while_served_def split: if_splits list.splits)

lemma serve_lines_step:
  assumes "LF \<notin> set line"
  shows "serve_lines A loops pieces (line @ LF # rest) w =
    do { (loops, pieces, buf, sent) \<leftarrow> while_served loops pieces line rest;
         (w, out) \<leftarrow> handle_cli_input_complete A line w;
         (loops, pieces, buf, w, out') \<leftarrow> serve_lines A loops pieces buf w;
         Some (loops, pieces, buf, w, sent @ out @ out') }"
proof -
  have "takeWhile (\<lambda>c. c \<noteq> LF) (line @ LF # rest) = line" "dropWhile (\<lambda>c. c \<noteq> LF) (line @ LF # rest) = LF # rest"
    using assms by (auto simp: takeWhile_append dropWhile_append)
  then show ?thesis by (subst serve_lines.simps) simp
qed

lemma serve_lines_sound:
  assumes "serve_lines A loops pieces buf w = Some (loops', ps, buf', w', out)" "[] \<notin> set pieces" "length buf \<le> READ_SIZE"
    "short_lines 0 (buf @ concat pieces)"
  shows "LF \<notin> set buf' \<and> [] \<notin> set ps \<and> short_lines 0 (buf' @ concat ps) \<and>
    (connects (buf' @ concat ps) \<longrightarrow> connects (buf @ concat pieces)) \<and>
    serve_text A (buf @ concat pieces) w = map_option (\<lambda>(b, v, o'). (b, v, out @ o')) (serve_text A (buf' @ concat ps) w')"
  using assms
proof (induction "length buf + length (concat pieces)" arbitrary: loops pieces buf w out rule: less_induct)
  case less
  show ?case
  proof (cases "LF \<in> set buf")
    case False
    then show ?thesis using less.prems by (auto simp: serve_lines.simps prod.case_eq_if option.map_id)
  next
    case True
    then obtain line rest where s: "buf = line @ LF # rest" "LF \<notin> set line" by (rule first_line)
    obtain l p b sent w1 o1 o2 where
      u: "while_served loops pieces line rest = Some (l, p, b, sent)" "handle_cli_input_complete A line w = Some (w1, o1)"
        "serve_lines A l p b w1 = Some (loops', ps, buf', w', o2)" "out = sent @ o1 @ o2"
      using less.prems(1) by (auto simp: s serve_lines_step [OF s(2)] split: bind_splits)
    have short: "short_lines 0 (rest @ concat pieces)" using less.prems(4) s short_lines_line [OF s(2)] by simp
    have len: "length rest < READ_SIZE" using less.prems(3) by (simp add: s)
    note k = while_served_keep [OF u(1) less.prems(2) len short]
    have "length b + length (concat p) < length buf + length (concat pieces)"
      using while_served_length [OF u(1)] by (simp add: s)
    from less.hyps [OF this u(3)] k short
    have ih: "LF \<notin> set buf' \<and> [] \<notin> set ps \<and> short_lines 0 (buf' @ concat ps) \<and>
      (connects (buf' @ concat ps) \<longrightarrow> connects (rest @ concat pieces)) \<and>
      serve_text A (rest @ concat pieces) w1 = map_option (\<lambda>(b, v, o'). (b, v, o2 @ o')) (serve_text A (buf' @ concat ps) w')"
      by simp
    have "serve_text A (buf @ concat pieces) w =
        do { (b, v, o') \<leftarrow> serve_text A (rest @ concat pieces) w1; Some (b, v, o1 @ o') }"
      using serve_text_line [OF s(2), of A "rest @ concat pieces" w] by (simp add: s u(2))
    moreover have "connects (rest @ concat pieces) \<Longrightarrow> connects (buf @ concat pieces)"
      using s by (simp add: connects_line)
    ultimately show ?thesis using ih k u(4) by (cases "serve_text A (buf' @ concat ps) w'") auto
  qed
qed

text \<open>When nothing is read while a request runs the event loop, or no request of the buffer runs it.\<close>

definition undisturbed :: "nat list \<Rightarrow> string \<Rightarrow> bool" where
  "undisturbed loops buf \<longleftrightarrow> (\<forall>k\<in>set loops. k = 0) \<or> \<not> connects buf"

lemma undisturbed_line:
  assumes "undisturbed loops (line @ LF # rest)" "LF \<notin> set line"
  obtains loops' where "while_served loops pieces line rest = Some (loops', pieces, rest, [])" "undisturbed loops' rest"
    "(\<forall>k\<in>set loops. k = 0) \<longrightarrow> (\<forall>k\<in>set loops'. k = 0)"
proof (cases "runs_event_loop line")
  case False
  then have "undisturbed loops rest" using assms by (simp add: undisturbed_def connects_line)
  then show ?thesis using that [of loops] False by (simp add: while_served_def)
next
  case True
  then have none: "\<forall>k\<in>set loops. k = 0" using assms by (simp add: undisturbed_def connects_line)
  show ?thesis
  proof (cases loops)
    case Nil
    then show ?thesis using that [of "[]"] True by (simp add: while_served_def undisturbed_def)
  next
    case (Cons k loops')
    then show ?thesis using that [of loops'] True none by (simp add: while_served_def undisturbed_def)
  qed
qed

lemma serve_lines_undisturbed:
  assumes "undisturbed loops buf"
  shows "\<exists>loops'. ((\<forall>k\<in>set loops. k = 0) \<longrightarrow> (\<forall>k\<in>set loops'. k = 0)) \<and>
    serve_lines A loops pieces buf w = map_option (\<lambda>(b, v, out). (loops', pieces, b, v, out)) (serve_text A buf w)"
  using assms
proof (induction "length buf" arbitrary: loops buf w rule: less_induct)
  case less
  show ?case
  proof (cases "LF \<in> set buf")
    case False
    then show ?thesis by (auto simp: serve_lines.simps serve_text_none)
  next
    case True
    then obtain line rest where s: "buf = line @ LF # rest" "LF \<notin> set line" by (rule first_line)
    obtain l where l: "while_served loops pieces line rest = Some (l, pieces, rest, [])" "undisturbed l rest"
      "(\<forall>k\<in>set loops. k = 0) \<longrightarrow> (\<forall>k\<in>set l. k = 0)"
      by (rule undisturbed_line [where pieces = pieces, OF less.prems [unfolded s(1)] s(2)])
    show ?thesis
    proof (cases "handle_cli_input_complete A line w")
      case None
      then show ?thesis using l by (auto simp: s serve_lines_step [OF s(2)] serve_text_line [OF s(2)])
    next
      case (Some r)
      obtain w1 o1 where r: "r = (w1, o1)" by fastforce
      obtain l' where l': "(\<forall>k\<in>set l. k = 0) \<longrightarrow> (\<forall>k\<in>set l'. k = 0)"
        "serve_lines A l pieces rest w1 = map_option (\<lambda>(b, v, out). (l', pieces, b, v, out)) (serve_text A rest w1)"
        using less.hyps [of rest l w1] l(2) by (auto simp: s)
      have "serve_lines A loops pieces buf w = map_option (\<lambda>(b, v, out). (l', pieces, b, v, out)) (serve_text A buf w)"
        using l(1) l'(2) Some
        by (cases "serve_text A rest w1") (auto simp: s r serve_lines_step [OF s(2)] serve_text_line [OF s(2)])
      then show ?thesis using l(3) l'(1) by blast
    qed
  qed
qed

lemma input_empty: "handle_cli_input A loops [] buf w = Some (buf, w, [])"
  by (simp add: handle_cli_input.simps)

lemma input_piece:
  assumes "length buf < READ_SIZE" "p \<noteq> []" "n = min (READ_SIZE - length buf) (length p)"
  shows "handle_cli_input A loops (p # ps) buf w =
    do { (loops, pieces, buf, w, out) \<leftarrow> serve_lines A loops (if n < length p then drop n p # ps else ps) (buf @ take n p) w;
         (buf, w, out') \<leftarrow> handle_cli_input A loops pieces buf w;
         Some (buf, w, out @ out') }"
  using assms by (subst handle_cli_input.simps) (simp add: Let_def)


definition two_lines :: "string list" where
  \<comment> \<open>an empty object, an array that is not closed and the start of another line, in three pieces\<close>
  "two_lines = [''{'', ''}'' @ [LF] @ ''[7'', [LF] @ ''['']"


text \<open>A second request that arrives while the first one runs the event loop.\<close>

lemma request_freed_in_loop:
  assumes "runs_event_loop line" "LF \<notin> set line" "LF \<in> set next" "length next \<le> READ_SIZE"
  shows "serve_lines A (Suc k # loops) (next # pieces) (line @ [LF]) w = None"
proof -
  have "next \<noteq> []" using assms(3) by auto
  then have "while_served (Suc k # loops) (next # pieces) line [] = None"
    using assms by (simp add: while_served_def READ_SIZE_def)
  then show ?thesis using serve_lines_step [OF assms(2), of A _ _ "[]"] by simp
qed

text \<open>Without a buffer's length between line feeds, a piece that meets a full buffer is lost and the client is told so.\<close>

lemma long_line_dropped:
  assumes "length buf = READ_SIZE" "pieces \<noteq> []"
  shows "handle_cli_input A loops pieces buf w = Some ([], w, [obj_text too_big @ crlf])"
  using assms by (cases pieces) (simp_all add: handle_cli_input.simps)

end
