(* ===== verification/ServerImage.thy ===== *)
theory ServerImage
  imports EventServer
begin

text \<open>
  The star image a client asks for: \<open>B64Encode\<close> against a decoder written from RFC 4648, and the part of the frame that is
  sent.
\<close>

definition b64_value :: "char \<Rightarrow> nat" where "b64_value c = length (takeWhile (\<lambda>e. e \<noteq> c) E64)"

fun b64_decode :: "string \<Rightarrow> nat list" where
  \<comment> \<open>groups of four characters, the last one with one or two \<open>=\<close>\<close>
  "b64_decode (a # b # c # d # s) =
    (let a = b64_value a; b = b64_value b; p = (c = CHR ''=''); q = (d = CHR ''=''); c = b64_value c; d = b64_value d
     in (if p then [a * 4 + b div 16]
         else if q then [a * 4 + b div 16, b mod 16 * 16 + c div 4]
         else [a * 4 + b div 16, b mod 16 * 16 + c div 4, c mod 4 * 64 + d]) @ b64_decode s)"
| "b64_decode s = []"

definition b64_encode :: "nat list \<Rightarrow> string" where
  "b64_encode bytes = b64_finish (b64_append bytes B64Encode_new)"

lemma E64_digits: "i < 64 \<Longrightarrow> b64_value (E64 ! i) = i \<and> E64 ! i \<noteq> CHR ''=''"
proof -
  have "list_all (\<lambda>i. b64_value (E64 ! i) = i \<and> E64 ! i \<noteq> CHR ''='') [0..<64]" by code_simp
  then show "i < 64 \<Longrightarrow> b64_value (E64 ! i) = i \<and> E64 ! i \<noteq> CHR ''=''" by (simp add: list_all_iff)
qed

lemma byte_groups:
  fixes a b c :: nat
  assumes "a < 256" "b < 256" "c < 256"
  defines "t \<equiv> (a * 256 + b) * 256 + c"
  shows "t div 262144 = a div 4" "t div 4096 mod 64 = a mod 4 * 16 + b div 16" "t div 64 mod 64 = b mod 16 * 4 + c div 64"
    "t mod 64 = c mod 64"
proof -
  define a0 a1 where "a0 = a div 4" and "a1 = a mod 4"
  define b0 b1 where "b0 = b div 16" and "b1 = b mod 16"
  define c0 c1 where "c0 = c div 64" and "c1 = c mod 64"
  have s: "a = 4 * a0 + a1" "b = 16 * b0 + b1" "c = 64 * c0 + c1" "a1 < 4" "b1 < 16" "c1 < 64" "b0 < 16" "c0 < 4"
    using assms(2,3) by (simp_all add: a0_def a1_def b0_def b1_def c0_def c1_def less_mult_imp_div_less)
  have t: "t = 262144 * a0 + 4096 * (16 * a1 + b0) + 64 * (4 * b1 + c0) + c1" by (simp add: t_def s)
  have mod64: "(64 * k + x) mod 64 = x" if "x < 64" for k x :: nat using that by simp
  have "t div 4096 = 64 * a0 + (16 * a1 + b0)" using s(4-8) by (intro div_nat_eqI) (simp_all add: t)
  moreover have "t div 64 = 64 * (64 * a0 + (16 * a1 + b0)) + (4 * b1 + c0)" using s(4-8) by (intro div_nat_eqI) (simp_all add: t)
  moreover have "t = 64 * (4096 * a0 + 64 * (16 * a1 + b0) + (4 * b1 + c0)) + c1" by (simp add: t)
  ultimately have "t div 4096 mod 64 = 16 * a1 + b0" "t div 64 mod 64 = 4 * b1 + c0" "t mod 64 = c1"
    using s(4-8) by (simp_all only: mod64)
  moreover have "t div 262144 = a0" using s(4-8) by (intro div_nat_eqI) (simp_all add: t)
  ultimately show "t div 262144 = a div 4" "t div 4096 mod 64 = a mod 4 * 16 + b div 16"
    "t div 64 mod 64 = b mod 16 * 4 + c div 64" "t mod 64 = c mod 64"
    by (simp_all add: a0_def a1_def b0_def b1_def c0_def c1_def)
qed

fun b64_chars :: "nat list \<Rightarrow> string" where
  \<comment> \<open>the characters of a sequence of bytes, group by group\<close>
  "b64_chars (x # y # z # bs) =
    [E64 ! (x div 4), E64 ! (x mod 4 * 16 + y div 16), E64 ! (y mod 16 * 4 + z div 64), E64 ! (z mod 64)] @ b64_chars bs"
| "b64_chars [x, y] = [E64 ! (x div 4), E64 ! (x mod 4 * 16 + y div 16), E64 ! (y mod 16 * 4), CHR ''='']"
| "b64_chars [x] = [E64 ! (x div 4), E64 ! (x mod 4 * 16), CHR ''='', CHR ''='']"
| "b64_chars [] = []"

lemma append_keeps: "(b64_nread b + 1) mod 3 \<noteq> 0 \<Longrightarrow>
    append1 ch b = b\<lparr>b64_t := b64_t b * 256 + ch, b64_nread := b64_nread b + 1\<rparr>"
  by (simp add: append1_def Let_def)

lemma append_flushes:
  assumes "(b64_nread b + 1) mod 3 = 0" "t = b64_t b * 256 + ch"
  shows "append1 ch b = \<lparr>b64_os = b64_os b @ [E64 ! (t div 262144), E64 ! (t div 4096 mod 64), E64 ! (t div 64 mod 64), E64 ! (t mod 64)],
    b64_t = 0, b64_nread = b64_nread b + 1\<rparr>"
  using assms by (simp add: append1_def Let_def)

lemma append_group:
  assumes "b64_nread b mod 3 = 0" "b64_t b = 0" "x < 256" "y < 256" "z < 256"
  shows "append1 z (append1 y (append1 x b)) =
    \<lparr>b64_os = b64_os b @ b64_chars [x, y, z], b64_t = 0, b64_nread = b64_nread b + 3\<rparr>"
proof -
  have "(b64_nread b + 1) mod 3 \<noteq> 0" "(b64_nread b + 1 + 1) mod 3 \<noteq> 0" "(b64_nread b + 1 + 1 + 1) mod 3 = 0"
    using assms(1) by presburger+
  note n = this
  define b1 where "b1 = append1 x b"
  have b1: "b64_os b1 = b64_os b" "b64_t b1 = x" "b64_nread b1 = b64_nread b + 1"
    using append_keeps [OF n(1)] assms(2) by (simp_all add: b1_def)
  define b2 where "b2 = append1 y b1"
  have b2: "b64_os b2 = b64_os b" "b64_t b2 = x * 256 + y" "b64_nread b2 = b64_nread b + 1 + 1"
    using append_keeps [of b1 y] n(2) b1 by (simp_all add: b2_def)
  define t where "t = (x * 256 + y) * 256 + z"
  note groups = byte_groups [OF assms(3-5), folded t_def]
  have "t = b64_t b2 * 256 + z" "(b64_nread b2 + 1) mod 3 = 0" using n(3) by (simp_all only: b2 t_def)
  note flushed = append_flushes [OF this(2,1)]
  show ?thesis
    unfolding b1_def [symmetric] b2_def [symmetric] flushed groups b2 by simp
qed

lemma two_bytes:
  fixes x y :: nat
  assumes "x < 256" "y < 256"
  shows "(x * 256 + y) div 1024 = x div 4" "(x * 256 + y) div 16 mod 64 = x mod 4 * 16 + y div 16"
    "(x * 256 + y) mod 16 = y mod 16"
proof -
  define x0 x1 y0 y1 where "x0 = x div 4" and "x1 = x mod 4" and "y0 = y div 16" and "y1 = y mod 16"
  have s: "x = 4 * x0 + x1" "y = 16 * y0 + y1" "x1 < 4" "y1 < 16" "y0 < 16"
    using assms by (simp_all add: x0_def x1_def y0_def y1_def less_mult_imp_div_less)
  have "(x * 256 + y) div 1024 = x0" using s(3-5) by (intro div_nat_eqI) (simp_all add: s(1,2))
  moreover have "(x * 256 + y) div 16 = (16 * x1 + y0) + 64 * x0" using s(3-5) by (intro div_nat_eqI) (simp_all add: s(1,2))
  then have "(x * 256 + y) div 16 mod 64 = 16 * x1 + y0" using s(3,5) by (simp only: mod_mult_self2) simp
  moreover have "(x * 256 + y) mod 16 = y1"
  proof -
    have "x * 256 + y = y1 + 16 * (16 * x + y0)" by (simp add: s(2))
    then show ?thesis using s(4) by (simp only: mod_mult_self2 mod_less)
  qed
  ultimately show "(x * 256 + y) div 1024 = x div 4" "(x * 256 + y) div 16 mod 64 = x mod 4 * 16 + y div 16"
    "(x * 256 + y) mod 16 = y mod 16"
    by (simp_all add: x0_def x1_def y0_def y1_def)
qed

lemma finish_chars:
  assumes "\<forall>x\<in>set bytes. x < 256" "b64_nread b mod 3 = 0" "b64_t b = 0"
  shows "b64_finish (fold append1 bytes b) = b64_os b @ b64_chars bytes @ [CHR 0x00]"
  using assms
proof (induction bytes arbitrary: b rule: b64_chars.induct)
  case (1 x y z bs)
  have "(b64_nread b + 3) mod 3 = 0" using 1(3) by simp
  then show ?case using 1 by (simp add: append_group)
next
  case (2 x y)
  have "Suc (b64_nread b) mod 3 = 1" "Suc (Suc (b64_nread b)) mod 3 = 2" using 2(2) by presburger+
  then show ?case using two_bytes [of x y] 2(1,3) by (simp add: append1_def b64_finish_def Let_def)
next
  case (3 x)
  have "Suc (b64_nread b) mod 3 = 1" using 3(2) by presburger
  then show ?case using 3(3) by (simp add: append1_def b64_finish_def Let_def)
qed (simp add: b64_finish_def)

lemma decode_chars: "\<forall>x\<in>set bytes. x < 256 \<Longrightarrow> b64_decode (b64_chars bytes) = bytes"
proof (induction bytes rule: b64_chars.induct)
  case (1 x y z bs)
  then show ?case by (auto simp: E64_digits less_mult_imp_div_less)
next
  case (2 x y)
  then show ?case by (auto simp: E64_digits less_mult_imp_div_less)
next
  case (3 x)
  then show ?case by (auto simp: E64_digits less_mult_imp_div_less)
qed simp

lemma u16_bytes_range: "x \<in> set (u16_bytes p) \<Longrightarrow> x < 256"
proof -
  have "unat p < 256 * 256" using unsigned_less [of p, where ?'a = nat] by simp
  then show "x \<in> set (u16_bytes p) \<Longrightarrow> x < 256" by (auto simp: u16_bytes_def less_mult_imp_div_less)
qed

definition frame_rect :: "us_image \<Rightarrow> rect" where
  \<comment> \<open>the part of the frame that was read out\<close>
  "frame_rect img = (if rect_IsEmpty (Subframe img) then size_rect img else Subframe img)"

definition rect_inside :: "rect \<Rightarrow> us_image \<Rightarrow> bool" where
  "rect_inside r img \<longleftrightarrow> 0 \<le> rX r \<and> rX r + rW r \<le> Width img \<and> 0 \<le> rY r \<and> rY r + rH r \<le> Height img"

lemma rect_Intersect_bounds:
  assumes "q = rect_Intersect r s" "rW q \<noteq> 0 \<or> rH q \<noteq> 0"
  shows "0 < rW q \<and> 0 < rH q \<and> rX s \<le> rX q \<and> rX q + rW q \<le> rX s + rW s \<and> rY s \<le> rY q \<and> rY q + rH q \<le> rY s + rH s \<and>
    rW q \<le> rW r \<and> rH q \<le> rH r"
proof -
  define x0 y0 where "x0 = max (rX r) (rX s)" and "y0 = max (rY r) (rY s)"
  define w h where "w = min (rect_Right r) (rect_Right s) - x0 + 1" and "h = min (rect_Bottom r) (rect_Bottom s) - y0 + 1"
  have q: "q = (if w \<le> 0 \<or> h \<le> 0 then \<lparr>rX = x0, rY = y0, rW = 0, rH = 0\<rparr> else \<lparr>rX = x0, rY = y0, rW = w, rH = h\<rparr>)"
    by (simp only: assms(1) rect_Intersect_def Let_def x0_def y0_def w_def h_def)
  then have "0 < w" "0 < h" "rX q = x0" "rY q = y0" "rW q = w" "rH q = h" using assms(2) by (auto split: if_splits)
  moreover have "rX s \<le> x0" "x0 + w \<le> rX s + rW s" "rY s \<le> y0" "y0 + h \<le> rY s + rH s" "w \<le> rW r" "h \<le> rH r"
    by (simp_all add: x0_def y0_def w_def h_def rect_Right_def rect_Bottom_def)
  ultimately show ?thesis by simp
qed

lemma star_rect_inside:
  assumes "rect_inside (frame_rect img) img" "r = star_rect img reqsize sx sy" "rW r \<noteq> 0 \<or> rH r \<noteq> 0"
  shows "rect_inside r img" "0 < rW r" "0 < rH r"
    "rX (frame_rect img) \<le> rX r" "rX r + rW r \<le> rX (frame_rect img) + rW (frame_rect img)"
    "rY (frame_rect img) \<le> rY r" "rY r + rH r \<le> rY (frame_rect img) + rH (frame_rect img)"
    "rW r \<le> 63 \<and> rH r \<le> 63"
proof -
  define halfw where "halfw = min ((reqsize - 1) div 2) 31"
  have "r = rect_Intersect \<lparr>rX = sx - halfw, rY = sy - halfw, rW = 2 * halfw + 1, rH = 2 * halfw + 1\<rparr> (frame_rect img)"
    by (simp only: assms(2) star_rect_def frame_rect_def halfw_def Let_def)
  from rect_Intersect_bounds [OF this assms(3)] have b: "0 < rW r" "0 < rH r"
    "rX (frame_rect img) \<le> rX r" "rX r + rW r \<le> rX (frame_rect img) + rW (frame_rect img)"
    "rY (frame_rect img) \<le> rY r" "rY r + rH r \<le> rY (frame_rect img) + rH (frame_rect img)"
    "rW r \<le> 2 * halfw + 1" "rH r \<le> 2 * halfw + 1"
    by simp_all
  have "halfw \<le> 31" by (simp add: halfw_def)
  then show "rect_inside r img" "0 < rW r" "0 < rH r"
    "rX (frame_rect img) \<le> rX r" "rX r + rW r \<le> rX (frame_rect img) + rW (frame_rect img)"
    "rY (frame_rect img) \<le> rY r" "rY r + rH r \<le> rY (frame_rect img) + rH (frame_rect img)"
    "rW r \<le> 63 \<and> rH r \<le> 63"
    using b assms(1) by (simp_all add: rect_inside_def)
qed

lemma length_sent_pixels: "length (sent_pixels img r) = nat (rW r) * nat (rH r)"
  by (simp add: sent_pixels_def rect_Right_def rect_Bottom_def length_concat comp_def sum_list_triv)

text \<open>C40: The pixels of a star image are those of the square around the star as far as the frame reaches, row by row, and the text sent
  decodes to exactly their bytes: every pixel is read inside the image, at most 63 by 63 of them, and the text has four
  characters for three bytes and a NUL at its end.\<close>

theorem star_image_faithful:
  assumes "image_ok img" "rect_inside (frame_rect img) img" "r = star_rect img reqsize sx sy"
  shows "b64_decode (butlast (encode_pixels img r)) = concat (map u16_bytes (sent_pixels img r)) \<and>
    last (encode_pixels img r) = CHR 0x00 \<and>
    length (encode_pixels img r) = 4 * ((2 * (nat (rW r) * nat (rH r)) + 2) div 3) + 1 \<and>
    (\<forall>x\<in>{rX r..rect_Right r}. \<forall>y\<in>{rY r..rect_Bottom r}.
       rect_Contains (frame_rect img) (x, y) \<and> nat (y * Width img + x) < length (ImageData img)) \<and>
    rW r \<le> 63 \<and> rH r \<le> 63"
proof -
  let ?bytes = "concat (map u16_bytes (sent_pixels img r))"
  have bytes: "\<forall>x\<in>set ?bytes. x < 256" by (auto dest: u16_bytes_range)
  have e: "encode_pixels img r = b64_chars ?bytes @ [CHR 0x00]"
    using finish_chars [OF bytes, of B64Encode_new]
    by (simp add: encode_pixels_def b64_append_def B64Encode_new_def)
  have chars: "length (b64_chars bs) = 4 * ((length bs + 2) div 3)" for bs
  proof (induction bs rule: b64_chars.induct)
    case (1 x y z bs)
    have "(length (x # y # z # bs) + 2) div 3 = (length bs + 2) div 3 + 1" by simp
    then show ?case using 1 by simp
  qed simp_all
  have n: "length ?bytes = 2 * (nat (rW r) * nat (rH r))"
    by (simp add: length_concat comp_def u16_bytes_def sum_list_triv length_sent_pixels)
  have inside: "rect_Contains (frame_rect img) (x, y) \<and> nat (y * Width img + x) < length (ImageData img)"
    if xy: "x \<in> {rX r..rect_Right r}" "y \<in> {rY r..rect_Bottom r}" for x y
  proof -
    have "rW r \<noteq> 0 \<or> rH r \<noteq> 0" using xy by (auto simp: rect_Right_def)
    note f = star_rect_inside [OF assms(2,3) this]
    have "0 \<le> x" "x < Width img" "0 \<le> y" "y < Height img"
      using f(1) xy by (auto simp: rect_inside_def rect_Right_def rect_Bottom_def)
    moreover from this have "y * Width img + x < Width img * Height img"
    proof -
      have "y * Width img + x < (y + 1) * Width img" using \<open>x < Width img\<close> by (simp add: distrib_right)
      also have "\<dots> \<le> Height img * Width img" using \<open>y < Height img\<close> \<open>x < Width img\<close> \<open>0 \<le> x\<close> by (intro mult_right_mono) auto
      finally show ?thesis by (simp add: mult.commute)
    qed
    moreover from this have "nat (y * Width img + x) < length (ImageData img)"
      using assms(1) \<open>0 \<le> x\<close> \<open>0 \<le> y\<close> \<open>x < Width img\<close> by (simp add: image_ok_def nat_less_iff)
    ultimately show ?thesis
      using f(4-7) xy by (auto simp: rect_Contains_def rect_Right_def rect_Bottom_def)
  qed
  have size: "rW r \<le> 63 \<and> rH r \<le> 63"
    using star_rect_inside(8) [OF assms(2,3)] by (cases "rW r \<noteq> 0 \<or> rH r \<noteq> 0") auto
  show ?thesis using inside size by (simp add: e decode_chars [OF bytes] chars n)
qed

definition small_image :: us_image where
  \<comment> \<open>three columns and two rows\<close>
  "small_image = \<lparr>ImageData = [1, 2, 3, 256, 257, 65535], Width = 3, Height = 2, Subframe = \<lparr>rX = 0, rY = 0, rW = 0, rH = 0\<rparr>,
     MinADU = 0, MaxADU = 0, MedianADU = 0, FiltMin = 0, FiltMax = 0, BitsPerPixel = 16, Pedestal = 0\<rparr>"

theorem star_image_faithful_witness:
  "star_rect small_image 15 9 1 = \<lparr>rX = 2, rY = 0, rW = 1, rH = 2\<rparr> \<and>
   sent_pixels small_image (star_rect small_image 15 9 1) = [3, 65535] \<and>
   b64_decode (butlast (encode_pixels small_image (star_rect small_image 15 9 1))) = [3, 0, 255, 255]"
proof -
  have ok: "image_ok small_image" "rect_inside (frame_rect small_image) small_image"
    by (simp_all add: image_ok_def small_image_def rect_inside_def frame_rect_def rect_IsEmpty_def size_rect_def)
  have r: "star_rect small_image 15 9 1 = \<lparr>rX = 2, rY = 0, rW = 1, rH = 2\<rparr>"
    by (simp add: star_rect_def small_image_def rect_IsEmpty_def size_rect_def rect_Intersect_def rect_Right_def rect_Bottom_def Let_def)
  have p: "sent_pixels small_image (star_rect small_image 15 9 1) = [3, 65535]"
    unfolding r by (simp add: sent_pixels_def rect_Right_def rect_Bottom_def small_image_def px_def upto.simps)
  have "concat (map u16_bytes [3, 65535]) = [3, 0, 255, 255]" by (simp add: u16_bytes_def)
  then show ?thesis using r p star_image_faithful [OF ok refl, of 15 9 1] by (simp only: p)
qed

end
