(* ===== verification/Spec2Isabelle.thy ===== *)
theory Spec2Isabelle
  imports Prelude GuidingStats GuideAlgorithms Controller Geometry Mount BlcHistory Scope BacklashComp
    ScopeSettings ScopeCalibration BacklashTool StarTracking Images ImageFilters ImageRepair StarFind StarSelect
    MultiStar Guider GuiderRun GuiderDither Json StepGuider StepGuiderBump StepGuiderRun StepGuiderCal
    ServerParams EventServer ServerRun ServerReplies ServerSafety ServerLines ServerImage
begin

text \<open>
  \<^bold>\<open>Sodium\<close>, a telescope autoguider. A camera exposes frames, the guider finds the star in each of them,
  the mount turns the star's displacement into pulses on two axes, and guide algorithms decide how
  much of the displacement to correct. A server accepts guide and dither requests, which a controller state
  machine carries out. The calibration measures how the star moves under pulses.

  \<^bold>\<open>Theories\<close>
  \<^item> \<open>Prelude\<close>: finite doubles and divisions, list lemmas, and the few types that several theories share.
  \<^item> \<open>GuidingStats\<close> (\<open>guiding/guiding_stats.cpp\<close>): \<open>DescriptiveStats\<close>, the high- and low-pass filters,
    \<open>AxisStats\<close> and \<open>WindowedAxisStats\<close>. The properties relate the incrementally maintained sums to the
    entries of the window, and the linear fit to the least squares problem.
  \<^item> \<open>GuideAlgorithms\<close> (\<open>algorithm/guide_algorithm_*.cpp\<close>): identity, hysteresis, lowpass, lowpass2 and resist
    switch, with setters, constructors and the parameter interface of the event server.
  \<^item> \<open>Controller\<close> (\<open>controller.cpp\<close>): \<open>PhdController\<close>, the state machine behind the guide and dither requests,
    over explicit sequences of requests and frames.
  \<^item> \<open>Geometry\<close> (\<open>guiding/point.hpp\<close>, the angle functions of \<open>image/image_math.hpp\<close>): points, shifting points.
  \<^item> \<open>Mount\<close> (\<open>telescope/mount.cpp\<close>): stored calibrations, the camera/mount transforms, the meridian flip, the
    adjustment to where the scope points, and \<open>MoveOffset\<close>. The locale \<open>axis_mover\<close> states what \<open>MoveOffset\<close>
    needs of the virtual \<open>MoveAxis\<close>.
  \<^item> \<open>Scope\<close> (\<open>telescope/scope.cpp\<close>): settings, \<open>MoveAxis\<close> with the pulse limits (an interpretation of
    \<open>axis_mover\<close>), and the calibration state machine, one definition per case of the switch.
  \<^item> \<open>BlcHistory\<close>, \<open>BacklashComp\<close> (\<open>algorithm/backlash_comp.cpp\<close>): the Dec backlash compensation, its history of residual
    errors, and the scope's \<open>MoveOffset\<close> composed of the guide algorithms, the compensation and \<open>MoveAxis\<close>.
  \<^item> \<open>ScopeSettings\<close> (\<open>telescope/scope.cpp\<close>, \<open>gui/calstep_dialog.cpp\<close>): guiding on and off, the Dec guide mode, the
    correction of the calibration step.
  \<^item> \<open>BacklashTool\<close> (\<open>algorithm/backlash_comp.cpp\<close>): the measurement of the Dec backlash, one definition per case of
    its switch; it ends, returns the star, and measures an ideal mount accurately.
  \<^item> \<open>StarTracking\<close> (\<open>guiding/guider_multistar.cpp\<close>, \<open>guiding/star.hpp\<close>): stars, and the checks of mass and distance
    that decide whether a star is believed.
  \<^item> \<open>Images\<close>, \<open>ImageFilters\<close>, \<open>ImageRepair\<close> (\<open>image/image_math.cpp\<close>, \<open>image/usImage.cpp\<close>): images, the median filters and
    their reference definitions, statistics, dark subtraction and the defect map.
  \<^item> \<open>StarFind\<close>, \<open>StarSelect\<close> (\<open>guiding/star.cpp\<close>): \<open>Star::Find\<close> by its stages, with the bound on where a star is found, and
    \<open>AutoFind\<close>: the convolution, the exclusions and the choice of the guide star and its secondary stars.
  \<^item> \<open>MultiStar\<close> (\<open>guiding/guider_multistar.cpp\<close>): the offset refined by the secondary stars, and the update of the current
    position, composed of \<open>StarFind\<close> and the checks of \<open>StarTracking\<close>.
  \<^item> \<open>Guider\<close> (\<open>guiding/guider.cpp\<close>): the guiding state machine over the two mounts, the lock position, dithers, shifts and frames.
  \<^item> \<open>GuiderRun\<close>: the locale \<open>guider_mount\<close>, what the guider needs of a mount, with the interpretation on the scope of
    \<open>Scope\<close> and \<open>Mount\<close>; runs over requests, frames and outside events that may take the
    calibration away at any time. \<open>GuiderDither\<close>: dithers and the fast recenter.
  \<^item> \<open>StepGuider\<close> (\<open>ao/stepguider.cpp\<close>): the adaptive optics unit, a mount that moves by steps: travel limits, the calibration,
    one definition per case of its switch, and the bumps sent to the telescope's mount. \<open>StepGuiderBump\<close>: how long bumps are,
    when they start and end. \<open>StepGuiderRun\<close>: the locale \<open>ao_driver\<close>, the contract of a device, and \<open>ao_bounded\<close>, a device whose
    travel may have been lowered, with the simulated and the INDI units as interpretations; the unit stays inside the largest travel
    set, over any requests and changes of the travel; the unit as an \<open>axis_mover\<close> and as a
    \<open>guider_mount\<close>. \<open>StepGuiderCal\<close>: the calibration of a unit that does every step ends and is exact.
  \<^item> \<open>Json\<close> (\<open>server/json_parser.cpp\<close>, \<open>server/event_server.cpp\<close>): the parser of requests, a loop over tokens with the
    stack of open values, and the printer it inverts.
  \<^item> \<open>ServerParams\<close>, \<open>EventServer\<close>, \<open>ServerRun\<close> (\<open>server/event_server.cpp\<close>): what the replies are printed with and the readers of
    parameters; one definition \<open>srv_<method>\<close> per handler, over a view of the application and the calls it can be asked to make;
    the table of methods, batches, and the line buffer of a client. \<open>ServerReplies\<close>: rules for handlers, by which each has one
    reply and refuses bad parameters before it changes anything, but for the one that closes the shutter first. \<open>ServerSafety\<close>: the properties of requests, and which of them
    can end the application. \<open>ServerLines\<close>: the input may arrive in any pieces, and
    what becomes of it when a request runs the event loop while more arrives. \<open>ServerImage\<close>: the encoded star image.
  \<^item> \<open>ScopeCalibration\<close>: the calibration ends, its rates are positive, its RA moves are undone.

  \<^bold>\<open>Conventions.\<close> A C++ object is a record with the names of its members; a method is a function from the
  state to the new state and the result. A double is a real number: rounding is not modelled, a division
  by zero is \<^term>\<open>None\<close> (\<open>fdiv\<close>), and so is the NaN or infinity it gives. An \<open>int\<close> is an unbounded integer
  where the code's bounds exclude an overflow; option bits and 16-bit members are words. A thrown exception
  is the error branch it is caught as. What the code reads of the rest of the program (the driver, the camera,
  the clock, the profile) is an argument or an environment record. What it sends out (pulses, alerts,
  profile writes, notifications) is appended to a trace or returned as a list. Failing assertions are not modelled.
  Runs are lists of requests or frames, so no fuel is needed; loops of the code are structural recursions. The frames of an
  AO calibration are counted by a fuel, and the theorem gives a number of frames that is enough.

  \<^bold>\<open>Not modelled.\<close> The GUI and the dialogs, device drivers, network and file I/O, loggers, and the vendored
  libraries; the connections of the event server and the events it sends to all clients; the Gaussian process guide algorithm. Threads: each handler runs to its end before the
  next, as the program's main loop runs them. The exception is the connecting of equipment, which runs the event loop: there the
  further input of the same client is modelled, that of other clients and other events are not.
\<close>

end
